(* ===== verification/Prelude.thy ===== *)
theory Prelude
  imports Complex_Main "HOL-Library.AList" "HOL-Library.Char_ord" "HOL-Library.List_Lexorder"
begin

text \<open>
  What every component of the development shares.

  \<^item> JavaScript numbers: a finite number is a rational (rounding of doubles is not modelled),
    and \<open>NaN\<close> and the two infinities are values of their own, so that the code's
    \<open>Number.isFinite\<close> and \<open>Number.isInteger\<close> checks are branches of the model.
  \<^item> Dynamic values (\<open>unknown\<close> in the TypeScript code): the datatype \<open>jsval\<close>.
  \<^item> A JavaScript \<open>Map\<close>, \<open>Set\<close> or object iterates in insertion order and a second
    \<open>set\<close> of a key keeps its place: an association list with \<open>AList.update\<close> and
    \<open>AList.delete\<close> of the library.
  \<^item> Strings are character lists whose characters are code units below 256; times are
    milliseconds as \<open>int\<close>.
  \<^item> The contract of a state machine with an invariant (locale \<open>machine\<close>), interpreted by
    every component that keeps state between calls.
\<close>

named_theorems omap_simps \<open>insertion-ordered maps\<close>
named_theorems num_simps \<open>JavaScript numbers\<close>

section \<open>Results\<close>

type_synonym ms = int \<comment> \<open>epoch milliseconds\<close>

section \<open>Numbers\<close>

datatype jsnum = Fin rat | NaN | PosInf | NegInf

fun num_le :: "jsnum \<Rightarrow> jsnum \<Rightarrow> bool" where
  "num_le NaN _ = False"
| "num_le _ NaN = False"
| "num_le NegInf _ = True"
| "num_le _ PosInf = True"
| "num_le (Fin a) (Fin b) = (a \<le> b)"
| "num_le _ _ = False"

fun num_lt :: "jsnum \<Rightarrow> jsnum \<Rightarrow> bool" where
  "num_lt NaN _ = False"
| "num_lt _ NaN = False"
| "num_lt a b = (\<not> num_le b a)"

definition is_finite_num :: "jsnum \<Rightarrow> bool" where
  "is_finite_num n = (case n of Fin _ \<Rightarrow> True | _ \<Rightarrow> False)"

definition is_integer_num :: "jsnum \<Rightarrow> bool" where
  "is_integer_num n = (case n of Fin q \<Rightarrow> of_int \<lfloor>q\<rfloor> = q | _ \<Rightarrow> False)"

abbreviation num_int :: "int \<Rightarrow> jsnum" where
  "num_int i \<equiv> Fin (of_int i)"

lemma is_finite_num_simps [simp, num_simps]:
  "is_finite_num (Fin q)" "\<not> is_finite_num NaN" "\<not> is_finite_num PosInf" "\<not> is_finite_num NegInf"
  by (simp_all add: is_finite_num_def)

lemma is_integer_num_simps [simp, num_simps]:
  "is_integer_num (Fin q) = (of_int \<lfloor>q\<rfloor> = q)"
  "\<not> is_integer_num NaN" "\<not> is_integer_num PosInf" "\<not> is_integer_num NegInf"
  by (simp_all add: is_integer_num_def)

lemma is_integer_num_obtain:
  assumes "is_integer_num n"
  obtains i where "n = num_int i"
proof (cases n)
  case (Fin q)
  with assms have "n = num_int \<lfloor>q\<rfloor>" by (metis is_integer_num_simps(1))
  then show thesis by (rule that)
qed (use assms in simp_all)

section \<open>Dynamic values\<close>

datatype jsval =
    JUndef
  | JNull
  | JBool bool
  | JNum jsnum
  | JStr string
  | JArr "jsval list"
  | JObj "(string \<times> jsval) list"

text \<open>Property access on a record: an absent key reads as \<open>undefined\<close>.\<close>

definition jfield :: "(string \<times> jsval) list \<Rightarrow> string \<Rightarrow> jsval" where
  "jfield obj k = (case map_of obj k of None \<Rightarrow> JUndef | Some v \<Rightarrow> v)"

definition jhas :: "(string \<times> jsval) list \<Rightarrow> string \<Rightarrow> bool" where
  "jhas obj k \<longleftrightarrow> map_of obj k \<noteq> None"

lemma jfield_update [simp, omap_simps]:
  "jfield (AList.update k v obj) k' = (if k' = k then v else jfield obj k')"
  by (simp add: jfield_def update_conv')

text \<open>Truthiness, and \<open>typeof v === 'object'\<close> (true of \<open>null\<close> and of arrays).\<close>

fun truthy :: "jsval \<Rightarrow> bool" where
  "truthy JUndef = False"
| "truthy JNull = False"
| "truthy (JBool b) = b"
| "truthy (JNum n) = (n \<noteq> Fin 0 \<and> n \<noteq> NaN)"
| "truthy (JStr s) = (s \<noteq> [])"
| "truthy (JArr _) = True"
| "truthy (JObj _) = True"

fun typeof_object :: "jsval \<Rightarrow> bool" where
  "typeof_object JNull = True"
| "typeof_object (JArr _) = True"
| "typeof_object (JObj _) = True"
| "typeof_object _ = False"

text \<open>Reading a property of any value: only objects have the properties the code asks for.\<close>

fun jget :: "jsval \<Rightarrow> string \<Rightarrow> jsval" where
  "jget (JObj obj) k = jfield obj k"
| "jget _ k = JUndef"

text \<open>\<open>isPlainObject\<close>, as several modules of the code declare it.\<close>

fun plain_object :: "jsval \<Rightarrow> bool" where
  "plain_object (JObj _) = True"
| "plain_object _ = False"

section \<open>Insertion-ordered maps\<close>

definition okeys :: "('k \<times> 'v) list \<Rightarrow> 'k list" where
  "okeys m = map fst m"

definition owf :: "('k \<times> 'v) list \<Rightarrow> bool" where
  "owf m \<longleftrightarrow> distinct (map fst m)"

lemma owf_empty [simp]: "owf []"
  by (simp add: owf_def)

lemma owf_update [simp, intro]: "owf m \<Longrightarrow> owf (AList.update k v m)"
  by (simp add: owf_def distinct_update)

lemma owf_delete [simp, intro]: "owf m \<Longrightarrow> owf (AList.delete k m)"
  by (simp add: owf_def distinct_delete)

lemma owf_filter [simp, intro]: "owf m \<Longrightarrow> owf (filter P m)"
  unfolding owf_def by (induction m) auto

lemma owf_map_of: "owf m \<Longrightarrow> (k, v) \<in> set m \<longleftrightarrow> map_of m k = Some v"
  by (simp add: owf_def map_of_eq_Some_iff)

lemma lookup_delete [simp, omap_simps]:
  "map_of (AList.delete k m) k' = (if k' = k then None else map_of m k')"
  by (simp add: delete_conv')

lemma lookup_update [simp, omap_simps]:
  "map_of (AList.update k v m) k' = (if k' = k then Some v else map_of m k')"
  by (simp add: update_conv')

lemma owf_update_set:
  assumes "owf m"
  shows "set (AList.update k v m) = insert (k, v) {p \<in> set m. fst p \<noteq> k}"
proof (rule set_eqI)
  fix p
  have "owf (AList.update k v m)" using assms by simp
  then have "p \<in> set (AList.update k v m) \<longleftrightarrow> map_of (AList.update k v m) (fst p) = Some (snd p)"
    by (metis owf_map_of prod.collapse)
  also have "\<dots> \<longleftrightarrow> p \<in> insert (k, v) {p \<in> set m. fst p \<noteq> k}"
    using assms by (cases p) (auto simp: owf_map_of)
  finally show "p \<in> set (AList.update k v m) \<longleftrightarrow> p \<in> insert (k, v) {p \<in> set m. fst p \<noteq> k}" .
qed

lemma delete_set: "set (AList.delete k m) = {p \<in> set m. fst p \<noteq> k}"
  by (auto simp: AList.delete_eq)

lemma map_of_filter_snd:
  assumes "owf m"
  shows "map_of (filter (\<lambda>(k, v). P v) m) k =
    (case map_of m k of Some v \<Rightarrow> if P v then Some v else None | None \<Rightarrow> None)"
  using assms
proof (induction m)
  case (Cons p m)
  obtain k' v' where p: "p = (k', v')" by (cases p)
  show ?case
  proof (cases "k' = k")
    case True
    then have "map_of m k = None" using Cons.prems p
      by (simp add: owf_def map_of_eq_None_iff)
    with True p Cons show ?thesis by (simp add: owf_def)
  next
    case False
    with p Cons show ?thesis by (simp add: owf_def)
  qed
qed simp

lemma length_update:
  "length (AList.update k v m) = (if k \<in> fst ` set m then length m else Suc (length m))"
  by (induction m) auto

section \<open>Strings\<close>

definition js_space :: "char \<Rightarrow> bool" where
  "js_space c = (let n = (of_char c :: nat) in (9 \<le> n \<and> n \<le> 13) \<or> n = 32 \<or> n = 160)"

definition js_trim :: "string \<Rightarrow> string" where
  "js_trim s = rev (dropWhile js_space (rev (dropWhile js_space s)))"

text \<open>\<open>toLowerCase\<close>: the ASCII capitals and the Latin-1 capitals (192 to 222 but 215) move up by 32.\<close>

definition lower_char :: "char \<Rightarrow> char" where
  "lower_char c = (let n = (of_char c :: nat) in
     if (65 \<le> n \<and> n \<le> 90) \<or> (192 \<le> n \<and> n \<le> 222 \<and> n \<noteq> 215) then char_of (n + 32) else c)"

definition js_lower :: "string \<Rightarrow> string" where
  "js_lower s = map lower_char s"

definition starts_with :: "string \<Rightarrow> string \<Rightarrow> bool" where
  "starts_with p s \<longleftrightarrow> take (length p) s = p"

fun split_on :: "char \<Rightarrow> string \<Rightarrow> string list" where
  "split_on c [] = [[]]"
| "split_on c (x # xs) =
     (if x = c then [] # split_on c xs
      else (case split_on c xs of [] \<Rightarrow> [[x]] | w # ws \<Rightarrow> (x # w) # ws))"

text \<open>\<open>Array.prototype.join\<close>.\<close>

fun js_join :: "string \<Rightarrow> string list \<Rightarrow> string" where
  "js_join sep [] = []"
| "js_join sep [x] = x"
| "js_join sep (x # y # ys) = x @ sep @ js_join sep (y # ys)"

lemma starts_with_append [simp]: "starts_with p (p @ s)"
  by (simp add: starts_with_def)

lemma js_trim_idem [simp]: "js_trim (js_trim s) = js_trim s"
proof -
  have d: "dropWhile P (dropWhile P xs) = dropWhile P xs" for P :: "char \<Rightarrow> bool" and xs
    by (induction xs) auto
  have h: "dropWhile P (rev (dropWhile P xs)) = rev (dropWhile P xs)"
    if "dropWhile P (rev xs) = rev xs" for P :: "char \<Rightarrow> bool" and xs
  proof (cases "dropWhile P xs = []")
    case False
    then have "last (dropWhile P xs) = last xs"
      by (metis last_appendR takeWhile_dropWhile_id)
    moreover have "xs \<noteq> []" using False by auto
    ultimately show ?thesis using that False by (simp add: dropWhile_eq_self_iff hd_rev)
  next
    case True
    show ?thesis unfolding True by simp
  qed
  have "dropWhile js_space (js_trim s) = js_trim s"
    unfolding js_trim_def by (rule h) (simp add: d)
  then show ?thesis by (simp add: js_trim_def d)
qed

lemma lower_char_idem [simp]: "lower_char (lower_char c) = lower_char c"
proof -
  have b: "(of_char c :: nat) < 256" by simp
  show ?thesis
    using b by (auto simp: lower_char_def Let_def)
qed

lemma js_lower_idem [simp]: "js_lower (js_lower s) = js_lower s"
  by (simp add: js_lower_def)

lemma js_lower_append [simp]: "js_lower (a @ b) = js_lower a @ js_lower b"
  by (simp add: js_lower_def)

section \<open>State machines with an invariant\<close>

text \<open>
  A component that keeps state offers a step function from the state and a request to the
  next state and a response, and promises an invariant: it holds of a fresh state and every
  step keeps it. What a client gets is that it holds after every sequence of requests, and
  after every prefix of one.
\<close>

fun run_steps :: "('s \<Rightarrow> 'r \<Rightarrow> 's) \<Rightarrow> 's \<Rightarrow> 'r list \<Rightarrow> 's" where
  "run_steps step s [] = s"
| "run_steps step s (r # rs) = run_steps step (step s r) rs"

lemma run_steps_append: "run_steps step s (rs @ qs) = run_steps step (run_steps step s rs) qs"
  by (induction rs arbitrary: s) auto

locale machine =
  fixes step :: "'s \<Rightarrow> 'r \<Rightarrow> 's" and inv :: "'s \<Rightarrow> bool" and fresh :: "'s \<Rightarrow> bool"
  assumes inv_fresh: "fresh s \<Longrightarrow> inv s"
    and inv_step: "inv s \<Longrightarrow> inv (step s r)"
begin

lemma inv_run_from: "inv s \<Longrightarrow> inv (run_steps step s rs)"
  by (induction rs arbitrary: s) (auto intro: inv_step)

lemma inv_run: "fresh s \<Longrightarrow> inv (run_steps step s rs)"
  by (rule inv_run_from, rule inv_fresh)

lemma inv_prefix: "fresh s \<Longrightarrow> inv (run_steps step s (take n rs))"
  by (rule inv_run)

end

end
