(* ===== verification/ContactTypes.thy ===== *)
theory ContactTypes
  imports Prelude
begin

text \<open>
  The contact model shared by the policies: \<open>src/contacts/types.ts\<close> (tiers, kinds, trust levels,
  system roles, the originator stamped on a task) and the two survivorship rules of
  \<open>src/contacts/contact-service.ts\<close>. A tier read at run time may be a string outside the
  union; \<open>tier_value\<close> makes it \<open>None\<close>, so the code's fail-closed guards are branches here.
\<close>

datatype contact_tier = TBlocked | TUnknown | TKnown | TTrusted | TPrincipal

type_synonym tier_value = "contact_tier option"

datatype contact_kind = KPerson | KOrganization | KAutomated | KPrincipal | KAgent

datatype system_role = RPrincipal | RAgent | RSystem

datatype trust_level = Ceo | High | Medium | Low

fun TIER_RANK :: "contact_tier \<Rightarrow> nat" where
  "TIER_RANK TBlocked = 0"
| "TIER_RANK TUnknown = 1"
| "TIER_RANK TKnown = 2"
| "TIER_RANK TTrusted = 3"
| "TIER_RANK TPrincipal = 4"

fun TRUST_RANK :: "trust_level \<Rightarrow> nat" where
  "TRUST_RANK Low = 0"
| "TRUST_RANK Medium = 1"
| "TRUST_RANK High = 2"
| "TRUST_RANK Ceo = 3"

text \<open>Tiers are linearly ordered by their rank, so the library's order lemmas apply to them.\<close>

lemma TIER_RANK_inj: "TIER_RANK a = TIER_RANK b \<Longrightarrow> a = b"
  by (cases a; cases b) simp_all

instantiation contact_tier :: linorder
begin

definition less_eq_contact_tier :: "contact_tier \<Rightarrow> contact_tier \<Rightarrow> bool" where
  "less_eq_contact_tier a b \<longleftrightarrow> TIER_RANK a \<le> TIER_RANK b"

definition less_contact_tier :: "contact_tier \<Rightarrow> contact_tier \<Rightarrow> bool" where
  "less_contact_tier a b \<longleftrightarrow> TIER_RANK a < TIER_RANK b"

instance
  by standard (auto simp: less_eq_contact_tier_def less_contact_tier_def intro: TIER_RANK_inj)

end

lemmas tier_order_defs = less_eq_contact_tier_def less_contact_tier_def

text \<open>\<open>meetsMinimumTier\<close> throws when either argument is not a recognized tier.\<close>

datatype tier_error = UnrecognizedTier

definition meetsMinimumTier :: "tier_value \<Rightarrow> tier_value \<Rightarrow> tier_error + bool" where
  "meetsMinimumTier actual required =
     (case (actual, required) of
        (Some a, Some r) \<Rightarrow> Inr (TIER_RANK r \<le> TIER_RANK a)
      | _ \<Rightarrow> Inl UnrecognizedTier)"

text \<open>On recognized tiers the comparison is a plain Boolean.\<close>

abbreviation meets_tier :: "contact_tier \<Rightarrow> contact_tier \<Rightarrow> bool" where
  "meets_tier actual required \<equiv> required \<le> actual"

lemma meetsMinimumTier_recognized:
  "meetsMinimumTier (Some a) (Some r) = Inr (meets_tier a r)"
  by (simp add: meetsMinimumTier_def less_eq_contact_tier_def)

lemma tier_bounds [simp]: "TBlocked \<le> t" "t \<le> TPrincipal"
  by (cases t; simp add: tier_order_defs)+

record task_originator =
  o_contactId :: string
  o_systemRole :: "system_role option"
  o_channel :: string
  o_initiatedAt :: string
  o_tier :: "contact_tier option" \<comment> \<open>absent and null are read alike\<close>
  o_authenticated :: bool \<comment> \<open>missing reads as false\<close>

text \<open>What the structural-contact and tier-survivorship rules read of a contact.\<close>

record contact_standing =
  s_systemRole :: "system_role option"
  s_kind :: contact_kind
  s_tier :: contact_tier

definition isStructuralContact :: "'a contact_standing_scheme \<Rightarrow> bool" where
  "isStructuralContact c \<longleftrightarrow>
     s_systemRole c \<noteq> None \<or> s_kind c = KPrincipal \<or> s_kind c = KAgent \<or> s_tier c = TPrincipal"

definition survivingTier :: "'a contact_standing_scheme \<Rightarrow> contact_tier list \<Rightarrow> contact_tier" where
  "survivingTier primary others =
     (if isStructuralContact primary then s_tier primary
      else if s_tier primary = TBlocked \<or> TBlocked \<in> set others then TBlocked
      else foldl (\<lambda>best c. if TIER_RANK best < TIER_RANK c then c else best) (s_tier primary) others)"

lemma foldl_max_tier:
  "foldl (\<lambda>best c. if TIER_RANK best < TIER_RANK c then c else best) b cs = foldl max b cs"
  by (induction cs arbitrary: b)
     (auto simp: max_def tier_order_defs not_less dest: TIER_RANK_inj order_antisym)

lemma foldl_max_start: "b \<le> foldl max b cs" for b :: "'a::linorder"
proof (induction cs arbitrary: b)
  case (Cons x xs)
  have "b \<le> max b x" by simp
  also have "\<dots> \<le> foldl max (max b x) xs" by (rule Cons)
  finally show ?case by simp
qed simp

lemma foldl_max_upper: "c \<in> set cs \<Longrightarrow> c \<le> foldl max b cs" for b :: "'a::linorder"
proof (induction cs arbitrary: b)
  case (Cons x xs)
  have "x \<le> foldl max (max b x) xs"
    by (rule order_trans [OF _ foldl_max_start]) simp
  with Cons show ?case by auto
qed simp

lemma foldl_max_mem: "foldl max b cs \<in> insert b (set cs)" for b :: "'a::linorder"
proof (induction cs arbitrary: b)
  case (Cons x xs)
  show ?case using Cons [of "max b x"] by (auto simp: max_def split: if_splits)
qed simp

section \<open>Policies that are monotone in the tier\<close>

text \<open>
  A tier-driven policy is written as a predicate "this tier is let through". The contract is
  that a higher tier is never refused what a lower one is allowed; the client then knows that
  the policy is a single cut-off on the tier axis.
\<close>

locale tier_monotone =
  fixes permits :: "contact_tier \<Rightarrow> bool"
  assumes permits_mono: "a \<le> b \<Longrightarrow> permits a \<Longrightarrow> permits b"
begin

lemma principal_most: "permits t \<Longrightarrow> permits TPrincipal"
  by (rule permits_mono [of t]) simp

lemma blocked_least: "permits TBlocked \<Longrightarrow> permits t"
  by (rule permits_mono [of TBlocked]) simp

lemma cutoff: "(\<forall>t. \<not> permits t) \<or> (\<exists>m. \<forall>t. permits t \<longleftrightarrow> m \<le> t)"
proof (cases "\<exists>t. permits t")
  case True
  let ?ok = "{n. \<exists>t. permits t \<and> TIER_RANK t = n}"
  define n where "n = (LEAST n. n \<in> ?ok)"
  from True obtain t0 where "TIER_RANK t0 \<in> ?ok" by blast
  then have "n \<in> ?ok" unfolding n_def by (rule LeastI)
  then obtain m where m: "permits m" "TIER_RANK m = n" by blast
  have "permits t \<longleftrightarrow> m \<le> t" for t
  proof
    assume "permits t"
    then have "TIER_RANK t \<in> ?ok" by blast
    then have "n \<le> TIER_RANK t" unfolding n_def by (rule Least_le)
    with m show "m \<le> t" by (simp add: less_eq_contact_tier_def)
  qed (use m permits_mono in blast)
  then show ?thesis by blast
qed blast

end

end
