(* ===== verification/Escalation.thy ===== *)
theory Escalation
  imports ContactTypes
begin

text \<open>
  \<open>src/autonomy/escalation-policy.ts\<close>: the two policy tables of the escalation line (what may
  be disclosed to a tier, what a tier may have done) and the mapping from a manifest's
  \<open>action_risk\<close> to a consequence class. Values outside a union are \<open>None\<close> and fail closed.
\<close>

datatype disclosure_class = DPublic | DPrincipalContext | DThirdParty | DConfidential

definition ALL_DISCLOSURE_CLASSES :: "disclosure_class list" where
  "ALL_DISCLOSURE_CLASSES = [DPublic, DPrincipalContext, DThirdParty, DConfidential]"

datatype consequence_class = CNone | CReversibleInternal | CReversibleExternal | CIrreversible

datatype decision = Allow | Escalate

fun DISCLOSURE_ALLOWED :: "contact_tier \<Rightarrow> disclosure_class list" where
  "DISCLOSURE_ALLOWED TBlocked = []"
| "DISCLOSURE_ALLOWED TUnknown = [DPublic]"
| "DISCLOSURE_ALLOWED TKnown = [DPublic, DPrincipalContext]"
| "DISCLOSURE_ALLOWED TTrusted = [DPublic, DPrincipalContext, DThirdParty, DConfidential]"
| "DISCLOSURE_ALLOWED TPrincipal = [DPublic, DPrincipalContext, DThirdParty, DConfidential]"

definition applyDisclosurePolicy :: "tier_value \<Rightarrow> disclosure_class option \<Rightarrow> decision" where
  "applyDisclosurePolicy recipientTier c =
     (case recipientTier of
        None \<Rightarrow> Escalate
      | Some t \<Rightarrow> (if c \<in> Some ` set (DISCLOSURE_ALLOWED t) then Allow else Escalate))"

definition tierPermitsAllDisclosure :: "tier_value \<Rightarrow> bool" where
  "tierPermitsAllDisclosure tier =
     (case tier of
        None \<Rightarrow> False
      | Some t \<Rightarrow> list_all (\<lambda>c. c \<in> set (DISCLOSURE_ALLOWED t)) ALL_DISCLOSURE_CLASSES)"

text \<open>A manifest's risk: one of five labels, a number, or a label outside the union.\<close>

datatype action_risk =
  RiskNone | RiskLow | RiskMedium | RiskHigh | RiskCritical | RiskNumber jsnum | RiskUnknownLabel

fun mapActionRiskToConsequenceClass :: "action_risk \<Rightarrow> consequence_class" where
  "mapActionRiskToConsequenceClass (RiskNumber _) = CIrreversible"
| "mapActionRiskToConsequenceClass RiskNone = CNone"
| "mapActionRiskToConsequenceClass RiskLow = CReversibleInternal"
| "mapActionRiskToConsequenceClass RiskMedium = CReversibleExternal"
| "mapActionRiskToConsequenceClass RiskHigh = CReversibleExternal"
| "mapActionRiskToConsequenceClass RiskCritical = CIrreversible"
| "mapActionRiskToConsequenceClass RiskUnknownLabel = CIrreversible"

fun CONSEQUENCE_RANK :: "consequence_class \<Rightarrow> nat" where
  "CONSEQUENCE_RANK CNone = 0"
| "CONSEQUENCE_RANK CReversibleInternal = 1"
| "CONSEQUENCE_RANK CReversibleExternal = 2"
| "CONSEQUENCE_RANK CIrreversible = 3"

definition moreSevereConsequence ::
    "consequence_class \<Rightarrow> consequence_class \<Rightarrow> consequence_class" where
  "moreSevereConsequence a b = (if CONSEQUENCE_RANK b \<le> CONSEQUENCE_RANK a then a else b)"

lemma CONSEQUENCE_RANK_inj: "CONSEQUENCE_RANK a = CONSEQUENCE_RANK b \<Longrightarrow> a = b"
  by (cases a; cases b) simp_all

instantiation consequence_class :: linorder
begin

definition less_eq_consequence_class :: "consequence_class \<Rightarrow> consequence_class \<Rightarrow> bool" where
  "less_eq_consequence_class a b \<longleftrightarrow> CONSEQUENCE_RANK a \<le> CONSEQUENCE_RANK b"

definition less_consequence_class :: "consequence_class \<Rightarrow> consequence_class \<Rightarrow> bool" where
  "less_consequence_class a b \<longleftrightarrow> CONSEQUENCE_RANK a < CONSEQUENCE_RANK b"

instance
  by standard
     (auto simp: less_eq_consequence_class_def less_consequence_class_def intro: CONSEQUENCE_RANK_inj)

end

lemmas consequence_order_defs = less_eq_consequence_class_def less_consequence_class_def

lemma moreSevereConsequence_max: "moreSevereConsequence a b = max a b"
  by (cases a; cases b) (simp_all add: moreSevereConsequence_def max_def less_eq_consequence_class_def)

definition applyActionPolicy ::
    "tier_value \<Rightarrow> consequence_class option \<Rightarrow> bool \<Rightarrow> bool \<Rightarrow> decision" where
  "applyActionPolicy initiatingTier actionClass isThirdPartyFacing isPrincipalSoleRecipient =
     (case initiatingTier of
        None \<Rightarrow> Escalate
      | Some t \<Rightarrow>
          if t = TBlocked then Escalate
          else if meets_tier t TPrincipal then Allow
          else (case actionClass of
              Some CNone \<Rightarrow> Allow
            | Some CReversibleInternal \<Rightarrow> Allow
            | Some CReversibleExternal \<Rightarrow>
                if meets_tier t TTrusted then Allow
                else if meets_tier t TKnown then
                  (if isPrincipalSoleRecipient then Allow
                   else if isThirdPartyFacing then Escalate else Allow)
                else Escalate
            | Some CIrreversible \<Rightarrow> Escalate
            | None \<Rightarrow> Escalate))"

section \<open>The policies are monotone in the tier\<close>

lemma disclosure_mono:
  "a \<le> b \<Longrightarrow> applyDisclosurePolicy (Some a) c = Allow \<Longrightarrow> applyDisclosurePolicy (Some b) c = Allow"
  by (cases a; cases b)
     (auto simp: applyDisclosurePolicy_def tier_order_defs split: if_splits)

lemma action_mono:
  "a \<le> b \<Longrightarrow> applyActionPolicy (Some a) c third sole = Allow
   \<Longrightarrow> applyActionPolicy (Some b) c third sole = Allow"
  by (cases a; cases b)
     (auto simp: applyActionPolicy_def tier_order_defs
           split: option.splits consequence_class.splits if_splits)

interpretation disclosure: tier_monotone "\<lambda>t. applyDisclosurePolicy (Some t) c = Allow" for c
  by unfold_locales (rule disclosure_mono)

interpretation action: tier_monotone "\<lambda>t. applyActionPolicy (Some t) c third sole = Allow"
  for c third sole
  by unfold_locales (rule action_mono)

text \<open>A more severe class is never easier to have done.\<close>

lemma action_antimono_class:
  "c \<le> d \<Longrightarrow> applyActionPolicy t (Some d) third sole = Allow
   \<Longrightarrow> applyActionPolicy t (Some c) third sole = Allow"
  by (cases c; cases d; cases t; cases "the t")
     (auto simp: applyActionPolicy_def tier_order_defs consequence_order_defs split: if_splits)

text \<open>
  One cut-off per action: for every consequence class (recognized or not), recipient shape and
  sole-recipient flag, the action policy is either closed to every tier or open exactly from
  some tier upwards; whatever that cut-off is, a blocked contact and a tier outside the
  registry are always escalated.
\<close>

theorem action_policy_cutoff:
  "((\<forall>t. applyActionPolicy (Some t) c third sole = Escalate)
     \<or> (\<exists>m. m > TBlocked \<and> (\<forall>t. applyActionPolicy (Some t) c third sole = Allow \<longleftrightarrow> m \<le> t)))
   \<and> applyActionPolicy None c third sole = Escalate"
proof -
  have esc: "applyActionPolicy (Some t) c third sole \<noteq> Allow
      \<longleftrightarrow> applyActionPolicy (Some t) c third sole = Escalate" for t
    by (cases "applyActionPolicy (Some t) c third sole") simp_all
  have blocked: "applyActionPolicy (Some TBlocked) c third sole = Escalate"
    by (simp add: applyActionPolicy_def)
  have "m > TBlocked" if "\<forall>t. applyActionPolicy (Some t) c third sole = Allow \<longleftrightarrow> m \<le> t" for m
    using that [rule_format, of TBlocked] blocked by (cases m) (simp_all add: tier_order_defs)
  moreover have "applyActionPolicy None c third sole = Escalate"
    by (simp add: applyActionPolicy_def)
  ultimately show ?thesis
    using action.cutoff [of c third sole] esc by metis
qed

text \<open>
  The judge can only tighten: whatever class \<open>v\<close> the judge returns, deciding on the more
  severe of the manifest's class and \<open>v\<close> never allows an action that the manifest's own class
  would escalate.
\<close>

theorem judge_cannot_weaken:
  "applyActionPolicy t (Some (moreSevereConsequence (mapActionRiskToConsequenceClass r) v)) third sole
     = Allow
   \<Longrightarrow> applyActionPolicy t (Some (mapActionRiskToConsequenceClass r)) third sole = Allow"
  by (rule action_antimono_class [of _ "moreSevereConsequence (mapActionRiskToConsequenceClass r) v"])
     (simp_all add: moreSevereConsequence_max)

theorem judge_cannot_weaken_witness:
  "applyActionPolicy (Some TKnown)
     (Some (moreSevereConsequence (mapActionRiskToConsequenceClass RiskLow) CReversibleExternal))
     False False = Allow
   \<and> applyActionPolicy (Some TKnown) (Some (mapActionRiskToConsequenceClass RiskLow)) False False = Allow"
proof -
  have h: "applyActionPolicy (Some TKnown)
     (Some (moreSevereConsequence (mapActionRiskToConsequenceClass RiskLow) CReversibleExternal))
     False False = Allow"
    by (simp add: applyActionPolicy_def moreSevereConsequence_def tier_order_defs)
  show ?thesis using h judge_cannot_weaken [OF h] by simp
qed

text \<open>
  Skipping the disclosure judge is sound: a tier short-circuits classification exactly when
  the disclosure policy would allow it every class, and then only trusted contacts and the
  principal do.
\<close>

theorem disclosure_short_circuit_exact:
  "(tierPermitsAllDisclosure t
      \<longleftrightarrow> (t \<noteq> None \<and> (\<forall>c. applyDisclosurePolicy t (Some c) = Allow)))
   \<and> (tierPermitsAllDisclosure t \<longleftrightarrow> t = Some TTrusted \<or> t = Some TPrincipal)"
proof (rule conjI)
  have all: "(\<forall>c. P c) \<longleftrightarrow> list_all P ALL_DISCLOSURE_CLASSES" for P
    by (auto simp: ALL_DISCLOSURE_CLASSES_def) (metis disclosure_class.exhaust)
  show "tierPermitsAllDisclosure t
     \<longleftrightarrow> (t \<noteq> None \<and> (\<forall>c. applyDisclosurePolicy t (Some c) = Allow))"
    by (auto simp: tierPermitsAllDisclosure_def applyDisclosurePolicy_def all list_all_iff
             split: option.splits if_splits)
  show "tierPermitsAllDisclosure t \<longleftrightarrow> t = Some TTrusted \<or> t = Some TPrincipal"
    by (cases t; cases "the t") (simp_all add: tierPermitsAllDisclosure_def ALL_DISCLOSURE_CLASSES_def)
qed

end
