(* ===== verification/Autonomy.thy ===== *)
theory Autonomy
  imports Escalation "HOL-Library.Product_Lexorder" "HOL-Library.Multiset"
begin

text \<open>
  \<open>src/autonomy/autonomy-service.ts\<close>: the global autonomy score, its bands, the risk thresholds the
  execution gates compare it with, and the two tables behind the service. \<open>autonomy_config\<close> holds
  at most one row; \<open>autonomy_history\<close> is kept in insertion order with its serial id. The wording of
  the prompt block is not modelled.
\<close>

datatype autonomy_band = Full | SpotCheck | ApprovalRequired | DraftOnly | Restricted

text \<open>Bands from the least to the most independent.\<close>

fun band_rank :: "autonomy_band \<Rightarrow> nat" where
  "band_rank Restricted = 0"
| "band_rank DraftOnly = 1"
| "band_rank ApprovalRequired = 2"
| "band_rank SpotCheck = 3"
| "band_rank Full = 4"

lemma band_rank_inj: "band_rank a = band_rank b \<Longrightarrow> a = b"
  by (cases a; cases b) simp_all

instantiation autonomy_band :: linorder
begin

definition less_eq_autonomy_band :: "autonomy_band \<Rightarrow> autonomy_band \<Rightarrow> bool" where
  "less_eq_autonomy_band a b \<longleftrightarrow> band_rank a \<le> band_rank b"

definition less_autonomy_band :: "autonomy_band \<Rightarrow> autonomy_band \<Rightarrow> bool" where
  "less_autonomy_band a b \<longleftrightarrow> band_rank a < band_rank b"

instance
  by standard (auto simp: less_eq_autonomy_band_def less_autonomy_band_def intro: band_rank_inj)

end

definition bandForScore :: "jsnum \<Rightarrow> autonomy_band" where
  "bandForScore score =
     (if num_le (Fin 90) score then Full
      else if num_le (Fin 80) score then SpotCheck
      else if num_le (Fin 70) score then ApprovalRequired
      else if num_le (Fin 60) score then DraftOnly
      else Restricted)"

datatype autonomy_error = UnknownRiskLabel | InvalidScore jsnum

fun minScoreForActionRisk :: "action_risk \<Rightarrow> autonomy_error + jsnum" where
  "minScoreForActionRisk (RiskNumber n) = Inr n"
| "minScoreForActionRisk RiskNone = Inr (Fin 0)"
| "minScoreForActionRisk RiskLow = Inr (Fin 60)"
| "minScoreForActionRisk RiskMedium = Inr (Fin 70)"
| "minScoreForActionRisk RiskHigh = Inr (Fin 80)"
| "minScoreForActionRisk RiskCritical = Inr (Fin 90)"
| "minScoreForActionRisk RiskUnknownLabel = Inl UnknownRiskLabel"

definition isSpotCheckOrAbove :: "jsnum \<Rightarrow> bool" where
  "isSpotCheckOrAbove score = num_le (Fin 80) score"

definition receivesInjection :: "string \<Rightarrow> string option \<Rightarrow> bool" where
  "receivesInjection name role \<longleftrightarrow> role = Some ''coordinator'' \<or> name = ''ceo-inbox''"

section \<open>The stored score\<close>

record autonomy_config =
  ac_score :: int
  ac_band :: autonomy_band
  ac_updatedAt :: ms
  ac_updatedBy :: string

record history_entry =
  h_id :: nat
  h_score :: int
  h_previousScore :: "int option"
  h_band :: autonomy_band
  h_changedBy :: string
  h_reason :: "string option"
  h_changedAt :: ms

record autonomy_db =
  db_config :: "autonomy_config option"
  db_history :: "history_entry list"
  db_nextId :: nat

definition getConfig :: "autonomy_db \<Rightarrow> autonomy_config option" where
  "getConfig db = db_config db"

text \<open>
  \<open>setScore\<close> writes the config row and appends to the history in one statement: the previous
  score is the one the statement locked, and the response carries it. \<open>now\<close> is the database's
  \<open>now()\<close>.
\<close>

definition setScore ::
    "autonomy_db \<Rightarrow> ms \<Rightarrow> jsnum \<Rightarrow> string \<Rightarrow> string option
     \<Rightarrow> autonomy_error + ((autonomy_config \<times> int option) \<times> autonomy_db)" where
  "setScore db now score changedBy reason =
     (case score of
        Fin q \<Rightarrow>
          (if \<not> is_integer_num score \<or> q < 0 \<or> 100 < q then Inl (InvalidScore score)
           else
             (let s = \<lfloor>q\<rfloor>;
                  band = bandForScore score;
                  previous = map_option ac_score (db_config db);
                  row = \<lparr>ac_score = s, ac_band = band, ac_updatedAt = now, ac_updatedBy = changedBy\<rparr>;
                  entry = \<lparr>h_id = db_nextId db, h_score = s, h_previousScore = previous, h_band = band,
                           h_changedBy = changedBy, h_reason = reason, h_changedAt = now\<rparr>
              in Inr ((row, previous),
                      db\<lparr>db_config := Some row, db_history := db_history db @ [entry],
                         db_nextId := db_nextId db + 1\<rparr>)))
      | _ \<Rightarrow> Inl (InvalidScore score))"

text \<open>
  \<open>ORDER BY changed_at DESC, id DESC LIMIT \<dots> OFFSET \<dots>\<close> with the total count. (The unpaginated
  \<open>getHistory\<close> has no tie-break and is not modelled.)
\<close>

definition history_desc :: "autonomy_db \<Rightarrow> history_entry list" where
  "history_desc db = sort_key (\<lambda>h. (- h_changedAt h, - int (h_id h))) (db_history db)"

definition getHistoryPaginated :: "autonomy_db \<Rightarrow> nat \<Rightarrow> nat \<Rightarrow> history_entry list \<times> nat" where
  "getHistoryPaginated db limit offset =
     (take limit (drop offset (history_desc db)), length (db_history db))"

section \<open>The history is a chain\<close>

text \<open>Each entry's previous score is the score of the entry before it; the config is the last entry.\<close>

fun linked :: "history_entry list \<Rightarrow> bool" where
  "linked (a # b # hs) = (h_previousScore b = Some (h_score a) \<and> linked (b # hs))"
| "linked _ = True"

definition config_ok :: "autonomy_config \<Rightarrow> bool" where
  "config_ok c \<longleftrightarrow> 0 \<le> ac_score c \<and> ac_score c \<le> 100 \<and> ac_band c = bandForScore (num_int (ac_score c))"

definition autonomy_inv :: "autonomy_db \<Rightarrow> bool" where
  "autonomy_inv db \<longleftrightarrow>
     linked (db_history db)
     \<and> (\<forall>c. db_config db = Some c \<longrightarrow> config_ok c)
     \<and> (db_history db \<noteq> [] \<longrightarrow> (\<exists>c. db_config db = Some c
          \<and> ac_score c = h_score (last (db_history db)) \<and> ac_band c = h_band (last (db_history db))))
     \<and> distinct (map h_id (db_history db)) \<and> (\<forall>h \<in> set (db_history db). h_id h < db_nextId db)"

text \<open>A fresh database: no history, and either no config row or a seeded, well-formed one.\<close>

definition autonomy_fresh :: "autonomy_db \<Rightarrow> bool" where
  "autonomy_fresh db \<longleftrightarrow> db_history db = [] \<and> (\<forall>c. db_config db = Some c \<longrightarrow> config_ok c)"

type_synonym set_request = "ms \<times> jsnum \<times> string \<times> string option"

definition setScore_step :: "autonomy_db \<Rightarrow> set_request \<Rightarrow> autonomy_db" where
  "setScore_step db r =
     (case r of (now, score, by, reason) \<Rightarrow>
        (case setScore db now score by reason of Inl _ \<Rightarrow> db | Inr (_, db') \<Rightarrow> db'))"

lemma linked_snoc:
  "linked (hs @ [h]) \<longleftrightarrow> linked hs \<and> (hs \<noteq> [] \<longrightarrow> h_previousScore h = Some (h_score (last hs)))"
proof (induction hs rule: linked.induct)
  case (1 a b hs)
  then show ?case by auto
qed auto

text \<open>What a successful \<open>setScore\<close> wrote.\<close>

lemma setScore_Inr:
  assumes "setScore db now score by reason = Inr ((row, prev), db')"
  obtains s where "score = num_int s" "0 \<le> s" "s \<le> 100"
    "row = \<lparr>ac_score = s, ac_band = bandForScore (num_int s), ac_updatedAt = now, ac_updatedBy = by\<rparr>"
    "prev = map_option ac_score (db_config db)"
    "db' = db\<lparr>db_config := Some row,
       db_history := db_history db @ [\<lparr>h_id = db_nextId db, h_score = s, h_previousScore = prev,
          h_band = bandForScore (num_int s), h_changedBy = by, h_reason = reason, h_changedAt = now\<rparr>],
       db_nextId := db_nextId db + 1\<rparr>"
proof -
  obtain q where q: "score = Fin q" using assms by (cases score) (auto simp: setScore_def)
  with assms have ok: "is_integer_num score" "0 \<le> q" "q \<le> 100"
    by (auto simp: setScore_def split: if_splits)
  then obtain s where s: "score = num_int s" by (rule_tac is_integer_num_obtain)
  with q ok have "q = of_int s" "0 \<le> s" "s \<le> 100" by simp_all
  with assms s show thesis by (intro that [of s]) (auto simp: setScore_def Let_def)
qed

lemma autonomy_inv_setScore:
  assumes "autonomy_inv db" "setScore db now score by reason = Inr ((row, prev), db')"
  shows "autonomy_inv db'"
proof -
  obtain s where "0 \<le> s" "s \<le> 100"
    "row = \<lparr>ac_score = s, ac_band = bandForScore (num_int s), ac_updatedAt = now, ac_updatedBy = by\<rparr>"
    "prev = map_option ac_score (db_config db)"
    "db' = db\<lparr>db_config := Some row,
       db_history := db_history db @ [\<lparr>h_id = db_nextId db, h_score = s, h_previousScore = prev,
          h_band = bandForScore (num_int s), h_changedBy = by, h_reason = reason, h_changedAt = now\<rparr>],
       db_nextId := db_nextId db + 1\<rparr>"
    using assms(2) by (rule setScore_Inr)
  with assms(1) show ?thesis
    by (fastforce simp: autonomy_inv_def linked_snoc config_ok_def less_Suc_eq)
qed

interpretation autonomy: machine setScore_step autonomy_inv autonomy_fresh
proof
  fix db and r :: set_request
  assume inv: "autonomy_inv db"
  obtain now score by' reason where r: "r = (now, score, by', reason)" by (cases r)
  show "autonomy_inv (setScore_step db r)"
  proof (cases "setScore db now score by' reason")
    case (Inr p)
    obtain row prev db' where p: "p = ((row, prev), db')" by (cases p) auto
    from autonomy_inv_setScore [OF inv Inr [unfolded p]] Inr p show ?thesis
      by (simp add: setScore_step_def r)
  qed (use inv r in \<open>simp add: setScore_step_def\<close>)
qed (auto simp: autonomy_fresh_def autonomy_inv_def)

text \<open>
  The history explains the score: after any sequence of \<open>setScore\<close> calls (accepted or
  rejected) on a fresh database, each history entry's previous score is the score of the entry
  before it, and the live config carries the score of the last entry together with the band that
  score maps to.
\<close>

theorem history_chain:
  assumes "autonomy_fresh db" "db' = run_steps setScore_step db rs"
  shows "linked (db_history db')
    \<and> (db_history db' \<noteq> [] \<longrightarrow> (\<exists>c. getConfig db' = Some c
         \<and> ac_score c = h_score (last (db_history db')) \<and> ac_band c = bandForScore (num_int (ac_score c))))"
  using autonomy.inv_run [OF assms(1), of rs] assms(2)
  by (auto simp: autonomy_inv_def config_ok_def getConfig_def)

theorem history_chain_witness:
  "linked (db_history (run_steps setScore_step \<lparr>db_config = None, db_history = [], db_nextId = 1\<rparr>
     [(10, Fin 70, ''ceo'', None), (20, NaN, ''ceo'', None), (30, Fin 95, ''ceo'', None)]))
   \<and> map h_previousScore (db_history (run_steps setScore_step
       \<lparr>db_config = None, db_history = [], db_nextId = 1\<rparr>
     [(10, Fin 70, ''ceo'', None), (20, NaN, ''ceo'', None), (30, Fin 95, ''ceo'', None)]))
     = [None, Some 70]"
proof -
  have "autonomy_fresh \<lparr>db_config = None, db_history = [], db_nextId = 1\<rparr>"
    by (simp add: autonomy_fresh_def)
  from history_chain [OF this refl, of "[(10, Fin 70, ''ceo'', None), (20, NaN, ''ceo'', None),
      (30, Fin 95, ''ceo'', None)]"]
  show ?thesis by (simp add: setScore_step_def setScore_def Let_def)
qed

text \<open>
  What \<open>setScore\<close> does on every branch: anything but an integer from 0 to 100 (fractions, \<open>NaN\<close>
  and the infinities included) is refused with the score in the error, and an accepted score
  replaces the config, appends exactly one entry, and returns the previous score that the entry
  records.
\<close>

theorem setScore_behaviour:
  "setScore db now score by reason =
     (if \<exists>s. score = num_int s \<and> 0 \<le> s \<and> s \<le> 100
      then (let s = (case score of Fin q \<Rightarrow> \<lfloor>q\<rfloor>);
                prev = map_option ac_score (getConfig db);
                row = \<lparr>ac_score = s, ac_band = bandForScore score, ac_updatedAt = now, ac_updatedBy = by\<rparr>
            in Inr ((row, prev),
                 db\<lparr>db_config := Some row,
                    db_history := db_history db @ [\<lparr>h_id = db_nextId db, h_score = s,
                      h_previousScore = prev, h_band = ac_band row, h_changedBy = by,
                      h_reason = reason, h_changedAt = now\<rparr>],
                    db_nextId := db_nextId db + 1\<rparr>))
      else Inl (InvalidScore score))"
proof (cases "\<exists>s. score = num_int s \<and> 0 \<le> s \<and> s \<le> 100")
  case True
  then show ?thesis by (auto simp: setScore_def getConfig_def Let_def)
next
  case False
  have "setScore db now score by reason = Inl (InvalidScore score)"
  proof (cases score)
    case (Fin q)
    have "\<not> (is_integer_num score \<and> 0 \<le> q \<and> q \<le> 100)"
      using False Fin by (auto elim!: is_integer_num_obtain)
    with Fin show ?thesis by (auto simp: setScore_def)
  qed (simp_all add: setScore_def)
  then show ?thesis by (subst if_not_P [OF False])
qed

lemma concat_pages:
  "concat (map (\<lambda>i. take k (drop (i * k) xs)) [0..<n]) = take (n * k) xs"
proof (induction n)
  case (Suc n)
  have "take (Suc n * k) xs = take (n * k) xs @ take k (drop (n * k) xs)"
    by (metis add.commute mult_Suc take_add)
  with Suc show ?case by simp
qed simp

text \<open>
  Paging loses nothing: reading pages 0, 1, \<dots> of any positive size until the total is reached
  yields every history entry exactly once, newest first with ties broken by id.
\<close>

theorem pages_cover_history:
  assumes "length (db_history db) \<le> n * k"
  shows "concat (map (\<lambda>i. fst (getHistoryPaginated db k (i * k))) [0..<n]) = history_desc db
    \<and> mset (history_desc db) = mset (db_history db)
    \<and> sorted (map (\<lambda>h. (- h_changedAt h, - int (h_id h))) (history_desc db))"
  using assms
  by (simp add: getHistoryPaginated_def concat_pages history_desc_def)

theorem pages_cover_history_witness:
  "concat (map (\<lambda>i. fst (getHistoryPaginated
       (setScore_step (setScore_step \<lparr>db_config = None, db_history = [], db_nextId = 1\<rparr>
          (10, Fin 70, ''ceo'', None)) (10, Fin 80, ''ceo'', None)) 1 (i * 1))) [0..<2])
     = history_desc (setScore_step (setScore_step \<lparr>db_config = None, db_history = [], db_nextId = 1\<rparr>
          (10, Fin 70, ''ceo'', None)) (10, Fin 80, ''ceo'', None))
   \<and> map h_score (history_desc (setScore_step (setScore_step
          \<lparr>db_config = None, db_history = [], db_nextId = 1\<rparr>
          (10, Fin 70, ''ceo'', None)) (10, Fin 80, ''ceo'', None))) = [80, 70]"
proof (rule conjI)
  let ?db = "setScore_step (setScore_step \<lparr>db_config = None, db_history = [], db_nextId = 1\<rparr>
          (10, Fin 70, ''ceo'', None)) (10, Fin 80, ''ceo'', None)"
  have "length (db_history ?db) \<le> 2 * 1"
    by (simp add: setScore_step_def setScore_def Let_def)
  from pages_cover_history [OF this]
  show "concat (map (\<lambda>i. fst (getHistoryPaginated ?db 1 (i * 1))) [0..<2]) = history_desc ?db" by blast
  show "map h_score (history_desc ?db) = [80, 70]"
    by (simp add: history_desc_def setScore_step_def setScore_def Let_def insort_key.simps)
qed

text \<open>
  Bands and risk thresholds are the same cut-offs: a live score clears the threshold of a
  labelled risk exactly when its band is at or above the band that risk belongs to (\<open>low\<close>:
  draft-only, \<open>medium\<close>: approval-required, \<open>high\<close>: spot-check, \<open>critical\<close>: full), and a score that is
  not a number falls in the restricted band and clears nothing.
\<close>

theorem risk_threshold_is_band:
  "(\<forall>risk band m. (risk, band) \<in> {(RiskLow, DraftOnly), (RiskMedium, ApprovalRequired),
        (RiskHigh, SpotCheck), (RiskCritical, Full)}
      \<and> minScoreForActionRisk risk = Inr m
      \<longrightarrow> (num_le m score \<longleftrightarrow> band \<le> bandForScore score))
   \<and> bandForScore NaN = Restricted
   \<and> (isSpotCheckOrAbove score \<longleftrightarrow> SpotCheck \<le> bandForScore score)"
proof -
  have "num_le (Fin 90) s \<Longrightarrow> num_le (Fin 80) s" "num_le (Fin 80) s \<Longrightarrow> num_le (Fin 70) s"
    "num_le (Fin 70) s \<Longrightarrow> num_le (Fin 60) s" for s
    by (cases s; simp)+
  then show ?thesis
    by (auto simp: bandForScore_def isSpotCheckOrAbove_def less_eq_autonomy_band_def)
qed

theorem risk_threshold_is_band_witness:
  "(num_le (Fin 80) (Fin 85) \<longleftrightarrow> SpotCheck \<le> bandForScore (Fin 85)) \<and> num_le (Fin 80) (Fin 85)"
proof -
  have "(RiskHigh, SpotCheck) \<in> {(RiskLow, DraftOnly), (RiskMedium, ApprovalRequired),
        (RiskHigh, SpotCheck), (RiskCritical, Full)}
      \<and> minScoreForActionRisk RiskHigh = Inr (Fin 80)" by simp
  with risk_threshold_is_band [of "Fin 85"]
  have "num_le (Fin 80) (Fin 85) \<longleftrightarrow> SpotCheck \<le> bandForScore (Fin 85)" by blast
  then show ?thesis by simp
qed

end
