(* ===== verification/Admission.thy ===== *)
theory Admission
  imports Prelude
begin

text \<open>
  The contract of an admission limiter, stated once for the three limiters of the code (the
  dispatcher's rate limiter, the fail-open limiter of the band review, the relay budget).
  \<open>live s k u\<close> is how many admissions of key \<open>k\<close> count against the limit at time \<open>u\<close>; \<open>acquire\<close> asks
  for one more of a key at a time; \<open>ok\<close> is the limiter's own invariant. A \<open>burst_limiter\<close> promises
  what holds at one instant; a \<open>sliding_limiter\<close> also says how long an admission counts, and then no
  window of that length ever holds more than the cap.
\<close>

fun admissions :: "('s \<Rightarrow> 'k \<Rightarrow> ms \<Rightarrow> bool \<times> 's) \<Rightarrow> 's \<Rightarrow> ('k \<times> ms) list \<Rightarrow> ('k \<times> ms) list" where
  "admissions acquire s [] = []"
| "admissions acquire s ((k, t) # calls) =
     (if fst (acquire s k t) then [(k, t)] else []) @ admissions acquire (snd (acquire s k t)) calls"

fun limiter_after :: "('s \<Rightarrow> 'k \<Rightarrow> ms \<Rightarrow> bool \<times> 's) \<Rightarrow> 's \<Rightarrow> ('k \<times> ms) list \<Rightarrow> 's" where
  "limiter_after acquire s [] = s"
| "limiter_after acquire s ((k, t) # calls) = limiter_after acquire (snd (acquire s k t)) calls"

definition of_key :: "'k \<Rightarrow> ('k \<times> ms) list \<Rightarrow> ms list" where
  "of_key k calls = map snd (filter (\<lambda>(j, _). j = k) calls)"

lemma of_key_simps [simp]:
  "of_key k [] = []"
  "of_key k ((j, t) # calls) = (if j = k then t # of_key k calls else of_key k calls)"
  "of_key k (xs @ ys) = of_key k xs @ of_key k ys"
  by (simp_all add: of_key_def)

locale burst_limiter =
  fixes ok :: "'s \<Rightarrow> bool" and acquire :: "'s \<Rightarrow> 'k \<Rightarrow> ms \<Rightarrow> bool \<times> 's"
    and live :: "'s \<Rightarrow> 'k \<Rightarrow> ms \<Rightarrow> nat" and cap :: nat
  assumes ok_acquire: "ok s \<Longrightarrow> acquire s k t = (b, s') \<Longrightarrow> ok s'"
    and admit_below: "ok s \<Longrightarrow> acquire s k t = (True, s') \<Longrightarrow> live s k t < cap"
    and charge_now: "ok s \<Longrightarrow> acquire s k t = (b, s')
      \<Longrightarrow> live s' j t = live s j t + (if b \<and> j = k then 1 else 0)"
begin

lemma burst_bound:
  assumes "ok s" "live s k t \<le> cap" "\<forall>c \<in> set calls. snd c = t"
  shows "live s k t + length (of_key k (admissions acquire s calls)) \<le> cap"
  using assms
proof (induction calls arbitrary: s)
  case (Cons c calls)
  obtain j b s' where c: "c = (j, t)" "acquire s j t = (b, s')"
    using Cons.prems(3) by (cases c; cases "acquire s (fst c) t") auto
  have s': "ok s'" "live s' k t = live s k t + (if b \<and> k = j then 1 else 0)"
    using ok_acquire charge_now Cons.prems(1) c by blast+
  have "live s' k t \<le> cap"
    using s'(2) admit_below [OF Cons.prems(1), of j t s'] Cons.prems(2) c by (cases b) auto
  from Cons.IH [OF s'(1) this] Cons.prems(3) c s'(2) show ?case by (cases b) auto
qed simp

end

locale sliding_limiter = burst_limiter ok acquire live cap
  for ok :: "'s \<Rightarrow> bool" and acquire :: "'s \<Rightarrow> 'k \<Rightarrow> ms \<Rightarrow> bool \<times> 's"
    and live :: "'s \<Rightarrow> 'k \<Rightarrow> ms \<Rightarrow> nat" and cap :: nat +
  fixes counts :: "ms \<Rightarrow> ms \<Rightarrow> bool" \<comment> \<open>\<open>counts u t\<close>: an admission at \<open>t\<close> still counts at \<open>u\<close>\<close>
  assumes charge_later: "ok s \<Longrightarrow> acquire s k t = (b, s') \<Longrightarrow> t \<le> u
      \<Longrightarrow> live s' j u = live s j u + (if b \<and> j = k \<and> counts u t then 1 else 0)"
begin

lemma live_is_count:
  assumes "ok s" "sorted (map snd calls @ [u])"
  shows "ok (limiter_after acquire s calls)
    \<and> live (limiter_after acquire s calls) k u
       = live s k u + length (filter (counts u) (of_key k (admissions acquire s calls)))"
  using assms
proof (induction calls arbitrary: s)
  case (Cons c calls)
  obtain j t b s' where c: "c = (j, t)" "acquire s j t = (b, s')"
    by (cases c; cases "acquire s (fst c) (snd c)") auto
  have t: "t \<le> u" "sorted (map snd calls @ [u])" using Cons.prems(2) c by auto
  have s': "ok s'" "live s' k u = live s k u + (if b \<and> k = j \<and> counts u t then 1 else 0)"
    using ok_acquire charge_later t Cons.prems(1) c by blast+
  from Cons.IH [OF s'(1) t(2)] c s'(2) show ?case by (cases b) auto
qed simp

lemma window_bound:
  assumes "ok s" "\<And>v. live s k v = 0" "sorted (map snd calls @ [u])"
    and admitted: "fst (acquire (limiter_after acquire s calls) k u)"
  shows "length (filter (counts u) (of_key k (admissions acquire s calls))) < cap"
proof -
  define s1 where "s1 = limiter_after acquire s calls"
  have s1: "ok s1"
    "live s1 k u = length (filter (counts u) (of_key k (admissions acquire s calls)))"
    using live_is_count [OF assms(1,3), of k] assms(2) unfolding s1_def by simp_all
  obtain s2 where "acquire s1 k u = (True, s2)"
    using admitted unfolding s1_def [symmetric] by (metis prod.collapse)
  then have "live s1 k u < cap" by (rule admit_below [OF s1(1)])
  with s1(2) show ?thesis by simp
qed

end

end
