(* ===== verification/RateLimiter.thy ===== *)
theory RateLimiter
  imports Admission
begin

text \<open>
  \<open>src/dispatch/rate-limiter.ts\<close>: the dispatcher's in-memory fixed-window limiter, global and per
  sender, with the idle-window sweep. \<open>Date.now()\<close> is an argument of every operation.
\<close>

record window_entry =
  we_count :: nat
  we_start :: ms

record rate_limiter =
  rl_windowMs :: ms
  rl_maxPerSender :: nat
  rl_maxGlobal :: nat
  rl_senders :: "(string \<times> window_entry) list"
  rl_global :: window_entry
  rl_lastSweepAt :: ms

definition fresh_entry :: window_entry where
  "fresh_entry = \<lparr>we_count = 0, we_start = 0\<rparr>"

definition new_rate_limiter :: "ms \<Rightarrow> nat \<Rightarrow> nat \<Rightarrow> rate_limiter" where
  "new_rate_limiter windowMs perSender globalMax =
     \<lparr>rl_windowMs = windowMs, rl_maxPerSender = perSender, rl_maxGlobal = globalMax,
      rl_senders = [], rl_global = fresh_entry, rl_lastSweepAt = 0\<rparr>"

text \<open>The core check-and-increment; the updated entry is returned.\<close>

definition rl_check :: "ms \<Rightarrow> nat \<Rightarrow> window_entry \<Rightarrow> ms \<Rightarrow> bool \<times> window_entry" where
  "rl_check windowMs limit entry now =
     (let entry1 = (if windowMs \<le> now - we_start entry
                    then entry\<lparr>we_count := 0, we_start := now\<rparr> else entry)
      in if limit \<le> we_count entry1 then (False, entry1)
         else (True, entry1\<lparr>we_count := we_count entry1 + 1\<rparr>))"

definition checkGlobal :: "rate_limiter \<Rightarrow> ms \<Rightarrow> bool \<times> rate_limiter" where
  "checkGlobal rl now =
     (let (ok, e) = rl_check (rl_windowMs rl) (rl_maxGlobal rl) (rl_global rl) now
      in (ok, rl\<lparr>rl_global := e\<rparr>))"

definition sweepExpired :: "rate_limiter \<Rightarrow> ms \<Rightarrow> rate_limiter" where
  "sweepExpired rl now =
     (if now - rl_lastSweepAt rl < rl_windowMs rl then rl
      else rl\<lparr>rl_lastSweepAt := now,
              rl_senders := filter (\<lambda>(_, e). \<not> rl_windowMs rl \<le> now - we_start e) (rl_senders rl)\<rparr>)"

definition checkSender :: "rate_limiter \<Rightarrow> string \<Rightarrow> ms \<Rightarrow> bool \<times> rate_limiter" where
  "checkSender rl0 senderId now =
     (let rl = sweepExpired rl0 now;
          entry = (case map_of (rl_senders rl) senderId of None \<Rightarrow> fresh_entry | Some e \<Rightarrow> e);
          (ok, e') = rl_check (rl_windowMs rl) (rl_maxPerSender rl) entry now
      in (ok, rl\<lparr>rl_senders := AList.update senderId e' (rl_senders rl)\<rparr>))"

section \<open>One window\<close>

definition rl_live :: "ms \<Rightarrow> window_entry \<Rightarrow> ms \<Rightarrow> nat" where
  "rl_live windowMs e u = (if windowMs \<le> u - we_start e then 0 else we_count e)"

text \<open>A counter alone, as the global one is used: one key.\<close>

definition counter_acquire :: "ms \<Rightarrow> nat \<Rightarrow> window_entry \<Rightarrow> unit \<Rightarrow> ms \<Rightarrow> bool \<times> window_entry" where
  "counter_acquire w limit e _ t = rl_check w limit e t"

interpretation window: burst_limiter
  "\<lambda>_. True" "counter_acquire (int (Suc w)) limit" "\<lambda>e _. rl_live (int (Suc w)) e" limit for w limit
  by unfold_locales
     (auto simp: counter_acquire_def rl_check_def rl_live_def Let_def split: if_splits)

text \<open>The per-sender counters behind \<open>checkSender\<close>: what a sender has used at a time.\<close>

definition sender_live :: "rate_limiter \<Rightarrow> string \<Rightarrow> ms \<Rightarrow> nat" where
  "sender_live rl s u =
     (case map_of (rl_senders rl) s of None \<Rightarrow> 0 | Some e \<Rightarrow> rl_live (rl_windowMs rl) e u)"

definition senders_ok :: "nat \<Rightarrow> rate_limiter \<Rightarrow> bool" where
  "senders_ok limit rl \<longleftrightarrow>
     0 < rl_windowMs rl \<and> rl_maxPerSender rl = limit \<and> owf (rl_senders rl)"

lemma sender_live_sweep:
  "owf (rl_senders rl) \<Longrightarrow> sender_live (sweepExpired rl t) s t = sender_live rl s t"
  by (auto simp: sender_live_def sweepExpired_def map_of_filter_snd rl_live_def split: option.splits)

lemma checkSender_step:
  assumes ok: "senders_ok limit rl" and call: "checkSender rl k t = (b, rl')"
  shows "senders_ok limit rl'"
    and "sender_live rl' j t = sender_live rl j t + (if b \<and> j = k then 1 else 0)"
    and "b \<Longrightarrow> sender_live rl k t < limit"
proof -
  define r where "r = sweepExpired rl t"
  have r: "owf (rl_senders r)" "rl_windowMs r = rl_windowMs rl" "rl_maxPerSender r = limit"
    "sender_live r j t = sender_live rl j t" "sender_live r k t = sender_live rl k t"
    using ok sender_live_sweep by (auto simp: r_def senders_ok_def sweepExpired_def)
  define e where "e = (case map_of (rl_senders r) k of None \<Rightarrow> fresh_entry | Some e \<Rightarrow> e)"
  obtain b1 e' where chk: "rl_check (rl_windowMs r) limit e t = (b1, e')"
    by (cases "rl_check (rl_windowMs r) limit e t")
  have rl': "rl' = r\<lparr>rl_senders := AList.update k e' (rl_senders r)\<rparr>" "b = b1"
    using call chk r(3) by (simp_all add: checkSender_def Let_def r_def e_def)
  have e: "rl_live (rl_windowMs r) e t = sender_live r k t"
    by (simp add: e_def sender_live_def rl_live_def fresh_entry_def split: option.split)
  have w: "0 < rl_windowMs r" using ok r(2) by (simp add: senders_ok_def)
  have e': "rl_live (rl_windowMs r) e' t = rl_live (rl_windowMs r) e t + (if b then 1 else 0)"
    "b \<Longrightarrow> rl_live (rl_windowMs r) e t < limit"
    using chk rl'(2) w by (auto simp: rl_check_def rl_live_def Let_def split: if_splits)
  have upd: "sender_live rl' j t = (if j = k then rl_live (rl_windowMs r) e' t else sender_live r j t)"
    by (simp add: rl'(1) sender_live_def split: option.split)
  show "senders_ok limit rl'" using ok r rl' by (simp add: senders_ok_def)
  show "sender_live rl' j t = sender_live rl j t + (if b \<and> j = k then 1 else 0)"
    using e e'(1) r(4,5) upd by simp
  show "b \<Longrightarrow> sender_live rl k t < limit" using e e'(2) r(5) by simp
qed

interpretation senders: burst_limiter "senders_ok limit" checkSender sender_live limit for limit
  by unfold_locales (use checkSender_step in blast)+

text \<open>The window of a run, as the code keeps it: entries by sender, starts that never run ahead.\<close>

definition rl_inv :: "ms \<Rightarrow> rate_limiter \<Rightarrow> bool" where
  "rl_inv now rl \<longleftrightarrow> 0 \<le> now \<and> 0 < rl_windowMs rl \<and> owf (rl_senders rl)
     \<and> (\<forall>(k, e) \<in> set (rl_senders rl). 0 \<le> we_start e \<and> we_start e \<le> now
          \<and> we_count e \<le> rl_maxPerSender rl)
     \<and> we_count (rl_global rl) \<le> rl_maxGlobal rl"

lemma rl_inv_new: "0 < w \<Longrightarrow> 0 \<le> now \<Longrightarrow> rl_inv now (new_rate_limiter w p g)"
  by (simp add: rl_inv_def new_rate_limiter_def fresh_entry_def)

lemma rl_check_bounds:
  assumes "rl_check w limit e now = (ok, e')" "we_count e \<le> limit" "0 \<le> now"
    "0 \<le> we_start e" "we_start e \<le> now"
  shows "we_count e' \<le> limit" "0 \<le> we_start e'" "we_start e' \<le> now"
  using assms by (auto simp: rl_check_def Let_def split: if_splits)

lemma rl_inv_sweep: "rl_inv now rl \<Longrightarrow> rl_inv now (sweepExpired rl now)"
  by (auto simp: rl_inv_def sweepExpired_def)

lemma rl_inv_later: "rl_inv t rl \<Longrightarrow> t \<le> now \<Longrightarrow> rl_inv now rl"
  by (fastforce simp: rl_inv_def)

lemma rl_inv_checkSender:
  assumes "rl_inv now rl" "checkSender rl s now = (ok, rl')"
  shows "rl_inv now rl'"
proof -
  define r where "r = sweepExpired rl now"
  have r: "rl_inv now r" using assms(1) by (simp add: r_def rl_inv_sweep)
  define e where "e = (case map_of (rl_senders r) s of None \<Rightarrow> fresh_entry | Some e \<Rightarrow> e)"
  have e: "we_count e \<le> rl_maxPerSender r" "0 \<le> we_start e" "we_start e \<le> now"
    using r by (auto simp: e_def rl_inv_def fresh_entry_def split: option.splits dest!: map_of_SomeD)
  obtain ok' e' where c: "rl_check (rl_windowMs r) (rl_maxPerSender r) e now = (ok', e')"
    by (cases "rl_check (rl_windowMs r) (rl_maxPerSender r) e now")
  have rl': "rl' = r\<lparr>rl_senders := AList.update s e' (rl_senders r)\<rparr>"
    using assms(2) c by (simp add: checkSender_def Let_def r_def e_def)
  show ?thesis
    using r rl_check_bounds [OF c e(1) _ e(2,3)]
    by (auto simp: rl' rl_inv_def owf_update_set)
qed

section \<open>The sweep changes nothing a sender can see\<close>

text \<open>The limiter without the sweep, as the reference.\<close>

definition checkSender_unswept :: "rate_limiter \<Rightarrow> string \<Rightarrow> ms \<Rightarrow> bool \<times> rate_limiter" where
  "checkSender_unswept rl senderId now =
     (let entry = (case map_of (rl_senders rl) senderId of None \<Rightarrow> fresh_entry | Some e \<Rightarrow> e);
          (ok, e') = rl_check (rl_windowMs rl) (rl_maxPerSender rl) entry now
      in (ok, rl\<lparr>rl_senders := AList.update senderId e' (rl_senders rl)\<rparr>))"

fun check_all :: "(rate_limiter \<Rightarrow> string \<Rightarrow> ms \<Rightarrow> bool \<times> rate_limiter)
    \<Rightarrow> rate_limiter \<Rightarrow> (string \<times> ms) list \<Rightarrow> bool list" where
  "check_all chk rl [] = []"
| "check_all chk rl ((s, t) # calls) =
     (let (ok, rl') = chk rl s t in ok # check_all chk rl' calls)"

text \<open>What the next check of a sender sees of its entry: nothing, once its window has elapsed.\<close>

definition effective :: "ms \<Rightarrow> window_entry option \<Rightarrow> ms \<Rightarrow> window_entry option" where
  "effective w e u = (case e of None \<Rightarrow> None
     | Some x \<Rightarrow> if w \<le> u - we_start x then None else Some x)"

definition same_view :: "ms \<Rightarrow> rate_limiter \<Rightarrow> rate_limiter \<Rightarrow> bool" where
  "same_view now rl ref \<longleftrightarrow>
     rl_windowMs rl = rl_windowMs ref \<and> rl_maxPerSender rl = rl_maxPerSender ref
     \<and> (\<forall>s u. now \<le> u \<longrightarrow>
          effective (rl_windowMs ref) (map_of (rl_senders rl) s) u
          = effective (rl_windowMs ref) (map_of (rl_senders ref) s) u)"

lemma same_view_later: "same_view t a b \<Longrightarrow> t \<le> now \<Longrightarrow> same_view now a b"
  by (auto simp: same_view_def)

lemma same_view_sweep:
  assumes "same_view now rl ref" "rl_inv now rl"
  shows "same_view now (sweepExpired rl now) ref"
proof -
  have "effective w (map_of (filter (\<lambda>(_, e). \<not> w \<le> now - we_start e) m) s) u
      = effective w (map_of m s) u" if "now \<le> u" "owf m" for w m s u
    using that by (auto simp: effective_def map_of_filter_snd split: option.splits)
  note eff = this
  have w: "rl_windowMs rl = rl_windowMs ref" "owf (rl_senders rl)"
    using assms by (simp_all add: same_view_def rl_inv_def)
  show ?thesis
  proof (cases "now - rl_lastSweepAt rl < rl_windowMs rl")
    case True
    with assms(1) show ?thesis by (simp add: sweepExpired_def)
  next
    case False
    then show ?thesis
      using assms(1) w eff [OF _ w(2)] by (simp add: same_view_def sweepExpired_def)
  qed
qed

text \<open>A missing entry and an elapsed one are checked alike (the fresh entry starts at time 0).\<close>

lemma rl_check_effective:
  assumes "0 < w" "0 \<le> now" "\<And>x. e = Some x \<Longrightarrow> 0 \<le> we_start x"
    and "rl_check w limit (case e of None \<Rightarrow> fresh_entry | Some x \<Rightarrow> x) now = (ok, e')"
  shows "ok = fst (rl_check w limit (case effective w e now of None \<Rightarrow> fresh_entry | Some x \<Rightarrow> x) now)"
    and "e' = snd (rl_check w limit (case effective w e now of None \<Rightarrow> fresh_entry | Some x \<Rightarrow> x) now)"
  using assms by (auto simp: effective_def rl_check_def fresh_entry_def Let_def
      split: option.splits if_splits)

lemma sweep_step:
  assumes view: "same_view now rl ref" and inv: "rl_inv now rl" "rl_inv now ref"
    and swept: "checkSender rl s now = (ok, rl')"
    and plain: "checkSender_unswept ref s now = (ok2, ref')"
  shows "ok = ok2" "same_view now rl' ref'" "rl_inv now rl'" "rl_inv now ref'"
proof -
  define r where "r = sweepExpired rl now"
  have r: "same_view now r ref" "rl_inv now r"
    using view inv by (simp_all add: r_def same_view_sweep rl_inv_sweep)
  let ?w = "rl_windowMs ref" and ?lim = "rl_maxPerSender ref"
  have w: "rl_windowMs r = ?w" "rl_maxPerSender r = ?lim" using r(1) by (simp_all add: same_view_def)
  let ?e1 = "map_of (rl_senders r) s" and ?e2 = "map_of (rl_senders ref) s"
  obtain a e1 where c1: "rl_check ?w ?lim (case ?e1 of None \<Rightarrow> fresh_entry | Some x \<Rightarrow> x) now = (a, e1)"
    by (metis prod.collapse)
  obtain b e2 where c2: "rl_check ?w ?lim (case ?e2 of None \<Rightarrow> fresh_entry | Some x \<Rightarrow> x) now = (b, e2)"
    by (metis prod.collapse)
  have pos: "0 < ?w" "0 \<le> now" using inv(2) by (simp_all add: rl_inv_def)
  have st: "\<And>x. ?e1 = Some x \<Longrightarrow> 0 \<le> we_start x" "\<And>x. ?e2 = Some x \<Longrightarrow> 0 \<le> we_start x"
    using r(2) inv(2) by (auto simp: rl_inv_def dest!: map_of_SomeD)
  have eff: "effective ?w ?e1 now = effective ?w ?e2 now"
    using r(1) by (simp add: same_view_def)
  have eqs: "a = b" "e1 = e2"
    using rl_check_effective [OF pos st(1) c1] rl_check_effective [OF pos st(2) c2] eff by auto
  have rl': "rl' = r\<lparr>rl_senders := AList.update s e1 (rl_senders r)\<rparr>" "ok = a"
    using swept c1 w by (simp_all add: checkSender_def Let_def r_def)
  have ref': "ref' = ref\<lparr>rl_senders := AList.update s e2 (rl_senders ref)\<rparr>" "ok2 = b"
    using plain c2 by (simp_all add: checkSender_unswept_def Let_def)
  show "ok = ok2" using rl' ref' eqs by simp
  show "same_view now rl' ref'"
    using r(1) rl' ref' eqs by (simp add: same_view_def)
  show "rl_inv now rl'" using rl_inv_checkSender [OF inv(1) swept] .
  have "rl_inv now ref'"
  proof -
    have e: "we_count (case ?e2 of None \<Rightarrow> fresh_entry | Some x \<Rightarrow> x) \<le> ?lim"
      "0 \<le> we_start (case ?e2 of None \<Rightarrow> fresh_entry | Some x \<Rightarrow> x)"
      "we_start (case ?e2 of None \<Rightarrow> fresh_entry | Some x \<Rightarrow> x) \<le> now"
      using inv(2) by (auto simp: rl_inv_def fresh_entry_def split: option.splits dest!: map_of_SomeD)
    show ?thesis
      using inv(2) rl_check_bounds [OF c2 e(1) pos(2) e(2,3)]
      by (auto simp: ref' rl_inv_def owf_update_set)
  qed
  then show "rl_inv now ref'" .
qed

lemma check_all_same_view:
  assumes "same_view now rl ref" "rl_inv now rl" "rl_inv now ref" "sorted (now # map snd calls)"
  shows "check_all checkSender rl calls = check_all checkSender_unswept ref calls"
  using assms
proof (induction calls arbitrary: now rl ref)
  case (Cons call calls)
  obtain s t where call: "call = (s, t)" by (cases call)
  have t: "now \<le> t" "sorted (t # map snd calls)" using Cons.prems(4) call by auto
  obtain ok rl' where c: "checkSender rl s t = (ok, rl')" by (cases "checkSender rl s t")
  obtain ok2 ref' where d: "checkSender_unswept ref s t = (ok2, ref')"
    by (cases "checkSender_unswept ref s t")
  note step = sweep_step [OF same_view_later [OF Cons.prems(1) t(1)]
      rl_inv_later [OF Cons.prems(2) t(1)] rl_inv_later [OF Cons.prems(3) t(1)] c d]
  show ?case
    using Cons.IH [OF step(2-4) t(2)] step(1) c d call by simp
qed simp

text \<open>
  Evicting idle senders is invisible: on any sequence of calls with a clock that does not
  run backwards, the limiter with the sweep answers every call exactly as the limiter that never
  evicts.
\<close>

theorem sweep_is_transparent:
  assumes "0 < w" "sorted (0 # map snd calls)"
  shows "check_all checkSender (new_rate_limiter w p g) calls
       = check_all checkSender_unswept (new_rate_limiter w p g) calls"
  by (rule check_all_same_view [OF _ _ _ assms(2)])
     (use assms(1) rl_inv_new in \<open>simp_all add: same_view_def\<close>)

theorem sweep_is_transparent_witness:
  "check_all checkSender (new_rate_limiter 10 1 5) [(''a'', 12), (''b'', 15), (''a'', 40), (''a'', 41)]
     = check_all checkSender_unswept (new_rate_limiter 10 1 5)
         [(''a'', 12), (''b'', 15), (''a'', 40), (''a'', 41)]
   \<and> check_all checkSender (new_rate_limiter 10 1 5)
         [(''a'', 12), (''b'', 15), (''a'', 40), (''a'', 41)] = [True, True, True, False]"
proof (rule conjI)
  show "check_all checkSender (new_rate_limiter 10 1 5) [(''a'', 12), (''b'', 15), (''a'', 40), (''a'', 41)]
     = check_all checkSender_unswept (new_rate_limiter 10 1 5)
         [(''a'', 12), (''b'', 15), (''a'', 40), (''a'', 41)]"
    by (rule sweep_is_transparent) simp_all
  show "check_all checkSender (new_rate_limiter 10 1 5)
         [(''a'', 12), (''b'', 15), (''a'', 40), (''a'', 41)] = [True, True, True, False]"
    by (simp add: checkSender_def sweepExpired_def rl_check_def new_rate_limiter_def fresh_entry_def Let_def)
qed

section \<open>How many messages fit in any window\<close>

text \<open>
  The fixed window is anchored at its first message, so an interval of the same length that
  straddles two windows can hold up to twice the limit and never more. \<open>adm\<close> is what was admitted
  so far.
\<close>

definition in_span :: "ms \<Rightarrow> ms \<Rightarrow> ms list \<Rightarrow> nat" where
  "in_span a b adm = length (filter (\<lambda>x. a \<le> x \<and> x < b) adm)"

definition log_inv :: "ms \<Rightarrow> nat \<Rightarrow> ms \<Rightarrow> window_entry \<Rightarrow> ms list \<Rightarrow> bool" where
  "log_inv w limit now e adm \<longleftrightarrow>
     (\<forall>x \<in> set adm. x < we_start e + w) \<and> we_start e \<le> now
     \<and> length (filter (\<lambda>x. we_start e \<le> x) adm) \<le> we_count e \<and> we_count e \<le> limit
     \<and> in_span (we_start e - w + 1) (we_start e) adm \<le> limit
     \<and> (\<forall>a. in_span a (a + w) adm \<le> 2 * limit)"

lemma in_span_split: "a \<le> b \<Longrightarrow> b \<le> c \<Longrightarrow> in_span a c adm = in_span a b adm + in_span b c adm"
  unfolding in_span_def by (induction adm) auto

lemma in_span_mono: "c \<le> a \<Longrightarrow> b \<le> d \<Longrightarrow> in_span a b adm \<le> in_span c d adm"
  unfolding in_span_def by (induction adm) auto

lemma in_span_le_filter: "in_span a b adm \<le> length (filter (\<lambda>x. a \<le> x) adm)"
  unfolding in_span_def by (induction adm) auto

lemma filter_from_mono: "b \<le> a \<Longrightarrow> length (filter (\<lambda>x. a \<le> x) adm) \<le> length (filter (\<lambda>x. b \<le> x) adm)"
  for a b :: int
  by (induction adm) auto

lemma in_span_snoc: "in_span a b (adm @ [t]) = in_span a b adm + (if a \<le> t \<and> t < b then 1 else 0)"
  by (simp add: in_span_def)

lemma log_inv_reset:
  assumes inv: "log_inv w limit now e adm" and t: "now \<le> t" "w \<le> t - we_start e" and w: "0 < w"
  shows "log_inv w limit t \<lparr>we_count = 0, we_start = t\<rparr> adm"
    and "a \<le> t \<Longrightarrow> t < a + w \<Longrightarrow> in_span a (a + w) adm \<le> limit"
proof -
  have near: "in_span a b adm \<le> limit" if "we_start e \<le> a" for a b
    using in_span_le_filter [of a b adm] filter_from_mono [OF that, of adm] inv
    by (simp add: log_inv_def)
  have "filter (\<lambda>x. t \<le> x) adm = []"
    using inv t by (fastforce simp: filter_empty_conv log_inv_def)
  then show "log_inv w limit t \<lparr>we_count = 0, we_start = t\<rparr> adm"
    using inv near [of "t - w + 1" t] t w by (fastforce simp: log_inv_def)
  show "a \<le> t \<Longrightarrow> t < a + w \<Longrightarrow> in_span a (a + w) adm \<le> limit"
    using near [of a "a + w"] t by simp
qed

lemma log_inv_admit:
  assumes inv: "log_inv w limit t e adm" and open_: "t - we_start e < w" "we_count e < limit"
  shows "log_inv w limit t (e\<lparr>we_count := we_count e + 1\<rparr>) (adm @ [t])"
proof -
  let ?s = "we_start e"
  have old: "?s \<le> t" "length (filter (\<lambda>x. ?s \<le> x) adm) \<le> we_count e"
    "in_span (?s - w + 1) ?s adm \<le> limit" "\<And>a. in_span a (a + w) adm \<le> 2 * limit"
    using inv by (auto simp: log_inv_def)
  have "in_span a (a + w) (adm @ [t]) \<le> 2 * limit" for a
  proof (cases "a \<le> t \<and> t < a + w")
    case False
    then show ?thesis using old(4) [of a] by (auto simp: in_span_snoc)
  next
    case True
    have after: "in_span ?s (a + w) adm \<le> we_count e"
      using in_span_le_filter [of ?s "a + w" adm] old(2) by linarith
    have "in_span a (a + w) adm \<le> limit + we_count e"
    proof (cases "a \<le> ?s")
      case le: True
      have "in_span a ?s adm \<le> in_span (?s - w + 1) ?s adm"
        by (rule in_span_mono) (use True old(1) in linarith)+
      with in_span_split [OF le, of "a + w" adm] True old after show ?thesis by linarith
    next
      case False
      then have "in_span a (a + w) adm \<le> in_span ?s (a + w) adm" by (intro in_span_mono) simp_all
      with after show ?thesis by linarith
    qed
    with True open_(2) show ?thesis by (simp add: in_span_snoc)
  qed
  then show ?thesis
    using inv open_ by (simp add: log_inv_def in_span_snoc)
qed

lemma log_inv_step:
  assumes inv: "log_inv w limit now e adm" and t: "now \<le> t" and w: "0 < w"
    and chk: "rl_check w limit e t = (ok, e')"
  shows "log_inv w limit t e' (if ok then adm @ [t] else adm)"
proof -
  define e1 where "e1 = (if w \<le> t - we_start e then e\<lparr>we_count := 0, we_start := t\<rparr> else e)"
  have e1: "log_inv w limit t e1 adm" "t - we_start e1 < w"
    using log_inv_reset(1) [OF inv t _ w] inv t w by (auto simp: e1_def log_inv_def)
  have "ok = (we_count e1 < limit)" "e' = (if ok then e1\<lparr>we_count := we_count e1 + 1\<rparr> else e1)"
    using chk by (auto simp: rl_check_def Let_def e1_def split: if_splits)
  with e1 log_inv_admit [OF e1] show ?thesis by auto
qed

lemma admitted_run:
  assumes "log_inv w limit now e adm" "0 < w" "sorted (now # ts)"
  shows "in_span a (a + w) (adm @ of_key () (admissions (counter_acquire w limit) e (map (Pair ()) ts))) \<le> 2 * limit"
  using assms
proof (induction ts arbitrary: now e adm)
  case Nil
  then show ?case by (simp add: log_inv_def)
next
  case (Cons t ts)
  obtain ok e' where c: "rl_check w limit e t = (ok, e')" by (cases "rl_check w limit e t")
  have "log_inv w limit t e' (if ok then adm @ [t] else adm)"
    using log_inv_step [OF Cons.prems(1) _ Cons.prems(2) c] Cons.prems(3) by simp
  from Cons.IH [OF this Cons.prems(2)] Cons.prems(3) c show ?case by (cases ok) (simp_all add: counter_acquire_def)
qed

text \<open>
  Twice the limit, and no more: with a clock that does not run backwards, any interval as long
  as the window contains at most \<open>2 * limit\<close> admitted messages of one counter (the global one or a
  sender's), wherever the fixed windows happen to start.
\<close>

theorem fixed_window_double_bound:
  assumes "0 < w" "sorted (0 # ts)"
  shows "in_span a (a + w) (of_key () (admissions (counter_acquire w limit) fresh_entry (map (Pair ()) ts))) \<le> 2 * limit"
proof -
  have "log_inv w limit 0 fresh_entry []"
    by (simp add: log_inv_def fresh_entry_def in_span_def)
  from admitted_run [OF this assms] show ?thesis by simp
qed

theorem fixed_window_double_bound_witness:
  "in_span 15 25 (of_key () (admissions (counter_acquire 10 2) fresh_entry
     (map (Pair ()) [10, 18, 19, 20, 21, 22, 23]))) \<le> 2 * 2
   \<and> of_key () (admissions (counter_acquire 10 2) fresh_entry
     (map (Pair ()) [10, 18, 19, 20, 21, 22, 23])) = [10, 18, 20, 21]"
proof -
  have "in_span 15 (15 + 10) (of_key () (admissions (counter_acquire 10 2) fresh_entry
     (map (Pair ()) [10, 18, 19, 20, 21, 22, 23]))) \<le> 2 * 2"
    by (rule fixed_window_double_bound) simp_all
  then show ?thesis by (simp add: rl_check_def fresh_entry_def counter_acquire_def)
qed

end
