(* ===== verification/RelayBudget.thy ===== *)
theory RelayBudget
  imports Admission ContactTypes
begin

text \<open>
  The two sliding-window limiters of the autonomy layer: the fail-open limiter of the band review
  (\<open>src/autonomy/band-policy.ts\<close>) and the relay budget that caps the messages an outsider can cause to
  reach the principal (\<open>src/autonomy/relay-budget.ts\<close>). The clock is an argument of every operation.
\<close>

section \<open>FailOpenLimiter\<close>

record fail_open =
  fo_limit :: nat
  fo_windowMs :: ms
  fo_stamps :: "ms list"
  fo_tripped :: bool

definition new_fail_open :: "nat option \<Rightarrow> ms option \<Rightarrow> fail_open" where
  "new_fail_open limit windowMs =
     \<lparr>fo_limit = (case limit of None \<Rightarrow> 5 | Some l \<Rightarrow> l),
      fo_windowMs = (case windowMs of None \<Rightarrow> 3600000 | Some w \<Rightarrow> w),
      fo_stamps = [], fo_tripped = False\<rparr>"

record acquire_result =
  ar_allowed :: bool
  ar_justTripped :: bool

definition fo_tryAcquire :: "fail_open \<Rightarrow> ms \<Rightarrow> acquire_result \<times> fail_open" where
  "fo_tryAcquire s t =
     (if fo_tripped s then (\<lparr>ar_allowed = False, ar_justTripped = False\<rparr>, s)
      else
        (let stamps = filter (\<lambda>x. t - x \<le> fo_windowMs s) (fo_stamps s)
         in if fo_limit s \<le> length stamps
            then (\<lparr>ar_allowed = False, ar_justTripped = True\<rparr>,
                  s\<lparr>fo_stamps := stamps, fo_tripped := True\<rparr>)
            else (\<lparr>ar_allowed = True, ar_justTripped = False\<rparr>,
                  s\<lparr>fo_stamps := stamps @ [t]\<rparr>)))"

definition recordJudgeSuccess :: "fail_open \<Rightarrow> fail_open" where
  "recordJudgeSuccess s = (if fo_tripped s then s\<lparr>fo_tripped := False, fo_stamps := []\<rparr> else s)"

definition isTripped :: "fail_open \<Rightarrow> bool" where
  "isTripped s = fo_tripped s"

datatype fo_op = TryAcquire ms | JudgeSuccess

text \<open>One operation of a run: the answer when there is one, and the next state.\<close>

fun fo_step :: "fail_open \<Rightarrow> fo_op \<Rightarrow> fail_open" where
  "fo_step s (TryAcquire t) = snd (fo_tryAcquire s t)"
| "fo_step s JudgeSuccess = recordJudgeSuccess s"

fun fo_answers :: "fail_open \<Rightarrow> fo_op list \<Rightarrow> acquire_result list" where
  "fo_answers s [] = []"
| "fo_answers s (TryAcquire t # ops) =
     fst (fo_tryAcquire s t) # fo_answers (fo_step s (TryAcquire t)) ops"
| "fo_answers s (JudgeSuccess # ops) = fo_answers (fo_step s JudgeSuccess) ops"

definition fo_live :: "fail_open \<Rightarrow> ms \<Rightarrow> nat" where
  "fo_live s u = length (filter (\<lambda>x. u - x \<le> fo_windowMs s) (fo_stamps s))"

text \<open>Only whether the send was allowed, as the shared contract has it (one key).\<close>

definition fo_acquire :: "fail_open \<Rightarrow> unit \<Rightarrow> ms \<Rightarrow> bool \<times> fail_open" where
  "fo_acquire s _ t = (case fo_tryAcquire s t of (r, s') \<Rightarrow> (ar_allowed r, s'))"

lemma filter_recent: "t \<le> u \<Longrightarrow> filter (\<lambda>x. u - x \<le> w) (filter (\<lambda>x. t - x \<le> w) xs)
    = filter (\<lambda>x. u - x \<le> w) xs" for t u w :: int
  by (induction xs) auto

lemma filter_recent_strict: "t \<le> u \<Longrightarrow> filter (\<lambda>x. u - x < w) (filter (\<lambda>x. t - x < w) xs)
    = filter (\<lambda>x. u - x < w) xs" for t u w :: int
  by (induction xs) auto

interpretation fail_open: sliding_limiter
  "\<lambda>s. fo_limit s = limit \<and> fo_windowMs s = int w" fo_acquire "\<lambda>s _. fo_live s" limit
  "\<lambda>u t. u - t \<le> int w" for limit w
  by unfold_locales
     (auto simp: fo_acquire_def fo_tryAcquire_def fo_live_def Let_def filter_recent simp del: filter_filter
        split: if_splits)

text \<open>
  Fail-open is bounded and sticky: the send that would exceed the limit trips the limiter, it
  reports the trip exactly once, and from then on it refuses every send, silently, until a judge
  call succeeds; that success clears the trip and the count, while a success without a trip
  changes nothing.
\<close>

theorem fail_open_trip_is_sticky:
  assumes trip: "ar_justTripped (fst (fo_tryAcquire s t))"
    and quiet: "JudgeSuccess \<notin> set ops"
  defines "s1 \<equiv> snd (fo_tryAcquire s t)"
  shows "fo_limit s \<le> fo_live s t \<and> isTripped s1
     \<and> (\<forall>r \<in> set (fo_answers s1 ops). \<not> ar_allowed r \<and> \<not> ar_justTripped r)
     \<and> run_steps fo_step s1 ops = s1
     \<and> \<not> isTripped (recordJudgeSuccess s1) \<and> fo_live (recordJudgeSuccess s1) u = 0
     \<and> (\<not> isTripped s \<longrightarrow> recordJudgeSuccess s = s)"
proof -
  have tripped: "fo_tripped s1" "fo_limit s \<le> fo_live s t"
    using trip by (auto simp: s1_def fo_tryAcquire_def Let_def fo_live_def split: if_splits)
  have stuck: "fo_tryAcquire s1 t' = (\<lparr>ar_allowed = False, ar_justTripped = False\<rparr>, s1)" for t'
    using tripped by (simp add: fo_tryAcquire_def)
  have "(\<forall>r \<in> set (fo_answers s1 ops). \<not> ar_allowed r \<and> \<not> ar_justTripped r)
      \<and> run_steps fo_step s1 ops = s1"
    using quiet
  proof (induction ops)
    case (Cons op ops)
    then show ?case by (cases op) (auto simp: stuck)
  qed simp
  with tripped show ?thesis
    by (simp add: isTripped_def recordJudgeSuccess_def fo_live_def)
qed

theorem fail_open_trip_is_sticky_witness:
  "\<not> ar_allowed (fst (fo_tryAcquire (snd (fo_tryAcquire (snd (fo_tryAcquire (new_fail_open (Some 1) None) 10)) 20)) 30))"
proof -
  let ?s = "snd (fo_tryAcquire (new_fail_open (Some 1) None) 10)"
  have "ar_justTripped (fst (fo_tryAcquire ?s 20))"
    by (simp add: fo_tryAcquire_def new_fail_open_def)
  from fail_open_trip_is_sticky [OF this, of "[TryAcquire 30]"] show ?thesis by simp
qed

section \<open>RelayBudget\<close>

definition RELAY_BUDGET_WINDOW_MS :: ms where
  "RELAY_BUDGET_WINDOW_MS = 3600000"

text \<open>The options of a send that decide whether it is budgeted.\<close>

record send_options =
  so_isSystemNotification :: bool
  so_humanApproved :: bool
  so_principalDirected :: bool
  so_originator :: "task_originator option"

definition BUDGETED_TIERS :: "contact_tier list" where
  "BUDGETED_TIERS = [TKnown, TUnknown, TBlocked]"

definition budgetedOriginator :: "send_options option \<Rightarrow> task_originator option" where
  "budgetedOriginator options =
     (case options of
        None \<Rightarrow> None
      | Some opts \<Rightarrow>
          (case so_originator opts of
             None \<Rightarrow> None
           | Some orig \<Rightarrow>
               if so_isSystemNotification opts \<or> so_humanApproved opts \<or> so_principalDirected opts
               then None
               else if o_systemRole orig \<in> {Some RPrincipal, Some RSystem, Some RAgent} then None
               else if (case o_tier orig of None \<Rightarrow> TUnknown | Some t \<Rightarrow> t) \<in> set BUDGETED_TIERS
               then Some orig else None))"

record relay_budget =
  rb_perHour :: nat
  rb_stamps :: "(string \<times> ms list) list"
  rb_notices :: "(string \<times> ms) list"
  rb_lastSweepAt :: ms

datatype relay_error = PerHourNotANonNegativeInteger

definition new_relay_budget :: "jsnum \<Rightarrow> relay_error + relay_budget" where
  "new_relay_budget perHour =
     (case perHour of
        Fin q \<Rightarrow>
          if \<not> is_integer_num perHour \<or> q < 0 then Inl PerHourNotANonNegativeInteger
          else Inr \<lparr>rb_perHour = nat \<lfloor>q\<rfloor>, rb_stamps = [], rb_notices = [], rb_lastSweepAt = 0\<rparr>
      | _ \<Rightarrow> Inl PerHourNotANonNegativeInteger)"

definition rb_live :: "relay_budget \<Rightarrow> string \<Rightarrow> ms \<Rightarrow> ms list" where
  "rb_live rb contactId t =
     filter (\<lambda>s. t - s < RELAY_BUDGET_WINDOW_MS)
       (case map_of (rb_stamps rb) contactId of None \<Rightarrow> [] | Some ss \<Rightarrow> ss)"

text \<open>\<open>map\<close> keeps each surviving originator's place in the map, as \<open>set\<close> on a present key does.\<close>

definition rb_sweep :: "relay_budget \<Rightarrow> ms \<Rightarrow> relay_budget" where
  "rb_sweep rb t =
     (if t - rb_lastSweepAt rb < RELAY_BUDGET_WINDOW_MS then rb
      else rb\<lparr>rb_lastSweepAt := t,
              rb_stamps := filter (\<lambda>(_, ss). ss \<noteq> [])
                (map (\<lambda>(k, ss). (k, filter (\<lambda>s. t - s < RELAY_BUDGET_WINDOW_MS) ss)) (rb_stamps rb)),
              rb_notices := filter (\<lambda>(_, a). \<not> RELAY_BUDGET_WINDOW_MS \<le> t - a) (rb_notices rb)\<rparr>)"

datatype relay_answer = Allowed | Over

definition rb_tryAcquire :: "relay_budget \<Rightarrow> string \<Rightarrow> ms \<Rightarrow> relay_answer \<times> relay_budget" where
  "rb_tryAcquire rb0 contactId t =
     (if rb_perHour rb0 = 0 then (Allowed, rb0)
      else
        (let rb = rb_sweep rb0 t;
             live = rb_live rb contactId t
         in if rb_perHour rb \<le> length live
            then (Over, rb\<lparr>rb_stamps := AList.update contactId live (rb_stamps rb)\<rparr>)
            else (Allowed, rb\<lparr>rb_stamps := AList.update contactId (live @ [t]) (rb_stamps rb)\<rparr>)))"

definition noticeDue :: "relay_budget \<Rightarrow> string \<Rightarrow> ms \<Rightarrow> bool" where
  "noticeDue rb contactId t =
     (case map_of (rb_notices rb) contactId of
        None \<Rightarrow> True
      | Some last' \<Rightarrow> RELAY_BUDGET_WINDOW_MS \<le> t - last')"

definition markNotified :: "relay_budget \<Rightarrow> string \<Rightarrow> ms \<Rightarrow> relay_budget" where
  "markNotified rb contactId t = rb\<lparr>rb_notices := AList.update contactId t (rb_notices rb)\<rparr>"

definition rb_release :: "relay_budget \<Rightarrow> string \<Rightarrow> relay_budget" where
  "rb_release rb contactId =
     (case map_of (rb_stamps rb) contactId of
        None \<Rightarrow> rb
      | Some [] \<Rightarrow> rb
      | Some ss \<Rightarrow>
          (let rest = butlast ss
           in rb\<lparr>rb_stamps := (if rest = [] then AList.delete contactId (rb_stamps rb)
                               else AList.update contactId rest (rb_stamps rb))\<rparr>))"

definition rb_count :: "relay_budget \<Rightarrow> string \<Rightarrow> ms \<Rightarrow> nat" where
  "rb_count rb contactId t = length (rb_live rb contactId t)"

subsection \<open>The sweep and other originators do not disturb a count\<close>

lemma map_of_sweep:
  assumes "owf m"
  shows "map_of (filter (\<lambda>(_, ss). ss \<noteq> []) (map (\<lambda>(k, ss). (k, f ss)) m)) c
    = (case map_of m c of None \<Rightarrow> None | Some ss \<Rightarrow> if f ss = [] then None else Some (f ss))"
proof -
  have "owf (map (\<lambda>(k, ss). (k, f ss)) m)"
    using assms by (simp add: owf_def comp_def case_prod_beta')
  moreover have "map_of (map (\<lambda>(k, ss). (k, f ss)) m) c = map_option f (map_of m c)"
    by (induction m) auto
  ultimately show ?thesis
    by (simp add: map_of_filter_snd split: option.splits)
qed

definition rb_of :: "relay_budget \<Rightarrow> string \<Rightarrow> ms list" where
  "rb_of rb c = (case map_of (rb_stamps rb) c of None \<Rightarrow> [] | Some ss \<Rightarrow> ss)"

lemma rb_live_of: "rb_live rb c t = filter (\<lambda>s. t - s < RELAY_BUDGET_WINDOW_MS) (rb_of rb c)"
  by (simp add: rb_live_def rb_of_def)

lemma rb_of_sweep:
  "owf (rb_stamps rb) \<Longrightarrow> rb_of (rb_sweep rb t) c =
     (if t - rb_lastSweepAt rb < RELAY_BUDGET_WINDOW_MS then rb_of rb c
      else filter (\<lambda>s. t - s < RELAY_BUDGET_WINDOW_MS) (rb_of rb c))"
  by (simp add: rb_of_def rb_sweep_def map_of_sweep split: option.split)

lemma rb_live_sweep:
  "owf (rb_stamps rb) \<Longrightarrow> t \<le> u \<Longrightarrow> rb_live (rb_sweep rb t) c u = rb_live rb c u"
  by (simp add: rb_live_of rb_of_sweep filter_recent_strict del: filter_filter)

lemma rb_sweep_frame [simp]:
  "rb_perHour (rb_sweep rb t) = rb_perHour rb"
  by (simp add: rb_sweep_def)

lemma owf_rb_sweep [simp]:
  assumes "owf (rb_stamps rb)"
  shows "owf (rb_stamps (rb_sweep rb t))"
proof -
  have "owf (map (\<lambda>(k, ss). (k, f ss)) (rb_stamps rb))" for f :: "ms list \<Rightarrow> ms list"
    using assms by (simp add: owf_def comp_def case_prod_beta')
  with assms show ?thesis by (simp add: rb_sweep_def)
qed

text \<open>One call: who is charged, and when.\<close>

lemma rb_tryAcquire_cases:
  assumes "owf (rb_stamps rb)" "rb_tryAcquire rb c t = (ans, rb')"
  shows "owf (rb_stamps rb') \<and> rb_perHour rb' = rb_perHour rb
    \<and> (ans = Allowed \<longleftrightarrow> rb_perHour rb = 0 \<or> length (rb_live rb c t) < rb_perHour rb)
    \<and> (\<forall>d u. t \<le> u \<longrightarrow> rb_live rb' d u = rb_live rb d u
          @ (if d = c \<and> ans = Allowed \<and> rb_perHour rb \<noteq> 0 \<and> u - t < RELAY_BUDGET_WINDOW_MS
             then [t] else []))"
proof (cases "rb_perHour rb = 0")
  case True
  with assms show ?thesis by (simp add: rb_tryAcquire_def)
next
  case False
  let ?r = "rb_sweep rb t" and ?live = "rb_live rb c t"
  have r: "rb_live ?r c t = ?live" "owf (rb_stamps ?r)"
    using rb_live_sweep [OF assms(1), of t t c] assms(1) by simp_all
  have eqs: "ans = (if rb_perHour rb \<le> length ?live then Over else Allowed)"
    "rb' = ?r\<lparr>rb_stamps := AList.update c (?live @ (if ans = Allowed then [t] else [])) (rb_stamps ?r)\<rparr>"
    using assms(2) False r(1) by (auto simp: rb_tryAcquire_def Let_def split: if_splits)
  have "rb_of rb' d = (if d = c then ?live @ (if ans = Allowed then [t] else []) else rb_of ?r d)" for d
    by (simp add: eqs(2) rb_of_def)
  then have "rb_live rb' d u = rb_live rb d u
      @ (if d = c \<and> ans = Allowed \<and> u - t < RELAY_BUDGET_WINDOW_MS then [t] else [])"
    if "t \<le> u" for d u
    using rb_live_sweep [OF assms(1) that, of d]
    by (simp add: rb_live_of filter_recent_strict [OF that] del: filter_filter)
  moreover have "rb_perHour rb' = rb_perHour rb" "owf (rb_stamps rb')" using r(2) by (simp_all add: eqs(2))
  moreover have "ans = Allowed \<longleftrightarrow> length ?live < rb_perHour rb" by (simp add: eqs(1))
  ultimately show ?thesis using False by simp
qed

section \<open>The relay budget is a sliding window per originator\<close>

interpretation relay: sliding_limiter
  "\<lambda>rb. owf (rb_stamps rb) \<and> rb_perHour rb = Suc n"
  "\<lambda>rb c t. case rb_tryAcquire rb c t of (ans, rb') \<Rightarrow> (ans = Allowed, rb')"
  rb_count "Suc n" "\<lambda>u t. u - t < RELAY_BUDGET_WINDOW_MS" for n
proof (unfold_locales, goal_cases)
  case (1 s k t b s')
  then show ?case using rb_tryAcquire_cases [of s k t] by (auto split: prod.splits)
next
  case (2 s k t s')
  then show ?case using rb_tryAcquire_cases [of s k t] by (auto simp: rb_count_def split: prod.splits)
next
  case (3 s k t b s' j)
  then show ?case using rb_tryAcquire_cases [of s k t]
    by (auto simp: rb_count_def RELAY_BUDGET_WINDOW_MS_def split: prod.splits)
next
  case (4 s k t b s' u j)
  then show ?case using rb_tryAcquire_cases [of s k t] by (auto simp: rb_count_def split: prod.splits)
qed



text \<open>
  A failed delivery is not charged: releasing right after an allowed relay restores the count of
  every originator at that time and at any later time.
\<close>

theorem release_undoes_acquire:
  assumes "owf (rb_stamps rb)" "rb_perHour rb \<noteq> 0"
    and "rb_tryAcquire rb c t = (Allowed, rb')" "t \<le> u"
  shows "rb_count (rb_release rb' c) d u = rb_count rb d u"
proof -
  have live: "rb_live rb' e v = rb_live rb e v
      @ (if e = c \<and> v - t < RELAY_BUDGET_WINDOW_MS then [t] else [])" if "t \<le> v" for e v
    using rb_tryAcquire_cases [OF assms(1,3)] assms(2) that by auto
  have stored: "map_of (rb_stamps rb') c = Some (rb_live rb c t @ [t])"
    using assms(2,3) rb_live_sweep [OF assms(1), of t t c]
    by (auto simp: rb_tryAcquire_def Let_def split: if_splits)
  have "rb_of (rb_release rb' c) e = (if e = c then rb_live rb c t else rb_of rb' e)" for e
  proof (cases "rb_live rb c t")
    case Nil
    with stored show ?thesis by (simp add: rb_release_def rb_of_def)
  next
    case (Cons x xs)
    with stored show ?thesis by (simp add: rb_release_def rb_of_def butlast_append)
  qed
  then have "rb_live (rb_release rb' c) d u = rb_live rb d u"
    using live [OF assms(4), of d] filter_recent_strict [OF assms(4)]
    by (auto simp: rb_live_of simp del: filter_filter)
  then show ?thesis by (simp add: rb_count_def)
qed

theorem release_undoes_acquire_witness:
  "rb_count (rb_release (snd (rb_tryAcquire
     \<lparr>rb_perHour = 1, rb_stamps = [], rb_notices = [], rb_lastSweepAt = 0\<rparr> ''x'' 10)) ''x'') ''x'' 20
   = rb_count \<lparr>rb_perHour = 1, rb_stamps = [], rb_notices = [], rb_lastSweepAt = 0\<rparr> ''x'' 20"
  by (rule release_undoes_acquire [where t = 10])
     (simp_all add: rb_tryAcquire_def rb_sweep_def rb_live_def RELAY_BUDGET_WINDOW_MS_def Let_def)

section \<open>Who is budgeted, and when a notice is due\<close>

lemma unbudgeted_mono:
  assumes "a \<le> b"
    and "budgetedOriginator (Some (opts\<lparr>so_originator := Some (orig\<lparr>o_tier := Some a\<rparr>)\<rparr>)) = None"
  shows "budgetedOriginator (Some (opts\<lparr>so_originator := Some (orig\<lparr>o_tier := Some b\<rparr>)\<rparr>)) = None"
  using assms by (cases a; cases b)
    (auto simp: budgetedOriginator_def BUDGETED_TIERS_def tier_order_defs split: if_splits)

interpretation unbudgeted: tier_monotone
  "\<lambda>t. budgetedOriginator (Some (opts\<lparr>so_originator := Some (orig\<lparr>o_tier := Some t\<rparr>)\<rparr>)) = None"
  for opts :: send_options and orig :: task_originator
  by unfold_locales (rule unbudgeted_mono)

text \<open>
  Who the relay budget applies to: exactly the sends that name an originator, are not system
  notifications, approved or directed by the principal, were not started by the principal, the
  system or an agent, and whose originator's tier is known or below, a missing tier reading as
  unknown.
\<close>

theorem budgeted_iff:
  "budgetedOriginator options = Some orig \<longleftrightarrow>
     (\<exists>opts. options = Some opts \<and> so_originator opts = Some orig
        \<and> \<not> so_isSystemNotification opts \<and> \<not> so_humanApproved opts \<and> \<not> so_principalDirected opts
        \<and> o_systemRole orig = None
        \<and> (case o_tier orig of None \<Rightarrow> TUnknown | Some t \<Rightarrow> t) < TTrusted)"
proof -
  have tier: "t \<in> set BUDGETED_TIERS \<longleftrightarrow> t < TTrusted" for t
    by (cases t) (simp_all add: BUDGETED_TIERS_def tier_order_defs)
  show ?thesis
    unfolding budgetedOriginator_def tier
    by (cases options; cases "so_originator (the options)"; cases "o_systemRole orig";
        cases "the (o_systemRole orig)") (auto split: if_splits)
qed

lemma noticeDue_sweep:
  assumes "owf (rb_notices rb)" "t \<le> u"
  shows "noticeDue (rb_sweep rb t) c u = noticeDue rb c u"
  using assms by (auto simp: noticeDue_def rb_sweep_def map_of_filter_snd split: option.splits)

text \<open>
  One notice an hour per originator: after a notice is delivered none is due for that originator
  until the window has passed, whatever relays are attempted and swept meanwhile, and other
  originators' notices are untouched.
\<close>

theorem notice_once_per_window:
  assumes "owf (rb_notices rb)" "owf (rb_stamps rb)" "t \<le> u" "u \<le> v"
  shows "noticeDue (snd (rb_tryAcquire (markNotified rb c t) d u)) e v
       = (if e = c then RELAY_BUDGET_WINDOW_MS \<le> v - t else noticeDue rb e v)"
proof -
  have same: "noticeDue (snd (rb_tryAcquire r d u)) e v = noticeDue r e v"
    if "owf (rb_notices r)" for r
  proof (cases "rb_perHour r = 0")
    case False
    then have "rb_notices (snd (rb_tryAcquire r d u)) = rb_notices (rb_sweep r u)"
      by (simp add: rb_tryAcquire_def Let_def)
    then have "noticeDue (snd (rb_tryAcquire r d u)) e v = noticeDue (rb_sweep r u) e v"
      by (simp add: noticeDue_def)
    with noticeDue_sweep [OF that assms(4)] show ?thesis by simp
  qed (simp add: rb_tryAcquire_def)
  have "owf (rb_notices (markNotified rb c t))" using assms(1) by (simp add: markNotified_def)
  from same [OF this] show ?thesis by (simp add: noticeDue_def markNotified_def)
qed

theorem notice_once_per_window_witness:
  "\<not> noticeDue (snd (rb_tryAcquire (markNotified
       \<lparr>rb_perHour = 1, rb_stamps = [], rb_notices = [], rb_lastSweepAt = 0\<rparr> ''x'' 10) ''x'' 20)) ''x'' 30"
  by (subst notice_once_per_window) (simp_all add: RELAY_BUDGET_WINDOW_MS_def)

end
