(* ===== verification/Uuid.thy ===== *)
theory Uuid
  imports Prelude
begin

text \<open>\<open>src/util/uuid.ts\<close>: the one UUID-shape check (8-4-4-4-12 hexadecimal digits, either case).\<close>

definition is_hex :: "char \<Rightarrow> bool" where
  "is_hex c = (let n = (of_char c :: nat) in
     (48 \<le> n \<and> n \<le> 57) \<or> (65 \<le> n \<and> n \<le> 70) \<or> (97 \<le> n \<and> n \<le> 102))"

fun hex_groups :: "nat list \<Rightarrow> string \<Rightarrow> bool" where
  "hex_groups [] s = False"
| "hex_groups [n] s = (length s = n \<and> list_all is_hex s)"
| "hex_groups (n # m # ns) s =
     (length (take n s) = n \<and> list_all is_hex (take n s)
      \<and> (case drop n s of c # rest \<Rightarrow> c = CHR ''-'' \<and> hex_groups (m # ns) rest | [] \<Rightarrow> False))"

definition uuid_shape :: "string \<Rightarrow> bool" where
  "uuid_shape s = hex_groups [8, 4, 4, 4, 12] s"

fun isUuid :: "jsval \<Rightarrow> bool" where
  "isUuid (JStr s) = uuid_shape s"
| "isUuid _ = False"

text \<open>A nullable id field.\<close>

definition isUuid_opt :: "string option \<Rightarrow> bool" where
  "isUuid_opt s = (case s of None \<Rightarrow> False | Some x \<Rightarrow> uuid_shape x)"

lemma uuid_shape_first: "uuid_shape s \<Longrightarrow> s \<noteq> [] \<and> is_hex (hd s)"
  by (cases s) (auto simp: uuid_shape_def)

lemma uuid_shape_nonempty: "uuid_shape s \<Longrightarrow> s \<noteq> []"
  by (simp add: uuid_shape_first)

end
