(* ===== verification/Standing.thy ===== *)
theory Standing
  imports ContactTypes Uuid
begin

text \<open>
  What an execution may do on whose behalf: the score-keyed bypass ladder for woken and derived tasks
  (\<open>src/autonomy/effective-standing.ts\<close>) and the live-turn grants that carry a principal's live turn
  across a voice hand-off (\<open>src/autonomy/live-turn-grants.ts\<close>). Task metadata is the dynamic bag of
  the code (\<open>jsval\<close>); \<open>randomUUID()\<close> is an argument.
\<close>

section \<open>The bypass ladder\<close>

record bypass_ladder =
  bl_sameTask :: jsnum
  bl_derivedChild :: jsnum

definition DEFAULT_BYPASS_LADDER :: bypass_ladder where
  "DEFAULT_BYPASS_LADDER = \<lparr>bl_sameTask = Fin 70, bl_derivedChild = Fin 90\<rparr>"

datatype ladder_error = InvalidBypassLadder jsnum jsnum

text \<open>Raw thresholds: absent entries take the defaults; the outcome is validated as a whole.\<close>

definition resolveBypassLadder ::
    "jsnum option \<Rightarrow> jsnum option \<Rightarrow> ladder_error + bypass_ladder" where
  "resolveBypassLadder rawSame rawDerived =
     (let same = (case rawSame of None \<Rightarrow> bl_sameTask DEFAULT_BYPASS_LADDER | Some n \<Rightarrow> n);
          derived = (case rawDerived of None \<Rightarrow> bl_derivedChild DEFAULT_BYPASS_LADDER | Some n \<Rightarrow> n)
      in if \<not> is_integer_num same \<or> \<not> is_integer_num derived
            \<or> num_lt same (Fin 60) \<or> num_lt (Fin 100) derived \<or> num_lt derived same
         then Inl (InvalidBypassLadder same derived)
         else Inr \<lparr>bl_sameTask = same, bl_derivedChild = derived\<rparr>)"

definition makeWakeContext :: "bool \<Rightarrow> jsval" where
  "makeWakeContext derived = JObj [(''derived'', JBool derived)]"

text \<open>
  The metadata the execution gates consume. \<open>liveScore = None\<close> is the code's \<open>null\<close>. The spread
  \<open>{ ...x, k: v }\<close> is \<open>AList.update\<close>.
\<close>

definition computeEffectiveTaskMetadata ::
    "(string \<times> jsval) list option \<Rightarrow> jsnum option \<Rightarrow> bypass_ladder \<Rightarrow> (string \<times> jsval) list option" where
  "computeEffectiveTaskMetadata metadata liveScore ladder =
     (case metadata of
        None \<Rightarrow> None
      | Some md \<Rightarrow>
          (let wakeContext = jfield md ''wakeContext'';
               originator = jfield md ''originator''
           in if \<not> truthy wakeContext \<or> \<not> typeof_object wakeContext then Some md
              else if \<not> truthy originator then Some md
              else if jget originator ''systemRole'' \<noteq> JStr ''principal''
                   \<and> jget originator ''systemRole'' \<noteq> JStr ''system'' then Some md
              else
                (let derived = (jget wakeContext ''derived'' \<noteq> JBool False);
                     threshold = (if derived then bl_derivedChild ladder else bl_sameTask ladder);
                     keepsStanding = (case liveScore of None \<Rightarrow> False | Some s \<Rightarrow> num_le threshold s)
                 in if keepsStanding then Some md
                    else
                      (case originator of
                         JObj o_ \<Rightarrow>
                           Some (AList.update ''originator''
                             (JObj (AList.update ''tier'' JNull
                                (AList.update ''systemRole'' (JStr ''agent'') o_))) md)
                       | _ \<Rightarrow> Some md))))"

text \<open>The standing a gate reads off a metadata bag: the originator's role and tier.\<close>

definition standing_role :: "(string \<times> jsval) list option \<Rightarrow> jsval" where
  "standing_role md = (case md of None \<Rightarrow> JUndef | Some m \<Rightarrow> jget (jfield m ''originator'') ''systemRole'')"

definition standing_tier :: "(string \<times> jsval) list option \<Rightarrow> jsval" where
  "standing_tier md = (case md of None \<Rightarrow> JUndef | Some m \<Rightarrow> jget (jfield m ''originator'') ''tier'')"

definition privileged :: "jsval \<Rightarrow> bool" where
  "privileged r \<longleftrightarrow> r = JStr ''principal'' \<or> r = JStr ''system''"

text \<open>A wake, as the code recognizes it: a truthy value whose type is \<open>object\<close>.\<close>

definition is_wake :: "(string \<times> jsval) list \<Rightarrow> bool" where
  "is_wake md \<longleftrightarrow> truthy (jfield md ''wakeContext'') \<and> typeof_object (jfield md ''wakeContext'')"

lemma privileged_object: "privileged (jget v ''systemRole'') \<Longrightarrow> \<exists>obj. v = JObj obj"
  by (cases v) (auto simp: privileged_def)

text \<open>The whole function in one equation over the code's conditions.\<close>

lemma computeEffective_eq:
  "computeEffectiveTaskMetadata (Some md) score ladder =
     (if is_wake md \<and> privileged (jget (jfield md ''originator'') ''systemRole'')
         \<and> \<not> (\<exists>s. score = Some s
              \<and> num_le (if jget (jfield md ''wakeContext'') ''derived'' \<noteq> JBool False
                        then bl_derivedChild ladder else bl_sameTask ladder) s)
      then Some (AList.update ''originator''
             (JObj (AList.update ''tier'' JNull (AList.update ''systemRole'' (JStr ''agent'')
                (case jfield md ''originator'' of JObj obj \<Rightarrow> obj)))) md)
      else Some md)"
  by (cases "jfield md ''originator''"; cases score)
     (auto simp: computeEffectiveTaskMetadata_def is_wake_def privileged_def Let_def)

text \<open>
  C31. The ladder only ever downgrades. The role a gate reads after the ladder is either the lineage's
  own or \<open>agent\<close>, a downgrade also clears the tier, no other metadata entry changes, and a live turn
  (no wake marker) is returned unchanged whatever the score.
\<close>

theorem ladder_never_upgrades:
  "(let eff = computeEffectiveTaskMetadata metadata score ladder in
      (standing_role eff = standing_role metadata \<and> standing_tier eff = standing_tier metadata
       \<or> standing_role eff = JStr ''agent'' \<and> standing_tier eff = JNull \<and> privileged (standing_role metadata))
      \<and> (privileged (standing_role eff) \<longrightarrow> eff = metadata)
      \<and> (case metadata of None \<Rightarrow> eff = None
         | Some md \<Rightarrow> (\<exists>md'. eff = Some md' \<and> (\<forall>k. k \<noteq> ''originator'' \<longrightarrow> jfield md' k = jfield md k))
                     \<and> (\<not> is_wake md \<longrightarrow> eff = metadata)))"
proof (cases metadata)
  case None
  then show ?thesis
    by (simp add: computeEffectiveTaskMetadata_def standing_role_def privileged_def)
next
  case (Some md)
  then show ?thesis
    by (auto simp: computeEffective_eq standing_role_def standing_tier_def privileged_def Let_def)
qed

theorem ladder_never_upgrades_witness:
  "\<not> privileged (standing_role (computeEffectiveTaskMetadata
      (Some [(''wakeContext'', makeWakeContext True), (''originator'', JObj [(''systemRole'', JStr ''system'')]),
             (''note'', JStr ''x'')]) (Some (Fin 50)) DEFAULT_BYPASS_LADDER))
   \<and> (\<exists>md'. computeEffectiveTaskMetadata
      (Some [(''wakeContext'', makeWakeContext True), (''originator'', JObj [(''systemRole'', JStr ''system'')]),
             (''note'', JStr ''x'')]) (Some (Fin 50)) DEFAULT_BYPASS_LADDER = Some md'
      \<and> jfield md' ''note'' = JStr ''x'')"
proof -
  let ?md = "[(''wakeContext'', makeWakeContext True), (''originator'', JObj [(''systemRole'', JStr ''system'')]),
             (''note'', JStr ''x'')]"
  have "computeEffectiveTaskMetadata (Some ?md) (Some (Fin 50)) DEFAULT_BYPASS_LADDER \<noteq> Some ?md"
    by (simp add: computeEffectiveTaskMetadata_def makeWakeContext_def jfield_def DEFAULT_BYPASS_LADDER_def)
  then show ?thesis
    using ladder_never_upgrades [of "Some ?md" "Some (Fin 50)" DEFAULT_BYPASS_LADDER]
    by (auto simp: Let_def jfield_def)
qed

text \<open>
  When a woken task keeps its standing: for a task whose lineage is the principal's or the
  system's, exactly when there is a live score at or above the threshold of its column, where
  anything but an explicit \<open>derived: false\<close> is held to the derived-child column; with a ladder that
  passed validation that threshold is at least 60, so restricted mode always downgrades a wake.
\<close>

theorem woken_standing_kept_iff:
  assumes "is_wake md" "privileged (standing_role (Some md))"
    and "resolveBypassLadder rawSame rawDerived = Inr ladder"
  shows "(privileged (standing_role (computeEffectiveTaskMetadata (Some md) score ladder))
      \<longleftrightarrow> (\<exists>s. score = Some s
            \<and> num_le (if jget (jfield md ''wakeContext'') ''derived'' = JBool False
                      then bl_sameTask ladder else bl_derivedChild ladder) s))
    \<and> (\<forall>s. score = Some s \<and> num_lt s (Fin 60)
         \<longrightarrow> standing_role (computeEffectiveTaskMetadata (Some md) score ladder) = JStr ''agent'')"
proof -
  let ?th = "if jget (jfield md ''wakeContext'') ''derived'' = JBool False
             then bl_sameTask ladder else bl_derivedChild ladder"
  obtain a b where ab: "bl_sameTask ladder = num_int a" "bl_derivedChild ladder = num_int b"
    and le: "60 \<le> a" "a \<le> b"
    using assms(3)
    by (auto simp: resolveBypassLadder_def Let_def not_less split: if_splits elim!: is_integer_num_obtain)
  then have th: "num_le (Fin 60) ?th" by simp
  have low: "\<not> num_le ?th s" if "num_lt s (Fin 60)" for s
    using that ab le by (cases s) (auto split: if_splits)
  have iff: "privileged (standing_role (computeEffectiveTaskMetadata (Some md) score ladder))
      \<longleftrightarrow> (\<exists>s. score = Some s \<and> num_le ?th s)"
    using assms(1,2) by (auto simp: computeEffective_eq standing_role_def privileged_def)
  moreover have "standing_role (computeEffectiveTaskMetadata (Some md) score ladder) = JStr ''agent''"
    if "\<not> (\<exists>s. score = Some s \<and> num_le ?th s)"
    using that assms(1,2) by (auto simp: computeEffective_eq standing_role_def split: if_splits)
  ultimately show ?thesis using low by blast
qed

theorem woken_standing_kept_iff_witness:
  "privileged (standing_role (computeEffectiveTaskMetadata
      (Some [(''wakeContext'', makeWakeContext False), (''originator'', JObj [(''systemRole'', JStr ''principal'')])])
      (Some (Fin 75)) DEFAULT_BYPASS_LADDER))"
proof -
  let ?md = "[(''wakeContext'', makeWakeContext False), (''originator'', JObj [(''systemRole'', JStr ''principal'')])]"
  have h: "is_wake ?md" "privileged (standing_role (Some ?md))"
    "resolveBypassLadder None None = Inr DEFAULT_BYPASS_LADDER"
    by (simp_all add: is_wake_def makeWakeContext_def jfield_def privileged_def standing_role_def
        resolveBypassLadder_def DEFAULT_BYPASS_LADDER_def)
  show ?thesis
    using woken_standing_kept_iff [OF h, of "Some (Fin 75)"]
    by (simp add: jfield_def makeWakeContext_def DEFAULT_BYPASS_LADDER_def)
qed

section \<open>Live-turn grants\<close>

record grant_entry =
  ge_voiceSessionId :: "string option"
  ge_expiresAt :: ms

type_synonym grants = "(string \<times> grant_entry) list"

definition issueLiveTurnGrant :: "grants \<Rightarrow> string \<Rightarrow> string option \<Rightarrow> ms \<Rightarrow> ms \<Rightarrow> string \<times> grants" where
  "issueLiveTurnGrant gs uuid voiceSessionId ttlMs now =
     (let gid = ''ltg-'' @ uuid
      in (gid, AList.update gid \<lparr>ge_voiceSessionId = voiceSessionId, ge_expiresAt = now + max 0 ttlMs\<rparr> gs))"

definition revokeGrant :: "grants \<Rightarrow> string \<Rightarrow> grants" where
  "revokeGrant gs gid = AList.delete gid gs"

definition lapsedLiveTurnGrantId :: "string \<Rightarrow> string" where
  "lapsedLiveTurnGrantId uuid = ''ltg-lapsed-'' @ uuid"

definition isLiveTurnGrantActive :: "grants \<Rightarrow> string option \<Rightarrow> ms \<Rightarrow> bool \<times> grants" where
  "isLiveTurnGrantActive gs idv now =
     (case idv of
        None \<Rightarrow> (False, gs)
      | Some gid \<Rightarrow>
          (case map_of gs gid of
             None \<Rightarrow> (False, gs)
           | Some entry \<Rightarrow>
               if ge_expiresAt entry \<le> now then (False, AList.delete gid gs) else (True, gs)))"

definition revokeLiveTurnGrantsForVoiceSession :: "grants \<Rightarrow> string \<Rightarrow> nat \<times> grants" where
  "revokeLiveTurnGrantsForVoiceSession gs session =
     (length (filter (\<lambda>(_, e). ge_voiceSessionId e = Some session) gs),
      filter (\<lambda>(_, e). \<not> ge_voiceSessionId e = Some session) gs)"

datatype grant_op =
    Issue string "string option" ms ms
  | Revoke string
  | Query "string option" ms
  | RevokeSession string

fun grant_step :: "grants \<Rightarrow> grant_op \<Rightarrow> grants" where
  "grant_step gs (Issue uuid session ttl now) = snd (issueLiveTurnGrant gs uuid session ttl now)"
| "grant_step gs (Revoke gid) = revokeGrant gs gid"
| "grant_step gs (Query idv now) = snd (isLiveTurnGrantActive gs idv now)"
| "grant_step gs (RevokeSession session) = snd (revokeLiveTurnGrantsForVoiceSession gs session)"

definition grants_inv :: "grants \<Rightarrow> bool" where
  "grants_inv gs \<longleftrightarrow> owf gs"

interpretation grants: machine grant_step grants_inv "\<lambda>gs. gs = []"
proof
  fix gs op
  assume "grants_inv gs"
  then show "grants_inv (grant_step gs op)"
    by (cases op) (auto simp: grants_inv_def issueLiveTurnGrant_def revokeGrant_def Let_def
        isLiveTurnGrantActive_def revokeLiveTurnGrantsForVoiceSession_def split: option.splits)
qed (simp add: grants_inv_def)

text \<open>The operations of a run that issue an id.\<close>

definition issues :: "string \<Rightarrow> grant_op \<Rightarrow> bool" where
  "issues gid op \<longleftrightarrow> (\<exists>uuid session ttl now. op = Issue uuid session ttl now \<and> gid = ''ltg-'' @ uuid)"

lemma grant_gone_stays_gone:
  assumes "grants_inv gs" "map_of gs gid = None" "\<forall>op \<in> set ops. \<not> issues gid op"
  shows "map_of (run_steps grant_step gs ops) gid = None"
  using assms
proof (induction ops arbitrary: gs)
  case (Cons op ops)
  have "map_of (grant_step gs op) gid = None"
  proof (cases op)
    case (Issue uuid session ttl now)
    with Cons.prems show ?thesis by (auto simp: issueLiveTurnGrant_def Let_def issues_def)
  qed (use Cons.prems in \<open>auto simp: grants_inv_def revokeGrant_def isLiveTurnGrantActive_def
      revokeLiveTurnGrantsForVoiceSession_def map_of_filter_snd split: option.splits\<close>)
  with Cons.IH [OF grants.inv_step [OF Cons.prems(1)]] Cons.prems(3) show ?case by simp
qed simp

text \<open>
  A grant dies for good: once a grant id has been revoked, its voice session has ended, or it has
  been found expired, it never reads as active again on any continuation that does not issue the
  same id anew.
\<close>

theorem grant_dead_stays_dead:
  assumes "gs = run_steps grant_step [] before"
    and "op = Revoke gid
       \<or> (\<exists>v e. op = RevokeSession v \<and> map_of gs gid = Some e \<and> ge_voiceSessionId e = Some v)
       \<or> (\<exists>now. op = Query (Some gid) now \<and> \<not> fst (isLiveTurnGrantActive gs (Some gid) now))"
    and "\<forall>x \<in> set after. \<not> issues gid x"
  shows "\<not> fst (isLiveTurnGrantActive (run_steps grant_step (grant_step gs op) after) (Some gid) now)"
proof -
  have inv: "grants_inv gs" using grants.inv_run [of "[]" before] assms(1) by simp
  have "map_of (grant_step gs op) gid = None"
    using assms(2) inv
    by (auto simp: grants_inv_def revokeGrant_def isLiveTurnGrantActive_def
        revokeLiveTurnGrantsForVoiceSession_def map_of_filter_snd split: option.splits if_splits)
  then have "map_of (run_steps grant_step (grant_step gs op) after) gid = None"
    by (rule grant_gone_stays_gone [OF grants.inv_step [OF inv] _ assms(3)])
  then show ?thesis by (simp add: isLiveTurnGrantActive_def)
qed

theorem grant_dead_stays_dead_witness:
  "\<not> fst (isLiveTurnGrantActive (run_steps grant_step (grant_step
        (run_steps grant_step [] [Issue ''a'' (Some ''call'') 1000 0]) (RevokeSession ''call''))
        [Issue ''b'' None 1000 5]) (Some ''ltg-a'') 10)
   \<and> fst (isLiveTurnGrantActive (run_steps grant_step [] [Issue ''a'' (Some ''call'') 1000 0]) (Some ''ltg-a'') 10)"
proof -
  have e: "\<exists>v e. RevokeSession ''call'' = RevokeSession v
      \<and> map_of (run_steps grant_step [] [Issue ''a'' (Some ''call'') 1000 0]) ''ltg-a'' = Some e
      \<and> ge_voiceSessionId e = Some v"
    by (simp add: issueLiveTurnGrant_def Let_def)
  show ?thesis
    using grant_dead_stays_dead [OF refl disjI2 [OF disjI1 [OF e]], of "[Issue ''b'' None 1000 5]" 10]
    by (simp add: issues_def issueLiveTurnGrant_def isLiveTurnGrantActive_def Let_def)
qed

text \<open>
  An after-call hand-off is never live: an id from \<open>lapsedLiveTurnGrantId\<close> is inactive in every
  state that issuing (under UUID-shaped random ids), revoking and querying can reach, because no
  UUID begins with the letter the lapsed prefix continues with.
\<close>

theorem lapsed_id_never_active:
  assumes "\<forall>op \<in> set ops. \<forall>uuid session ttl now. op = Issue uuid session ttl now \<longrightarrow> uuid_shape uuid"
  shows "\<not> fst (isLiveTurnGrantActive (run_steps grant_step [] ops) (Some (lapsedLiveTurnGrantId u)) now)"
proof -
  have "\<not> issues (lapsedLiveTurnGrantId u) op" if "op \<in> set ops" for op
  proof
    assume "issues (lapsedLiveTurnGrantId u) op"
    then obtain uuid session ttl t where "op = Issue uuid session ttl t" "''lapsed-'' @ u = uuid"
      by (auto simp: issues_def lapsedLiveTurnGrantId_def)
    with assms that have "uuid_shape (''lapsed-'' @ u)" by blast
    from uuid_shape_first [OF this] show False by (simp add: is_hex_def)
  qed
  then have "map_of (run_steps grant_step [] ops) (lapsedLiveTurnGrantId u) = None"
    by (intro grant_gone_stays_gone) (auto simp: grants_inv_def)
  then show ?thesis by (simp add: isLiveTurnGrantActive_def)
qed

theorem lapsed_id_never_active_witness:
  "\<not> fst (isLiveTurnGrantActive (run_steps grant_step []
      [Issue ''01234567-89ab-cdef-0123-456789abcdef'' None 1000 0])
      (Some (lapsedLiveTurnGrantId ''01234567-89ab-cdef-0123-456789abcdef'')) 5)"
  by (rule lapsed_id_never_active) (simp add: uuid_shape_def is_hex_def)

end
