(* ===== verification/EventBus.thy ===== *)
theory EventBus
  imports Prelude
begin

text \<open>
  The message bus (\<open>src/src/bus/permissions.ts\<close>, \<open>src/src/bus/bus.ts\<close>): the two allowlists that
  say which layer may publish and subscribe to which event type, and the bus that checks them,
  runs the audit write-ahead hook, delivers to the subscribers in order and acknowledges.

  The code a bus calls (subscribers, the two hooks, the ownership check of the agent registry) is
  a function of its own: it takes the world it runs in and returns the world it leaves and
  \<open>Some err\<close> when it threw. One call of a bus operation is one step; what a subscriber publishes
  while it runs is inside its own function. A subscriber that subscribes another one to the same
  event type while the event is being delivered is not modelled.
\<close>

section \<open>Layer permissions\<close>

datatype layer = ChannelLayer | DispatchLayer | AgentLayer | ExecutionLayer | SystemLayer

fun publishAllowlist :: "layer \<Rightarrow> string list" where
  "publishAllowlist ChannelLayer =
     [''inbound.message'', ''inbound.reaction'', ''channel.poll'', ''channel.stalled'',
      ''channel.disconnected'', ''channel.reconnect'', ''voice.session.started'',
      ''voice.session.ended'']"
| "publishAllowlist DispatchLayer =
     [''agent.task'', ''outbound.message'', ''outbound.blocked'', ''outbound.judge'',
      ''outbound.delivered'', ''outbound.pii_redacted'', ''outbound.suppressed_duplicate'',
      ''outbound.no_reply'', ''outbound.notification'', ''contact.resolved'',
      ''contact.unknown'', ''message.rejected'', ''contact.duplicate_detected'',
      ''contact.merged'', ''contact.elevated'', ''conversation.checkpoint'', ''human.decision'',
      ''authorization.decision'', ''autonomy.send_blocked'', ''autonomy.relay_deferred'',
      ''principal.report'']"
| "publishAllowlist AgentLayer =
     [''agent.response'', ''agent.error'', ''agent.task.input_injected'', ''tool.invoke'',
      ''tool.result'', ''memory.store'', ''memory.query'', ''agent.discuss'', ''llm.call'',
      ''llm.error'', ''context.budget'', ''model.fallback'', ''delegation.timed_out'',
      ''delegation.requester_context'', ''delegation.principal_note'']"
| "publishAllowlist ExecutionLayer =
     [''tool.result'', ''secret.accessed'', ''card_use.requested'', ''card_use.decided'',
      ''autonomy.tool_blocked'', ''authorization.decision'', ''contact.resolved'',
      ''task.created'', ''task.updated'', ''task.completed'', ''export.delivered'',
      ''principal.report'']"
| "publishAllowlist SystemLayer =
     [''inbound.message'', ''inbound.reaction'', ''agent.task'', ''agent.task.input_injected'',
      ''agent.response'', ''agent.error'', ''outbound.message'', ''outbound.blocked'',
      ''outbound.judge'', ''outbound.delivered'', ''export.delivered'',
      ''outbound.pii_redacted'', ''outbound.suppressed_duplicate'', ''outbound.no_reply'',
      ''outbound.notification'', ''tool.invoke'', ''tool.result'', ''memory.store'',
      ''memory.query'', ''memory.decay_warning'', ''contact.resolved'', ''contact.unknown'',
      ''message.rejected'', ''schedule.created'', ''schedule.fired'', ''schedule.suspended'',
      ''schedule.recovered'', ''schedule.drift_paused'', ''config.change'', ''system.restart'',
      ''operator.session'', ''document.console_action'', ''kg.nodes_merged'',
      ''activity.summary'', ''minutes.ready'', ''minutes.pipeline_failed'',
      ''contact.duplicate_detected'', ''contact.merged'', ''contact.elevated'',
      ''agent.discuss'', ''conversation.checkpoint'', ''checkpoint.extraction_skipped'',
      ''llm.call'', ''llm.error'', ''embedding.call'', ''embedding.error'', ''context.budget'',
      ''model.fallback'', ''human.decision'', ''authorization.decision'', ''secret.captured'',
      ''secret.captured'', ''secret.changed'', ''card_use.requested'', ''card_use.decided'',
      ''autonomy.tool_blocked'', ''autonomy.send_blocked'', ''autonomy.relay_deferred'',
      ''task.resumable_throughput'', ''voice.session.started'', ''voice.session.ended'',
      ''channel.poll'', ''channel.stalled'', ''channel.disconnected'', ''channel.reconnect'',
      ''delegation.timed_out'', ''delegation.late_resolved'', ''delegation.requester_context'',
      ''delegation.principal_note'', ''principal.report'']"

fun subscribeAllowlist :: "layer \<Rightarrow> string list" where
  "subscribeAllowlist ChannelLayer =
     [''outbound.message'', ''outbound.blocked'', ''outbound.notification'', ''message.rejected'']"
| "subscribeAllowlist DispatchLayer =
     [''inbound.message'', ''inbound.reaction'', ''agent.response'', ''agent.error'',
      ''agent.discuss'', ''tool.result'', ''authorization.decision'', ''outbound.blocked'',
      ''outbound.delivered'', ''autonomy.send_blocked'']"
| "subscribeAllowlist AgentLayer =
     [''agent.task'', ''tool.result'']"
| "subscribeAllowlist ExecutionLayer =
     [''tool.invoke'']"
| "subscribeAllowlist SystemLayer =
     [''inbound.message'', ''inbound.reaction'', ''agent.task'', ''agent.task.input_injected'',
      ''agent.response'', ''agent.error'', ''outbound.message'', ''outbound.blocked'',
      ''outbound.judge'', ''outbound.delivered'', ''export.delivered'',
      ''outbound.pii_redacted'', ''outbound.suppressed_duplicate'', ''outbound.no_reply'',
      ''outbound.notification'', ''tool.invoke'', ''tool.result'', ''memory.store'',
      ''memory.query'', ''memory.decay_warning'', ''contact.resolved'', ''contact.unknown'',
      ''message.rejected'', ''schedule.created'', ''schedule.fired'', ''schedule.suspended'',
      ''schedule.recovered'', ''schedule.drift_paused'', ''config.change'', ''system.restart'',
      ''operator.session'', ''document.console_action'', ''kg.nodes_merged'',
      ''activity.summary'', ''minutes.ready'', ''minutes.pipeline_failed'',
      ''contact.duplicate_detected'', ''contact.merged'', ''contact.elevated'',
      ''agent.discuss'', ''conversation.checkpoint'', ''checkpoint.extraction_skipped'',
      ''llm.call'', ''llm.error'', ''embedding.call'', ''embedding.error'', ''context.budget'',
      ''model.fallback'', ''human.decision'', ''authorization.decision'', ''secret.captured'',
      ''secret.captured'', ''secret.changed'', ''card_use.requested'', ''card_use.decided'',
      ''autonomy.tool_blocked'', ''autonomy.send_blocked'', ''autonomy.relay_deferred'',
      ''channel.poll'', ''channel.stalled'', ''channel.disconnected'', ''channel.reconnect'',
      ''task.created'', ''task.updated'', ''task.completed'', ''task.resumable_throughput'',
      ''voice.session.started'', ''voice.session.ended'', ''delegation.timed_out'',
      ''delegation.late_resolved'', ''delegation.requester_context'',
      ''delegation.principal_note'', ''principal.report'']"

definition canPublish :: "layer \<Rightarrow> string \<Rightarrow> bool" where
  "canPublish l t \<longleftrightarrow> t \<in> set (publishAllowlist l)"

definition canSubscribe :: "layer \<Rightarrow> string \<Rightarrow> bool" where
  "canSubscribe l t \<longleftrightarrow> t \<in> set (subscribeAllowlist l)"

section \<open>The bus\<close>

record bus_event =
  be_id :: string
  be_type :: string
  be_sourceLayer :: layer
  be_parentEventId :: "string option"
  be_agentId :: string \<comment> \<open>\<open>payload.agentId\<close>, read for an \<open>agent.task\<close> only\<close>

datatype bus_error =
    NotAuthorizedToSubscribe layer string
  | NotAuthorizedToPublish layer string
  | UnownedAgentTaskError string layer string "string option"
  | HookThrew string

datatype bus_log =
    SubscriberRegistered layer string
  | EventPublished layer string string
  | DeliveringPersisted layer string string
  | UnownedTaskPublished string layer string "string option"
  | SubscriberError string string string
  | AcknowledgementFailed string string string

type_synonym ('w, 'a) effectful = "'a \<Rightarrow> 'w \<Rightarrow> 'w \<times> string option"

record 'w event_bus =
  eb_subscribers :: "(string \<times> ('w, bus_event) effectful list) list"
  eb_logger :: "bus_log list"
  eb_onEvent :: "('w, bus_event) effectful option"
  eb_onDelivered :: "('w, string) effectful option"
  eb_ownsAgent :: "(string \<Rightarrow> bool) option"

definition new_event_bus ::
    "('w, bus_event) effectful option \<Rightarrow> ('w, string) effectful option \<Rightarrow> 'w event_bus" where
  "new_event_bus onEvent onDelivered =
     \<lparr>eb_subscribers = [], eb_logger = [], eb_onEvent = onEvent, eb_onDelivered = onDelivered,
      eb_ownsAgent = None\<rparr>"

definition bus_log_line :: "bus_log \<Rightarrow> 'w event_bus \<Rightarrow> 'w event_bus" where
  "bus_log_line l b = b\<lparr>eb_logger := eb_logger b @ [l]\<rparr>"

definition handlers_for :: "'w event_bus \<Rightarrow> string \<Rightarrow> ('w, bus_event) effectful list" where
  "handlers_for b t = (case map_of (eb_subscribers b) t of Some hs \<Rightarrow> hs | None \<Rightarrow> [])"

definition subscribe ::
    "'w event_bus \<Rightarrow> string \<Rightarrow> layer \<Rightarrow> ('w, bus_event) effectful \<Rightarrow> bus_error + 'w event_bus" where
  "subscribe b t l h =
     (if \<not> canSubscribe l t then Inl (NotAuthorizedToSubscribe l t)
      else Inr (bus_log_line (SubscriberRegistered l t)
             (b\<lparr>eb_subscribers := AList.update t (handlers_for b t @ [h]) (eb_subscribers b)\<rparr>)))"

definition setAgentOwner :: "'w event_bus \<Rightarrow> (string \<Rightarrow> bool) \<Rightarrow> 'w event_bus" where
  "setAgentOwner b owns = b\<lparr>eb_ownsAgent := Some owns\<rparr>"

definition unownedAgentTask :: "'w event_bus \<Rightarrow> layer \<Rightarrow> bus_event \<Rightarrow> bus_error option" where
  "unownedAgentTask b l e =
     (if be_type e \<noteq> ''agent.task'' then None
      else (case eb_ownsAgent b of
              None \<Rightarrow> None
            | Some owns \<Rightarrow>
                if owns (be_agentId e) then None
                else Some (UnownedAgentTaskError (be_agentId e) l (be_id e) (be_parentEventId e))))"

definition authorize :: "'w event_bus \<Rightarrow> layer \<Rightarrow> bus_event \<Rightarrow> bus_error option \<times> 'w event_bus" where
  "authorize b l e =
     (if \<not> canPublish l (be_type e) then (Some (NotAuthorizedToPublish l (be_type e)), b)
      else (case unownedAgentTask b l e of
              None \<Rightarrow> (None, b)
            | Some err \<Rightarrow>
                (Some err, bus_log_line
                   (UnownedTaskPublished (be_agentId e) l (be_id e) (be_parentEventId e)) b)))"

definition writeAhead ::
    "'w event_bus \<Rightarrow> layer \<Rightarrow> bus_event \<Rightarrow> 'w \<Rightarrow> bus_error option \<times> 'w event_bus \<times> 'w" where
  "writeAhead b l e w =
     (case authorize b l e of
        (Some err, b') \<Rightarrow> (Some err, b', w)
      | (None, b') \<Rightarrow>
          let b'' = bus_log_line (EventPublished l (be_type e) (be_id e)) b'
          in (case eb_onEvent b'' of
                None \<Rightarrow> (None, b'', w)
              | Some hook \<Rightarrow>
                  (case hook e w of (w', thrown) \<Rightarrow> (map_option HookThrew thrown, b'', w'))))"

fun run_handlers ::
    "('w, bus_event) effectful list \<Rightarrow> bus_event \<Rightarrow> 'w event_bus \<times> 'w \<Rightarrow> 'w event_bus \<times> 'w" where
  "run_handlers [] e (b, w) = (b, w)"
| "run_handlers (h # hs) e (b, w) =
     (case h e w of
        (w', None) \<Rightarrow> run_handlers hs e (b, w')
      | (w', Some err) \<Rightarrow>
          run_handlers hs e (bus_log_line (SubscriberError err (be_type e) (be_id e)) b, w'))"

definition deliver :: "'w event_bus \<Rightarrow> bus_event \<Rightarrow> 'w \<Rightarrow> 'w event_bus \<times> 'w" where
  "deliver b e w =
     (case run_handlers (handlers_for b (be_type e)) e (b, w) of
        (b', w') \<Rightarrow>
          (case eb_onDelivered b' of
             None \<Rightarrow> (b', w')
           | Some hook \<Rightarrow>
               (case hook (be_id e) w' of
                  (w'', None) \<Rightarrow> (b', w'')
                | (w'', Some err) \<Rightarrow>
                    (bus_log_line (AcknowledgementFailed err (be_type e) (be_id e)) b', w''))))"

definition publish ::
    "'w event_bus \<Rightarrow> layer \<Rightarrow> bus_event \<Rightarrow> 'w \<Rightarrow> bus_error option \<times> 'w event_bus \<times> 'w" where
  "publish b l e w =
     (case writeAhead b l e w of
        (Some err, b', w') \<Rightarrow> (Some err, b', w')
      | (None, b', w') \<Rightarrow> (None, deliver b' e w'))"

text \<open>
  A staged delivery is the event whose write-ahead has run and whether delivery has started. A
  detached publish differs from \<open>publish\<close> in not making its caller wait: the delivery it starts
  is the same, and the step of the model ends with it.
\<close>

record staged_delivery =
  sd_event :: bus_event
  sd_started :: bool

definition stagePublish ::
    "'w event_bus \<Rightarrow> layer \<Rightarrow> bus_event \<Rightarrow> 'w
      \<Rightarrow> (bus_error + staged_delivery) \<times> 'w event_bus \<times> 'w" where
  "stagePublish b l e w =
     (case writeAhead b l e w of
        (Some err, b', w') \<Rightarrow> (Inl err, b', w')
      | (None, b', w') \<Rightarrow> (Inr \<lparr>sd_event = e, sd_started = False\<rparr>, b', w'))"

definition staged_deliver ::
    "staged_delivery \<Rightarrow> 'w event_bus \<Rightarrow> 'w \<Rightarrow> staged_delivery \<times> 'w event_bus \<times> 'w" where
  "staged_deliver sd b w =
     (if sd_started sd then (sd, b, w)
      else (case deliver b (sd_event sd) w of (b', w') \<Rightarrow> (sd\<lparr>sd_started := True\<rparr>, b', w')))"

definition publishDetached ::
    "'w event_bus \<Rightarrow> layer \<Rightarrow> bus_event \<Rightarrow> 'w \<Rightarrow> bus_error option \<times> 'w event_bus \<times> 'w" where
  "publishDetached b l e w =
     (case writeAhead b l e w of
        (Some err, b', w') \<Rightarrow> (Some err, b', w')
      | (None, b', w') \<Rightarrow> (None, deliver b' e w'))"

definition deliverPersisted ::
    "'w event_bus \<Rightarrow> bus_event \<Rightarrow> 'w \<Rightarrow> bus_error option \<times> 'w event_bus \<times> 'w" where
  "deliverPersisted b e w =
     (case authorize b (be_sourceLayer e) e of
        (Some err, b') \<Rightarrow> (Some err, b', w)
      | (None, b') \<Rightarrow>
          (None, deliver (bus_log_line (DeliveringPersisted (be_sourceLayer e) (be_type e) (be_id e)) b') e w))"

section \<open>A bus in use\<close>

datatype 'w bus_op =
    OpSubscribe string layer "('w, bus_event) effectful"
  | OpSetOwner "string \<Rightarrow> bool"
  | OpPublish layer bus_event
  | OpPublishDetached layer bus_event
  | OpStage layer bus_event
  | OpDeliverStaged staged_delivery
  | OpDeliverPersisted bus_event

fun bus_step :: "'w event_bus \<times> 'w \<Rightarrow> 'w bus_op \<Rightarrow> 'w event_bus \<times> 'w" where
  "bus_step (b, w) (OpSubscribe t l h) = ((case subscribe b t l h of Inl _ \<Rightarrow> b | Inr b' \<Rightarrow> b'), w)"
| "bus_step (b, w) (OpSetOwner owns) = (setAgentOwner b owns, w)"
| "bus_step (b, w) (OpPublish l e) = snd (publish b l e w)"
| "bus_step (b, w) (OpPublishDetached l e) = snd (publishDetached b l e w)"
| "bus_step (b, w) (OpStage l e) = snd (stagePublish b l e w)"
| "bus_step (b, w) (OpDeliverStaged sd) = snd (staged_deliver sd b w)"
| "bus_step (b, w) (OpDeliverPersisted e) = snd (deliverPersisted b e w)"

text \<open>The registrations a run accepted for an event type, in order.\<close>

fun registered :: "string \<Rightarrow> 'w bus_op list \<Rightarrow> (layer \<times> ('w, bus_event) effectful) list" where
  "registered t [] = []"
| "registered t (OpSubscribe t' l h # ops) =
     (if t' = t \<and> canSubscribe l t then (l, h) # registered t ops else registered t ops)"
| "registered t (_ # ops) = registered t ops"

text \<open>Publishing touches the log and nothing else of the bus.\<close>

definition same_wiring :: "'w event_bus \<Rightarrow> 'w event_bus \<Rightarrow> bool" where
  "same_wiring b b' \<longleftrightarrow> eb_subscribers b' = eb_subscribers b \<and> eb_onEvent b' = eb_onEvent b
     \<and> eb_onDelivered b' = eb_onDelivered b \<and> eb_ownsAgent b' = eb_ownsAgent b"

lemma same_wiring_refl [simp]: "same_wiring b b"
  by (simp add: same_wiring_def)

lemma same_wiring_log [simp]: "same_wiring b (bus_log_line l b') = same_wiring b b'"
  by (simp add: same_wiring_def bus_log_line_def)

lemma same_wiring_trans [trans]: "same_wiring a b \<Longrightarrow> same_wiring b c \<Longrightarrow> same_wiring a c"
  by (simp add: same_wiring_def)

lemma log_line_fields [simp]:
  "eb_subscribers (bus_log_line l b) = eb_subscribers b" "eb_onEvent (bus_log_line l b) = eb_onEvent b"
  "eb_onDelivered (bus_log_line l b) = eb_onDelivered b" "eb_ownsAgent (bus_log_line l b) = eb_ownsAgent b"
  "handlers_for (bus_log_line l b) t = handlers_for b t"
  by (simp_all add: bus_log_line_def handlers_for_def)

lemma same_wiring_handlers: "same_wiring b b' \<Longrightarrow> handlers_for b' t = handlers_for b t"
  by (simp add: same_wiring_def handlers_for_def)

lemma same_wiring_authorize: "same_wiring b (snd (authorize b l e))"
  by (auto simp: authorize_def split: option.splits)

lemma same_wiring_writeAhead: "same_wiring b (fst (snd (writeAhead b l e w)))"
  using same_wiring_authorize [of b l e]
  by (auto simp: writeAhead_def Let_def split: prod.splits option.splits)

lemma run_handlers_effect:
  "same_wiring b (fst (run_handlers hs e (b, w)))
   \<and> snd (run_handlers hs e (b, w)) = fold (\<lambda>h w. fst (h e w)) hs w"
proof (induction hs arbitrary: b w)
  case (Cons h hs)
  obtain w' thrown where h: "h e w = (w', thrown)" by (cases "h e w")
  show ?case
  proof (cases thrown)
    case None
    with h Cons.IH [of b w'] show ?thesis by simp
  next
    case (Some err)
    let ?b = "bus_log_line (SubscriberError err (be_type e) (be_id e)) b"
    have "same_wiring b ?b" by simp
    then show ?thesis using h Some Cons.IH [of ?b w'] same_wiring_trans [of b ?b] by auto
  qed
qed simp

text \<open>The effects of the hooks, where they are wired.\<close>

definition hook_effect :: "('w, 'a) effectful option \<Rightarrow> 'a \<Rightarrow> 'w \<Rightarrow> 'w" where
  "hook_effect hook x w = (case hook of None \<Rightarrow> w | Some h \<Rightarrow> fst (h x w))"

definition hook_error :: "('w, 'a) effectful option \<Rightarrow> 'a \<Rightarrow> 'w \<Rightarrow> string option" where
  "hook_error hook x w = (case hook of None \<Rightarrow> None | Some h \<Rightarrow> snd (h x w))"

lemma deliver_effect:
  "same_wiring b (fst (deliver b e w))
   \<and> snd (deliver b e w) = hook_effect (eb_onDelivered b) (be_id e)
        (fold (\<lambda>h w. fst (h e w)) (handlers_for b (be_type e)) w)"
proof -
  obtain b' w' where r: "run_handlers (handlers_for b (be_type e)) e (b, w) = (b', w')" by fastforce
  have sw: "same_wiring b b'" and w': "w' = fold (\<lambda>h w. fst (h e w)) (handlers_for b (be_type e)) w"
    using run_handlers_effect [of b "handlers_for b (be_type e)" e w] r by simp_all
  from sw have d: "eb_onDelivered b' = eb_onDelivered b" by (simp add: same_wiring_def)
  show ?thesis
    unfolding deliver_def r using sw w' d
    by (auto simp: hook_effect_def split: option.splits prod.splits)
qed

text \<open>What \<open>authorize\<close> turns down.\<close>

definition rejected :: "'w event_bus \<Rightarrow> layer \<Rightarrow> bus_event \<Rightarrow> bool" where
  "rejected b l e \<longleftrightarrow> \<not> canPublish l (be_type e)
     \<or> be_type e = ''agent.task'' \<and> (\<exists>owns. eb_ownsAgent b = Some owns \<and> \<not> owns (be_agentId e))"

lemma authorize_rejects: "fst (authorize b l e) \<noteq> None \<longleftrightarrow> rejected b l e"
  by (auto simp: authorize_def rejected_def unownedAgentTask_def split: option.splits if_splits)

lemma authorize_error_kind:
  "fst (authorize b l e) = Some err \<Longrightarrow> \<not> (\<exists>m. err = HookThrew m)"
  by (auto simp: authorize_def unownedAgentTask_def split: option.splits if_splits)

lemma writeAhead_effect:
  "fst (writeAhead b l e w) = (if rejected b l e then fst (authorize b l e)
       else map_option HookThrew (hook_error (eb_onEvent b) e w))
   \<and> snd (snd (writeAhead b l e w)) = (if rejected b l e then w else hook_effect (eb_onEvent b) e w)"
proof -
  obtain err b' where a: "authorize b l e = (err, b')" by fastforce
  have sw: "eb_onEvent b' = eb_onEvent b"
    using same_wiring_authorize [of b l e] a by (simp add: same_wiring_def)
  show ?thesis
  proof (cases err)
    case None
    with a have "\<not> rejected b l e" using authorize_rejects [of b l e] by simp
    with a None sw show ?thesis
      by (auto simp: writeAhead_def hook_effect_def hook_error_def Let_def split: option.splits prod.splits)
  next
    case (Some x)
    with a have "rejected b l e" using authorize_rejects [of b l e] by simp
    with a Some show ?thesis by (simp add: writeAhead_def)
  qed
qed

lemma writeAhead_split:
  obtains err b' w' where "writeAhead b l e w = (err, b', w')" "same_wiring b b'"
    "err = (if rejected b l e then fst (authorize b l e)
            else map_option HookThrew (hook_error (eb_onEvent b) e w))"
    "w' = (if rejected b l e then w else hook_effect (eb_onEvent b) e w)"
  using writeAhead_effect [of b l e w] same_wiring_writeAhead [of b l e w]
  by (cases "writeAhead b l e w") auto

lemma publish_wiring: "same_wiring b (fst (snd (publish b l e w)))"
proof -
  obtain err b' w' where wa: "writeAhead b l e w = (err, b', w')" "same_wiring b b'"
    using writeAhead_split [of b l e w] by metis
  then show ?thesis
    using same_wiring_trans [OF wa(2), of "fst (deliver b' e w')"] deliver_effect [of b' e w']
    by (auto simp: publish_def split: option.splits)
qed

lemma deliverPersisted_wiring: "same_wiring b (fst (snd (deliverPersisted b e w)))"
proof -
  obtain err b' where a: "authorize b (be_sourceLayer e) e = (err, b')" by fastforce
  then have sw: "same_wiring b b'" using same_wiring_authorize [of b "be_sourceLayer e" e] by simp
  let ?b = "bus_log_line (DeliveringPersisted (be_sourceLayer e) (be_type e) (be_id e)) b'"
  have "same_wiring b ?b" using sw by simp
  then show ?thesis
    using a sw same_wiring_trans [of b ?b "fst (deliver ?b e w)"] deliver_effect [of ?b e w]
    by (auto simp: deliverPersisted_def split: option.splits)
qed

lemma staged_wiring:
  "same_wiring b (fst (snd (stagePublish b l e w)))"
  "same_wiring b (fst (snd (staged_deliver sd b w)))"
proof -
  obtain err b' w' where wa: "writeAhead b l e w = (err, b', w')" "same_wiring b b'"
    using writeAhead_split [of b l e w] by metis
  then show "same_wiring b (fst (snd (stagePublish b l e w)))"
    by (auto simp: stagePublish_def split: option.splits)
  show "same_wiring b (fst (snd (staged_deliver sd b w)))"
    using deliver_effect [of b "sd_event sd" w]
    by (auto simp: staged_deliver_def split: prod.splits)
qed

section \<open>Properties\<close>



text \<open>
  What a publish does to the world, on every branch: nothing when it is turned down; the audit
  write-ahead alone, and its error, when that hook throws (no subscriber runs); otherwise the
  write-ahead, then every subscriber of the event type in registration order, whatever any of them
  throws, then the acknowledgement, and the publish succeeds.
\<close>

theorem publish_order:
  "fst (publish b l e w) = (if rejected b l e then fst (authorize b l e)
       else map_option HookThrew (hook_error (eb_onEvent b) e w))
   \<and> snd (snd (publish b l e w)) =
       (if rejected b l e then w
        else if hook_error (eb_onEvent b) e w \<noteq> None then hook_effect (eb_onEvent b) e w
        else hook_effect (eb_onDelivered b) (be_id e)
               (fold (\<lambda>h w. fst (h e w)) (handlers_for b (be_type e)) (hook_effect (eb_onEvent b) e w)))"
proof -
  obtain err b' w' where wa: "writeAhead b l e w = (err, b', w')" "same_wiring b b'"
    "err = (if rejected b l e then fst (authorize b l e)
            else map_option HookThrew (hook_error (eb_onEvent b) e w))"
    "w' = (if rejected b l e then w else hook_effect (eb_onEvent b) e w)"
    by (rule writeAhead_split [of b l e w])
  have "eb_onDelivered b' = eb_onDelivered b" using wa(2) by (simp add: same_wiring_def)
  with deliver_effect [of b' e w'] have d: "snd (deliver b' e w') = hook_effect (eb_onDelivered b) (be_id e)
      (fold (\<lambda>h w. fst (h e w)) (handlers_for b (be_type e)) w')"
    by (simp add: same_wiring_handlers [OF wa(2)])
  show ?thesis
  proof (cases "rejected b l e")
    case True
    with wa authorize_rejects [of b l e] show ?thesis by (auto simp: publish_def)
  next
    case False
    with wa d show ?thesis
      by (cases "hook_error (eb_onEvent b) e w") (auto simp: publish_def)
  qed
qed

text \<open>
  Staging is publishing in two halves: when \<open>stagePublish\<close> succeeds, starting its delivery one
  or more times leaves exactly the bus and the world \<open>publish\<close> would have left, so a second
  \<open>deliver()\<close> delivers nothing.
\<close>

theorem staged_refines_publish:
  assumes "stagePublish b l e w = (Inr sd, b1, w1)"
  shows "snd (((\<lambda>(sd, b, w). staged_deliver sd b w) ^^ Suc n) (sd, b1, w1)) = snd (publish b l e w)"
proof -
  have wa: "writeAhead b l e w = (None, b1, w1)" and sd: "sd = \<lparr>sd_event = e, sd_started = False\<rparr>"
    using assms by (auto simp: stagePublish_def split: prod.splits option.splits)
  let ?f = "\<lambda>(sd, b, w). staged_deliver sd b w"
  have "(?f ^^ Suc n) (sd, b1, w1) = (sd\<lparr>sd_started := True\<rparr>, deliver b1 e w1)"
    by (induction n) (auto simp: sd staged_deliver_def split: prod.splits)
  then show ?thesis by (simp add: publish_def wa)
qed

theorem staged_refines_publish_witness:
  "\<exists>sd b1 w1. stagePublish (new_event_bus (Some (\<lambda>e w. (Suc w, None))) None) ChannelLayer
      \<lparr>be_id = ''1'', be_type = ''inbound.message'', be_sourceLayer = ChannelLayer,
       be_parentEventId = None, be_agentId = []\<rparr> 0 = (Inr sd, b1, w1)
    \<and> snd (snd (((\<lambda>(sd, b, w). staged_deliver sd b w) ^^ 2) (sd, b1, w1))) = 1"
proof -
  let ?b = "new_event_bus (Some (\<lambda>e w. (Suc w, None))) None"
  let ?e = "\<lparr>be_id = ''1'', be_type = ''inbound.message'', be_sourceLayer = ChannelLayer,
       be_parentEventId = None, be_agentId = []\<rparr>"
  obtain sd b1 w1 where st: "stagePublish ?b ChannelLayer ?e 0 = (Inr sd, b1, w1)"
    by (simp add: stagePublish_def writeAhead_def authorize_def canPublish_def new_event_bus_def
        unownedAgentTask_def Let_def)
  have two: "(2::nat) = Suc 1" by simp
  have "snd (snd (publish ?b ChannelLayer ?e 0)) = 1"
    by (simp add: publish_def deliver_def handlers_for_def writeAhead_def authorize_def canPublish_def
        new_event_bus_def unownedAgentTask_def Let_def bus_log_line_def)
  then have "snd (snd (((\<lambda>(sd, b, w). staged_deliver sd b w) ^^ 2) (sd, b1, w1))) = 1"
    unfolding two staged_refines_publish [OF st] .
  with st show ?thesis by blast
qed

lemma handlers_for_update:
  "handlers_for (b\<lparr>eb_subscribers := AList.update t hs (eb_subscribers b)\<rparr>) t'
   = (if t' = t then hs else handlers_for b t')"
  by (simp add: handlers_for_def)

lemma subscribe_handlers:
  "handlers_for (fst (bus_step (b, w) (OpSubscribe t' l h))) t
   = handlers_for b t @ map snd (registered t [OpSubscribe t' l h])"
  by (simp add: subscribe_def handlers_for_update)

lemma other_step_handlers:
  "registered t [op] = [] \<Longrightarrow> handlers_for (fst (bus_step (b, w) op)) t = handlers_for b t"
proof (cases op)
  case (OpSubscribe t' l h)
  then show "registered t [op] = [] \<Longrightarrow> ?thesis"
    using subscribe_handlers [of b w t' l h t] by simp
next
  case (OpSetOwner owns)
  then show ?thesis by (simp add: setAgentOwner_def handlers_for_def)
next
  case (OpPublish l e)
  then show ?thesis using same_wiring_handlers [OF publish_wiring] by simp
next
  case (OpPublishDetached l e)
  then show ?thesis using same_wiring_handlers [OF publish_wiring [unfolded publish_def]]
    by (simp add: publishDetached_def)
next
  case (OpStage l e)
  then show ?thesis using same_wiring_handlers [OF staged_wiring(1)] by simp
next
  case (OpDeliverStaged sd)
  then show ?thesis using same_wiring_handlers [OF staged_wiring(2)] by simp
next
  case (OpDeliverPersisted e)
  then show ?thesis using same_wiring_handlers [OF deliverPersisted_wiring] by simp
qed

lemma registered_append: "registered t (xs @ ys) = registered t xs @ registered t ys"
  by (induction t xs rule: registered.induct) auto

lemma run_handlers_for:
  "handlers_for (fst (run_steps bus_step bw ops)) t
   = handlers_for (fst bw) t @ map snd (registered t ops)"
proof (induction ops arbitrary: bw)
  case (Cons op ops)
  obtain b w where bw: "bw = (b, w)" by (cases bw)
  have "handlers_for (fst (bus_step (b, w) op)) t = handlers_for b t @ map snd (registered t [op])"
  proof (cases op)
    case (OpSubscribe t' l h)
    then show ?thesis using subscribe_handlers by metis
  qed (use other_step_handlers [of t op b w] in simp_all)
  then show ?case
    using Cons.IH [of "bus_step bw op"] registered_append [of t "[op]" ops] bw by simp
qed simp

lemma registered_authorized: "(l, h) \<in> set (registered t ops) \<Longrightarrow> canSubscribe l t"
  by (induction t ops rule: registered.induct) (auto split: if_splits)

interpretation bus: machine
  "bus_step :: 'w event_bus \<times> 'w \<Rightarrow> 'w bus_op \<Rightarrow> 'w event_bus \<times> 'w"
  "\<lambda>s. owf (eb_subscribers (fst s))" "\<lambda>s. eb_subscribers (fst s) = []"
proof
  fix s :: "'w event_bus \<times> 'w" and op :: "'w bus_op"
  assume i: "owf (eb_subscribers (fst s))"
  obtain b w where s: "s = (b, w)" by (cases s)
  have keep: "same_wiring b b' \<Longrightarrow> owf (eb_subscribers b')" for b'
    using i s by (simp add: same_wiring_def)
  show "owf (eb_subscribers (fst (bus_step s op)))"
  proof (cases op)
    case (OpSubscribe t l h)
    with i s show ?thesis by (simp add: subscribe_def bus_log_line_def)
  next
    case (OpSetOwner owns)
    with i s show ?thesis by (simp add: setAgentOwner_def)
  next
    case (OpPublishDetached l e)
    with s show ?thesis using keep [OF publish_wiring [unfolded publish_def]]
      by (simp add: publishDetached_def)
  qed (use s keep [OF publish_wiring] keep [OF staged_wiring(1)] keep [OF staged_wiring(2)]
      keep [OF deliverPersisted_wiring] in simp_all)
qed simp

text \<open>
  Who receives an event, after any sequence of bus operations: the subscribers of a type are
  exactly the accepted registrations for it, each once and in order, and every one of them was
  registered by a layer allowed to subscribe to that type. So an event the agent layer kept from
  the sender (\<open>delegation.principal_note\<close>), or a captured secret, is only ever handed to
  registrations of the system layer.
\<close>

theorem only_registered_layers_receive:
  fixes ops :: "'w bus_op list" and onEvent onDelivered w
  defines "b \<equiv> fst (run_steps bus_step (new_event_bus onEvent onDelivered, w) ops)"
  shows "handlers_for b t = map snd (registered t ops)
       \<and> list_all (\<lambda>(l, h). canSubscribe l t) (registered t ops)
       \<and> list_all (\<lambda>t. list_all (\<lambda>(l, h). l = SystemLayer) (registered t ops))
            [''delegation.principal_note'', ''principal.report'', ''secret.captured'',
             ''card_use.requested'', ''llm.call'', ''agent.task.input_injected'']"
proof -
  have "handlers_for b t = map snd (registered t ops)"
    using run_handlers_for [of "(new_event_bus onEvent onDelivered, w)" ops t]
    by (simp add: b_def handlers_for_def new_event_bus_def)
  moreover have auth: "list_all (\<lambda>(l, h). canSubscribe l t) (registered t ops)" for t
    using registered_authorized [of _ _ t ops] by (auto simp: list_all_iff)
  moreover have "l = SystemLayer" if "canSubscribe l t"
      "t \<in> {''delegation.principal_note'', ''principal.report'', ''secret.captured'',
             ''card_use.requested'', ''llm.call'', ''agent.task.input_injected''}" for l t
    using that by (cases l) (auto simp: canSubscribe_def)
  then have "list_all (\<lambda>(l, h). l = SystemLayer) (registered t ops)"
    if "t \<in> {''delegation.principal_note'', ''principal.report'', ''secret.captured'',
             ''card_use.requested'', ''llm.call'', ''agent.task.input_injected''}" for t
    using that auth [of t] unfolding list_all_iff by fast
  ultimately show ?thesis by simp
qed

text \<open>
  Layers are separated by the two allowlists together: nothing a channel publishes reaches the
  agent or the execution layer, and nothing an agent or a tool publishes reaches a channel, without
  passing through dispatch or the system layer; only agents and the system ask for tool
  invocations, only execution and the system see them; and only dispatch and the system start
  agent tasks.
\<close>

theorem layers_are_separated:
  "set (publishAllowlist ChannelLayer) \<inter> (set (subscribeAllowlist AgentLayer) \<union> set (subscribeAllowlist ExecutionLayer)) = {}
   \<and> (set (publishAllowlist AgentLayer) \<union> set (publishAllowlist ExecutionLayer)) \<inter> set (subscribeAllowlist ChannelLayer) = {}
   \<and> set (publishAllowlist ExecutionLayer) \<inter> set (subscribeAllowlist AgentLayer) = {''tool.result''}
   \<and> {l. canPublish l ''tool.invoke''} = {AgentLayer, SystemLayer}
   \<and> {l. canSubscribe l ''tool.invoke''} = {ExecutionLayer, SystemLayer}
   \<and> {l. canPublish l ''agent.task''} = {DispatchLayer, SystemLayer}
   \<and> {l. canPublish l ''outbound.message''} = {DispatchLayer, SystemLayer}
   \<and> {l. canPublish l ''inbound.message''} = {ChannelLayer, SystemLayer}"
proof -
  have who: "{l. P l} = {l \<in> {ChannelLayer, DispatchLayer, AgentLayer, ExecutionLayer, SystemLayer}. P l}" for P
  proof -
    have "l \<in> {ChannelLayer, DispatchLayer, AgentLayer, ExecutionLayer, SystemLayer}" for l
      by (cases l) simp_all
    then show ?thesis by blast
  qed
  have 1: "set (publishAllowlist ChannelLayer) \<inter> (set (subscribeAllowlist AgentLayer) \<union> set (subscribeAllowlist ExecutionLayer)) = {}"
    by simp
  have 2: "(set (publishAllowlist AgentLayer) \<union> set (publishAllowlist ExecutionLayer)) \<inter> set (subscribeAllowlist ChannelLayer) = {}"
    by simp
  have 3: "set (publishAllowlist ExecutionLayer) \<inter> set (subscribeAllowlist AgentLayer) = {''tool.result''}"
    by simp
  have 4: "{l. canPublish l ''tool.invoke''} = {AgentLayer, SystemLayer}"
    by (subst who) (auto simp: canPublish_def)
  have 5: "{l. canSubscribe l ''tool.invoke''} = {ExecutionLayer, SystemLayer}"
    by (subst who) (auto simp: canSubscribe_def)
  have 6: "{l. canPublish l ''agent.task''} = {DispatchLayer, SystemLayer}"
    by (subst who) (auto simp: canPublish_def)
  have 7: "{l. canPublish l ''outbound.message''} = {DispatchLayer, SystemLayer}"
    by (subst who) (auto simp: canPublish_def)
  have 8: "{l. canPublish l ''inbound.message''} = {ChannelLayer, SystemLayer}"
    by (subst who) (auto simp: canPublish_def)
  show ?thesis using 1 2 3 4 5 6 7 8 by blast
qed

end
