(* ===== verification/TurnLanes.thy ===== *)
theory TurnLanes
  imports Uuid
begin

text \<open>
  Turn lanes (\<open>src/src/dispatch/turn-lanes.ts\<close>): the in-process owner of "who is running on
  conversation X". A coordinator turn holds the lane of its conversation; later turns wait in a
  first-in first-out queue; a follow-up of the same resolved contact may be injected into the turn
  that runs. The originator and delegation checks the file calls are in
  \<open>src/src/agents/delegated-task-context.ts\<close>.

  The class mutates shared objects. In the model every promise, waiter and abort controller is a
  number drawn from a counter; a settled promise is an entry of a log (\<open>tl_tickets\<close>,
  \<open>tl_grants\<close>, \<open>tl_intakeDone\<close>), an aborted controller a member of \<open>tl_aborted\<close>. \<open>Date.now()\<close>
  is an argument, and a waiter's timer firing is the operation \<open>failOpen\<close>. The fields the code
  checks with \<open>typeof\<close> or \<open>=== true\<close> are dynamic values. Log lines are not modelled, and the
  listeners of \<open>onDrained\<close> do not call back into the lanes.
\<close>

section \<open>Tasks and their originator\<close>

record agent_task =
  at_id :: string
  at_agentId :: string
  at_channelId :: string
  at_conversationId :: string
  at_metadata :: "(string \<times> jsval) list option"
  at_liveTurn :: jsval
  at_syntheticTurn :: jsval

definition metadata_field :: "(string \<times> jsval) list option \<Rightarrow> string \<Rightarrow> jsval" where
  "metadata_field md k = (case md of None \<Rightarrow> JUndef | Some m \<Rightarrow> jfield m k)"

definition parseTaskOriginator :: "jsval \<Rightarrow> (string \<times> jsval) list option" where
  "parseTaskOriginator raw =
     (case raw of
        JObj r \<Rightarrow>
          (case (jfield r ''contactId'', jfield r ''channel'') of
             (JStr _, JStr _) \<Rightarrow> Some r
           | _ \<Rightarrow> None)
      | _ \<Rightarrow> None)"

definition isDelegatedSpecialistTask :: "(string \<times> jsval) list option \<Rightarrow> bool" where
  "isDelegatedSpecialistTask md = plain_object (metadata_field md ''delegationOrigin'')"

definition UNLANED_CHANNELS :: "string list" where
  "UNLANED_CHANNELS = [''scheduler'', ''internal'', ''bullpen'', ''voice'']"

definition COORDINATOR_AGENT_ID :: string where
  "COORDINATOR_AGENT_ID = ''coordinator''"

record lane_holder =
  lh_taskEventId :: string
  lh_conversationId :: string
  lh_originatorContactId :: "string option"
  lh_originatorResolved :: bool
  lh_originatorIsPrincipal :: bool
  lh_liveTurn :: bool
  lh_synthetic :: bool

definition holderFromAgentTask :: "agent_task \<Rightarrow> bool option \<Rightarrow> lane_holder" where
  "holderFromAgentTask task admission =
     (let originator = parseTaskOriginator (metadata_field (at_metadata task) ''originator'');
          get = (\<lambda>k. case originator of None \<Rightarrow> JUndef | Some r \<Rightarrow> jfield r k);
          contactId = (case get ''contactId'' of JStr s \<Rightarrow> Some s | _ \<Rightarrow> None);
          role = get ''systemRole'';
          tier = get ''tier'';
          trustedRole = (role \<in> {JStr ''principal'', JStr ''agent'', JStr ''system''});
          resolvedTier = (tier \<in> {JStr ''known'', JStr ''trusted'', JStr ''principal''});
          inferred = (isUuid_opt contactId \<and> (trustedRole \<or> resolvedTier))
      in \<lparr>lh_taskEventId = at_id task,
          lh_conversationId = at_conversationId task,
          lh_originatorContactId = contactId,
          lh_originatorResolved =
            (case admission of Some resolved \<Rightarrow> resolved \<and> isUuid_opt contactId | None \<Rightarrow> inferred),
          lh_originatorIsPrincipal = (role = JStr ''principal''),
          lh_liveTurn = (at_liveTurn task = JBool True),
          lh_synthetic = (at_syntheticTurn task = JBool True)\<rparr>)"

section \<open>Follow-ups\<close>

definition LABEL_MAX :: nat where "LABEL_MAX = 80"
definition CHANNEL_MAX :: nat where "CHANNEL_MAX = 64"
definition RECEIVED_AT_MAX :: nat where "RECEIVED_AT_MAX = 40"

text \<open>What the caller passes: the fields the code does not trust are dynamic values.\<close>

record raw_input =
  ri_inboundEventId :: string
  ri_senderContactId :: jsval
  ri_senderResolved :: jsval
  ri_autoGenerated :: jsval
  ri_injectionFindingCount :: jsval
  ri_senderLabel :: jsval
  ri_channelId :: jsval
  ri_liveTurn :: jsval
  ri_content :: jsval
  ri_originalContent :: jsval
  ri_turnGuidance :: jsval
  ri_receivedAt :: jsval

record injectable_input =
  ii_inboundEventId :: string
  ii_senderContactId :: jsval
  ii_senderResolved :: bool
  ii_autoGenerated :: bool
  ii_injectionFindingCount :: jsval
  ii_channelId :: string
  ii_liveTurn :: bool
  ii_content :: string
  ii_originalContent :: string
  ii_receivedAt :: string
  ii_senderLabel :: "string option"
  ii_turnGuidance :: "jsval list option"

definition line_break :: "char \<Rightarrow> bool" where
  "line_break c \<longleftrightarrow> c = CHR 0x0D \<or> c = CHR 0x0A"

definition control_char :: "char \<Rightarrow> bool" where
  "control_char c = (let n = (of_char c :: nat) in n \<le> 31 \<or> n = 127)"

text \<open>A run of line breaks becomes one space.\<close>

fun flatten_breaks :: "bool \<Rightarrow> string \<Rightarrow> string" where
  "flatten_breaks inRun [] = []"
| "flatten_breaks inRun (c # cs) =
     (if line_break c then (if inRun then flatten_breaks True cs else CHR '' '' # flatten_breaks True cs)
      else c # flatten_breaks False cs)"

definition singleLine :: "string \<Rightarrow> nat \<Rightarrow> string" where
  "singleLine value mx =
     (let flat = js_trim (filter (\<lambda>c. \<not> control_char c) (flatten_breaks False value))
      in if length flat \<le> mx then flat else take mx flat)"

definition str_or_empty :: "jsval \<Rightarrow> string" where
  "str_or_empty v = (case v of JStr s \<Rightarrow> s | _ \<Rightarrow> [])"

definition copyHolder :: "lane_holder \<Rightarrow> lane_holder" where
  "copyHolder h =
     \<lparr>lh_taskEventId = lh_taskEventId h, lh_conversationId = lh_conversationId h,
      lh_originatorContactId = lh_originatorContactId h,
      lh_originatorResolved = (lh_originatorResolved h = True),
      lh_originatorIsPrincipal = (lh_originatorIsPrincipal h = True),
      lh_liveTurn = (lh_liveTurn h = True), lh_synthetic = (lh_synthetic h = True)\<rparr>"

definition copyInput :: "raw_input \<Rightarrow> injectable_input" where
  "copyInput r =
     \<lparr>ii_inboundEventId = ri_inboundEventId r,
      ii_senderContactId = ri_senderContactId r,
      ii_senderResolved = (ri_senderResolved r = JBool True),
      ii_autoGenerated = (ri_autoGenerated r = JBool True),
      ii_injectionFindingCount = ri_injectionFindingCount r,
      ii_channelId = singleLine (str_or_empty (ri_channelId r)) CHANNEL_MAX,
      ii_liveTurn = (ri_liveTurn r = JBool True),
      ii_content = str_or_empty (ri_content r),
      ii_originalContent = str_or_empty (ri_originalContent r),
      ii_receivedAt = singleLine (str_or_empty (ri_receivedAt r)) RECEIVED_AT_MAX,
      ii_senderLabel = (case ri_senderLabel r of JStr s \<Rightarrow> Some (singleLine s LABEL_MAX) | _ \<Rightarrow> None),
      ii_turnGuidance = (case ri_turnGuidance r of JArr xs \<Rightarrow> Some xs | _ \<Rightarrow> None)\<rparr>"

section \<open>The lanes\<close>

datatype ticket_result = Drained string | ReturnedHolderEnded

datatype ticket = Ticket nat | ResolvedTicket ticket_result

datatype not_injected = LanesDisabled | NoHolder | LaneClosing | Ineligible | CapReached

datatype try_inject_result = QueuedAs ticket | NotInjected not_injected

record lane_grant =
  lg_waitedMs :: ms
  lg_timedOut :: bool

definition IMMEDIATE :: lane_grant where
  "IMMEDIATE = \<lparr>lg_waitedMs = 0, lg_timedOut = False\<rparr>"

datatype grant_promise = Granted lane_grant | GrantPending nat

record audit_record =
  au_conversationId :: string
  au_agentId :: string
  au_drainPoint :: string

record queued =
  q_input :: injectable_input
  q_ticket :: nat
  q_settled :: bool
  q_persisted :: bool
  q_audit :: "audit_record option"

record retained_follow_up =
  rf_hostTaskEventId :: string
  rf_input :: injectable_input
  rf_audit :: audit_record

record waiter =
  w_id :: nat
  w_holder :: lane_holder
  w_enqueuedAt :: ms
  w_settled :: bool
  w_acquireRequested :: bool

datatype lane_phase = PIdle | PReserved | PRunning | PClosing

record lane =
  ln_holder :: "lane_holder option"
  ln_phase :: lane_phase
  ln_accepted :: nat
  ln_queue :: "queued list"
  ln_pending :: "(string \<times> queued) list"
  ln_drainedIds :: "string list"
  ln_waiters :: "waiter list"
  ln_inputAbort :: nat

record turn_lanes =
  tl_enabled :: bool
  tl_maxInjectionsPerTurn :: nat
  tl_extraRoundsPerInjection :: nat
  tl_laneWaitTimeoutMs :: nat
  tl_lanes :: "(string \<times> lane) list"
  tl_intake :: "(string \<times> nat list) list"
  tl_settledIntake :: "string list"
  tl_settledIntakeIds :: "string list"
  tl_listeners :: nat
  tl_retained :: "(string \<times> queued) list"
  tl_nextTicket :: nat
  tl_tickets :: "(nat \<times> ticket_result) list"
  tl_nextWaiter :: nat
  tl_grants :: "(nat \<times> lane_grant) list"
  tl_nextSignal :: nat
  tl_aborted :: "nat list"
  tl_nextIntake :: nat
  tl_intakeDone :: "nat list"
  tl_notified :: "(nat \<times> string \<times> injectable_input) list"

datatype lanes_error = EnabledNotBoolean | NotPositiveInteger string

definition positive_integer :: "jsnum \<Rightarrow> bool" where
  "positive_integer n \<longleftrightarrow> is_integer_num n \<and> num_lt (Fin 0) n"

definition nat_of_num :: "jsnum \<Rightarrow> nat" where
  "nat_of_num n = (case n of Fin q \<Rightarrow> nat \<lfloor>q\<rfloor> | _ \<Rightarrow> 0)"

text \<open>Signal 0 is \<open>idleSignal\<close>, which nothing aborts.\<close>

definition new_turn_lanes :: "jsval \<Rightarrow> jsnum \<Rightarrow> jsnum \<Rightarrow> jsnum \<Rightarrow> lanes_error + turn_lanes" where
  "new_turn_lanes enabled maxInj extraRounds timeoutMs =
     (case enabled of
        JBool e \<Rightarrow>
          if \<not> positive_integer maxInj then Inl (NotPositiveInteger ''maxInjectionsPerTurn'')
          else if \<not> positive_integer extraRounds then Inl (NotPositiveInteger ''extraRoundsPerInjection'')
          else if \<not> positive_integer timeoutMs then Inl (NotPositiveInteger ''laneWaitTimeoutMs'')
          else Inr \<lparr>tl_enabled = e, tl_maxInjectionsPerTurn = nat_of_num maxInj,
                tl_extraRoundsPerInjection = nat_of_num extraRounds,
                tl_laneWaitTimeoutMs = nat_of_num timeoutMs,
                tl_lanes = [], tl_intake = [], tl_settledIntake = [], tl_settledIntakeIds = [],
                tl_listeners = 0, tl_retained = [], tl_nextTicket = 0, tl_tickets = [],
                tl_nextWaiter = 0, tl_grants = [], tl_nextSignal = 1, tl_aborted = [],
                tl_nextIntake = 0, tl_intakeDone = [], tl_notified = []\<rparr>
      | _ \<Rightarrow> Inl EnabledNotBoolean)"

definition isLaned :: "turn_lanes \<Rightarrow> agent_task \<Rightarrow> bool" where
  "isLaned st task =
     (if \<not> tl_enabled st then False
      else if at_agentId task \<noteq> COORDINATOR_AGENT_ID then False
      else if at_conversationId task = [] then False
      else if at_channelId task \<in> set UNLANED_CHANNELS then False
      else if isDelegatedSpecialistTask (at_metadata task) then False
      else True)"

section \<open>Looking tasks up\<close>

definition holds :: "string \<Rightarrow> lane \<Rightarrow> bool" where
  "holds tid l = (case ln_holder l of None \<Rightarrow> False | Some h \<Rightarrow> lh_taskEventId h = tid)"

definition findHeld :: "turn_lanes \<Rightarrow> string \<Rightarrow> (string \<times> lane) option" where
  "findHeld st tid = find (\<lambda>(c, l). holds tid l) (tl_lanes st)"

definition lane_waiter :: "string \<Rightarrow> lane \<Rightarrow> waiter option" where
  "lane_waiter tid l = find (\<lambda>w. lh_taskEventId (w_holder w) = tid \<and> \<not> w_settled w) (ln_waiters l)"

fun find_waiting_in :: "(string \<times> lane) list \<Rightarrow> string \<Rightarrow> (string \<times> lane \<times> waiter) option" where
  "find_waiting_in [] tid = None"
| "find_waiting_in ((c, l) # ls) tid =
     (case lane_waiter tid l of Some w \<Rightarrow> Some (c, l, w) | None \<Rightarrow> find_waiting_in ls tid)"

definition findWaiting :: "turn_lanes \<Rightarrow> string \<Rightarrow> (string \<times> lane \<times> waiter) option" where
  "findWaiting st tid = find_waiting_in (tl_lanes st) tid"

definition put_lane :: "string \<Rightarrow> lane \<Rightarrow> turn_lanes \<Rightarrow> turn_lanes" where
  "put_lane c l st = st\<lparr>tl_lanes := AList.update c l (tl_lanes st)\<rparr>"

definition drop_lane :: "string \<Rightarrow> turn_lanes \<Rightarrow> turn_lanes" where
  "drop_lane c st = st\<lparr>tl_lanes := AList.delete c (tl_lanes st)\<rparr>"

section \<open>Holding and waiting\<close>

definition fresh_signal :: "turn_lanes \<Rightarrow> nat \<times> turn_lanes" where
  "fresh_signal st = (tl_nextSignal st, st\<lparr>tl_nextSignal := Suc (tl_nextSignal st)\<rparr>)"

definition blankLane :: "turn_lanes \<Rightarrow> lane \<times> turn_lanes" where
  "blankLane st =
     (case fresh_signal st of (sig, st') \<Rightarrow>
        (\<lparr>ln_holder = None, ln_phase = PIdle, ln_accepted = 0, ln_queue = [], ln_pending = [],
          ln_drainedIds = [], ln_waiters = [], ln_inputAbort = sig\<rparr>, st'))"

definition beginHold :: "lane \<Rightarrow> lane_holder \<Rightarrow> lane_phase \<Rightarrow> turn_lanes \<Rightarrow> lane \<times> turn_lanes" where
  "beginHold l holder phase st =
     (case fresh_signal st of (sig, st') \<Rightarrow>
        (l\<lparr>ln_holder := Some (copyHolder holder), ln_phase := phase, ln_accepted := 0, ln_queue := [],
           ln_pending := [], ln_drainedIds := [], ln_inputAbort := sig\<rparr>, st'))"

definition makeWaiter :: "lane_holder \<Rightarrow> bool \<Rightarrow> ms \<Rightarrow> turn_lanes \<Rightarrow> waiter \<times> turn_lanes" where
  "makeWaiter holder acquire now st =
     (\<lparr>w_id = tl_nextWaiter st, w_holder = copyHolder holder, w_enqueuedAt = now,
       w_settled = False, w_acquireRequested = acquire\<rparr>,
      st\<lparr>tl_nextWaiter := Suc (tl_nextWaiter st)\<rparr>)"

definition resolve_grant :: "waiter \<Rightarrow> bool \<Rightarrow> ms \<Rightarrow> turn_lanes \<Rightarrow> turn_lanes" where
  "resolve_grant w timedOut now st =
     st\<lparr>tl_grants := tl_grants st @ [(w_id w, \<lparr>lg_waitedMs = now - w_enqueuedAt w, lg_timedOut = timedOut\<rparr>)]\<rparr>"

definition hold_phase :: "bool \<Rightarrow> lane_phase" where
  "hold_phase acquire = (if acquire then PRunning else PReserved)"

definition mark_acquire :: "waiter \<Rightarrow> lane \<Rightarrow> lane" where
  "mark_acquire w l = l\<lparr>ln_waiters := map (\<lambda>x. if w_id x = w_id w
      then x\<lparr>w_acquireRequested := True\<rparr> else x) (ln_waiters l)\<rparr>"

definition lanes_join :: "turn_lanes \<Rightarrow> lane_holder \<Rightarrow> bool \<Rightarrow> ms \<Rightarrow> grant_promise \<times> turn_lanes" where
  "lanes_join st holder acquire now =
     (let stamped = copyHolder holder; tid = lh_taskEventId stamped; conv = lh_conversationId stamped
      in if tid = [] \<or> conv = [] then (Granted IMMEDIATE, st)
         else (case findHeld st tid of
           Some (c, l) \<Rightarrow>
             (Granted IMMEDIATE,
              if acquire \<and> ln_phase l = PReserved then put_lane c (l\<lparr>ln_phase := PRunning\<rparr>) st else st)
         | None \<Rightarrow>
             (case findWaiting st tid of
                Some (c, l, w) \<Rightarrow>
                  (GrantPending (w_id w), if acquire then put_lane c (mark_acquire w l) st else st)
              | None \<Rightarrow>
                  (case (case map_of (tl_lanes st) conv of
                           Some l \<Rightarrow> (l, st)
                         | None \<Rightarrow> (case blankLane st of (l, st') \<Rightarrow> (l, put_lane conv l st')))
                   of (l, st1) \<Rightarrow>
                     if ln_holder l = None \<or> ln_phase l = PIdle then
                       (case beginHold l stamped (hold_phase acquire) st1 of
                          (l', st2) \<Rightarrow> (Granted IMMEDIATE, put_lane conv l' st2))
                     else
                       (case makeWaiter stamped acquire now st1 of
                          (w, st2) \<Rightarrow>
                            (GrantPending (w_id w), put_lane conv (l\<lparr>ln_waiters := ln_waiters l @ [w]\<rparr>) st2))))))"

definition lanes_reserve :: "turn_lanes \<Rightarrow> lane_holder \<Rightarrow> ms \<Rightarrow> grant_promise \<times> turn_lanes" where
  "lanes_reserve st holder now =
     (if \<not> tl_enabled st then (Granted IMMEDIATE, st) else lanes_join st holder False now)"

definition lanes_acquire :: "turn_lanes \<Rightarrow> lane_holder \<Rightarrow> ms \<Rightarrow> grant_promise \<times> turn_lanes" where
  "lanes_acquire st holder now =
     (if \<not> tl_enabled st then (Granted IMMEDIATE, st) else lanes_join st holder True now)"

text \<open>The waiter's timer fires. The waiter is identified by its number.\<close>

definition failOpen :: "turn_lanes \<Rightarrow> string \<Rightarrow> nat \<Rightarrow> ms \<Rightarrow> turn_lanes" where
  "failOpen st conv wid now =
     (case map_of (tl_lanes st) conv of
        None \<Rightarrow> st
      | Some l \<Rightarrow>
          (case find (\<lambda>w. w_id w = wid) (ln_waiters l) of
             None \<Rightarrow> st
           | Some w \<Rightarrow>
               if w_settled w then st
               else
                 let l' = l\<lparr>ln_waiters := filter (\<lambda>x. w_id x \<noteq> wid) (ln_waiters l)\<rparr>;
                     st' = resolve_grant w True now (put_lane conv l' st)
                 in if ln_holder l' = None \<and> ln_waiters l' = [] then drop_lane conv st' else st'))"

definition cancelReservation :: "turn_lanes \<Rightarrow> string \<Rightarrow> ms \<Rightarrow> turn_lanes" where
  "cancelReservation st tid now =
     (if \<not> tl_enabled st then st
      else (case findWaiting st tid of
              None \<Rightarrow> st
            | Some (conv, l, w) \<Rightarrow>
                if w_settled w then st
                else
                  let l' = l\<lparr>ln_waiters := filter (\<lambda>x. w_id x \<noteq> w_id w) (ln_waiters l)\<rparr>;
                      st' = resolve_grant w True now (put_lane conv l' st)
                  in if ln_holder l' = None \<and> ln_waiters l' = [] then drop_lane conv st' else st'))"

fun grantNext :: "lane \<Rightarrow> waiter list \<Rightarrow> ms \<Rightarrow> turn_lanes \<Rightarrow> lane \<times> turn_lanes" where
  "grantNext l [] now st = (l\<lparr>ln_waiters := []\<rparr>, st)"
| "grantNext l (w # ws) now st =
     (if w_settled w then grantNext l ws now st
      else (case beginHold (l\<lparr>ln_waiters := ws\<rparr>) (w_holder w) (hold_phase (w_acquireRequested w)) st of
              (l', st') \<Rightarrow> (l', resolve_grant w False now st')))"

section \<open>Injecting and draining\<close>

definition eligible :: "lane_holder \<Rightarrow> injectable_input \<Rightarrow> bool" where
  "eligible h i \<longleftrightarrow>
     lh_originatorResolved h \<and> ii_senderResolved i \<and> \<not> ii_autoGenerated i
     \<and> (case ii_injectionFindingCount i of JNum n \<Rightarrow> is_integer_num n \<and> n = Fin 0 | _ \<Rightarrow> False)
     \<and> isUuid_opt (lh_originatorContactId h) \<and> isUuid (ii_senderContactId i)
     \<and> map_option JStr (lh_originatorContactId h) = Some (ii_senderContactId i)"

definition findQueued :: "lane \<Rightarrow> string \<Rightarrow> queued option" where
  "findQueued l iid =
     (case find (\<lambda>q. ii_inboundEventId (q_input q) = iid) (ln_queue l) of
        Some q \<Rightarrow> Some q
      | None \<Rightarrow> map_of (ln_pending l) iid)"

definition makeQueued :: "injectable_input \<Rightarrow> turn_lanes \<Rightarrow> queued \<times> turn_lanes" where
  "makeQueued i st =
     (\<lparr>q_input = i, q_ticket = tl_nextTicket st, q_settled = False, q_persisted = False, q_audit = None\<rparr>,
      st\<lparr>tl_nextTicket := Suc (tl_nextTicket st)\<rparr>)"

definition abortInput :: "lane \<Rightarrow> turn_lanes \<Rightarrow> turn_lanes" where
  "abortInput l st =
     (if ln_inputAbort l \<in> set (tl_aborted st) then st
      else st\<lparr>tl_aborted := tl_aborted st @ [ln_inputAbort l]\<rparr>)"

definition lanes_enqueue :: "turn_lanes \<Rightarrow> string \<Rightarrow> raw_input \<Rightarrow> try_inject_result \<times> turn_lanes" where
  "lanes_enqueue st conv raw =
     (let snap = copyInput raw
      in (case map_of (tl_lanes st) conv of
            None \<Rightarrow> (NotInjected NoHolder, st)
          | Some l \<Rightarrow>
              (case ln_holder l of
                 None \<Rightarrow> (NotInjected NoHolder, st)
               | Some holder \<Rightarrow>
                   if ln_phase l = PIdle then (NotInjected NoHolder, st)
                   else (case findQueued l (ii_inboundEventId snap) of
                     Some q \<Rightarrow> (QueuedAs (Ticket (q_ticket q)), st)
                   | None \<Rightarrow>
                       if ii_inboundEventId snap \<in> set (ln_drainedIds l)
                       then (QueuedAs (ResolvedTicket (Drained (lh_taskEventId holder))), st)
                       else if ln_phase l = PClosing then (NotInjected LaneClosing, st)
                       else if \<not> eligible holder snap then (NotInjected Ineligible, st)
                       else if tl_maxInjectionsPerTurn st \<le> ln_accepted l then (NotInjected CapReached, st)
                       else (case makeQueued snap st of
                         (q, st') \<Rightarrow>
                           let l' = l\<lparr>ln_queue := ln_queue l @ [q], ln_accepted := Suc (ln_accepted l)\<rparr>
                           in (QueuedAs (Ticket (q_ticket q)), abortInput l' (put_lane conv l' st')))))))"

definition tryInject :: "turn_lanes \<Rightarrow> string \<Rightarrow> raw_input \<Rightarrow> try_inject_result \<times> turn_lanes" where
  "tryInject st conv raw =
     (if \<not> tl_enabled st then (NotInjected LanesDisabled, st) else lanes_enqueue st conv raw)"

definition takeQueued :: "turn_lanes \<Rightarrow> string \<Rightarrow> injectable_input list \<times> turn_lanes" where
  "takeQueued st tid =
     (if \<not> tl_enabled st then ([], st)
      else (case findHeld st tid of
              None \<Rightarrow> ([], st)
            | Some (c, l) \<Rightarrow>
                let taken = ln_queue l;
                    pending = foldl (\<lambda>m q. AList.update (ii_inboundEventId (q_input q)) q m) (ln_pending l) taken;
                    l' = l\<lparr>ln_queue := [], ln_pending := pending\<rparr>
                in (map q_input taken,
                    if taken \<noteq> [] then
                      (case fresh_signal st of (sig, st') \<Rightarrow> put_lane c (l'\<lparr>ln_inputAbort := sig\<rparr>) st')
                    else put_lane c l' st)))"

definition takePending :: "lane \<Rightarrow> string \<Rightarrow> queued option \<times> lane" where
  "takePending l iid =
     (case map_of (ln_pending l) iid of
        Some q \<Rightarrow> (Some q, l\<lparr>ln_pending := AList.delete iid (ln_pending l)\<rparr>)
      | None \<Rightarrow>
          (case List.extract (\<lambda>q. ii_inboundEventId (q_input q) = iid) (ln_queue l) of
             None \<Rightarrow> (None, l)
           | Some (before, q, after) \<Rightarrow> (Some q, l\<lparr>ln_queue := before @ after\<rparr>)))"

definition resolve_ticket :: "queued \<Rightarrow> ticket_result \<Rightarrow> turn_lanes \<Rightarrow> turn_lanes" where
  "resolve_ticket q r st = st\<lparr>tl_tickets := tl_tickets st @ [(q_ticket q, r)]\<rparr>"

text \<open>The loop of \<open>confirmDrained\<close>: the lane, the state and the inputs drained so far.\<close>

fun confirm_loop ::
    "string \<Rightarrow> string list \<Rightarrow> lane \<times> turn_lanes \<times> injectable_input list
      \<Rightarrow> lane \<times> turn_lanes \<times> injectable_input list" where
  "confirm_loop tid [] acc = acc"
| "confirm_loop tid (iid # ids) (l, st, drained) =
     (case takePending l iid of
        (None, l') \<Rightarrow> confirm_loop tid ids (l', st, drained)
      | (Some q, l') \<Rightarrow>
          if q_settled q then confirm_loop tid ids (l', st, drained)
          else confirm_loop tid ids
                 (l'\<lparr>ln_drainedIds := (if iid \<in> set (ln_drainedIds l') then ln_drainedIds l'
                                      else ln_drainedIds l' @ [iid])\<rparr>,
                  resolve_ticket q (Drained tid) st, drained @ [q_input q]))"

definition emitDrained :: "string \<Rightarrow> injectable_input \<Rightarrow> turn_lanes \<Rightarrow> turn_lanes" where
  "emitDrained tid i st =
     st\<lparr>tl_notified := tl_notified st @ map (\<lambda>n. (n, tid, i)) [0..<tl_listeners st]\<rparr>"

definition confirmDrained :: "turn_lanes \<Rightarrow> string \<Rightarrow> string list \<Rightarrow> turn_lanes" where
  "confirmDrained st tid ids =
     (if \<not> tl_enabled st then st
      else (case findHeld st tid of
              None \<Rightarrow> st
            | Some (c, l) \<Rightarrow>
                (case confirm_loop tid ids (l, st, []) of
                   (l', st', drained) \<Rightarrow> fold (emitDrained tid) drained (put_lane c l' st'))))"

definition closeIfIdle :: "turn_lanes \<Rightarrow> string \<Rightarrow> bool \<times> turn_lanes" where
  "closeIfIdle st tid =
     (if \<not> tl_enabled st then (True, st)
      else (case findHeld st tid of
              None \<Rightarrow> (True, st)
            | Some (c, l) \<Rightarrow>
                if ln_queue l \<noteq> [] then (False, st)
                else (True, put_lane c (l\<lparr>ln_phase := PClosing\<rparr>) st)))"

definition deferAudit :: "turn_lanes \<Rightarrow> string \<Rightarrow> string \<Rightarrow> audit_record \<Rightarrow> turn_lanes" where
  "deferAudit st tid iid audit =
     (if \<not> tl_enabled st then st
      else (case findHeld st tid of
              None \<Rightarrow> st
            | Some (c, l) \<Rightarrow>
                (case map_of (ln_pending l) iid of
                   None \<Rightarrow> st
                 | Some q \<Rightarrow>
                     if q_settled q then st
                     else put_lane c (l\<lparr>ln_pending :=
                            AList.update iid (q\<lparr>q_persisted := True, q_audit := Some audit\<rparr>) (ln_pending l)\<rparr>) st)))"

text \<open>What \<open>release\<close> does with one follow-up that was not drained.\<close>

definition end_undrained :: "string \<Rightarrow> queued \<Rightarrow> turn_lanes \<Rightarrow> turn_lanes" where
  "end_undrained tid q st =
     (if q_settled q then st
      else if q_persisted q \<and> q_audit q \<noteq> None then st\<lparr>tl_retained := tl_retained st @ [(tid, q)]\<rparr>
      else resolve_ticket q ReturnedHolderEnded st)"

definition lanes_release :: "turn_lanes \<Rightarrow> string \<Rightarrow> ms \<Rightarrow> turn_lanes" where
  "lanes_release st tid now =
     (if \<not> tl_enabled st then st
      else (case findHeld st tid of
              None \<Rightarrow> st
            | Some (conv, l) \<Rightarrow>
                let st1 = fold (end_undrained tid) (ln_queue l @ map snd (ln_pending l)) st
                in (case fresh_signal st1 of (sig, st2) \<Rightarrow>
                     (case grantNext (l\<lparr>ln_queue := [], ln_pending := [], ln_holder := None, ln_phase := PIdle,
                                ln_accepted := 0, ln_drainedIds := [], ln_inputAbort := sig\<rparr>)
                             (ln_waiters l) now st2 of
                        (l', st3) \<Rightarrow>
                          if ln_holder l' = None \<and> ln_waiters l' = [] then drop_lane conv st3
                          else put_lane conv l' st3))))"

section \<open>Follow-ups kept for an audit retry\<close>

text \<open>\<open>publish\<close> is the callback of the caller: whether it succeeded.\<close>

fun flush_batch ::
    "(retained_follow_up \<Rightarrow> bool) \<Rightarrow> (string \<times> queued) list \<Rightarrow> turn_lanes \<Rightarrow> turn_lanes" where
  "flush_batch publish [] st = st"
| "flush_batch publish ((host, q) # batch) st =
     (if q_settled q then flush_batch publish batch st
      else (case q_audit q of
              None \<Rightarrow> flush_batch publish batch (st\<lparr>tl_retained := tl_retained st @ [(host, q)]\<rparr>)
            | Some audit \<Rightarrow>
                if publish \<lparr>rf_hostTaskEventId = host, rf_input = q_input q, rf_audit = audit\<rparr>
                then flush_batch publish batch (resolve_ticket q (Drained host) st)
                else flush_batch publish batch (st\<lparr>tl_retained := tl_retained st @ [(host, q)]\<rparr>)))"

definition flushRetained :: "turn_lanes \<Rightarrow> (retained_follow_up \<Rightarrow> bool) \<Rightarrow> turn_lanes" where
  "flushRetained st publish =
     (if \<not> tl_enabled st then st
      else flush_batch publish (tl_retained st) (st\<lparr>tl_retained := []\<rparr>))"

section \<open>Signals, intake and listeners\<close>

definition inputSignal :: "turn_lanes \<Rightarrow> string \<Rightarrow> nat" where
  "inputSignal st tid =
     (if \<not> tl_enabled st then 0
      else (case findHeld st tid of None \<Rightarrow> 0 | Some (c, l) \<Rightarrow> ln_inputAbort l))"

text \<open>A promise of the intake: resolved at once, or the number of one still open.\<close>

definition intakeSettled :: "turn_lanes \<Rightarrow> string \<Rightarrow> nat option \<times> turn_lanes" where
  "intakeSettled st iid =
     (if \<not> tl_enabled st then (None, st)
      else if iid \<in> set (tl_settledIntakeIds st) then (None, st)
      else
        let n = tl_nextIntake st;
            waiting = (case map_of (tl_intake st) iid of Some ws \<Rightarrow> ws | None \<Rightarrow> [])
        in (Some n, st\<lparr>tl_intake := AList.update iid (waiting @ [n]) (tl_intake st), tl_nextIntake := Suc n\<rparr>))"

definition SETTLED_INTAKE_CAP :: nat where "SETTLED_INTAKE_CAP = 10000"

definition rememberIntake :: "turn_lanes \<Rightarrow> string \<Rightarrow> turn_lanes" where
  "rememberIntake st iid =
     (if iid \<in> set (tl_settledIntakeIds st) then st
      else
        let ids = tl_settledIntake st @ [iid];
            overflow = length ids - SETTLED_INTAKE_CAP
        in st\<lparr>tl_settledIntake := drop overflow ids,
              tl_settledIntakeIds := filter (\<lambda>x. x \<notin> set (filter (\<lambda>y. y \<noteq> []) (take overflow ids)))
                (tl_settledIntakeIds st @ [iid])\<rparr>)"

definition markIntakeSettled :: "turn_lanes \<Rightarrow> string \<Rightarrow> turn_lanes" where
  "markIntakeSettled st iid =
     (if \<not> tl_enabled st then st
      else
        let waiting = (case map_of (tl_intake st) iid of Some ws \<Rightarrow> ws | None \<Rightarrow> []);
            st' = rememberIntake (st\<lparr>tl_intake := AList.delete iid (tl_intake st)\<rparr>) iid
        in st'\<lparr>tl_intakeDone := tl_intakeDone st' @ waiting\<rparr>)"

definition onDrained :: "turn_lanes \<Rightarrow> turn_lanes" where
  "onDrained st = st\<lparr>tl_listeners := Suc (tl_listeners st)\<rparr>"

section \<open>A run\<close>

datatype lane_op =
    LReserve lane_holder ms
  | LAcquire lane_holder ms
  | LTryInject string raw_input
  | LTake string
  | LConfirm string "string list"
  | LCloseIfIdle string
  | LDeferAudit string string audit_record
  | LRelease string ms
  | LFlush "retained_follow_up \<Rightarrow> bool"
  | LCancel string ms
  | LFailOpen string nat ms
  | LIntakeSettled string
  | LMarkIntake string
  | LOnDrained

fun lane_step :: "turn_lanes \<Rightarrow> lane_op \<Rightarrow> turn_lanes" where
  "lane_step st (LReserve h now) = snd (lanes_reserve st h now)"
| "lane_step st (LAcquire h now) = snd (lanes_acquire st h now)"
| "lane_step st (LTryInject conv raw) = snd (tryInject st conv raw)"
| "lane_step st (LTake tid) = snd (takeQueued st tid)"
| "lane_step st (LConfirm tid ids) = confirmDrained st tid ids"
| "lane_step st (LCloseIfIdle tid) = snd (closeIfIdle st tid)"
| "lane_step st (LDeferAudit tid iid audit) = deferAudit st tid iid audit"
| "lane_step st (LRelease tid now) = lanes_release st tid now"
| "lane_step st (LFlush publish) = flushRetained st publish"
| "lane_step st (LCancel tid now) = cancelReservation st tid now"
| "lane_step st (LFailOpen conv wid now) = failOpen st conv wid now"
| "lane_step st (LIntakeSettled iid) = snd (intakeSettled st iid)"
| "lane_step st (LMarkIntake iid) = markIntakeSettled st iid"
| "lane_step st LOnDrained = onDrained st"

end
