(* ===== verification/TurnLanesInv.thy ===== *)
theory TurnLanesInv
  imports TurnLanes "HOL-Library.Multiset"
begin

text \<open>
  The invariant of the turn lanes and what follows from it: one holder per lane, a task in one
  place at most, every ticket and every grant promise either open in exactly one place or settled
  exactly once, the cap, and the contact boundary of every queued follow-up.
\<close>

section \<open>Sums over the lanes\<close>

definition lsum :: "(lane \<Rightarrow> 'a list) \<Rightarrow> (string \<times> lane) list \<Rightarrow> 'a multiset" where
  "lsum f ls = sum_list (map (\<lambda>p. mset (f (snd p))) ls)"

lemma lsum_Nil [simp]: "lsum f [] = {#}"
  by (simp add: lsum_def)

lemma lsum_Cons [simp]: "lsum f (p # ls) = mset (f (snd p)) + lsum f ls"
  by (simp add: lsum_def)

lemma lsum_new: "map_of ls c = None \<Longrightarrow> lsum f (AList.update c l ls) = lsum f ls + mset (f l)"
  by (induction ls) (auto simp: ac_simps split: if_splits)

lemma lsum_update:
  "map_of ls c = Some l \<Longrightarrow> lsum f (AList.update c l' ls) + mset (f l) = lsum f ls + mset (f l')"
  by (induction ls) (auto simp: ac_simps)

lemma lsum_delete:
  "owf ls \<Longrightarrow> map_of ls c = Some l \<Longrightarrow> lsum f (AList.delete c ls) + mset (f l) = lsum f ls"
proof (induction ls)
  case (Cons p ls)
  show ?case
  proof (cases "fst p = c")
    case True
    then have "AList.delete c ls = ls" using Cons.prems(1)
      by (auto simp: AList.delete_eq owf_def image_iff intro!: filter_True)
    with True Cons.prems show ?thesis by (cases p) (simp add: ac_simps)
  next
    case False
    with Cons show ?thesis by (cases p) (auto simp: owf_def ac_simps)
  qed
qed simp

lemma lsum_mem: "map_of ls c = Some l \<Longrightarrow> mset (f l) \<subseteq># lsum f ls"
  by (induction ls) (auto split: if_splits intro: subset_mset.order_trans subset_mset.add_increasing)

lemma lsum_count_0: "count (lsum f ls) t = 0 \<longleftrightarrow> (\<forall>(c, l) \<in> set ls. t \<notin> set (f l))"
  by (induction ls) (auto simp: count_eq_zero_iff)

section \<open>The invariant\<close>

definition lane_queued :: "lane \<Rightarrow> queued list" where
  "lane_queued l = ln_queue l @ map snd (ln_pending l)"

definition lane_tickets :: "lane \<Rightarrow> nat list" where
  "lane_tickets l = map q_ticket (lane_queued l)"

definition lane_wids :: "lane \<Rightarrow> nat list" where
  "lane_wids l = map w_id (ln_waiters l)"

definition lane_tasks :: "lane \<Rightarrow> string list" where
  "lane_tasks l = (case ln_holder l of None \<Rightarrow> [] | Some h \<Rightarrow> [lh_taskEventId h])
     @ map (\<lambda>w. lh_taskEventId (w_holder w)) (ln_waiters l)"

abbreviation iid :: "queued \<Rightarrow> string" where
  "iid q \<equiv> ii_inboundEventId (q_input q)"

definition lane_ids :: "lane \<Rightarrow> string list" where
  "lane_ids l = map iid (ln_queue l) @ map fst (ln_pending l) @ ln_drainedIds l"

definition queue_ok :: "lane_holder \<Rightarrow> queued \<Rightarrow> bool" where
  "queue_ok h q \<longleftrightarrow> \<not> q_settled q \<and> eligible h (q_input q)"

definition waiters_ok :: "string \<Rightarrow> lane \<Rightarrow> bool" where
  "waiters_ok c l \<longleftrightarrow> list_all (\<lambda>w. \<not> w_settled w \<and> lh_conversationId (w_holder w) = c) (ln_waiters l)"

definition lane_ok :: "nat \<Rightarrow> string \<Rightarrow> lane \<Rightarrow> bool" where
  "lane_ok mx c l \<longleftrightarrow>
     (case ln_holder l of None \<Rightarrow> False
      | Some h \<Rightarrow> lh_conversationId h = c \<and> list_all (queue_ok h) (lane_queued l))
     \<and> ln_phase l \<noteq> PIdle \<and> waiters_ok c l
     \<and> distinct (lane_ids l) \<and> list_all (\<lambda>(k, q). k = iid q) (ln_pending l)
     \<and> ln_accepted l = length (lane_ids l) \<and> ln_accepted l \<le> mx"

definition retained_ok :: "turn_lanes \<Rightarrow> bool" where
  "retained_ok st \<longleftrightarrow> list_all (\<lambda>(host, q). \<not> q_settled q \<and> q_audit q \<noteq> None) (tl_retained st)"

definition open_tickets :: "turn_lanes \<Rightarrow> nat multiset" where
  "open_tickets st = lsum lane_tickets (tl_lanes st) + mset (map (\<lambda>(host, q). q_ticket q) (tl_retained st))"

definition lanes_inv :: "turn_lanes \<Rightarrow> bool" where
  "lanes_inv st \<longleftrightarrow> owf (tl_lanes st)
     \<and> (\<forall>c l. map_of (tl_lanes st) c = Some l \<longrightarrow> lane_ok (tl_maxInjectionsPerTurn st) c l)
     \<and> open_tickets st + mset (map fst (tl_tickets st)) = mset [0..<tl_nextTicket st]
     \<and> lsum lane_wids (tl_lanes st) + mset (map fst (tl_grants st)) = mset [0..<tl_nextWaiter st]
     \<and> (\<forall>t. count (lsum lane_tasks (tl_lanes st)) t \<le> 1)
     \<and> retained_ok st"

lemma lanes_inv_lane: "lanes_inv st \<Longrightarrow> map_of (tl_lanes st) c = Some l \<Longrightarrow> lane_ok (tl_maxInjectionsPerTurn st) c l"
  by (simp add: lanes_inv_def)

lemma lane_ok_holder: "lane_ok mx c l \<Longrightarrow> \<exists>h. ln_holder l = Some h \<and> lh_conversationId h = c"
  by (auto simp: lane_ok_def split: option.splits)

text \<open>One lane replaced: what is left to show is local to it.\<close>

lemma lanes_inv_replace:
  assumes inv: "lanes_inv st" and at: "map_of (tl_lanes st) c = Some l"
    and ok: "lane_ok (tl_maxInjectionsPerTurn st') c l'"
    and st': "tl_lanes st' = AList.update c l' (tl_lanes st)"
      "tl_maxInjectionsPerTurn st' = tl_maxInjectionsPerTurn st"
    and tk: "mset (lane_tickets l') + mset (map (\<lambda>(host, q). q_ticket q) (tl_retained st'))
        + mset (map fst (tl_tickets st')) + mset [0..<tl_nextTicket st]
      = mset (lane_tickets l) + mset (map (\<lambda>(host, q). q_ticket q) (tl_retained st))
        + mset (map fst (tl_tickets st)) + mset [0..<tl_nextTicket st']"
    and wt: "mset (lane_wids l') + mset (map fst (tl_grants st')) + mset [0..<tl_nextWaiter st]
      = mset (lane_wids l) + mset (map fst (tl_grants st)) + mset [0..<tl_nextWaiter st']"
    and ts: "\<And>t. count (lsum lane_tasks (tl_lanes st)) t + count (mset (lane_tasks l')) t
      \<le> 1 + count (mset (lane_tasks l)) t"
    and ret: "retained_ok st'"
  shows "lanes_inv st'"
proof -
  note up = lsum_update [OF at, of _ l']
  have "open_tickets st' + mset (map fst (tl_tickets st')) = mset [0..<tl_nextTicket st']"
  proof (rule multiset_eqI)
    fix n
    have "open_tickets st + mset (map fst (tl_tickets st)) = mset [0..<tl_nextTicket st]"
      using inv by (simp add: lanes_inv_def)
    then show "count (open_tickets st' + mset (map fst (tl_tickets st'))) n = count (mset [0..<tl_nextTicket st']) n"
      using arg_cong [OF tk, of "\<lambda>m. count m n"] arg_cong [OF up [of lane_tickets], of "\<lambda>m. count m n"]
      by (auto simp: open_tickets_def st' dest!: arg_cong [of _ _ "\<lambda>m. count m n"])
  qed
  moreover have "lsum lane_wids (tl_lanes st') + mset (map fst (tl_grants st')) = mset [0..<tl_nextWaiter st']"
  proof (rule multiset_eqI)
    fix n
    have "lsum lane_wids (tl_lanes st) + mset (map fst (tl_grants st)) = mset [0..<tl_nextWaiter st]"
      using inv by (simp add: lanes_inv_def)
    then show "count (lsum lane_wids (tl_lanes st') + mset (map fst (tl_grants st'))) n
        = count (mset [0..<tl_nextWaiter st']) n"
      using arg_cong [OF wt, of "\<lambda>m. count m n"] arg_cong [OF up [of lane_wids], of "\<lambda>m. count m n"]
      by (auto simp: st' dest!: arg_cong [of _ _ "\<lambda>m. count m n"])
  qed
  moreover have "count (lsum lane_tasks (tl_lanes st')) t \<le> 1" for t
    using ts [of t] arg_cong [OF up [of lane_tasks], of "\<lambda>m. count m t"] by (simp add: st')
  ultimately show ?thesis
    using inv ok ret by (auto simp: lanes_inv_def st')
qed

text \<open>Nothing of a lane's tasks is new: the usual case.\<close>

lemma tasks_kept:
  assumes "lanes_inv st" "mset (lane_tasks l') \<subseteq># mset (lane_tasks l)"
  shows "count (lsum lane_tasks (tl_lanes st)) t + count (mset (lane_tasks l')) t
      \<le> 1 + count (mset (lane_tasks l)) t"
proof -
  have "count (lsum lane_tasks (tl_lanes st)) t \<le> 1" using assms(1) by (simp add: lanes_inv_def)
  with mset_subset_eq_count [OF assms(2), of t] show ?thesis by linarith
qed

text \<open>Neither the holder nor the waiters change: only tickets move.\<close>

lemma lanes_inv_local:
  assumes inv: "lanes_inv st" and at: "map_of (tl_lanes st) c = Some l"
    and ok: "lane_ok (tl_maxInjectionsPerTurn st') c l'"
    and st': "tl_lanes st' = AList.update c l' (tl_lanes st)"
      "tl_maxInjectionsPerTurn st' = tl_maxInjectionsPerTurn st"
      "tl_grants st' = tl_grants st" "tl_nextWaiter st' = tl_nextWaiter st"
      "ln_holder l' = ln_holder l" "ln_waiters l' = ln_waiters l"
      "tl_retained st' = tl_retained st"
    and tk: "mset (lane_tickets l') + mset (map fst (tl_tickets st')) + mset [0..<tl_nextTicket st]
      = mset (lane_tickets l) + mset (map fst (tl_tickets st)) + mset [0..<tl_nextTicket st']"
  shows "lanes_inv st'"
proof (rule lanes_inv_replace [OF inv at ok st'(1,2)])
  have "lane_tasks l' = lane_tasks l" using st' by (simp add: lane_tasks_def)
  then show "count (lsum lane_tasks (tl_lanes st)) t + count (mset (lane_tasks l')) t
      \<le> 1 + count (mset (lane_tasks l)) t" for t
    using tasks_kept [OF inv, of l' l] by simp
  show "mset (lane_wids l') + mset (map fst (tl_grants st')) + mset [0..<tl_nextWaiter st]
      = mset (lane_wids l) + mset (map fst (tl_grants st)) + mset [0..<tl_nextWaiter st']"
    using st' by (simp add: lane_wids_def)
  show "retained_ok st'" using inv st' by (simp add: lanes_inv_def retained_ok_def)
  show "mset (lane_tickets l') + mset (map (\<lambda>(host, q). q_ticket q) (tl_retained st'))
        + mset (map fst (tl_tickets st')) + mset [0..<tl_nextTicket st]
      = mset (lane_tickets l) + mset (map (\<lambda>(host, q). q_ticket q) (tl_retained st))
        + mset (map fst (tl_tickets st)) + mset [0..<tl_nextTicket st']"
    using tk st' by (simp add: ac_simps)
qed

text \<open>Changes outside the lanes.\<close>

lemma lanes_inv_other:
  assumes "lanes_inv st" "tl_lanes st' = tl_lanes st" "tl_maxInjectionsPerTurn st' = tl_maxInjectionsPerTurn st"
    "tl_retained st' = tl_retained st" "tl_tickets st' = tl_tickets st" "tl_nextTicket st' = tl_nextTicket st"
    "tl_grants st' = tl_grants st" "tl_nextWaiter st' = tl_nextWaiter st"
  shows "lanes_inv st'"
  using assms by (simp add: lanes_inv_def open_tickets_def retained_ok_def)

section \<open>Looking tasks up\<close>

lemma findHeld_Some:
  "owf (tl_lanes st) \<Longrightarrow> findHeld st tid = Some (c, l) \<Longrightarrow> map_of (tl_lanes st) c = Some l \<and> holds tid l"
  by (auto simp: findHeld_def find_Some_iff owf_map_of [symmetric] set_conv_nth)

lemma findHeld_None: "findHeld st tid = None \<longleftrightarrow> (\<forall>(c, l) \<in> set (tl_lanes st). \<not> holds tid l)"
  by (auto simp: findHeld_def find_None_iff)

lemma lane_waiter_Some:
  "lane_waiter tid l = Some w \<Longrightarrow>
    w \<in> set (ln_waiters l) \<and> lh_taskEventId (w_holder w) = tid \<and> \<not> w_settled w"
  by (auto simp: lane_waiter_def find_Some_iff)

lemma findWaiting_Some:
  "owf (tl_lanes st) \<Longrightarrow> findWaiting st tid = Some (c, l, w)
    \<Longrightarrow> map_of (tl_lanes st) c = Some l \<and> lane_waiter tid l = Some w"
proof -
  have "find_waiting_in ls tid = Some (c, l, w) \<Longrightarrow> (c, l) \<in> set ls \<and> lane_waiter tid l = Some w" for ls
    by (induction ls tid rule: find_waiting_in.induct) (auto split: option.splits)
  from this [of "tl_lanes st"]
  show "owf (tl_lanes st) \<Longrightarrow> findWaiting st tid = Some (c, l, w) \<Longrightarrow> ?thesis"
    by (simp add: findWaiting_def owf_map_of)
qed

lemma findWaiting_None:
  "findWaiting st tid = None \<longleftrightarrow>
    (\<forall>(c, l) \<in> set (tl_lanes st). \<forall>w \<in> set (ln_waiters l). lh_taskEventId (w_holder w) = tid \<longrightarrow> w_settled w)"
proof -
  have "find_waiting_in ls tid = None \<longleftrightarrow>
    (\<forall>(c, l) \<in> set ls. \<forall>w \<in> set (ln_waiters l). lh_taskEventId (w_holder w) = tid \<longrightarrow> w_settled w)" for ls
    by (induction ls tid rule: find_waiting_in.induct)
       (auto simp: lane_waiter_def find_None_iff split: option.splits dest!: lane_waiter_Some [unfolded lane_waiter_def])
  then show ?thesis by (simp add: findWaiting_def)
qed

text \<open>A task neither held nor waiting occurs nowhere.\<close>

lemma task_absent:
  assumes "lanes_inv st" "findHeld st tid = None" "findWaiting st tid = None"
  shows "count (lsum lane_tasks (tl_lanes st)) tid = 0"
  unfolding lsum_count_0
proof (clarify)
  fix c l
  assume m: "(c, l) \<in> set (tl_lanes st)" and t: "tid \<in> set (lane_tasks l)"
  have "lane_ok (tl_maxInjectionsPerTurn st) c l"
    using m assms(1) by (simp add: lanes_inv_def owf_map_of)
  then have un: "\<forall>w \<in> set (ln_waiters l). \<not> w_settled w"
    by (simp add: lane_ok_def waiters_ok_def list_all_iff)
  have "\<not> holds tid l" using assms(2) m by (auto simp: findHeld_None)
  moreover have "\<forall>w \<in> set (ln_waiters l). lh_taskEventId (w_holder w) \<noteq> tid"
    using assms(3) m un by (fastforce simp: findWaiting_None)
  ultimately show False using t by (auto simp: lane_tasks_def holds_def split: option.splits)
qed

section \<open>Pending follow-ups\<close>

lemma update_new: "k \<notin> fst ` set m \<Longrightarrow> AList.update k v m = m @ [(k, v)]"
  by (induction m) auto

lemma take_into_pending:
  "distinct (map iid qs @ map fst m)
   \<Longrightarrow> foldl (\<lambda>m q. AList.update (iid q) q m) m qs = m @ map (\<lambda>q. (iid q, q)) qs"
proof (induction qs arbitrary: m)
  case (Cons q qs)
  then have "AList.update (iid q) q m = m @ [(iid q, q)]"
    by (intro update_new) (auto simp: image_iff)
  with Cons show ?case by (auto simp: image_iff)
qed simp

lemma takePending_None: "takePending l i = (None, l') \<Longrightarrow> l' = l"
  by (auto simp: takePending_def split: option.splits)

lemma takePending_Some:
  assumes "takePending l i = (Some q, l')" and "list_all (\<lambda>(k, q). k = iid q) (ln_pending l)"
    and "distinct (map fst (ln_pending l))"
  shows "iid q = i \<and> mset (lane_queued l) = add_mset q (mset (lane_queued l'))
    \<and> mset (map iid (ln_queue l) @ map fst (ln_pending l))
        = add_mset i (mset (map iid (ln_queue l') @ map fst (ln_pending l')))
    \<and> list_all (\<lambda>(k, q). k = iid q) (ln_pending l')
    \<and> l' = l\<lparr>ln_queue := ln_queue l', ln_pending := ln_pending l'\<rparr>"
proof (cases "map_of (ln_pending l) i")
  case (Some q')
  then have q: "q' = q" and l': "l' = l\<lparr>ln_pending := AList.delete i (ln_pending l)\<rparr>"
    using assms(1) by (simp_all add: takePending_def)
  have del: "\<And>m. owf m \<Longrightarrow> map_of m i = Some q \<Longrightarrow> mset m = add_mset (i, q) (mset (AList.delete i m))"
  proof -
    fix m :: "(string \<times> queued) list"
    assume "owf m" "map_of m i = Some q"
    then show "mset m = add_mset (i, q) (mset (AList.delete i m))"
    proof (induction m)
      case (Cons p m)
      show ?case
      proof (cases "fst p = i")
        case True
        then have "AList.delete i m = m" using Cons.prems(1)
          by (auto simp: AList.delete_eq owf_def image_iff intro!: filter_True)
        with True Cons.prems show ?thesis by (cases p) simp
      next
        case False
        with Cons show ?thesis by (cases p) (auto simp: owf_def)
      qed
    qed simp
  qed
  have m: "mset (ln_pending l) = add_mset (i, q) (mset (AList.delete i (ln_pending l)))"
    using del [of "ln_pending l"] Some q assms(3) by (simp add: owf_def)
  have "(i, q) \<in> set (ln_pending l)" using Some q by (auto dest: map_of_SomeD)
  then have "iid q = i" using assms(2) by (auto simp: list_all_iff)
  moreover have "list_all (\<lambda>(k, q). k = iid q) (AList.delete i (ln_pending l))"
    using assms(2) by (auto simp: list_all_iff delete_set)
  moreover have "image_mset snd (mset (ln_pending l)) = add_mset q (image_mset snd (mset (AList.delete i (ln_pending l))))"
    "image_mset fst (mset (ln_pending l)) = add_mset i (image_mset fst (mset (AList.delete i (ln_pending l))))"
    by (simp_all add: m)
  ultimately show ?thesis by (simp add: lane_queued_def l')
next
  case None
  then obtain ys zs where e: "List.extract (\<lambda>q. iid q = i) (ln_queue l) = Some (ys, q, zs)"
    and l': "l' = l\<lparr>ln_queue := ys @ zs\<rparr>"
    using assms(1) by (auto simp: takePending_def split: option.splits prod.splits)
  then have "ln_queue l = ys @ q # zs" "iid q = i"
    by (auto simp: extract_Some_iff)
  then show ?thesis using assms(2) by (simp add: lane_queued_def l')
qed

section \<open>Every operation keeps the invariant\<close>

lemma held_lane:
  assumes "lanes_inv st" "findHeld st tid = Some (c, l)"
  obtains h where "map_of (tl_lanes st) c = Some l" "lane_ok (tl_maxInjectionsPerTurn st) c l"
    "ln_holder l = Some h" "lh_conversationId h = c" "lh_taskEventId h = tid"
proof -
  have m: "map_of (tl_lanes st) c = Some l" and "holds tid l"
    using findHeld_Some [of st tid c l] assms by (simp_all add: lanes_inv_def)
  moreover have "lane_ok (tl_maxInjectionsPerTurn st) c l" using lanes_inv_lane [OF assms(1) m] .
  moreover from this obtain h where "ln_holder l = Some h \<and> lh_conversationId h = c"
    using lane_ok_holder by blast
  ultimately show thesis using that by (auto simp: holds_def)
qed

lemma put_lane_fields [simp]:
  "tl_lanes (put_lane c l st) = AList.update c l (tl_lanes st)"
  "tl_maxInjectionsPerTurn (put_lane c l st) = tl_maxInjectionsPerTurn st"
  "tl_retained (put_lane c l st) = tl_retained st" "tl_tickets (put_lane c l st) = tl_tickets st"
  "tl_nextTicket (put_lane c l st) = tl_nextTicket st" "tl_grants (put_lane c l st) = tl_grants st"
  "tl_nextWaiter (put_lane c l st) = tl_nextWaiter st" "tl_enabled (put_lane c l st) = tl_enabled st"
  by (simp_all add: put_lane_def)

lemma fresh_signal_fields:
  "fresh_signal st = (sig, st') \<Longrightarrow> tl_lanes st' = tl_lanes st
    \<and> tl_maxInjectionsPerTurn st' = tl_maxInjectionsPerTurn st
    \<and> tl_retained st' = tl_retained st \<and> tl_tickets st' = tl_tickets st
    \<and> tl_nextTicket st' = tl_nextTicket st \<and> tl_grants st' = tl_grants st
    \<and> tl_nextWaiter st' = tl_nextWaiter st \<and> tl_enabled st' = tl_enabled st"
  by (auto simp: fresh_signal_def)

lemma retained_ok_same: "tl_retained st' = tl_retained st \<Longrightarrow> retained_ok st' = retained_ok st"
  by (simp add: retained_ok_def)

lemma inv_retained: "lanes_inv st \<Longrightarrow> retained_ok st"
  by (simp add: lanes_inv_def)

lemmas lane_views = lane_queued_def lane_tickets_def lane_wids_def lane_tasks_def lane_ids_def

lemma lane_ok_phase:
  "lane_ok mx c l \<Longrightarrow> p \<noteq> PIdle \<Longrightarrow> lane_ok mx c (l\<lparr>ln_phase := p\<rparr>)"
  by (auto simp: lane_ok_def lane_ids_def lane_queued_def waiters_ok_def split: option.splits)

lemma inv_phase:
  assumes "lanes_inv st" "map_of (tl_lanes st) c = Some l" "p \<noteq> PIdle"
  shows "lanes_inv (put_lane c (l\<lparr>ln_phase := p\<rparr>) st)"
  by (rule lanes_inv_local [OF assms(1,2), where l' = "l\<lparr>ln_phase := p\<rparr>"])
     (use assms lane_ok_phase [OF lanes_inv_lane [OF assms(1,2)]] in \<open>simp_all add: lane_views\<close>)

lemma inv_close: "lanes_inv st \<Longrightarrow> lanes_inv (snd (closeIfIdle st tid))"
proof -
  assume inv: "lanes_inv st"
  have "lanes_inv (put_lane c (l\<lparr>ln_phase := PClosing\<rparr>) st)" if "findHeld st tid = Some (c, l)" for c l
    using held_lane [OF inv that] inv_phase [OF inv] by (metis lane_phase.distinct(5))
  then show ?thesis using inv by (auto simp: closeIfIdle_def split: option.splits)
qed

lemma take_lane_ok:
  assumes "lane_ok mx c l"
  shows "lane_ok mx c (l\<lparr>ln_queue := [],
      ln_pending := foldl (\<lambda>m q. AList.update (iid q) q m) (ln_pending l) (ln_queue l)\<rparr>)"
proof -
  have d: "distinct (map iid (ln_queue l) @ map fst (ln_pending l))"
    using assms by (auto simp: lane_ok_def lane_ids_def)
  show ?thesis
    unfolding take_into_pending [OF d]
    using assms by (auto simp: lane_ok_def lane_ids_def lane_queued_def waiters_ok_def list_all_iff comp_def
        split: option.splits)
qed

lemma inv_take: "lanes_inv st \<Longrightarrow> lanes_inv (snd (takeQueued st tid))"
proof -
  assume inv: "lanes_inv st"
  show ?thesis
  proof (cases "tl_enabled st \<and> findHeld st tid \<noteq> None")
    case True
    then obtain c l where f: "findHeld st tid = Some (c, l)" and en: "tl_enabled st" by auto
    from held_lane [OF inv f] have m: "map_of (tl_lanes st) c = Some l"
      and ok: "lane_ok (tl_maxInjectionsPerTurn st) c l" by blast+
    have d: "distinct (map iid (ln_queue l) @ map fst (ln_pending l))"
      using ok by (auto simp: lane_ok_def lane_ids_def)
    obtain sig st' where sig: "fresh_signal st = (sig, st')" by fastforce
    note sf = fresh_signal_fields [OF sig]
    let ?l = "l\<lparr>ln_queue := [], ln_pending := ln_pending l @ map (\<lambda>q. (iid q, q)) (ln_queue l)\<rparr>"
    have okl: "lane_ok (tl_maxInjectionsPerTurn st) c ?l"
      using take_lane_ok [OF ok] unfolding take_into_pending [OF d] .
    then have okl': "lane_ok (tl_maxInjectionsPerTurn st) c (?l\<lparr>ln_inputAbort := sig\<rparr>)"
      by (auto simp: lane_ok_def lane_ids_def lane_queued_def waiters_ok_def split: option.splits)
    have "lanes_inv (put_lane c ?l st)"
      by (rule lanes_inv_local [OF inv m, where l' = ?l]) (use okl in \<open>simp_all add: lane_views comp_def ac_simps\<close>)
    moreover have "lanes_inv (put_lane c (?l\<lparr>ln_inputAbort := sig\<rparr>) st')"
      by (rule lanes_inv_local [OF inv m, where l' = "?l\<lparr>ln_inputAbort := sig\<rparr>"]) (use okl' sf in \<open>simp_all add: lane_views comp_def ac_simps\<close>)
    ultimately show ?thesis
      using f en sig by (cases "ln_queue l = []") (simp_all add: takeQueued_def Let_def take_into_pending [OF d])
  next
    case False
    with inv show ?thesis by (cases "findHeld st tid") (simp_all add: takeQueued_def)
  qed
qed

lemma lane_ok_drain:
  assumes "lane_ok mx c l" "takePending l i = (Some q, l')"
  shows "lane_ok mx c (l'\<lparr>ln_drainedIds := (if i \<in> set (ln_drainedIds l') then ln_drainedIds l'
      else ln_drainedIds l' @ [i])\<rparr>)
    \<and> \<not> q_settled q
    \<and> mset (lane_tickets l) = add_mset (q_ticket q) (mset (lane_tickets l'))"
proof -
  have ok: "list_all (\<lambda>(k, q). k = iid q) (ln_pending l)" "distinct (map fst (ln_pending l))"
    "distinct (lane_ids l)" "ln_accepted l = length (lane_ids l)" "ln_accepted l \<le> mx"
    using assms(1) by (auto simp: lane_ok_def lane_ids_def)
  note t = takePending_Some [OF assms(2) ok(1,2)]
  have l': "l' = l\<lparr>ln_queue := ln_queue l', ln_pending := ln_pending l'\<rparr>" using t by blast
  then have same: "ln_holder l' = ln_holder l" "ln_phase l' = ln_phase l" "ln_waiters l' = ln_waiters l"
    "ln_accepted l' = ln_accepted l" "ln_drainedIds l' = ln_drainedIds l"
    by (metis lane.select_convs lane.surjective lane.update_convs)+
  have qs: "mset (lane_queued l) = add_mset q (mset (lane_queued l'))" using t by blast
  then have sub: "set (lane_queued l') \<subseteq> set (lane_queued l)" "q \<in> set (lane_queued l)"
    by (metis set_mset_mset set_mset_add_mset_insert subset_insertI, metis set_mset_mset union_single_eq_member)
  have ids: "mset (lane_ids l) = add_mset i (mset (lane_ids l'))"
    using t same by (simp add: lane_ids_def)
  then have i: "i \<notin> set (lane_ids l')" and d': "distinct (lane_ids l')"
    using ok(3) by (metis distinct.simps(2) mset.simps(2) mset_eq_imp_distinct_iff)+
  have len: "length (lane_ids l) = Suc (length (lane_ids l'))"
    using ids by (metis size_add_mset size_mset)
  let ?m = "l'\<lparr>ln_drainedIds := ln_drainedIds l' @ [i]\<rparr>"
  have ids': "mset (lane_ids ?m) = add_mset i (mset (lane_ids l'))"
    by (simp add: lane_ids_def)
  have "distinct (lane_ids ?m)" "length (lane_ids ?m) = length (lane_ids l)"
    using ids ids' ok(3) by (metis mset_eq_imp_distinct_iff, metis mset_eq_length)
  moreover have "list_all (\<lambda>(k, q). k = iid q) (ln_pending l')" using t by blast
  moreover have "\<forall>h. list_all (queue_ok h) (lane_queued l) \<longrightarrow> list_all (queue_ok h) (lane_queued ?m)"
    using sub(1) by (auto simp: list_all_iff lane_queued_def)
  ultimately have "lane_ok mx c ?m"
    using assms(1) same by (simp add: lane_ok_def waiters_ok_def split: option.splits)
  moreover have "i \<notin> set (ln_drainedIds l')" using i by (simp add: lane_ids_def)
  moreover have "\<not> q_settled q"
    using assms(1) sub(2) by (auto simp: lane_ok_def list_all_iff queue_ok_def split: option.splits)
  moreover have "mset (lane_tickets l) = add_mset (q_ticket q) (mset (lane_tickets l'))"
    using qs by (simp add: lane_tickets_def)
  ultimately show ?thesis by simp
qed

lemma takePending_frame:
  "takePending l i = (r, l') \<Longrightarrow> ln_holder l' = ln_holder l \<and> ln_waiters l' = ln_waiters l
     \<and> ln_phase l' = ln_phase l \<and> ln_drainedIds l' = ln_drainedIds l \<and> ln_accepted l' = ln_accepted l"
  by (auto simp: takePending_def split: option.splits prod.splits)

lemma confirm_loop_ok:
  assumes "lane_ok mx c l" "confirm_loop tid ids (l, st, d) = (l', st', d')"
  shows "lane_ok mx c l' \<and> ln_holder l' = ln_holder l \<and> ln_waiters l' = ln_waiters l
    \<and> (\<exists>log. st' = st\<lparr>tl_tickets := tl_tickets st @ log\<rparr>
         \<and> mset (lane_tickets l) = mset (lane_tickets l') + mset (map fst log)
         \<and> (\<forall>r \<in> set log. snd r = Drained tid))"
  using assms
proof (induction ids arbitrary: l st d)
  case Nil
  then show ?case by (auto intro: exI [of _ "[]"])
next
  case (Cons i ids)
  obtain r l1 where t: "takePending l i = (r, l1)" by fastforce
  show ?case
  proof (cases r)
    case None
    then have "l1 = l" using takePending_None t by blast
    with Cons t None show ?thesis by simp
  next
    case (Some q)
    note dr = lane_ok_drain [OF Cons.prems(1) t [unfolded Some]]
    let ?l = "l1\<lparr>ln_drainedIds := (if i \<in> set (ln_drainedIds l1) then ln_drainedIds l1
      else ln_drainedIds l1 @ [i])\<rparr>"
    have step: "confirm_loop tid ids (?l, resolve_ticket q (Drained tid) st, d @ [q_input q]) = (l', st', d')"
      using Cons.prems(2) t Some dr by simp
    from Cons.IH [OF _ step] dr obtain log where ih: "lane_ok mx c l'"
      "ln_holder l' = ln_holder ?l" "ln_waiters l' = ln_waiters ?l"
      "st' = (resolve_ticket q (Drained tid) st)\<lparr>tl_tickets := tl_tickets (resolve_ticket q (Drained tid) st) @ log\<rparr>"
      "mset (lane_tickets ?l) = mset (lane_tickets l') + mset (map fst log)"
      "\<forall>r \<in> set log. snd r = Drained tid"
      by blast
    have "lane_tickets ?l = lane_tickets l1" by (simp add: lane_tickets_def lane_queued_def)
    with ih(5) dr have "mset (lane_tickets l)
        = mset (lane_tickets l') + mset (map fst ((q_ticket q, Drained tid) # log))" by simp
    moreover have "st' = st\<lparr>tl_tickets := tl_tickets st @ (q_ticket q, Drained tid) # log\<rparr>"
      using ih(4) by (simp add: resolve_ticket_def)
    ultimately show ?thesis
      using ih takePending_frame [OF t]
      by (intro conjI exI [of _ "(q_ticket q, Drained tid) # log"]) auto
  qed
qed

lemma emit_frame:
  "fold (emitDrained tid) is st = st\<lparr>tl_notified := tl_notified (fold (emitDrained tid) is st)\<rparr>"
proof (induction "is" arbitrary: st)
  case (Cons i xs)
  show ?case
    using Cons [of "emitDrained tid i st"] by (simp add: emitDrained_def)
qed simp

lemma emit_fields [simp]:
  "tl_lanes (fold (emitDrained tid) is st) = tl_lanes st"
  "tl_maxInjectionsPerTurn (fold (emitDrained tid) is st) = tl_maxInjectionsPerTurn st"
  "tl_retained (fold (emitDrained tid) is st) = tl_retained st"
  "tl_tickets (fold (emitDrained tid) is st) = tl_tickets st"
  "tl_nextTicket (fold (emitDrained tid) is st) = tl_nextTicket st"
  "tl_grants (fold (emitDrained tid) is st) = tl_grants st"
  "tl_nextWaiter (fold (emitDrained tid) is st) = tl_nextWaiter st"
  "tl_enabled (fold (emitDrained tid) is st) = tl_enabled st"
  by (subst emit_frame, simp)+

lemma inv_confirm:
  assumes inv: "lanes_inv st"
  shows "lanes_inv (confirmDrained st tid ids)"
proof (cases "findHeld st tid")
  case None
  with inv show ?thesis by (simp add: confirmDrained_def)
next
  case (Some p)
  then obtain c l where f: "findHeld st tid = Some (c, l)" by (cases p) simp
  from held_lane [OF inv f] have m: "map_of (tl_lanes st) c = Some l"
    and ok: "lane_ok (tl_maxInjectionsPerTurn st) c l" by blast+
  obtain l' st' d where r: "confirm_loop tid ids (l, st, []) = (l', st', d)" by (metis prod_cases3)
  from confirm_loop_ok [OF ok r] obtain log where cl: "lane_ok (tl_maxInjectionsPerTurn st) c l'"
    "ln_holder l' = ln_holder l" "ln_waiters l' = ln_waiters l"
    "st' = st\<lparr>tl_tickets := tl_tickets st @ log\<rparr>"
    "mset (lane_tickets l) = mset (lane_tickets l') + mset (map fst log)"
    by blast
  have "lanes_inv (fold (emitDrained tid) d (put_lane c l' st'))"
    by (rule lanes_inv_local [OF inv m, where l' = l']) (use cl in \<open>simp_all add: ac_simps\<close>)
  with f r inv show ?thesis by (simp add: confirmDrained_def)
qed

lemma inv_defer:
  assumes inv: "lanes_inv st"
  shows "lanes_inv (deferAudit st tid i audit)"
proof (cases "findHeld st tid")
  case None
  with inv show ?thesis by (simp add: deferAudit_def)
next
  case (Some p)
  then obtain c l where f: "findHeld st tid = Some (c, l)" by (cases p) simp
  from held_lane [OF inv f] have m: "map_of (tl_lanes st) c = Some l"
    and ok: "lane_ok (tl_maxInjectionsPerTurn st) c l" by blast+
  show ?thesis
  proof (cases "map_of (ln_pending l) i")
    case None
    with f inv show ?thesis by (simp add: deferAudit_def)
  next
    case (Some q)
    let ?q = "q\<lparr>q_persisted := True, q_audit := Some audit\<rparr>"
    have upd: "AList.update i ?q m = map (\<lambda>(k, v). if k = i then (k, ?q) else (k, v)) m"
      if "distinct (map fst m)" "map_of m i = Some q" for m
      using that
    proof (induction m)
      case (Cons p m)
      show ?case
      proof (cases "fst p = i")
        case True
        then have "map (\<lambda>(k, v). if k = i then (k, ?q) else (k, v)) m = m"
          using Cons.prems(1) by (intro map_idI) (auto simp: image_iff)
        with True show ?thesis by (cases p) simp
      next
        case False
        with Cons show ?thesis by (cases p) auto
      qed
    qed simp
    have d: "distinct (map fst (ln_pending l))" using ok by (auto simp: lane_ok_def lane_ids_def)
    have qk: "(k, v) \<in> set (ln_pending l) \<Longrightarrow> k = i \<Longrightarrow> v = q" for k v
      using Some d by (metis map_of_eq_Some_iff option.inject)
    let ?l = "l\<lparr>ln_pending := AList.update i ?q (ln_pending l)\<rparr>"
    have fsts: "map fst (AList.update i ?q (ln_pending l)) = map fst (ln_pending l)"
      unfolding upd [OF d Some] by (induction "ln_pending l") (auto simp: split_beta)
    have tks: "lane_tickets ?l = lane_tickets l"
      using qk by (auto simp: lane_tickets_def lane_queued_def upd [OF d Some] split_beta)
    have "q \<in> set (lane_queued l)"
      using map_of_SomeD [OF Some] by (force simp: lane_queued_def)
    then have "\<not> q_settled q"
      using ok by (auto simp: lane_ok_def queue_ok_def list_all_iff split: option.splits)
    have "lane_ok (tl_maxInjectionsPerTurn st) c ?l"
    proof -
      have "lane_ids ?l = lane_ids l" by (simp add: lane_ids_def fsts)
      moreover have "list_all (\<lambda>(k, q). k = iid q) (ln_pending ?l)"
        using ok qk by (auto simp: lane_ok_def upd [OF d Some] list_all_iff split: if_splits)
      moreover have "\<forall>h. list_all (queue_ok h) (lane_queued l) \<longrightarrow> list_all (queue_ok h) (lane_queued ?l)"
      proof -
        have "set (lane_queued ?l) \<subseteq> insert ?q (set (lane_queued l))"
          by (force simp: lane_queued_def upd [OF d Some] split_beta)
        then have "\<forall>x \<in> set (lane_queued ?l). x = ?q \<or> x \<in> set (lane_queued l)" by blast
        moreover have "queue_ok h q \<Longrightarrow> queue_ok h ?q" for h by (simp add: queue_ok_def)
        ultimately show ?thesis using \<open>q \<in> set (lane_queued l)\<close> unfolding list_all_iff by metis
      qed
      ultimately show ?thesis
        using ok by (simp add: lane_ok_def waiters_ok_def split: option.splits)
    qed
    then have "lanes_inv (put_lane c ?l st)"
      by (intro lanes_inv_local [OF inv m, where l' = ?l]) (simp_all add: tks)
    with f Some inv \<open>\<not> q_settled q\<close> show ?thesis by (simp add: deferAudit_def)
  qed
qed

lemma find_queued_None:
  assumes "findQueued l i = None" "i \<notin> set (ln_drainedIds l)"
  shows "i \<notin> set (lane_ids l)"
  using assms by (auto simp: findQueued_def lane_ids_def find_None_iff map_of_eq_None_iff split: option.splits)

lemma inv_inject:
  assumes inv: "lanes_inv st"
  shows "lanes_inv (snd (tryInject st conv raw))"
proof (cases "snd (tryInject st conv raw) = st")
  case False
  let ?i = "copyInput raw"
  from False obtain l h where m: "map_of (tl_lanes st) conv = Some l" and h: "ln_holder l = Some h"
    and fq: "findQueued l (ii_inboundEventId ?i) = None" "ii_inboundEventId ?i \<notin> set (ln_drainedIds l)"
    and el: "eligible h ?i" "ln_accepted l < tl_maxInjectionsPerTurn st"
    and ph: "ln_phase l \<noteq> PIdle" "ln_phase l \<noteq> PClosing" "tl_enabled st"
    by (auto simp: tryInject_def lanes_enqueue_def Let_def not_le split: option.splits if_splits)
  note ok = lanes_inv_lane [OF inv m]
  define q where "q = \<lparr>q_input = ?i, q_ticket = tl_nextTicket st, q_settled = False, q_persisted = False, q_audit = None\<rparr>"
  let ?l = "l\<lparr>ln_queue := ln_queue l @ [q], ln_accepted := Suc (ln_accepted l)\<rparr>"
  let ?st = "put_lane conv ?l (st\<lparr>tl_nextTicket := Suc (tl_nextTicket st)\<rparr>)"
  have res: "snd (tryInject st conv raw) = abortInput ?l ?st"
    using m h fq el ph by (simp add: tryInject_def lanes_enqueue_def Let_def makeQueued_def q_def not_le)
  have "queue_ok h q" using el by (simp add: queue_ok_def q_def)
  then have "lane_ok (tl_maxInjectionsPerTurn st) conv ?l"
    using ok h el(2) find_queued_None [OF fq]
    by (auto simp: lane_ok_def lane_ids_def lane_queued_def waiters_ok_def q_def)
  then have "lanes_inv ?st"
    by (intro lanes_inv_local [OF inv m, where l' = ?l]) (simp_all add: lane_tickets_def lane_queued_def q_def)
  then show ?thesis
    unfolding res by (rule lanes_inv_other) (simp_all add: abortInput_def)
qed (use inv in simp)

text \<open>Releasing: every follow-up not drained is returned or kept for the audit retry.\<close>

lemma end_undrained_fold:
  assumes "list_all (queue_ok h) qs" "retained_ok st"
  shows "\<exists>log kept. fold (end_undrained tid) qs st
      = st\<lparr>tl_tickets := tl_tickets st @ log, tl_retained := tl_retained st @ kept\<rparr>
    \<and> mset (map q_ticket qs) = mset (map fst log) + mset (map (\<lambda>(host, q). q_ticket q) kept)
    \<and> retained_ok (fold (end_undrained tid) qs st)"
  using assms
proof (induction qs arbitrary: st)
  case Nil
  then show ?case by (auto intro: exI [of _ "[]"])
next
  case (Cons q qs)
  have un: "\<not> q_settled q" using Cons.prems(1) by (simp add: queue_ok_def)
  have ret: "retained_ok (end_undrained tid q st)"
    using Cons.prems(2) un by (auto simp: end_undrained_def retained_ok_def resolve_ticket_def)
  from Cons.IH [OF _ ret] Cons.prems(1) obtain log kept where ih:
    "fold (end_undrained tid) qs (end_undrained tid q st) = (end_undrained tid q st)
       \<lparr>tl_tickets := tl_tickets (end_undrained tid q st) @ log,
        tl_retained := tl_retained (end_undrained tid q st) @ kept\<rparr>"
    "mset (map q_ticket qs) = mset (map fst log) + mset (map (\<lambda>(host, q). q_ticket q) kept)"
    "retained_ok (fold (end_undrained tid) qs (end_undrained tid q st))"
    by auto
  show ?case
  proof (cases "q_persisted q \<and> q_audit q \<noteq> None")
    case True
    with un have "end_undrained tid q st = st\<lparr>tl_retained := tl_retained st @ [(tid, q)]\<rparr>"
      by (simp add: end_undrained_def)
    with ih show ?thesis
      by (intro exI [of _ log] exI [of _ "(tid, q) # kept"]) simp
  next
    case False
    with un have "end_undrained tid q st
        = st\<lparr>tl_tickets := tl_tickets st @ [(q_ticket q, ReturnedHolderEnded)]\<rparr>"
      by (auto simp: end_undrained_def resolve_ticket_def)
    with ih show ?thesis
      by (intro exI [of _ "(q_ticket q, ReturnedHolderEnded) # log"] exI [of _ kept]) simp
  qed
qed

lemma inv_flush:
  assumes inv: "lanes_inv st"
  shows "lanes_inv (flushRetained st publish)"
proof -
  have batch: "\<exists>log kept. flush_batch publish batch s
        = s\<lparr>tl_tickets := tl_tickets s @ log, tl_retained := tl_retained s @ kept\<rparr>
      \<and> mset (map (\<lambda>(host, q). q_ticket q) batch) = mset (map fst log) + mset (map (\<lambda>(host, q). q_ticket q) kept)
      \<and> set kept \<subseteq> set batch"
    if "list_all (\<lambda>(host, q). \<not> q_settled q \<and> q_audit q \<noteq> None) batch" for batch s
    using that
  proof (induction publish batch s rule: flush_batch.induct)
    case (1 publish s)
    then show ?case by (auto intro: exI [of _ "[]"])
  next
    case (2 publish host q batch s)
    then obtain audit where q: "\<not> q_settled q" "q_audit q = Some audit" by auto
    show ?case
    proof (cases "publish \<lparr>rf_hostTaskEventId = host, rf_input = q_input q, rf_audit = audit\<rparr>")
      case True
      from 2(3) [OF q True] 2(5) obtain log kept where
        "flush_batch publish batch (resolve_ticket q (Drained host) s) = (resolve_ticket q (Drained host) s)
          \<lparr>tl_tickets := tl_tickets (resolve_ticket q (Drained host) s) @ log,
           tl_retained := tl_retained (resolve_ticket q (Drained host) s) @ kept\<rparr>"
        "mset (map (\<lambda>(host, q). q_ticket q) batch) = mset (map fst log) + mset (map (\<lambda>(host, q). q_ticket q) kept)"
        "set kept \<subseteq> set batch" by auto
      with q True show ?thesis
        by (intro exI [of _ "(q_ticket q, Drained host) # log"] exI [of _ kept])
           (auto simp: resolve_ticket_def)
    next
      case False
      let ?s = "s\<lparr>tl_retained := tl_retained s @ [(host, q)]\<rparr>"
      from 2(4) [OF q False] 2(5) obtain log kept where
        "flush_batch publish batch ?s = ?s\<lparr>tl_tickets := tl_tickets ?s @ log, tl_retained := tl_retained ?s @ kept\<rparr>"
        "mset (map (\<lambda>(host, q). q_ticket q) batch) = mset (map fst log) + mset (map (\<lambda>(host, q). q_ticket q) kept)"
        "set kept \<subseteq> set batch" by auto
      with q False show ?thesis
        by (intro exI [of _ log] exI [of _ "(host, q) # kept"]) auto
    qed
  qed
  have r: "list_all (\<lambda>(host, q). \<not> q_settled q \<and> q_audit q \<noteq> None) (tl_retained st)"
    using inv by (simp add: lanes_inv_def retained_ok_def)
  from batch [OF r, of "st\<lparr>tl_retained := []\<rparr>"] obtain log kept where b:
    "flush_batch publish (tl_retained st) (st\<lparr>tl_retained := []\<rparr>)
      = st\<lparr>tl_tickets := tl_tickets st @ log, tl_retained := kept\<rparr>"
    "mset (map (\<lambda>(host, q). q_ticket q) (tl_retained st))
      = mset (map fst log) + mset (map (\<lambda>(host, q). q_ticket q) kept)"
    "set kept \<subseteq> set (tl_retained st)" by auto
  have "lanes_inv (st\<lparr>tl_tickets := tl_tickets st @ log, tl_retained := kept\<rparr>)"
    using inv b by (auto simp: lanes_inv_def open_tickets_def retained_ok_def list_all_iff ac_simps)
  with b inv show ?thesis by (simp add: flushRetained_def)
qed

text \<open>Waiting, granting and releasing.\<close>

lemma remove_waiter:
  assumes "distinct (map w_id ws)" "w \<in> set ws"
  shows "mset ws = add_mset w (mset (filter (\<lambda>x. w_id x \<noteq> w_id w) ws))"
  using assms
proof (induction ws)
  case (Cons x ws)
  show ?case
  proof (cases "w_id x = w_id w")
    case True
    then have "filter (\<lambda>x. w_id x \<noteq> w_id w) ws = ws"
      using Cons.prems(1) by (intro filter_True) (auto simp: image_iff)
    moreover have "x = w" using True Cons.prems by (auto simp: image_iff)
    ultimately show ?thesis using True by simp
  next
    case False
    with Cons show ?thesis by (auto simp: add_mset_commute)
  qed
qed simp

lemma lane_wids_distinct:
  assumes "lanes_inv st" "map_of (tl_lanes st) c = Some l"
  shows "distinct (map w_id (ln_waiters l))"
proof -
  have "mset (lane_wids l) \<subseteq># lsum lane_wids (tl_lanes st)" using lsum_mem [OF assms(2)] .
  also have "\<dots> \<subseteq># mset [0..<tl_nextWaiter st]"
    using assms(1) unfolding lanes_inv_def by (metis mset_subset_eq_add_left)
  finally have sub: "mset (map w_id (ln_waiters l)) \<subseteq># mset [0..<tl_nextWaiter st]"
    by (simp add: lane_wids_def)
  have "count (mset (map w_id (ln_waiters l))) n \<le> 1" for n
  proof -
    have "count (mset [0..<tl_nextWaiter st]) n \<le> 1"
      by (simp add: count_mset_set')
    then show ?thesis using mset_subset_eq_count [OF sub, of n] by linarith
  qed
  then show ?thesis
    by (metis distinct_count_atmost_1 count_mset_0_iff less_Suc0 le_less One_nat_def)
qed

lemma lane_ok_waiters:
  assumes "lane_ok mx c l" "waiters_ok c (l\<lparr>ln_waiters := ws\<rparr>)"
  shows "lane_ok mx c (l\<lparr>ln_waiters := ws\<rparr>)"
  using assms by (auto simp: lane_ok_def lane_ids_def lane_queued_def split: option.splits)

lemma inv_drop_waiter:
  assumes inv: "lanes_inv st" and m: "map_of (tl_lanes st) c = Some l" and w: "w \<in> set (ln_waiters l)"
  shows "lanes_inv (resolve_grant w True now
     (put_lane c (l\<lparr>ln_waiters := filter (\<lambda>x. w_id x \<noteq> w_id w) (ln_waiters l)\<rparr>) st))"
    (is "lanes_inv (resolve_grant w True now (put_lane c ?l st))")
proof -
  note ok = lanes_inv_lane [OF inv m]
  have mw: "mset (ln_waiters l) = add_mset w (mset (ln_waiters ?l))"
    using remove_waiter [OF lane_wids_distinct [OF inv m] w] by simp
  have "lane_ok (tl_maxInjectionsPerTurn st) c ?l"
    by (rule lane_ok_waiters [OF ok]) (use ok in \<open>auto simp: lane_ok_def waiters_ok_def list_all_iff\<close>)
  moreover have "mset (lane_tasks ?l) \<subseteq># mset (lane_tasks l)"
    by (simp add: lane_tasks_def image_mset_subseteq_mono)
  moreover have "lane_tickets ?l = lane_tickets l" by (simp add: lane_tickets_def lane_queued_def)
  moreover have "mset (lane_wids l) = add_mset (w_id w) (mset (lane_wids ?l))"
    using arg_cong [OF mw, of "image_mset w_id"] by (simp add: lane_wids_def)
  ultimately show ?thesis
    using tasks_kept [OF inv, of ?l l]
    by (intro lanes_inv_replace [OF inv m, where l' = ?l])
       (simp_all add: resolve_grant_def inv_retained [OF inv] retained_ok_same [of _ st])
qed

lemma inv_cancel:
  assumes inv: "lanes_inv st"
  shows "lanes_inv (cancelReservation st tid now)"
proof (cases "findWaiting st tid")
  case None
  with inv show ?thesis by (simp add: cancelReservation_def)
next
  case (Some p)
  then obtain c l w where f: "findWaiting st tid = Some (c, l, w)" by (cases p) auto
  then have m: "map_of (tl_lanes st) c = Some l" and w: "w \<in> set (ln_waiters l)"
    using findWaiting_Some [of st tid c l w] inv lane_waiter_Some [of tid l w] by (simp_all add: lanes_inv_def)
  obtain h where "ln_holder l = Some h" using lane_ok_holder [OF lanes_inv_lane [OF inv m]] by blast
  with f inv inv_drop_waiter [OF inv m w] show ?thesis by (simp add: cancelReservation_def Let_def)
qed

lemma inv_failOpen:
  assumes inv: "lanes_inv st"
  shows "lanes_inv (failOpen st c wid now)"
proof (cases "failOpen st c wid now = st")
  case False
  then obtain l w where m: "map_of (tl_lanes st) c = Some l"
    and f: "find (\<lambda>w. w_id w = wid) (ln_waiters l) = Some w" "\<not> w_settled w"
    by (auto simp: failOpen_def split: option.splits if_splits)
  then have w: "w \<in> set (ln_waiters l)" "wid = w_id w" by (auto simp: find_Some_iff)
  obtain h where "ln_holder l = Some h" using lane_ok_holder [OF lanes_inv_lane [OF inv m]] by blast
  with m f w inv_drop_waiter [OF inv m w(1)] show ?thesis by (simp add: failOpen_def Let_def)
qed (use inv in simp)

lemma lanes_inv_drop:
  assumes inv: "lanes_inv st" and at: "map_of (tl_lanes st) c = Some l" and w: "ln_waiters l = []"
    and st': "tl_lanes st' = AList.delete c (tl_lanes st)"
      "tl_maxInjectionsPerTurn st' = tl_maxInjectionsPerTurn st"
      "tl_nextTicket st' = tl_nextTicket st" "tl_grants st' = tl_grants st" "tl_nextWaiter st' = tl_nextWaiter st"
    and tk: "mset (map (\<lambda>(host, q). q_ticket q) (tl_retained st')) + mset (map fst (tl_tickets st'))
      = mset (lane_tickets l) + mset (map (\<lambda>(host, q). q_ticket q) (tl_retained st))
        + mset (map fst (tl_tickets st))"
    and ret: "retained_ok st'"
  shows "lanes_inv st'"
proof -
  have owf: "owf (tl_lanes st)" using inv by (simp add: lanes_inv_def)
  note del = lsum_delete [OF owf at]
  have "open_tickets st' + mset (map fst (tl_tickets st')) = mset [0..<tl_nextTicket st']"
  proof -
    have "open_tickets st + mset (map fst (tl_tickets st)) = mset [0..<tl_nextTicket st]"
      using inv by (simp add: lanes_inv_def)
    then have o: "count (open_tickets st + mset (map fst (tl_tickets st))) n = count (mset [0..<tl_nextTicket st]) n" for n
      by simp
    show ?thesis
    proof (rule multiset_eqI)
      fix n
      show "count (open_tickets st' + mset (map fst (tl_tickets st'))) n = count (mset [0..<tl_nextTicket st']) n"
        using o [of n] arg_cong [OF tk, of "\<lambda>m. count m n"] arg_cong [OF del [of lane_tickets], of "\<lambda>m. count m n"]
        by (simp add: open_tickets_def st')
    qed
  qed
  moreover have "lsum lane_wids (tl_lanes st') + mset (map fst (tl_grants st')) = mset [0..<tl_nextWaiter st']"
    using inv del [of lane_wids] w by (simp add: lanes_inv_def st' lane_wids_def)
  moreover have "count (lsum lane_tasks (tl_lanes st')) t \<le> 1" for t
  proof -
    have "count (lsum lane_tasks (tl_lanes st)) t \<le> 1" using inv by (simp add: lanes_inv_def)
    then show ?thesis
      using arg_cong [OF del [of lane_tasks], of "\<lambda>m. count m t"] by (simp add: st')
  qed
  ultimately show ?thesis
    using inv ret by (auto simp: lanes_inv_def st')
qed

lemma inv_release:
  assumes inv: "lanes_inv st"
  shows "lanes_inv (lanes_release st tid now)"
proof (cases "tl_enabled st \<and> findHeld st tid \<noteq> None")
  case False
  with inv show ?thesis by (cases "findHeld st tid") (simp_all add: lanes_release_def)
next
  case True
  then obtain c l where f: "findHeld st tid = Some (c, l)" and en: "tl_enabled st" by auto
  from held_lane [OF inv f] obtain h where m: "map_of (tl_lanes st) c = Some l"
    and ok: "lane_ok (tl_maxInjectionsPerTurn st) c l" and h: "ln_holder l = Some h" by blast
  have qs: "list_all (queue_ok h) (ln_queue l @ map snd (ln_pending l))"
    using ok h by (simp add: lane_ok_def lane_queued_def)
  obtain s1 where s1_def: "fold (end_undrained tid) (ln_queue l @ map snd (ln_pending l)) st = s1" by blast
  from end_undrained_fold [OF qs inv_retained [OF inv], of tid] obtain log kept where s1:
    "s1 = st\<lparr>tl_tickets := tl_tickets st @ log, tl_retained := tl_retained st @ kept\<rparr>"
    "mset (lane_tickets l) = mset (map fst log) + mset (map (\<lambda>(host, q). q_ticket q) kept)"
    "retained_ok s1"
    unfolding s1_def by (auto simp: lane_tickets_def lane_queued_def)
  define s2 where "s2 = s1\<lparr>tl_nextSignal := Suc (tl_nextSignal s1)\<rparr>"
  define l0 where "l0 = l\<lparr>ln_queue := [], ln_pending := [], ln_holder := None, ln_phase := PIdle,
    ln_accepted := 0, ln_drainedIds := [], ln_inputAbort := tl_nextSignal s1\<rparr>"
  have rel: "lanes_release st tid now = (case grantNext l0 (ln_waiters l) now s2 of
      (l', st3) \<Rightarrow> if ln_holder l' = None \<and> ln_waiters l' = [] then drop_lane c st3 else put_lane c l' st3)"
    using f en s1_def by (simp add: lanes_release_def fresh_signal_def Let_def s2_def l0_def del: fold_append)
  have fs: "tl_lanes s2 = tl_lanes st" "tl_maxInjectionsPerTurn s2 = tl_maxInjectionsPerTurn st"
    "tl_nextTicket s2 = tl_nextTicket st" "tl_grants s2 = tl_grants st" "tl_nextWaiter s2 = tl_nextWaiter st"
    "tl_tickets s2 = tl_tickets st @ log" "tl_retained s2 = tl_retained st @ kept"
    by (simp_all add: s2_def s1(1))
  have ret2: "retained_ok s2" using s1(3) by (simp add: retained_ok_def s2_def)
  show ?thesis
  proof (cases "ln_waiters l")
    case Nil
    have r: "lanes_release st tid now = drop_lane c s2"
      unfolding rel Nil by (simp add: l0_def)
    have "retained_ok (drop_lane c s2)" using ret2 by (simp add: drop_lane_def retained_ok_def)
    then show ?thesis
      unfolding r by (rule lanes_inv_drop [OF inv m Nil, rotated -1])
         (simp_all add: drop_lane_def fs s1(2) ac_simps)
  next
    case (Cons w ws)
    have wok: "\<not> w_settled w" "lh_conversationId (w_holder w) = c" "waiters_ok c (l\<lparr>ln_waiters := ws\<rparr>)"
      using ok Cons by (auto simp: lane_ok_def waiters_ok_def)
    define l' where "l' = l0\<lparr>ln_waiters := ws, ln_holder := Some (copyHolder (w_holder w)),
      ln_phase := hold_phase (w_acquireRequested w), ln_accepted := 0, ln_queue := [], ln_pending := [],
      ln_drainedIds := [], ln_inputAbort := tl_nextSignal s2\<rparr>"
    define s3 where "s3 = resolve_grant w False now (s2\<lparr>tl_nextSignal := Suc (tl_nextSignal s2)\<rparr>)"
    have r: "lanes_release st tid now = put_lane c l' s3"
      unfolding rel Cons using wok(1) by (simp add: beginHold_def fresh_signal_def l'_def s3_def)
    have lf: "lane_tickets l' = []" "lane_wids l' = map w_id ws"
      "lane_tasks l' = map (\<lambda>w. lh_taskEventId (w_holder w)) (w # ws)"
      by (simp_all add: l'_def l0_def lane_tickets_def lane_queued_def lane_wids_def lane_tasks_def copyHolder_def)
    have lok: "lane_ok (tl_maxInjectionsPerTurn st) c l'"
      using wok by (auto simp: l'_def l0_def lane_ok_def lane_ids_def lane_queued_def waiters_ok_def
          copyHolder_def hold_phase_def)
    have f3: "tl_lanes s3 = tl_lanes st" "tl_maxInjectionsPerTurn s3 = tl_maxInjectionsPerTurn st"
      "tl_nextTicket s3 = tl_nextTicket st" "tl_nextWaiter s3 = tl_nextWaiter st"
      "tl_tickets s3 = tl_tickets st @ log" "tl_retained s3 = tl_retained st @ kept"
      "map fst (tl_grants s3) = map fst (tl_grants st) @ [w_id w]"
      by (simp_all add: s3_def resolve_grant_def fs)
    have ret3: "retained_ok (put_lane c l' s3)"
      using ret2 f3 fs by (simp add: retained_ok_def)
    have wl: "lane_wids l = w_id w # map w_id ws" by (simp add: lane_wids_def Cons)
    have sub: "mset (lane_tasks l') \<subseteq># mset (lane_tasks l)"
      unfolding lf by (simp add: lane_tasks_def Cons h)
    show ?thesis
      unfolding r
      by (rule lanes_inv_replace [OF inv m, where l' = l'])
         (use lok ret3 tasks_kept [OF inv sub] s1(2) in \<open>simp_all add: f3 lf(1,2) wl ac_simps\<close>)
  qed
qed

lemma inv_join:
  assumes inv: "lanes_inv st"
  shows "lanes_inv (snd (lanes_join st holder acquire now))"
proof (cases "lh_taskEventId holder = [] \<or> lh_conversationId holder = []")
  case True
  with inv show ?thesis by (auto simp: lanes_join_def copyHolder_def Let_def)
next
  case False
  let ?h = "copyHolder holder" and ?tid = "lh_taskEventId holder" and ?conv = "lh_conversationId holder"
  have hc [simp]: "copyHolder x = x" for x by (simp add: copyHolder_def)
  consider (held) c l where "findHeld st ?tid = Some (c, l)"
    | (waiting) c l w where "findHeld st ?tid = None" "findWaiting st ?tid = Some (c, l, w)"
    | (new) "findHeld st ?tid = None" "findWaiting st ?tid = None"
  proof (cases "findHeld st ?tid")
    case (Some p)
    then show thesis using held by (cases p) simp
  next
    case None
    then show thesis using waiting new by (cases "findWaiting st ?tid") auto
  qed
  then show ?thesis
  proof cases
    case held
    from held_lane [OF inv held] have "map_of (tl_lanes st) c = Some l" by blast
    from inv_phase [OF inv this, of PRunning] inv held False show ?thesis
      by (simp add: lanes_join_def Let_def)
  next
    case waiting
    have m: "map_of (tl_lanes st) c = Some l"
      using findWaiting_Some [of st ?tid c l w] waiting inv by (simp add: lanes_inv_def)
    have "lanes_inv (put_lane c (mark_acquire w l) st)"
    proof (rule lanes_inv_replace [OF inv m, where l' = "mark_acquire w l"])
      have "lane_tasks (mark_acquire w l) = lane_tasks l"
        by (auto simp: lane_tasks_def mark_acquire_def)
      then show "count (lsum lane_tasks (tl_lanes st)) t + count (mset (lane_tasks (mark_acquire w l))) t
          \<le> 1 + count (mset (lane_tasks l)) t" for t
        using tasks_kept [OF inv, of "mark_acquire w l" l] by simp
      show "lane_ok (tl_maxInjectionsPerTurn (put_lane c (mark_acquire w l) st)) c (mark_acquire w l)"
        unfolding mark_acquire_def put_lane_fields
        by (rule lane_ok_waiters [OF lanes_inv_lane [OF inv m]])
           (use lanes_inv_lane [OF inv m] in \<open>auto simp: lane_ok_def waiters_ok_def list_all_iff\<close>)
      have "map w_id (ln_waiters (mark_acquire w l)) = map w_id (ln_waiters l)"
        by (simp add: mark_acquire_def)
      then show "mset (lane_wids (mark_acquire w l)) + mset (map fst (tl_grants (put_lane c (mark_acquire w l) st)))
          + mset [0..<tl_nextWaiter st]
        = mset (lane_wids l) + mset (map fst (tl_grants st)) + mset [0..<tl_nextWaiter (put_lane c (mark_acquire w l) st)]"
        by (simp add: lane_wids_def)
    qed (use inv_retained [OF inv] in
        \<open>simp_all add: mark_acquire_def lane_tickets_def lane_queued_def retained_ok_def\<close>)
    with waiting False inv show ?thesis by (simp add: lanes_join_def Let_def)
  next
    case new
    have absent: "count (lsum lane_tasks (tl_lanes st)) ?tid = 0" by (rule task_absent [OF inv new])
    show ?thesis
    proof (cases "map_of (tl_lanes st) ?conv")
      case None
      let ?l = "\<lparr>ln_holder = Some holder, ln_phase = hold_phase acquire, ln_accepted = 0, ln_queue = [],
        ln_pending = [], ln_drainedIds = [], ln_waiters = [], ln_inputAbort = Suc (tl_nextSignal st)\<rparr>"
      have r: "tl_lanes (snd (lanes_join st holder acquire now)) = AList.update ?conv ?l (tl_lanes st)"
        "open_tickets (snd (lanes_join st holder acquire now)) = lsum lane_tickets (AList.update ?conv ?l (tl_lanes st))
          + mset (map (\<lambda>(host, q). q_ticket q) (tl_retained st))"
        "tl_tickets (snd (lanes_join st holder acquire now)) = tl_tickets st"
        "tl_nextTicket (snd (lanes_join st holder acquire now)) = tl_nextTicket st"
        "tl_grants (snd (lanes_join st holder acquire now)) = tl_grants st"
        "tl_nextWaiter (snd (lanes_join st holder acquire now)) = tl_nextWaiter st"
        "tl_retained (snd (lanes_join st holder acquire now)) = tl_retained st"
        "tl_maxInjectionsPerTurn (snd (lanes_join st holder acquire now)) = tl_maxInjectionsPerTurn st"
        using new False None
        by (simp_all add: lanes_join_def Let_def blankLane_def fresh_signal_def beginHold_def put_lane_def open_tickets_def)
      have lok: "lane_ok (tl_maxInjectionsPerTurn st) ?conv ?l"
        by (simp add: lane_ok_def lane_ids_def lane_queued_def waiters_ok_def hold_phase_def)
      have tasks: "count (lsum lane_tasks (AList.update ?conv ?l (tl_lanes st))) t \<le> 1" for t
        using inv absent by (auto simp: lsum_new [OF None] lane_tasks_def lanes_inv_def)
      show ?thesis
        using inv lok tasks
        by (auto simp: lanes_inv_def r lsum_new [OF None] lane_tickets_def lane_queued_def lane_wids_def
            open_tickets_def retained_ok_def)
    next
      case (Some l)
      note ok = lanes_inv_lane [OF inv Some]
      obtain h where h: "ln_holder l = Some h" "ln_phase l \<noteq> PIdle"
        using ok by (auto simp: lane_ok_def split: option.splits)
      let ?w = "\<lparr>w_id = tl_nextWaiter st, w_holder = holder, w_enqueuedAt = now, w_settled = False,
        w_acquireRequested = acquire\<rparr>"
      let ?l = "l\<lparr>ln_waiters := ln_waiters l @ [?w]\<rparr>"
      have r: "snd (lanes_join st holder acquire now) = put_lane ?conv ?l (st\<lparr>tl_nextWaiter := Suc (tl_nextWaiter st)\<rparr>)"
        using new False Some h by (simp add: lanes_join_def Let_def makeWaiter_def)
      have "lane_ok (tl_maxInjectionsPerTurn st) ?conv ?l"
        by (rule lane_ok_waiters [OF ok]) (use ok in \<open>simp add: lane_ok_def waiters_ok_def\<close>)
      moreover have "count (lsum lane_tasks (tl_lanes st)) t + count (mset (lane_tasks ?l)) t
          \<le> 1 + count (mset (lane_tasks l)) t" for t
        using inv absent by (auto simp: lane_tasks_def lanes_inv_def)
      ultimately show ?thesis
        unfolding r using inv_retained [OF inv]
        by (intro lanes_inv_replace [OF inv Some, where l' = ?l])
           (simp_all add: lane_tickets_def lane_queued_def lane_wids_def retained_ok_def)
    qed
  qed
qed

section \<open>The lanes as a state machine\<close>

lemma remember_frame:
  "\<exists>a b. rememberIntake st i = st\<lparr>tl_settledIntake := a, tl_settledIntakeIds := b\<rparr>"
proof (cases "i \<in> set (tl_settledIntakeIds st)")
  case True
  then show ?thesis
    by (intro exI [of _ "tl_settledIntake st"] exI [of _ "tl_settledIntakeIds st"])
       (simp add: rememberIntake_def)
next
  case False
  then show ?thesis unfolding rememberIntake_def Let_def by (simp only: if_False) blast
qed

lemma inv_intake:
  assumes "lanes_inv st"
  shows "lanes_inv (snd (intakeSettled st i))" "lanes_inv (markIntakeSettled st i)" "lanes_inv (onDrained st)"
proof -
  show "lanes_inv (snd (intakeSettled st i))"
    by (rule lanes_inv_other [OF assms]) (simp_all add: intakeSettled_def Let_def)
  show "lanes_inv (onDrained st)"
    by (rule lanes_inv_other [OF assms]) (simp_all add: onDrained_def)
  obtain a b where "rememberIntake (st\<lparr>tl_intake := AList.delete i (tl_intake st)\<rparr>) i
      = st\<lparr>tl_intake := AList.delete i (tl_intake st), tl_settledIntake := a, tl_settledIntakeIds := b\<rparr>"
    using remember_frame [of "st\<lparr>tl_intake := AList.delete i (tl_intake st)\<rparr>" i] by auto
  then show "lanes_inv (markIntakeSettled st i)"
    by (intro lanes_inv_other [OF assms]) (simp_all add: markIntakeSettled_def Let_def)
qed

lemma inv_new: "new_turn_lanes e m x t = Inr st \<Longrightarrow> lanes_inv st"
  by (auto simp: new_turn_lanes_def lanes_inv_def open_tickets_def retained_ok_def split: jsval.splits if_splits)

lemma lane_step_inv:
  assumes "lanes_inv st"
  shows "lanes_inv (lane_step st op)"
proof (cases op)
  case (LReserve h now)
  with inv_join [OF assms] assms show ?thesis by (simp add: lanes_reserve_def)
next
  case (LAcquire h now)
  with inv_join [OF assms] assms show ?thesis by (simp add: lanes_acquire_def)
qed (use assms inv_inject inv_take inv_confirm inv_close inv_defer inv_release inv_flush inv_cancel
    inv_failOpen inv_intake in simp_all)

interpretation lanes: machine lane_step lanes_inv "\<lambda>st. \<exists>e m x t. new_turn_lanes e m x t = Inr st"
  by unfold_locales (use inv_new lane_step_inv in blast)+

section \<open>Properties\<close>

text \<open>
  C3. The contact boundary of mid-turn injection: whatever a run of the lanes hands to a task's turn
  was queued for the very contact the holder was stamped with. Both sides were resolved, both ids
  are the same UUID, and the follow-up was neither auto-generated nor flagged by the injection
  scanner; in particular nothing is ever injected into a turn whose originator is unresolved.
\<close>

theorem injected_only_from_same_contact:
  assumes "new_turn_lanes e m x t = Inr st0" and "i \<in> set (fst (takeQueued (run_steps lane_step st0 ops) tid))"
  shows "\<exists>c l h s. findHeld (run_steps lane_step st0 ops) tid = Some (c, l) \<and> ln_holder l = Some h
    \<and> lh_taskEventId h = tid \<and> lh_conversationId h = c
    \<and> lh_originatorResolved h \<and> lh_originatorContactId h = Some s \<and> uuid_shape s
    \<and> ii_senderContactId i = JStr s \<and> ii_senderResolved i \<and> \<not> ii_autoGenerated i
    \<and> ii_injectionFindingCount i = JNum (Fin 0)"
proof -
  let ?st = "run_steps lane_step st0 ops"
  have inv: "lanes_inv ?st" using lanes.inv_run [of st0 ops] assms(1) by blast
  from assms(2) obtain c l where f: "findHeld ?st tid = Some (c, l)" and i: "i \<in> q_input ` set (ln_queue l)"
    by (auto simp: takeQueued_def Let_def split: if_splits option.splits prod.splits)
  from held_lane [OF inv f] obtain h where h: "lane_ok (tl_maxInjectionsPerTurn ?st) c l"
    "ln_holder l = Some h" "lh_conversationId h = c" "lh_taskEventId h = tid" by blast
  from i obtain q where q: "q \<in> set (ln_queue l)" "i = q_input q" by blast
  with h have "eligible h i" by (auto simp: lane_ok_def lane_queued_def queue_ok_def list_all_iff)
  then show ?thesis using f h
    by (auto simp: eligible_def isUuid_opt_def split: option.splits jsval.splits)
qed

text \<open>A holder and a follow-up of the same contact, for the witnesses.\<close>

definition demo_uuid :: string where
  "demo_uuid = ''01234567-89ab-cdef-0123-456789abcdef''"

definition demo_holder :: "string \<Rightarrow> lane_holder" where
  "demo_holder tid = \<lparr>lh_taskEventId = tid, lh_conversationId = ''conv'', lh_originatorContactId = Some demo_uuid,
     lh_originatorResolved = True, lh_originatorIsPrincipal = False, lh_liveTurn = True, lh_synthetic = False\<rparr>"

definition demo_input :: raw_input where
  "demo_input = \<lparr>ri_inboundEventId = ''in1'', ri_senderContactId = JStr demo_uuid, ri_senderResolved = JBool True,
     ri_autoGenerated = JBool False, ri_injectionFindingCount = JNum (Fin 0), ri_senderLabel = JUndef,
     ri_channelId = JStr ''email'', ri_liveTurn = JBool True, ri_content = JStr ''hi'',
     ri_originalContent = JStr ''hi'', ri_turnGuidance = JUndef, ri_receivedAt = JStr ''now''\<rparr>"

definition demo_lanes :: turn_lanes where
  "demo_lanes = (case new_turn_lanes (JBool True) (Fin 2) (Fin 1) (Fin 1000) of Inr st \<Rightarrow> st)"

definition demo_state :: turn_lanes where
  "demo_state = run_steps lane_step demo_lanes
     [LReserve (demo_holder ''task1'') 0, LReserve (demo_holder ''task2'') 5, LTryInject ''conv'' demo_input]"

lemma demo_new: "new_turn_lanes (JBool True) (Fin 2) (Fin 1) (Fin 1000) = Inr demo_lanes"
  by (simp add: demo_lanes_def new_turn_lanes_def positive_integer_def)

lemma demo_uuid_shape [simp]: "uuid_shape demo_uuid"
  by (simp add: demo_uuid_def uuid_shape_def is_hex_def)

lemmas demo_eval = demo_lanes_def new_turn_lanes_def positive_integer_def nat_of_num_def demo_holder_def
  demo_input_def lanes_reserve_def lanes_join_def copyHolder_def findHeld_def findWaiting_def holds_def
  blankLane_def fresh_signal_def beginHold_def put_lane_def hold_phase_def makeWaiter_def tryInject_def
  lanes_enqueue_def copyInput_def findQueued_def eligible_def isUuid_opt_def makeQueued_def abortInput_def
  lane_waiter_def Let_def IMMEDIATE_def

theorem injected_only_from_same_contact_witness:
  "\<exists>i. i \<in> set (fst (takeQueued demo_state ''task1'')) \<and> ii_senderResolved i
     \<and> ii_senderContactId i = JStr demo_uuid"
proof -
  have "copyInput demo_input \<in> set (fst (takeQueued demo_state ''task1''))"
    by (simp add: demo_state_def takeQueued_def demo_eval)
  from injected_only_from_same_contact [OF demo_new this [unfolded demo_state_def]] this
  show ?thesis by (auto simp: copyInput_def demo_input_def)
qed

text \<open>
  C30. No promise is lost and none settles twice: after any run, every ticket ever issued is either open
  in exactly one place (queued or taken on one lane, or retained for the audit retry) or settled
  exactly once; and every waiter is either waiting on exactly one lane or has had its grant
  resolved exactly once (granted, timed out or cancelled).
\<close>

theorem promises_settle_once:
  assumes "new_turn_lanes e m x t = Inr st0" and "st = run_steps lane_step st0 ops"
  shows "count (open_tickets st) n + count (mset (map fst (tl_tickets st))) n
       = (if n < tl_nextTicket st then 1 else 0)
     \<and> count (lsum lane_wids (tl_lanes st)) n + count (mset (map fst (tl_grants st))) n
       = (if n < tl_nextWaiter st then 1 else 0)"
proof -
  have inv: "lanes_inv st" using lanes.inv_run [of st0 ops] assms by blast
  have "count (open_tickets st + mset (map fst (tl_tickets st))) n = count (mset [0..<tl_nextTicket st]) n"
    "count (lsum lane_wids (tl_lanes st) + mset (map fst (tl_grants st))) n = count (mset [0..<tl_nextWaiter st]) n"
    using inv unfolding lanes_inv_def by metis+
  then show ?thesis by (simp add: count_mset_set')
qed

theorem promises_settle_once_witness:
  "count (open_tickets demo_state) 0 + count (mset (map fst (tl_tickets demo_state))) 0 = 1"
proof -
  have "tl_nextTicket demo_state = 1" by (simp add: demo_state_def demo_eval)
  with promises_settle_once [OF demo_new demo_state_def, of 0] show ?thesis by simp
qed

text \<open>
  One place per task and a bounded hold: after any run, a task occurs at most once among all
  holders and waiters of all lanes, every lane in the map has a holder whose conversation is the
  lane's, and the follow-ups accepted onto one hold (queued, taken or drained) are distinct inbound
  messages and never more than the configured maximum.
\<close>

theorem one_place_and_cap:
  assumes "new_turn_lanes e m x t = Inr st0" and "st = run_steps lane_step st0 ops"
    and "map_of (tl_lanes st) c = Some l"
  shows "distinct (lane_tasks l)
    \<and> (\<exists>h. ln_holder l = Some h \<and> lh_conversationId h = c)
    \<and> distinct (lane_ids l) \<and> length (lane_ids l) \<le> tl_maxInjectionsPerTurn st
    \<and> count (lsum lane_tasks (AList.delete c (tl_lanes st))) tid + count (mset (lane_tasks l)) tid \<le> 1"
proof -
  have inv: "lanes_inv st" using lanes.inv_run [of st0 ops] assms by blast
  note ok = lanes_inv_lane [OF inv assms(3)]
  have owf: "owf (tl_lanes st)" and le: "\<And>t. count (lsum lane_tasks (tl_lanes st)) t \<le> 1"
    using inv by (simp_all add: lanes_inv_def)
  have "count (mset (lane_tasks l)) t \<le> 1" for t
    using le [of t] mset_subset_eq_count [OF lsum_mem [OF assms(3), of lane_tasks], of t] by linarith
  then have "distinct (lane_tasks l)"
    by (metis distinct_count_atmost_1 count_mset_0_iff less_Suc0 le_less One_nat_def)
  moreover have "count (lsum lane_tasks (AList.delete c (tl_lanes st))) tid + count (mset (lane_tasks l)) tid
      = count (lsum lane_tasks (tl_lanes st)) tid"
    using arg_cong [OF lsum_delete [OF owf assms(3), of lane_tasks], of "\<lambda>m. count m tid"] by simp
  ultimately show ?thesis using ok lane_ok_holder [OF ok] le [of tid] by (simp add: lane_ok_def)
qed

theorem one_place_and_cap_witness:
  "\<exists>l. map_of (tl_lanes demo_state) ''conv'' = Some l \<and> length (lane_ids l) = 1 \<and> distinct (lane_tasks l)"
proof -
  obtain l where l: "map_of (tl_lanes demo_state) ''conv'' = Some l" and n: "length (lane_ids l) = 1"
    by (simp add: demo_state_def demo_eval lane_ids_def)
  from one_place_and_cap [OF demo_new demo_state_def l] l n show ?thesis by blast
qed

text \<open>
  Releasing hands the lane to the longest waiter and to nobody else: the first waiter becomes the
  holder, the rest keep their order, its grant is the only one resolved, the other lanes are
  untouched; with no waiter the lane disappears. A task that holds no lane (one whose wait timed
  out included) can release, drain and close nothing.
\<close>

theorem release_is_fifo:
  assumes "new_turn_lanes e m x t = Inr st0" and "st = run_steps lane_step st0 ops" and "tl_enabled st"
  shows "case findHeld st tid of
      None \<Rightarrow> lanes_release st tid now = st \<and> takeQueued st tid = ([], st)
        \<and> confirmDrained st tid ids = st \<and> closeIfIdle st tid = (True, st)
    | Some (c, l) \<Rightarrow>
        (\<forall>c'. c' \<noteq> c \<longrightarrow> map_of (tl_lanes (lanes_release st tid now)) c' = map_of (tl_lanes st) c')
        \<and> (case ln_waiters l of
             [] \<Rightarrow> map_of (tl_lanes (lanes_release st tid now)) c = None
               \<and> tl_grants (lanes_release st tid now) = tl_grants st
           | w # ws \<Rightarrow>
               map_option ln_waiters (map_of (tl_lanes (lanes_release st tid now)) c) = Some ws
               \<and> map_option ln_holder (map_of (tl_lanes (lanes_release st tid now)) c) = Some (Some (w_holder w))
               \<and> tl_grants (lanes_release st tid now)
                 = tl_grants st @ [(w_id w, \<lparr>lg_waitedMs = now - w_enqueuedAt w, lg_timedOut = False\<rparr>)])"
proof (cases "findHeld st tid")
  case None
  then show ?thesis by (simp add: lanes_release_def takeQueued_def confirmDrained_def closeIfIdle_def)
next
  case (Some p)
  then obtain c l where f: "findHeld st tid = Some (c, l)" by (cases p) simp
  have inv: "lanes_inv st" using lanes.inv_run [of st0 ops] assms by blast
  from held_lane [OF inv f] obtain h where ok: "lane_ok (tl_maxInjectionsPerTurn st) c l"
    and h: "ln_holder l = Some h" by blast
  have qs: "list_all (queue_ok h) (ln_queue l @ map snd (ln_pending l))"
    using ok h by (simp add: lane_ok_def lane_queued_def)
  obtain s1 where s1_def: "fold (end_undrained tid) (ln_queue l @ map snd (ln_pending l)) st = s1" by blast
  from end_undrained_fold [OF qs inv_retained [OF inv], of tid] obtain log kept where
    "s1 = st\<lparr>tl_tickets := tl_tickets st @ log, tl_retained := tl_retained st @ kept\<rparr>"
    unfolding s1_def by auto
  then have s1: "tl_lanes s1 = tl_lanes st" "tl_grants s1 = tl_grants st" by simp_all
  show ?thesis
  proof (cases "ln_waiters l")
    case Nil
    then show ?thesis
      using f assms(3) s1_def s1
      by (simp add: lanes_release_def fresh_signal_def Let_def drop_lane_def del: fold_append)
  next
    case (Cons w ws)
    then have "\<not> w_settled w" using ok by (simp add: lane_ok_def waiters_ok_def)
    then show ?thesis
      using f assms(3) s1_def s1 Cons
      by (simp add: lanes_release_def fresh_signal_def Let_def beginHold_def resolve_grant_def copyHolder_def
          del: fold_append)
  qed
qed

theorem release_is_fifo_witness:
  "map_option ln_holder (map_of (tl_lanes (lanes_release demo_state ''task1'' 9)) ''conv'')
   = Some (Some (demo_holder ''task2''))"
proof -
  obtain l where f: "findHeld demo_state ''task1'' = Some (''conv'', l)"
    and w: "ln_waiters l = [\<lparr>w_id = 0, w_holder = demo_holder ''task2'', w_enqueuedAt = 5, w_settled = False,
      w_acquireRequested = False\<rparr>]"
    by (simp add: demo_state_def demo_eval)
  have "tl_enabled demo_state" by (simp add: demo_state_def demo_eval)
  from release_is_fifo [OF demo_new demo_state_def this, of "''task1''" 9 "[]"] f w show ?thesis by simp
qed

text \<open>A turn that has closed: it holds the lane of a conversation, and nothing is queued on it.\<close>

definition closed_lane :: "string \<Rightarrow> lane \<Rightarrow> bool" where
  "closed_lane tid l \<longleftrightarrow> holds tid l \<and> ln_phase l = PClosing \<and> ln_queue l = []"

definition closed_on :: "string \<Rightarrow> string \<Rightarrow> turn_lanes \<Rightarrow> bool" where
  "closed_on tid c st \<longleftrightarrow> (\<exists>l. map_of (tl_lanes st) c = Some l \<and> closed_lane tid l)"

lemma closed_onI: "map_of (tl_lanes st) c = Some l \<Longrightarrow> closed_lane tid l \<Longrightarrow> closed_on tid c st"
  by (auto simp: closed_on_def)

lemma closed_put:
  "closed_on tid c st \<Longrightarrow> tl_lanes st' = AList.update c' l' (tl_lanes st) \<Longrightarrow> (c' = c \<Longrightarrow> closed_lane tid l')
   \<Longrightarrow> closed_on tid c st'"
  by (cases "c' = c") (auto simp: closed_on_def)

lemma closed_frame:
  "closed_lane tid l \<Longrightarrow> ln_holder l' = ln_holder l \<Longrightarrow> ln_phase l' = ln_phase l \<Longrightarrow> ln_queue l' = ln_queue l
   \<Longrightarrow> closed_lane tid l'"
  by (simp add: closed_lane_def holds_def)

lemma confirm_loop_closed:
  assumes "ln_queue l = []" "confirm_loop tid ids (l, st, d) = (l', st', d')"
  shows "ln_queue l' = [] \<and> ln_phase l' = ln_phase l \<and> ln_holder l' = ln_holder l \<and> tl_lanes st' = tl_lanes st"
  using assms
proof (induction ids arbitrary: l st d)
  case (Cons i ids)
  obtain r l1 where t: "takePending l i = (r, l1)" by fastforce
  have l1: "ln_queue l1 = []" "ln_phase l1 = ln_phase l" "ln_holder l1 = ln_holder l"
    using t Cons.prems(1) by (auto simp: takePending_def extract_Nil_code split: option.splits prod.splits)
  then show ?case
    using Cons.IH [of l1 st d] Cons.IH [of "l1\<lparr>ln_drainedIds := x\<rparr>" "resolve_ticket q (Drained tid) st" y for x q y]
      Cons.prems(2) t
    by (auto simp: resolve_ticket_def split: option.splits if_splits)
qed simp

lemma closed_waiters:
  assumes inv: "lanes_inv st" and cl: "closed_on tid c st" and m: "map_of (tl_lanes st) c' = Some l"
    and st': "st' = resolve_grant w True now (put_lane c' (l\<lparr>ln_waiters := ws\<rparr>) st)"
  shows "closed_on tid c (if ln_holder (l\<lparr>ln_waiters := ws\<rparr>) = None \<and> ws = [] then drop_lane c' st' else st')"
proof -
  obtain h where "ln_holder l = Some h" using lane_ok_holder [OF lanes_inv_lane [OF inv m]] by blast
  then show ?thesis
    using cl m by (auto simp: st' resolve_grant_def closed_on_def closed_lane_def holds_def)
qed

lemma closed_join:
  assumes inv: "lanes_inv st" and cl: "closed_on tid c st"
  shows "closed_on tid c (snd (lanes_join st holder acquire now))"
proof (cases "lh_taskEventId holder = [] \<or> lh_conversationId holder = []")
  case True
  with cl show ?thesis by (auto simp: lanes_join_def copyHolder_def Let_def)
next
  case False
  let ?tid = "lh_taskEventId holder" and ?conv = "lh_conversationId holder"
  have hc [simp]: "copyHolder x = x" for x by (simp add: copyHolder_def)
  obtain l where l: "map_of (tl_lanes st) c = Some l" "closed_lane tid l" using cl by (auto simp: closed_on_def)
  show ?thesis
  proof (cases "findHeld st ?tid")
    case (Some p)
    then obtain c' l' where f: "findHeld st ?tid = Some (c', l')" by (cases p) simp
    from held_lane [OF inv f] have m: "map_of (tl_lanes st) c' = Some l'" by blast
    have "closed_on tid c (put_lane c' (l'\<lparr>ln_phase := PRunning\<rparr>) st)" if "ln_phase l' = PReserved"
      by (rule closed_put [OF cl put_lane_fields(1)]) (use l m that in \<open>auto simp: closed_lane_def\<close>)
    with f False cl show ?thesis by (simp add: lanes_join_def Let_def)
  next
    case None
    note held = None
    show ?thesis
    proof (cases "findWaiting st ?tid")
      case (Some p)
      then obtain c' l' w where f: "findWaiting st ?tid = Some (c', l', w)" by (cases p) auto
      then have m: "map_of (tl_lanes st) c' = Some l'"
        using findWaiting_Some [of st ?tid c' l' w] inv by (simp add: lanes_inv_def)
      have "closed_on tid c (put_lane c' (mark_acquire w l') st)"
        by (rule closed_put [OF cl put_lane_fields(1)])
           (use l m in \<open>auto intro!: closed_frame [of tid l] simp: mark_acquire_def\<close>)
      with f held False cl show ?thesis by (simp add: lanes_join_def Let_def)
    next
      case None
      show ?thesis
      proof (cases "map_of (tl_lanes st) ?conv")
        case None
        then have "?conv \<noteq> c" using l by auto
        with None held \<open>findWaiting st ?tid = None\<close> False cl show ?thesis
          by (auto simp: lanes_join_def Let_def blankLane_def fresh_signal_def beginHold_def put_lane_def closed_on_def)
      next
        case (Some l')
        obtain h where "ln_holder l' = Some h" "ln_phase l' \<noteq> PIdle"
          using lanes_inv_lane [OF inv Some] by (auto simp: lane_ok_def split: option.splits)
        with Some held \<open>findWaiting st ?tid = None\<close> False cl show ?thesis
          by (auto simp: lanes_join_def Let_def makeWaiter_def closed_on_def closed_lane_def holds_def)
      qed
    qed
  qed
qed

lemma closed_release:
  assumes inv: "lanes_inv st" and cl: "closed_on tid c st" and ne: "tid' \<noteq> tid"
  shows "closed_on tid c (lanes_release st tid' now)"
proof (cases "tl_enabled st \<and> findHeld st tid' \<noteq> None")
  case False
  with cl show ?thesis by (cases "findHeld st tid'") (simp_all add: lanes_release_def)
next
  case True
  then obtain c' l' where f: "findHeld st tid' = Some (c', l')" by auto
  from held_lane [OF inv f] obtain h where m: "map_of (tl_lanes st) c' = Some l'"
    and ok: "lane_ok (tl_maxInjectionsPerTurn st) c' l'" and h: "ln_holder l' = Some h" "lh_taskEventId h = tid'" by blast
  have "c' \<noteq> c" using cl m h ne by (auto simp: closed_on_def closed_lane_def holds_def)
  have qs: "list_all (queue_ok h) (ln_queue l' @ map snd (ln_pending l'))"
    using ok h by (simp add: lane_ok_def lane_queued_def)
  obtain s1 where s1_def: "fold (end_undrained tid') (ln_queue l' @ map snd (ln_pending l')) st = s1" by blast
  from end_undrained_fold [OF qs inv_retained [OF inv], of tid'] obtain log kept where
    "s1 = st\<lparr>tl_tickets := tl_tickets st @ log, tl_retained := tl_retained st @ kept\<rparr>"
    unfolding s1_def by auto
  then have s1: "tl_lanes s1 = tl_lanes st" by simp
  have g: "tl_lanes (snd (grantNext l0 ws now s)) = tl_lanes s" for l0 ws s
    by (induction l0 ws now s rule: grantNext.induct) (auto simp: resolve_grant_def beginHold_def fresh_signal_def)
  obtain l0 where "lanes_release st tid' now = (case grantNext l0 (ln_waiters l') now (s1\<lparr>tl_nextSignal := Suc (tl_nextSignal s1)\<rparr>) of
      (l', st3) \<Rightarrow> if ln_holder l' = None \<and> ln_waiters l' = [] then drop_lane c' st3 else put_lane c' l' st3)"
    using True f s1_def by (simp add: lanes_release_def fresh_signal_def Let_def del: fold_append)
  moreover obtain l2 s3 where gr: "grantNext l0 (ln_waiters l') now (s1\<lparr>tl_nextSignal := Suc (tl_nextSignal s1)\<rparr>) = (l2, s3)"
    by fastforce
  moreover have "tl_lanes s3 = tl_lanes st" using g [of l0 "ln_waiters l'" "s1\<lparr>tl_nextSignal := Suc (tl_nextSignal s1)\<rparr>"]
    by (simp add: gr s1)
  ultimately show ?thesis
    using cl \<open>c' \<noteq> c\<close> by (auto simp: closed_on_def drop_lane_def)
qed

lemma closed_step:
  assumes inv: "lanes_inv st" and cl: "closed_on tid c st" and ne: "\<forall>now. op \<noteq> LRelease tid now"
  shows "closed_on tid c (lane_step st op)"
proof (cases op)
  case (LReserve h now)
  with closed_join [OF inv cl] cl show ?thesis by (simp add: lanes_reserve_def)
next
  case (LAcquire h now)
  with closed_join [OF inv cl] cl show ?thesis by (simp add: lanes_acquire_def)
next
  case (LTryInject conv raw)
  show ?thesis
  proof (cases "conv = c")
    case True
    then have "snd (tryInject st conv raw) = st"
      using cl by (auto simp: closed_on_def closed_lane_def holds_def tryInject_def lanes_enqueue_def Let_def
          split: option.splits)
    with LTryInject cl show ?thesis by simp
  next
    case False
    with LTryInject cl show ?thesis
      by (auto simp: closed_on_def tryInject_def lanes_enqueue_def Let_def makeQueued_def abortInput_def
          split: option.splits)
  qed
next
  case (LTake tid')
  have "closed_on tid c (snd (takeQueued st tid'))"
  proof (cases "findHeld st tid'")
    case None
    with cl show ?thesis by (simp add: takeQueued_def)
  next
    case (Some p)
    then obtain c' l' where f: "findHeld st tid' = Some (c', l')" by (cases p) simp
    from held_lane [OF inv f] have m: "map_of (tl_lanes st) c' = Some l'" by blast
    with f cl show ?thesis
      by (auto simp: takeQueued_def Let_def fresh_signal_def closed_on_def closed_lane_def holds_def)
  qed
  with LTake show ?thesis by simp
next
  case (LConfirm tid' ids)
  have "closed_on tid c (confirmDrained st tid' ids)"
  proof (cases "findHeld st tid'")
    case None
    with cl show ?thesis by (simp add: confirmDrained_def)
  next
    case (Some p)
    then obtain c' l' where f: "findHeld st tid' = Some (c', l')" by (cases p) simp
    from held_lane [OF inv f] have m: "map_of (tl_lanes st) c' = Some l'"
      and ok: "lane_ok (tl_maxInjectionsPerTurn st) c' l'" by blast+
    obtain l2 s2 d where r: "confirm_loop tid' ids (l', st, []) = (l2, s2, d)" by (metis prod_cases3)
    from confirm_loop_ok [OF ok r] obtain log where s2: "s2 = st\<lparr>tl_tickets := tl_tickets st @ log\<rparr>" by blast
    have "closed_lane tid l2" if "c' = c"
      using cl that m confirm_loop_closed [OF _ r] by (auto simp: closed_on_def closed_lane_def holds_def)
    with f r s2 cl show ?thesis
      by (auto simp: confirmDrained_def intro: closed_put)
  qed
  with LConfirm show ?thesis by simp
next
  case (LCloseIfIdle tid')
  have "closed_on tid c (snd (closeIfIdle st tid'))"
  proof (cases "findHeld st tid'")
    case None
    with cl show ?thesis by (simp add: closeIfIdle_def)
  next
    case (Some p)
    then obtain c' l' where f: "findHeld st tid' = Some (c', l')" by (cases p) simp
    from held_lane [OF inv f] have "map_of (tl_lanes st) c' = Some l'" by blast
    with f cl show ?thesis by (auto simp: closeIfIdle_def closed_on_def closed_lane_def holds_def)
  qed
  with LCloseIfIdle show ?thesis by simp
next
  case (LDeferAudit tid' i a)
  have "closed_on tid c (deferAudit st tid' i a)"
  proof (cases "findHeld st tid'")
    case None
    with cl show ?thesis by (simp add: deferAudit_def)
  next
    case (Some p)
    then obtain c' l' where f: "findHeld st tid' = Some (c', l')" by (cases p) simp
    from held_lane [OF inv f] have "map_of (tl_lanes st) c' = Some l'" by blast
    with f cl show ?thesis
      by (auto simp: deferAudit_def closed_on_def closed_lane_def holds_def split: option.splits)
  qed
  with LDeferAudit show ?thesis by simp
next
  case (LRelease tid' now)
  with ne closed_release [OF inv cl, of tid' now] show ?thesis by auto
next
  case (LFlush publish)
  have "tl_lanes (flush_batch publish b s) = tl_lanes s" for b s
    by (induction publish b s rule: flush_batch.induct) (auto simp: resolve_ticket_def split: option.splits)
  with LFlush cl show ?thesis by (simp add: flushRetained_def closed_on_def)
next
  case (LCancel tid' now)
  have "closed_on tid c (cancelReservation st tid' now)"
  proof (cases "findWaiting st tid'")
    case None
    with cl show ?thesis by (simp add: cancelReservation_def)
  next
    case (Some p)
    then obtain c' l' w where f: "findWaiting st tid' = Some (c', l', w)" by (cases p) auto
    then have m: "map_of (tl_lanes st) c' = Some l'"
      using findWaiting_Some [of st tid' c' l' w] inv by (simp add: lanes_inv_def)
    from f cl closed_waiters [OF inv cl m refl, where w = w and now = now] show ?thesis
      by (simp add: cancelReservation_def Let_def)
  qed
  with LCancel show ?thesis by simp
next
  case (LFailOpen conv wid now)
  have "closed_on tid c (failOpen st conv wid now)"
  proof (cases "failOpen st conv wid now = st")
    case False
    then obtain l w where m: "map_of (tl_lanes st) conv = Some l"
      and f: "find (\<lambda>w. w_id w = wid) (ln_waiters l) = Some w" "\<not> w_settled w"
      by (auto simp: failOpen_def split: option.splits if_splits)
    from m f closed_waiters [OF inv cl m refl, where w = w and now = now] show ?thesis
      by (simp add: failOpen_def Let_def)
  qed (use cl in simp)
  with LFailOpen show ?thesis by simp
next
  case (LMarkIntake i)
  obtain a b where "rememberIntake (st\<lparr>tl_intake := AList.delete i (tl_intake st)\<rparr>) i
      = st\<lparr>tl_intake := AList.delete i (tl_intake st), tl_settledIntake := a, tl_settledIntakeIds := b\<rparr>"
    using remember_frame [of "st\<lparr>tl_intake := AList.delete i (tl_intake st)\<rparr>" i] by auto
  with LMarkIntake cl show ?thesis by (simp add: markIntakeSettled_def Let_def closed_on_def)
qed (use cl in \<open>simp_all add: intakeSettled_def onDrained_def closed_on_def Let_def\<close>)

text \<open>
  No follow-up is stranded in a turn that has closed: once \<open>closeIfIdle\<close> answered a lane's holder
  that there is nothing left, then until that task releases the lane nothing is ever queued for it
  again, whatever else arrives or ends in between. A follow-up that arrives meanwhile is told so
  and becomes a task of its own.
\<close>

theorem closed_turn_takes_no_more:
  assumes "new_turn_lanes e m x t = Inr st0" and "st = run_steps lane_step st0 before"
    and "tl_enabled st" and "findHeld st tid = Some (c, l)" and "fst (closeIfIdle st tid)"
    and "\<forall>op \<in> set after. \<forall>now. op \<noteq> LRelease tid now"
  shows "fst (takeQueued (run_steps lane_step (snd (closeIfIdle st tid)) after) tid) = []
    \<and> closed_on tid c (run_steps lane_step (snd (closeIfIdle st tid)) after)"
proof -
  have inv: "lanes_inv st" using lanes.inv_run [of st0 before] assms(1,2) by blast
  from held_lane [OF inv assms(4)] obtain h where m: "map_of (tl_lanes st) c = Some l"
    and h: "ln_holder l = Some h" "lh_taskEventId h = tid" by blast
  have cl: "closed_on tid c (snd (closeIfIdle st tid))"
    using assms(3-5) m h by (auto simp: closeIfIdle_def closed_on_def closed_lane_def holds_def split: if_splits)
  have run: "closed_on tid c (run_steps lane_step s ops) \<and> lanes_inv (run_steps lane_step s ops)"
    if "lanes_inv s" "closed_on tid c s" "\<forall>op \<in> set ops. \<forall>now. op \<noteq> LRelease tid now" for s ops
    using that
  proof (induction ops arbitrary: s)
    case (Cons op ops)
    then have "lanes_inv (lane_step s op)" "closed_on tid c (lane_step s op)"
      using lane_step_inv closed_step [of s tid c op] by auto
    with Cons show ?case by simp
  qed simp
  let ?st = "run_steps lane_step (snd (closeIfIdle st tid)) after"
  from run [OF inv_close [OF inv, of tid] cl assms(6)] have c: "closed_on tid c ?st" and i: "lanes_inv ?st" by auto
  have "fst (takeQueued ?st tid) = []"
  proof (cases "findHeld ?st tid")
    case (Some p)
    then obtain c' l' where f: "findHeld ?st tid = Some (c', l')" by (cases p) simp
    from held_lane [OF i f] obtain h' where m': "map_of (tl_lanes ?st) c' = Some l'"
      and h': "ln_holder l' = Some h'" "lh_taskEventId h' = tid" by blast
    obtain l2 where l2: "map_of (tl_lanes ?st) c = Some l2" "holds tid l2" "ln_queue l2 = []"
      using c by (auto simp: closed_on_def closed_lane_def)
    have "c' = c"
    proof (rule ccontr)
      assume "c' \<noteq> c"
      have le: "count (lsum lane_tasks (tl_lanes ?st)) tid \<le> 1" using i by (simp add: lanes_inv_def)
      have owf: "owf (tl_lanes ?st)" using i by (simp add: lanes_inv_def)
      have "map_of (AList.delete c (tl_lanes ?st)) c' = Some l'" using m' \<open>c' \<noteq> c\<close> by simp
      then have "count (mset (lane_tasks l')) tid \<le> count (lsum lane_tasks (AList.delete c (tl_lanes ?st))) tid"
        by (intro mset_subset_eq_count lsum_mem)
      moreover have "count (lsum lane_tasks (AList.delete c (tl_lanes ?st))) tid + count (mset (lane_tasks l2)) tid
          = count (lsum lane_tasks (tl_lanes ?st)) tid"
        using arg_cong [OF lsum_delete [OF owf l2(1), of lane_tasks], of "\<lambda>m. count m tid"] by simp
      moreover have "count (mset (lane_tasks l')) tid \<ge> 1" "count (mset (lane_tasks l2)) tid \<ge> 1"
        using h' l2(2) by (auto simp: lane_tasks_def holds_def split: option.splits)
      ultimately show False using le by linarith
    qed
    with m' l2 have "ln_queue l' = []" by simp
    with f show ?thesis by (simp add: takeQueued_def Let_def)
  qed (simp add: takeQueued_def)
  with c show ?thesis by blast
qed

theorem closed_turn_takes_no_more_witness:
  "closed_on ''task1'' ''conv'' (run_steps lane_step
      (snd (closeIfIdle (run_steps lane_step demo_lanes [LReserve (demo_holder ''task1'') 0]) ''task1''))
      [LTryInject ''conv'' demo_input, LReserve (demo_holder ''task2'') 5])"
proof -
  let ?st = "run_steps lane_step demo_lanes [LReserve (demo_holder ''task1'') 0]"
  obtain l where f: "tl_enabled ?st" "findHeld ?st ''task1'' = Some (''conv'', l)" "fst (closeIfIdle ?st ''task1'')"
    by (simp add: demo_eval closeIfIdle_def)
  from closed_turn_takes_no_more [OF demo_new refl f,
      of "[LTryInject ''conv'' demo_input, LReserve (demo_holder ''task2'') 5]"]
  show ?thesis by simp
qed

text \<open>
  One message, one ticket: a second call with the same inbound id gets the ticket the first one
  got, whatever sender, flags or text the second payload carries, and changes nothing, so it cannot
  retarget a follow-up that was already checked.
\<close>

theorem inject_is_idempotent:
  assumes "new_turn_lanes e m x t = Inr st0" and "st = run_steps lane_step st0 ops"
    and "tryInject st conv r = (QueuedAs (Ticket n), st')" and "ri_inboundEventId r' = ri_inboundEventId r"
  shows "tryInject st' conv r' = (QueuedAs (Ticket n), st')"
proof -
  let ?i = "ri_inboundEventId r"
  have inv: "lanes_inv st" using lanes.inv_run [of st0 ops] assms(1,2) by blast
  have en: "tl_enabled st" using assms(3) by (auto simp: tryInject_def split: if_splits)
  from assms(3) en obtain l h where m: "map_of (tl_lanes st) conv = Some l" and h: "ln_holder l = Some h"
    and p: "ln_phase l \<noteq> PIdle"
    by (auto simp: tryInject_def lanes_enqueue_def Let_def split: option.splits if_splits)
  note ok = lanes_inv_lane [OF inv m]
  have ids: "ii_inboundEventId (copyInput r) = ?i" "ii_inboundEventId (copyInput r') = ?i"
    using assms(4) by (simp_all add: copyInput_def)
  show ?thesis
  proof (cases "findQueued l ?i")
    case (Some q)
    with assms(3) en m h p ids show ?thesis
      by (simp add: tryInject_def lanes_enqueue_def Let_def)
  next
    case None
    define q where "q = \<lparr>q_input = copyInput r, q_ticket = tl_nextTicket st, q_settled = False,
      q_persisted = False, q_audit = None\<rparr>"
    let ?l = "l\<lparr>ln_queue := ln_queue l @ [q], ln_accepted := Suc (ln_accepted l)\<rparr>"
    have st': "st' = abortInput ?l (put_lane conv ?l (st\<lparr>tl_nextTicket := Suc (tl_nextTicket st)\<rparr>))"
      and n: "n = tl_nextTicket st"
      using assms(3) en m h p ids None
      by (auto simp: tryInject_def lanes_enqueue_def Let_def makeQueued_def q_def split: if_splits)
    have "find (\<lambda>q. iid q = ?i) (ln_queue l) = None" using None by (auto simp: findQueued_def split: option.splits)
    moreover have "find (\<lambda>q. iid q = ?i) xs = None \<Longrightarrow> find (\<lambda>q. iid q = ?i) (xs @ [q]) = Some q" for xs
      by (induction xs) (auto simp: q_def ids split: if_splits)
    ultimately have "find (\<lambda>q. iid q = ?i) (ln_queue l @ [q]) = Some q" by blast
    then have "findQueued ?l ?i = Some q" by (simp add: findQueued_def)
    then show ?thesis
      using en h p ids by (simp add: st' n tryInject_def lanes_enqueue_def Let_def abortInput_def q_def)
  qed
qed

theorem inject_is_idempotent_witness:
  "\<exists>st'. tryInject (run_steps lane_step demo_lanes [LReserve (demo_holder ''task1'') 0]) ''conv'' demo_input
      = (QueuedAs (Ticket 0), st')
    \<and> tryInject st' ''conv'' (demo_input\<lparr>ri_senderContactId := JStr ''attacker''\<rparr>) = (QueuedAs (Ticket 0), st')"
proof -
  obtain st' where t: "tryInject (run_steps lane_step demo_lanes [LReserve (demo_holder ''task1'') 0]) ''conv'' demo_input
      = (QueuedAs (Ticket 0), st')"
    by (simp add: demo_eval)
  from inject_is_idempotent [OF demo_new refl t, of "demo_input\<lparr>ri_senderContactId := JStr ''attacker''\<rparr>"] t
  show ?thesis by auto
qed

text \<open>
  A missing admission does not fail closed for the auto-generated flag: the copy taken before the
  check coerces every value but \<open>true\<close> to \<open>false\<close>, so \<open>undefined\<close> (or any mistyped value) is
  treated exactly like an explicit "not auto-generated". For the resolved flag and the finding
  count the promise of the file's header does hold: a missing value is never queued.
\<close>

theorem missing_admission:
  assumes "v \<noteq> JBool True"
  shows "tryInject st conv (r\<lparr>ri_autoGenerated := v\<rparr>) = tryInject st conv (r\<lparr>ri_autoGenerated := JBool False\<rparr>)
    \<and> \<not> eligible h (copyInput (r\<lparr>ri_senderResolved := v\<rparr>))
    \<and> \<not> eligible h (copyInput (r\<lparr>ri_injectionFindingCount := JUndef\<rparr>))"
proof -
  have "copyInput (r\<lparr>ri_autoGenerated := v\<rparr>) = copyInput (r\<lparr>ri_autoGenerated := JBool False\<rparr>)"
    using assms by (simp add: copyInput_def)
  then have "tryInject st conv (r\<lparr>ri_autoGenerated := v\<rparr>) = tryInject st conv (r\<lparr>ri_autoGenerated := JBool False\<rparr>)"
    by (simp add: tryInject_def lanes_enqueue_def)
  moreover have "\<not> eligible h (copyInput (r\<lparr>ri_senderResolved := v\<rparr>))"
    "\<not> eligible h (copyInput (r\<lparr>ri_injectionFindingCount := JUndef\<rparr>))"
    using assms by (simp_all add: eligible_def copyInput_def)
  ultimately show ?thesis by blast
qed

theorem missing_admission_witness:
  "fst (tryInject (run_steps lane_step demo_lanes [LReserve (demo_holder ''task1'') 0]) ''conv''
      (demo_input\<lparr>ri_autoGenerated := JUndef\<rparr>)) = QueuedAs (Ticket 0)"
proof -
  let ?st = "run_steps lane_step demo_lanes [LReserve (demo_holder ''task1'') 0]"
  have "fst (tryInject ?st ''conv'' (demo_input\<lparr>ri_autoGenerated := JBool False\<rparr>)) = QueuedAs (Ticket 0)"
    by (simp add: demo_eval)
  with missing_admission [of JUndef ?st "''conv''" demo_input] show ?thesis by simp
qed

text \<open>
  Impatience never steals a turn: a waiter whose timer fires, or whose reservation is cancelled,
  leaves with a grant marked as timed out, and no lane gets another holder, phase or queue by it;
  what it leaves behind is the same lanes with that waiter gone.
\<close>

theorem timeout_never_takes_the_lane:
  assumes "new_turn_lanes e m x t = Inr st0" and "st = run_steps lane_step st0 ops"
    and "st' = failOpen st conv wid now \<or> st' = cancelReservation st tid now"
  shows "map_option (\<lambda>l. (ln_holder l, ln_phase l, ln_queue l, ln_pending l)) (map_of (tl_lanes st') c)
      = map_option (\<lambda>l. (ln_holder l, ln_phase l, ln_queue l, ln_pending l)) (map_of (tl_lanes st) c)
    \<and> (st' = st \<or> (\<exists>w ms. tl_grants st' = tl_grants st @ [(w, \<lparr>lg_waitedMs = ms, lg_timedOut = True\<rparr>)]))"
proof -
  have inv: "lanes_inv st" using lanes.inv_run [of st0 ops] assms(1,2) by blast
  have gone: "?thesis" if m: "map_of (tl_lanes st) c' = Some l"
    and s: "st' = (if ln_holder (l\<lparr>ln_waiters := ws\<rparr>) = None \<and> ws = []
       then drop_lane c' (resolve_grant w True now (put_lane c' (l\<lparr>ln_waiters := ws\<rparr>) st))
       else resolve_grant w True now (put_lane c' (l\<lparr>ln_waiters := ws\<rparr>) st))" for c' l ws w
  proof -
    obtain h where "ln_holder l = Some h" using lane_ok_holder [OF lanes_inv_lane [OF inv m]] by blast
    then show ?thesis using m s by (auto simp: resolve_grant_def)
  qed
  from assms(3) show ?thesis
  proof
    assume s: "st' = failOpen st conv wid now"
    show ?thesis
    proof (cases "failOpen st conv wid now = st")
      case False
      then obtain l w where m: "map_of (tl_lanes st) conv = Some l"
        and f: "find (\<lambda>w. w_id w = wid) (ln_waiters l) = Some w" "\<not> w_settled w"
        by (auto simp: failOpen_def split: option.splits if_splits)
      then show ?thesis by (intro gone [OF m]) (simp add: s failOpen_def Let_def)
    qed (use s in simp)
  next
    assume s: "st' = cancelReservation st tid now"
    show ?thesis
    proof (cases "cancelReservation st tid now = st")
      case False
      then obtain c' l w where f: "findWaiting st tid = Some (c', l, w)" "\<not> w_settled w" "tl_enabled st"
        by (auto simp: cancelReservation_def split: option.splits if_splits)
      then have m: "map_of (tl_lanes st) c' = Some l"
        using findWaiting_Some [of st tid c' l w] inv by (simp add: lanes_inv_def)
      with f show ?thesis by (intro gone [OF m]) (simp add: s cancelReservation_def Let_def)
    qed (use s in simp)
  qed
qed

theorem timeout_never_takes_the_lane_witness:
  "map_option ln_holder (map_of (tl_lanes (failOpen demo_state ''conv'' 0 2000)) ''conv'')
   = Some (Some (demo_holder ''task1''))"
proof -
  have "map_option (\<lambda>l. (ln_holder l, ln_phase l, ln_queue l, ln_pending l)) (map_of (tl_lanes demo_state) ''conv'')
    = Some (Some (demo_holder ''task1''), PReserved, [\<lparr>q_input = copyInput demo_input, q_ticket = 0, q_settled = False,
        q_persisted = False, q_audit = None\<rparr>], [])"
    by (simp add: demo_state_def demo_eval)
  with timeout_never_takes_the_lane [OF demo_new demo_state_def disjI1 [OF refl], of "''conv''" 0 2000 "''conv''"]
  show ?thesis by auto
qed

end
