(* ===== verification/Json.thy ===== *)
theory Json
  imports Prelude "HOL-Library.Multiset"
begin

text \<open>
  JSON as the code serializes it: \<open>JSON.stringify\<close> on dynamic values, the effect of a
  \<open>JSON.parse(JSON.stringify(v))\<close> round trip, and the two recursive key sorters of the repository:
  the one of \<open>src/src/kg-merge/planner.ts\<close>, which stores every key with \<open>setOwn\<close>, and the one of
  \<open>src/src/audit/hash-chain.ts\<close>, which stores with plain assignment.

  How a number prints is a parameter \<open>ns\<close> (the shortest decimal of a double is not modelled);
  objects iterate array-index keys first, in numeric order, as JavaScript does.
\<close>

section \<open>Printing\<close>

definition hex_digit :: "nat \<Rightarrow> char" where
  "hex_digit n = char_of (if n < 10 then 48 + n else 87 + n)"

definition json_escape :: "char \<Rightarrow> string" where
  "json_escape c = (let n = (of_char c :: nat) in
     if n = 34 then [CHR 0x5C, CHR 0x22]
     else if n = 92 then [CHR 0x5C, CHR 0x5C]
     else if n = 8 then [CHR 0x5C, CHR 0x62]
     else if n = 12 then [CHR 0x5C, CHR 0x66]
     else if n = 10 then [CHR 0x5C, CHR 0x6E]
     else if n = 13 then [CHR 0x5C, CHR 0x72]
     else if n = 9 then [CHR 0x5C, CHR 0x74]
     else if n < 32 then [CHR 0x5C, CHR 0x75, CHR 0x30, CHR 0x30, hex_digit (n div 16), hex_digit (n mod 16)]
     else [c])"

definition json_quote :: "string \<Rightarrow> string" where
  "json_quote s = [CHR 0x22] @ concat (map json_escape s) @ [CHR 0x22]"

fun join_with :: "string \<Rightarrow> string list \<Rightarrow> string" where
  "join_with sep [] = []"
| "join_with sep [s] = s"
| "join_with sep (s # t # ss) = s @ sep @ join_with sep (t # ss)"

text \<open>Array-index keys come first, by number: shorter ones first, then by digits.\<close>

definition index_key :: "string \<Rightarrow> bool" where
  "index_key k \<longleftrightarrow> k \<noteq> [] \<and> list_all (\<lambda>c. CHR ''0'' \<le> c \<and> c \<le> CHR ''9'') k
     \<and> (length k = 1 \<or> hd k \<noteq> CHR ''0'') \<and> length k \<le> 9"

definition js_own_order :: "(string \<times> 'a) list \<Rightarrow> (string \<times> 'a) list" where
  "js_own_order fs =
     (let ix = filter (\<lambda>p. index_key (fst p)) fs
      in concat (map (\<lambda>n. sort_key fst (filter (\<lambda>p. length (fst p) = n) ix)) [1..<10])
         @ filter (\<lambda>p. \<not> index_key (fst p)) fs)"

fun json_stringify :: "(rat \<Rightarrow> string) \<Rightarrow> jsval \<Rightarrow> string option"
  and json_items :: "(rat \<Rightarrow> string) \<Rightarrow> jsval list \<Rightarrow> string list"
  and json_members :: "(rat \<Rightarrow> string) \<Rightarrow> (string \<times> jsval) list \<Rightarrow> (string \<times> string) list" where
  "json_stringify ns JUndef = None"
| "json_stringify ns JNull = Some ''null''"
| "json_stringify ns (JBool b) = Some (if b then ''true'' else ''false'')"
| "json_stringify ns (JNum n) = Some (case n of Fin q \<Rightarrow> ns q | _ \<Rightarrow> ''null'')"
| "json_stringify ns (JStr s) = Some (json_quote s)"
| "json_stringify ns (JArr xs) = Some (''['' @ join_with '','' (json_items ns xs) @ '']'')"
| "json_stringify ns (JObj fs) =
     Some (''{'' @ join_with '','' (map (\<lambda>(k, s). json_quote k @ '':'' @ s) (js_own_order (json_members ns fs))) @ ''}'')"
| "json_items ns [] = []"
| "json_items ns (x # xs) = (case json_stringify ns x of None \<Rightarrow> ''null'' | Some s \<Rightarrow> s) # json_items ns xs"
| "json_members ns [] = []"
| "json_members ns ((k, v) # fs) =
     (case json_stringify ns v of None \<Rightarrow> json_members ns fs | Some s \<Rightarrow> (k, s) # json_members ns fs)"

section \<open>The round trip\<close>

text \<open>What a value is after \<open>JSON.parse(JSON.stringify(v))\<close>; \<open>None\<close> where nothing is printed.\<close>

fun json_roundtrip :: "jsval \<Rightarrow> jsval option"
  and roundtrip_items :: "jsval list \<Rightarrow> jsval list"
  and roundtrip_members :: "(string \<times> jsval) list \<Rightarrow> (string \<times> jsval) list" where
  "json_roundtrip JUndef = None"
| "json_roundtrip JNull = Some JNull"
| "json_roundtrip (JBool b) = Some (JBool b)"
| "json_roundtrip (JNum n) = Some (case n of Fin q \<Rightarrow> JNum (Fin q) | _ \<Rightarrow> JNull)"
| "json_roundtrip (JStr s) = Some (JStr s)"
| "json_roundtrip (JArr xs) = Some (JArr (roundtrip_items xs))"
| "json_roundtrip (JObj fs) = Some (JObj (roundtrip_members fs))"
| "roundtrip_items [] = []"
| "roundtrip_items (x # xs) = (case json_roundtrip x of None \<Rightarrow> JNull | Some v \<Rightarrow> v) # roundtrip_items xs"
| "roundtrip_members [] = []"
| "roundtrip_members ((k, v) # fs) =
     (case json_roundtrip v of None \<Rightarrow> roundtrip_members fs | Some v' \<Rightarrow> (k, v') # roundtrip_members fs)"

section \<open>Key sorting\<close>

text \<open>With \<open>setOwn\<close>: every defined key is kept.\<close>

fun sort_keys_own :: "jsval \<Rightarrow> jsval"
  and sort_items_own :: "jsval list \<Rightarrow> jsval list"
  and sort_members_own :: "(string \<times> jsval) list \<Rightarrow> (string \<times> jsval) list" where
  "sort_keys_own JUndef = JUndef"
| "sort_keys_own JNull = JNull"
| "sort_keys_own (JBool b) = JBool b"
| "sort_keys_own (JNum n) = JNum n"
| "sort_keys_own (JStr s) = JStr s"
| "sort_keys_own (JArr xs) = JArr (sort_items_own xs)"
| "sort_keys_own (JObj fs) = JObj (sort_key fst (sort_members_own fs))"
| "sort_items_own [] = []"
| "sort_items_own (x # xs) = sort_keys_own x # sort_items_own xs"
| "sort_members_own [] = []"
| "sort_members_own ((k, v) # fs) =
     (if v = JUndef then sort_members_own fs else (k, sort_keys_own v) # sort_members_own fs)"

text \<open>
  With \<open>sorted[key] = v\<close> on a fresh object literal: assigning \<open>__proto__\<close> sets (or leaves) the
  prototype of the new object and creates no own key.
\<close>

fun sort_keys_assign :: "jsval \<Rightarrow> jsval"
  and sort_items_assign :: "jsval list \<Rightarrow> jsval list"
  and sort_members_assign :: "(string \<times> jsval) list \<Rightarrow> (string \<times> jsval) list" where
  "sort_keys_assign JUndef = JUndef"
| "sort_keys_assign JNull = JNull"
| "sort_keys_assign (JBool b) = JBool b"
| "sort_keys_assign (JNum n) = JNum n"
| "sort_keys_assign (JStr s) = JStr s"
| "sort_keys_assign (JArr xs) = JArr (sort_items_assign xs)"
| "sort_keys_assign (JObj fs) = JObj (sort_key fst (sort_members_assign fs))"
| "sort_items_assign [] = []"
| "sort_items_assign (x # xs) = sort_keys_assign x # sort_items_assign xs"
| "sort_members_assign [] = []"
| "sort_members_assign ((k, v) # fs) =
     (if k = ''__proto__'' then sort_members_assign fs else (k, sort_keys_assign v) # sort_members_assign fs)"

text \<open>\<open>canonicalJson\<close> of the merge planner; an undefined value prints as nothing.\<close>

definition canonicalJson_own :: "(rat \<Rightarrow> string) \<Rightarrow> jsval \<Rightarrow> string option" where
  "canonicalJson_own ns v = json_stringify ns (sort_keys_own v)"

text \<open>\<open>canonicalJson\<close> of the audit hash chain.\<close>

definition canonicalJson :: "(rat \<Rightarrow> string) \<Rightarrow> jsval \<Rightarrow> string option" where
  "canonicalJson ns v =
     (case json_roundtrip v of None \<Rightarrow> None | Some v' \<Rightarrow> json_stringify ns (sort_keys_assign v'))"

section \<open>Canonical means independent of key order\<close>

lemma sort_key_perm:
  assumes "mset xs = mset ys" "distinct (map fst xs)"
  shows "sort_key fst xs = sort_key fst ys"
proof (rule map_sorted_distinct_set_unique)
  have d: "distinct (map fst ys)" using assms by (metis mset_eq_imp_distinct_iff mset_map)
  have e: "set xs = set ys" using assms(1) by (metis set_mset_mset)
  show "distinct (map fst (sort_key fst xs))" "distinct (map fst (sort_key fst ys))"
    using assms(2) d by (metis mset_eq_imp_distinct_iff mset_map mset_sort)+
  show "inj_on fst (set (sort_key fst xs) \<union> set (sort_key fst ys))"
    using assms(2) e by (simp add: distinct_map)
  show "set (sort_key fst xs) = set (sort_key fst ys)" using e by simp
qed simp_all

lemma members_own_mset:
  "mset fs = mset gs \<Longrightarrow> mset (sort_members_own fs) = mset (sort_members_own gs)"
proof -
  have "sort_members_own fs = map (\<lambda>(k, v). (k, sort_keys_own v)) (filter (\<lambda>(k, v). v \<noteq> JUndef) fs)" for fs
    by (induction fs) auto
  moreover assume "mset fs = mset gs"
  ultimately show ?thesis by (simp add: mset_filter)
qed

end
