(* ===== verification/HashChain.thy ===== *)
theory HashChain
  imports Json
begin

text \<open>
  The hash chain of the audit log: the canonical JSON and entry hash of
  \<open>src/src/audit/hash-chain.ts\<close>, what \<open>AuditLogger.log\<close> (\<open>src/src/audit/logger.ts\<close>) appends, and the
  walk of \<open>src/scripts/audit-verify.ts\<close>. The digest (\<open>node:crypto\<close>, hexadecimal SHA-256) is the
  parameter \<open>H\<close>; how a number prints is \<open>ns\<close>. A row is what the table stores, in \<open>seq\<close> order;
  its timestamp is the ISO string \<open>toHashTimestamp\<close> yields.
\<close>

section \<open>Entries\<close>

record hash_chain_fields =
  hc_id :: string
  hc_timestamp :: string
  hc_event_type :: string
  hc_source_layer :: string
  hc_source_id :: string
  hc_payload :: jsval
  hc_conversation_id :: "string option"
  hc_task_id :: "string option"
  hc_parent_event_id :: "string option"
  hc_action :: "string option"
  hc_outcome :: "string option"
  hc_target_type :: "string option"
  hc_target_id :: "string option"
  hc_initiator_type :: "string option"
  hc_initiator_id :: "string option"

definition str_or_null :: "string option \<Rightarrow> jsval" where
  "str_or_null s = (case s of None \<Rightarrow> JNull | Some x \<Rightarrow> JStr x)"

definition hash_fields_object :: "hash_chain_fields \<Rightarrow> jsval" where
  "hash_fields_object f = JObj
     [(''id'', JStr (hc_id f)), (''timestamp'', JStr (hc_timestamp f)),
      (''event_type'', JStr (hc_event_type f)), (''source_layer'', JStr (hc_source_layer f)),
      (''source_id'', JStr (hc_source_id f)), (''payload'', hc_payload f),
      (''conversation_id'', str_or_null (hc_conversation_id f)), (''task_id'', str_or_null (hc_task_id f)),
      (''parent_event_id'', str_or_null (hc_parent_event_id f)), (''action'', str_or_null (hc_action f)),
      (''outcome'', str_or_null (hc_outcome f)), (''target_type'', str_or_null (hc_target_type f)),
      (''target_id'', str_or_null (hc_target_id f)), (''initiator_type'', str_or_null (hc_initiator_type f)),
      (''initiator_id'', str_or_null (hc_initiator_id f))]"

definition AUDIT_GENESIS_SEED :: string where
  "AUDIT_GENESIS_SEED = ''curia-audit-genesis-v1''"

definition GENESIS_HASH :: "(string \<Rightarrow> string) \<Rightarrow> string" where
  "GENESIS_HASH H = H AUDIT_GENESIS_SEED"

definition canonical_entry :: "(rat \<Rightarrow> string) \<Rightarrow> hash_chain_fields \<Rightarrow> string" where
  "canonical_entry ns f = (case canonicalJson ns (hash_fields_object f) of Some s \<Rightarrow> s | None \<Rightarrow> [])"

definition computeEntryHash ::
    "(rat \<Rightarrow> string) \<Rightarrow> (string \<Rightarrow> string) \<Rightarrow> hash_chain_fields \<Rightarrow> string \<Rightarrow> string" where
  "computeEntryHash ns H f previousEntryHash = H (canonical_entry ns f @ previousEntryHash)"

section \<open>Appending\<close>

text \<open>\<open>stripNullBytes\<close> (\<open>src/src/audit/strip-null-bytes.ts\<close>).\<close>

fun stripNullBytes :: "jsval \<Rightarrow> jsval"
  and strip_items :: "jsval list \<Rightarrow> jsval list"
  and strip_members :: "(string \<times> jsval) list \<Rightarrow> (string \<times> jsval) list" where
  "stripNullBytes (JStr s) = JStr (filter (\<lambda>c. c \<noteq> CHR 0x00) s)"
| "stripNullBytes (JArr xs) = JArr (strip_items xs)"
| "stripNullBytes (JObj fs) = JObj (strip_members fs)"
| "stripNullBytes JUndef = JUndef"
| "stripNullBytes JNull = JNull"
| "stripNullBytes (JBool b) = JBool b"
| "stripNullBytes (JNum n) = JNum n"
| "strip_items [] = []"
| "strip_items (x # xs) = stripNullBytes x # strip_items xs"
| "strip_members [] = []"
| "strip_members ((k, v) # fs) = (k, stripNullBytes v) # strip_members fs"

record audit_row =
  ar_fields :: hash_chain_fields
  ar_entry_hash :: "string option"

text \<open>The fields the logger reads of an event; the structured columns come from field extraction.\<close>

record audit_event =
  ae_id :: string
  ae_timestamp :: string
  ae_type :: string
  ae_sourceLayer :: string
  ae_payload :: "(string \<times> jsval) list"
  ae_parentEventId :: "string option"

record structured_fields =
  sf_action :: "string option"
  sf_outcome :: "string option"
  sf_target_type :: "string option"
  sf_target_id :: "string option"
  sf_initiator_type :: "string option"
  sf_initiator_id :: "string option"

fun first_string :: "(string \<times> jsval) list \<Rightarrow> string list \<Rightarrow> string option" where
  "first_string p [] = None"
| "first_string p (k # ks) = (case jfield p k of JStr s \<Rightarrow> Some s | _ \<Rightarrow> first_string p ks)"

definition event_hash_fields :: "audit_event \<Rightarrow> structured_fields \<Rightarrow> hash_chain_fields" where
  "event_hash_fields e sf =
     \<lparr>hc_id = ae_id e, hc_timestamp = ae_timestamp e, hc_event_type = ae_type e,
      hc_source_layer = ae_sourceLayer e,
      hc_source_id = (case first_string (ae_payload e) [''agentId'', ''channelId''] of
                        Some s \<Rightarrow> s | None \<Rightarrow> ae_sourceLayer e),
      hc_payload = stripNullBytes (JObj (ae_payload e)),
      hc_conversation_id = first_string (ae_payload e) [''conversationId''],
      hc_task_id = first_string (ae_payload e) [''taskId'', ''agentTaskId'', ''hostTaskEventId''],
      hc_parent_event_id = ae_parentEventId e,
      hc_action = sf_action sf, hc_outcome = sf_outcome sf, hc_target_type = sf_target_type sf,
      hc_target_id = sf_target_id sf, hc_initiator_type = sf_initiator_type sf,
      hc_initiator_id = sf_initiator_id sf\<rparr>"

definition chain_head :: "(string \<Rightarrow> string) \<Rightarrow> audit_row list \<Rightarrow> string" where
  "chain_head H rows =
     (case find (\<lambda>r. ar_entry_hash r \<noteq> None) (rev rows) of
        Some r \<Rightarrow> (case ar_entry_hash r of Some h \<Rightarrow> if h \<noteq> [] then h else GENESIS_HASH H | None \<Rightarrow> GENESIS_HASH H)
      | None \<Rightarrow> GENESIS_HASH H)"

definition audit_append ::
    "(rat \<Rightarrow> string) \<Rightarrow> (string \<Rightarrow> string) \<Rightarrow> audit_row list \<Rightarrow> audit_event \<times> structured_fields \<Rightarrow> audit_row list" where
  "audit_append ns H rows es =
     (let f = event_hash_fields (fst es) (snd es)
      in rows @ [\<lparr>ar_fields = f, ar_entry_hash = Some (computeEntryHash ns H f (chain_head H rows))\<rparr>])"

section \<open>Verifying\<close>

datatype verify_result = VerifyOk nat nat | BrokenAt nat string

fun audit_verify ::
    "(rat \<Rightarrow> string) \<Rightarrow> (string \<Rightarrow> string) \<Rightarrow> string \<Rightarrow> nat \<Rightarrow> nat \<Rightarrow> audit_row list \<Rightarrow> verify_result" where
  "audit_verify ns H previousHash checked skippedNull [] = VerifyOk checked skippedNull"
| "audit_verify ns H previousHash checked skippedNull (r # rows) =
     (if ar_entry_hash r = None \<or> ar_entry_hash r = Some []
      then audit_verify ns H previousHash checked (Suc skippedNull) rows
      else
        let expected = computeEntryHash ns H (ar_fields r) previousHash
        in if Some expected \<noteq> ar_entry_hash r then BrokenAt (Suc checked) (hc_id (ar_fields r))
           else audit_verify ns H expected (Suc checked) skippedNull rows)"

definition intact :: "(rat \<Rightarrow> string) \<Rightarrow> (string \<Rightarrow> string) \<Rightarrow> audit_row list \<Rightarrow> bool" where
  "intact ns H rows = (case audit_verify ns H (GENESIS_HASH H) 0 0 rows of VerifyOk _ _ \<Rightarrow> True | BrokenAt _ _ \<Rightarrow> False)"

section \<open>The chain\<close>

text \<open>The rows the chain is defined over, and the strings it hashes.\<close>

definition hashed :: "audit_row list \<Rightarrow> hash_chain_fields list" where
  "hashed rows = map ar_fields (filter (\<lambda>r. ar_entry_hash r \<noteq> None \<and> ar_entry_hash r \<noteq> Some []) rows)"

definition chain_from ::
    "(rat \<Rightarrow> string) \<Rightarrow> (string \<Rightarrow> string) \<Rightarrow> string \<Rightarrow> hash_chain_fields list \<Rightarrow> string" where
  "chain_from ns H p fs = foldl (\<lambda>p f. computeEntryHash ns H f p) p fs"

fun hash_inputs :: "(rat \<Rightarrow> string) \<Rightarrow> (string \<Rightarrow> string) \<Rightarrow> string \<Rightarrow> hash_chain_fields list \<Rightarrow> string set" where
  "hash_inputs ns H p [] = {AUDIT_GENESIS_SEED}"
| "hash_inputs ns H p (f # fs) =
     insert (canonical_entry ns f @ p) (hash_inputs ns H (computeEntryHash ns H f p) fs)"

lemma hash_inputs_append:
  "hash_inputs ns H p (fs @ [f]) = insert (canonical_entry ns f @ chain_from ns H p fs) (hash_inputs ns H p fs)"
  by (induction fs arbitrary: p) (auto simp: chain_from_def)

lemma seed_hashed: "AUDIT_GENESIS_SEED \<in> hash_inputs ns H p fs"
  by (induction fs arbitrary: p) auto

lemma chain_from_snoc: "chain_from ns H p (fs @ [f]) = computeEntryHash ns H f (chain_from ns H p fs)"
  by (simp add: chain_from_def)

lemma verify_append:
  "audit_verify ns H p n k (xs @ ys) =
     (case audit_verify ns H p n k xs of
        VerifyOk n' k' \<Rightarrow> audit_verify ns H (chain_from ns H p (hashed xs)) n' k' ys
      | BrokenAt i s \<Rightarrow> BrokenAt i s)"
proof (induction xs arbitrary: p n k)
  case Nil
  show ?case by (simp add: chain_from_def hashed_def)
next
  case (Cons r xs)
  show ?case
  proof (cases "ar_entry_hash r = None \<or> ar_entry_hash r = Some []")
    case True
    then have "hashed (r # xs) = hashed xs" by (auto simp: hashed_def)
    with True Cons show ?thesis by (auto split: verify_result.split)
  next
    case False
    then have "hashed (r # xs) = ar_fields r # hashed xs" by (simp add: hashed_def)
    with False Cons show ?thesis by (auto simp: Let_def chain_from_def split: verify_result.split)
  qed
qed

lemma verify_skips:
  "list_all (\<lambda>r. ar_entry_hash r = None) xs
   \<Longrightarrow> audit_verify ns H p n k (xs @ ys) = audit_verify ns H p n (k + length xs) ys"
  by (induction xs arbitrary: k) simp_all

lemma find_rev_last:
  "find P (rev xs) = (if filter P xs = [] then None else Some (last (filter P xs)))"
proof (induction xs rule: rev_induct)
  case (snoc x xs)
  then show ?case by simp
qed simp

lemma hashed_append [simp]: "hashed (xs @ ys) = hashed xs @ hashed ys"
  by (simp add: hashed_def)

text \<open>The head the logger reads is the end of the chain the verifier walks.\<close>

definition no_empty_hash :: "audit_row list \<Rightarrow> bool" where
  "no_empty_hash rows \<longleftrightarrow> list_all (\<lambda>r. ar_entry_hash r \<noteq> Some []) rows"

lemma intact_prefix:
  "intact ns H (rows @ [r]) \<Longrightarrow> intact ns H rows"
  by (auto simp: intact_def verify_append split: verify_result.splits)

lemma head_is_chain_end:
  assumes "intact ns H rows" "no_empty_hash rows"
  shows "chain_head H rows = chain_from ns H (GENESIS_HASH H) (hashed rows)"
  using assms
proof (induction rows rule: rev_induct)
  case Nil
  show ?case by (simp add: chain_head_def chain_from_def hashed_def)
next
  case (snoc r rows)
  obtain n k where v: "audit_verify ns H (GENESIS_HASH H) 0 0 rows = VerifyOk n k"
    using intact_prefix [OF snoc.prems(1)] by (auto simp: intact_def split: verify_result.splits)
  show ?case
  proof (cases "ar_entry_hash r")
    case None
    have "chain_head H (rows @ [r]) = chain_head H rows" using None by (simp add: chain_head_def)
    moreover have "hashed (rows @ [r]) = hashed rows" using None by (simp add: hashed_def)
    moreover have "chain_head H rows = chain_from ns H (GENESIS_HASH H) (hashed rows)"
      using snoc intact_prefix by (auto simp: no_empty_hash_def)
    ultimately show ?thesis by simp
  next
    case (Some h)
    with snoc.prems(2) have "h \<noteq> []" by (simp add: no_empty_hash_def)
    with snoc.prems(1) v Some
    have "h = computeEntryHash ns H (ar_fields r) (chain_from ns H (GENESIS_HASH H) (hashed rows))"
      by (auto simp: intact_def verify_append Let_def split: if_splits)
    with Some \<open>h \<noteq> []\<close> show ?thesis
      by (simp add: chain_head_def hashed_def chain_from_def)
  qed
qed

section \<open>Properties\<close>


definition demo_hash :: "string \<Rightarrow> string" where
  "demo_hash s = take 64 (s @ replicate 64 (CHR ''0''))"

text \<open>A hash with many collisions.\<close>

definition weak_hash :: "string \<Rightarrow> string" where
  "weak_hash s = replicate 64 (CHR ''0'')"

lemma demo_hash_length: "\<forall>s. length (demo_hash s) = 64"
  by (auto simp: demo_hash_def min_def)


lemma chains_agree:
  assumes len: "\<forall>s. length (H s) = 64"
    and "chain_from ns H (GENESIS_HASH H) fs = chain_from ns H (GENESIS_HASH H) gs"
    and nocol: "\<forall>x \<in> hash_inputs ns H (GENESIS_HASH H) fs. \<forall>y \<in> hash_inputs ns H (GENESIS_HASH H) gs. H x = H y \<longrightarrow> x = y"
    and brace: "\<And>f. hd (canonical_entry ns f) = CHR 0x7B \<and> canonical_entry ns f \<noteq> []"
  shows "map (canonical_entry ns) fs = map (canonical_entry ns) gs"
  using assms(2,3)
proof (induction fs arbitrary: gs rule: rev_induct)
  case Nil
  show ?case
  proof (cases gs rule: rev_cases)
    case (snoc gs' g)
    let ?x = "canonical_entry ns g @ chain_from ns H (GENESIS_HASH H) gs'"
    have "H AUDIT_GENESIS_SEED = H ?x"
      using Nil.prems(1) snoc by (simp add: chain_from_def computeEntryHash_def GENESIS_HASH_def)
    moreover have "?x \<in> hash_inputs ns H (GENESIS_HASH H) gs" by (simp add: snoc hash_inputs_append)
    ultimately have eq: "AUDIT_GENESIS_SEED = ?x" using Nil.prems(2) by simp
    have "hd ?x = CHR 0x7B" using brace [of g] by (cases "canonical_entry ns g") auto
    then have "hd AUDIT_GENESIS_SEED = CHR 0x7B" unfolding eq .
    then show ?thesis by (simp add: AUDIT_GENESIS_SEED_def)
  qed simp
next
  case (snoc f fs)
  let ?x = "canonical_entry ns f @ chain_from ns H (GENESIS_HASH H) fs"
  have x: "?x \<in> hash_inputs ns H (GENESIS_HASH H) (fs @ [f])" by (simp add: hash_inputs_append)
  show ?case
  proof (cases gs rule: rev_cases)
    case Nil
    then have "H ?x = H AUDIT_GENESIS_SEED"
      using snoc.prems(1) by (simp add: chain_from_def computeEntryHash_def GENESIS_HASH_def)
    then have eq: "?x = AUDIT_GENESIS_SEED" using snoc.prems(2) x Nil by simp
    have "hd ?x = CHR 0x7B" using brace [of f] by (cases "canonical_entry ns f") auto
    then show ?thesis unfolding eq by (simp add: AUDIT_GENESIS_SEED_def)
  next
    case (snoc gs' g)
    let ?y = "canonical_entry ns g @ chain_from ns H (GENESIS_HASH H) gs'"
    have "H ?x = H ?y" using snoc.prems(1) \<open>gs = gs' @ [g]\<close>
      by (simp add: chain_from_snoc computeEntryHash_def)
    moreover have "?y \<in> hash_inputs ns H (GENESIS_HASH H) gs" by (simp add: snoc hash_inputs_append)
    ultimately have "?x = ?y" using snoc.prems(2) x by blast
    moreover have "length (chain_from ns H (GENESIS_HASH H) zs) = 64" for zs
      using len by (cases zs rule: rev_cases) (simp_all add: chain_from_def computeEntryHash_def GENESIS_HASH_def)
    ultimately have e: "canonical_entry ns f = canonical_entry ns g"
      "chain_from ns H (GENESIS_HASH H) fs = chain_from ns H (GENESIS_HASH H) gs'"
      by (metis append_eq_append_conv)+
    have "\<forall>x \<in> hash_inputs ns H (GENESIS_HASH H) fs. \<forall>y \<in> hash_inputs ns H (GENESIS_HASH H) gs'. H x = H y \<longrightarrow> x = y"
      using snoc.prems(2) by (simp add: snoc hash_inputs_append)
    from snoc.IH [OF e(2) this] e(1) show ?thesis by (simp add: snoc)
  qed
qed

lemma canonical_entry_brace:
  "hd (canonical_entry ns f) = CHR 0x7B \<and> canonical_entry ns f \<noteq> []"
  by (simp add: canonical_entry_def canonicalJson_def hash_fields_object_def)



text \<open>
  A blind spot of the chain: an own key \<open>__proto__\<close> of a payload object (which \<open>JSON.parse\<close> and a
  \<open>jsonb\<close> column both keep) is not covered by the entry hash, because the key sorter stores keys by
  plain assignment. The canonical form of the entry is the same whatever that key holds, so such
  a value can be changed in a stored row without the walk noticing.
\<close>

theorem proto_key_not_hashed:
  "computeEntryHash ns H (f\<lparr>hc_payload := JObj ((''__proto__'', v) # fs)\<rparr>) prev
   = computeEntryHash ns H (f\<lparr>hc_payload := JObj ((''__proto__'', v') # fs)\<rparr>) prev"
proof -
  have "sort_members_assign (roundtrip_members ((''__proto__'', x) # fs)) = sort_members_assign (roundtrip_members fs)" for x
    by (simp split: option.split)
  then show ?thesis
    by (simp add: computeEntryHash_def canonical_entry_def canonicalJson_def hash_fields_object_def
        del: roundtrip_members.simps(2))
       (simp add: hash_fields_object_def)
qed

end
