(* ===== verification/KgTypes.thy ===== *)
theory KgTypes
  imports Json ContactTypes
begin

text \<open>
  The data of a knowledge-graph node merge (\<open>src/src/kg-merge/types.ts\<close>) and the small helpers the
  planner builds on (\<open>src/src/kg-merge/planner.ts\<close>, \<open>src/src/memory/sensitivity.ts\<close>,
  \<open>EmbeddingService.cosineSimilarity\<close>). Ids, ISO timestamps and permission names are compared by
  code unit (\<open>localeCompare\<close> agrees with that on lower-case hexadecimal ids and on timestamps of one
  shape); embeddings are lists of reals, so that the square root of the similarity is exact.
\<close>

section \<open>Sorting\<close>

text \<open>\<open>Array.prototype.sort\<close> with a comparator: a stable sort; \<open>le x y\<close> is \<open>cmp(x, y) <= 0\<close>.\<close>

fun insort_by :: "('a \<Rightarrow> 'a \<Rightarrow> bool) \<Rightarrow> 'a \<Rightarrow> 'a list \<Rightarrow> 'a list" where
  "insort_by le x [] = [x]"
| "insort_by le x (y # ys) = (if le x y then x # y # ys else y # insort_by le x ys)"

definition js_sort_by :: "('a \<Rightarrow> 'a \<Rightarrow> bool) \<Rightarrow> 'a list \<Rightarrow> 'a list" where
  "js_sort_by le xs = foldr (insort_by le) xs []"

lemma mset_insort_by [simp]: "mset (insort_by le x xs) = add_mset x (mset xs)"
  by (induction xs) auto

lemma mset_js_sort_by [simp]: "mset (js_sort_by le xs) = mset xs"
  by (induction xs) (auto simp: js_sort_by_def)

lemma set_js_sort_by [simp]: "set (js_sort_by le xs) = set xs"
  by (metis mset_js_sort_by set_mset_mset)

lemma js_sort_by_Nil [simp]: "js_sort_by le xs = [] \<longleftrightarrow> xs = []"
  by (metis mset_js_sort_by mset_zero_iff)

lemma js_sort_by_map_distinct [simp]: "distinct (map f (js_sort_by le xs)) = distinct (map f xs)"
  by (metis mset_eq_imp_distinct_iff mset_js_sort_by mset_map)

lemma distinct_sub_mset:
  assumes "mset xs \<subseteq># mset ys" "distinct ys"
  shows "distinct xs"
proof -
  have "count (mset xs) a \<le> 1" for a
  proof -
    have "count (mset ys) a \<le> 1" using assms(2) by (simp add: distinct_count_atmost_1)
    then show ?thesis using mset_subset_eq_count [OF assms(1), of a] by linarith
  qed
  then show ?thesis
    by (metis distinct_count_atmost_1 count_mset_0_iff less_Suc0 le_less One_nat_def)
qed

lemma mset_remove_key:
  assumes "distinct (map f xs)" "b \<in> set xs"
  shows "mset xs = add_mset b (mset (filter (\<lambda>x. f x \<noteq> f b) xs))"
  using assms
proof (induction xs)
  case (Cons x xs)
  show ?case
  proof (cases "f x = f b")
    case True
    then have "filter (\<lambda>y. f y \<noteq> f b) xs = xs"
      using Cons.prems(1) by (intro filter_True) (auto simp: image_iff)
    moreover have "x = b" using True Cons.prems by (auto simp: image_iff)
    ultimately show ?thesis using True by simp
  next
    case False
    with Cons show ?thesis by (auto simp: add_mset_commute)
  qed
qed simp

section \<open>Nodes, edges, facts\<close>

datatype side = SurvivorSide | AbsorbedSide
datatype fact_choice = ChooseSurvivor | ChooseAbsorbed | ChooseBoth
datatype near_choice = MergeNear | KeepBothNear

datatype decay_class = FastDecay | SlowDecay | Permanent
datatype sensitivity = SPublic | SInternal | SConfidential | SRestricted

record snapshot_node =
  sn_id :: string
  sn_type :: string
  sn_label :: string
  sn_properties :: "(string \<times> jsval) list"
  sn_embedding :: "real list option"
  sn_embeddingModel :: "string option"
  sn_confidence :: rat
  sn_decayClass :: decay_class
  sn_source :: string
  sn_sensitivity :: sensitivity
  sn_createdAt :: string
  sn_lastConfirmedAt :: string
  sn_archivedAt :: "string option"
  sn_warnedAt :: "string option"
  sn_warnReason :: "string option"
  sn_aliases :: "string list"
  sn_identitySource :: string

record snapshot_edge =
  se_id :: string
  se_sourceNodeId :: string
  se_targetNodeId :: string
  se_type :: string
  se_properties :: "(string \<times> jsval) list"
  se_confidence :: rat
  se_decayClass :: decay_class
  se_source :: string
  se_createdAt :: string
  se_lastConfirmedAt :: string

record snapshot_fact =
  sf_node :: snapshot_node
  sf_linkEdgeIds :: "string list"
  sf_outsideEdges :: "snapshot_edge list"

record snapshot_identity =
  si_id :: string
  si_channel :: string
  si_identifier :: string
  si_verified :: bool

record auth_override =
  ov_permission :: string
  ov_granted :: bool

text \<open>A contact extends what tier survivorship reads of it (\<open>contact_standing\<close>).\<close>

record snapshot_contact = contact_standing +
  sc_id :: string
  sc_kgNodeId :: string
  sc_displayName :: string
  sc_fields :: "(string \<times> string) list" \<comment> \<open>the non-null fields\<close>
  sc_notes :: "string option"
  sc_contactConfidence :: rat
  sc_lastSeenAt :: "string option"
  sc_inboundMessageCount :: int
  sc_outboundMessageCount :: int
  sc_createdAt :: string
  sc_updatedAt :: string
  sc_identities :: "snapshot_identity list"
  sc_authOverrides :: "auth_override list"

record merge_side =
  ms_node :: snapshot_node
  ms_facts :: "snapshot_fact list"
  ms_edges :: "snapshot_edge list"
  ms_contacts :: "snapshot_contact list"

section \<open>Ranks\<close>

fun DECAY_RANK :: "decay_class \<Rightarrow> nat" where
  "DECAY_RANK FastDecay = 0"
| "DECAY_RANK SlowDecay = 1"
| "DECAY_RANK Permanent = 2"

definition mostDurable :: "decay_class \<Rightarrow> decay_class \<Rightarrow> decay_class" where
  "mostDurable a b = (if DECAY_RANK b \<le> DECAY_RANK a then a else b)"

fun SENSITIVITY_RANK :: "sensitivity \<Rightarrow> nat" where
  "SENSITIVITY_RANK SPublic = 0"
| "SENSITIVITY_RANK SInternal = 1"
| "SENSITIVITY_RANK SConfidential = 2"
| "SENSITIVITY_RANK SRestricted = 3"

definition maxSensitivity :: "sensitivity \<Rightarrow> sensitivity \<Rightarrow> sensitivity" where
  "maxSensitivity a b = (if SENSITIVITY_RANK b \<le> SENSITIVITY_RANK a then a else b)"

lemma maxSensitivity_rank [simp]:
  "SENSITIVITY_RANK (maxSensitivity a b) = max (SENSITIVITY_RANK a) (SENSITIVITY_RANK b)"
  by (simp add: maxSensitivity_def max_def)

definition maxIso :: "string \<Rightarrow> string \<Rightarrow> string" where
  "maxIso a b = (if b \<le> a then a else b)"

definition minIso :: "string \<Rightarrow> string \<Rightarrow> string" where
  "minIso a b = (if a \<le> b then a else b)"

definition newerSide :: "string \<Rightarrow> string \<Rightarrow> side" where
  "newerSide survivorConfirmedAt absorbedConfirmedAt =
     (if survivorConfirmedAt < absorbedConfirmedAt then AbsorbedSide else SurvivorSide)"

section \<open>Similarity\<close>

definition dot_product :: "real list \<Rightarrow> real list \<Rightarrow> real" where
  "dot_product a b = sum_list (map2 (*) a b)"

text \<open>\<open>None\<close> is the dimension-mismatch error.\<close>

definition cosineSimilarity :: "real list \<Rightarrow> real list \<Rightarrow> real option" where
  "cosineSimilarity a b =
     (if length a \<noteq> length b then None
      else
        let denominator = sqrt (dot_product a a) * sqrt (dot_product b b)
        in Some (if denominator = 0 then 0 else dot_product a b / denominator))"

definition round4 :: "real \<Rightarrow> real" where
  "round4 x = of_int \<lfloor>x * 10000 + 1/2\<rfloor> / 10000"

section \<open>Text\<close>

text \<open>\<open>replace(/\s+/g, ' ')\<close>.\<close>

fun collapse_space :: "bool \<Rightarrow> string \<Rightarrow> string" where
  "collapse_space inRun [] = []"
| "collapse_space inRun (c # cs) =
     (if js_space c then (if inRun then collapse_space True cs else CHR '' '' # collapse_space True cs)
      else c # collapse_space False cs)"

definition strip_trailing :: "string \<Rightarrow> string" where
  "strip_trailing s = rev (dropWhile (\<lambda>c. c = CHR ''.'' \<or> c = CHR ''!'') (rev s))"

definition normalizeFactText :: "string \<Rightarrow> string" where
  "normalizeFactText s = js_trim (strip_trailing (js_trim (collapse_space False (js_lower s))))"

definition factAttribute :: "snapshot_node \<Rightarrow> string option" where
  "factAttribute f =
     (case jfield (sn_properties f) ''attribute'' of
        JStr raw \<Rightarrow> (let n = js_lower (js_trim raw) in if n = [] then None else Some n)
      | _ \<Rightarrow> None)"

definition factValueString :: "(rat \<Rightarrow> string) \<Rightarrow> snapshot_node \<Rightarrow> string option" where
  "factValueString ns f =
     (case jfield (sn_properties f) ''value'' of
        JUndef \<Rightarrow> None
      | JNull \<Rightarrow> None
      | JStr s \<Rightarrow> Some s
      | v \<Rightarrow> canonicalJson_own ns v)"

definition factValueKey :: "(rat \<Rightarrow> string) \<Rightarrow> snapshot_node \<Rightarrow> string" where
  "factValueKey ns f =
     normalizeFactText (case factValueString ns f of Some v \<Rightarrow> v | None \<Rightarrow> sn_label f)"

definition isMultiValued :: "snapshot_node \<Rightarrow> bool" where
  "isMultiValued f \<longleftrightarrow> jfield (sn_properties f) ''multi_valued'' = JBool True"

text \<open>Newest first, ties by id; \<open>newest\<close> is only asked of a list that is not empty.\<close>

definition newer_le :: "snapshot_node \<Rightarrow> snapshot_node \<Rightarrow> bool" where
  "newer_le a b \<longleftrightarrow> sn_lastConfirmedAt b < sn_lastConfirmedAt a
     \<or> sn_lastConfirmedAt a = sn_lastConfirmedAt b \<and> sn_id a \<le> sn_id b"

definition newest :: "snapshot_node list \<Rightarrow> snapshot_node" where
  "newest items = hd (js_sort_by newer_le items)"

lemma newest_mem: "items \<noteq> [] \<Longrightarrow> newest items \<in> set items"
  by (metis newest_def hd_in_set js_sort_by_Nil set_js_sort_by)

text \<open>Equality of two values as their canonical JSON sees it.\<close>

definition deepEqual :: "(rat \<Rightarrow> string) \<Rightarrow> jsval \<Rightarrow> jsval \<Rightarrow> bool" where
  "deepEqual ns a b \<longleftrightarrow> canonicalJson_own ns a = canonicalJson_own ns b"

lemma deepEqual_key_order:
  assumes "mset fs = mset gs" "distinct (map fst fs)"
  shows "deepEqual ns (JObj fs) (JObj gs)"
proof -
  have "distinct (map fst (sort_members_own fs))"
  proof -
    have "map fst (sort_members_own fs) = map fst (filter (\<lambda>(k, v). v \<noteq> JUndef) fs)"
      by (induction fs) auto
    then show ?thesis using assms(2) by (simp add: distinct_map_filter)
  qed
  then have "sort_key fst (sort_members_own fs) = sort_key fst (sort_members_own gs)"
    by (rule sort_key_perm [OF members_own_mset [OF assms(1)]])
  then show ?thesis by (simp add: deepEqual_def canonicalJson_own_def)
qed

text \<open>\<open>String(v) === 'true'\<close>: a one-element array prints as its element.\<close>

fun prints_true :: "jsval \<Rightarrow> bool" where
  "prints_true (JBool b) = b"
| "prints_true (JStr s) = (s = ''true'')"
| "prints_true (JArr [x]) = prints_true x"
| "prints_true _ = False"

definition isAgentNode :: "merge_side \<Rightarrow> bool" where
  "isAgentNode s \<longleftrightarrow>
     prints_true (jfield (sn_properties (ms_node s)) ''is_agent'')
     \<or> list_ex (\<lambda>c. s_systemRole c = Some RAgent \<or> s_kind c = KAgent) (ms_contacts s)"

definition isPrincipalContact :: "snapshot_contact \<Rightarrow> bool" where
  "isPrincipalContact c \<longleftrightarrow> s_systemRole c = Some RPrincipal"

definition identityKey :: "string \<Rightarrow> string \<Rightarrow> string" where
  "identityKey channel identifier =
     channel @ '':'' @ (if channel = ''email'' then js_lower identifier else identifier)"

definition byCreation :: "snapshot_contact \<Rightarrow> snapshot_contact \<Rightarrow> bool" where
  "byCreation a b \<longleftrightarrow> sc_createdAt a < sc_createdAt b
     \<or> sc_createdAt a = sc_createdAt b \<and> sc_id a \<le> sc_id b"

end
