(* ===== verification/KgPlanner.thy ===== *)
theory KgPlanner
  imports KgTypes
begin

text \<open>
  The merge planner (\<open>src/src/kg-merge/planner.ts\<close>): aliases, facts, edges and properties of a
  knowledge-graph node merge, as functions of the snapshot. \<open>ns\<close> is how a number prints.
\<close>

section \<open>Aliases\<close>

definition MAX_ALIASES_PER_ENTITY :: nat where
  "MAX_ALIASES_PER_ENTITY = 10"

record alias_plan =
  al_label :: string
  al_aliases :: "string list"
  al_droppedAliases :: "string list"

definition alias_key :: "string \<Rightarrow> string" where
  "alias_key s = js_lower (js_trim s)"

text \<open>The loop over the candidates: \<open>all\<close> doubles as the set of those seen.\<close>

fun collect_aliases :: "string \<Rightarrow> string list \<Rightarrow> string list \<Rightarrow> string list" where
  "collect_aliases finalKey [] all = all"
| "collect_aliases finalKey (raw # raws) all =
     (let alias = alias_key raw
      in if alias = [] \<or> alias = finalKey \<or> alias \<in> set all then collect_aliases finalKey raws all
         else collect_aliases finalKey raws (all @ [alias]))"

definition computeAliases :: "snapshot_node \<Rightarrow> snapshot_node \<Rightarrow> side \<Rightarrow> alias_plan" where
  "computeAliases survivor absorbed label =
     (let finalLabel = (if label = AbsorbedSide then sn_label absorbed else sn_label survivor);
          otherLabel = (if label = AbsorbedSide then sn_label survivor else sn_label absorbed);
          all = collect_aliases (alias_key finalLabel)
                  (sn_aliases survivor @ [otherLabel] @ sn_aliases absorbed) []
      in \<lparr>al_label = finalLabel, al_aliases = take MAX_ALIASES_PER_ENTITY all,
          al_droppedAliases = drop MAX_ALIASES_PER_ENTITY all\<rparr>)"

section \<open>Facts\<close>

record fact_move =
  mv_fact :: snapshot_node
  mv_linkEdgeIds :: "string list"

record fact_collapse =
  cl_survivorFact :: snapshot_node
  cl_absorbedFact :: snapshot_node

record fact_conflict =
  fc_id :: string
  fc_attribute :: string
  fc_survivorFact :: snapshot_node
  fc_absorbedFact :: snapshot_node
  fc_absorbedLinkEdgeIds :: "string list"
  fc_default :: side

record near_duplicate =
  nd_id :: string
  nd_survivorFact :: snapshot_node
  nd_absorbedFact :: snapshot_node
  nd_absorbedLinkEdgeIds :: "string list"
  nd_similarity :: real

record fact_plan =
  fp_moves :: "fact_move list"
  fp_collapses :: "fact_collapse list"
  fp_conflicts :: "fact_conflict list"
  fp_nearDuplicates :: "near_duplicate list"
  fp_sharedFactIds :: "string list"
  fp_sharedLinkEdgeIds :: "string list"
  fp_factOutsideEdges :: "snapshot_edge list"

record fact_similarity =
  fs_embeddingModel :: string
  fs_threshold :: real

definition factConflictId :: "string \<Rightarrow> string \<Rightarrow> string" where
  "factConflictId s a = ''fact:'' @ s @ '':'' @ a"

definition nearDuplicateId :: "string \<Rightarrow> string \<Rightarrow> string" where
  "nearDuplicateId s a = ''near:'' @ s @ '':'' @ a"

abbreviation fact_id :: "snapshot_fact \<Rightarrow> string" where
  "fact_id f \<equiv> sn_id (sf_node f)"

definition as_move :: "snapshot_fact \<Rightarrow> fact_move" where
  "as_move f = \<lparr>mv_fact = sf_node f, mv_linkEdgeIds = sf_linkEdgeIds f\<rparr>"

definition add_to_group :: "(string \<times> snapshot_fact list) list \<Rightarrow> snapshot_fact \<Rightarrow> (string \<times> snapshot_fact list) list" where
  "add_to_group g f =
     (case factAttribute (sf_node f) of
        None \<Rightarrow> g
      | Some attr \<Rightarrow> AList.update attr ((case map_of g attr of Some xs \<Rightarrow> xs | None \<Rightarrow> []) @ [f]) g)"

definition groupByAttribute :: "snapshot_fact list \<Rightarrow> (string \<times> snapshot_fact list) list" where
  "groupByAttribute facts = foldl add_to_group [] facts"

text \<open>Automatic duplicates of one attribute, and the absorbed facts left over.\<close>

fun match_values ::
    "(rat \<Rightarrow> string) \<Rightarrow> snapshot_fact list \<Rightarrow> snapshot_fact list \<Rightarrow> fact_collapse list \<times> snapshot_fact list" where
  "match_values ns sGroup [] = ([], [])"
| "match_values ns sGroup (a # as) =
     (let key = factValueKey ns (sf_node a);
          matches = map sf_node (filter (\<lambda>s. factValueKey ns (sf_node s) = key) sGroup);
          (cs, rs) = match_values ns sGroup as
      in if matches \<noteq> [] then (\<lparr>cl_survivorFact = newest matches, cl_absorbedFact = sf_node a\<rparr> # cs, rs)
         else (cs, a # rs))"

text \<open>One attribute of the absorbed side against the survivor's group of it.\<close>

definition plan_attribute ::
    "(rat \<Rightarrow> string) \<Rightarrow> string \<Rightarrow> snapshot_fact list option \<Rightarrow> snapshot_fact list
      \<Rightarrow> fact_move list \<times> fact_collapse list \<times> fact_conflict list" where
  "plan_attribute ns attr sGroupOpt aGroup =
     (case sGroupOpt of
        None \<Rightarrow> (map as_move aGroup, [], [])
      | Some sGroup \<Rightarrow>
          (case match_values ns sGroup aGroup of (collapses, remaining) \<Rightarrow>
             if remaining = [] then ([], collapses, [])
             else if list_ex (\<lambda>f. isMultiValued (sf_node f)) (sGroup @ remaining)
             then (map as_move remaining, collapses, [])
             else
               let sNewest = newest (map sf_node sGroup);
                   aNewestNode = newest (map sf_node remaining);
                   aNewest = (case find (\<lambda>f. fact_id f = sn_id aNewestNode) remaining of
                                Some f \<Rightarrow> f | None \<Rightarrow> hd remaining)
               in (map as_move (filter (\<lambda>f. fact_id f \<noteq> fact_id aNewest) remaining), collapses,
                   [\<lparr>fc_id = factConflictId (sn_id sNewest) (fact_id aNewest), fc_attribute = attr,
                     fc_survivorFact = sNewest, fc_absorbedFact = sf_node aNewest,
                     fc_absorbedLinkEdgeIds = sf_linkEdgeIds aNewest,
                     fc_default = newerSide (sn_lastConfirmedAt sNewest) (sn_lastConfirmedAt (sf_node aNewest))\<rparr>])))"

definition plan_attributes ::
    "(rat \<Rightarrow> string) \<Rightarrow> snapshot_fact list \<Rightarrow> snapshot_fact list
      \<Rightarrow> fact_move list \<times> fact_collapse list \<times> fact_conflict list" where
  "plan_attributes ns survivorFacts absorbedOnly =
     (let survivorByAttr = groupByAttribute survivorFacts;
          absorbedByAttr = groupByAttribute absorbedOnly;
          steps = map (\<lambda>attr. plan_attribute ns attr (map_of survivorByAttr attr)
                     (case map_of absorbedByAttr attr of Some g \<Rightarrow> g | None \<Rightarrow> []))
                   (sort (map fst absorbedByAttr))
      in (concat (map fst steps), concat (map (fst \<circ> snd) steps), concat (map (snd \<circ> snd) steps)))"

definition is_plain :: "snapshot_fact \<Rightarrow> bool" where
  "is_plain f \<longleftrightarrow> factAttribute (sf_node f) = None"

text \<open>Plain facts: exact label duplicates collapse onto the newest survivor fact of the label.\<close>

fun match_labels ::
    "snapshot_fact list \<Rightarrow> snapshot_fact list \<Rightarrow> fact_collapse list \<times> snapshot_fact list" where
  "match_labels survivorPlain [] = ([], [])"
| "match_labels survivorPlain (a # as) =
     (let key = normalizeFactText (sn_label (sf_node a));
          matches = map sf_node (filter (\<lambda>s. normalizeFactText (sn_label (sf_node s)) = key) survivorPlain);
          (cs, rs) = match_labels survivorPlain as
      in if matches \<noteq> [] then (\<lparr>cl_survivorFact = newest matches, cl_absorbedFact = sf_node a\<rparr> # cs, rs)
         else (cs, a # rs))"

record near_pair =
  np_s :: snapshot_node
  np_a :: snapshot_fact
  np_similarity :: real

definition comparable :: "fact_similarity option \<Rightarrow> snapshot_node \<Rightarrow> real list option" where
  "comparable similarity n =
     (case similarity of
        None \<Rightarrow> None
      | Some sim \<Rightarrow> if sn_embeddingModel n = Some (fs_embeddingModel sim) then sn_embedding n else None)"

definition near_pairs_of ::
    "fact_similarity option \<Rightarrow> string list \<Rightarrow> snapshot_fact list \<Rightarrow> snapshot_fact \<Rightarrow> near_pair list" where
  "near_pairs_of similarity collapseTargets survivorPlain a =
     (case (similarity, comparable similarity (sf_node a)) of
        (Some sim, Some aEmb) \<Rightarrow>
          concat (map (\<lambda>s. case comparable similarity (sf_node s) of
              None \<Rightarrow> []
            | Some sEmb \<Rightarrow>
                if length sEmb \<noteq> length aEmb \<or> fact_id s \<in> set collapseTargets then []
                else (case cosineSimilarity sEmb aEmb of
                        None \<Rightarrow> []
                      | Some score \<Rightarrow>
                          if fs_threshold sim \<le> score
                          then [\<lparr>np_s = sf_node s, np_a = a, np_similarity = score\<rparr>] else [])) survivorPlain)
      | _ \<Rightarrow> [])"

definition pair_le :: "near_pair \<Rightarrow> near_pair \<Rightarrow> bool" where
  "pair_le x y \<longleftrightarrow> np_similarity y < np_similarity x
     \<or> np_similarity x = np_similarity y
        \<and> (fact_id (np_a x) < fact_id (np_a y)
           \<or> fact_id (np_a x) = fact_id (np_a y) \<and> sn_id (np_s x) \<le> sn_id (np_s y))"

text \<open>Greedy pairing; the two lists are the ids already paired.\<close>

fun pair_greedily ::
    "near_pair list \<Rightarrow> string list \<Rightarrow> string list \<Rightarrow> near_duplicate list" where
  "pair_greedily [] ps pa = []"
| "pair_greedily (p # pairs) ps pa =
     (if sn_id (np_s p) \<in> set ps \<or> fact_id (np_a p) \<in> set pa then pair_greedily pairs ps pa
      else \<lparr>nd_id = nearDuplicateId (sn_id (np_s p)) (fact_id (np_a p)), nd_survivorFact = np_s p,
            nd_absorbedFact = sf_node (np_a p), nd_absorbedLinkEdgeIds = sf_linkEdgeIds (np_a p),
            nd_similarity = round4 (np_similarity p)\<rparr>
           # pair_greedily pairs (sn_id (np_s p) # ps) (fact_id (np_a p) # pa))"

definition planFacts ::
    "(rat \<Rightarrow> string) \<Rightarrow> merge_side \<Rightarrow> merge_side \<Rightarrow> fact_similarity option \<Rightarrow> fact_plan" where
  "planFacts ns survivor absorbed similarity =
     (let survivorFactIds = map fact_id (ms_facts survivor);
          shared = filter (\<lambda>f. fact_id f \<in> set survivorFactIds) (ms_facts absorbed);
          absorbedOnly = filter (\<lambda>f. fact_id f \<notin> set survivorFactIds) (ms_facts absorbed);
          (attrMoves, attrCollapses, conflicts) = plan_attributes ns (ms_facts survivor) absorbedOnly;
          survivorPlain = filter is_plain (ms_facts survivor);
          (labelCollapses, plainRemaining) = match_labels survivorPlain (filter is_plain absorbedOnly);
          collapses = attrCollapses @ labelCollapses;
          collapseTargets = map (sn_id \<circ> cl_survivorFact) collapses;
          pairs = js_sort_by pair_le
                    (concat (map (near_pairs_of similarity collapseTargets survivorPlain) plainRemaining));
          nearDuplicates = pair_greedily pairs [] [];
          pairedAbsorbed = map (sn_id \<circ> nd_absorbedFact) nearDuplicates;
          moves = attrMoves @ map as_move (filter (\<lambda>f. fact_id f \<notin> set pairedAbsorbed) plainRemaining)
      in \<lparr>fp_moves = js_sort_by (\<lambda>x y. sn_id (mv_fact x) \<le> sn_id (mv_fact y)) moves,
          fp_collapses = js_sort_by (\<lambda>x y. sn_id (cl_absorbedFact x) \<le> sn_id (cl_absorbedFact y)) collapses,
          fp_conflicts = js_sort_by (\<lambda>x y. fc_id x \<le> fc_id y) conflicts,
          fp_nearDuplicates = js_sort_by (\<lambda>x y. nd_id x \<le> nd_id y) nearDuplicates,
          fp_sharedFactIds = sort (map fact_id shared),
          fp_sharedLinkEdgeIds = sort (concat (map sf_linkEdgeIds shared)),
          fp_factOutsideEdges = js_sort_by (\<lambda>x y. se_id x \<le> se_id y)
            (map snd (foldl (\<lambda>m e. AList.update (se_id e) e m) []
               (concat (map sf_outsideEdges (ms_facts survivor @ ms_facts absorbed)))))\<rparr>)"

section \<open>Edges\<close>

record edge_collapse =
  ec_absorbedEdge :: snapshot_edge
  ec_survivorEdge :: snapshot_edge

record edge_plan =
  ep_dropped :: "snapshot_edge list"
  ep_collapsed :: "edge_collapse list"
  ep_moved :: "snapshot_edge list"

definition edge_other :: "string \<Rightarrow> snapshot_edge \<Rightarrow> string" where
  "edge_other aId e = (if se_sourceNodeId e = aId then se_targetNodeId e else se_sourceNodeId e)"

definition edge_collision :: "string \<Rightarrow> string \<Rightarrow> snapshot_edge \<Rightarrow> snapshot_edge \<Rightarrow> bool" where
  "edge_collision sId other e se \<longleftrightarrow> se_type se = se_type e
     \<and> (se_sourceNodeId se = sId \<and> se_targetNodeId se = other
        \<or> se_targetNodeId se = sId \<and> se_sourceNodeId se = other)"

definition plan_edge :: "string \<Rightarrow> string \<Rightarrow> snapshot_edge list \<Rightarrow> edge_plan \<Rightarrow> snapshot_edge \<Rightarrow> edge_plan" where
  "plan_edge sId aId survivorEdges plan e =
     (let other = edge_other aId e
      in if other = sId \<or> other = aId then plan\<lparr>ep_dropped := ep_dropped plan @ [e]\<rparr>
         else (case find (edge_collision sId other e) survivorEdges of
                 Some c \<Rightarrow> plan\<lparr>ep_collapsed := ep_collapsed plan @ [\<lparr>ec_absorbedEdge = e, ec_survivorEdge = c\<rparr>]\<rparr>
               | None \<Rightarrow> plan\<lparr>ep_moved := ep_moved plan @ [e]\<rparr>))"

definition planEdges :: "merge_side \<Rightarrow> merge_side \<Rightarrow> edge_plan" where
  "planEdges survivor absorbed =
     foldl (plan_edge (sn_id (ms_node survivor)) (sn_id (ms_node absorbed)) (ms_edges survivor))
       \<lparr>ep_dropped = [], ep_collapsed = [], ep_moved = []\<rparr> (ms_edges absorbed)"

section \<open>Properties\<close>

definition RESERVED_PROPERTY_KEYS :: "string list" where
  "RESERVED_PROPERTY_KEYS = [''merged_into'', ''merged_at'', ''is_agent'']"

record property_conflict =
  pc_key :: string
  pc_survivorValue :: jsval
  pc_absorbedValue :: jsval
  pc_default :: side

definition plan_property ::
    "(rat \<Rightarrow> string) \<Rightarrow> snapshot_node \<Rightarrow> snapshot_node
      \<Rightarrow> (string \<times> jsval) list \<times> property_conflict list \<Rightarrow> string \<Rightarrow> (string \<times> jsval) list \<times> property_conflict list" where
  "plan_property ns s a = (\<lambda>(merged, conflicts) key.
     if key \<in> set RESERVED_PROPERTY_KEYS then (merged, conflicts)
     else if \<not> jhas (sn_properties s) key
     then (AList.update key (jfield (sn_properties a) key) merged, conflicts)
     else if deepEqual ns (jfield (sn_properties s) key) (jfield (sn_properties a) key) then (merged, conflicts)
     else (merged, conflicts @
       [\<lparr>pc_key = key, pc_survivorValue = jfield (sn_properties s) key,
         pc_absorbedValue = jfield (sn_properties a) key,
         pc_default = newerSide (sn_lastConfirmedAt s) (sn_lastConfirmedAt a)\<rparr>]))"

definition planProperties ::
    "(rat \<Rightarrow> string) \<Rightarrow> snapshot_node \<Rightarrow> snapshot_node \<Rightarrow> (string \<times> jsval) list \<times> property_conflict list" where
  "planProperties ns s a =
     foldl (plan_property ns s a) (sn_properties s, []) (sort (map fst (sn_properties a)))"

end
