(* ===== verification/KgPlannerProofs.thy ===== *)
theory KgPlannerProofs
  imports KgPlanner
begin

text \<open>
  What a merge plan guarantees: every fact and edge of the absorbed node is accounted for exactly
  once, the edges that move cannot violate the uniqueness of (unordered pair, type), no property
  of the survivor is overwritten and reserved ones are never copied.
\<close>

section \<open>Aliases\<close>

lemma collect_aliases_spec:
  assumes "distinct all" "[] \<notin> set all" "finalKey \<notin> set all"
  shows "distinct (collect_aliases finalKey raws all)
    \<and> set (collect_aliases finalKey raws all) = set all \<union> {k \<in> alias_key ` set raws. k \<noteq> [] \<and> k \<noteq> finalKey}"
  using assms
proof (induction raws arbitrary: all)
  case (Cons r raws)
  let ?k = "alias_key r"
  let ?S = "\<lambda>raws. {k \<in> alias_key ` set raws. k \<noteq> [] \<and> k \<noteq> finalKey}"
  have S: "?S (r # raws) = (if ?k = [] \<or> ?k = finalKey then ?S raws else insert ?k (?S raws))" by auto
  show ?case
  proof (cases "?k = [] \<or> ?k = finalKey \<or> ?k \<in> set all")
    case True
    then have "collect_aliases finalKey (r # raws) all = collect_aliases finalKey raws all" by (simp add: Let_def)
    moreover have "set all \<union> ?S (r # raws) = set all \<union> ?S raws" using True unfolding S by auto
    ultimately show ?thesis using Cons.IH [OF Cons.prems] by simp
  next
    case False
    then have "collect_aliases finalKey (r # raws) all = collect_aliases finalKey raws (all @ [?k])"
      by (simp add: Let_def)
    moreover have "distinct (all @ [?k])" "[] \<notin> set (all @ [?k])" "finalKey \<notin> set (all @ [?k])"
      using False Cons.prems by auto
    from Cons.IH [OF this] have "distinct (collect_aliases finalKey raws (all @ [?k]))
      \<and> set (collect_aliases finalKey raws (all @ [?k])) = set (all @ [?k]) \<union> ?S raws" .
    moreover have "set (all @ [?k]) \<union> ?S raws = set all \<union> ?S (r # raws)" using False unfolding S by auto
    ultimately show ?thesis by simp
  qed
qed simp

lemma computeAliases_spec:
  fixes survivor absorbed label
  defines "p \<equiv> computeAliases survivor absorbed label"
  shows "distinct (al_aliases p @ al_droppedAliases p)
    \<and> set (al_aliases p @ al_droppedAliases p)
      = {k \<in> alias_key ` set (sn_aliases survivor @ [sn_label survivor, sn_label absorbed] @ sn_aliases absorbed).
          k \<noteq> [] \<and> k \<noteq> alias_key (al_label p)}
    \<and> length (al_aliases p) \<le> MAX_ALIASES_PER_ENTITY
    \<and> (al_droppedAliases p \<noteq> [] \<longrightarrow> length (al_aliases p) = MAX_ALIASES_PER_ENTITY)"
  using collect_aliases_spec [of "[]" "alias_key (al_label p)"
      "sn_aliases survivor @ [if label = AbsorbedSide then sn_label survivor else sn_label absorbed] @ sn_aliases absorbed"]
  by (cases label) (auto simp: p_def computeAliases_def Let_def)

section \<open>Edges\<close>

definition edge_key :: "snapshot_edge \<Rightarrow> string set \<times> string" where
  "edge_key e = ({se_sourceNodeId e, se_targetNodeId e}, se_type e)"

text \<open>An absorbed edge once its end is the survivor.\<close>

definition repoint_edge :: "string \<Rightarrow> string \<Rightarrow> snapshot_edge \<Rightarrow> snapshot_edge" where
  "repoint_edge aId sId e = e\<lparr>se_sourceNodeId := (if se_sourceNodeId e = aId then sId else se_sourceNodeId e),
     se_targetNodeId := (if se_targetNodeId e = aId then sId else se_targetNodeId e)\<rparr>"

definition between :: "string \<Rightarrow> string \<Rightarrow> snapshot_edge \<Rightarrow> bool" where
  "between sId aId e \<longleftrightarrow> edge_other aId e = sId \<or> edge_other aId e = aId"

definition collides :: "string \<Rightarrow> string \<Rightarrow> snapshot_edge list \<Rightarrow> snapshot_edge \<Rightarrow> bool" where
  "collides sId aId ses e \<longleftrightarrow> find (edge_collision sId (edge_other aId e) e) ses \<noteq> None"

lemma planEdges_filters:
  fixes s a
  defines "sId \<equiv> sn_id (ms_node s)" and "aId \<equiv> sn_id (ms_node a)"
  shows "ep_dropped (planEdges s a) = filter (between sId aId) (ms_edges a)
    \<and> ep_moved (planEdges s a) = filter (\<lambda>e. \<not> between sId aId e \<and> \<not> collides sId aId (ms_edges s) e) (ms_edges a)
    \<and> map ec_absorbedEdge (ep_collapsed (planEdges s a))
      = filter (\<lambda>e. \<not> between sId aId e \<and> collides sId aId (ms_edges s) e) (ms_edges a)"
proof -
  have "ep_dropped (foldl (plan_edge sId aId ses) p es) = ep_dropped p @ filter (between sId aId) es
    \<and> ep_moved (foldl (plan_edge sId aId ses) p es)
      = ep_moved p @ filter (\<lambda>e. \<not> between sId aId e \<and> \<not> collides sId aId ses e) es
    \<and> map ec_absorbedEdge (ep_collapsed (foldl (plan_edge sId aId ses) p es))
      = map ec_absorbedEdge (ep_collapsed p) @ filter (\<lambda>e. \<not> between sId aId e \<and> collides sId aId ses e) es"
    for ses p es
    by (induction es arbitrary: p) (auto simp: plan_edge_def between_def collides_def Let_def split: option.splits)
  then show ?thesis by (simp add: planEdges_def sId_def aId_def)
qed

lemma moved_key:
  assumes "se_sourceNodeId e = aId \<or> se_targetNodeId e = aId" "\<not> between sId aId e"
  shows "edge_key (repoint_edge aId sId e) = ({sId, edge_other aId e}, se_type e)"
    "edge_key e = ({aId, edge_other aId e}, se_type e)" "edge_other aId e \<noteq> sId" "edge_other aId e \<noteq> aId"
  using assms by (auto simp: edge_key_def repoint_edge_def between_def edge_other_def)

lemma collision_key:
  assumes "edge_other aId e \<noteq> sId"
  shows "collides sId aId ses e \<longleftrightarrow> ({sId, edge_other aId e}, se_type e) \<in> edge_key ` set ses"
proof -
  have "edge_collision sId (edge_other aId e) e se \<longleftrightarrow> edge_key se = ({sId, edge_other aId e}, se_type e)" for se
    using assms by (auto simp: edge_collision_def edge_key_def doubleton_eq_iff)
  then show ?thesis by (force simp: collides_def find_None_iff)
qed

text \<open>
  Moving edges is safe for the unique index over (unordered pair, type): given that the absorbed
  node's edges touch it and are distinct under that key, every absorbed edge is dropped (it joined
  the two nodes), collapsed onto an edge the survivor already has, or moved, each exactly once; the
  moved ones, with their end re-pointed, are no self-loops, are distinct from each other and from
  every edge of the survivor.
\<close>

theorem moved_edges_unique:
  fixes s a
  defines "sId \<equiv> sn_id (ms_node s)" and "aId \<equiv> sn_id (ms_node a)"
  assumes "\<forall>e \<in> set (ms_edges a). se_sourceNodeId e = aId \<or> se_targetNodeId e = aId"
    and "distinct (map edge_key (ms_edges a))"
  shows "mset (ep_dropped (planEdges s a) @ map ec_absorbedEdge (ep_collapsed (planEdges s a)) @ ep_moved (planEdges s a))
      = mset (ms_edges a)
    \<and> distinct (map (edge_key \<circ> repoint_edge aId sId) (ep_moved (planEdges s a)))
    \<and> edge_key ` repoint_edge aId sId ` set (ep_moved (planEdges s a)) \<inter> edge_key ` set (ms_edges s) = {}
    \<and> list_all (\<lambda>e. se_sourceNodeId (repoint_edge aId sId e) \<noteq> se_targetNodeId (repoint_edge aId sId e))
        (ep_moved (planEdges s a))"
proof -
  note pf = planEdges_filters [of s a, folded sId_def aId_def]
  let ?m = "filter (\<lambda>e. \<not> between sId aId e \<and> \<not> collides sId aId (ms_edges s) e) (ms_edges a)"
  have m: "ep_moved (planEdges s a) = ?m" using pf by blast
  have "mset (filter P es) + (mset (filter (\<lambda>e. \<not> P e \<and> Q e) es) + mset (filter (\<lambda>e. \<not> P e \<and> \<not> Q e) es)) = mset es"
    for P Q and es :: "snapshot_edge list"
    by (induction es) auto
  then have part: "mset (ep_dropped (planEdges s a) @ map ec_absorbedEdge (ep_collapsed (planEdges s a)) @ ep_moved (planEdges s a))
      = mset (ms_edges a)"
    using pf by (simp only: mset_append)
  have keys: "edge_key (repoint_edge aId sId e) = ({sId, edge_other aId e}, se_type e)
      \<and> edge_key e = ({aId, edge_other aId e}, se_type e) \<and> edge_other aId e \<noteq> sId \<and> edge_other aId e \<noteq> aId"
    if "e \<in> set ?m" for e
    using that moved_key [of e aId sId] assms(3) by simp
  have "inj_on (edge_key \<circ> repoint_edge aId sId) (set ?m)"
  proof (rule inj_onI)
    fix x y
    assume x: "x \<in> set ?m" and y: "y \<in> set ?m"
      and eq: "(edge_key \<circ> repoint_edge aId sId) x = (edge_key \<circ> repoint_edge aId sId) y"
    have "{sId, edge_other aId x} = {sId, edge_other aId y}" "se_type x = se_type y"
      using eq keys [OF x] keys [OF y] by simp_all
    then have "edge_key x = edge_key y" using keys [OF x] keys [OF y] by (auto simp: doubleton_eq_iff)
    moreover have "x \<in> set (ms_edges a)" "y \<in> set (ms_edges a)" using x y by simp_all
    ultimately show "x = y" using assms(4) by (metis distinct_map inj_onD)
  qed
  moreover have "distinct (ms_edges a)" using assms(4) distinct_map by blast
  then have "distinct ?m" by simp
  ultimately have d: "distinct (map (edge_key \<circ> repoint_edge aId sId) ?m)"
    by (simp add: distinct_map)
  have "edge_key (repoint_edge aId sId e) \<notin> edge_key ` set (ms_edges s)" if "e \<in> set ?m" for e
    using keys [OF that] collision_key [of aId e sId "ms_edges s"] that by simp
  then have dj: "edge_key ` repoint_edge aId sId ` set ?m \<inter> edge_key ` set (ms_edges s) = {}" by blast
  have "se_sourceNodeId (repoint_edge aId sId e) \<noteq> se_targetNodeId (repoint_edge aId sId e)" if "e \<in> set ?m" for e
  proof
    assume "se_sourceNodeId (repoint_edge aId sId e) = se_targetNodeId (repoint_edge aId sId e)"
    then have "\<exists>x. fst (edge_key (repoint_edge aId sId e)) = {x}" by (simp add: edge_key_def)
    with keys [OF that] show False by (auto simp: doubleton_eq_iff)
  qed
  with part d dj show ?thesis unfolding m by (auto simp: list_all_iff)
qed

section \<open>Node properties\<close>

lemma plan_property_fold:
  fixes s a ns
  defines "P \<equiv> \<lambda>k. k \<notin> set RESERVED_PROPERTY_KEYS"
  shows "distinct ks \<Longrightarrow>
    snd (foldl (plan_property ns s a) (m, cs) ks) = cs @
      map (\<lambda>k. \<lparr>pc_key = k, pc_survivorValue = jfield (sn_properties s) k, pc_absorbedValue = jfield (sn_properties a) k,
             pc_default = newerSide (sn_lastConfirmedAt s) (sn_lastConfirmedAt a)\<rparr>)
        (filter (\<lambda>k. P k \<and> jhas (sn_properties s) k
            \<and> \<not> deepEqual ns (jfield (sn_properties s) k) (jfield (sn_properties a) k)) ks)
    \<and> (\<forall>k. map_of (fst (foldl (plan_property ns s a) (m, cs) ks)) k =
        (if k \<in> set ks \<and> P k \<and> \<not> jhas (sn_properties s) k then Some (jfield (sn_properties a) k) else map_of m k))"
proof (induction ks arbitrary: m cs)
  case (Cons k ks)
  show ?case
    using Cons by (auto simp: plan_property_def P_def)
qed simp

text \<open>
  The merged properties, key by key: a property of the survivor is never overwritten; one only the
  absorbed node has is copied, unless it is reserved (\<open>merged_into\<close>, \<open>merged_at\<close>, \<open>is_agent\<close>); and the
  conflicts offered are exactly the unreserved keys both have with values that differ, in key
  order, defaulting to the side confirmed later (the survivor on a tie).
\<close>

theorem merged_properties:
  assumes "distinct (map fst (sn_properties a))"
  shows "map_of (fst (planProperties ns s a)) k =
      (case map_of (sn_properties s) k of
         Some v \<Rightarrow> Some v
       | None \<Rightarrow> if k \<in> set RESERVED_PROPERTY_KEYS then None else map_of (sn_properties a) k)
    \<and> map pc_key (snd (planProperties ns s a)) =
        sort (filter (\<lambda>k. k \<notin> set RESERVED_PROPERTY_KEYS \<and> jhas (sn_properties s) k
          \<and> \<not> deepEqual ns (jfield (sn_properties s) k) (jfield (sn_properties a) k)) (map fst (sn_properties a)))
    \<and> list_all (\<lambda>c. pc_default c = (if sn_lastConfirmedAt s < sn_lastConfirmedAt a then AbsorbedSide else SurvivorSide))
        (snd (planProperties ns s a))"
proof -
  have d: "distinct (sort (map fst (sn_properties a)))" using assms by simp
  note pf = plan_property_fold [OF d, where m = "sn_properties s" and cs = "[]" and s = s and a = a and ns = ns]
  have "map_of (fst (planProperties ns s a)) k =
      (case map_of (sn_properties s) k of
         Some v \<Rightarrow> Some v
       | None \<Rightarrow> if k \<in> set RESERVED_PROPERTY_KEYS then None else map_of (sn_properties a) k)"
  proof -
    have "map_of (fst (planProperties ns s a)) k =
        (if k \<in> set (map fst (sn_properties a)) \<and> k \<notin> set RESERVED_PROPERTY_KEYS \<and> \<not> jhas (sn_properties s) k
         then Some (jfield (sn_properties a) k) else map_of (sn_properties s) k)"
      using pf by (simp add: planProperties_def)
    moreover have "k \<in> set (map fst (sn_properties a)) \<longleftrightarrow> map_of (sn_properties a) k \<noteq> None"
      by (simp add: map_of_eq_None_iff)
    ultimately show ?thesis by (auto simp: jhas_def jfield_def split: option.splits)
  qed
  moreover have "map pc_key (snd (planProperties ns s a)) =
        sort (filter (\<lambda>k. k \<notin> set RESERVED_PROPERTY_KEYS \<and> jhas (sn_properties s) k
          \<and> \<not> deepEqual ns (jfield (sn_properties s) k) (jfield (sn_properties a) k)) (map fst (sn_properties a)))"
    using pf by (simp add: planProperties_def comp_def filter_sort)
  moreover have "list_all (\<lambda>c. pc_default c = (if sn_lastConfirmedAt s < sn_lastConfirmedAt a then AbsorbedSide else SurvivorSide))
        (snd (planProperties ns s a))"
    using pf by (simp add: planProperties_def newerSide_def list_all_iff)
  ultimately show ?thesis by blast
qed

text \<open>A small node for the witnesses.\<close>

definition demo_node :: "string \<Rightarrow> string \<Rightarrow> (string \<times> jsval) list \<Rightarrow> snapshot_node" where
  "demo_node nid label props =
     \<lparr>sn_id = nid, sn_type = ''person'', sn_label = label, sn_properties = props, sn_embedding = None,
      sn_embeddingModel = None, sn_confidence = 1/2, sn_decayClass = SlowDecay, sn_source = ''test'',
      sn_sensitivity = SInternal, sn_createdAt = ''2026'', sn_lastConfirmedAt = ''2026'', sn_archivedAt = None,
      sn_warnedAt = None, sn_warnReason = None, sn_aliases = [], sn_identitySource = ''label''\<rparr>"

definition demo_side :: "string \<Rightarrow> snapshot_fact list \<Rightarrow> snapshot_edge list \<Rightarrow> merge_side" where
  "demo_side nid facts edges =
     \<lparr>ms_node = demo_node nid nid [], ms_facts = facts, ms_edges = edges, ms_contacts = []\<rparr>"

definition demo_edge :: "string \<Rightarrow> string \<Rightarrow> string \<Rightarrow> snapshot_edge" where
  "demo_edge eid src tgt = \<lparr>se_id = eid, se_sourceNodeId = src, se_targetNodeId = tgt, se_type = ''knows'',
     se_properties = [], se_confidence = 1, se_decayClass = Permanent, se_source = ''test'',
     se_createdAt = ''2026'', se_lastConfirmedAt = ''2026''\<rparr>"

theorem moved_edges_unique_witness:
  "distinct (map (edge_key \<circ> repoint_edge ''a'' ''s'')
     (ep_moved (planEdges (demo_side ''s'' [] [demo_edge ''e1'' ''s'' ''x''])
        (demo_side ''a'' [] [demo_edge ''e2'' ''x'' ''a'', demo_edge ''e3'' ''a'' ''y'']))))"
proof -
  let ?s = "demo_side ''s'' [] [demo_edge ''e1'' ''s'' ''x'']"
  let ?a = "demo_side ''a'' [] [demo_edge ''e2'' ''x'' ''a'', demo_edge ''e3'' ''a'' ''y'']"
  have "\<forall>e \<in> set (ms_edges ?a). se_sourceNodeId e = sn_id (ms_node ?a) \<or> se_targetNodeId e = sn_id (ms_node ?a)"
    "distinct (map edge_key (ms_edges ?a))"
    by (simp_all add: demo_side_def demo_node_def demo_edge_def edge_key_def doubleton_eq_iff)
  from moved_edges_unique [OF this, of ?s] show ?thesis
    by (simp add: demo_side_def demo_node_def)
qed

theorem merged_properties_witness:
  "map_of (fst (planProperties (\<lambda>_. []) (demo_node ''s'' ''S'' [(''k'', JNull)])
      (demo_node ''a'' ''A'' [(''is_agent'', JBool True), (''k'', JBool True)]))) ''is_agent'' = None"
proof -
  have "distinct (map fst (sn_properties (demo_node ''a'' ''A'' [(''is_agent'', JBool True), (''k'', JBool True)])))"
    by (simp add: demo_node_def)
  from merged_properties [OF this, of "\<lambda>_. []" "demo_node ''s'' ''S'' [(''k'', JNull)]" "''is_agent''"]
  show ?thesis by (simp add: demo_node_def RESERVED_PROPERTY_KEYS_def)
qed

section \<open>Facts\<close>

definition gsum :: "(string \<times> 'a list) list \<Rightarrow> 'a multiset" where
  "gsum g = sum_list (map (\<lambda>p. mset (snd p)) g)"

lemma gsum_simps [simp]: "gsum [] = {#}" "gsum (p # g) = mset (snd p) + gsum g"
  by (simp_all add: gsum_def)

lemma gsum_update:
  "gsum (AList.update k v g) + mset (case map_of g k of Some xs \<Rightarrow> xs | None \<Rightarrow> []) = gsum g + mset v"
  by (induction g) (auto simp: ac_simps)

lemma groupByAttribute_spec:
  "owf (groupByAttribute fs) \<and> gsum (groupByAttribute fs) = mset (filter (\<lambda>f. \<not> is_plain f) fs)"
proof (induction fs rule: rev_induct)
  case Nil
  show ?case by (simp add: groupByAttribute_def)
next
  case (snoc f fs)
  let ?g = "groupByAttribute fs"
  have g: "groupByAttribute (fs @ [f]) = add_to_group ?g f" by (simp add: groupByAttribute_def)
  show ?case
  proof (cases "factAttribute (sf_node f)")
    case None
    with snoc g show ?thesis by (simp add: add_to_group_def is_plain_def)
  next
    case (Some k)
    have "gsum (add_to_group ?g f) = gsum ?g + {#f#}"
      using gsum_update [of k "(case map_of ?g k of Some xs \<Rightarrow> xs | None \<Rightarrow> []) @ [f]" ?g] Some
      by (simp add: add_to_group_def)
    with Some snoc g show ?thesis by (simp add: add_to_group_def is_plain_def)
  qed
qed

lemma gsum_sorted_keys:
  assumes "owf g"
  shows "sum_list (map (\<lambda>k. mset (case map_of g k of Some xs \<Rightarrow> xs | None \<Rightarrow> [])) (sort (map fst g))) = gsum g"
proof -
  have "sum_list (map h (sort ks)) = sum_list (map h ks)" for h :: "string \<Rightarrow> 'a multiset" and ks
    by (metis mset_map mset_sort sum_mset_sum_list)
  moreover have "map (\<lambda>k. mset (case map_of g k of Some xs \<Rightarrow> xs | None \<Rightarrow> [])) (map fst g)
      = map (\<lambda>p. mset (snd p)) g"
    using assms by (auto simp: owf_def)
  ultimately show ?thesis unfolding gsum_def by metis
qed

lemma match_values_spec:
  "match_values ns sg as = (cs, rs) \<Longrightarrow>
    mset (map cl_absorbedFact cs) + mset (map sf_node rs) = mset (map sf_node as)
    \<and> rs = filter (\<lambda>a. filter (\<lambda>s. factValueKey ns (sf_node s) = factValueKey ns (sf_node a)) sg = []) as"
proof (induction as arbitrary: cs rs)
  case (Cons a as)
  obtain cs' rs' where r: "match_values ns sg as = (cs', rs')" by fastforce
  show ?case
    using Cons.IH [OF r] Cons.prems r by (auto simp: Let_def split: if_splits)
qed simp

lemma match_labels_spec:
  "match_labels sp as = (cs, rs) \<Longrightarrow>
    mset (map cl_absorbedFact cs) + mset (map sf_node rs) = mset (map sf_node as)
    \<and> rs = filter (\<lambda>a. filter (\<lambda>s. normalizeFactText (sn_label (sf_node s)) = normalizeFactText (sn_label (sf_node a))) sp = []) as"
proof (induction as arbitrary: cs rs)
  case (Cons a as)
  obtain cs' rs' where r: "match_labels sp as = (cs', rs')" by fastforce
  show ?case
    using Cons.IH [OF r] Cons.prems r by (auto simp: Let_def split: if_splits)
qed simp

text \<open>Which absorbed facts a partial plan accounts for, by id.\<close>

definition planned_ids :: "fact_move list \<times> fact_collapse list \<times> fact_conflict list \<Rightarrow> string multiset" where
  "planned_ids p = (case p of (ms, cs, fs) \<Rightarrow>
     mset (map (\<lambda>m. sn_id (mv_fact m)) ms) + mset (map (\<lambda>c. sn_id (cl_absorbedFact c)) cs)
     + mset (map (\<lambda>c. sn_id (fc_absorbedFact c)) fs))"

lemma plan_attribute_ids:
  assumes "distinct (map fact_id ag)"
  shows "planned_ids (plan_attribute ns attr sg ag) = mset (map fact_id ag)"
proof (cases sg)
  case None
  then show ?thesis
    by (simp add: plan_attribute_def planned_ids_def as_move_def image_mset.compositionality comp_def)
next
  case (Some sGroup)
  obtain cs rs where r: "match_values ns sGroup ag = (cs, rs)" by fastforce
  from match_values_spec [OF r] have
    part: "mset (map cl_absorbedFact cs) + mset (map sf_node rs) = mset (map sf_node ag)"
    and sub: "rs = filter (\<lambda>a. filter (\<lambda>s. factValueKey ns (sf_node s) = factValueKey ns (sf_node a)) sGroup = []) ag" by blast+
  have ids: "mset (map (\<lambda>c. sn_id (cl_absorbedFact c)) cs) + mset (map fact_id rs) = mset (map fact_id ag)"
    using arg_cong [OF part, of "image_mset sn_id"] by (simp add: image_mset.compositionality comp_def)
  have d: "distinct (map fact_id rs)" unfolding sub using assms by (rule distinct_map_filter)
  show ?thesis
  proof (cases "rs = [] \<or> list_ex (\<lambda>f. isMultiValued (sf_node f)) (sGroup @ rs)")
    case True
    then show ?thesis using ids r Some
      by (auto simp: plan_attribute_def planned_ids_def as_move_def image_mset.compositionality comp_def ac_simps)
  next
    case False
    define best where "best = newest (map sf_node rs)"
    have "best \<in> set (map sf_node rs)" unfolding best_def by (rule newest_mem) (use False in simp)
    then obtain b where f: "find (\<lambda>f. fact_id f = sn_id best) rs = Some b"
      by (cases "find (\<lambda>f. fact_id f = sn_id best) rs") (auto simp: find_None_iff)
    then have b: "b \<in> set rs" by (auto simp: find_Some_iff)
    have "mset (map fact_id rs) = add_mset (fact_id b) (mset (map fact_id (filter (\<lambda>f. fact_id f \<noteq> fact_id b) rs)))"
      using arg_cong [OF mset_remove_key [OF d b], of "image_mset fact_id"] by simp
    moreover have "plan_attribute ns attr sg ag =
       (map as_move (filter (\<lambda>f. fact_id f \<noteq> fact_id b) rs), cs,
        [\<lparr>fc_id = factConflictId (sn_id (newest (map sf_node sGroup))) (fact_id b), fc_attribute = attr,
          fc_survivorFact = newest (map sf_node sGroup), fc_absorbedFact = sf_node b,
          fc_absorbedLinkEdgeIds = sf_linkEdgeIds b,
          fc_default = newerSide (sn_lastConfirmedAt (newest (map sf_node sGroup))) (sn_lastConfirmedAt (sf_node b))\<rparr>])"
      using False r Some f by (simp add: plan_attribute_def Let_def best_def)
    ultimately show ?thesis using ids
      by (simp add: planned_ids_def as_move_def image_mset.compositionality comp_def ac_simps)
  qed
qed

lemma plan_attributes_ids:
  assumes "distinct (map fact_id fs)"
  shows "planned_ids (plan_attributes ns sfs fs) = mset (map fact_id (filter (\<lambda>f. \<not> is_plain f) fs))"
proof -
  let ?g = "groupByAttribute fs"
  let ?group = "\<lambda>k. case map_of ?g k of Some xs \<Rightarrow> xs | None \<Rightarrow> []"
  let ?step = "\<lambda>k. plan_attribute ns k (map_of (groupByAttribute sfs) k) (?group k)"
  have owf: "owf ?g" and gs: "gsum ?g = mset (filter (\<lambda>f. \<not> is_plain f) fs)"
    using groupByAttribute_spec by blast+
  have sub: "mset (?group k) \<subseteq># gsum ?g" for k
  proof -
    have "map_of g k = Some xs \<Longrightarrow> mset xs \<subseteq># gsum g" for g :: "(string \<times> snapshot_fact list) list" and xs
      by (induction g) (auto split: if_splits intro: subset_mset.order_trans subset_mset.add_increasing)
    then show ?thesis by (auto split: option.split)
  qed
  have d: "distinct (map fact_id (?group k))" for k
  proof -
    have "mset (map fact_id (?group k)) \<subseteq># mset (map fact_id (filter (\<lambda>f. \<not> is_plain f) fs))"
      using image_mset_subseteq_mono [OF sub [of k], of fact_id] by (simp add: gs)
    moreover have "distinct (map fact_id (filter (\<lambda>f. \<not> is_plain f) fs))"
      using assms by (rule distinct_map_filter)
    ultimately show ?thesis by (rule distinct_sub_mset)
  qed
  have cat: "planned_ids (concat (map fst ps), concat (map (fst \<circ> snd) ps), concat (map (snd \<circ> snd) ps))
      = sum_list (map planned_ids ps)" for ps
    by (induction ps) (auto simp: planned_ids_def ac_simps split: prod.splits)
  have "planned_ids (plan_attributes ns sfs fs) = sum_list (map planned_ids (map ?step (sort (map fst ?g))))"
    unfolding plan_attributes_def Let_def cat ..
  also have "\<dots> = sum_list (map (\<lambda>k. mset (map fact_id (?group k))) (sort (map fst ?g)))"
    unfolding map_map by (simp add: comp_def plan_attribute_ids [OF d])
  also have "\<dots> = image_mset fact_id (sum_list (map (\<lambda>k. mset (?group k)) (sort (map fst ?g))))"
  proof -
    have "sum_list (map (\<lambda>k. mset (map fact_id (h k))) ks) = image_mset fact_id (sum_list (map (\<lambda>k. mset (h k)) ks))"
      for h :: "string \<Rightarrow> snapshot_fact list" and ks
      by (induction ks) auto
    then show ?thesis .
  qed
  also have "\<dots> = mset (map fact_id (filter (\<lambda>f. \<not> is_plain f) fs))"
    unfolding gsum_sorted_keys [OF owf] gs by simp
  finally show ?thesis .
qed

lemma pair_greedily_spec:
  "distinct (map (\<lambda>d. sn_id (nd_absorbedFact d)) (pair_greedily ps us vs))
   \<and> distinct (map (\<lambda>d. sn_id (nd_survivorFact d)) (pair_greedily ps us vs))
   \<and> (\<forall>d \<in> set (pair_greedily ps us vs). sn_id (nd_absorbedFact d) \<notin> set vs \<and> sn_id (nd_survivorFact d) \<notin> set us
        \<and> (\<exists>p \<in> set ps. nd_absorbedFact d = sf_node (np_a p) \<and> nd_survivorFact d = np_s p))"
proof (induction ps arbitrary: us vs)
  case (Cons p ps)
  show ?case
  proof (cases "sn_id (np_s p) \<in> set us \<or> fact_id (np_a p) \<in> set vs")
    case True
    with Cons [of us vs] show ?thesis by auto
  next
    case False
    with Cons [of "sn_id (np_s p) # us" "fact_id (np_a p) # vs"] show ?thesis by auto
  qed
qed simp

lemma near_pair_absorbed:
  "p \<in> set (near_pairs_of sim ts sp a) \<Longrightarrow> np_a p = a \<and> sn_id (np_s p) \<notin> set ts \<and> np_s p \<in> sf_node ` set sp"
  by (auto simp: near_pairs_of_def split: option.splits if_splits prod.splits)

text \<open>A list split by the ids in a set, as multisets of ids.\<close>

lemma ids_split:
  assumes "distinct (map f xs)" "distinct ys" "set ys \<subseteq> f ` set xs"
  shows "mset (map f xs) = mset ys + mset (map f (filter (\<lambda>x. f x \<notin> set ys) xs))"
proof -
  have "mset (map f xs) = mset (map f (filter (\<lambda>x. f x \<in> set ys) xs)) + mset (map f (filter (\<lambda>x. f x \<notin> set ys) xs))"
    by (induction xs) auto
  moreover have "mset (map f (filter (\<lambda>x. f x \<in> set ys) xs)) = mset ys"
  proof -
    have "set (map f (filter (\<lambda>x. f x \<in> set ys) xs)) = set ys" using assms(3) by auto
    moreover have "distinct (map f (filter (\<lambda>x. f x \<in> set ys) xs))" using assms(1) by (rule distinct_map_filter)
    ultimately show ?thesis using assms(2) by (metis set_eq_iff_mset_eq_distinct)
  qed
  ultimately show ?thesis by simp
qed

text \<open>
  No fact of the absorbed node is lost or planned twice: given distinct fact ids, each absorbed
  fact is in exactly one of the moves, the automatic duplicates, the conflicts, the
  near-duplicates and the facts shared by both nodes. Near-duplicate pairing is one-to-one, and
  never pairs a survivor fact that has already absorbed an exact duplicate.
\<close>

theorem facts_partitioned:
  assumes "distinct (map fact_id (ms_facts absorbed))"
  shows "mset (map fact_id (ms_facts absorbed)) =
      mset (map (\<lambda>m. sn_id (mv_fact m)) (fp_moves (planFacts ns survivor absorbed sim)))
      + mset (map (\<lambda>c. sn_id (cl_absorbedFact c)) (fp_collapses (planFacts ns survivor absorbed sim)))
      + mset (map (\<lambda>c. sn_id (fc_absorbedFact c)) (fp_conflicts (planFacts ns survivor absorbed sim)))
      + mset (map (\<lambda>d. sn_id (nd_absorbedFact d)) (fp_nearDuplicates (planFacts ns survivor absorbed sim)))
      + mset (fp_sharedFactIds (planFacts ns survivor absorbed sim))
    \<and> distinct (map (\<lambda>d. sn_id (nd_survivorFact d)) (fp_nearDuplicates (planFacts ns survivor absorbed sim)))
    \<and> (\<lambda>d. sn_id (nd_survivorFact d)) ` set (fp_nearDuplicates (planFacts ns survivor absorbed sim))
      \<inter> (\<lambda>c. sn_id (cl_survivorFact c)) ` set (fp_collapses (planFacts ns survivor absorbed sim)) = {}"
proof -
  let ?sids = "map fact_id (ms_facts survivor)"
  define shared where "shared = filter (\<lambda>f. fact_id f \<in> set ?sids) (ms_facts absorbed)"
  define only where "only = filter (\<lambda>f. fact_id f \<notin> set ?sids) (ms_facts absorbed)"
  obtain am ac cf where pa: "plan_attributes ns (ms_facts survivor) only = (am, ac, cf)" by (metis prod_cases3)
  define sp where "sp = filter is_plain (ms_facts survivor)"
  obtain lc pr where ml: "match_labels sp (filter is_plain only) = (lc, pr)" by fastforce
  define targets where "targets = map (sn_id \<circ> cl_survivorFact) (ac @ lc)"
  define pairs where "pairs = js_sort_by pair_le (concat (map (near_pairs_of sim targets sp) pr))"
  define near where "near = pair_greedily pairs [] []"
  define nids where "nids = map (sn_id \<circ> nd_absorbedFact) near"
  have plan: "fp_moves (planFacts ns survivor absorbed sim)
        = js_sort_by (\<lambda>x y. sn_id (mv_fact x) \<le> sn_id (mv_fact y)) (am @ map as_move (filter (\<lambda>f. fact_id f \<notin> set nids) pr))"
      "fp_collapses (planFacts ns survivor absorbed sim)
        = js_sort_by (\<lambda>x y. sn_id (cl_absorbedFact x) \<le> sn_id (cl_absorbedFact y)) (ac @ lc)"
      "fp_conflicts (planFacts ns survivor absorbed sim) = js_sort_by (\<lambda>x y. fc_id x \<le> fc_id y) cf"
      "fp_nearDuplicates (planFacts ns survivor absorbed sim) = js_sort_by (\<lambda>x y. nd_id x \<le> nd_id y) near"
      "fp_sharedFactIds (planFacts ns survivor absorbed sim) = sort (map fact_id shared)"
    using pa ml unfolding planFacts_def Let_def only_def [symmetric] shared_def [symmetric] sp_def [symmetric]
    by (simp_all add: targets_def [symmetric] pairs_def [symmetric] near_def [symmetric] nids_def [symmetric]
        del: map_append set_map)
  have donly: "distinct (map fact_id only)" unfolding only_def using assms by (rule distinct_map_filter)
  have attr: "mset (map (\<lambda>m. sn_id (mv_fact m)) am) + mset (map (\<lambda>c. sn_id (cl_absorbedFact c)) ac)
      + mset (map (\<lambda>c. sn_id (fc_absorbedFact c)) cf) = mset (map fact_id (filter (\<lambda>f. \<not> is_plain f) only))"
    using plan_attributes_ids [OF donly, of ns "ms_facts survivor"] by (simp add: pa planned_ids_def)
  note mls = match_labels_spec [OF ml]
  have labels: "mset (map (\<lambda>c. sn_id (cl_absorbedFact c)) lc) + mset (map fact_id pr) = mset (map fact_id (filter is_plain only))"
    using arg_cong [OF mls [THEN conjunct1], of "image_mset sn_id"]
    by (simp add: image_mset.compositionality comp_def)
  have dpr: "distinct (map fact_id pr)"
    using mls donly by (metis distinct_map_filter)
  have near_p: "\<exists>p \<in> set pairs. nd_absorbedFact d = sf_node (np_a p) \<and> nd_survivorFact d = np_s p" if "d \<in> set near" for d
    using pair_greedily_spec [of pairs "[]" "[]"] that by (simp add: near_def)
  have pairs_p: "np_a p \<in> set pr \<and> sn_id (np_s p) \<notin> set targets" if "p \<in> set pairs" for p
    using that near_pair_absorbed by (fastforce simp: pairs_def)
  have "set nids \<subseteq> fact_id ` set pr"
    using near_p pairs_p by (fastforce simp: nids_def)
  moreover have "distinct nids" using pair_greedily_spec [of pairs "[]" "[]"]
    by (simp add: nids_def near_def comp_def)
  ultimately have pr: "mset (map fact_id pr) = mset nids + mset (map fact_id (filter (\<lambda>f. fact_id f \<notin> set nids) pr))"
    by (intro ids_split [OF dpr])
  have split: "mset (map fact_id (ms_facts absorbed)) = mset (map fact_id shared)
      + (mset (map fact_id (filter (\<lambda>f. \<not> is_plain f) only)) + mset (map fact_id (filter is_plain only)))"
  proof -
    have "mset (map fact_id xs) = mset (map fact_id (filter P xs))
      + (mset (map fact_id (filter (\<lambda>f. \<not> is_plain f) (filter (\<lambda>f. \<not> P f) xs)))
         + mset (map fact_id (filter is_plain (filter (\<lambda>f. \<not> P f) xs))))" for P xs
      by (induction xs) (auto simp: filter_filter_mset)
    then show ?thesis unfolding shared_def only_def .
  qed
  have "mset (map fact_id (ms_facts absorbed)) =
      mset (map (\<lambda>m. sn_id (mv_fact m)) (fp_moves (planFacts ns survivor absorbed sim)))
      + mset (map (\<lambda>c. sn_id (cl_absorbedFact c)) (fp_collapses (planFacts ns survivor absorbed sim)))
      + mset (map (\<lambda>c. sn_id (fc_absorbedFact c)) (fp_conflicts (planFacts ns survivor absorbed sim)))
      + mset (map (\<lambda>d. sn_id (nd_absorbedFact d)) (fp_nearDuplicates (planFacts ns survivor absorbed sim)))
      + mset (fp_sharedFactIds (planFacts ns survivor absorbed sim))"
    unfolding split plan attr [symmetric] labels [symmetric] pr
    by (simp add: nids_def as_move_def image_mset.compositionality comp_def ac_simps)
  moreover have "distinct (map (\<lambda>d. sn_id (nd_survivorFact d)) (fp_nearDuplicates (planFacts ns survivor absorbed sim)))"
    using pair_greedily_spec [of pairs "[]" "[]"] by (simp add: plan near_def)
  moreover have "(\<lambda>d. sn_id (nd_survivorFact d)) ` set (fp_nearDuplicates (planFacts ns survivor absorbed sim))
      \<inter> (\<lambda>c. sn_id (cl_survivorFact c)) ` set (fp_collapses (planFacts ns survivor absorbed sim)) = {}"
    using near_p pairs_p by (fastforce simp: plan targets_def)
  ultimately show ?thesis by blast
qed

definition demo_fact :: "string \<Rightarrow> string \<Rightarrow> snapshot_fact" where
  "demo_fact fid label = \<lparr>sf_node = demo_node fid label [], sf_linkEdgeIds = [], sf_outsideEdges = []\<rparr>"

theorem facts_partitioned_witness:
  "size (mset (map (\<lambda>m. sn_id (mv_fact m)) (fp_moves (planFacts (\<lambda>_. [])
       (demo_side ''s'' [demo_fact ''f1'' ''likes tea''] []) (demo_side ''a'' [demo_fact ''f2'' ''Likes tea.''] []) None)))
    + mset (map (\<lambda>c. sn_id (cl_absorbedFact c)) (fp_collapses (planFacts (\<lambda>_. [])
       (demo_side ''s'' [demo_fact ''f1'' ''likes tea''] []) (demo_side ''a'' [demo_fact ''f2'' ''Likes tea.''] []) None)))) \<le> 1"
proof -
  let ?a = "demo_side ''a'' [demo_fact ''f2'' ''Likes tea.''] []"
  have "distinct (map fact_id (ms_facts ?a))" by (simp add: demo_side_def)
  from facts_partitioned [OF this, of "\<lambda>_. []" "demo_side ''s'' [demo_fact ''f1'' ''likes tea''] []" None]
  have "size (mset (map fact_id (ms_facts ?a))) \<ge> size (mset (map (\<lambda>m. sn_id (mv_fact m)) (fp_moves (planFacts (\<lambda>_. [])
       (demo_side ''s'' [demo_fact ''f1'' ''likes tea''] []) ?a None)))
    + mset (map (\<lambda>c. sn_id (cl_absorbedFact c)) (fp_collapses (planFacts (\<lambda>_. [])
       (demo_side ''s'' [demo_fact ''f1'' ''likes tea''] []) ?a None))))" by (simp only: size_union)
  then show ?thesis by (simp add: demo_side_def)
qed

end
