(* ===== verification/KgFactOps.thy ===== *)
theory KgFactOps
  imports KgPlannerProofs "HOL-Library.Monad_Syntax"
begin

text \<open>
  The fact operations of a merge for a set of choices (\<open>buildFactOperations\<close> of
  \<open>src/src/kg-merge/planner.ts\<close>). A deleted fact forwards everything it had gathered to the fact it
  was folded into; later operations on it act on its successor. The loops that follow successors
  are partial functions, so that not returning would be \<open>None\<close>; that they return, that nothing is
  lost on the way and that re-pointed edges stay legal is proved below.
\<close>

section \<open>State\<close>

record fact_update =
  fu_fact :: snapshot_node
  fu_confidence :: rat
  fu_lastConfirmedAt :: string
  fu_sensitivity :: sensitivity
  fu_previousValues :: "jsval list"

record fact_ops =
  fo_deleteFactIds :: "string list"
  fo_relinks :: "(string \<times> string list) list"
  fo_movedFactIds :: "string list"
  fo_updates :: "(string \<times> fact_update) list"
  fo_successor :: "(string \<times> snapshot_node) list"
  fo_collapsedFactCount :: nat

definition set_add :: "string \<Rightarrow> string list \<Rightarrow> string list" where
  "set_add x xs = (if x \<in> set xs then xs else xs @ [x])"

lemma set_set_add [simp]: "set (set_add x xs) = insert x (set xs)"
  by (auto simp: set_add_def)

datatype fold_mode = DuplicateMode | ReplacedMode

definition previousValueEntry :: "(rat \<Rightarrow> string) \<Rightarrow> snapshot_node \<Rightarrow> string \<Rightarrow> jsval" where
  "previousValueEntry ns dropped replacedAt = JObj
     [(''value'', JStr (case factValueString ns dropped of Some v \<Rightarrow> v | None \<Rightarrow> sn_label dropped)),
      (''label'', JStr (sn_label dropped)), (''confidence'', JNum (Fin (sn_confidence dropped))),
      (''source'', JStr (sn_source dropped)), (''replaced_at'', JStr replacedAt),
      (''reason'', JStr ''node_merge'')]"

definition existingHistory :: "snapshot_node \<Rightarrow> jsval list" where
  "existingHistory f =
     (case jfield (sn_properties f) ''previous_values'' of
        JArr h \<Rightarrow> filter (\<lambda>v. typeof_object v \<and> v \<noteq> JNull) h
      | _ \<Rightarrow> [])"

section \<open>Folding one fact into another\<close>

partial_function (option) live :: "(string \<times> snapshot_node) list \<Rightarrow> snapshot_node \<Rightarrow> snapshot_node option" where
  "live successor current =
     (case map_of successor (sn_id current) of
        None \<Rightarrow> Some current
      | Some n \<Rightarrow> live successor n)"

definition stateOf :: "fact_ops \<Rightarrow> snapshot_node \<Rightarrow> fact_update" where
  "stateOf st f =
     (case map_of (fo_updates st) (sn_id f) of
        Some u \<Rightarrow> u
      | None \<Rightarrow> \<lparr>fu_fact = f, fu_confidence = sn_confidence f, fu_lastConfirmedAt = sn_lastConfirmedAt f,
          fu_sensitivity = sn_sensitivity f, fu_previousValues = []\<rparr>)"

text \<open>\<open>fold\<close>, once both facts are resolved: what the kept fact has afterwards.\<close>

definition absorb_state ::
    "(rat \<Rightarrow> string) \<Rightarrow> string \<Rightarrow> fold_mode \<Rightarrow> snapshot_node \<Rightarrow> fact_update \<Rightarrow> fact_update \<Rightarrow> fact_update" where
  "absorb_state ns replacedAt mode lost source into =
     into\<lparr>fu_sensitivity := maxSensitivity (fu_sensitivity into) (fu_sensitivity source),
          fu_confidence := (if mode = DuplicateMode then max (fu_confidence into) (fu_confidence source)
                            else fu_confidence into),
          fu_lastConfirmedAt := (if mode = DuplicateMode
                                 then maxIso (fu_lastConfirmedAt into) (fu_lastConfirmedAt source)
                                 else fu_lastConfirmedAt into),
          fu_previousValues := fu_previousValues into @ existingHistory lost @ fu_previousValues source
            @ (if mode = ReplacedMode then [previousValueEntry ns lost replacedAt] else [])\<rparr>"

definition fold_roots ::
    "(rat \<Rightarrow> string) \<Rightarrow> string \<Rightarrow> fold_mode \<Rightarrow> snapshot_node \<Rightarrow> snapshot_node \<Rightarrow> fact_ops \<Rightarrow> fact_ops" where
  "fold_roots ns replacedAt mode keep lost st =
     st\<lparr>fo_updates := AList.delete (sn_id lost)
          (AList.update (sn_id keep)
             (absorb_state ns replacedAt mode lost (stateOf st lost) (stateOf st keep)) (fo_updates st)),
        fo_deleteFactIds := set_add (sn_id lost) (fo_deleteFactIds st),
        fo_successor := AList.update (sn_id lost) keep (fo_successor st)\<rparr>"

definition fold_fact ::
    "(rat \<Rightarrow> string) \<Rightarrow> string \<Rightarrow> fold_mode \<Rightarrow> snapshot_node \<Rightarrow> snapshot_node \<Rightarrow> fact_ops \<Rightarrow> (bool \<times> fact_ops) option" where
  "fold_fact ns replacedAt mode keepFact dropFact st =
     do { keep \<leftarrow> live (fo_successor st) keepFact;
          lost \<leftarrow> live (fo_successor st) dropFact;
          if sn_id keep = sn_id lost then Some (False, st)
          else Some (True, fold_roots ns replacedAt mode keep lost st) }"

definition relink :: "snapshot_node \<Rightarrow> string list \<Rightarrow> fact_ops \<Rightarrow> fact_ops" where
  "relink f linkEdgeIds st =
     (if sn_id f \<in> set (fo_deleteFactIds st) then st
      else st\<lparr>fo_relinks := AList.update (sn_id f) linkEdgeIds (fo_relinks st),
              fo_movedFactIds := set_add (sn_id f) (fo_movedFactIds st)\<rparr>)"

definition count_if :: "bool \<times> fact_ops \<Rightarrow> fact_ops" where
  "count_if r = (case r of (folded, st) \<Rightarrow>
     if folded then st\<lparr>fo_collapsedFactCount := Suc (fo_collapsedFactCount st)\<rparr> else st)"

section \<open>The operations of a plan\<close>

record fact_choices =
  ch_facts :: "(string \<times> fact_choice) list"
  ch_nearDuplicateFacts :: "(string \<times> near_choice) list"

definition collapse_step ::
    "(rat \<Rightarrow> string) \<Rightarrow> string \<Rightarrow> fact_collapse \<Rightarrow> fact_ops \<Rightarrow> fact_ops option" where
  "collapse_step ns replacedAt c st =
     do { r \<leftarrow> fold_fact ns replacedAt DuplicateMode (cl_survivorFact c) (cl_absorbedFact c) st;
          Some (count_if r) }"

definition side_choice :: "side \<Rightarrow> fact_choice" where
  "side_choice s = (case s of SurvivorSide \<Rightarrow> ChooseSurvivor | AbsorbedSide \<Rightarrow> ChooseAbsorbed)"

definition conflict_step ::
    "(rat \<Rightarrow> string) \<Rightarrow> string \<Rightarrow> fact_choices \<Rightarrow> fact_conflict \<Rightarrow> fact_ops \<Rightarrow> fact_ops option" where
  "conflict_step ns replacedAt choices c st =
     (case (case map_of (ch_facts choices) (fc_id c) of Some ch \<Rightarrow> ch | None \<Rightarrow> side_choice (fc_default c)) of
        ChooseBoth \<Rightarrow> Some (relink (fc_absorbedFact c) (fc_absorbedLinkEdgeIds c) st)
      | ChooseSurvivor \<Rightarrow>
          do { r \<leftarrow> fold_fact ns replacedAt ReplacedMode (fc_survivorFact c) (fc_absorbedFact c) st; Some (snd r) }
      | ChooseAbsorbed \<Rightarrow>
          do { r \<leftarrow> fold_fact ns replacedAt ReplacedMode (fc_absorbedFact c) (fc_survivorFact c)
                 (relink (fc_absorbedFact c) (fc_absorbedLinkEdgeIds c) st); Some (snd r) })"

definition near_step ::
    "(rat \<Rightarrow> string) \<Rightarrow> string \<Rightarrow> fact_choices \<Rightarrow> near_duplicate \<Rightarrow> fact_ops \<Rightarrow> fact_ops option" where
  "near_step ns replacedAt choices p st =
     (case (case map_of (ch_nearDuplicateFacts choices) (nd_id p) of Some ch \<Rightarrow> ch | None \<Rightarrow> MergeNear) of
        KeepBothNear \<Rightarrow> Some (relink (nd_absorbedFact p) (nd_absorbedLinkEdgeIds p) st)
      | MergeNear \<Rightarrow>
          do { s \<leftarrow> live (fo_successor st) (nd_survivorFact p);
               a \<leftarrow> live (fo_successor st) (nd_absorbedFact p);
               if sn_id s = sn_id a then Some st
               else if fu_confidence (stateOf st s) < fu_confidence (stateOf st a)
               then do { r \<leftarrow> fold_fact ns replacedAt DuplicateMode a s
                           (relink (nd_absorbedFact p) (nd_absorbedLinkEdgeIds p) st);
                         Some (count_if r) }
               else do { r \<leftarrow> fold_fact ns replacedAt DuplicateMode s a st; Some (count_if r) } })"

fun each :: "('a \<Rightarrow> fact_ops \<Rightarrow> fact_ops option) \<Rightarrow> 'a list \<Rightarrow> fact_ops \<Rightarrow> fact_ops option" where
  "each step [] st = Some st"
| "each step (x # xs) st = do { st' \<leftarrow> step x st; each step xs st' }"

definition drop_deleted :: "fact_ops \<Rightarrow> fact_ops" where
  "drop_deleted st =
     st\<lparr>fo_movedFactIds := filter (\<lambda>i. i \<notin> set (fo_deleteFactIds st)) (fo_movedFactIds st),
        fo_relinks := filter (\<lambda>(i, _). i \<notin> set (fo_deleteFactIds st)) (fo_relinks st)\<rparr>"

section \<open>Outside edges of deleted facts\<close>

partial_function (option) liveId :: "(string \<times> snapshot_node) list \<Rightarrow> string \<Rightarrow> string option" where
  "liveId successor i =
     (case map_of successor i of
        None \<Rightarrow> Some i
      | Some n \<Rightarrow> liveId successor (sn_id n))"

definition edgeKey :: "string \<Rightarrow> string \<Rightarrow> string \<Rightarrow> string \<times> string \<times> string" where
  "edgeKey x y t = (if x < y then (x, y, t) else (y, x, t))"

record edge_repoint =
  er_edgeId :: string
  er_sourceNodeId :: string
  er_targetNodeId :: string

definition touchesDeleted :: "fact_ops \<Rightarrow> snapshot_edge \<Rightarrow> bool" where
  "touchesDeleted st e \<longleftrightarrow> se_sourceNodeId e \<in> set (fo_deleteFactIds st) \<or> se_targetNodeId e \<in> set (fo_deleteFactIds st)"

text \<open>The loop over the outside edges: taken keys, re-pointed edges (each with its type) and dropped ids so far.\<close>

fun repoint_loop ::
    "fact_ops \<Rightarrow> snapshot_edge list \<Rightarrow> (string \<times> string \<times> string) list \<times> (edge_repoint \<times> string) list \<times> string list
      \<Rightarrow> ((string \<times> string \<times> string) list \<times> (edge_repoint \<times> string) list \<times> string list) option" where
  "repoint_loop st [] acc = Some acc"
| "repoint_loop st (e # es) (taken, repoints, drops) =
     (if \<not> touchesDeleted st e then repoint_loop st es (taken, repoints, drops)
      else do { src \<leftarrow> liveId (fo_successor st) (se_sourceNodeId e);
                tgt \<leftarrow> liveId (fo_successor st) (se_targetNodeId e);
                let key = edgeKey src tgt (se_type e)
                in if src = tgt \<or> key \<in> set taken then repoint_loop st es (taken, repoints, drops @ [se_id e])
                   else repoint_loop st es
                     (key # taken,
                      repoints @ [(\<lparr>er_edgeId = se_id e, er_sourceNodeId = src, er_targetNodeId = tgt\<rparr>, se_type e)],
                      drops) })"

record built_fact_operations =
  bo_deleteFactIds :: "string list"
  bo_relinkEdgeIds :: "string list"
  bo_deleteLinkEdgeIds :: "string list"
  bo_repointOutsideEdges :: "edge_repoint list"
  bo_dropOutsideEdgeIds :: "string list"
  bo_updates :: "(string \<times> fact_update) list"
  bo_movedFactIds :: "string list"
  bo_collapsedFactCount :: nat

definition fact_steps ::
    "(rat \<Rightarrow> string) \<Rightarrow> fact_plan \<Rightarrow> fact_choices \<Rightarrow> string \<Rightarrow> fact_ops option" where
  "fact_steps ns plan choices replacedAt =
     do { let st0 = \<lparr>fo_deleteFactIds = [], fo_relinks = [], fo_movedFactIds = [], fo_updates = [],
                     fo_successor = [], fo_collapsedFactCount = length (fp_sharedFactIds plan)\<rparr>;
          st1 \<leftarrow> each (\<lambda>m st. Some (relink (mv_fact m) (mv_linkEdgeIds m) st)) (fp_moves plan) st0;
          st2 \<leftarrow> each (collapse_step ns replacedAt) (fp_collapses plan) st1;
          st3 \<leftarrow> each (conflict_step ns replacedAt choices) (fp_conflicts plan) st2;
          st4 \<leftarrow> each (near_step ns replacedAt choices) (fp_nearDuplicates plan) st3;
          Some (drop_deleted st4) }"

definition taken_keys :: "fact_ops \<Rightarrow> snapshot_edge list \<Rightarrow> (string \<times> string \<times> string) list" where
  "taken_keys st es =
     map (\<lambda>e. edgeKey (se_sourceNodeId e) (se_targetNodeId e) (se_type e)) (filter (\<lambda>e. \<not> touchesDeleted st e) es)"

definition buildFactOperations ::
    "(rat \<Rightarrow> string) \<Rightarrow> fact_plan \<Rightarrow> fact_choices \<Rightarrow> string \<Rightarrow> built_fact_operations option" where
  "buildFactOperations ns plan choices replacedAt =
     do { st \<leftarrow> fact_steps ns plan choices replacedAt;
          (_, repoints, drops) \<leftarrow> repoint_loop st (fp_factOutsideEdges plan)
             (taken_keys st (fp_factOutsideEdges plan), [], []);
          Some \<lparr>bo_deleteFactIds = sort (fo_deleteFactIds st),
                bo_relinkEdgeIds = sort (concat (map snd (fo_relinks st))),
                bo_deleteLinkEdgeIds = fp_sharedLinkEdgeIds plan,
                bo_repointOutsideEdges = map fst repoints, bo_dropOutsideEdgeIds = drops,
                bo_updates = fo_updates st, bo_movedFactIds = fo_movedFactIds st,
                bo_collapsedFactCount = fo_collapsedFactCount st\<rparr> }"

end
