(* ===== verification/KgFactOpsProofs.thy ===== *)
theory KgFactOpsProofs
  imports KgFactOps
begin

text \<open>
  Building the fact operations always returns; a fact folded away leaves its sensitivity and its
  history with the fact that stands for it; moved and updated facts are live; re-pointed outside
  edges join live facts, are no self-loops and duplicate no edge.
\<close>

section \<open>Successor chains\<close>

text \<open>
  A successor is live when it is recorded: it is not a key yet, and differs from the key recorded
  with it. So along a chain the positions in the map increase, and one pass over the map in
  insertion order resolves any fact.
\<close>

definition chain_ok :: "(string \<times> snapshot_node) list \<Rightarrow> bool" where
  "chain_ok succ \<longleftrightarrow> distinct (map fst succ)
     \<and> (\<forall>xs k n ys. succ = xs @ (k, n) # ys \<longrightarrow> sn_id n \<notin> fst ` set xs \<and> sn_id n \<noteq> k)"

definition resolve :: "(string \<times> snapshot_node) list \<Rightarrow> snapshot_node \<Rightarrow> snapshot_node" where
  "resolve succ f = foldl (\<lambda>cur (k, n). if k = sn_id cur then n else cur) f succ"

definition resolve_id :: "(string \<times> snapshot_node) list \<Rightarrow> string \<Rightarrow> string" where
  "resolve_id succ i = foldl (\<lambda>cur (k, n). if k = cur then sn_id n else cur) i succ"

lemma chain_ok_Nil [simp]: "chain_ok []"
  by (simp add: chain_ok_def)

lemma chain_ok_snoc:
  assumes "chain_ok succ" "k \<notin> fst ` set succ" "sn_id n \<notin> fst ` set succ" "sn_id n \<noteq> k"
  shows "chain_ok (succ @ [(k, n)])"
  unfolding chain_ok_def
proof (intro conjI allI impI)
  show "distinct (map fst (succ @ [(k, n)]))" using assms by (auto simp: chain_ok_def)
next
  fix xs k' n' ys
  assume eq: "succ @ [(k, n)] = xs @ (k', n') # ys"
  have "sn_id n' \<notin> fst ` set xs \<and> sn_id n' \<noteq> k'"
  proof (cases ys rule: rev_cases)
    case Nil
    with eq assms show ?thesis by simp
  next
    case (snoc zs z)
    with eq have "succ = xs @ (k', n') # zs" by simp
    with assms(1) show ?thesis unfolding chain_ok_def by blast
  qed
  then show "sn_id n' \<notin> fst ` set xs" "sn_id n' \<noteq> k'" by blast+
qed

lemma chain_okD:
  assumes "chain_ok (xs @ (k, n) # ys)"
  shows "sn_id n \<notin> fst ` set (xs @ [(k, n)])"
proof -
  have "sn_id n \<notin> fst ` set xs \<and> sn_id n \<noteq> k" using assms unfolding chain_ok_def by blast
  then show ?thesis by auto
qed

lemma resolve_snoc:
  "resolve (succ @ [(k, n)]) f = (if k = sn_id (resolve succ f) then n else resolve succ f)"
  by (simp add: resolve_def)

lemma resolve_resolve_id: "resolve_id succ (sn_id f) = sn_id (resolve succ f)"
  by (induction succ rule: rev_induct) (auto simp: resolve_def resolve_id_def)

lemma resolve_mem: "resolve succ f \<in> insert f (snd ` set succ)"
proof (induction succ rule: rev_induct)
  case (snoc p succ)
  obtain k n where "p = (k, n)" by (cases p)
  with snoc show ?case by (auto simp: resolve_snoc)
qed (simp add: resolve_def)

lemma live_suffix:
  assumes "chain_ok succ" "succ = xs @ ys" "sn_id f \<notin> fst ` set xs"
  shows "live succ f = Some (resolve ys f) \<and> sn_id (resolve ys f) \<notin> fst ` set succ"
  using assms
proof (induction ys arbitrary: xs f)
  case Nil
  then have "map_of succ (sn_id f) = None" by (simp add: map_of_eq_None_iff)
  then show ?case using Nil by (subst live.simps) (simp add: resolve_def)
next
  case (Cons p ys)
  obtain k n where p: "p = (k, n)" by (cases p)
  show ?case
  proof (cases "k = sn_id f")
    case True
    have "map_of succ k = Some n"
      by (rule map_of_is_SomeI) (use Cons.prems(1,2) p in \<open>auto simp: chain_ok_def\<close>)
    then have "live succ f = live succ n" by (subst live.simps) (simp add: True)
    moreover have "sn_id n \<notin> fst ` set (xs @ [(k, n)])"
      using chain_okD Cons.prems(1,2) p by metis
    ultimately show ?thesis
      using Cons.IH [of "xs @ [(k, n)]" n] Cons.prems(1,2) p True by (simp add: resolve_def)
  next
    case False
    with Cons.IH [of "xs @ [(k, n)]" f] Cons.prems p show ?thesis by (simp add: resolve_def)
  qed
qed

lemma live_resolve: "chain_ok succ \<Longrightarrow> live succ f = Some (resolve succ f)"
  using live_suffix [of succ "[]" succ f] by simp

lemma resolve_root: "chain_ok succ \<Longrightarrow> sn_id (resolve succ f) \<notin> fst ` set succ"
  using live_suffix [of succ "[]" succ f] by simp

lemma liveId_resolve:
  assumes "chain_ok succ"
  shows "liveId succ i = Some (resolve_id succ i) \<and> resolve_id succ i \<notin> fst ` set succ"
proof -
  have "liveId succ i = Some (resolve_id ys i) \<and> resolve_id ys i \<notin> fst ` set succ"
    if "succ = xs @ ys" "i \<notin> fst ` set xs" for xs ys i
    using that
  proof (induction ys arbitrary: xs i)
    case Nil
    then have "map_of succ i = None" by (simp add: map_of_eq_None_iff)
    then show ?case using Nil by (subst liveId.simps) (simp add: resolve_id_def)
  next
    case (Cons p ys)
    obtain k n where p: "p = (k, n)" by (cases p)
    show ?case
    proof (cases "k = i")
      case True
      have "map_of succ k = Some n"
        by (rule map_of_is_SomeI) (use assms Cons.prems(1) p in \<open>auto simp: chain_ok_def\<close>)
      then have "liveId succ i = liveId succ (sn_id n)" by (subst liveId.simps) (simp add: True)
      moreover have "sn_id n \<notin> fst ` set (xs @ [(k, n)])"
        using chain_okD assms Cons.prems(1) p by metis
      ultimately show ?thesis
        using Cons.IH [of "xs @ [(k, n)]" "sn_id n"] Cons.prems(1) p True by (simp add: resolve_id_def)
    next
      case False
      with Cons.IH [of "xs @ [(k, n)]" i] Cons.prems p show ?thesis by (simp add: resolve_id_def)
    qed
  qed
  from this [of "[]" succ i] show ?thesis by simp
qed

section \<open>Single operations\<close>

text \<open>
  What the loops are made of, over the facts \<open>A\<close> of the plan: recording a move, folding one live
  fact into another, counting.
\<close>

inductive op_step :: "(rat \<Rightarrow> string) \<Rightarrow> string \<Rightarrow> snapshot_node set \<Rightarrow> fact_ops \<Rightarrow> fact_ops \<Rightarrow> bool"
  for ns r A where
  relinked: "f \<in> A \<Longrightarrow> op_step ns r A st (relink f ls st)"
| folded: "K \<in> A \<Longrightarrow> D \<in> A \<Longrightarrow> sn_id K \<notin> fst ` set (fo_successor st) \<Longrightarrow> sn_id D \<notin> fst ` set (fo_successor st)
    \<Longrightarrow> sn_id K \<noteq> sn_id D \<Longrightarrow> op_step ns r A st (fold_roots ns r mode K D st)"
| counted: "op_step ns r A st (st\<lparr>fo_collapsedFactCount := n\<rparr>)"

inductive_cases op_stepE: "op_step ns r A st st'"

definition ops_ok :: "snapshot_node set \<Rightarrow> fact_ops \<Rightarrow> bool" where
  "ops_ok A st \<longleftrightarrow> chain_ok (fo_successor st) \<and> snd ` set (fo_successor st) \<subseteq> A
     \<and> set (fo_deleteFactIds st) = fst ` set (fo_successor st)
     \<and> (\<forall>i \<in> fst ` set (fo_successor st). map_of (fo_updates st) i = None)"

lemma update_append_new: "k \<notin> fst ` set m \<Longrightarrow> AList.update k v m = m @ [(k, v)]"
  by (induction m) auto

lemma ops_ok_step:
  assumes "op_step ns r A st st'" "ops_ok A st"
  shows "ops_ok A st'"
  using assms(1)
proof cases
  case (relinked f ls)
  with assms(2) show ?thesis by (simp add: relink_def ops_ok_def)
next
  case (folded K D mode)
  have succ: "fo_successor st' = fo_successor st @ [(sn_id D, K)]"
    using folded by (simp add: fold_roots_def update_append_new)
  have "chain_ok (fo_successor st')"
    unfolding succ using folded assms(2) by (intro chain_ok_snoc) (auto simp: ops_ok_def)
  moreover have "map_of (fo_updates st') i = None" if "i \<in> fst ` set (fo_successor st')" for i
  proof (cases "i = sn_id D")
    case True
    with folded show ?thesis by (simp add: fold_roots_def)
  next
    case False
    with that have i: "i \<in> fst ` set (fo_successor st)" by (simp add: succ)
    have "\<forall>i \<in> fst ` set (fo_successor st). map_of (fo_updates st) i = None"
      using assms(2) unfolding ops_ok_def by (elim conjE)
    then have "map_of (fo_updates st) i = None" by (rule bspec [OF _ i])
    moreover from i folded(4) have "i \<noteq> sn_id K" by blast
    ultimately show ?thesis using folded(1) False by (simp add: fold_roots_def)
  qed
  moreover have "set (fo_deleteFactIds st') = fst ` set (fo_successor st')"
    unfolding succ using folded(1) assms(2) by (simp add: fold_roots_def ops_ok_def)
  ultimately show ?thesis using assms(2) folded(2) by (auto simp: ops_ok_def succ)
next
  case counted
  with assms(2) show ?thesis by (simp add: ops_ok_def)
qed

lemma ops_ok_steps: "(op_step ns r A)\<^sup>*\<^sup>* st st' \<Longrightarrow> ops_ok A st \<Longrightarrow> ops_ok A st'"
  by (induction rule: rtranclp_induct) (auto intro: ops_ok_step)

lemma ops_ok_resolve: "ops_ok A st \<Longrightarrow> f \<in> A \<Longrightarrow> resolve (fo_successor st) f \<in> A"
  using resolve_mem [of "fo_successor st" f] by (auto simp: ops_ok_def)

text \<open>A fold, its lookups resolved.\<close>

lemma fold_fact_steps:
  assumes "ops_ok A st" "kf \<in> A" "df \<in> A"
  shows "\<exists>b st'. fold_fact ns r mode kf df st = Some (b, st') \<and> (op_step ns r A)\<^sup>*\<^sup>* st st'"
proof -
  let ?s = "fo_successor st"
  have c: "chain_ok ?s" using assms(1) by (simp add: ops_ok_def)
  have mem: "resolve ?s f \<in> A" if "f \<in> A" for f
    using resolve_mem [of ?s f] that assms(1) by (auto simp: ops_ok_def)
  show ?thesis
  proof (cases "sn_id (resolve ?s kf) = sn_id (resolve ?s df)")
    case True
    then show ?thesis
      by (intro exI [of _ False] exI [of _ st]) (simp add: fold_fact_def live_resolve [OF c])
  next
    case False
    have "op_step ns r A st (fold_roots ns r mode (resolve ?s kf) (resolve ?s df) st)"
      by (rule folded) (use mem assms False resolve_root [OF c] in auto)
    with False show ?thesis by (auto simp: fold_fact_def live_resolve [OF c])
  qed
qed

lemma count_if_steps: "(op_step ns r A)\<^sup>*\<^sup>* st (count_if (b, st))"
  using counted [of ns r A st "Suc (fo_collapsedFactCount st)"] by (auto simp: count_if_def)

section \<open>Loops of steps\<close>

text \<open>
  A step that, on good items and in good states, returns and moves along a relation that keeps the
  state good: a loop of it over good items does the same.
\<close>

locale loop_step =
  fixes step :: "'x \<Rightarrow> fact_ops \<Rightarrow> fact_ops option" and good :: "'x \<Rightarrow> bool"
    and inv :: "fact_ops \<Rightarrow> bool" and rel :: "fact_ops \<Rightarrow> fact_ops \<Rightarrow> bool"
  assumes step_total: "good x \<Longrightarrow> inv s \<Longrightarrow> \<exists>s'. step x s = Some s' \<and> rel\<^sup>*\<^sup>* s s'"
    and rel_keeps: "rel s s' \<Longrightarrow> inv s \<Longrightarrow> inv s'"
begin

lemma rels_keep: "rel\<^sup>*\<^sup>* s s' \<Longrightarrow> inv s \<Longrightarrow> inv s'"
  by (induction rule: rtranclp_induct) (auto intro: rel_keeps)

lemma each_total: "list_all good xs \<Longrightarrow> inv s \<Longrightarrow> \<exists>s'. each step xs s = Some s' \<and> rel\<^sup>*\<^sup>* s s'"
proof (induction xs arbitrary: s)
  case (Cons x xs)
  then have g: "good x" "list_all good xs" by simp_all
  from step_total [OF g(1) Cons.prems(2)] obtain s1 where s1: "step x s = Some s1" "rel\<^sup>*\<^sup>* s s1" by blast
  from Cons.IH [OF g(2) rels_keep [OF s1(2) Cons.prems(2)]] obtain s2
    where "each step xs s1 = Some s2" "rel\<^sup>*\<^sup>* s1 s2" by blast
  with s1 show ?case by (auto intro: rtranclp_trans)
qed auto

end

interpretation moves_loop: loop_step "\<lambda>m st. Some (relink (mv_fact m) (mv_linkEdgeIds m) st)"
    "\<lambda>m. mv_fact m \<in> A" "ops_ok A" "op_step ns r A" for A ns r
  by unfold_locales (auto intro: relinked ops_ok_step)

lemma collapse_step_total:
  assumes "cl_survivorFact c \<in> A \<and> cl_absorbedFact c \<in> A" "ops_ok A st"
  shows "\<exists>st'. collapse_step ns r c st = Some st' \<and> (op_step ns r A)\<^sup>*\<^sup>* st st'"
proof -
  obtain b st' where "fold_fact ns r DuplicateMode (cl_survivorFact c) (cl_absorbedFact c) st = Some (b, st')"
    "(op_step ns r A)\<^sup>*\<^sup>* st st'"
    using fold_fact_steps [OF assms(2)] assms(1) by blast
  with count_if_steps show ?thesis by (fastforce simp: collapse_step_def intro: rtranclp_trans)
qed

interpretation collapse_loop: loop_step "collapse_step ns r"
    "\<lambda>c. cl_survivorFact c \<in> A \<and> cl_absorbedFact c \<in> A" "ops_ok A" "op_step ns r A" for A ns r
  by unfold_locales (erule (1) collapse_step_total, erule (1) ops_ok_step)

lemma relink_then:
  assumes "ops_ok A st" "f \<in> A"
  shows "ops_ok A (relink f ls st)" "(op_step ns r A)\<^sup>*\<^sup>* st (relink f ls st)"
  using assms relinked [of f A ns r st ls] by (auto intro: ops_ok_step)

lemma conflict_step_total:
  assumes "fc_survivorFact c \<in> A \<and> fc_absorbedFact c \<in> A" "ops_ok A st"
  shows "\<exists>st'. conflict_step ns r choices c st = Some st' \<and> (op_step ns r A)\<^sup>*\<^sup>* st st'"
proof -
  let ?st = "relink (fc_absorbedFact c) (fc_absorbedLinkEdgeIds c) st"
  have rl: "ops_ok A ?st" "(op_step ns r A)\<^sup>*\<^sup>* st ?st" using relink_then assms by blast+
  obtain b st' where 1: "fold_fact ns r ReplacedMode (fc_survivorFact c) (fc_absorbedFact c) st = Some (b, st')"
    "(op_step ns r A)\<^sup>*\<^sup>* st st'"
    using fold_fact_steps [OF assms(2)] assms(1) by blast
  obtain b' st'' where 2: "fold_fact ns r ReplacedMode (fc_absorbedFact c) (fc_survivorFact c) ?st = Some (b', st'')"
    "(op_step ns r A)\<^sup>*\<^sup>* ?st st''"
    using fold_fact_steps [OF rl(1)] assms(1) by blast
  show ?thesis
    using 1 2 rl(2) rtranclp_trans [OF rl(2) 2(2)]
    by (auto simp: conflict_step_def split: fact_choice.split)
qed

interpretation conflict_loop: loop_step "conflict_step ns r choices"
    "\<lambda>c. fc_survivorFact c \<in> A \<and> fc_absorbedFact c \<in> A" "ops_ok A" "op_step ns r A" for A ns r choices
  by unfold_locales (erule (1) conflict_step_total, erule (1) ops_ok_step)

lemma near_step_total:
  assumes "nd_survivorFact p \<in> A \<and> nd_absorbedFact p \<in> A" "ops_ok A st"
  shows "\<exists>st'. near_step ns r choices p st = Some st' \<and> (op_step ns r A)\<^sup>*\<^sup>* st st'"
proof -
  let ?rl = "relink (nd_absorbedFact p) (nd_absorbedLinkEdgeIds p) st"
  have rl: "ops_ok A ?rl" "(op_step ns r A)\<^sup>*\<^sup>* st ?rl" using relink_then assms by blast+
  have c: "chain_ok (fo_successor st)" using assms(2) by (simp add: ops_ok_def)
  let ?s = "resolve (fo_successor st) (nd_survivorFact p)" and ?a = "resolve (fo_successor st) (nd_absorbedFact p)"
  have mem: "?s \<in> A" "?a \<in> A"
    using ops_ok_resolve [OF assms(2)] assms(1) by blast+
  obtain b st' where 1: "fold_fact ns r DuplicateMode ?s ?a st = Some (b, st')" "(op_step ns r A)\<^sup>*\<^sup>* st st'"
    using fold_fact_steps [OF assms(2)] mem by blast
  obtain b' st'' where 2: "fold_fact ns r DuplicateMode ?a ?s ?rl = Some (b', st'')" "(op_step ns r A)\<^sup>*\<^sup>* ?rl st''"
    using fold_fact_steps [OF rl(1)] mem by blast
  have "(op_step ns r A)\<^sup>*\<^sup>* st (count_if (b, st'))" "(op_step ns r A)\<^sup>*\<^sup>* st (count_if (b', st''))"
    using 1(2) rl(2) 2(2) count_if_steps by (meson rtranclp_trans)+
  then show ?thesis
    using 1 2 rl(2) by (auto simp: near_step_def live_resolve [OF c] split: near_choice.split)
qed

interpretation near_loop: loop_step "near_step ns r choices"
    "\<lambda>p. nd_survivorFact p \<in> A \<and> nd_absorbedFact p \<in> A" "ops_ok A" "op_step ns r A" for A ns r choices
  by unfold_locales (erule (1) near_step_total, erule (1) ops_ok_step)

definition plan_nodes :: "fact_plan \<Rightarrow> snapshot_node set" where
  "plan_nodes p = mv_fact ` set (fp_moves p)
     \<union> cl_survivorFact ` set (fp_collapses p) \<union> cl_absorbedFact ` set (fp_collapses p)
     \<union> fc_survivorFact ` set (fp_conflicts p) \<union> fc_absorbedFact ` set (fp_conflicts p)
     \<union> nd_survivorFact ` set (fp_nearDuplicates p) \<union> nd_absorbedFact ` set (fp_nearDuplicates p)"

definition start_ops :: "nat \<Rightarrow> fact_ops" where
  "start_ops n = \<lparr>fo_deleteFactIds = [], fo_relinks = [], fo_movedFactIds = [], fo_updates = [],
     fo_successor = [], fo_collapsedFactCount = n\<rparr>"

lemma fact_steps_reach:
  obtains st where "fact_steps ns plan choices r = Some (drop_deleted st)"
    "(op_step ns r (plan_nodes plan))\<^sup>*\<^sup>* (start_ops (length (fp_sharedFactIds plan))) st"
    "ops_ok (plan_nodes plan) st"
proof -
  let ?A = "plan_nodes plan" and ?s0 = "start_ops (length (fp_sharedFactIds plan))"
  have s0: "ops_ok ?A ?s0" by (simp add: ops_ok_def start_ops_def)
  have g: "list_all (\<lambda>m. mv_fact m \<in> ?A) (fp_moves plan)"
    "list_all (\<lambda>c. cl_survivorFact c \<in> ?A \<and> cl_absorbedFact c \<in> ?A) (fp_collapses plan)"
    "list_all (\<lambda>c. fc_survivorFact c \<in> ?A \<and> fc_absorbedFact c \<in> ?A) (fp_conflicts plan)"
    "list_all (\<lambda>p. nd_survivorFact p \<in> ?A \<and> nd_absorbedFact p \<in> ?A) (fp_nearDuplicates plan)"
    by (auto simp: list_all_iff plan_nodes_def)
  obtain s1 where s1: "each (\<lambda>m st. Some (relink (mv_fact m) (mv_linkEdgeIds m) st)) (fp_moves plan) ?s0 = Some s1"
    "(op_step ns r ?A)\<^sup>*\<^sup>* ?s0 s1" using moves_loop.each_total [OF g(1) s0] by blast
  have o1: "ops_ok ?A s1" using ops_ok_steps [OF s1(2) s0] .
  obtain s2 where s2: "each (collapse_step ns r) (fp_collapses plan) s1 = Some s2" "(op_step ns r ?A)\<^sup>*\<^sup>* s1 s2"
    using collapse_loop.each_total [OF g(2) o1] by blast
  have o2: "ops_ok ?A s2" using ops_ok_steps [OF s2(2) o1] .
  obtain s3 where s3: "each (conflict_step ns r choices) (fp_conflicts plan) s2 = Some s3" "(op_step ns r ?A)\<^sup>*\<^sup>* s2 s3"
    using conflict_loop.each_total [OF g(3) o2] by blast
  have o3: "ops_ok ?A s3" using ops_ok_steps [OF s3(2) o2] .
  obtain s4 where s4: "each (near_step ns r choices) (fp_nearDuplicates plan) s3 = Some s4" "(op_step ns r ?A)\<^sup>*\<^sup>* s3 s4"
    using near_loop.each_total [OF g(4) o3] by blast
  have o4: "ops_ok ?A s4" using ops_ok_steps [OF s4(2) o3] .
  have "(op_step ns r ?A)\<^sup>*\<^sup>* ?s0 s4" using s1(2) s2(2) s3(2) s4(2) by (meson rtranclp_trans)
  moreover have "fact_steps ns plan choices r = Some (drop_deleted s4)"
    using s1(1) s2(1) s3(1) s4(1) by (simp add: fact_steps_def start_ops_def)
  ultimately show thesis using o4 that by blast
qed

section \<open>Nothing is lost\<close>

text \<open>
  The facts of a plan, given that equal ids are equal facts, are a function \<open>N\<close> of their ids. What
  is kept of a fact folded away is found with the fact that stands for it.
\<close>

definition remembers :: "snapshot_node \<Rightarrow> fact_update \<Rightarrow> bool" where
  "remembers f u \<longleftrightarrow> SENSITIVITY_RANK (sn_sensitivity f) \<le> SENSITIVITY_RANK (fu_sensitivity u)
     \<and> set (existingHistory f) \<subseteq> set (fu_previousValues u)"

definition kept_inv :: "snapshot_node set \<Rightarrow> fact_ops \<Rightarrow> bool" where
  "kept_inv A st \<longleftrightarrow> ops_ok A st
     \<and> (\<forall>f \<in> A. \<forall>u. map_of (fo_updates st) (sn_id f) = Some u
          \<longrightarrow> SENSITIVITY_RANK (sn_sensitivity f) \<le> SENSITIVITY_RANK (fu_sensitivity u))
     \<and> (\<forall>f \<in> A. sn_id f \<in> fst ` set (fo_successor st) \<longrightarrow>
          (\<exists>u. map_of (fo_updates st) (sn_id (resolve (fo_successor st) f)) = Some u \<and> remembers f u))"

lemma stateOf_sensitivity:
  assumes "kept_inv A st" "f \<in> A"
  shows "SENSITIVITY_RANK (sn_sensitivity f) \<le> SENSITIVITY_RANK (fu_sensitivity (stateOf st f))"
  using assms by (auto simp: kept_inv_def stateOf_def split: option.split)

lemma remembers_absorb:
  assumes "remembers f source"
  shows "remembers f (absorb_state ns r mode lost source into)"
  using assms by (auto simp: remembers_def absorb_state_def)

lemma remembers_keep:
  assumes "remembers f into"
  shows "remembers f (absorb_state ns r mode lost source into)"
  using assms by (auto simp: remembers_def absorb_state_def)

lemma remembers_lost:
  assumes "SENSITIVITY_RANK (sn_sensitivity lost) \<le> SENSITIVITY_RANK (fu_sensitivity source)"
  shows "remembers lost (absorb_state ns r mode lost source into)"
  using assms by (auto simp: remembers_def absorb_state_def)

lemma kept_step:
  assumes coh: "inj_on sn_id A" and "op_step ns r A st st'" "kept_inv A st"
  shows "kept_inv A st'"
  using assms(2)
proof cases
  case (relinked f ls)
  with assms(3) ops_ok_step [OF assms(2)] show ?thesis by (simp add: relink_def kept_inv_def)
next
  case counted
  with assms(3) ops_ok_step [OF assms(2)] show ?thesis by (simp add: kept_inv_def)
next
  case (folded K D mode)
  let ?s = "fo_successor st" and ?u = "absorb_state ns r mode D (stateOf st D) (stateOf st K)"
  have ok: "ops_ok A st" using assms(3) by (simp add: kept_inv_def)
  then have c: "chain_ok ?s" by (simp add: ops_ok_def)
  have succ: "fo_successor st' = ?s @ [(sn_id D, K)]"
    using folded by (simp add: fold_roots_def update_append_new)
  have ups: "map_of (fo_updates st') i = (if i = sn_id D then None else if i = sn_id K then Some ?u
      else map_of (fo_updates st) i)" for i
    using folded(1) by (simp add: fold_roots_def)
  have sens: "SENSITIVITY_RANK (sn_sensitivity f) \<le> SENSITIVITY_RANK (fu_sensitivity u)"
    if f: "f \<in> A" and u: "map_of (fo_updates st') (sn_id f) = Some u" for f u
  proof (cases "sn_id f = sn_id K")
    case True
    then have "f = K" using coh f folded(2) by (metis inj_onD)
    with u True folded(6) ups have "u = ?u" by (simp split: if_splits)
    then show ?thesis using stateOf_sensitivity [OF assms(3) folded(2)] \<open>f = K\<close>
      by (simp add: absorb_state_def)
  next
    case False
    with u ups have "map_of (fo_updates st) (sn_id f) = Some u" by (simp split: if_splits)
    with assms(3) f show ?thesis by (simp add: kept_inv_def)
  qed
  have keep: "\<exists>u. map_of (fo_updates st') (sn_id (resolve (fo_successor st') f)) = Some u \<and> remembers f u"
    if f: "f \<in> A" and d: "sn_id f \<in> fst ` set (fo_successor st')" for f
  proof (cases "sn_id f = sn_id D")
    case True
    then have "f = D" using coh f folded(3) by (metis inj_onD)
    have "resolve ?s D = D"
    proof -
      have "map_of ?s (sn_id D) = None" using folded(5) by (simp add: map_of_eq_None_iff)
      then have "live ?s D = Some D" by (subst live.simps) simp
      then show ?thesis using live_resolve [OF c, of D] by simp
    qed
    then have "resolve (fo_successor st') f = K" by (simp add: succ resolve_snoc \<open>f = D\<close>)
    then show ?thesis
      using folded(6) remembers_lost [OF stateOf_sensitivity [OF assms(3) folded(3)]]
      by (simp add: ups \<open>f = D\<close>)
  next
    case False
    with d have "sn_id f \<in> fst ` set ?s" by (simp add: succ)
    with assms(3) f obtain u where u: "map_of (fo_updates st) (sn_id (resolve ?s f)) = Some u" "remembers f u"
      by (auto simp: kept_inv_def)
    show ?thesis
    proof (cases "sn_id (resolve ?s f) = sn_id D")
      case True
      then have "resolve (fo_successor st') f = K" by (simp add: succ resolve_snoc)
      moreover have "stateOf st D = u" using u True by (simp add: stateOf_def)
      ultimately show ?thesis
        using folded(6) remembers_absorb [OF u(2)] by (simp add: ups)
    next
      case other: False
      then have r: "resolve (fo_successor st') f = resolve ?s f" by (auto simp: succ resolve_snoc)
      show ?thesis
      proof (cases "sn_id (resolve ?s f) = sn_id K")
        case True
        then have "stateOf st K = u" using u by (simp add: stateOf_def)
        with True folded(6) remembers_keep [OF u(2)] show ?thesis by (simp add: ups r)
      next
        case False
        with other u show ?thesis by (simp add: ups r)
      qed
    qed
  qed
  show ?thesis using ops_ok_step [OF assms(2) ok] sens keep by (simp add: kept_inv_def)
qed

lemma kept_steps:
  assumes "inj_on sn_id A" "(op_step ns r A)\<^sup>*\<^sup>* st st'" "kept_inv A st"
  shows "kept_inv A st'"
  using assms(2,3) by (induction rule: rtranclp_induct) (auto intro: kept_step [OF assms(1)])

text \<open>
  C25. Building the operations always returns, and no history entry and no sensitivity level is lost:
  for every fact of the plan that is deleted, following successors leads to a fact that is not
  deleted and whose update is at least as sensitive and carries every previous value the deleted
  fact had recorded; no deleted fact is moved, re-linked or updated.
\<close>

theorem fact_operations_lose_nothing:
  assumes "inj_on sn_id (plan_nodes plan)"
  shows "\<exists>st b. fact_steps ns plan choices r = Some st \<and> buildFactOperations ns plan choices r = Some b
    \<and> bo_updates b = fo_updates st
    \<and> set (bo_deleteFactIds b) \<inter> (set (bo_movedFactIds b) \<union> fst ` set (fo_relinks st) \<union> dom (map_of (bo_updates b))) = {}
    \<and> (\<forall>f \<in> plan_nodes plan. sn_id f \<in> set (bo_deleteFactIds b) \<longrightarrow>
        (\<exists>g u. live (fo_successor st) f = Some g \<and> sn_id g \<notin> set (bo_deleteFactIds b)
          \<and> map_of (bo_updates b) (sn_id g) = Some u \<and> remembers f u))"
proof -
  let ?A = "plan_nodes plan" and ?s0 = "start_ops (length (fp_sharedFactIds plan))"
  obtain s where s: "fact_steps ns plan choices r = Some (drop_deleted s)"
    "(op_step ns r ?A)\<^sup>*\<^sup>* ?s0 s" "ops_ok ?A s" by (rule fact_steps_reach)
  have "kept_inv ?A ?s0" by (simp add: kept_inv_def ops_ok_def start_ops_def)
  then have k: "kept_inv ?A s" using kept_steps [OF assms s(2)] by blast
  let ?st = "drop_deleted s"
  have eq: "fo_successor ?st = fo_successor s" "fo_updates ?st = fo_updates s" "fo_deleteFactIds ?st = fo_deleteFactIds s"
    by (simp_all add: drop_deleted_def)
  have c: "chain_ok (fo_successor s)" using s(3) by (simp add: ops_ok_def)
  have "\<exists>res. repoint_loop ?st es acc = Some res" for es acc
  proof (induction es arbitrary: acc)
    case Nil
    show ?case by (metis repoint_loop.simps(1))
  next
    case (Cons e es)
    obtain t rs ds where "acc = (t, rs, ds)" by (cases acc)
    with Cons liveId_resolve [OF c] show ?case by (simp add: eq Let_def)
  qed
  then obtain t rs ds where loop: "repoint_loop ?st (fp_factOutsideEdges plan)
      (taken_keys ?st (fp_factOutsideEdges plan), [], []) = Some (t, rs, ds)" by (metis prod_cases3)
  then obtain b where b: "buildFactOperations ns plan choices r = Some b" "set (bo_deleteFactIds b) = set (fo_deleteFactIds s)"
    "bo_updates b = fo_updates s" "bo_movedFactIds b = fo_movedFactIds ?st"
    by (simp add: buildFactOperations_def s(1) eq)
  have del: "set (fo_deleteFactIds s) = fst ` set (fo_successor s)" using s(3) by (simp add: ops_ok_def)
  have "set (bo_deleteFactIds b) \<inter> (set (bo_movedFactIds b) \<union> fst ` set (fo_relinks ?st) \<union> dom (map_of (bo_updates b))) = {}"
  proof -
    have "i \<notin> dom (map_of (fo_updates s))" if "i \<in> set (fo_deleteFactIds s)" for i
      using that s(3) del by (auto simp: ops_ok_def domIff)
    then show ?thesis unfolding b by (auto simp: drop_deleted_def)
  qed
  moreover have "\<exists>g u. live (fo_successor ?st) f = Some g \<and> sn_id g \<notin> set (bo_deleteFactIds b)
      \<and> map_of (bo_updates b) (sn_id g) = Some u \<and> remembers f u"
    if "f \<in> ?A" "sn_id f \<in> set (bo_deleteFactIds b)" for f
    using that k live_resolve [OF c, of f] resolve_root [OF c, of f]
    by (auto simp: eq b del kept_inv_def)
  ultimately show ?thesis using s(1) b(1,3) eq(2)
    by (intro exI [of _ ?st] exI [of _ b]) simp
qed

theorem fact_operations_lose_nothing_witness:
  "\<exists>st b. fact_steps (\<lambda>_. []) (planFacts (\<lambda>_. []) (demo_side ''s'' [demo_fact ''f1'' ''tea''] [])
        (demo_side ''a'' [demo_fact ''f2'' ''tea''] []) None) \<lparr>ch_facts = [], ch_nearDuplicateFacts = []\<rparr> ''2026'' = Some st
    \<and> buildFactOperations (\<lambda>_. []) (planFacts (\<lambda>_. []) (demo_side ''s'' [demo_fact ''f1'' ''tea''] [])
        (demo_side ''a'' [demo_fact ''f2'' ''tea''] []) None) \<lparr>ch_facts = [], ch_nearDuplicateFacts = []\<rparr> ''2026'' = Some b"
proof -
  let ?p = "planFacts (\<lambda>_. []) (demo_side ''s'' [demo_fact ''f1'' ''tea''] [])
        (demo_side ''a'' [demo_fact ''f2'' ''tea''] []) None"
  have "?p = \<lparr>fp_moves = [], fp_collapses = [\<lparr>cl_survivorFact = demo_node ''f1'' ''tea'' [], cl_absorbedFact = demo_node ''f2'' ''tea'' []\<rparr>],
      fp_conflicts = [], fp_nearDuplicates = [], fp_sharedFactIds = [], fp_sharedLinkEdgeIds = [], fp_factOutsideEdges = []\<rparr>"
    by (simp add: planFacts_def demo_side_def demo_fact_def demo_node_def plan_attributes_def groupByAttribute_def
        add_to_group_def factAttribute_def jfield_def is_plain_def normalizeFactText_def js_lower_def lower_char_def
        js_trim_def strip_trailing_def js_space_def newest_def js_sort_by_def Let_def)
  then have "inj_on sn_id (plan_nodes ?p)" by (simp add: plan_nodes_def demo_node_def)
  from fact_operations_lose_nothing [OF this] show ?thesis by blast
qed

section \<open>Outside edges\<close>

definition repoint_key :: "edge_repoint \<times> string \<Rightarrow> string \<times> string \<times> string" where
  "repoint_key p = edgeKey (er_sourceNodeId (fst p)) (er_targetNodeId (fst p)) (snd p)"

lemma repoint_loop_spec:
  assumes "chain_ok (fo_successor st)" "repoint_loop st es (t, rs, ds) = Some (t', rs', ds')"
  shows "\<exists>new gone. rs' = rs @ new \<and> ds' = ds @ gone
    \<and> distinct (map repoint_key new) \<and> set (map repoint_key new) \<inter> set t = {}
    \<and> list_all (\<lambda>p. er_sourceNodeId (fst p) \<noteq> er_targetNodeId (fst p)
        \<and> er_sourceNodeId (fst p) \<notin> fst ` set (fo_successor st)
        \<and> er_targetNodeId (fst p) \<notin> fst ` set (fo_successor st)) new
    \<and> mset (map (\<lambda>p. er_edgeId (fst p)) new @ gone) = mset (map se_id (filter (touchesDeleted st) es))"
  using assms(2)
proof (induction es arbitrary: t rs ds)
  case Nil
  then show ?case by simp
next
  case (Cons e es)
  note live = liveId_resolve [OF assms(1)]
  let ?src = "resolve_id (fo_successor st) (se_sourceNodeId e)" and ?tgt = "resolve_id (fo_successor st) (se_targetNodeId e)"
  let ?key = "edgeKey ?src ?tgt (se_type e)"
  show ?case
  proof (cases "touchesDeleted st e")
    case False
    with Cons show ?thesis by simp
  next
    case touched: True
    show ?thesis
    proof (cases "?src = ?tgt \<or> ?key \<in> set t")
      case True
      with Cons.prems touched live have "repoint_loop st es (t, rs, ds @ [se_id e]) = Some (t', rs', ds')"
        by (simp add: Let_def)
      from Cons.IH [OF this] obtain new gone where ih: "rs' = rs @ new" "ds' = (ds @ [se_id e]) @ gone"
        "distinct (map repoint_key new)" "set (map repoint_key new) \<inter> set t = {}"
        "list_all (\<lambda>p. er_sourceNodeId (fst p) \<noteq> er_targetNodeId (fst p)
          \<and> er_sourceNodeId (fst p) \<notin> fst ` set (fo_successor st)
          \<and> er_targetNodeId (fst p) \<notin> fst ` set (fo_successor st)) new"
        "mset (map (\<lambda>p. er_edgeId (fst p)) new @ gone) = mset (map se_id (filter (touchesDeleted st) es))"
        by blast
      then show ?thesis using touched by (intro exI [of _ new] exI [of _ "se_id e # gone"]) simp
    next
      case False
      let ?r = "(\<lparr>er_edgeId = se_id e, er_sourceNodeId = ?src, er_targetNodeId = ?tgt\<rparr>, se_type e)"
      from False Cons.prems touched live have "repoint_loop st es (?key # t, rs @ [?r], ds) = Some (t', rs', ds')"
        by (simp add: Let_def)
      from Cons.IH [OF this] obtain new gone where ih: "rs' = (rs @ [?r]) @ new" "ds' = ds @ gone"
        "distinct (map repoint_key new)" "set (map repoint_key new) \<inter> set (?key # t) = {}"
        "list_all (\<lambda>p. er_sourceNodeId (fst p) \<noteq> er_targetNodeId (fst p)
          \<and> er_sourceNodeId (fst p) \<notin> fst ` set (fo_successor st)
          \<and> er_targetNodeId (fst p) \<notin> fst ` set (fo_successor st)) new"
        "mset (map (\<lambda>p. er_edgeId (fst p)) new @ gone) = mset (map se_id (filter (touchesDeleted st) es))"
        by blast
      have "repoint_key ?r = ?key" by (simp add: repoint_key_def)
      with ih False touched live show ?thesis
        by (intro exI [of _ "?r # new"] exI [of _ gone]) auto
    qed
  qed
qed

text \<open>
  Re-pointed outside edges are legal: every outside edge that touches a deleted fact is re-pointed
  or dropped, once; a re-pointed one joins two facts that are not deleted, is no self-loop, and its
  key (unordered ends and type) differs from those of the other re-pointed edges and of the
  outside edges that stay.
\<close>

theorem outside_edges_legal:
  assumes "fact_steps ns plan choices r = Some st"
    and "repoint_loop st (fp_factOutsideEdges plan) (taken_keys st (fp_factOutsideEdges plan), [], []) = Some (t, rs, drops)"
  shows "mset (map (\<lambda>p. er_edgeId (fst p)) rs @ drops)
      = mset (map se_id (filter (touchesDeleted st) (fp_factOutsideEdges plan)))
    \<and> distinct (map repoint_key rs @ taken_keys st [])
    \<and> set (map repoint_key rs) \<inter> set (taken_keys st (fp_factOutsideEdges plan)) = {}
    \<and> list_all (\<lambda>p. er_sourceNodeId (fst p) \<noteq> er_targetNodeId (fst p)
        \<and> {er_sourceNodeId (fst p), er_targetNodeId (fst p)} \<inter> set (fo_deleteFactIds st) = {}) rs"
proof -
  obtain s where s: "fact_steps ns plan choices r = Some (drop_deleted s)" "ops_ok (plan_nodes plan) s"
    using fact_steps_reach by metis
  have st: "st = drop_deleted s" using assms(1) s(1) by simp
  have c: "chain_ok (fo_successor st)" and d: "set (fo_deleteFactIds st) = fst ` set (fo_successor st)"
    using s(2) by (simp_all add: st drop_deleted_def ops_ok_def)
  from repoint_loop_spec [OF c assms(2)] show ?thesis
    by (auto simp: d list_all_iff taken_keys_def)
qed

theorem outside_edges_legal_witness:
  "\<exists>st rs drops. fact_steps (\<lambda>_. []) (planFacts (\<lambda>_. []) (demo_side ''s'' [] []) (demo_side ''a'' [] []) None)
      \<lparr>ch_facts = [], ch_nearDuplicateFacts = []\<rparr> ''2026'' = Some st
    \<and> distinct (map repoint_key rs @ taken_keys st []) \<and> drops = ([] :: string list)"
proof -
  let ?p = "planFacts (\<lambda>_. []) (demo_side ''s'' [] []) (demo_side ''a'' [] []) None"
  let ?c = "\<lparr>ch_facts = [], ch_nearDuplicateFacts = []\<rparr>"
  have p: "fp_factOutsideEdges ?p = []"
    by (simp add: planFacts_def demo_side_def plan_attributes_def groupByAttribute_def Let_def js_sort_by_def)
  obtain s where s: "fact_steps (\<lambda>_. []) ?p ?c ''2026'' = Some (drop_deleted s)" using fact_steps_reach by metis
  have l: "repoint_loop (drop_deleted s) (fp_factOutsideEdges ?p) (taken_keys (drop_deleted s) (fp_factOutsideEdges ?p), [], [])
      = Some ([], [], [])"
    unfolding p by (simp add: taken_keys_def)
  from outside_edges_legal [OF s l] s show ?thesis by blast
qed

end
