(* ===== verification/KgContacts.thy ===== *)
theory KgContacts
  imports KgFactOpsProofs
begin

text \<open>
  The contact part of a node merge (\<open>planContacts\<close>, \<open>planContactFields\<close> and their helpers in
  \<open>src/src/kg-merge/planner.ts\<close>): which contact survives, which are folded into it, which field
  value and which permission is kept. A blocker is represented by its code and a warning by its
  code, its acknowledgement flag and its detail lines; the sentence shown with it is left out.
\<close>

section \<open>Data\<close>

definition CONTACT_MERGE_FIELDS :: "string list" where
  "CONTACT_MERGE_FIELDS =
     [''role'', ''preferred_name'', ''title'', ''organization'', ''primary_email'', ''primary_phone'',
      ''timezone'', ''locale'', ''location'', ''pronouns'', ''linkedin_url'', ''bio'', ''birthday'']"

definition CONTACT_MERGE_FIELD_LABELS :: "(string \<times> string) list" where
  "CONTACT_MERGE_FIELD_LABELS =
     [(''role'', ''Role''), (''preferred_name'', ''Preferred name''), (''title'', ''Title''),
      (''organization'', ''Organization''), (''primary_email'', ''Primary email''),
      (''primary_phone'', ''Primary phone''), (''timezone'', ''Timezone''), (''locale'', ''Locale''),
      (''location'', ''Location''), (''pronouns'', ''Pronouns''), (''linkedin_url'', ''LinkedIn''),
      (''bio'', ''Bio''), (''birthday'', ''Birthday'')]"

definition PRINCIPAL_PRIMARY_FIELDS :: "string list" where
  "PRINCIPAL_PRIMARY_FIELDS = [''primary_email'', ''primary_phone'']"

definition field_label :: "string \<Rightarrow> string" where
  "field_label f = (case map_of CONTACT_MERGE_FIELD_LABELS f of Some l \<Rightarrow> l | None \<Rightarrow> ''undefined'')"

abbreviation fieldOf :: "snapshot_contact \<Rightarrow> string \<Rightarrow> string option" where
  "fieldOf c f \<equiv> map_of (sc_fields c) f"

datatype contact_action = ActNone | ActMerge | ActRepoint

type_synonym merge_blocker = string

record merge_warning =
  mw_code :: string
  mw_requiresAck :: bool
  mw_details :: "string list"

record contact_field_conflict =
  cf_field :: string
  cf_survivorValue :: string
  cf_absorbedValue :: string

record auth_override_conflict =
  ao_permission :: string
  ao_survivorGranted :: bool
  ao_absorbedGranted :: bool
  ao_absorbedContactId :: string
  ao_default :: side

record contact_plan =
  cp_action :: contact_action
  cp_surviving :: "snapshot_contact option"
  cp_survivingFrom :: "side option"
  cp_merged :: "snapshot_contact list"
  cp_repointed :: "(snapshot_contact \<times> contact_kind) list"
  cp_resultingKind :: "contact_kind option"
  cp_fieldBase :: "(string \<times> string option) list"
  cp_fieldConflicts :: "contact_field_conflict list"
  cp_authOverrideConflicts :: "auth_override_conflict list"
  cp_foldOverridePreferences :: "(string \<times> string) list" \<comment> \<open>permission, contact id\<close>
  cp_principalIdentitiesTransferred :: "string list"

section \<open>Fields\<close>

definition emptyFieldBase :: "(string \<times> string option) list" where
  "emptyFieldBase = map (\<lambda>f. (f, None)) CONTACT_MERGE_FIELDS"

definition sameFieldValue :: "string \<Rightarrow> string \<Rightarrow> string \<Rightarrow> bool" where
  "sameFieldValue field a b \<longleftrightarrow> (if field = ''primary_email'' then js_lower a = js_lower b else a = b)"

definition quoteValue :: "string \<Rightarrow> string" where
  "quoteValue value =
     (let flat = js_trim (collapse_space False value)
      in [CHR 0x27] @ (if 60 < length flat then take 57 flat @ ''...'' else flat) @ [CHR 0x27])"

text \<open>The distinct values of the folded contacts that differ from the survivor's, in fold order.\<close>

fun differing_values ::
    "string \<Rightarrow> string \<Rightarrow> snapshot_contact list \<Rightarrow> (string \<times> snapshot_contact) list \<Rightarrow> (string \<times> snapshot_contact) list" where
  "differing_values field survivorValue [] acc = acc"
| "differing_values field survivorValue (m # ms) acc =
     (case fieldOf m field of
        None \<Rightarrow> differing_values field survivorValue ms acc
      | Some value \<Rightarrow>
          if sameFieldValue field value survivorValue then differing_values field survivorValue ms acc
          else if list_ex (\<lambda>d. sameFieldValue field (fst d) value) acc then differing_values field survivorValue ms acc
          else differing_values field survivorValue ms (acc @ [(value, m)]))"

definition dropped_line :: "string \<Rightarrow> string \<Rightarrow> string \<Rightarrow> string \<times> snapshot_contact \<Rightarrow> string" where
  "dropped_line field survivorValue offered d =
     field_label field @ '': '' @ quoteValue (fst d) @ '' ('' @ sc_displayName (snd d) @ '') will be dropped; ''
     @ ''the choice is between '' @ quoteValue survivorValue @ '' and '' @ quoteValue offered"

text \<open>One field: its base value, the conflict it raises, the lines it adds to \<open>contacts_disagree\<close>.\<close>

definition plan_field ::
    "bool \<Rightarrow> snapshot_contact \<Rightarrow> snapshot_contact list \<Rightarrow> snapshot_contact list \<Rightarrow> string
      \<Rightarrow> string option \<times> contact_field_conflict list \<times> string list" where
  "plan_field anchored surviving peers merged field =
     (case (if anchored then fieldOf surviving field else None) of
        Some survivorValue \<Rightarrow>
          (case differing_values field survivorValue merged [] of
             [] \<Rightarrow> (Some survivorValue, [], [])
           | offered # dropped \<Rightarrow>
               (Some survivorValue,
                [\<lparr>cf_field = field, cf_survivorValue = survivorValue, cf_absorbedValue = fst offered\<rparr>],
                map (dropped_line field survivorValue (fst offered)) dropped))
      | None \<Rightarrow>
          (let holders = filter (\<lambda>m. fieldOf m field \<noteq> None) peers
           in case holders of
                [] \<Rightarrow> (None, [], [])
              | kept # _ \<Rightarrow>
                  (let keptValue = the (fieldOf kept field);
                       losers = filter (\<lambda>m. \<not> sameFieldValue field (the (fieldOf m field)) keptValue) holders
                   in (Some keptValue, [],
                       if losers = [] then []
                       else [field_label field @ '': '' @ quoteValue keptValue @ '' ('' @ sc_displayName kept @ '') kept over ''
                             @ js_join '', '' (map (\<lambda>m. quoteValue (the (fieldOf m field)) @ '' ('' @ sc_displayName m @ '')'') losers)]))))"

section \<open>Auth overrides\<close>

type_synonym holder = "snapshot_contact \<times> bool"

record override_scan =
  os_seen :: "string list"
  os_conflicts :: "auth_override_conflict list"
  os_unanchored :: "(string \<times> holder list) list"

definition addUnanchored :: "snapshot_contact \<Rightarrow> auth_override \<Rightarrow> (string \<times> holder list) list \<Rightarrow> (string \<times> holder list) list" where
  "addUnanchored contact ov m =
     AList.update (ov_permission ov)
       ((case map_of m (ov_permission ov) of Some hs \<Rightarrow> hs | None \<Rightarrow> []) @ [(contact, ov_granted ov)]) m"

definition survivor_overrides :: "bool \<Rightarrow> snapshot_contact \<Rightarrow> (string \<times> bool) list" where
  "survivor_overrides anchored surviving =
     (if anchored then fold (\<lambda>ov. AList.update (ov_permission ov) (ov_granted ov)) (sc_authOverrides surviving) [] else [])"

text \<open>One override of a folded contact: held by nobody anchored, agreeing or already seen, or a new conflict.\<close>

definition scan_override ::
    "(string \<times> bool) list \<Rightarrow> snapshot_contact \<Rightarrow> auth_override \<Rightarrow> override_scan \<Rightarrow> override_scan" where
  "scan_override survivorOverrides m ov sc =
     (case map_of survivorOverrides (ov_permission ov) of
        None \<Rightarrow> sc\<lparr>os_unanchored := addUnanchored m ov (os_unanchored sc)\<rparr>
      | Some survivorGranted \<Rightarrow>
          if survivorGranted = ov_granted ov \<or> ov_permission ov \<in> set (os_seen sc) then sc
          else sc\<lparr>os_seen := ov_permission ov # os_seen sc,
                  os_conflicts := os_conflicts sc @
                    [\<lparr>ao_permission = ov_permission ov, ao_survivorGranted = survivorGranted,
                      ao_absorbedGranted = ov_granted ov, ao_absorbedContactId = sc_id m,
                      ao_default = (if survivorGranted then AbsorbedSide else SurvivorSide)\<rparr>]\<rparr>)"

definition scan_contact :: "(string \<times> bool) list \<Rightarrow> snapshot_contact \<Rightarrow> override_scan \<Rightarrow> override_scan" where
  "scan_contact survivorOverrides m sc = fold (scan_override survivorOverrides m) (sc_authOverrides m) sc"

definition scan_overrides :: "bool \<Rightarrow> snapshot_contact \<Rightarrow> snapshot_contact list \<Rightarrow> override_scan" where
  "scan_overrides anchored surviving merged =
     fold (scan_contact (survivor_overrides anchored surviving)) merged
       \<lparr>os_seen = [], os_conflicts = [],
        os_unanchored = (if anchored then [] else fold (addUnanchored surviving) (sc_authOverrides surviving) [])\<rparr>"

text \<open>
  Peers that disagree on a permission: the deny wins. When the first holder grants, the first
  denying contact is preferred at its fold.
\<close>

definition peer_preference :: "string \<times> holder list \<Rightarrow> (string \<times> string) list \<times> string list" where
  "peer_preference entry =
     (case entry of (permission, holders) \<Rightarrow>
        (case find (\<lambda>h. \<not> snd h) holders of
           None \<Rightarrow> ([], [])
         | Some firstDeny \<Rightarrow>
             if \<not> list_ex snd holders then ([], [])
             else (if snd (hd holders) then [(permission, sc_id (fst firstDeny))] else [],
                   [permission @ '': denied kept over granted''])))"

definition peer_preferences :: "(string \<times> holder list) list \<Rightarrow> (string \<times> string) list \<times> string list" where
  "peer_preferences unanchored =
     (let rs = map (\<lambda>p. peer_preference (p, the (map_of unanchored p))) (sort (map fst unanchored))
      in (concat (map fst rs), concat (map snd rs)))"

section \<open>The contact plan\<close>

definition planContactFields ::
    "contact_plan \<Rightarrow> snapshot_contact \<Rightarrow> merge_warning list \<Rightarrow> contact_plan \<times> merge_warning list" where
  "planContactFields plan surviving warnings =
     (let anchored = (cp_survivingFrom plan = Some SurvivorSide);
          peers = js_sort_by byCreation (if anchored then cp_merged plan else surviving # cp_merged plan);
          fields = map (\<lambda>f. (f, plan_field anchored surviving peers (cp_merged plan) f)) CONTACT_MERGE_FIELDS;
          scan = scan_overrides anchored surviving (cp_merged plan);
          prefs = peer_preferences (os_unanchored scan);
          disagreements = concat (map (\<lambda>(f, _, _, lines). lines) fields) @ snd prefs
      in (plan\<lparr>cp_fieldBase := map (\<lambda>(f, v, _, _). (f, v)) fields,
               cp_fieldConflicts := concat (map (\<lambda>(f, _, cs, _). cs) fields),
               cp_authOverrideConflicts := js_sort_by (\<lambda>a b. ao_permission a \<le> ao_permission b) (os_conflicts scan),
               cp_foldOverridePreferences := fst prefs\<rparr>,
          if disagreements = [] then warnings
          else warnings @ [\<lparr>mw_code = ''contacts_disagree'', mw_requiresAck = False, mw_details = disagreements\<rparr>]))"

definition empty_contact_plan :: contact_plan where
  "empty_contact_plan =
     \<lparr>cp_action = ActNone, cp_surviving = None, cp_survivingFrom = None, cp_merged = [], cp_repointed = [],
      cp_resultingKind = None, cp_fieldBase = emptyFieldBase, cp_fieldConflicts = [],
      cp_authOverrideConflicts = [], cp_foldOverridePreferences = [], cp_principalIdentitiesTransferred = []\<rparr>"

definition plan_person_contacts ::
    "snapshot_contact list \<Rightarrow> snapshot_contact list \<Rightarrow> merge_blocker list \<Rightarrow> merge_warning list
      \<Rightarrow> contact_plan \<times> merge_blocker list \<times> merge_warning list" where
  "plan_person_contacts cs ca blockers warnings =
     (let blockers = blockers @ (if 1 < length cs then [''survivor_multiple_contacts''] else [])
      in case cs @ ca of
           [] \<Rightarrow> (empty_contact_plan, blockers, warnings)
         | surviving # _ \<Rightarrow>
             (let merged = filter (\<lambda>c. sc_id c \<noteq> sc_id surviving) (cs @ ca);
                  from = (if cs \<noteq> [] then SurvivorSide else AbsorbedSide);
                  kind = (if isStructuralContact surviving then s_kind surviving else KPerson);
                  repointed = (if from = AbsorbedSide then [(surviving, kind)] else []);
                  blockers = blockers @ map (\<lambda>_. ''absorbed_structural_contact'') (filter isStructuralContact merged);
                  action = (if merged \<noteq> [] then ActMerge else if repointed \<noteq> [] then ActRepoint else ActNone);
                  plan = empty_contact_plan\<lparr>cp_action := action, cp_surviving := Some surviving,
                    cp_survivingFrom := Some from, cp_merged := merged, cp_repointed := repointed,
                    cp_resultingKind := Some kind\<rparr>
              in if action = ActMerge
                 then (case planContactFields plan surviving warnings of (plan, warnings) \<Rightarrow> (plan, blockers, warnings))
                 else (plan, blockers, warnings)))"

definition planContacts ::
    "merge_side \<Rightarrow> merge_side \<Rightarrow> merge_blocker list \<Rightarrow> merge_warning list
      \<Rightarrow> contact_plan \<times> merge_blocker list \<times> merge_warning list" where
  "planContacts survivor absorbed blockers warnings =
     (let type = sn_type (ms_node survivor);
          cs = js_sort_by byCreation (ms_contacts survivor);
          ca = js_sort_by byCreation (ms_contacts absorbed)
      in if type = ''person'' then plan_person_contacts cs ca blockers warnings
         else if type = ''organization'' then
           (empty_contact_plan\<lparr>
              cp_repointed := map (\<lambda>c. (c, if isStructuralContact c then s_kind c else KOrganization)) ca,
              cp_action := (if ca \<noteq> [] then ActRepoint else ActNone),
              cp_resultingKind := (if ca \<noteq> [] then Some KOrganization else None)\<rparr>,
            blockers,
            if ca = [] then warnings
            else warnings @ [\<lparr>mw_code = ''contacts_repointed'', mw_requiresAck = False, mw_details = map sc_displayName ca\<rparr>])
         else (empty_contact_plan,
               blockers @ (if ca \<noteq> [] then [''absorbed_has_contacts_incompatible_type''] else []),
               warnings))"

section \<open>What the rest of the plan reads of it\<close>

definition foldTier :: "snapshot_contact \<Rightarrow> snapshot_contact list \<Rightarrow> contact_tier" where
  "foldTier surviving merged = survivingTier surviving (map s_tier merged)"

definition principalPrimaryFieldLines :: "contact_plan \<Rightarrow> string list" where
  "principalPrimaryFieldLines plan =
     (case cp_surviving plan of
        None \<Rightarrow> []
      | Some surviving \<Rightarrow>
          concat (map (\<lambda>field.
            (case find (\<lambda>c. cf_field c = field) (cp_fieldConflicts plan) of
               Some conflict \<Rightarrow>
                 [field_label field @ '' will become '' @ cf_absorbedValue conflict @ '' if the absorbed value is chosen'']
             | None \<Rightarrow>
                 (case map_of (cp_fieldBase plan) field of
                    Some (Some value) \<Rightarrow>
                      if fieldOf surviving field = None then [field_label field @ '' will become '' @ value] else []
                  | _ \<Rightarrow> []))) PRINCIPAL_PRIMARY_FIELDS))"

record identity_view =
  iv_channel :: string
  iv_identifier :: string
  iv_from :: side
  iv_duplicate :: bool
  iv_verified :: bool

record contact_plan_view =
  cv_action :: contact_action
  cv_survivingContactId :: "string option"
  cv_mergedContactIds :: "string list"
  cv_repointedContactIds :: "string list"
  cv_resultingKind :: "contact_kind option"
  cv_identities :: "identity_view list"

fun view_identities :: "(side \<times> snapshot_identity) list \<Rightarrow> string list \<Rightarrow> identity_view list" where
  "view_identities [] seen = []"
| "view_identities ((from, i) # is) seen =
     (let key = identityKey (si_channel i) (si_identifier i)
      in \<lparr>iv_channel = si_channel i, iv_identifier = si_identifier i, iv_from = from,
          iv_duplicate = (key \<in> set seen), iv_verified = si_verified i\<rparr>
         # view_identities is (key # seen))"

definition contactPlanView :: "contact_plan \<Rightarrow> merge_side \<Rightarrow> contact_plan_view" where
  "contactPlanView plan survivor =
     (let survivorContactIds = map sc_id (ms_contacts survivor);
          involved = (case cp_surviving plan of Some c \<Rightarrow> c # cp_merged plan | None \<Rightarrow> [])
      in \<lparr>cv_action = cp_action plan, cv_survivingContactId = map_option sc_id (cp_surviving plan),
          cv_mergedContactIds = map sc_id (cp_merged plan),
          cv_repointedContactIds = map (\<lambda>r. sc_id (fst r)) (cp_repointed plan),
          cv_resultingKind = cp_resultingKind plan,
          cv_identities = view_identities (concat (map (\<lambda>c.
            map (Pair (if sc_id c \<in> set survivorContactIds then SurvivorSide else AbsorbedSide)) (sc_identities c)) involved)) []\<rparr>)"

end
