(* ===== verification/KgPlan.thy ===== *)
theory KgPlan
  imports KgContacts
begin

text \<open>
  The whole plan of a node merge (\<open>planNodeMerge\<close> and the summaries of
  \<open>src/src/kg-merge/planner.ts\<close>): the guards, the contacts, the node's scalars, the facts, the edges and
  the preview. The plan token is the hash of the snapshot, which the caller computes: a parameter.
  Blockers and warnings are represented as in \<open>KgContacts\<close>, and the suggested direction by its
  swap flag.
\<close>

section \<open>Data\<close>

record label_owner =
  lo_id :: string
  lo_label :: string
  lo_type :: string

record merge_snapshot =
  sp_survivor :: merge_side
  sp_absorbed :: merge_side
  sp_absorbedLabelOwner :: "label_owner option"

record node_plan =
  np_mergedProperties :: "(string \<times> jsval) list"
  np_propertyConflicts :: "property_conflict list"
  np_confidence :: rat
  np_decayClass :: decay_class
  np_sensitivity :: sensitivity
  np_createdAt :: string
  np_lastConfirmedAt :: string
  np_warnedAt :: "string option"
  np_warnReason :: "string option"
  np_identitySource :: string

record contact_summary =
  cs_id :: string
  cs_displayName :: string
  cs_kind :: contact_kind
  cs_systemRole :: "system_role option"
  cs_tier :: contact_tier
  cs_identityCount :: nat

record merge_node_summary =
  ns_id :: string
  ns_label :: string
  ns_type :: string
  ns_aliases :: "string list"
  ns_identitySource :: string
  ns_sensitivity :: sensitivity
  ns_confidence :: rat
  ns_decayClass :: decay_class
  ns_lastConfirmedAt :: string
  ns_factCount :: nat
  ns_edgeCount :: nat
  ns_contacts :: "contact_summary list"

record merge_fact_summary =
  fs_id :: string
  fs_label :: string
  fs_attribute :: "string option"
  fs_value :: "string option"
  fs_confidence :: rat
  fs_lastConfirmedAt :: string
  fs_source :: string
  fs_sensitivity :: sensitivity

record merge_summary_counts =
  mc_factsMoved :: nat
  mc_factsCollapsed :: nat
  mc_edgesMoved :: nat
  mc_edgesCollapsed :: nat
  mc_edgesDropped :: nat

record fact_conflict_view =
  fv_id :: string
  fv_attribute :: string
  fv_survivor :: merge_fact_summary
  fv_absorbed :: merge_fact_summary
  fv_default :: side

record near_duplicate_view =
  nv_id :: string
  nv_survivor :: merge_fact_summary
  nv_absorbed :: merge_fact_summary
  nv_similarity :: real

record merge_preview =
  pv_planToken :: string
  pv_survivor :: merge_node_summary
  pv_absorbed :: merge_node_summary
  pv_crossType :: bool
  pv_suggestSwap :: bool
  pv_type :: string
  pv_labels :: "string \<times> string" \<comment> \<open>survivor, absorbed\<close>
  pv_aliasOptions :: "side \<Rightarrow> alias_plan"
  pv_sensitivity :: sensitivity
  pv_confidence :: rat
  pv_decayClass :: decay_class
  pv_identitySource :: string
  pv_blockers :: "merge_blocker list"
  pv_warnings :: "merge_warning list"
  pv_propertyConflicts :: "property_conflict list"
  pv_factConflicts :: "fact_conflict_view list"
  pv_nearDuplicateFacts :: "near_duplicate_view list"
  pv_contactFields :: "(string \<times> contact_field_conflict) list" \<comment> \<open>label, conflict\<close>
  pv_authOverrides :: "auth_override_conflict list"
  pv_contactPlan :: contact_plan_view
  pv_summary :: merge_summary_counts

record merge_plan =
  pl_planToken :: string
  pl_snapshot :: merge_snapshot
  pl_preview :: merge_preview
  pl_node :: node_plan
  pl_facts :: fact_plan
  pl_edges :: edge_plan
  pl_contacts :: contact_plan

section \<open>Summaries\<close>

definition nodeSummary :: "merge_side \<Rightarrow> merge_node_summary" where
  "nodeSummary side =
     (let n = ms_node side
      in \<lparr>ns_id = sn_id n, ns_label = sn_label n, ns_type = sn_type n, ns_aliases = sn_aliases n,
          ns_identitySource = sn_identitySource n, ns_sensitivity = sn_sensitivity n,
          ns_confidence = sn_confidence n, ns_decayClass = sn_decayClass n,
          ns_lastConfirmedAt = sn_lastConfirmedAt n, ns_factCount = length (ms_facts side),
          ns_edgeCount = length (ms_edges side),
          ns_contacts = map (\<lambda>c. \<lparr>cs_id = sc_id c, cs_displayName = sc_displayName c, cs_kind = s_kind c,
            cs_systemRole = s_systemRole c, cs_tier = s_tier c, cs_identityCount = length (sc_identities c)\<rparr>)
            (ms_contacts side)\<rparr>)"

definition factSummary :: "(rat \<Rightarrow> string) \<Rightarrow> snapshot_node \<Rightarrow> merge_fact_summary" where
  "factSummary ns f =
     \<lparr>fs_id = sn_id f, fs_label = sn_label f,
      fs_attribute = (case jfield (sn_properties f) ''attribute'' of JStr s \<Rightarrow> Some s | _ \<Rightarrow> None),
      fs_value = factValueString ns f, fs_confidence = sn_confidence f,
      fs_lastConfirmedAt = sn_lastConfirmedAt f, fs_source = sn_source f, fs_sensitivity = sn_sensitivity f\<rparr>"

definition summaryCounts :: "edge_plan \<Rightarrow> built_fact_operations \<Rightarrow> merge_summary_counts" where
  "summaryCounts edges facts =
     \<lparr>mc_factsMoved = length (bo_movedFactIds facts), mc_factsCollapsed = bo_collapsedFactCount facts,
      mc_edgesMoved = length (ep_moved edges), mc_edgesCollapsed = length (ep_collapsed edges),
      mc_edgesDropped = length (ep_dropped edges)\<rparr>"

section \<open>Guards and trust\<close>

definition merge_guards :: "merge_side \<Rightarrow> merge_side \<Rightarrow> merge_blocker list" where
  "merge_guards survivor absorbed =
     (if sn_type (ms_node survivor) = ''fact'' \<or> sn_type (ms_node absorbed) = ''fact'' then [''fact_node''] else [])
     @ (if isAgentNode survivor \<or> isAgentNode absorbed then [''agent_node''] else [])
     @ (if list_ex isPrincipalContact (ms_contacts absorbed) then [''absorbed_is_principal''] else [])"

text \<open>The folded identities the principal does not have yet, once each, in fold order.\<close>

fun transferred_identities :: "snapshot_identity list \<Rightarrow> string list \<Rightarrow> string list" where
  "transferred_identities [] keys = []"
| "transferred_identities (i # is) keys =
     (let key = identityKey (si_channel i) (si_identifier i)
      in if key \<in> set keys then transferred_identities is keys
         else (si_channel i @ '': '' @ si_identifier i) # transferred_identities is (key # keys))"

definition principal_transfer :: "merge_side \<Rightarrow> contact_plan \<Rightarrow> merge_warning list \<Rightarrow> contact_plan \<times> merge_warning list" where
  "principal_transfer survivor contacts warnings =
     (if list_ex isPrincipalContact (ms_contacts survivor) \<and> cp_merged contacts \<noteq> []
      then
        let own = (case cp_surviving contacts of Some c \<Rightarrow> sc_identities c | None \<Rightarrow> []);
            transferred = transferred_identities (concat (map sc_identities (cp_merged contacts)))
              (map (\<lambda>i. identityKey (si_channel i) (si_identifier i)) own);
            contacts = contacts\<lparr>cp_principalIdentitiesTransferred := transferred\<rparr>
        in (contacts,
            warnings @ [\<lparr>mw_code = ''principal_identity_transfer'', mw_requiresAck = True,
                         mw_details = transferred @ principalPrimaryFieldLines contacts\<rparr>])
      else (contacts, warnings))"

definition result_identity_source :: "snapshot_node \<Rightarrow> contact_plan \<Rightarrow> string" where
  "result_identity_source s contacts =
     (if sn_type s = ''person'' \<and> cp_surviving contacts \<noteq> None then ''contact'' else sn_identitySource s)"

definition label_collision_warning ::
    "label_owner option \<Rightarrow> string \<Rightarrow> snapshot_node \<Rightarrow> snapshot_node \<Rightarrow> merge_warning list" where
  "label_collision_warning labelOwner identitySource s a =
     (case labelOwner of
        None \<Rightarrow> []
      | Some w \<Rightarrow>
          if identitySource = ''label'' \<and> js_lower (sn_label a) \<noteq> js_lower (sn_label s)
          then [\<lparr>mw_code = ''label_collision'', mw_requiresAck = False,
                 mw_details = [lo_label w @ '' ('' @ lo_type w @ '')'']\<rparr>]
          else [])"

section \<open>Scalars\<close>

definition plan_node :: "(rat \<Rightarrow> string) \<Rightarrow> string \<Rightarrow> snapshot_node \<Rightarrow> snapshot_node \<Rightarrow> node_plan" where
  "plan_node ns resultIdentitySource s a =
     (let props = planProperties ns s a;
          anchoredNow = (resultIdentitySource = ''contact'' \<and> sn_identitySource s = ''label'')
      in \<lparr>np_mergedProperties = fst props, np_propertyConflicts = snd props,
          np_confidence = max (sn_confidence s) (sn_confidence a),
          np_decayClass = mostDurable (sn_decayClass s) (sn_decayClass a),
          np_sensitivity = maxSensitivity (sn_sensitivity s) (sn_sensitivity a),
          np_createdAt = minIso (sn_createdAt s) (sn_createdAt a),
          np_lastConfirmedAt = maxIso (sn_lastConfirmedAt s) (sn_lastConfirmedAt a),
          np_warnedAt = (if anchoredNow then None
                         else case sn_warnedAt s of Some w \<Rightarrow> Some w | None \<Rightarrow> sn_warnedAt a),
          np_warnReason = (if anchoredNow then None
                           else if sn_warnedAt s \<noteq> None \<and> sn_warnedAt s \<noteq> Some [] then sn_warnReason s
                           else sn_warnReason a),
          np_identitySource = resultIdentitySource\<rparr>)"

definition suggest_swap :: "merge_side \<Rightarrow> merge_side \<Rightarrow> bool" where
  "suggest_swap survivor absorbed =
     (let sType = sn_type (ms_node survivor)
      in if list_ex isPrincipalContact (ms_contacts absorbed) then True
         else if ms_contacts absorbed \<noteq> [] \<and> sType \<noteq> ''person'' \<and> sType \<noteq> ''organization'' then True
         else sn_type (ms_node absorbed) = ''person'' \<and> ms_contacts absorbed \<noteq> []
              \<and> ms_contacts survivor = [] \<and> sType \<noteq> ''person'')"

section \<open>The plan\<close>

definition planNodeMerge ::
    "(rat \<Rightarrow> string) \<Rightarrow> string \<Rightarrow> merge_snapshot \<Rightarrow> fact_similarity option \<Rightarrow> merge_plan option" where
  "planNodeMerge ns token snapshot similarity =
     (let survivor = sp_survivor snapshot; absorbed = sp_absorbed snapshot;
          s = ms_node survivor; a = ms_node absorbed
      in case planContacts survivor absorbed (merge_guards survivor absorbed) [] of
           (contacts0, blockers, warnings0) \<Rightarrow>
             (case principal_transfer survivor contacts0 warnings0 of
                (contacts, warnings1) \<Rightarrow>
                  (let identitySource = result_identity_source s contacts;
                       warnings = warnings1 @ label_collision_warning (sp_absorbedLabelOwner snapshot) identitySource s a;
                       node = plan_node ns identitySource s a;
                       facts = planFacts ns survivor absorbed similarity;
                       edges = planEdges survivor absorbed
                   in do { defaultOps \<leftarrow> buildFactOperations ns facts
                             \<lparr>ch_facts = [], ch_nearDuplicateFacts = []\<rparr> (sn_lastConfirmedAt s);
                           Some \<lparr>pl_planToken = token, pl_snapshot = snapshot,
                             pl_preview =
                               \<lparr>pv_planToken = token, pv_survivor = nodeSummary survivor,
                                pv_absorbed = nodeSummary absorbed, pv_crossType = (sn_type s \<noteq> sn_type a),
                                pv_suggestSwap = suggest_swap survivor absorbed, pv_type = sn_type s,
                                pv_labels = (sn_label s, sn_label a), pv_aliasOptions = computeAliases s a,
                                pv_sensitivity = np_sensitivity node, pv_confidence = np_confidence node,
                                pv_decayClass = np_decayClass node, pv_identitySource = np_identitySource node,
                                pv_blockers = blockers, pv_warnings = warnings,
                                pv_propertyConflicts = np_propertyConflicts node,
                                pv_factConflicts = map (\<lambda>c. \<lparr>fv_id = fc_id c, fv_attribute = fc_attribute c,
                                  fv_survivor = factSummary ns (fc_survivorFact c),
                                  fv_absorbed = factSummary ns (fc_absorbedFact c), fv_default = fc_default c\<rparr>)
                                  (fp_conflicts facts),
                                pv_nearDuplicateFacts = map (\<lambda>n. \<lparr>nv_id = nd_id n,
                                  nv_survivor = factSummary ns (nd_survivorFact n),
                                  nv_absorbed = factSummary ns (nd_absorbedFact n), nv_similarity = nd_similarity n\<rparr>)
                                  (fp_nearDuplicates facts),
                                pv_contactFields = map (\<lambda>c. (field_label (cf_field c), c)) (cp_fieldConflicts contacts),
                                pv_authOverrides = cp_authOverrideConflicts contacts,
                                pv_contactPlan = contactPlanView contacts survivor,
                                pv_summary = summaryCounts edges defaultOps\<rparr>,
                             pl_node = node, pl_facts = facts, pl_edges = edges, pl_contacts = contacts\<rparr> })))"

end
