(* ===== verification/ContactFold.thy ===== *)
theory ContactFold
  imports KgTypes Uuid
begin

text \<open>
  Folding one contact into another (\<open>ContactService.mergeContactRowsInTx\<close> and the operations of the
  in-memory contact backend it calls, \<open>src/src/contacts/contact-service.ts\<close>; the ordered pairs of
  \<open>src/src/contacts/dedup-exclusions.ts\<close>). A contact row is represented by the columns the merge rules
  read (system role, kind, tier); the other columns a fold writes are copied from the row it is
  given. The maps of the backend are insertion-ordered association lists.
\<close>

section \<open>The backend's state\<close>

record auth_override_row =
  or_contactId :: string
  or_permission :: string
  or_granted :: bool
  or_grantedBy :: string
  or_createdAt :: string
  or_revokedAt :: "string option"

record channel_identity =
  ci_contactId :: string
  ci_channel :: string
  ci_channelIdentifier :: string
  ci_verified :: bool

record contact_calendar =
  cal_contactId :: string
  cal_isPrimary :: bool

record grant_recommendation =
  gr_contactId :: string
  gr_permission :: string

type_synonym exclusion_pair = "string \<times> string" \<comment> \<open>contactAId, contactBId\<close>

record contact_backend =
  be_contacts :: "(string \<times> contact_standing) list"
  be_identities :: "(string \<times> channel_identity) list"
  be_overrides :: "(string \<times> auth_override_row) list"
  be_calendars :: "(string \<times> contact_calendar) list"
  be_recommendations :: "(string \<times> grant_recommendation) list"
  be_dedupExclusions :: "(string \<times> exclusion_pair) list"

section \<open>Auth overrides\<close>

abbreviation active_for :: "string \<Rightarrow> auth_override_row \<Rightarrow> bool" where
  "active_for contactId ov \<equiv> or_contactId ov = contactId \<and> or_revokedAt ov = None"

definition getAuthOverrides :: "string \<Rightarrow> (string \<times> auth_override_row) list \<Rightarrow> (string \<times> bool) list" where
  "getAuthOverrides contactId rows =
     map (\<lambda>(_, ov). (or_permission ov, or_granted ov)) (filter (\<lambda>(_, ov). active_for contactId ov) rows)"

fun drop_first_active :: "string \<Rightarrow> string \<Rightarrow> (string \<times> auth_override_row) list \<Rightarrow> (string \<times> auth_override_row) list" where
  "drop_first_active contactId permission [] = []"
| "drop_first_active contactId permission ((key, ov) # rows) =
     (if active_for contactId ov \<and> or_permission ov = permission then rows
      else (key, ov) # drop_first_active contactId permission rows)"

definition createAuthOverride ::
    "string \<Rightarrow> auth_override_row \<Rightarrow> (string \<times> auth_override_row) list \<Rightarrow> (string \<times> auth_override_row) list" where
  "createAuthOverride key ov rows =
     AList.update key ov (drop_first_active (or_contactId ov) (or_permission ov) rows)"

fun revokeAuthOverride ::
    "string \<Rightarrow> string \<Rightarrow> string \<Rightarrow> (string \<times> auth_override_row) list \<Rightarrow> bool \<times> (string \<times> auth_override_row) list" where
  "revokeAuthOverride now contactId permission [] = (False, [])"
| "revokeAuthOverride now contactId permission ((key, ov) # rows) =
     (if active_for contactId ov \<and> or_permission ov = permission
      then (True, (key, ov\<lparr>or_revokedAt := Some now\<rparr>) # rows)
      else (case revokeAuthOverride now contactId permission rows of (b, rows') \<Rightarrow> (b, (key, ov) # rows')))"

fun reattach_override_rows ::
    "string \<Rightarrow> string \<Rightarrow> string list \<Rightarrow> (string \<times> auth_override_row) list \<Rightarrow> (string \<times> auth_override_row) list" where
  "reattach_override_rows fromId toId primaryPerms [] = []"
| "reattach_override_rows fromId toId primaryPerms ((key, ov) # rows) =
     (if \<not> active_for fromId ov then (key, ov) # reattach_override_rows fromId toId primaryPerms rows
      else if or_permission ov \<in> set primaryPerms then reattach_override_rows fromId toId primaryPerms rows
      else (key, ov\<lparr>or_contactId := toId\<rparr>)
             # reattach_override_rows fromId toId (or_permission ov # primaryPerms) rows)"

definition reattachAuthOverrides ::
    "string \<Rightarrow> string \<Rightarrow> (string \<times> auth_override_row) list \<Rightarrow> (string \<times> auth_override_row) list" where
  "reattachAuthOverrides fromId toId rows =
     reattach_override_rows fromId toId (map fst (getAuthOverrides toId rows)) rows"

section \<open>Identities\<close>

definition keyOf :: "channel_identity \<Rightarrow> string" where
  "keyOf i = ci_channel i @ '':'' @
     (if ci_channel i = ''email'' then js_lower (ci_channelIdentifier i) else ci_channelIdentifier i)"

fun reattach_identity_rows ::
    "string \<Rightarrow> string \<Rightarrow> string list \<Rightarrow> (string \<times> channel_identity) list \<Rightarrow> (string \<times> channel_identity) list" where
  "reattach_identity_rows fromId toId primaryKeys [] = []"
| "reattach_identity_rows fromId toId primaryKeys ((iid, i) # rows) =
     (if ci_contactId i \<noteq> fromId then (iid, i) # reattach_identity_rows fromId toId primaryKeys rows
      else if keyOf i \<in> set primaryKeys then reattach_identity_rows fromId toId primaryKeys rows
      else (iid, i\<lparr>ci_contactId := toId\<rparr>) # reattach_identity_rows fromId toId (keyOf i # primaryKeys) rows)"

definition identity_keys :: "string \<Rightarrow> (string \<times> channel_identity) list \<Rightarrow> string list" where
  "identity_keys contactId rows = map (\<lambda>(_, i). keyOf i) (filter (\<lambda>(_, i). ci_contactId i = contactId) rows)"

definition reattachIdentities ::
    "string \<Rightarrow> string \<Rightarrow> (string \<times> channel_identity) list \<Rightarrow> (string \<times> channel_identity) list" where
  "reattachIdentities fromId toId rows = reattach_identity_rows fromId toId (identity_keys toId rows) rows"

section \<open>Dedup exclusions\<close>

datatype exclusion_error = NotAUuid string | SelfExclusion string

definition normalizeExclusionPair :: "string \<Rightarrow> string \<Rightarrow> exclusion_error + exclusion_pair" where
  "normalizeExclusionPair aId bId =
     (if \<not> isUuid (JStr aId) then Inl (NotAUuid aId)
      else if \<not> isUuid (JStr bId) then Inl (NotAUuid bId)
      else let a = js_lower aId; b = js_lower bId
           in if a = b then Inl (SelfExclusion a)
              else Inr (if a < b then (a, b) else (b, a)))"

definition exclusionKey :: "exclusion_pair \<Rightarrow> string" where
  "exclusionKey p = fst p @ '':'' @ snd p"

definition addDedupExclusion :: "exclusion_pair \<Rightarrow> (string \<times> exclusion_pair) list \<Rightarrow> bool \<times> (string \<times> exclusion_pair) list" where
  "addDedupExclusion p rows =
     (if map_of rows (exclusionKey p) \<noteq> None then (False, rows) else (True, rows @ [(exclusionKey p, p)]))"

definition hasDedupExclusion :: "exclusion_pair \<Rightarrow> (string \<times> exclusion_pair) list \<Rightarrow> bool" where
  "hasDedupExclusion p rows \<longleftrightarrow> map_of rows (exclusionKey p) \<noteq> None"

record reattach_result =
  rr_removed :: nat
  rr_moved :: nat
  rr_dropped :: nat

text \<open>
  The loop over the entries present at its start; the entries it appends never name \<open>fromId\<close>, so
  the iterator passes over them.
\<close>

fun reattach_exclusion_rows ::
    "string \<Rightarrow> string \<Rightarrow> (string \<times> exclusion_pair) list \<Rightarrow> nat \<times> nat \<times> (string \<times> exclusion_pair) list
      \<Rightarrow> nat \<times> nat \<times> (string \<times> exclusion_pair) list" where
  "reattach_exclusion_rows fromId toId [] acc = acc"
| "reattach_exclusion_rows fromId toId ((key, p) # es) (removed, moved, m) =
     (if fst p \<noteq> fromId \<and> snd p \<noteq> fromId then reattach_exclusion_rows fromId toId es (removed, moved, m)
      else
        let m1 = AList.delete key m;
            other = (if fst p = fromId then snd p else fst p)
        in if other = toId then reattach_exclusion_rows fromId toId es (Suc removed, moved, m1)
           else
             let renormalized = (if toId < other then (toId, other) else (other, toId))
             in if map_of m1 (exclusionKey renormalized) \<noteq> None
                then reattach_exclusion_rows fromId toId es (Suc removed, moved, m1)
                else reattach_exclusion_rows fromId toId es
                       (Suc removed, Suc moved, AList.update (exclusionKey renormalized) renormalized m1))"

definition reattachDedupExclusions ::
    "string \<Rightarrow> string \<Rightarrow> (string \<times> exclusion_pair) list \<Rightarrow> reattach_result \<times> (string \<times> exclusion_pair) list" where
  "reattachDedupExclusions fromId toId rows =
     (case reattach_exclusion_rows fromId toId rows (0, 0, rows) of
        (removed, moved, m) \<Rightarrow> (\<lparr>rr_removed = removed, rr_moved = moved, rr_dropped = removed - moved\<rparr>, m))"

section \<open>References\<close>

definition reattach_calendars :: "string \<Rightarrow> string \<Rightarrow> (string \<times> contact_calendar) list \<Rightarrow> (string \<times> contact_calendar) list" where
  "reattach_calendars fromId toId cals =
     (let survivorHasPrimary = list_ex (\<lambda>(_, c). cal_contactId c = toId \<and> cal_isPrimary c) cals
      in map (\<lambda>(i, c). if cal_contactId c \<noteq> fromId then (i, c)
           else (i, c\<lparr>cal_contactId := toId, cal_isPrimary := cal_isPrimary c \<and> \<not> survivorHasPrimary\<rparr>)) cals)"

fun reattach_recommendation_rows ::
    "string \<Rightarrow> string \<Rightarrow> string list \<Rightarrow> (string \<times> grant_recommendation) list
      \<Rightarrow> (string \<times> grant_recommendation) list \<Rightarrow> (string \<times> grant_recommendation) list" where
  "reattach_recommendation_rows fromId toId survivorPerms [] m = m"
| "reattach_recommendation_rows fromId toId survivorPerms ((key, r) # rs) m =
     (if gr_contactId r \<noteq> fromId then reattach_recommendation_rows fromId toId survivorPerms rs m
      else let m1 = AList.delete key m
           in if gr_permission r \<in> set survivorPerms then reattach_recommendation_rows fromId toId survivorPerms rs m1
              else reattach_recommendation_rows fromId toId survivorPerms rs
                     (AList.update (toId @ '':'' @ gr_permission r) (r\<lparr>gr_contactId := toId\<rparr>) m1))"

definition reattachContactReferences :: "string \<Rightarrow> string \<Rightarrow> contact_backend \<Rightarrow> contact_backend" where
  "reattachContactReferences fromId toId be =
     be\<lparr>be_calendars := reattach_calendars fromId toId (be_calendars be),
        be_recommendations := reattach_recommendation_rows fromId toId
          (map (\<lambda>(_, r). gr_permission r) (filter (\<lambda>(_, r). gr_contactId r = toId) (be_recommendations be)))
          (be_recommendations be) (be_recommendations be)\<rparr>"

section \<open>The fold\<close>

definition deleteContact :: "string \<Rightarrow> contact_backend \<Rightarrow> contact_backend" where
  "deleteContact i be =
     be\<lparr>be_contacts := AList.delete i (be_contacts be),
        be_identities := filter (\<lambda>(_, r). ci_contactId r \<noteq> i) (be_identities be),
        be_overrides := filter (\<lambda>(_, r). or_contactId r \<noteq> i) (be_overrides be),
        be_recommendations := filter (\<lambda>(_, r). gr_contactId r \<noteq> i) (be_recommendations be),
        be_dedupExclusions := filter (\<lambda>(_, p). \<not> (fst p = i \<or> snd p = i)) (be_dedupExclusions be)\<rparr>"

definition lockContactsForMerge :: "string list \<Rightarrow> contact_backend \<Rightarrow> (string \<times> contact_standing) list" where
  "lockContactsForMerge ids be =
     concat (map (\<lambda>i. case map_of (be_contacts be) i of Some c \<Rightarrow> [(i, c)] | None \<Rightarrow> []) (sort (remdups ids)))"

definition writeMergedContact :: "string \<Rightarrow> contact_tier \<Rightarrow> contact_kind \<Rightarrow> contact_backend \<Rightarrow> contact_backend" where
  "writeMergedContact i tier kind be =
     (case map_of (be_contacts be) i of
        None \<Rightarrow> be
      | Some c \<Rightarrow> be\<lparr>be_contacts := AList.update i (c\<lparr>s_tier := tier, s_kind := kind\<rparr>) (be_contacts be)\<rparr>)"

datatype fold_error = SameContact | ContactNotFound string | StructuralContactMerge string

definition revoke_all :: "string \<Rightarrow> string \<Rightarrow> string list \<Rightarrow> (string \<times> auth_override_row) list \<Rightarrow> (string \<times> auth_override_row) list" where
  "revoke_all now contactId permissions rows =
     fold (\<lambda>p rs. snd (revokeAuthOverride now contactId p rs)) permissions rows"

definition mergeContactRowsInTx ::
    "string \<Rightarrow> string \<Rightarrow> string \<Rightarrow> contact_tier \<Rightarrow> contact_kind \<Rightarrow> string list \<Rightarrow> contact_backend
      \<Rightarrow> fold_error + reattach_result \<times> contact_backend" where
  "mergeContactRowsInTx now primaryId secondaryId tier kind overridesPreferSecondary be =
     (if primaryId = secondaryId then Inl SameContact
      else
        let locked = lockContactsForMerge [primaryId, secondaryId] be
        in case map_of locked primaryId of
             None \<Rightarrow> Inl (ContactNotFound primaryId)
           | Some _ \<Rightarrow>
               (case map_of locked secondaryId of
                  None \<Rightarrow> Inl (ContactNotFound secondaryId)
                | Some secondary \<Rightarrow>
                    if isStructuralContact secondary then Inl (StructuralContactMerge secondaryId)
                    else
                      let be = be\<lparr>be_overrides := revoke_all now primaryId overridesPreferSecondary (be_overrides be)\<rparr>;
                          be = be\<lparr>be_identities := reattachIdentities secondaryId primaryId (be_identities be)\<rparr>;
                          be = be\<lparr>be_overrides := reattachAuthOverrides secondaryId primaryId (be_overrides be)\<rparr>;
                          ex = reattachDedupExclusions secondaryId primaryId (be_dedupExclusions be);
                          be = be\<lparr>be_dedupExclusions := snd ex\<rparr>;
                          be = reattachContactReferences secondaryId primaryId be;
                          be = writeMergedContact primaryId tier kind be
                      in Inr (fst ex, deleteContact secondaryId be)))"

end
