(* ===== verification/KgResolve.thy ===== *)
theory KgResolve
  imports KgPlan ContactFold
begin

text \<open>
  From a plan and the user's resolutions to the execution plan (\<open>src/src/kg-merge/resolve.ts\<close>), and the
  contact folds the executor runs from it (\<open>src/src/kg-merge/executor.ts\<close>). Errors are values: the code
  of an invalid resolution, or the blockers of a blocked merge. The own-property lookups of
  \<open>src/src/kg-merge/own.ts\<close> are lookups in an association list.
\<close>

datatype resolve_error = InvalidResolution string | MergeBlocked "merge_blocker list"

type_synonym 'a resolved = "resolve_error + 'a"

definition and_then :: "'a resolved \<Rightarrow> ('a \<Rightarrow> 'b resolved) \<Rightarrow> 'b resolved" where
  "and_then r f = (case r of Inl e \<Rightarrow> Inl e | Inr x \<Rightarrow> f x)"

lemma and_then_simps [simp]: "and_then (Inl e) f = Inl e" "and_then (Inr x) f = f x"
  by (simp_all add: and_then_def)

lemma and_then_Inr: "and_then r f = Inr y \<longleftrightarrow> (\<exists>x. r = Inr x \<and> f x = Inr y)"
  by (cases r) auto

section \<open>Own-property access\<close>

definition ownValue :: "(string \<times> 'a) list option \<Rightarrow> string \<Rightarrow> 'a option" where
  "ownValue m key = (case m of None \<Rightarrow> None | Some xs \<Rightarrow> map_of xs key)"

definition setOwn :: "string \<Rightarrow> 'a \<Rightarrow> (string \<times> 'a) list \<Rightarrow> (string \<times> 'a) list" where
  "setOwn key value m = AList.update key value m"

text \<open>\<open>Object.fromEntries\<close>.\<close>

definition from_entries :: "(string \<times> 'a) list \<Rightarrow> (string \<times> 'a) list" where
  "from_entries xs = foldl (\<lambda>m (k, v). AList.update k v m) [] xs"

section \<open>Parsing the request\<close>

record resolutions =
  rs_label :: "side option"
  rs_properties :: "(string \<times> side) list option"
  rs_facts :: "(string \<times> fact_choice) list option"
  rs_nearDuplicateFacts :: "(string \<times> near_choice) list option"
  rs_contactFields :: "(string \<times> side) list option"
  rs_authOverrides :: "(string \<times> side) list option"
  rs_acknowledgements :: "string list option"

definition no_resolutions :: resolutions where
  "no_resolutions = \<lparr>rs_label = None, rs_properties = None, rs_facts = None, rs_nearDuplicateFacts = None,
     rs_contactFields = None, rs_authOverrides = None, rs_acknowledgements = None\<rparr>"

definition SIDES :: "(string \<times> side) list" where
  "SIDES = [(''survivor'', SurvivorSide), (''absorbed'', AbsorbedSide)]"

definition FACT_CHOICES :: "(string \<times> fact_choice) list" where
  "FACT_CHOICES = [(''survivor'', ChooseSurvivor), (''absorbed'', ChooseAbsorbed), (''both'', ChooseBoth)]"

definition NEAR_CHOICES :: "(string \<times> near_choice) list" where
  "NEAR_CHOICES = [(''merge'', MergeNear), (''keep_both'', KeepBothNear)]"

fun parse_entries ::
    "(string \<times> 'c) list \<Rightarrow> (string \<times> jsval) list \<Rightarrow> (string \<times> 'c) list \<Rightarrow> (string \<times> 'c) list resolved" where
  "parse_entries allowed [] out = Inr out"
| "parse_entries allowed ((key, value) # es) out =
     (case value of
        JStr s \<Rightarrow> (case map_of allowed s of
                    Some c \<Rightarrow> parse_entries allowed es (setOwn key c out)
                  | None \<Rightarrow> Inl (InvalidResolution ''invalid_request''))
      | _ \<Rightarrow> Inl (InvalidResolution ''invalid_request''))"

definition parseChoiceMap :: "jsval \<Rightarrow> (string \<times> 'c) list \<Rightarrow> (string \<times> 'c) list option resolved" where
  "parseChoiceMap raw allowed =
     (case raw of
        JUndef \<Rightarrow> Inr None
      | JNull \<Rightarrow> Inr None
      | JObj es \<Rightarrow> and_then (parse_entries allowed es []) (\<lambda>out. Inr (Some out))
      | _ \<Rightarrow> Inl (InvalidResolution ''invalid_request''))"

definition parse_label :: "jsval \<Rightarrow> side option resolved" where
  "parse_label raw =
     (case raw of
        JUndef \<Rightarrow> Inr None
      | JNull \<Rightarrow> Inr None
      | JStr s \<Rightarrow> (case map_of SIDES s of Some c \<Rightarrow> Inr (Some c) | None \<Rightarrow> Inl (InvalidResolution ''invalid_request''))
      | _ \<Rightarrow> Inl (InvalidResolution ''invalid_request''))"

fun string_elements :: "jsval list \<Rightarrow> string list option" where
  "string_elements [] = Some []"
| "string_elements (JStr s # vs) = map_option ((#) s) (string_elements vs)"
| "string_elements (v # vs) = None"

definition parse_acknowledgements :: "jsval \<Rightarrow> string list option resolved" where
  "parse_acknowledgements raw =
     (case raw of
        JUndef \<Rightarrow> Inr None
      | JNull \<Rightarrow> Inr None
      | JArr vs \<Rightarrow> (case string_elements vs of Some ss \<Rightarrow> Inr (Some ss) | None \<Rightarrow> Inl (InvalidResolution ''invalid_request''))
      | _ \<Rightarrow> Inl (InvalidResolution ''invalid_request''))"

definition parseResolutions :: "jsval \<Rightarrow> resolutions resolved" where
  "parseResolutions raw =
     (case raw of
        JUndef \<Rightarrow> Inr no_resolutions
      | JNull \<Rightarrow> Inr no_resolutions
      | JObj fs \<Rightarrow>
          and_then (parse_label (jfield fs ''label'')) (\<lambda>label.
          and_then (parseChoiceMap (jfield fs ''properties'') SIDES) (\<lambda>properties.
          and_then (parseChoiceMap (jfield fs ''facts'') FACT_CHOICES) (\<lambda>facts.
          and_then (parseChoiceMap (jfield fs ''nearDuplicateFacts'') NEAR_CHOICES) (\<lambda>near.
          and_then (parseChoiceMap (jfield fs ''contactFields'') SIDES) (\<lambda>contactFields.
          and_then (parseChoiceMap (jfield fs ''authOverrides'') SIDES) (\<lambda>authOverrides.
          and_then (parse_acknowledgements (jfield fs ''acknowledgements'')) (\<lambda>acks.
            Inr \<lparr>rs_label = label, rs_properties = properties, rs_facts = facts, rs_nearDuplicateFacts = near,
                 rs_contactFields = contactFields, rs_authOverrides = authOverrides, rs_acknowledgements = acks\<rparr>)))))))
      | _ \<Rightarrow> Inl (InvalidResolution ''invalid_request''))"

section \<open>The execution plan\<close>

record filled_resolutions =
  fl_label :: side
  fl_properties :: "(string \<times> side) list"
  fl_facts :: "(string \<times> fact_choice) list"
  fl_nearDuplicateFacts :: "(string \<times> near_choice) list"
  fl_contactFields :: "(string \<times> side) list"
  fl_authOverrides :: "(string \<times> side) list"
  fl_acknowledgements :: "string list"

record fact_update_op =
  uo_id :: string
  uo_confidence :: rat
  uo_lastConfirmedAt :: string
  uo_sensitivity :: sensitivity
  uo_properties :: "(string \<times> jsval) list"

record fact_operations =
  fx_deleteFactIds :: "string list"
  fx_relinkEdgeIds :: "string list"
  fx_deleteLinkEdgeIds :: "string list"
  fx_repointOutsideEdges :: "edge_repoint list"
  fx_dropOutsideEdgeIds :: "string list"
  fx_updates :: "fact_update_op list"
  fx_movedFactCount :: nat
  fx_collapsedFactCount :: nat

record edge_collapse_op =
  eo_survivorEdgeId :: string
  eo_absorbedEdgeId :: string
  eo_confidence :: rat
  eo_lastConfirmedAt :: string
  eo_decayClass :: decay_class
  eo_properties :: "(string \<times> jsval) list"

record edge_operations =
  ex_deleteEdgeIds :: "string list"
  ex_collapses :: "edge_collapse_op list"
  ex_moveEdgeIds :: "string list"

text \<open>\<open>MergedContactRow\<close>: the field columns are one map, keyed as in \<open>CONTACT_MERGE_FIELDS\<close>.\<close>

record merged_contact_row =
  mr_kgNodeId :: string
  mr_displayName :: string
  mr_fields :: "(string \<times> string option) list"
  mr_notes :: "string option"
  mr_tier :: contact_tier
  mr_kind :: contact_kind
  mr_contactConfidence :: rat
  mr_lastSeenAt :: "string option"
  mr_inboundMessageCount :: int
  mr_outboundMessageCount :: int

record contact_operations =
  co_action :: contact_action
  co_survivingContactId :: "string option"
  co_repoints :: "(string \<times> contact_kind) list"
  co_merges :: "(string \<times> string list) list" \<comment> \<open>secondaryId, overridesPreferSecondary\<close>
  co_mergedRow :: "merged_contact_row option"
  co_mergedContactIds :: "string list"
  co_repointedContactIds :: "string list"
  co_survivingIsPrincipal :: bool
  co_principalIdentitiesTransferred :: "string list"
  co_principalPrimaryFieldsFilled :: "(string \<times> string) list"

record node_update_op =
  no_label :: string
  no_labelChanged :: bool
  no_aliases :: "string list"
  no_properties :: "(string \<times> jsval) list"
  no_plan :: node_plan \<comment> \<open>the scalars, copied from the plan\<close>

record execution_plan =
  xp_survivorId :: string
  xp_absorbedId :: string
  xp_mergedAt :: string
  xp_crossType :: bool
  xp_node :: node_update_op
  xp_facts :: fact_operations
  xp_edges :: edge_operations
  xp_contacts :: contact_operations
  xp_summary :: merge_summary_counts
  xp_conflictsResolved :: nat
  xp_resolutions :: filled_resolutions

section \<open>Contacts\<close>

definition spread :: "(string \<times> 'a) list \<Rightarrow> (string \<times> 'a) list \<Rightarrow> (string \<times> 'a) list" where
  "spread a b = foldl (\<lambda>m (k, v). AList.update k v m) a b"

definition prefer_override :: "(string \<times> string list) list \<Rightarrow> string \<times> string \<Rightarrow> (string \<times> string list) list" where
  "prefer_override m p = (case p of (contactId, permission) \<Rightarrow>
     AList.update contactId ((case map_of m contactId of Some ps \<Rightarrow> ps | None \<Rightarrow> []) @ [permission]) m)"

definition preferred_absorbed :: "contact_plan \<Rightarrow> filled_resolutions \<Rightarrow> (string \<times> string list) list" where
  "preferred_absorbed cp filled =
     foldl prefer_override []
       (map (\<lambda>c. (ao_absorbedContactId c, ao_permission c))
          (filter (\<lambda>c. map_of (fl_authOverrides filled) (ao_permission c) = Some AbsorbedSide) (cp_authOverrideConflicts cp))
        @ map (\<lambda>(permission, contactId). (contactId, permission)) (cp_foldOverridePreferences cp))"

definition chosen_fields :: "contact_plan \<Rightarrow> filled_resolutions \<Rightarrow> (string \<times> string option) list" where
  "chosen_fields cp filled =
     foldl (\<lambda>fieldValues c. AList.update (cf_field c)
         (Some (if map_of (fl_contactFields filled) (cf_field c) = Some AbsorbedSide
                then cf_absorbedValue c else cf_survivorValue c)) fieldValues)
       (cp_fieldBase cp) (cp_fieldConflicts cp)"

definition max_rat :: "rat list \<Rightarrow> rat" where
  "max_rat xs = foldl max (hd xs) (tl xs)"

definition merged_row ::
    "merge_plan \<Rightarrow> snapshot_contact \<Rightarrow> (string \<times> string option) list \<Rightarrow> string \<Rightarrow> merged_contact_row" where
  "merged_row plan surviving fieldValues finalLabel =
     (let cp = pl_contacts plan;
          all = surviving # cp_merged cp;
          seen = sort (List.map_filter sc_lastSeenAt all);
          noteParts = filter (\<lambda>n. n \<noteq> []) (List.map_filter sc_notes all)
      in \<lparr>mr_kgNodeId = sn_id (ms_node (sp_survivor (pl_snapshot plan))),
          mr_displayName = (if isStructuralContact surviving then sc_displayName surviving else finalLabel),
          mr_fields = fieldValues,
          mr_notes = (if noteParts \<noteq> [] then Some (js_join (CHR 0x0A # ''---'' @ [CHR 0x0A]) noteParts) else None),
          mr_tier = foldTier surviving (cp_merged cp),
          mr_kind = (case cp_resultingKind cp of Some k \<Rightarrow> k | None \<Rightarrow> s_kind surviving),
          mr_contactConfidence = max_rat (map sc_contactConfidence all),
          mr_lastSeenAt = (if seen = [] then None else Some (last seen)),
          mr_inboundMessageCount = sum_list (map sc_inboundMessageCount all),
          mr_outboundMessageCount = sum_list (map sc_outboundMessageCount all)\<rparr>)"

definition buildContactOperations :: "merge_plan \<Rightarrow> filled_resolutions \<Rightarrow> string \<Rightarrow> contact_operations" where
  "buildContactOperations plan filled finalLabel =
     (let cp = pl_contacts plan;
          isPrincipal = (case cp_surviving cp of Some c \<Rightarrow> s_systemRole c = Some RPrincipal | None \<Rightarrow> False);
          ops = \<lparr>co_action = cp_action cp, co_survivingContactId = map_option sc_id (cp_surviving cp),
            co_repoints = map (\<lambda>r. (sc_id (fst r), snd r)) (cp_repointed cp), co_merges = [], co_mergedRow = None,
            co_mergedContactIds = map sc_id (cp_merged cp),
            co_repointedContactIds = map (\<lambda>r. sc_id (fst r)) (cp_repointed cp),
            co_survivingIsPrincipal = isPrincipal,
            co_principalIdentitiesTransferred = (if isPrincipal then cp_principalIdentitiesTransferred cp else []),
            co_principalPrimaryFieldsFilled = []\<rparr>
      in case cp_surviving cp of
           None \<Rightarrow> ops
         | Some surviving \<Rightarrow>
             if cp_action cp \<noteq> ActMerge then ops
             else
               let fieldValues = chosen_fields cp filled;
                   preferAbsorbed = preferred_absorbed cp filled
               in ops\<lparr>co_principalPrimaryFieldsFilled :=
                        (if isPrincipal then concat (map (\<lambda>field.
                           (case map_of fieldValues field of
                              Some (Some value) \<Rightarrow> if fieldOf surviving field \<noteq> Some value then [(field, value)] else []
                            | _ \<Rightarrow> [])) PRINCIPAL_PRIMARY_FIELDS) else []),
                      co_mergedRow := Some (merged_row plan surviving fieldValues finalLabel),
                      co_merges := map (\<lambda>m. (sc_id m,
                        case map_of preferAbsorbed (sc_id m) of Some ps \<Rightarrow> ps | None \<Rightarrow> [])) (cp_merged cp)\<rparr>)"

section \<open>Applying the resolutions\<close>

definition unknownKeys :: "(string \<times> 'a) list option \<Rightarrow> string list \<Rightarrow> string \<Rightarrow> string list" where
  "unknownKeys given known name =
     map (\<lambda>k. name @ '':'' @ k) (filter (\<lambda>k. k \<notin> set known) (case given of None \<Rightarrow> [] | Some m \<Rightarrow> map fst m))"

definition or_else :: "'a option \<Rightarrow> 'a \<Rightarrow> 'a" where
  "or_else v d = (case v of Some x \<Rightarrow> x | None \<Rightarrow> d)"

definition fill_resolutions :: "merge_plan \<Rightarrow> resolutions \<Rightarrow> filled_resolutions" where
  "fill_resolutions plan res =
     \<lparr>fl_label = or_else (rs_label res) SurvivorSide,
      fl_properties = from_entries (map (\<lambda>c. (pc_key c, or_else (ownValue (rs_properties res) (pc_key c)) (pc_default c)))
        (np_propertyConflicts (pl_node plan))),
      fl_facts = from_entries (map (\<lambda>c. (fc_id c, or_else (ownValue (rs_facts res) (fc_id c)) (side_choice (fc_default c))))
        (fp_conflicts (pl_facts plan))),
      fl_nearDuplicateFacts = from_entries (map (\<lambda>n. (nd_id n, or_else (ownValue (rs_nearDuplicateFacts res) (nd_id n)) MergeNear))
        (fp_nearDuplicates (pl_facts plan))),
      fl_contactFields = from_entries (map (\<lambda>c. (cf_field c, or_else (ownValue (rs_contactFields res) (cf_field c)) SurvivorSide))
        (cp_fieldConflicts (pl_contacts plan))),
      fl_authOverrides = from_entries (map (\<lambda>c. (ao_permission c,
          or_else (ownValue (rs_authOverrides res) (ao_permission c)) (ao_default c)))
        (cp_authOverrideConflicts (pl_contacts plan))),
      fl_acknowledgements = sort (remdups (or_else (rs_acknowledgements res) []))\<rparr>"

definition fact_update_ops :: "(string \<times> fact_update) list \<Rightarrow> fact_update_op list" where
  "fact_update_ops updates =
     js_sort_by (\<lambda>x y. uo_id x \<le> uo_id y) (map (\<lambda>(_, u).
       \<lparr>uo_id = sn_id (fu_fact u), uo_confidence = fu_confidence u, uo_lastConfirmedAt = fu_lastConfirmedAt u,
        uo_sensitivity = fu_sensitivity u,
        uo_properties =
          (if fu_previousValues u = [] then sn_properties (fu_fact u)
           else AList.update ''previous_values''
             (JArr ((case jfield (sn_properties (fu_fact u)) ''previous_values'' of JArr h \<Rightarrow> h | _ \<Rightarrow> [])
                    @ fu_previousValues u)) (sn_properties (fu_fact u)))\<rparr>) updates)"

definition edge_ops :: "edge_plan \<Rightarrow> edge_operations" where
  "edge_ops edges =
     \<lparr>ex_deleteEdgeIds = sort (map se_id (ep_dropped edges) @ map (\<lambda>c. se_id (ec_absorbedEdge c)) (ep_collapsed edges)),
      ex_collapses = map (\<lambda>c. let s = ec_survivorEdge c; a = ec_absorbedEdge c in
        \<lparr>eo_survivorEdgeId = se_id s, eo_absorbedEdgeId = se_id a,
         eo_confidence = max (se_confidence s) (se_confidence a),
         eo_lastConfirmedAt = (if se_lastConfirmedAt a \<le> se_lastConfirmedAt s then se_lastConfirmedAt s else se_lastConfirmedAt a),
         eo_decayClass = mostDurable (se_decayClass s) (se_decayClass a),
         eo_properties = spread (se_properties a) (se_properties s)\<rparr>) (ep_collapsed edges),
      ex_moveEdgeIds = sort (map se_id (ep_moved edges))\<rparr>"

text \<open>The checks of \<open>applyResolutions\<close>, in their order; nothing is built before all of them pass.\<close>

definition check_resolutions :: "merge_plan \<Rightarrow> resolutions \<Rightarrow> unit resolved" where
  "check_resolutions plan res =
     (let preview = pl_preview plan;
          unknown = unknownKeys (rs_properties res) (map pc_key (np_propertyConflicts (pl_node plan))) ''properties''
            @ unknownKeys (rs_facts res) (map fc_id (fp_conflicts (pl_facts plan))) ''facts''
            @ unknownKeys (rs_nearDuplicateFacts res) (map nd_id (fp_nearDuplicates (pl_facts plan))) ''nearDuplicateFacts''
            @ unknownKeys (rs_contactFields res) (map cf_field (cp_fieldConflicts (pl_contacts plan))) ''contactFields''
            @ unknownKeys (rs_authOverrides res) (map ao_permission (cp_authOverrideConflicts (pl_contacts plan))) ''authOverrides'';
          acknowledged = or_else (rs_acknowledgements res) []
      in if pv_blockers preview \<noteq> [] then Inl (MergeBlocked (pv_blockers preview))
         else if unknown \<noteq> [] then Inl (InvalidResolution ''unknown_resolution'')
         else if list_ex (\<lambda>w. mw_requiresAck w \<and> mw_code w \<notin> set acknowledged) (pv_warnings preview)
         then Inl (InvalidResolution ''ack_required'')
         else if or_else (rs_label res) SurvivorSide = AbsorbedSide
                 \<and> list_ex (\<lambda>w. mw_code w = ''label_collision'') (pv_warnings preview)
         then Inl (MergeBlocked [''label_collision''])
         else Inr ())"

definition execution_plan_of ::
    "merge_plan \<Rightarrow> filled_resolutions \<Rightarrow> string \<Rightarrow> built_fact_operations \<Rightarrow> execution_plan" where
  "execution_plan_of plan filled mergedAt built =
     (let s = ms_node (sp_survivor (pl_snapshot plan)); a = ms_node (sp_absorbed (pl_snapshot plan));
          al = computeAliases s a (fl_label filled);
          properties = foldl (\<lambda>ps c. setOwn (pc_key c)
              (if ownValue (Some (fl_properties filled)) (pc_key c) = Some AbsorbedSide
               then pc_absorbedValue c else pc_survivorValue c) ps)
            (np_mergedProperties (pl_node plan)) (np_propertyConflicts (pl_node plan))
      in \<lparr>xp_survivorId = sn_id s, xp_absorbedId = sn_id a, xp_mergedAt = mergedAt,
          xp_crossType = (sn_type s \<noteq> sn_type a),
          xp_node = \<lparr>no_label = al_label al, no_labelChanged = (al_label al \<noteq> sn_label s),
            no_aliases = al_aliases al, no_properties = properties, no_plan = pl_node plan\<rparr>,
          xp_facts = \<lparr>fx_deleteFactIds = bo_deleteFactIds built, fx_relinkEdgeIds = bo_relinkEdgeIds built,
            fx_deleteLinkEdgeIds = bo_deleteLinkEdgeIds built,
            fx_repointOutsideEdges = bo_repointOutsideEdges built,
            fx_dropOutsideEdgeIds = bo_dropOutsideEdgeIds built, fx_updates = fact_update_ops (bo_updates built),
            fx_movedFactCount = length (bo_movedFactIds built),
            fx_collapsedFactCount = bo_collapsedFactCount built\<rparr>,
          xp_edges = edge_ops (pl_edges plan),
          xp_contacts = buildContactOperations plan filled (al_label al),
          xp_summary = summaryCounts (pl_edges plan) built,
          xp_conflictsResolved = length (np_propertyConflicts (pl_node plan)) + length (fp_conflicts (pl_facts plan))
            + length (fp_nearDuplicates (pl_facts plan)) + length (cp_fieldConflicts (pl_contacts plan))
            + length (cp_authOverrideConflicts (pl_contacts plan)),
          xp_resolutions = filled\<rparr>)"

text \<open>\<open>None\<close> would be a loop of \<open>buildFactOperations\<close> that does not return.\<close>

definition applyResolutions ::
    "(rat \<Rightarrow> string) \<Rightarrow> merge_plan \<Rightarrow> resolutions \<Rightarrow> string \<Rightarrow> execution_plan resolved option" where
  "applyResolutions ns plan res mergedAt =
     (case check_resolutions plan res of
        Inl e \<Rightarrow> Some (Inl e)
      | Inr _ \<Rightarrow>
          (let filled = fill_resolutions plan res
           in do { built \<leftarrow> buildFactOperations ns (pl_facts plan)
                     \<lparr>ch_facts = fl_facts filled, ch_nearDuplicateFacts = fl_nearDuplicateFacts filled\<rparr> mergedAt;
                   Some (Inr (execution_plan_of plan filled mergedAt built)) }))"

section \<open>Running the folds\<close>

text \<open>The executor's loop over the planned folds; a missing row or a failing fold stops it.\<close>

fun run_folds ::
    "string \<Rightarrow> string \<Rightarrow> merged_contact_row \<Rightarrow> (string \<times> string list) list \<Rightarrow> contact_backend
      \<Rightarrow> fold_error + contact_backend" where
  "run_folds now survivingId row [] be = Inr be"
| "run_folds now survivingId row ((secondaryId, prefs) # ms) be =
     (case mergeContactRowsInTx now survivingId secondaryId (mr_tier row) (mr_kind row) prefs be of
        Inl e \<Rightarrow> Inl e
      | Inr (_, be') \<Rightarrow> run_folds now survivingId row ms be')"

end
