(* ===== verification/ContactFoldProofs.thy ===== *)
theory ContactFoldProofs
  imports ContactFold
begin

text \<open>
  What a fold does to the permissions, the identities and the dedup rulings of the two contacts.
  A contact's permission is the first active row the backend holds for it; the partial unique index
  on active rows is the invariant \<open>active_unique\<close>, which every operation keeps.
\<close>

section \<open>Active overrides\<close>

definition effective :: "string \<Rightarrow> (string \<times> auth_override_row) list \<Rightarrow> string \<Rightarrow> bool option" where
  "effective contactId rows permission = map_of (getAuthOverrides contactId rows) permission"

definition active_unique :: "(string \<times> auth_override_row) list \<Rightarrow> bool" where
  "active_unique rows \<longleftrightarrow> (\<forall>c. distinct (map fst (getAuthOverrides c rows)))"

lemma getAuthOverrides_simps [simp]:
  "getAuthOverrides c [] = []"
  "getAuthOverrides c ((k, ov) # rows) =
     (if active_for c ov then [(or_permission ov, or_granted ov)] else []) @ getAuthOverrides c rows"
  by (simp_all add: getAuthOverrides_def)

lemma reattach_other:
  "c \<noteq> fromId \<Longrightarrow> c \<noteq> toId \<Longrightarrow> getAuthOverrides c (reattach_override_rows fromId toId ps rows) = getAuthOverrides c rows"
  by (induction fromId toId ps rows rule: reattach_override_rows.induct) auto

lemma reattach_from:
  "fromId \<noteq> toId \<Longrightarrow> getAuthOverrides fromId (reattach_override_rows fromId toId ps rows) = []"
  by (induction fromId toId ps rows rule: reattach_override_rows.induct) auto

lemma reattach_perms:
  "fst ` set (getAuthOverrides toId (reattach_override_rows fromId toId ps rows))
    \<subseteq> fst ` set (getAuthOverrides toId rows) \<union> (- set ps)"
proof (induction fromId toId ps rows rule: reattach_override_rows.induct)
  case (2 fromId toId ps key ov rows)
  have own: "fst ` set (getAuthOverrides toId rows) \<subseteq> fst ` set (getAuthOverrides toId ((key, ov) # rows))" by auto
  show ?case
  proof (cases "active_for fromId ov")
    case False
    then show ?thesis using "2.IH"(1) by auto
  next
    case from': True
    show ?thesis
    proof (cases "or_permission ov \<in> set ps")
      case True
      then show ?thesis using "2.IH"(2) from' own by auto
    next
      case False
      have "fst ` set (getAuthOverrides toId (reattach_override_rows fromId toId (or_permission ov # ps) rows))
          \<subseteq> fst ` set (getAuthOverrides toId rows) \<union> (- set ps)"
        using "2.IH"(3) from' False by auto
      then show ?thesis using False from' own by simp blast
    qed
  qed
qed simp

lemma reattach_to:
  assumes "fromId \<noteq> toId" "fst ` set (getAuthOverrides toId rows) \<subseteq> set ps"
  shows "map_of (getAuthOverrides toId (reattach_override_rows fromId toId ps rows)) p =
    (case map_of (getAuthOverrides toId rows) p of
       Some g \<Rightarrow> Some g
     | None \<Rightarrow> if p \<in> set ps then None else map_of (getAuthOverrides fromId rows) p)"
  using assms
proof (induction fromId toId ps rows rule: reattach_override_rows.induct)
  case (2 fromId toId ps key ov rows)
  have sub: "fst ` set (getAuthOverrides toId rows) \<subseteq> set ps" using "2.prems"(2) by auto
  then have none: "q \<notin> set ps \<Longrightarrow> map_of (getAuthOverrides toId rows) q = None" for q
    by (auto simp: map_of_eq_None_iff)
  have head: "active_for toId ov \<Longrightarrow> or_permission ov \<in> set ps" using "2.prems"(2) by simp
  consider "\<not> active_for fromId ov" | "active_for fromId ov" "or_permission ov \<in> set ps"
    | "active_for fromId ov" "or_permission ov \<notin> set ps" by blast
  then show ?case
  proof cases
    case 1
    then show ?thesis using 1 "2.IH"(1) "2.prems"(1) sub
      by (cases "map_of (getAuthOverrides toId rows) p") auto
  next
    case 2
    then show ?thesis using 2 "2.IH"(2) "2.prems"(1) sub
      by (cases "map_of (getAuthOverrides toId rows) p") auto
  next
    case 3
    have "fst ` set (getAuthOverrides toId rows) \<subseteq> set (or_permission ov # ps)" using sub by auto
    then show ?thesis using 3 "2.IH"(3) "2.prems"(1) none
      by (cases "map_of (getAuthOverrides toId rows) p") auto
  qed
qed simp

lemma reattach_distinct:
  assumes "fromId \<noteq> toId" "fst ` set (getAuthOverrides toId rows) \<subseteq> set ps" "distinct (map fst (getAuthOverrides toId rows))"
  shows "distinct (map fst (getAuthOverrides toId (reattach_override_rows fromId toId ps rows)))"
  using assms
proof (induction fromId toId ps rows rule: reattach_override_rows.induct)
  case (2 fromId toId ps key ov rows)
  have sub: "fst ` set (getAuthOverrides toId rows) \<subseteq> set ps" using 2 by auto
  consider "\<not> active_for fromId ov" | "active_for fromId ov" "or_permission ov \<in> set ps"
    | "active_for fromId ov" "or_permission ov \<notin> set ps" by blast
  then show ?case
  proof cases
    case 1
    then show ?thesis using 2 sub reattach_perms [of toId fromId ps rows] by (auto split: if_splits)
  next
    case 2
    then show ?thesis using "2.IH"(2) "2.prems" sub by auto
  next
    case 3
    have "or_permission ov \<notin> fst ` set (getAuthOverrides toId (reattach_override_rows fromId toId (or_permission ov # ps) rows))"
      using reattach_perms [of toId fromId "or_permission ov # ps" rows] sub 3(2) by fastforce
    moreover have "distinct (map fst (getAuthOverrides toId (reattach_override_rows fromId toId (or_permission ov # ps) rows)))"
      using 3 "2.IH"(3) "2.prems" sub by auto
    ultimately show ?thesis using 3 by simp
  qed
qed simp

lemma reattach_effective:
  assumes "fromId \<noteq> toId"
  shows "effective c (reattachAuthOverrides fromId toId rows) p =
    (if c = fromId then None
     else if c = toId then (case effective toId rows p of Some g \<Rightarrow> Some g | None \<Rightarrow> effective fromId rows p)
     else effective c rows p)"
proof -
  let ?ps = "map fst (getAuthOverrides toId rows)"
  have "map_of (getAuthOverrides toId rows) p = None \<Longrightarrow> p \<notin> set ?ps" by (auto simp: map_of_eq_None_iff)
  then show ?thesis using reattach_to [OF assms, of rows ?ps p]
    by (auto simp: effective_def reattachAuthOverrides_def reattach_from [OF assms] reattach_other split: option.splits)
qed

lemma reattach_unique:
  assumes "fromId \<noteq> toId" "active_unique rows"
  shows "active_unique (reattachAuthOverrides fromId toId rows)"
  unfolding active_unique_def
proof
  fix c
  show "distinct (map fst (getAuthOverrides c (reattachAuthOverrides fromId toId rows)))"
    using assms reattach_distinct [OF assms(1), of rows "map fst (getAuthOverrides toId rows)"]
    by (cases "c = fromId"; cases "c = toId")
       (auto simp: reattachAuthOverrides_def active_unique_def reattach_from reattach_other)
qed

lemma revoke_other:
  "c \<noteq> d \<Longrightarrow> getAuthOverrides c (snd (revokeAuthOverride now d p rows)) = getAuthOverrides c rows"
  by (induction now d p rows rule: revokeAuthOverride.induct) (auto split: prod.splits)

lemma revoke_same:
  "distinct (map fst (getAuthOverrides c rows)) \<Longrightarrow>
   getAuthOverrides c (snd (revokeAuthOverride now c p rows)) = filter (\<lambda>x. fst x \<noteq> p) (getAuthOverrides c rows)"
proof (induction now c p rows rule: revokeAuthOverride.induct)
  case (2 now c p key ov rows)
  have tl: "distinct (map fst (getAuthOverrides c rows))" using "2.prems" by (auto split: if_splits)
  show ?case
  proof (cases "active_for c ov \<and> or_permission ov = p")
    case True
    with "2.prems" have "\<forall>x\<in>set (getAuthOverrides c rows). fst x \<noteq> p" by force
    then show ?thesis using True by simp
  next
    case False
    then show ?thesis using "2.IH" tl by (auto split: prod.splits)
  qed
qed simp

lemma revoke_unique: "active_unique rows \<Longrightarrow> active_unique (snd (revokeAuthOverride now d p rows))"
proof -
  assume u: "active_unique rows"
  have "distinct (map fst (getAuthOverrides c (snd (revokeAuthOverride now d p rows))))" for c
  proof (cases "c = d")
    case True
    with u show ?thesis by (simp add: active_unique_def revoke_same distinct_map_filter)
  next
    case False
    with u show ?thesis by (simp add: active_unique_def revoke_other)
  qed
  then show ?thesis by (simp add: active_unique_def)
qed

lemma revoke_effective:
  assumes "active_unique rows"
  shows "effective c (snd (revokeAuthOverride now d p rows)) q = (if c = d \<and> q = p then None else effective c rows q)"
proof (cases "c = d")
  case True
  have "map_of (filter (\<lambda>x. fst x \<noteq> p) xs) q = (if q = p then None else map_of xs q)" for xs :: "(string \<times> bool) list"
    by (induction xs) auto
  then show ?thesis using True assms by (simp add: effective_def revoke_same active_unique_def)
next
  case False
  then show ?thesis by (simp add: effective_def revoke_other)
qed

lemma revoke_all_effective:
  assumes "active_unique rows"
  shows "active_unique (revoke_all now d ps rows)
    \<and> effective c (revoke_all now d ps rows) q = (if c = d \<and> q \<in> set ps then None else effective c rows q)"
  using assms
proof (induction ps arbitrary: rows)
  case (Cons p ps)
  have u: "active_unique (snd (revokeAuthOverride now d p rows))" by (rule revoke_unique) (rule Cons.prems)
  have step: "revoke_all now d (p # ps) rows = revoke_all now d ps (snd (revokeAuthOverride now d p rows))"
    by (simp add: revoke_all_def)
  show ?case unfolding step using Cons.IH [OF u] revoke_effective [OF Cons.prems, of c now d p q] by auto
qed (simp add: revoke_all_def)

lemma getAuthOverrides_delete:
  "getAuthOverrides c (filter (\<lambda>(_, r). or_contactId r \<noteq> i) rows) = (if c = i then [] else getAuthOverrides c rows)"
  by (induction rows) auto

text \<open>The permissions of a contact after another is folded into it.\<close>

definition fold_permission :: "bool \<Rightarrow> bool option \<Rightarrow> bool option \<Rightarrow> bool option" where
  "fold_permission preferSecondary primary secondary =
     (if preferSecondary then secondary else case primary of Some g \<Rightarrow> Some g | None \<Rightarrow> secondary)"

lemma writeMerged_overrides [simp]: "be_overrides (writeMergedContact i t k be) = be_overrides be"
  by (simp add: writeMergedContact_def split: option.split)

lemma references_overrides [simp]: "be_overrides (reattachContactReferences f t be) = be_overrides be"
  by (simp add: reattachContactReferences_def)

lemma merge_overrides:
  assumes "mergeContactRowsInTx now prim sec tier kind prefs be = Inr (r, be')" "active_unique (be_overrides be)"
  shows "active_unique (be_overrides be')
    \<and> effective c (be_overrides be') p =
        (if c = sec then None
         else if c = prim then fold_permission (p \<in> set prefs) (effective prim (be_overrides be) p) (effective sec (be_overrides be) p)
         else effective c (be_overrides be) p)"
proof -
  have ne: "prim \<noteq> sec" using assms(1) by (auto simp: mergeContactRowsInTx_def split: if_splits)
  let ?o1 = "revoke_all now prim prefs (be_overrides be)"
  let ?o2 = "reattachAuthOverrides sec prim ?o1"
  have be': "be_overrides be' = filter (\<lambda>(_, r). or_contactId r \<noteq> sec) ?o2"
    using assms(1) by (auto simp: mergeContactRowsInTx_def Let_def deleteContact_def split: if_splits option.splits)
  note u1 = revoke_all_effective [OF assms(2), of now prim prefs]
  have u2: "active_unique ?o2" using reattach_unique ne u1 by metis
  have "active_unique (be_overrides be')"
    using u2 unfolding active_unique_def be' by (auto simp: getAuthOverrides_delete)
  moreover have "effective c (be_overrides be') p = (if c = sec then None else effective c ?o2 p)" for c
    by (simp add: be' effective_def getAuthOverrides_delete)
  moreover have "sec \<noteq> prim" using ne by simp
  ultimately show ?thesis using u1 ne
    by (auto simp: reattach_effective fold_permission_def split: option.splits)
qed

end
