(* ===== verification/ContactMerge.thy ===== *)
theory ContactMerge
  imports KgResolve ContactFoldProofs
begin

text \<open>
  What the contact part of a node merge does to permissions, from the plan through the user's
  choices to the folds the executor runs: on a disagreement that is offered the chosen side wins,
  on every other one the denial does.
\<close>

section \<open>Permissions of a snapshot contact\<close>

definition override_pairs :: "auth_override list \<Rightarrow> (string \<times> bool) list" where
  "override_pairs ovs = map (\<lambda>ov. (ov_permission ov, ov_granted ov)) ovs"

definition cperm :: "snapshot_contact \<Rightarrow> string \<Rightarrow> bool option" where
  "cperm c p = map_of (override_pairs (sc_authOverrides c)) p"

definition perms_unique :: "snapshot_contact \<Rightarrow> bool" where
  "perms_unique c \<longleftrightarrow> distinct (map ov_permission (sc_authOverrides c))"

definition holders_of :: "string \<Rightarrow> snapshot_contact list \<Rightarrow> holder list" where
  "holders_of p cs = concat (map (\<lambda>c. case cperm c p of Some g \<Rightarrow> [(c, g)] | None \<Rightarrow> []) cs)"

definition deny_wins :: "string \<Rightarrow> snapshot_contact list \<Rightarrow> bool option" where
  "deny_wins p cs = (if holders_of p cs = [] then None else Some (list_all snd (holders_of p cs)))"

lemma holders_of_simps [simp]:
  "holders_of p [] = []"
  "holders_of p (c # cs) = (case cperm c p of Some g \<Rightarrow> [(c, g)] | None \<Rightarrow> []) @ holders_of p cs"
  "holders_of p (xs @ ys) = holders_of p xs @ holders_of p ys"
  by (simp_all add: holders_of_def)

lemma set_holders_of: "h \<in> set (holders_of p cs) \<longleftrightarrow> fst h \<in> set cs \<and> cperm (fst h) p = Some (snd h)"
  by (induction cs) (auto split: option.splits)

lemma override_pairs_simps [simp]:
  "override_pairs [] = []" "override_pairs (ov # ovs) = (ov_permission ov, ov_granted ov) # override_pairs ovs"
  by (simp_all add: override_pairs_def)

lemma override_pairs_None: "map_of (override_pairs ovs) p = None \<longleftrightarrow> p \<notin> set (map ov_permission ovs)"
  by (induction ovs) auto

lemma survivor_overrides_lookup:
  assumes "perms_unique c"
  shows "map_of (survivor_overrides anchored c) p = (if anchored then cperm c p else None)"
proof -
  have "distinct (map ov_permission ovs) \<Longrightarrow>
      map_of (fold (\<lambda>ov. AList.update (ov_permission ov) (ov_granted ov)) ovs m) p =
        (case map_of (override_pairs ovs) p of Some g \<Rightarrow> Some g | None \<Rightarrow> map_of m p)" for ovs and m :: "(string \<times> bool) list"
  proof (induction ovs arbitrary: m)
    case (Cons ov ovs)
    show ?case
    proof (cases "p = ov_permission ov")
      case True
      then have "map_of (override_pairs ovs) p = None" using Cons.prems by (simp add: override_pairs_None)
      with True Cons show ?thesis by simp
    qed (use Cons in \<open>simp split: option.split\<close>)
  qed simp
  then show ?thesis using assms by (simp add: survivor_overrides_def cperm_def perms_unique_def split: option.split)
qed

section \<open>The scan\<close>

definition append_holder :: "snapshot_contact \<Rightarrow> bool option \<Rightarrow> holder list option \<Rightarrow> holder list option" where
  "append_holder c h hs = (case h of None \<Rightarrow> hs | Some g \<Rightarrow> Some ((case hs of Some xs \<Rightarrow> xs | None \<Rightarrow> []) @ [(c, g)]))"

lemma addUnanchored_lookup:
  "map_of (addUnanchored c ov m) p =
    (if p = ov_permission ov then append_holder c (Some (ov_granted ov)) (map_of m p) else map_of m p)"
  by (simp add: addUnanchored_def append_holder_def)

lemma addUnanchored_fold:
  assumes "distinct (map ov_permission ovs)"
  shows "map_of (fold (addUnanchored c) ovs m) p = append_holder c (map_of (override_pairs ovs) p) (map_of m p)"
  using assms
proof (induction ovs arbitrary: m)
  case (Cons ov ovs)
  show ?case
  proof (cases "p = ov_permission ov")
    case True
    then have "map_of (override_pairs ovs) p = None" using Cons.prems by (simp add: override_pairs_None)
    with True Cons show ?thesis by (simp add: addUnanchored_lookup append_holder_def)
  qed (use Cons in \<open>simp add: addUnanchored_lookup\<close>)
qed (simp add: append_holder_def)

definition conflict_at :: "override_scan \<Rightarrow> string \<Rightarrow> auth_override_conflict option" where
  "conflict_at sc p = find (\<lambda>c. ao_permission c = p) (os_conflicts sc)"

definition scan_ok :: "override_scan \<Rightarrow> bool" where
  "scan_ok sc \<longleftrightarrow> set (os_seen sc) = ao_permission ` set (os_conflicts sc) \<and> distinct (map ao_permission (os_conflicts sc))"

definition new_conflict :: "snapshot_contact \<Rightarrow> string \<Rightarrow> bool \<Rightarrow> auth_override_conflict" where
  "new_conflict m p g = \<lparr>ao_permission = p, ao_survivorGranted = g, ao_absorbedGranted = (\<not> g),
     ao_absorbedContactId = sc_id m, ao_default = (if g then AbsorbedSide else SurvivorSide)\<rparr>"

text \<open>What scanning one contact adds for a permission the survivor holds as \<open>g\<close>.\<close>

definition next_conflict ::
    "snapshot_contact \<Rightarrow> string \<Rightarrow> bool option \<Rightarrow> bool option \<Rightarrow> auth_override_conflict option \<Rightarrow> auth_override_conflict option" where
  "next_conflict m p g h old =
     (case old of Some c \<Rightarrow> Some c
      | None \<Rightarrow> (case (g, h) of (Some x, Some y) \<Rightarrow> if x = y then None else Some (new_conflict m p x) | _ \<Rightarrow> None))"

lemma find_append: "find P (xs @ ys) = (case find P xs of Some x \<Rightarrow> Some x | None \<Rightarrow> find P ys)"
  by (induction xs) auto

lemma conflict_at_None: "scan_ok sc \<Longrightarrow> conflict_at sc p = None \<longleftrightarrow> p \<notin> set (os_seen sc)"
  by (auto simp: scan_ok_def conflict_at_def find_None_iff)

lemma scan_override_spec:
  assumes "scan_ok sc"
  shows "scan_ok (scan_override so m ov sc)
    \<and> conflict_at (scan_override so m ov sc) p =
        next_conflict m p (map_of so p) (if p = ov_permission ov then Some (ov_granted ov) else None) (conflict_at sc p)
    \<and> map_of (os_unanchored (scan_override so m ov sc)) p =
        (if map_of so p = None then append_holder m (if p = ov_permission ov then Some (ov_granted ov) else None) (map_of (os_unanchored sc) p)
         else map_of (os_unanchored sc) p)"
proof (cases "map_of so (ov_permission ov)")
  case None
  then show ?thesis using assms
    by (auto simp: scan_override_def scan_ok_def conflict_at_def next_conflict_def addUnanchored_lookup append_holder_def split: option.splits)
next
  case (Some g)
  show ?thesis
  proof (cases "g = ov_granted ov \<or> ov_permission ov \<in> set (os_seen sc)")
    case True
    then have "next_conflict m p (map_of so p) (if p = ov_permission ov then Some (ov_granted ov) else None) (conflict_at sc p) = conflict_at sc p"
      using Some conflict_at_None [OF assms, of p] by (auto simp: next_conflict_def split: option.split)
    moreover have "scan_override so m ov sc = sc" using Some True by (simp add: scan_override_def)
    ultimately show ?thesis using assms Some by (auto simp: append_holder_def)
  next
    case False
    let ?c = "new_conflict m (ov_permission ov) g"
    have sc': "scan_override so m ov sc = sc\<lparr>os_seen := ov_permission ov # os_seen sc, os_conflicts := os_conflicts sc @ [?c]\<rparr>"
      using Some False by (auto simp: scan_override_def new_conflict_def)
    have "scan_ok (scan_override so m ov sc)" using False assms by (auto simp: sc' scan_ok_def new_conflict_def)
    moreover have "conflict_at (scan_override so m ov sc) p =
        next_conflict m p (map_of so p) (if p = ov_permission ov then Some (ov_granted ov) else None) (conflict_at sc p)"
      using False Some conflict_at_None [OF assms, of "ov_permission ov"]
      by (auto simp: sc' conflict_at_def find_append next_conflict_def new_conflict_def split: option.split)
    ultimately show ?thesis using Some by (auto simp: sc' append_holder_def)
  qed
qed

lemma scan_contact_spec:
  assumes "scan_ok sc" "perms_unique m"
  shows "scan_ok (scan_contact so m sc)
    \<and> conflict_at (scan_contact so m sc) p = next_conflict m p (map_of so p) (cperm m p) (conflict_at sc p)
    \<and> map_of (os_unanchored (scan_contact so m sc)) p =
        (if map_of so p = None then append_holder m (cperm m p) (map_of (os_unanchored sc) p)
         else map_of (os_unanchored sc) p)"
proof -
  have "distinct (map ov_permission ovs) \<Longrightarrow> scan_ok sc \<Longrightarrow> scan_ok (fold (scan_override so m) ovs sc)
    \<and> conflict_at (fold (scan_override so m) ovs sc) p = next_conflict m p (map_of so p) (map_of (override_pairs ovs) p) (conflict_at sc p)
    \<and> map_of (os_unanchored (fold (scan_override so m) ovs sc)) p =
        (if map_of so p = None then append_holder m (map_of (override_pairs ovs) p) (map_of (os_unanchored sc) p)
         else map_of (os_unanchored sc) p)" for ovs
  proof (induction ovs arbitrary: sc)
    case Nil
    then show ?case by (auto simp: next_conflict_def append_holder_def split: option.split)
  next
    case (Cons ov ovs)
    note one = scan_override_spec [OF Cons.prems(2), of so m ov p]
    have ih: "scan_ok (fold (scan_override so m) ovs (scan_override so m ov sc))"
      "conflict_at (fold (scan_override so m) ovs (scan_override so m ov sc)) p
        = next_conflict m p (map_of so p) (map_of (override_pairs ovs) p) (conflict_at (scan_override so m ov sc) p)"
      "map_of (os_unanchored (fold (scan_override so m) ovs (scan_override so m ov sc))) p =
        (if map_of so p = None then append_holder m (map_of (override_pairs ovs) p) (map_of (os_unanchored (scan_override so m ov sc)) p)
         else map_of (os_unanchored (scan_override so m ov sc)) p)"
      using Cons.IH [of "scan_override so m ov sc"] Cons.prems one by auto
    show ?case
    proof (cases "p = ov_permission ov")
      case True
      then have "map_of (override_pairs ovs) p = None" using Cons.prems by (simp add: override_pairs_None)
      then show ?thesis using True ih one
        by (auto simp: next_conflict_def append_holder_def split: option.splits)
    next
      case False
      then show ?thesis using ih one
        by (auto simp: next_conflict_def append_holder_def split: option.splits)
    qed
  qed
  then show ?thesis using assms by (simp add: scan_contact_def cperm_def perms_unique_def)
qed

lemma append_holder_holders:
  "append_holder m (cperm m p) (if xs = [] then None else Some xs) =
    (if xs @ holders_of p [m] = [] then None else Some (xs @ holders_of p [m]))"
  by (auto simp: append_holder_def split: option.split)

lemma scan_list:
  assumes "scan_ok sc" "\<And>c. c \<in> set ms \<Longrightarrow> perms_unique c"
    "map_of so p = None \<Longrightarrow> map_of (os_unanchored sc) p = (if xs = [] then None else Some xs)"
    "map_of so p \<noteq> None \<Longrightarrow> map_of (os_unanchored sc) p = None"
  shows "scan_ok (fold (scan_contact so) ms sc)
    \<and> map_of (os_unanchored (fold (scan_contact so) ms sc)) p =
        (if map_of so p \<noteq> None \<or> xs @ holders_of p ms = [] then None else Some (xs @ holders_of p ms))
    \<and> conflict_at (fold (scan_contact so) ms sc) p =
        (case conflict_at sc p of Some c \<Rightarrow> Some c
         | None \<Rightarrow> (case map_of so p of None \<Rightarrow> None
                   | Some g \<Rightarrow> map_option (\<lambda>m. new_conflict m p g) (find (\<lambda>m. cperm m p = Some (\<not> g)) ms)))"
  using assms
proof (induction ms arbitrary: sc xs)
  case Nil
  then show ?case by (auto split: option.splits)
next
  case (Cons m ms)
  note one = scan_contact_spec [OF Cons.prems(1), of m so p]
  have m: "perms_unique m" using Cons.prems(2) by simp
  let ?sc = "scan_contact so m sc"
  have a: "map_of so p = None \<Longrightarrow> map_of (os_unanchored ?sc) p =
      (if xs @ holders_of p [m] = [] then None else Some (xs @ holders_of p [m]))"
    using one [OF m] Cons.prems(3) append_holder_holders [of m p xs] by simp
  have b: "map_of so p \<noteq> None \<Longrightarrow> map_of (os_unanchored ?sc) p = None" using one [OF m] Cons.prems(4) by auto
  have c: "scan_ok ?sc" using one [OF m] by simp
  have ih: "scan_ok (fold (scan_contact so) ms ?sc)"
    "map_of (os_unanchored (fold (scan_contact so) ms ?sc)) p =
        (if map_of so p \<noteq> None \<or> (xs @ holders_of p [m]) @ holders_of p ms = [] then None
         else Some ((xs @ holders_of p [m]) @ holders_of p ms))"
    "conflict_at (fold (scan_contact so) ms ?sc) p =
        (case conflict_at ?sc p of Some c \<Rightarrow> Some c
         | None \<Rightarrow> (case map_of so p of None \<Rightarrow> None
                   | Some g \<Rightarrow> map_option (\<lambda>m. new_conflict m p g) (find (\<lambda>m. cperm m p = Some (\<not> g)) ms)))"
    using Cons.IH [OF c _ a b] Cons.prems(2) by auto
  have "conflict_at ?sc p = next_conflict m p (map_of so p) (cperm m p) (conflict_at sc p)" using one [OF m] by simp
  with ih show ?case by (auto simp: next_conflict_def split: option.splits)
qed

lemma scan_overrides_spec:
  fixes surv :: snapshot_contact and ms :: "snapshot_contact list" and p :: string and anchored :: bool
  assumes "perms_unique surv" "\<forall>c \<in> set ms. perms_unique c"
  defines "g \<equiv> if anchored then cperm surv p else None"
  defines "hs \<equiv> holders_of p (if anchored then ms else surv # ms)"
  shows "scan_ok (scan_overrides anchored surv ms)
    \<and> map_of (os_unanchored (scan_overrides anchored surv ms)) p = (if g \<noteq> None \<or> hs = [] then None else Some hs)
    \<and> conflict_at (scan_overrides anchored surv ms) p =
        (case g of None \<Rightarrow> None | Some x \<Rightarrow> map_option (\<lambda>m. new_conflict m p x) (find (\<lambda>m. cperm m p = Some (\<not> x)) ms))"
proof -
  let ?so = "survivor_overrides anchored surv"
  let ?sc = "\<lparr>os_seen = [], os_conflicts = [],
        os_unanchored = (if anchored then [] else fold (addUnanchored surv) (sc_authOverrides surv) [])\<rparr>"
  let ?xs = "if anchored then [] else holders_of p [surv]"
  have so: "map_of ?so p = g" using survivor_overrides_lookup [OF assms(1)] by (simp add: g_def)
  have "map_of (os_unanchored ?sc) p = (if ?xs = [] then None else Some ?xs)"
    using assms(1) by (simp add: addUnanchored_fold perms_unique_def cperm_def append_holder_def split: option.split)
  moreover have "g \<noteq> None \<Longrightarrow> map_of (os_unanchored ?sc) p = None" by (simp add: g_def split: if_splits)
  moreover have "scan_ok ?sc" by (simp add: scan_ok_def)
  moreover have "conflict_at ?sc p = None" by (simp add: conflict_at_def)
  ultimately show ?thesis using scan_list [of ?sc ms ?so p ?xs] assms(2)
    by (simp add: scan_overrides_def so hs_def split: if_splits)
qed

section \<open>Folding in order\<close>

text \<open>The permission after the folds, when \<open>chosen\<close> is the contact preferred for it, if any.\<close>

definition folds_to :: "string option \<Rightarrow> string \<Rightarrow> bool option \<Rightarrow> snapshot_contact list \<Rightarrow> bool option" where
  "folds_to chosen p e ms = foldl (\<lambda>e m. fold_permission (chosen = Some (sc_id m)) e (cperm m p)) e ms"

lemma folds_to_simps [simp]:
  "folds_to chosen p e [] = e"
  "folds_to chosen p e (m # ms) = folds_to chosen p (fold_permission (chosen = Some (sc_id m)) e (cperm m p)) ms"
  by (simp_all add: folds_to_def)

lemma folds_to_kept: "chosen \<notin> Some ` sc_id ` set ms \<Longrightarrow> folds_to chosen p (Some g) ms = Some g"
  by (induction ms) (auto simp: fold_permission_def)

lemma folds_to_first:
  "chosen \<notin> Some ` sc_id ` set ms \<Longrightarrow>
   folds_to chosen p e ms = (case e of Some g \<Rightarrow> Some g
     | None \<Rightarrow> (case holders_of p ms of [] \<Rightarrow> None | h # _ \<Rightarrow> Some (snd h)))"
proof (induction ms arbitrary: e)
  case (Cons m ms)
  have n: "chosen \<noteq> Some (sc_id m)" "chosen \<notin> Some ` sc_id ` set ms" using Cons.prems by auto
  show ?case
  proof (cases e)
    case None
    then show ?thesis using n Cons.IH folds_to_kept by (simp add: fold_permission_def split: option.split)
  next
    case (Some g)
    then show ?thesis using n folds_to_kept by (simp add: fold_permission_def)
  qed
qed (simp split: option.split)

lemma folds_to_chosen:
  assumes "m \<in> set ms" "distinct (map sc_id ms)" "cperm m p = Some h"
  shows "folds_to (Some (sc_id m)) p e ms = Some h"
  using assms
proof (induction ms arbitrary: e)
  case (Cons c ms)
  show ?case
  proof (cases "m = c")
    case True
    then have "Some (sc_id m) \<notin> Some ` sc_id ` set ms" using Cons.prems(2) by auto
    with True Cons.prems(3) show ?thesis by (simp add: fold_permission_def folds_to_kept)
  next
    case False
    then show ?thesis using Cons by auto
  qed
qed simp

section \<open>Which contact is preferred\<close>

text \<open>Of a permission: the contact whose override must win at its fold, given the user's choice.\<close>

definition peer_choice :: "holder list option \<Rightarrow> string option" where
  "peer_choice hs = (case hs of None \<Rightarrow> None
     | Some xs \<Rightarrow> (case find (\<lambda>h. \<not> snd h) xs of None \<Rightarrow> None
                 | Some d \<Rightarrow> if list_ex snd xs \<and> snd (hd xs) then Some (sc_id (fst d)) else None))"

definition chosen_contact :: "override_scan \<Rightarrow> side option \<Rightarrow> string \<Rightarrow> string option" where
  "chosen_contact sc choice p =
     (case conflict_at sc p of
        Some c \<Rightarrow> if choice = Some AbsorbedSide then Some (ao_absorbedContactId c) else None
      | None \<Rightarrow> peer_choice (map_of (os_unanchored sc) p))"

lemma peer_preferences_mem:
  "(p, i) \<in> set (fst (peer_preferences un)) \<longleftrightarrow> peer_choice (map_of un p) = Some i"
proof -
  have one: "(p, i) \<in> set (fst (peer_preference (q, hs))) \<longleftrightarrow> q = p \<and> peer_choice (Some hs) = Some i" for q hs
    by (auto simp: peer_preference_def peer_choice_def split: option.split)
  have "(p, i) \<in> set (fst (peer_preferences un)) \<longleftrightarrow>
      (\<exists>q \<in> fst ` set un. (p, i) \<in> set (fst (peer_preference (q, the (map_of un q)))))"
    by (simp add: peer_preferences_def Let_def)
  also have "\<dots> \<longleftrightarrow> p \<in> fst ` set un \<and> peer_choice (Some (the (map_of un p))) = Some i"
    by (simp only: one) blast
  also have "\<dots> \<longleftrightarrow> peer_choice (map_of un p) = Some i"
  proof (cases "map_of un p")
    case None
    then have "p \<notin> fst ` set un" by (simp add: map_of_eq_None_iff)
    with None show ?thesis by (simp add: peer_choice_def)
  next
    case (Some hs)
    then have "p \<in> fst ` set un" by (metis weak_map_of_SomeI domI map_of_SomeD fst_conv image_iff)
    with Some show ?thesis by simp
  qed
  finally show ?thesis .
qed

lemma prefer_override_mem:
  "p \<in> set (or_else (map_of (foldl prefer_override m ps) i) []) \<longleftrightarrow>
    (i, p) \<in> set ps \<or> p \<in> set (or_else (map_of m i) [])"
proof (induction ps arbitrary: m)
  case (Cons x ps)
  obtain j q where x: "x = (j, q)" by (cases x)
  show ?case using Cons [of "prefer_override m (j, q)"]
    by (auto simp: x prefer_override_def or_else_def split: option.splits)
qed simp

lemma conflict_at_mem:
  assumes "scan_ok sc"
  shows "conflict_at sc p = Some c \<longleftrightarrow> c \<in> set (os_conflicts sc) \<and> ao_permission c = p"
proof -
  have "distinct (map ao_permission cs) \<Longrightarrow>
      find (\<lambda>c. ao_permission c = p) cs = Some c \<longleftrightarrow> c \<in> set cs \<and> ao_permission c = p" for cs
    by (induction cs) (auto simp: rev_image_eqI)
  then show ?thesis using assms by (simp add: scan_ok_def conflict_at_def)
qed

lemma preferred_iff:
  assumes "scan_ok sc" "\<And>c. c \<in> set (os_conflicts sc) \<Longrightarrow> map_of (os_unanchored sc) (ao_permission c) = None"
    "cp_authOverrideConflicts cp = js_sort_by le (os_conflicts sc)"
    "cp_foldOverridePreferences cp = fst (peer_preferences (os_unanchored sc))"
  shows "p \<in> set (or_else (map_of (preferred_absorbed cp filled) i) []) \<longleftrightarrow>
    chosen_contact sc (map_of (fl_authOverrides filled) p) p = Some i"
proof -
  have "p \<in> set (or_else (map_of (preferred_absorbed cp filled) i) []) \<longleftrightarrow>
      (\<exists>c \<in> set (os_conflicts sc). map_of (fl_authOverrides filled) (ao_permission c) = Some AbsorbedSide
          \<and> ao_absorbedContactId c = i \<and> ao_permission c = p)
      \<or> (p, i) \<in> set (fst (peer_preferences (os_unanchored sc)))"
    unfolding preferred_absorbed_def prefer_override_mem assms(3,4)
    by (auto simp: or_else_def image_iff)
  also have "\<dots> \<longleftrightarrow> chosen_contact sc (map_of (fl_authOverrides filled) p) p = Some i"
  proof (cases "conflict_at sc p")
    case None
    then have "\<not> (\<exists>c \<in> set (os_conflicts sc). ao_permission c = p)" using conflict_at_mem [OF assms(1), of p] by simp
    then have "\<not> (\<exists>c \<in> set (os_conflicts sc). map_of (fl_authOverrides filled) (ao_permission c) = Some AbsorbedSide
          \<and> ao_absorbedContactId c = i \<and> ao_permission c = p)" by blast
    then show ?thesis using None by (simp only: chosen_contact_def peer_preferences_mem option.case simp_thms)
  next
    case (Some c)
    then have c: "c \<in> set (os_conflicts sc)" "ao_permission c = p" using conflict_at_mem [OF assms(1)] by auto
    then have "map_of (os_unanchored sc) p = None" using assms(2) [OF c(1)] by simp
    then have "(p, i) \<notin> set (fst (peer_preferences (os_unanchored sc)))" by (simp add: peer_preferences_mem peer_choice_def)
    moreover have "(\<exists>c' \<in> set (os_conflicts sc). map_of (fl_authOverrides filled) (ao_permission c') = Some AbsorbedSide
          \<and> ao_absorbedContactId c' = i \<and> ao_permission c' = p)
        \<longleftrightarrow> map_of (fl_authOverrides filled) p = Some AbsorbedSide \<and> ao_absorbedContactId c = i"
    proof -
      have "c' = c" if "c' \<in> set (os_conflicts sc)" "ao_permission c' = p" for c'
        using that Some conflict_at_mem [OF assms(1), of p c'] by simp
      with c show ?thesis by blast
    qed
    ultimately show ?thesis using Some by (simp add: chosen_contact_def)
  qed
  finally show ?thesis .
qed

section \<open>The outcome\<close>

definition override_outcome :: "override_scan \<Rightarrow> side option \<Rightarrow> string \<Rightarrow> snapshot_contact list \<Rightarrow> bool option" where
  "override_outcome sc choice p cs =
     (case conflict_at sc p of
        Some c \<Rightarrow> Some (if choice = Some AbsorbedSide then ao_absorbedGranted c else ao_survivorGranted c)
      | None \<Rightarrow> deny_wins p cs)"

lemma folds_outcome:
  assumes u: "perms_unique surv" "\<forall>c \<in> set ms. perms_unique c" and d: "distinct (map sc_id ms)"
    and sc: "sc = scan_overrides anchored surv ms"
  shows "folds_to (chosen_contact sc choice p) p (cperm surv p) ms = override_outcome sc choice p (surv # ms)"
proof (cases "if anchored then cperm surv p else None")
  case (Some x)
  then have surv: "cperm surv p = Some x" "anchored" by (auto split: if_splits)
  note spec = scan_overrides_spec [where surv = surv and ms = ms and anchored = anchored and p = p, OF u, folded sc]
  have un: "map_of (os_unanchored sc) p = None" using spec surv by simp
  show ?thesis
  proof (cases "find (\<lambda>m. cperm m p = Some (\<not> x)) ms")
    case None
    then have "conflict_at sc p = None" using spec surv by simp
    moreover have "list_all snd (holders_of p (surv # ms)) = x"
    proof -
      have "cperm m p \<noteq> Some (\<not> x)" if "m \<in> set ms" for m using None that by (auto simp: find_None_iff)
      then have "snd h = x" if "h \<in> set (holders_of p ms)" for h
        using that set_holders_of [of h p ms] by (cases x; cases "snd h") auto
      then show ?thesis using surv by (auto simp: list_all_iff)
    qed
    ultimately show ?thesis using surv un
      by (simp add: override_outcome_def chosen_contact_def peer_choice_def folds_to_kept deny_wins_def)
  next
    case (Some m)
    then have m: "m \<in> set ms" "cperm m p = Some (\<not> x)" by (auto simp: find_Some_iff)
    have "conflict_at sc p = Some (new_conflict m p x)" using spec surv Some by simp
    then show ?thesis using folds_to_chosen [OF m(1) d m(2), of "Some x"] surv
      by (simp add: override_outcome_def chosen_contact_def new_conflict_def folds_to_kept)
  qed
next
  case None
  note spec = scan_overrides_spec [where surv = surv and ms = ms and anchored = anchored and p = p, OF u, folded sc]
  let ?hs = "holders_of p (surv # ms)"
  have hs: "holders_of p (if anchored then ms else surv # ms) = ?hs" using None by (auto split: if_splits)
  have conf: "conflict_at sc p = None" and un: "map_of (os_unanchored sc) p = (if ?hs = [] then None else Some ?hs)"
    using spec None unfolding hs by simp_all
  show ?thesis
  proof (cases "find (\<lambda>h. \<not> snd h) ?hs")
    case no_deny: None
    then have "list_all snd ?hs" unfolding find_None_iff list_all_iff by blast
    moreover have "chosen_contact sc choice p = None" using conf un no_deny by (simp add: chosen_contact_def peer_choice_def)
    ultimately show ?thesis using conf
      by (auto simp: folds_to_first override_outcome_def deny_wins_def split: option.splits list.splits)
  next
    case (Some dn)
    then have dn: "dn \<in> set ?hs" "\<not> snd dn" by (auto simp: find_Some_iff simp del: holders_of_simps)
    have dw: "deny_wins p (surv # ms) = Some False"
    proof -
      have "?hs \<noteq> []" "\<not> list_all snd ?hs" using dn by (auto simp: list_all_iff simp del: holders_of_simps)
      then show ?thesis unfolding deny_wins_def by simp
    qed
    obtain h t where ht: "?hs = h # t" using dn(1)
      by (cases "?hs") (auto simp del: holders_of_simps)
    have un': "map_of (os_unanchored sc) p = Some (h # t)" using un ht by (simp del: holders_of_simps)
    have first: "find (\<lambda>h. \<not> snd h) (h # t) = Some dn" using Some unfolding ht .
    show ?thesis
    proof (cases "snd h")
      case True
      have ch: "chosen_contact sc choice p = Some (sc_id (fst dn))"
        using conf un' first True by (simp add: chosen_contact_def peer_choice_def)
      have "fst dn \<noteq> surv"
      proof
        assume "fst dn = surv"
        then have "cperm surv p = Some False" using dn by (simp add: set_holders_of del: holders_of_simps)
        then show False using ht True by auto
      qed
      then have "fst dn \<in> set ms" "cperm (fst dn) p = Some False"
        using dn by (auto simp: set_holders_of simp del: holders_of_simps)
      then show ?thesis using folds_to_chosen [OF _ d] ch conf dw by (simp add: override_outcome_def)
    next
      case False
      then have "chosen_contact sc choice p = None" using conf un' first
        by (simp add: chosen_contact_def peer_choice_def split: option.split)
      then show ?thesis using conf dw ht False
        by (auto simp: folds_to_first override_outcome_def split: option.splits list.splits)
    qed
  qed
qed

end
