(* ===== verification/ContactMergeRun.thy ===== *)
theory ContactMergeRun
  imports ContactMerge
begin

text \<open>
  The contact part of a node merge from end to end: \<open>planNodeMerge\<close>, \<open>applyResolutions\<close> and the
  executor's folds on the contact backend, for a snapshot that agrees with the backend.
\<close>

section \<open>The plan\<close>

lemma plan_person_merge:
  assumes "plan_person_contacts cs ca bl ws = (cp, bl', ws')" "cp_action cp = ActMerge" "distinct (map sc_id (cs @ ca))"
  shows "\<exists>surv ms anchored. cp_surviving cp = Some surv \<and> cp_merged cp = ms \<and> cs @ ca = surv # ms
    \<and> cp_authOverrideConflicts cp = js_sort_by (\<lambda>a b. ao_permission a \<le> ao_permission b) (os_conflicts (scan_overrides anchored surv ms))
    \<and> cp_foldOverridePreferences cp = fst (peer_preferences (os_unanchored (scan_overrides anchored surv ms)))
    \<and> (\<forall>m \<in> set ms. isStructuralContact m \<longrightarrow> ''absorbed_structural_contact'' \<in> set bl')"
proof (cases "cs @ ca")
  case Nil
  then show ?thesis using assms(1,2)
    by (auto simp: plan_person_contacts_def Let_def empty_contact_plan_def split: if_splits)
next
  case (Cons surv ms)
  have "distinct (map sc_id (surv # ms))" using assms(3) unfolding Cons .
  then have flt: "filter (\<lambda>c. sc_id c \<noteq> sc_id surv) ms = ms" by (auto simp: image_iff intro!: filter_True)
  let ?from = "if cs \<noteq> [] then SurvivorSide else AbsorbedSide"
  show ?thesis
  proof (intro exI conjI)
    show "cp_surviving cp = Some surv" "cp_merged cp = ms" "cs @ ca = surv # ms"
      "cp_authOverrideConflicts cp = js_sort_by (\<lambda>a b. ao_permission a \<le> ao_permission b) (os_conflicts (scan_overrides (?from = SurvivorSide) surv ms))"
      "cp_foldOverridePreferences cp = fst (peer_preferences (os_unanchored (scan_overrides (?from = SurvivorSide) surv ms)))"
      "\<forall>m \<in> set ms. isStructuralContact m \<longrightarrow> ''absorbed_structural_contact'' \<in> set bl'"
      using assms(1,2) flt by (auto simp: Cons plan_person_contacts_def planContactFields_def Let_def split: if_splits)
  qed
qed

lemma plan_contacts_merge:
  assumes "planContacts survivor absorbed bl ws = (cp, bl', ws')" "cp_action cp = ActMerge"
    "distinct (map sc_id (ms_contacts survivor @ ms_contacts absorbed))"
  obtains surv ms anchored where "cp_surviving cp = Some surv" "cp_merged cp = ms"
    "mset (surv # ms) = mset (ms_contacts survivor @ ms_contacts absorbed)"
    "cp_authOverrideConflicts cp = js_sort_by (\<lambda>a b. ao_permission a \<le> ao_permission b) (os_conflicts (scan_overrides anchored surv ms))"
    "cp_foldOverridePreferences cp = fst (peer_preferences (os_unanchored (scan_overrides anchored surv ms)))"
    "\<And>m. m \<in> set ms \<Longrightarrow> isStructuralContact m \<Longrightarrow> ''absorbed_structural_contact'' \<in> set bl'"
proof -
  let ?cs = "js_sort_by byCreation (ms_contacts survivor)" and ?ca = "js_sort_by byCreation (ms_contacts absorbed)"
  have person: "plan_person_contacts ?cs ?ca bl ws = (cp, bl', ws')" using assms(1,2)
    by (auto simp: planContacts_def Let_def empty_contact_plan_def split: if_splits)
  have m: "mset (?cs @ ?ca) = mset (ms_contacts survivor @ ms_contacts absorbed)" by simp
  then have "distinct (map sc_id (?cs @ ?ca))" using assms(3) by (metis mset_eq_imp_distinct_iff mset_map)
  from plan_person_merge [OF person assms(2) this] show thesis using m that by metis
qed

lemma plan_contacts_of:
  assumes "planNodeMerge ns token snap sim = Some plan"
  shows "pl_snapshot plan = snap"
    "\<exists>cp ws ws'. planContacts (sp_survivor snap) (sp_absorbed snap) (merge_guards (sp_survivor snap) (sp_absorbed snap)) []
       = (cp, pv_blockers (pl_preview plan), ws) \<and> principal_transfer (sp_survivor snap) cp ws = (pl_contacts plan, ws')"
  using assms by (auto simp: planNodeMerge_def Let_def split: prod.splits bind_splits)

lemma principal_transfer_keeps:
  assumes "principal_transfer survivor cp ws = (cp', ws')"
  shows "cp_action cp' = cp_action cp" "cp_surviving cp' = cp_surviving cp" "cp_merged cp' = cp_merged cp"
    "cp_authOverrideConflicts cp' = cp_authOverrideConflicts cp"
    "cp_foldOverridePreferences cp' = cp_foldOverridePreferences cp"
  using assms by (auto simp: principal_transfer_def Let_def split: if_splits)

section \<open>The choices\<close>

lemma from_entries_lookup:
  "distinct (map fst xs) \<Longrightarrow> map_of (from_entries xs) k = map_of xs k"
proof -
  have "distinct (map fst xs) \<Longrightarrow> map_of (foldl (\<lambda>m (k, v). AList.update k v m) m xs) k =
      (case map_of xs k of Some v \<Rightarrow> Some v | None \<Rightarrow> map_of m k)" for m :: "(string \<times> 'a) list"
  proof (induction xs arbitrary: m)
    case (Cons x xs)
    obtain q v where x: "x = (q, v)" by (cases x)
    show ?case
    proof (cases "k = q")
      case True
      then have "map_of xs k = None" using Cons.prems x by (simp add: map_of_eq_None_iff)
      with True Cons x show ?thesis by simp
    qed (use Cons x in \<open>simp split: option.split\<close>)
  qed simp
  then show "distinct (map fst xs) \<Longrightarrow> ?thesis" by (simp add: from_entries_def split: option.split)
qed

lemma map_of_conflicts:
  "distinct (map ao_permission cs) \<Longrightarrow> c \<in> set cs \<Longrightarrow> map_of (map (\<lambda>c. (ao_permission c, f c)) cs) (ao_permission c) = Some (f c)"
  by (induction cs) (auto simp: rev_image_eqI)

definition override_choice :: "resolutions \<Rightarrow> auth_override_conflict \<Rightarrow> side" where
  "override_choice res c = or_else (ownValue (rs_authOverrides res) (ao_permission c)) (ao_default c)"

lemma filled_choice:
  assumes "distinct (map ao_permission (cp_authOverrideConflicts (pl_contacts plan)))"
    "c \<in> set (cp_authOverrideConflicts (pl_contacts plan))"
  shows "map_of (fl_authOverrides (fill_resolutions plan res)) (ao_permission c) = Some (override_choice res c)"
proof -
  have "map fst (map (\<lambda>c. (ao_permission c, override_choice res c)) (cp_authOverrideConflicts (pl_contacts plan)))
      = map ao_permission (cp_authOverrideConflicts (pl_contacts plan))" by simp
  then show ?thesis using assms map_of_conflicts
    by (simp add: fill_resolutions_def from_entries_lookup comp_def flip: override_choice_def)
qed

section \<open>The folds\<close>

lemma lock_lookup:
  "map_of (lockContactsForMerge ids be) i = (if i \<in> set ids then map_of (be_contacts be) i else None)"
proof -
  have "map_of (concat (map (\<lambda>i. case map_of m i of Some c \<Rightarrow> [(i, c)] | None \<Rightarrow> []) xs)) i
      = (if i \<in> set xs then map_of m i else None)" for xs and m :: "(string \<times> contact_standing) list"
    by (induction xs) (auto split: option.splits)
  then show ?thesis by (simp add: lockContactsForMerge_def)
qed

lemma writeMerged_contacts:
  "map_of (be_contacts (writeMergedContact i t k be)) j =
    (if j = i then map_option (\<lambda>c. c\<lparr>s_tier := t, s_kind := k\<rparr>) (map_of (be_contacts be) i) else map_of (be_contacts be) j)"
  by (auto simp: writeMergedContact_def split: option.split)

lemma references_contacts [simp]: "be_contacts (reattachContactReferences f t be) = be_contacts be"
  by (simp add: reattachContactReferences_def)

lemma merge_succeeds:
  assumes "prim \<noteq> sec" "map_of (be_contacts be) prim = Some a" "map_of (be_contacts be) sec = Some b" "\<not> isStructuralContact b"
  obtains r be' where "mergeContactRowsInTx now prim sec tier kind prefs be = Inr (r, be')"
    "\<And>j. map_of (be_contacts be') j = (if j = sec then None
       else if j = prim then Some (a\<lparr>s_tier := tier, s_kind := kind\<rparr>) else map_of (be_contacts be) j)"
proof -
  have "\<exists>r be'. mergeContactRowsInTx now prim sec tier kind prefs be = Inr (r, be')
    \<and> (\<forall>j. map_of (be_contacts be') j = (if j = sec then None
       else if j = prim then Some (a\<lparr>s_tier := tier, s_kind := kind\<rparr>) else map_of (be_contacts be) j))"
    using assms by (auto simp: mergeContactRowsInTx_def Let_def lock_lookup deleteContact_def writeMerged_contacts)
  then show thesis using that by blast
qed

text \<open>The backend holds what the snapshot says of a contact.\<close>

definition store_matches :: "contact_backend \<Rightarrow> snapshot_contact \<Rightarrow> bool" where
  "store_matches be c \<longleftrightarrow>
     (case map_of (be_contacts be) (sc_id c) of None \<Rightarrow> False | Some st \<Rightarrow> isStructuralContact st = isStructuralContact c)
     \<and> effective (sc_id c) (be_overrides be) = cperm c"

lemma run_folds_spec:
  assumes "map_of (be_contacts be) sid \<noteq> None" "sid \<notin> sc_id ` set ms" "distinct (map sc_id ms)" "active_unique (be_overrides be)"
    "\<And>m. m \<in> set ms \<Longrightarrow> store_matches be m \<and> \<not> isStructuralContact m"
    "\<And>m. m \<in> set ms \<Longrightarrow> p \<in> set (prefs (sc_id m)) \<longleftrightarrow> chosen = Some (sc_id m)"
  shows "\<exists>be'. run_folds now sid row (map (\<lambda>m. (sc_id m, prefs (sc_id m))) ms) be = Inr be'
    \<and> effective sid (be_overrides be') p = folds_to chosen p (effective sid (be_overrides be) p) ms
    \<and> (\<forall>i. map_of (be_contacts be') i = None \<longleftrightarrow> i \<in> sc_id ` set ms \<or> map_of (be_contacts be) i = None)"
  using assms
proof (induction ms arbitrary: be)
  case (Cons m ms)
  obtain a where a: "map_of (be_contacts be) sid = Some a" using Cons.prems(1) by blast
  obtain b where b: "map_of (be_contacts be) (sc_id m) = Some b" "\<not> isStructuralContact b"
    using Cons.prems(5) [of m] by (auto simp: store_matches_def split: option.splits)
  have ne: "sid \<noteq> sc_id m" using Cons.prems(2) by auto
  obtain r be1 where m1: "mergeContactRowsInTx now sid (sc_id m) (mr_tier row) (mr_kind row) (prefs (sc_id m)) be = Inr (r, be1)"
    "\<And>j. map_of (be_contacts be1) j = (if j = sc_id m then None
       else if j = sid then Some (a\<lparr>s_tier := mr_tier row, s_kind := mr_kind row\<rparr>) else map_of (be_contacts be) j)"
    by (rule merge_succeeds [OF ne a b]) blast
  note ov = merge_overrides [OF m1(1) Cons.prems(4)]
  have next': "store_matches be1 c \<and> \<not> isStructuralContact c" if "c \<in> set ms" for c
  proof -
    have c: "sc_id c \<noteq> sc_id m" "sc_id c \<noteq> sid" "store_matches be c \<and> \<not> isStructuralContact c"
      using that Cons.prems(2,3) Cons.prems(5) [of c] by (auto simp: rev_image_eqI)
    then have "effective (sc_id c) (be_overrides be1) = effective (sc_id c) (be_overrides be)" using ov by auto
    then show ?thesis using c m1(2) by (simp add: store_matches_def)
  qed
  have "\<exists>be'. run_folds now sid row (map (\<lambda>m. (sc_id m, prefs (sc_id m))) ms) be1 = Inr be'
    \<and> effective sid (be_overrides be') p = folds_to chosen p (effective sid (be_overrides be1) p) ms
    \<and> (\<forall>i. map_of (be_contacts be') i = None \<longleftrightarrow> i \<in> sc_id ` set ms \<or> map_of (be_contacts be1) i = None)"
    by (rule Cons.IH) (use Cons.prems ov m1(2) ne next' in auto)
  moreover have "effective sid (be_overrides be1) p = fold_permission (chosen = Some (sc_id m)) (effective sid (be_overrides be) p) (cperm m p)"
    using ov [of sid p] ne Cons.prems(5) [of m] Cons.prems(6) [of m] by (simp add: store_matches_def)
  moreover have "map_of (be_contacts be1) i = None \<longleftrightarrow> i = sc_id m \<or> map_of (be_contacts be) i = None" for i
    using m1(2) a by auto
  ultimately show ?case using m1(1) by (auto simp: comp_def)
qed simp

section \<open>End to end\<close>

lemma deny_wins_set:
  assumes "set cs = set ds"
  shows "deny_wins p cs = deny_wins p ds"
proof -
  have "set (holders_of p cs) = set (holders_of p ds)" using assms by (auto simp: set_holders_of)
  then show ?thesis by (auto simp: deny_wins_def list_all_iff simp flip: set_empty)
qed

lemma applied_contacts:
  assumes "applyResolutions ns plan res now = Some (Inr xp)"
  obtains l where "xp_contacts xp = buildContactOperations plan (fill_resolutions plan res) l" "pv_blockers (pl_preview plan) = []"
proof -
  have "check_resolutions plan res = Inr ()" using assms
    by (auto simp: applyResolutions_def split: sum.splits)
  then have "pv_blockers (pl_preview plan) = []"
    by (auto simp: check_resolutions_def Let_def split: if_splits)
  moreover have "\<exists>l. xp_contacts xp = buildContactOperations plan (fill_resolutions plan res) l"
    using assms by (auto simp: applyResolutions_def execution_plan_of_def Let_def split: sum.splits bind_splits)
  ultimately show thesis using that by blast
qed

lemma built_merges:
  assumes "co_mergedRow (buildContactOperations plan filled l) = Some row"
  obtains surv where "cp_surviving (pl_contacts plan) = Some surv" "cp_action (pl_contacts plan) = ActMerge"
    "co_survivingContactId (buildContactOperations plan filled l) = Some (sc_id surv)"
    "co_merges (buildContactOperations plan filled l) =
       map (\<lambda>m. (sc_id m, or_else (map_of (preferred_absorbed (pl_contacts plan) filled) (sc_id m)) [])) (cp_merged (pl_contacts plan))"
proof (cases "cp_surviving (pl_contacts plan)")
  case None
  with assms show thesis by (simp add: buildContactOperations_def Let_def)
next
  case (Some surv)
  show thesis
  proof (cases "cp_action (pl_contacts plan) = ActMerge")
    case True
    show thesis by (rule that [OF Some True]) (simp_all add: buildContactOperations_def Some True or_else_def Let_def)
  next
    case False
    with Some assms show thesis by (simp add: buildContactOperations_def Let_def)
  qed
qed

lemma merge_permissions:
  assumes plan: "planNodeMerge ns token snap sim = Some plan"
    and applied: "applyResolutions ns plan res now = Some (Inr xp)"
    and row: "co_mergedRow (xp_contacts xp) = Some row"
    and cs: "cs = ms_contacts (sp_survivor snap) @ ms_contacts (sp_absorbed snap)"
    and ids: "distinct (map sc_id cs)" and perms: "\<And>c. c \<in> set cs \<Longrightarrow> perms_unique c"
    and store: "active_unique (be_overrides be)" "\<And>c. c \<in> set cs \<Longrightarrow> store_matches be c"
  shows "\<exists>surv ms anchored be'. cp_surviving (pl_contacts plan) = Some surv \<and> mset (surv # ms) = mset cs
    \<and> cp_authOverrideConflicts (pl_contacts plan)
        = js_sort_by (\<lambda>a b. ao_permission a \<le> ao_permission b) (os_conflicts (scan_overrides anchored surv ms))
    \<and> co_survivingContactId (xp_contacts xp) = Some (sc_id surv)
    \<and> run_folds now (sc_id surv) row (co_merges (xp_contacts xp)) be = Inr be'
    \<and> effective (sc_id surv) (be_overrides be') p =
        override_outcome (scan_overrides anchored surv ms)
          (map_option (override_choice res) (conflict_at (scan_overrides anchored surv ms) p)) p cs"
proof -
  obtain l where l: "xp_contacts xp = buildContactOperations plan (fill_resolutions plan res) l" "pv_blockers (pl_preview plan) = []"
    by (rule applied_contacts [OF applied])
  obtain surv where surv: "cp_surviving (pl_contacts plan) = Some surv" "cp_action (pl_contacts plan) = ActMerge"
    "co_survivingContactId (xp_contacts xp) = Some (sc_id surv)"
    "co_merges (xp_contacts xp) =
       map (\<lambda>m. (sc_id m, or_else (map_of (preferred_absorbed (pl_contacts plan) (fill_resolutions plan res)) (sc_id m)) []))
         (cp_merged (pl_contacts plan))"
    unfolding l(1) by (rule built_merges [OF row [unfolded l(1)]])
  obtain cp ws ws' where cp: "planContacts (sp_survivor snap) (sp_absorbed snap) (merge_guards (sp_survivor snap) (sp_absorbed snap)) []
       = (cp, pv_blockers (pl_preview plan), ws)" "principal_transfer (sp_survivor snap) cp ws = (pl_contacts plan, ws')"
    using plan_contacts_of(2) [OF plan] by blast
  note keep = principal_transfer_keeps [OF cp(2)]
  have act: "cp_action cp = ActMerge" using keep(1) surv(2) by simp
  obtain s ms anchored where m: "cp_surviving cp = Some s" "cp_merged cp = ms" "mset (s # ms) = mset cs"
    "cp_authOverrideConflicts cp = js_sort_by (\<lambda>a b. ao_permission a \<le> ao_permission b) (os_conflicts (scan_overrides anchored s ms))"
    "cp_foldOverridePreferences cp = fst (peer_preferences (os_unanchored (scan_overrides anchored s ms)))"
    "\<And>m. m \<in> set ms \<Longrightarrow> isStructuralContact m \<Longrightarrow> ''absorbed_structural_contact'' \<in> set (pv_blockers (pl_preview plan))"
    by (rule plan_contacts_merge [OF cp(1) act]) (use ids cs in auto)
  have s: "s = surv" using m(1) keep(2) surv(1) by simp
  let ?sc = "scan_overrides anchored surv ms"
  have set_eq: "set (surv # ms) = set cs" using m(3) s by (metis set_mset_mset)
  have d: "distinct (map sc_id (surv # ms))" using m(3) s ids by (metis mset_eq_imp_distinct_iff mset_map)
  have u: "perms_unique surv" "\<forall>c \<in> set ms. perms_unique c" using perms set_eq by auto
  have ok: "scan_ok ?sc" using scan_overrides_spec [where surv = surv and ms = ms, OF u] by blast
  have un: "map_of (os_unanchored ?sc) (ao_permission c) = None" if "c \<in> set (os_conflicts ?sc)" for c
  proof -
    have c: "conflict_at ?sc (ao_permission c) = Some c" using conflict_at_mem [OF ok] that by simp
    note spec = scan_overrides_spec [where surv = surv and ms = ms and p = "ao_permission c" and anchored = anchored, OF u]
    show ?thesis using spec c by (cases anchored; cases "cperm surv (ao_permission c)") auto
  qed
  let ?fill = "fill_resolutions plan res"
  have conf: "cp_authOverrideConflicts (pl_contacts plan) = js_sort_by (\<lambda>a b. ao_permission a \<le> ao_permission b) (os_conflicts ?sc)"
    "cp_foldOverridePreferences (pl_contacts plan) = fst (peer_preferences (os_unanchored ?sc))"
    using m(4,5) keep(4,5) s by simp_all
  have dc: "distinct (map ao_permission (cp_authOverrideConflicts (pl_contacts plan)))"
    using ok by (simp add: conf scan_ok_def)
  have choice: "map_of (fl_authOverrides ?fill) p = Some (override_choice res c)" if "conflict_at ?sc p = Some c" for c
    using that conflict_at_mem [OF ok, of p c] filled_choice [OF dc, of c res] conf(1) by auto
  have same: "chosen_contact ?sc (map_of (fl_authOverrides ?fill) p) p
      = chosen_contact ?sc (map_option (override_choice res) (conflict_at ?sc p)) p"
    using choice by (cases "conflict_at ?sc p") (simp_all add: chosen_contact_def)
  let ?prefs = "\<lambda>i. or_else (map_of (preferred_absorbed (pl_contacts plan) ?fill) i) []"
  have pref: "p \<in> set (?prefs i) \<longleftrightarrow>
      chosen_contact ?sc (map_option (override_choice res) (conflict_at ?sc p)) p = Some i" for i
    unfolding same [symmetric] by (rule preferred_iff [OF ok un conf])
  have nonstruct: "store_matches be m \<and> \<not> isStructuralContact m" if "m \<in> set ms" for m
    using that m(6) l(2) store(2) set_eq by auto
  have run: "\<exists>be'. run_folds now (sc_id surv) row (map (\<lambda>m. (sc_id m, ?prefs (sc_id m))) ms) be = Inr be'
    \<and> effective (sc_id surv) (be_overrides be') p
        = folds_to (chosen_contact ?sc (map_option (override_choice res) (conflict_at ?sc p)) p) p
            (effective (sc_id surv) (be_overrides be) p) ms
    \<and> (\<forall>i. map_of (be_contacts be') i = None \<longleftrightarrow> i \<in> sc_id ` set ms \<or> map_of (be_contacts be) i = None)"
  proof (rule run_folds_spec)
    show "map_of (be_contacts be) (sc_id surv) \<noteq> None"
    proof -
      have "surv \<in> set cs" using set_eq by auto
      from store(2) [OF this] show ?thesis by (auto simp: store_matches_def split: option.splits)
    qed
  qed (use store(1) d nonstruct pref in auto)
  have e0: "effective (sc_id surv) (be_overrides be) p = cperm surv p"
  proof -
    have "surv \<in> set cs" using set_eq by auto
    from store(2) [OF this] show ?thesis by (simp add: store_matches_def)
  qed
  have e1: "folds_to (chosen_contact ?sc (map_option (override_choice res) (conflict_at ?sc p)) p) p (cperm surv p) ms
      = override_outcome ?sc (map_option (override_choice res) (conflict_at ?sc p)) p (surv # ms)"
    by (rule folds_outcome) (use u d in auto)
  have e2: "override_outcome ?sc ch p (surv # ms) = override_outcome ?sc ch p cs" for ch
    using deny_wins_set [OF set_eq, of p] by (simp add: override_outcome_def split: option.split)
  have e3: "co_merges (xp_contacts xp) = map (\<lambda>m. (sc_id m, ?prefs (sc_id m))) ms"
    using surv(4) m(2) keep(3) by simp
  have e4: "mset (surv # ms) = mset cs" using m(3) s by simp
  obtain be' where be': "run_folds now (sc_id surv) row (co_merges (xp_contacts xp)) be = Inr be'"
    "effective (sc_id surv) (be_overrides be') p
        = folds_to (chosen_contact ?sc (map_option (override_choice res) (conflict_at ?sc p)) p) p
            (effective (sc_id surv) (be_overrides be) p) ms"
    using run unfolding e3 by blast
  have "effective (sc_id surv) (be_overrides be') p = override_outcome ?sc (map_option (override_choice res) (conflict_at ?sc p)) p cs"
    unfolding be'(2) e0 e1 e2 ..
  then show ?thesis using surv(1,3) conf(1) e4 be'(1) by (intro exI conjI)
qed

lemma find_mem: "find P xs = Some x \<Longrightarrow> x \<in> set xs \<and> P x"
  by (auto simp: find_Some_iff)

lemma find_conflict_sorted:
  assumes "scan_ok sc"
  shows "find (\<lambda>c. ao_permission c = p) (js_sort_by le (os_conflicts sc)) = conflict_at sc p"
proof (cases "conflict_at sc p")
  case None
  then have "\<not> (\<exists>c \<in> set (os_conflicts sc). ao_permission c = p)" using conflict_at_mem [OF assms, of p] by simp
  then show ?thesis unfolding None find_None_iff by auto
next
  case (Some c)
  obtain c' where c': "find (\<lambda>c. ao_permission c = p) (js_sort_by le (os_conflicts sc)) = Some c'"
    using Some conflict_at_mem [OF assms, of p c] by (cases "find (\<lambda>c. ao_permission c = p) (js_sort_by le (os_conflicts sc))")
      (auto simp: find_None_iff)
  then have "c' \<in> set (os_conflicts sc)" "ao_permission c' = p"
    using find_mem [OF c'] by simp_all
  then show ?thesis using c' conflict_at_mem [OF assms, of p c'] by simp
qed

text \<open>A conflict that is offered defaults to the side that denies.\<close>

lemma default_denies:
  assumes "perms_unique surv" "\<forall>c \<in> set ms. perms_unique c" "set (surv # ms) = set cs"
    "conflict_at (scan_overrides anchored surv ms) p = Some c"
  shows "ao_default c = (if ao_survivorGranted c then AbsorbedSide else SurvivorSide)"
    "ao_absorbedGranted c = (\<not> ao_survivorGranted c)" "deny_wins p cs = Some False"
proof -
  note spec = scan_overrides_spec [where surv = surv and ms = ms and p = p and anchored = anchored, OF assms(1,2)]
  obtain x m where x: "cperm surv p = Some x" "find (\<lambda>m. cperm m p = Some (\<not> x)) ms = Some m" "c = new_conflict m p x"
    using spec assms(4) by (cases anchored; cases "cperm surv p") auto
  then show "ao_default c = (if ao_survivorGranted c then AbsorbedSide else SurvivorSide)"
    "ao_absorbedGranted c = (\<not> ao_survivorGranted c)" by (simp_all add: new_conflict_def)
  have m: "m \<in> set ms" "cperm m p = Some (\<not> x)" using x(2) by (auto simp: find_Some_iff)
  then have "(surv, x) \<in> set (holders_of p cs)" "(m, \<not> x) \<in> set (holders_of p cs)"
    using x(1) assms(3) by (auto simp: set_holders_of)
  then have "\<exists>h \<in> set (holders_of p cs). \<not> snd h" by (cases x) force+
  then show "deny_wins p cs = Some False" by (auto simp: deny_wins_def list_all_iff)
qed

lemma scan_is_ok:
  assumes "mset (surv # ms) = mset cs" "\<forall>c \<in> set cs. perms_unique c"
  shows "scan_ok (scan_overrides anchored surv ms)" "perms_unique surv" "\<forall>c \<in> set ms. perms_unique c" "set (surv # ms) = set cs"
proof -
  show eq: "set (surv # ms) = set cs" using assms(1) by (metis set_mset_mset)
  then show "perms_unique surv" "\<forall>c \<in> set ms. perms_unique c" using assms(2) by auto
  then show "scan_ok (scan_overrides anchored surv ms)"
    using scan_overrides_spec [where surv = surv and ms = ms and anchored = anchored] by blast
qed

section \<open>A small merge\<close>

definition demo_contact :: "string \<Rightarrow> (string \<times> bool) list \<Rightarrow> snapshot_contact" where
  "demo_contact i ovs =
     \<lparr>s_systemRole = None, s_kind = KPerson, s_tier = TKnown, sc_id = i, sc_kgNodeId = ''n'', sc_displayName = i, sc_fields = [],
      sc_notes = None, sc_contactConfidence = 1, sc_lastSeenAt = None, sc_inboundMessageCount = 0,
      sc_outboundMessageCount = 0, sc_createdAt = ''2026'', sc_updatedAt = ''2026'', sc_identities = [],
      sc_authOverrides = map (\<lambda>(p, g). \<lparr>ov_permission = p, ov_granted = g\<rparr>) ovs\<rparr>"

definition demo_person :: "string \<Rightarrow> snapshot_contact list \<Rightarrow> merge_side" where
  "demo_person nid cs = \<lparr>ms_node = (demo_node nid nid [])\<lparr>sn_type := ''person''\<rparr>, ms_facts = [], ms_edges = [], ms_contacts = cs\<rparr>"

definition demo_snapshot :: merge_snapshot where
  "demo_snapshot = \<lparr>sp_survivor = demo_person ''s'' [demo_contact ''c1'' [(''mail'', True)]],
     sp_absorbed = demo_person ''a'' [demo_contact ''c2'' [(''mail'', False)]], sp_absorbedLabelOwner = None\<rparr>"

lemma demo_facts: "planFacts ns (demo_person a xs) (demo_person b ys) None =
   \<lparr>fp_moves = [], fp_collapses = [], fp_conflicts = [], fp_nearDuplicates = [], fp_sharedFactIds = [],
      fp_sharedLinkEdgeIds = [], fp_factOutsideEdges = []\<rparr>"
  by (simp add: planFacts_def demo_person_def plan_attributes_def groupByAttribute_def js_sort_by_def Let_def)

lemma demo_ops: "buildFactOperations ns \<lparr>fp_moves = [], fp_collapses = [], fp_conflicts = [], fp_nearDuplicates = [], fp_sharedFactIds = [],
      fp_sharedLinkEdgeIds = [], fp_factOutsideEdges = []\<rparr> ch r \<noteq> None"
  by (simp add: buildFactOperations_def fact_steps_def Let_def taken_keys_def drop_deleted_def)





lemma demo_contacts: "\<exists>cp. planContacts (sp_survivor demo_snapshot) (sp_absorbed demo_snapshot) [] [] = (cp, [], [])
    \<and> cp_action cp = ActMerge \<and> cp_surviving cp \<noteq> None"
proof -
  have "(case planContacts (sp_survivor demo_snapshot) (sp_absorbed demo_snapshot) [] [] of
     (cp, b, w) \<Rightarrow> b = [] \<and> w = [] \<and> cp_action cp = ActMerge \<and> cp_surviving cp \<noteq> None)" by code_simp
  then show ?thesis by (auto split: prod.splits)
qed

lemma demo_plan: "\<exists>plan. planNodeMerge ns [] demo_snapshot None = Some plan \<and> pv_blockers (pl_preview plan) = []
   \<and> pv_warnings (pl_preview plan) = [] \<and> cp_action (pl_contacts plan) = ActMerge \<and> cp_surviving (pl_contacts plan) \<noteq> None
   \<and> (\<forall>ch r. buildFactOperations ns (pl_facts plan) ch r \<noteq> None)"
proof -
  obtain cp where cp: "planContacts (sp_survivor demo_snapshot) (sp_absorbed demo_snapshot) [] [] = (cp, [], [])"
    "cp_action cp = ActMerge" "cp_surviving cp \<noteq> None" using demo_contacts by blast
  have g: "merge_guards (sp_survivor demo_snapshot) (sp_absorbed demo_snapshot) = []"
    "\<not> list_ex isPrincipalContact (ms_contacts (sp_survivor demo_snapshot))" by code_simp+
  have pt: "principal_transfer (sp_survivor demo_snapshot) cp [] = (cp, [])"
    using g(2) by (simp add: principal_transfer_def)
  have own: "sp_absorbedLabelOwner demo_snapshot = None" by (simp add: demo_snapshot_def)
  have f: "planFacts ns (sp_survivor demo_snapshot) (sp_absorbed demo_snapshot) None =
    \<lparr>fp_moves = [], fp_collapses = [], fp_conflicts = [], fp_nearDuplicates = [], fp_sharedFactIds = [],
      fp_sharedLinkEdgeIds = [], fp_factOutsideEdges = []\<rparr>" by (simp add: demo_snapshot_def demo_facts)
  obtain d where d: "buildFactOperations ns (planFacts ns (sp_survivor demo_snapshot) (sp_absorbed demo_snapshot) None)
     \<lparr>ch_facts = [], ch_nearDuplicateFacts = []\<rparr> (sn_lastConfirmedAt (ms_node (sp_survivor demo_snapshot))) = Some d"
    using demo_ops unfolding f by blast
  show ?thesis
    unfolding planNodeMerge_def Let_def g(1) cp(1) prod.case pt own d label_collision_warning_def
    using cp(2,3) demo_ops by (simp add: f)
qed

lemma demo_applied: "\<exists>plan xp row. planNodeMerge ns [] demo_snapshot None = Some plan
   \<and> applyResolutions ns plan no_resolutions now = Some (Inr xp) \<and> co_mergedRow (xp_contacts xp) = Some row"
proof -
  obtain plan where p: "planNodeMerge ns [] demo_snapshot None = Some plan" "pv_blockers (pl_preview plan) = []"
   "pv_warnings (pl_preview plan) = []" "cp_action (pl_contacts plan) = ActMerge" "cp_surviving (pl_contacts plan) \<noteq> None"
   "\<And>ch r. buildFactOperations ns (pl_facts plan) ch r \<noteq> None" using demo_plan by metis
  have c: "check_resolutions plan no_resolutions = Inr ()"
    using p(2,3) by (simp add: check_resolutions_def no_resolutions_def unknownKeys_def Let_def)
  obtain b where b: "buildFactOperations ns (pl_facts plan) \<lparr>ch_facts = fl_facts (fill_resolutions plan no_resolutions),
      ch_nearDuplicateFacts = fl_nearDuplicateFacts (fill_resolutions plan no_resolutions)\<rparr> now = Some b"
    using p(6) by blast
  have "applyResolutions ns plan no_resolutions now = Some (Inr (execution_plan_of plan (fill_resolutions plan no_resolutions) now b))"
    by (simp add: applyResolutions_def c b Let_def)
  moreover have "co_mergedRow (xp_contacts (execution_plan_of plan (fill_resolutions plan no_resolutions) now b)) \<noteq> None"
    using p(4,5) by (auto simp: execution_plan_of_def buildContactOperations_def Let_def)
  ultimately show ?thesis using p(1) by blast
qed

definition demo_store :: contact_backend where
  "demo_store = \<lparr>be_contacts = map (\<lambda>i. (i, \<lparr>s_systemRole = None, s_kind = KPerson, s_tier = TKnown\<rparr>)) [''c1'', ''c2''],
     be_identities = [],
     be_overrides = map (\<lambda>(i, c, g). (i, \<lparr>or_contactId = c, or_permission = ''mail'', or_granted = g,
       or_grantedBy = ''p'', or_createdAt = ''2026'', or_revokedAt = None\<rparr>)) [(''o1'', ''c1'', True), (''o2'', ''c2'', False)],
     be_calendars = [], be_recommendations = [], be_dedupExclusions = []\<rparr>"

definition demo_contacts_all :: "snapshot_contact list" where
  "demo_contacts_all = ms_contacts (sp_survivor demo_snapshot) @ ms_contacts (sp_absorbed demo_snapshot)"

lemma demo_contacts_ok: "distinct (map sc_id demo_contacts_all)" "\<forall>c \<in> set demo_contacts_all. perms_unique c"
  by (simp_all add: demo_contacts_all_def demo_snapshot_def demo_person_def demo_contact_def perms_unique_def)

lemma demo_store_ok:
  "active_unique (be_overrides demo_store)" "\<forall>c \<in> set demo_contacts_all. store_matches demo_store c"
proof -
  show "active_unique (be_overrides demo_store)"
    by (simp add: active_unique_def demo_store_def)
  show "\<forall>c \<in> set demo_contacts_all. store_matches demo_store c"
    by (auto simp: demo_contacts_all_def demo_snapshot_def demo_person_def demo_store_def store_matches_def demo_contact_def isStructuralContact_def
        effective_def cperm_def override_pairs_def fun_eq_iff)
qed

section \<open>Properties\<close>


text \<open>
  Nobody gains a permission by default: if the user chooses nothing about permissions, then
  after the folds the surviving contact is granted a permission only if every contact of the merge
  that held it was granted it, on the survivor's side as on the absorbed one.
\<close>

theorem denied_by_default:
  assumes "planNodeMerge ns token snap sim = Some plan" "applyResolutions ns plan res now = Some (Inr xp)"
    and "co_mergedRow (xp_contacts xp) = Some row" "rs_authOverrides res = None"
    and "cs = ms_contacts (sp_survivor snap) @ ms_contacts (sp_absorbed snap)"
    and "distinct (map sc_id cs)" "\<forall>c \<in> set cs. perms_unique c"
    and "active_unique (be_overrides be)" "\<forall>c \<in> set cs. store_matches be c"
  shows "\<exists>sid be'. co_survivingContactId (xp_contacts xp) = Some sid
    \<and> run_folds now sid row (co_merges (xp_contacts xp)) be = Inr be'
    \<and> (\<forall>p. effective sid (be_overrides be') p = deny_wins p cs)"
proof -
  note mp = merge_permissions [OF assms(1-3,5,6) bspec [OF assms(7)] assms(8) bspec [OF assms(9)]]
  obtain sid be' where run: "co_survivingContactId (xp_contacts xp) = Some sid"
    "run_folds now sid row (co_merges (xp_contacts xp)) be = Inr be'" using mp by blast
  have "effective sid (be_overrides be') p = deny_wins p cs" for p
  proof -
    obtain surv ms anchored where s: "mset (surv # ms) = mset cs"
      "effective sid (be_overrides be') p = override_outcome (scan_overrides anchored surv ms)
          (map_option (override_choice res) (conflict_at (scan_overrides anchored surv ms) p)) p cs"
      using mp [of p] run by auto
    note ok = scan_is_ok [OF s(1) assms(7)]
    show ?thesis
    proof (cases "conflict_at (scan_overrides anchored surv ms) p")
      case (Some c)
      note d = default_denies [OF ok(2-4) Some]
      have "override_choice res c = ao_default c" by (simp add: override_choice_def assms(4) ownValue_def or_else_def)
      then show ?thesis using d by (simp add: s(2) override_outcome_def Some)
    qed (simp add: s(2) override_outcome_def)
  qed
  with run show ?thesis by blast
qed


theorem denied_by_default_witness:
  "\<exists>plan xp row sid be'. planNodeMerge (\<lambda>_. []) [] demo_snapshot None = Some plan
    \<and> applyResolutions (\<lambda>_. []) plan no_resolutions ''now'' = Some (Inr xp)
    \<and> run_folds ''now'' sid row (co_merges (xp_contacts xp)) demo_store = Inr be'
    \<and> effective sid (be_overrides be') ''mail'' = Some False"
proof -
  obtain plan xp row where p: "planNodeMerge (\<lambda>_. []) [] demo_snapshot None = Some plan"
    "applyResolutions (\<lambda>_. []) plan no_resolutions ''now'' = Some (Inr xp)" "co_mergedRow (xp_contacts xp) = Some row"
    using demo_applied by blast
  have "rs_authOverrides no_resolutions = None" by (simp add: no_resolutions_def)
  from denied_by_default [OF p this demo_contacts_all_def demo_contacts_ok demo_store_ok] obtain sid be'
    where r: "run_folds ''now'' sid row (co_merges (xp_contacts xp)) demo_store = Inr be'"
      "\<forall>p. effective sid (be_overrides be') p = deny_wins p demo_contacts_all" by blast
  have "deny_wins ''mail'' demo_contacts_all = Some False" by code_simp
  then have "effective sid (be_overrides be') ''mail'' = Some False" using r(2) by simp
  with p(1,2) r(1) show ?thesis by blast
qed

end
