(* ===== verification/JsObject.thy ===== *)
theory JsObject
  imports Prelude
begin

text \<open>
  Reading a plain object by a computed key. \<open>o[k]\<close> sees the own properties first and then those of
  \<open>Object.prototype\<close>: a key such as \<open>constructor\<close> is found on every object, with a value that is
  none of the declared type. Assigning \<open>o[k] = v\<close> creates or replaces the own property \<open>k\<close>, except
  that \<open>__proto__\<close> sets the prototype and creates nothing.
\<close>

definition object_proto_names :: "string list" where
  "object_proto_names =
     [''constructor'', ''__proto__'', ''hasOwnProperty'', ''isPrototypeOf'', ''propertyIsEnumerable'',
      ''toLocaleString'', ''toString'', ''valueOf'', ''__defineGetter__'', ''__defineSetter__'',
      ''__lookupGetter__'', ''__lookupSetter__'']"

datatype 'a js_lookup = Own 'a | Inherited | Missing

definition js_index :: "(string \<times> 'a) list \<Rightarrow> string \<Rightarrow> 'a js_lookup" where
  "js_index obj k =
     (case map_of obj k of
        Some v \<Rightarrow> Own v
      | None \<Rightarrow> if k \<in> set object_proto_names then Inherited else Missing)"

definition js_assign :: "string \<Rightarrow> 'a \<Rightarrow> (string \<times> 'a) list \<Rightarrow> (string \<times> 'a) list" where
  "js_assign k v obj = (if k = ''__proto__'' then obj else AList.update k v obj)"

lemma js_index_own [simp]: "map_of obj k = Some v \<Longrightarrow> js_index obj k = Own v"
  by (simp add: js_index_def)

lemma js_index_Own_iff: "js_index obj k = Own v \<longleftrightarrow> map_of obj k = Some v"
  by (simp add: js_index_def split: option.splits)

lemma owf_assign [simp, intro]: "owf obj \<Longrightarrow> owf (js_assign k v obj)"
  by (simp add: js_assign_def)

lemma map_of_assign:
  "k \<noteq> ''__proto__'' \<Longrightarrow> map_of (js_assign k v obj) k' = (if k' = k then Some v else map_of obj k')"
  by (simp add: js_assign_def)

end
