(* ===== verification/Authorization.thy ===== *)
theory Authorization
  imports ContactTypes JsObject
begin

text \<open>
  \<open>src/src/contacts/authorization.ts\<close>: the deterministic authorization service. The configuration is
  the one \<open>config-loader.ts\<close> builds; the permission table is in the order \<open>Object.entries\<close> yields it.
  A tier is a \<open>tier_value\<close>, so a string outside the union is \<open>None\<close> and makes the first gate throw;
  a sensitivity is the string of the configuration.
\<close>

section \<open>Configuration and results\<close>

record role_permissions =
  defaultPermissions :: "string list"
  defaultDeny :: "string list"

record auth_config =
  ac_roles :: "(string \<times> role_permissions) list"
  ac_tierDefaults :: "contact_tier \<Rightarrow> role_permissions option" \<comment> \<open>an absent section has none\<close>
  ac_permissions :: "(string \<times> string) list" \<comment> \<open>name and sensitivity\<close>
  ac_channelTrust :: "(string \<times> trust_level) list"

record auth_input =
  ai_role :: "string option"
  ai_tier :: tier_value
  ai_channel :: string
  ai_overrides :: "(string \<times> bool) list" \<comment> \<open>permission, granted\<close>

record auth_result =
  ar_allowed :: "string list"
  ar_denied :: "string list"
  ar_escalate :: "string list"
  ar_channelTrust :: trust_level
  ar_trustBlocked :: "string list"

datatype auth_error = TierUnrecognized | RoleTypeError

section \<open>The service\<close>

fun TIER_TO_TRUST_RANK :: "contact_tier \<Rightarrow> nat" where
  "TIER_TO_TRUST_RANK TBlocked = 0"
| "TIER_TO_TRUST_RANK TUnknown = 0"
| "TIER_TO_TRUST_RANK TKnown = 1"
| "TIER_TO_TRUST_RANK TTrusted = 2"
| "TIER_TO_TRUST_RANK TPrincipal = 3"

text \<open>\<open>TRUST_RANK[permDef.sensitivity]\<close>; \<open>None\<close> is \<open>undefined\<close>.\<close>

definition sensitivity_rank :: "string \<Rightarrow> nat option" where
  "sensitivity_rank s =
     map_of [(''low'', TRUST_RANK Low), (''medium'', TRUST_RANK Medium),
             (''high'', TRUST_RANK High), (''ceo'', TRUST_RANK Ceo)] s"

definition channel_trust :: "auth_config \<Rightarrow> string \<Rightarrow> trust_level" where
  "channel_trust cfg ch = (case map_of (ac_channelTrust cfg) ch of Some t \<Rightarrow> t | None \<Rightarrow> Low)"

text \<open>
  The role lookup: an own entry of \<open>roles\<close> for the lower-cased role, else the tier's defaults, else
  the \<open>unknown\<close> role, else a hard deny. A role that names a member every object inherits is found
  there, and the later \<open>.includes\<close> on its missing \<open>defaultPermissions\<close> throws.
\<close>

definition role_defaults :: "auth_config \<Rightarrow> string option \<Rightarrow> contact_tier \<Rightarrow> auth_error + role_permissions" where
  "role_defaults cfg role tier =
     (let roleName = js_lower (case role of Some r \<Rightarrow> r | None \<Rightarrow> []);
          fallback = (case ac_tierDefaults cfg tier of
                        Some rd \<Rightarrow> rd
                      | None \<Rightarrow>
                          (case map_of (ac_roles cfg) ''unknown'' of
                             Some rd \<Rightarrow> rd
                           | None \<Rightarrow> \<lparr>defaultPermissions = [], defaultDeny = [''*'']\<rparr>))
      in if roleName \<noteq> [] then
           (case js_index (ac_roles cfg) roleName of
              Own rd \<Rightarrow> Inr rd
            | Inherited \<Rightarrow> Inl RoleTypeError
            | Missing \<Rightarrow> Inr fallback)
         else Inr fallback)"

definition override_map :: "(string \<times> bool) list \<Rightarrow> (string \<times> bool) list" where
  "override_map os = fold (\<lambda>(p, g). AList.update p g) os []"

record auth_lists =
  l_allowed :: "string list"
  l_denied :: "string list"
  l_escalate :: "string list"
  l_trustBlocked :: "string list"

text \<open>A granted permission: the sensitivity decides between allowed, trust-blocked and escalated.\<close>

definition push_granted :: "nat \<Rightarrow> string \<Rightarrow> string \<Rightarrow> auth_lists \<Rightarrow> auth_lists" where
  "push_granted trustRank perm sens ls =
     (case sensitivity_rank sens of
        None \<Rightarrow> ls\<lparr>l_escalate := l_escalate ls @ [perm]\<rparr>
      | Some r \<Rightarrow>
          if r \<le> trustRank then ls\<lparr>l_allowed := l_allowed ls @ [perm]\<rparr>
          else ls\<lparr>l_trustBlocked := l_trustBlocked ls @ [perm]\<rparr>)"

text \<open>One turn of the loop over \<open>Object.entries(config.permissions)\<close>.\<close>

definition auth_step ::
    "nat \<Rightarrow> (string \<times> bool) list \<Rightarrow> role_permissions \<Rightarrow> auth_lists \<Rightarrow> string \<times> string \<Rightarrow> auth_lists" where
  "auth_step trustRank ov rd ls entry =
     (let perm = fst entry; sens = snd entry;
          roleAllowsAll = ''*'' \<in> set (defaultPermissions rd);
          roleDeniesAll = ''*'' \<in> set (defaultDeny rd)
      in case map_of ov perm of
           Some True \<Rightarrow> push_granted trustRank perm sens ls
         | Some False \<Rightarrow> ls\<lparr>l_denied := l_denied ls @ [perm]\<rparr>
         | None \<Rightarrow>
             if roleAllowsAll \<or> perm \<in> set (defaultPermissions rd) then push_granted trustRank perm sens ls
             else if roleDeniesAll \<or> perm \<in> set (defaultDeny rd) then ls\<lparr>l_denied := l_denied ls @ [perm]\<rparr>
             else ls\<lparr>l_escalate := l_escalate ls @ [perm]\<rparr>)"

definition unshift_sentinel :: "bool \<Rightarrow> string list \<Rightarrow> string list" where
  "unshift_sentinel b xs = (if b \<and> ''*'' \<notin> set xs then ''*'' # xs else xs)"

definition evaluate :: "auth_config \<Rightarrow> auth_input \<Rightarrow> auth_error + auth_result" where
  "evaluate cfg inp =
     (let ct = channel_trust cfg (ai_channel inp)
      in case (ai_tier inp, meetsMinimumTier (ai_tier inp) (Some TKnown)) of
           (Some tier, Inr True) \<Rightarrow>
             (let trustRank = max (TRUST_RANK ct) (TIER_TO_TRUST_RANK tier)
              in case role_defaults cfg (ai_role inp) tier of
                   Inl e \<Rightarrow> Inl e
                 | Inr rd \<Rightarrow>
                     (let ls = foldl (auth_step trustRank (override_map (ai_overrides inp)) rd)
                                 \<lparr>l_allowed = [], l_denied = [], l_escalate = [], l_trustBlocked = []\<rparr>
                                 (ac_permissions cfg)
                      in Inr \<lparr>ar_allowed = unshift_sentinel (''*'' \<in> set (defaultPermissions rd)) (l_allowed ls),
                              ar_denied = unshift_sentinel (''*'' \<in> set (defaultDeny rd)) (l_denied ls),
                              ar_escalate = l_escalate ls, ar_channelTrust = ct,
                              ar_trustBlocked = l_trustBlocked ls\<rparr>))
         | (_, Inr _) \<Rightarrow>
             Inr \<lparr>ar_allowed = [], ar_denied = [''*''], ar_escalate = [], ar_channelTrust = ct, ar_trustBlocked = []\<rparr>
         | (_, Inl _) \<Rightarrow> Inl TierUnrecognized)"

datatype auth_decision = AllowD | DenyD | EscalateD

definition summarizeAuthorizationDecision :: "auth_result \<Rightarrow> auth_decision" where
  "summarizeAuthorizationDecision r =
     (if ''*'' \<in> set (ar_denied r) then DenyD
      else if ar_escalate r \<noteq> [] then EscalateD
      else if ar_allowed r = [] \<and> ar_denied r \<noteq> [] then DenyD
      else AllowD)"

section \<open>What the loop computes\<close>

text \<open>The class of one permission, by precedence, and the four lists as filters of the table.\<close>

datatype verdict = VAllow | VDeny | VEscalate | VBlock

definition granted_verdict :: "nat \<Rightarrow> string \<Rightarrow> verdict" where
  "granted_verdict trustRank sens =
     (case sensitivity_rank sens of
        None \<Rightarrow> VEscalate
      | Some r \<Rightarrow> if r \<le> trustRank then VAllow else VBlock)"

text \<open>The last override of a permission counts; role grants come before role denials.\<close>

definition last_override :: "(string \<times> bool) list \<Rightarrow> string \<Rightarrow> bool option" where
  "last_override os p = map_of (rev os) p"

definition names_perm :: "string list \<Rightarrow> string \<Rightarrow> bool" where
  "names_perm ps p \<longleftrightarrow> ''*'' \<in> set ps \<or> p \<in> set ps"

definition spec_verdict ::
    "nat \<Rightarrow> (string \<times> bool) list \<Rightarrow> role_permissions \<Rightarrow> string \<times> string \<Rightarrow> verdict" where
  "spec_verdict trustRank os rd e =
     (if last_override os (fst e) = Some False then VDeny
      else if last_override os (fst e) = Some True \<or> names_perm (defaultPermissions rd) (fst e)
        then granted_verdict trustRank (snd e)
      else if names_perm (defaultDeny rd) (fst e) then VDeny
      else VEscalate)"

definition perms_with :: "(string \<times> string \<Rightarrow> verdict) \<Rightarrow> verdict \<Rightarrow> (string \<times> string) list \<Rightarrow> string list" where
  "perms_with f v ps = map fst (filter (\<lambda>e. f e = v) ps)"

lemma override_map_lookup: "map_of (override_map os) p = last_override os p"
proof -
  have "map_of (fold (\<lambda>(p, g). AList.update p g) os m) p = map_of (rev os @ m) p" for m
    by (induction os arbitrary: m) (auto simp: update_conv' map_add_def split: option.splits)
  then show ?thesis by (simp add: override_map_def last_override_def)
qed

lemma push_granted_verdict:
  "push_granted t p s ls =
     (case granted_verdict t s of
        VAllow \<Rightarrow> ls\<lparr>l_allowed := l_allowed ls @ [p]\<rparr>
      | VDeny \<Rightarrow> ls\<lparr>l_denied := l_denied ls @ [p]\<rparr>
      | VEscalate \<Rightarrow> ls\<lparr>l_escalate := l_escalate ls @ [p]\<rparr>
      | VBlock \<Rightarrow> ls\<lparr>l_trustBlocked := l_trustBlocked ls @ [p]\<rparr>)"
  by (simp add: push_granted_def granted_verdict_def split: option.splits)

lemma auth_step_verdict:
  "auth_step t (override_map os) rd ls e =
     (case spec_verdict t os rd e of
        VAllow \<Rightarrow> ls\<lparr>l_allowed := l_allowed ls @ [fst e]\<rparr>
      | VDeny \<Rightarrow> ls\<lparr>l_denied := l_denied ls @ [fst e]\<rparr>
      | VEscalate \<Rightarrow> ls\<lparr>l_escalate := l_escalate ls @ [fst e]\<rparr>
      | VBlock \<Rightarrow> ls\<lparr>l_trustBlocked := l_trustBlocked ls @ [fst e]\<rparr>)"
  by (auto simp: auth_step_def spec_verdict_def names_perm_def override_map_lookup push_granted_verdict
      Let_def split: option.splits bool.splits)

lemma perms_with_Nil [simp]: "perms_with f v [] = []"
  by (simp add: perms_with_def)

lemma perms_with_Cons [simp]:
  "perms_with f v (e # es) = (if f e = v then fst e # perms_with f v es else perms_with f v es)"
  by (simp add: perms_with_def)

lemma auth_fold_lists:
  defines "F \<equiv> \<lambda>t os rd. spec_verdict t os rd"
  shows "foldl (auth_step t (override_map os) rd) ls ps =
    \<lparr>l_allowed = l_allowed ls @ perms_with (F t os rd) VAllow ps,
     l_denied = l_denied ls @ perms_with (F t os rd) VDeny ps,
     l_escalate = l_escalate ls @ perms_with (F t os rd) VEscalate ps,
     l_trustBlocked = l_trustBlocked ls @ perms_with (F t os rd) VBlock ps\<rparr>"
  unfolding F_def
  by (induction ps arbitrary: ls) (auto simp: auth_step_verdict split: verdict.splits)

lemma perms_with_mem:
  "distinct (map fst ps) \<Longrightarrow> (p, s) \<in> set ps \<Longrightarrow> p \<in> set (perms_with f v ps) \<longleftrightarrow> f (p, s) = v"
  by (induction ps) (auto simp: perms_with_def image_iff)

lemma evaluate_below_known:
  "evaluate cfg (\<lparr>ai_role = role, ai_tier = Some tier, ai_channel = ch, ai_overrides = os\<rparr>) =
     (if tier < TKnown then
        Inr \<lparr>ar_allowed = [], ar_denied = [''*''], ar_escalate = [],
             ar_channelTrust = channel_trust cfg ch, ar_trustBlocked = []\<rparr>
      else (case role_defaults cfg role tier of
              Inl e \<Rightarrow> Inl e
            | Inr rd \<Rightarrow>
                (let t = max (TRUST_RANK (channel_trust cfg ch)) (TIER_TO_TRUST_RANK tier);
                     pick = \<lambda>v. perms_with (spec_verdict t os rd) v (ac_permissions cfg)
                 in Inr \<lparr>ar_allowed = unshift_sentinel (''*'' \<in> set (defaultPermissions rd)) (pick VAllow),
                         ar_denied = unshift_sentinel (''*'' \<in> set (defaultDeny rd)) (pick VDeny),
                         ar_escalate = pick VEscalate, ar_channelTrust = channel_trust cfg ch,
                         ar_trustBlocked = pick VBlock\<rparr>)))"
proof (cases "tier < TKnown")
  case True
  then have "\<not> TKnown \<le> tier" by simp
  with True show ?thesis by (simp add: evaluate_def meetsMinimumTier_recognized Let_def)
next
  case False
  then have t: "TKnown \<le> tier" by simp
  show ?thesis
    by (cases "role_defaults cfg role tier")
       (use t False in \<open>simp_all add: evaluate_def meetsMinimumTier_recognized auth_fold_lists Let_def\<close>)
qed

lemmas evaluate_cases = evaluate_below_known

lemma sentinel_mem: "p \<noteq> ''*'' \<Longrightarrow> p \<in> set (unshift_sentinel b xs) \<longleftrightarrow> p \<in> set xs"
  by (simp add: unshift_sentinel_def)

text \<open>What the properties speak of: the effective trust, and whether a permission is granted at all.\<close>

definition effective_trust :: "auth_config \<Rightarrow> string \<Rightarrow> contact_tier \<Rightarrow> nat" where
  "effective_trust cfg ch tier = max (TRUST_RANK (channel_trust cfg ch)) (TIER_TO_TRUST_RANK tier)"

definition granted_by :: "(string \<times> bool) list \<Rightarrow> role_permissions \<Rightarrow> string \<Rightarrow> bool" where
  "granted_by os rd p \<longleftrightarrow> last_override os p = Some True
     \<or> last_override os p = None \<and> names_perm (defaultPermissions rd) p"

section \<open>Properties\<close>

text \<open>
  C36. For a contact of tier known or above every permission of the configuration lands in exactly
  one of the four lists, and which one is decided in this order: the last override that denies; the
  last override that grants, or a grant of the role (by name or by \<open>*\<close>), where a sensitivity within
  the effective trust allows, one above it trust-blocks and an unknown one escalates; a denial of the
  role (by name or by \<open>*\<close>); otherwise escalate. The effective trust is the greater of the channel's
  and the tier's.
\<close>

theorem authorization_exact:
  assumes known: "TKnown \<le> tier"
    and rd: "role_defaults cfg role tier = Inr rd"
    and perms: "distinct (map fst (ac_permissions cfg))" "(p, s) \<in> set (ac_permissions cfg)" "p \<noteq> ''*''"
  shows "\<exists>r. evaluate cfg \<lparr>ai_role = role, ai_tier = Some tier, ai_channel = ch, ai_overrides = os\<rparr> = Inr r
    \<and> (p \<in> set (ar_allowed r) \<longleftrightarrow> granted_by os rd p \<and> (\<exists>k. sensitivity_rank s = Some k \<and> k \<le> effective_trust cfg ch tier))
    \<and> (p \<in> set (ar_trustBlocked r) \<longleftrightarrow> granted_by os rd p \<and> (\<exists>k. sensitivity_rank s = Some k \<and> effective_trust cfg ch tier < k))
    \<and> (p \<in> set (ar_denied r) \<longleftrightarrow> \<not> granted_by os rd p \<and>
         (last_override os p = Some False \<or> names_perm (defaultDeny rd) p))
    \<and> (p \<in> set (ar_escalate r) \<longleftrightarrow> (if granted_by os rd p then sensitivity_rank s = None
         else last_override os p = None \<and> \<not> names_perm (defaultDeny rd) p))"
proof -
  define granted where "granted = granted_by os rd p"
  define trust where "trust = effective_trust cfg ch tier"
  note granted_def = granted_def [unfolded granted_by_def]
  have v: "granted \<Longrightarrow> spec_verdict trust os rd (p, s) = granted_verdict trust s"
    "\<not> granted \<Longrightarrow> spec_verdict trust os rd (p, s) =
       (if last_override os p = Some False \<or> names_perm (defaultDeny rd) p then VDeny else VEscalate)"
    by (cases "last_override os p"; auto simp: spec_verdict_def granted_def)+
  have o: "\<not> granted \<Longrightarrow> last_override os p \<noteq> Some True" "granted \<Longrightarrow> last_override os p \<noteq> Some False"
    by (auto simp: granted_def)
  have m: "\<And>w. p \<in> set (perms_with (spec_verdict trust os rd) w (ac_permissions cfg))
      \<longleftrightarrow> spec_verdict trust os rd (p, s) = w"
    using perms(1,2) by (rule perms_with_mem)
  have granted_alt: "granted_by os rd p = granted" by (simp add: granted_def granted_by_def)
  show ?thesis
    using known rd perms(3) v o unfolding evaluate_cases effective_trust_def [symmetric] trust_def [symmetric] granted_alt Let_def
    by (cases granted; cases "last_override os p")
       (auto simp: not_less sentinel_mem m granted_verdict_def not_le split: option.splits if_splits)
qed

text \<open>A configuration to run the theorems on: two roles and three permissions.\<close>

definition demo_auth :: auth_config where
  "demo_auth = \<lparr>ac_roles = [(''assistant'', \<lparr>defaultPermissions = [''schedule'', ''payments''], defaultDeny = [''gossip'']\<rparr>),
                           (''unknown'', \<lparr>defaultPermissions = [], defaultDeny = [''*'']\<rparr>)],
     ac_tierDefaults = (\<lambda>_. None),
     ac_permissions = [(''schedule'', ''low''), (''payments'', ''high''), (''gossip'', ''low'')],
     ac_channelTrust = [(''email'', Low), (''cli'', High)]\<rparr>"

theorem authorization_exact_witness:
  "\<exists>r. evaluate demo_auth \<lparr>ai_role = Some ''Assistant'', ai_tier = Some TKnown, ai_channel = ''email'',
          ai_overrides = [(''gossip'', False), (''gossip'', True)]\<rparr> = Inr r
     \<and> ''payments'' \<in> set (ar_trustBlocked r) \<and> ''payments'' \<notin> set (ar_allowed r)"
proof -
  have r: "role_defaults demo_auth (Some ''Assistant'') TKnown
      = Inr \<lparr>defaultPermissions = [''schedule'', ''payments''], defaultDeny = [''gossip'']\<rparr>" by code_simp
  have p: "distinct (map fst (ac_permissions demo_auth))" "(''payments'', ''high'') \<in> set (ac_permissions demo_auth)"
    by (simp_all add: demo_auth_def)
  have t: "effective_trust demo_auth ''email'' TKnown = 1" by code_simp
  have s: "sensitivity_rank ''high'' = Some 2" by code_simp
  have g: "granted_by [(''gossip'', False), (''gossip'', True)]
      \<lparr>defaultPermissions = [''schedule'', ''payments''], defaultDeny = [''gossip'']\<rparr> ''payments''" by code_simp
  show ?thesis
    using authorization_exact [OF order_refl r p, of "''email''" "[(''gossip'', False), (''gossip'', True)]"] g s t
    by auto
qed

text \<open>Whether a contact gets a permission, by tier, when its role has an entry of its own.\<close>

definition role_grants ::
    "auth_config \<Rightarrow> string \<Rightarrow> string \<Rightarrow> (string \<times> bool) list \<Rightarrow> string \<Rightarrow> contact_tier \<Rightarrow> bool" where
  "role_grants cfg role ch os p tier \<longleftrightarrow> js_lower role \<in> set (map fst (ac_roles cfg)) \<and> role \<noteq> [] \<and>
     (case evaluate cfg \<lparr>ai_role = Some role, ai_tier = Some tier, ai_channel = ch, ai_overrides = os\<rparr> of
        Inl _ \<Rightarrow> False
      | Inr r \<Rightarrow> p \<in> set (ar_allowed r))"

lemma TIER_TO_TRUST_RANK_mono: "a \<le> b \<Longrightarrow> TIER_TO_TRUST_RANK a \<le> TIER_TO_TRUST_RANK b"
  by (cases a; cases b) (simp_all add: less_eq_contact_tier_def)

lemma granted_verdict_mono: "t \<le> u \<Longrightarrow> granted_verdict t s = VAllow \<Longrightarrow> granted_verdict u s = VAllow"
  by (auto simp: granted_verdict_def split: option.splits if_splits)

lemma spec_verdict_mono:
  assumes "t \<le> u" "spec_verdict t os rd e = VAllow"
  shows "spec_verdict u os rd e = VAllow"
  using assms granted_verdict_mono [OF assms(1)] by (auto simp: spec_verdict_def split: if_splits)

lemma role_defaults_own:
  assumes "js_lower role \<in> set (map fst (ac_roles cfg))" "role \<noteq> []"
  obtains rd where "\<And>tier. role_defaults cfg (Some role) tier = Inr rd"
proof -
  obtain rd where "map_of (ac_roles cfg) (js_lower role) = Some rd"
    using assms(1) by (metis domD dom_map_of_conv_image_fst list.set_map)
  moreover have "js_lower role \<noteq> []" using assms(2) by (simp add: js_lower_def)
  ultimately have "role_defaults cfg (Some role) tier = Inr rd" for tier
    by (simp add: role_defaults_def Let_def)
  then show thesis by (rule that)
qed

lemma role_grants_mono:
  assumes "a \<le> b" "role_grants cfg role ch os p a"
  shows "role_grants cfg role ch os p b"
proof -
  have own: "js_lower role \<in> set (map fst (ac_roles cfg))" "role \<noteq> []"
    using assms(2) by (simp_all add: role_grants_def)
  then obtain rd where rd: "\<And>tier. role_defaults cfg (Some role) tier = Inr rd"
    using role_defaults_own by blast
  let ?sv = "\<lambda>tier. spec_verdict (max (TRUST_RANK (channel_trust cfg ch)) (TIER_TO_TRUST_RANK tier)) os rd"
  have ka: "\<not> a < TKnown" using assms(2) by (auto simp: role_grants_def evaluate_cases)
  with assms(1) have kb: "\<not> b < TKnown" by (auto simp: not_less)
  have "?sv a e = VAllow \<Longrightarrow> ?sv b e = VAllow" for e
    by (rule spec_verdict_mono [rotated]) (use TIER_TO_TRUST_RANK_mono [OF assms(1)] in auto)
  then have "set (perms_with (?sv a) VAllow ps) \<subseteq> set (perms_with (?sv b) VAllow ps)" for ps
    by (auto simp: perms_with_def)
  with assms(2) ka kb rd show ?thesis
    by (auto simp: role_grants_def evaluate_cases Let_def unshift_sentinel_def split: if_splits)
qed

interpretation authz: tier_monotone "role_grants cfg role ch os p" for cfg role ch os p
  by unfold_locales (rule role_grants_mono)

text \<open>
  For a contact whose role has an entry, each permission is granted from one tier upward and
  refused below it, and that tier is never below known: no override, role or channel gives a
  permission to an unknown or blocked contact, and raising a tier never takes one away.
\<close>

theorem permission_cutoff:
  "(\<forall>t. \<not> role_grants cfg role ch os p t)
   \<or> (\<exists>m. TKnown \<le> m \<and> (\<forall>t. role_grants cfg role ch os p t = (m \<le> t)))"
proof (cases "\<forall>t. \<not> role_grants cfg role ch os p t")
  case False
  then obtain m where m: "\<And>t. role_grants cfg role ch os p t = (m \<le> t)"
    using authz.cutoff [of cfg role ch os p] by blast
  then have "role_grants cfg role ch os p m" by simp
  then have "TKnown \<le> m" by (auto simp: role_grants_def evaluate_cases not_less split: if_splits)
  with m show ?thesis by blast
qed blast

theorem permission_cutoff_witness:
  "role_grants demo_auth ''assistant'' ''email'' [] ''payments'' TTrusted
   \<and> \<not> role_grants demo_auth ''assistant'' ''email'' [] ''payments'' TKnown
   \<and> \<not> (\<forall>t. \<not> role_grants demo_auth ''assistant'' ''email'' [] ''payments'' t)"
proof -
  have "role_grants demo_auth ''assistant'' ''email'' [] ''payments'' TTrusted" by code_simp
  moreover have "\<not> role_grants demo_auth ''assistant'' ''email'' [] ''payments'' TKnown" by code_simp
  ultimately show ?thesis using permission_cutoff [of demo_auth "''assistant''" "''email''" "[]" "''payments''"] by blast
qed

text \<open>
  A free-text role that lower-cases to a member every object inherits, such as the profession
  Constructor, is found on the role table although the configuration has no such role: the
  evaluation throws instead of falling back to the defaults of the tier, for every contact of tier
  known or above and whatever its overrides.
\<close>

theorem inherited_role_throws:
  assumes "map_of (ac_roles cfg) ''constructor'' = None" "TKnown \<le> tier"
  shows "evaluate cfg \<lparr>ai_role = Some ''Constructor'', ai_tier = Some tier, ai_channel = ch, ai_overrides = os\<rparr>
           = Inl RoleTypeError"
proof -
  have "js_lower ''Constructor'' = ''constructor''" by code_simp
  then have "role_defaults cfg (Some ''Constructor'') tier = Inl RoleTypeError"
    using assms(1) by (simp add: role_defaults_def js_index_def object_proto_names_def)
  with assms(2) show ?thesis by (simp add: evaluate_cases not_less)
qed

theorem inherited_role_throws_witness:
  "evaluate demo_auth \<lparr>ai_role = Some ''Constructor'', ai_tier = Some TTrusted, ai_channel = ''email'', ai_overrides = []\<rparr>
     = Inl RoleTypeError"
proof (rule inherited_role_throws)
  show "map_of (ac_roles demo_auth) ''constructor'' = None" by (simp add: demo_auth_def)
  show "TKnown \<le> TTrusted" by (simp add: less_eq_contact_tier_def)
qed

section \<open>The audit summary\<close>

text \<open>The summary denies everyone below known, and never says allow while something was escalated.\<close>

lemma summary_below_known:
  assumes "tier < TKnown"
  shows "\<exists>r. evaluate cfg \<lparr>ai_role = role, ai_tier = Some tier, ai_channel = ch, ai_overrides = os\<rparr> = Inr r
    \<and> summarizeAuthorizationDecision r = DenyD"
  using assms by (simp add: evaluate_cases summarizeAuthorizationDecision_def)

lemma summary_allow:
  "summarizeAuthorizationDecision r = AllowD \<Longrightarrow> ar_escalate r = [] \<and> ''*'' \<notin> set (ar_denied r)"
  by (simp add: summarizeAuthorizationDecision_def split: if_splits)

end
