(* ===== verification/IsoTime.thy ===== *)
theory IsoTime
  imports Prelude
begin

text \<open>
  \<open>Date.prototype.toISOString\<close> and \<open>Date.parse\<close>, as the language defines them on the calendar of the
  years 0 to 9999: a time is a number of milliseconds, a day number is split into a year (the last
  one that starts at or before it), a month and a day of the month. \<open>Date.parse\<close> reads the one
  format \<open>toISOString\<close> writes; what it makes of any other text the language leaves to the
  implementation, and here it is the parameter \<open>legacy\<close>.
\<close>

section \<open>The calendar\<close>

definition leap_year :: "int \<Rightarrow> bool" where
  "leap_year y \<longleftrightarrow> y mod 4 = 0 \<and> (y mod 100 \<noteq> 0 \<or> y mod 400 = 0)"

definition day_from_year :: "int \<Rightarrow> int" where
  "day_from_year y = 365 * (y - 1970) + (y - 1969) div 4 - (y - 1901) div 100 + (y - 1601) div 400"

lemma succ_div:
  fixes x c :: int
  assumes "0 < c"
  shows "(x + 1) div c = x div c + (if (x + 1) mod c = 0 then 1 else 0)"
proof (cases "(x + 1) mod c = 0")
  case True
  then obtain k where k: "x + 1 = c * k" by auto
  then have "x = c * (k - 1) + (c - 1)" by (simp add: algebra_simps)
  then have "x div c = k - 1" using assms by simp
  with k assms True show ?thesis by simp
next
  case False
  have "0 < (x + 1) mod c" using False assms by (simp add: order_neq_le_trans)
  moreover have "(x + 1) mod c < c" using assms by simp
  moreover have "x = c * ((x + 1) div c) + ((x + 1) mod c - 1)" by (simp add: algebra_simps)
  ultimately have "x div c = (x + 1) div c"
    by (smt (verit, ccfv_threshold) assms div_pos_pos_trivial div_mult_self4 mult.commute)
  with False show ?thesis by simp
qed

lemma day_from_year_Suc: "day_from_year (y + 1) = day_from_year y + (if leap_year y then 366 else 365)"
proof -
  define p q w :: int where "p = (if y mod 4 = 0 then 1 else 0)" and "q = (if y mod 100 = 0 then 1 else 0)"
    and "w = (if y mod 400 = 0 then 1 else 0)"
  have m: "(y - 1968) mod 4 = y mod 4" "(y - 1900) mod 100 = y mod 100" "(y - 1600) mod 400 = y mod 400"
    using mod_mult_self2 [of y 4 "-492"] mod_mult_self2 [of y 100 "-19"] mod_mult_self2 [of y 400 "-4"]
    by (simp_all only: mult_minus_right numeral_times_numeral Num.mult_num_simps Num.add_num_simps
        add_uminus_conv_diff num_simps)
  have s: "y - 1969 + 1 = y - 1968" "y - 1901 + 1 = y - 1900" "y - 1601 + 1 = y - 1600" by linarith+
  note e = succ_div [of 4 "y - 1969", unfolded s m, folded p_def, simplified rel_simps simp_thms]
    succ_div [of 100 "y - 1901", unfolded s m, folded q_def, simplified rel_simps simp_thms]
    succ_div [of 400 "y - 1601", unfolded s m, folded w_def, simplified rel_simps simp_thms]
  have "day_from_year (y + 1) = 365 * (y + 1 - 1970) + (y - 1968) div 4 - (y - 1900) div 100 + (y - 1600) div 400"
  proof -
    have "y + 1 - 1969 = y - 1968" "y + 1 - 1901 = y - 1900" "y + 1 - 1601 = y - 1600" by linarith+
    note y = this
    show ?thesis unfolding day_from_year_def y by (rule refl)
  qed
  moreover define a b c where "a = (y - 1969) div 4" and "b = (y - 1901) div 100" and "c = (y - 1601) div 400"
  moreover have "day_from_year y = 365 * (y - 1970) + a - b + c"
    unfolding day_from_year_def a_def b_def c_def by (rule refl)
  ultimately have "day_from_year (y + 1) = 365 * (y + 1 - 1970) + (a + p) - (b + q) + (c + w)"
    "day_from_year y = 365 * (y - 1970) + a - b + c"
    by (simp_all only: e)
  then have "day_from_year (y + 1) = day_from_year y + 365 + p - q + w" by (simp add: algebra_simps)
  moreover have "y mod 400 = 0 \<Longrightarrow> y mod 100 = 0" "y mod 100 = 0 \<Longrightarrow> y mod 4 = 0"
    by (auto simp: mod_eq_0_iff_dvd intro: dvd_trans [of 100 400] dvd_trans [of 4 100])
  ultimately show ?thesis
    by (cases "y mod 400 = 0"; cases "y mod 100 = 0"; cases "y mod 4 = 0")
       (simp_all add: leap_year_def p_def q_def w_def)
qed

lemma day_from_year_step: "day_from_year y + 365 \<le> day_from_year (y + 1)"
  by (simp add: day_from_year_Suc)

text \<open>From a year that is not too late, climb while the next year has begun.\<close>

function climb_year :: "int \<Rightarrow> int \<Rightarrow> int" where
  "climb_year d y = (if day_from_year (y + 1) \<le> d then climb_year d (y + 1) else y)"
  by pat_completeness auto
termination
  by (relation "measure (\<lambda>(d, y). nat (d - day_from_year y))")
     (auto simp: day_from_year_Suc split: if_splits)

declare climb_year.simps [simp del]

definition year_from_day :: "int \<Rightarrow> int" where
  "year_from_day d = climb_year d (if d < 0 then 0 else 1970)"

lemma climb_year_in:
  "day_from_year y \<le> d \<Longrightarrow>
     day_from_year (climb_year d y) \<le> d \<and> d < day_from_year (climb_year d y + 1)"
proof (induction d y rule: climb_year.induct)
  case (1 d y)
  show ?case
  proof (cases "day_from_year (y + 1) \<le> d")
    case True
    with 1 show ?thesis by (simp add: climb_year.simps [of d y])
  next
    case False
    with "1.prems" show ?thesis by (simp add: climb_year.simps [of d y])
  qed
qed

lemma year_from_day_in:
  "day_from_year 0 \<le> d \<Longrightarrow>
     day_from_year (year_from_day d) \<le> d \<and> d < day_from_year (year_from_day d + 1)"
  unfolding year_from_day_def by (rule climb_year_in) (simp add: day_from_year_def)

definition month_starts :: "bool \<Rightarrow> int list" where
  "month_starts leap = (if leap
     then [0, 31, 60, 91, 121, 152, 182, 213, 244, 274, 305, 335]
     else [0, 31, 59, 90, 120, 151, 181, 212, 243, 273, 304, 334])"

text \<open>The last month that starts at or before the day of the year; 0 is January.\<close>

definition month_of :: "bool \<Rightarrow> int \<Rightarrow> nat" where
  "month_of leap k = length (takeWhile (\<lambda>m. m \<le> k) (month_starts leap)) - 1"

lemma month_of_in:
  assumes "0 \<le> k" "k < (if leap then 366 else 365)"
  shows "month_of leap k < 12 \<and> month_starts leap ! month_of leap k \<le> k
    \<and> k < month_starts leap ! month_of leap k + 31"
  using assms unfolding month_of_def month_starts_def by (cases leap) auto

section \<open>Printing and parsing\<close>

definition digit_char :: "int \<Rightarrow> char" where
  "digit_char n = char_of (48 + nat n)"

text \<open>The last \<open>w\<close> decimal digits, and the value of a list of digits.\<close>

fun digits :: "nat \<Rightarrow> int \<Rightarrow> string" where
  "digits 0 n = []"
| "digits (Suc w) n = digits w (n div 10) @ [digit_char (n mod 10)]"

definition is_digit :: "char \<Rightarrow> bool" where
  "is_digit c \<longleftrightarrow> 48 \<le> (of_char c :: nat) \<and> (of_char c :: nat) \<le> 57"

definition digits_value :: "string \<Rightarrow> int" where
  "digits_value s = foldl (\<lambda>v c. 10 * v + int (of_char c) - 48) 0 s"

lemma digits_length [simp]: "length (digits w n) = w"
  by (induction w arbitrary: n) auto

lemma digit_char_digit: "0 \<le> n \<Longrightarrow> n < 10 \<Longrightarrow> is_digit (digit_char n) \<and> int (of_char (digit_char n)) = 48 + n"
  by (simp add: is_digit_def digit_char_def)

lemma digits_digit: "0 \<le> n \<Longrightarrow> list_all is_digit (digits w n)"
  by (induction w arbitrary: n) (auto simp: digit_char_digit)

lemma digits_value_digits: "0 \<le> n \<Longrightarrow> digits_value (digits w n) = n mod 10 ^ w"
proof (induction w arbitrary: n)
  case (Suc w)
  have "digits_value (digits (Suc w) n) = 10 * (n div 10 mod 10 ^ w) + n mod 10"
    using Suc by (simp add: digits_value_def digit_char_digit)
  also have "\<dots> = n mod 10 ^ Suc w"
    using zmod_zmult2_eq [of "10 ^ w" n 10] by (simp add: mult.commute)
  finally show ?case .
qed (simp add: digits_value_def)

definition MS_PER_DAY :: int where "MS_PER_DAY = 86400000"

text \<open>\<open>YYYY-MM-DDTHH:mm:ss.sssZ\<close>, for the years that have four digits.\<close>

definition toISOString :: "ms \<Rightarrow> string" where
  "toISOString t =
     (let d = t div MS_PER_DAY; r = t mod MS_PER_DAY;
          y = year_from_day d; k = d - day_from_year y;
          m = month_of (leap_year y) k
      in digits 4 y @ ''-'' @ digits 2 (int m + 1) @ ''-'' @ digits 2 (k - month_starts (leap_year y) ! m + 1)
         @ ''T'' @ digits 2 (r div 3600000) @ '':'' @ digits 2 (r div 60000 mod 60) @ '':''
         @ digits 2 (r div 1000 mod 60) @ ''.'' @ digits 3 (r mod 1000) @ ''Z'')"

text \<open>The seven groups of digits of a text in that format.\<close>

fun groups :: "(nat \<times> char) list \<Rightarrow> string \<Rightarrow> int list option" where
  "groups [] s = (if s = [] then Some [] else None)"
| "groups ((w, c) # gs) s =
     (if w < length s \<and> list_all is_digit (take w s) \<and> s ! w = c
      then map_option (\<lambda>vs. digits_value (take w s) # vs) (groups gs (drop (Suc w) s))
      else None)"

definition iso_layout :: "(nat \<times> char) list" where
  "iso_layout = [(4, CHR ''-''), (2, CHR ''-''), (2, CHR ''T''), (2, CHR '':''), (2, CHR '':''), (2, CHR ''.''), (3, CHR ''Z'')]"

definition date_parse :: "(string \<Rightarrow> jsnum) \<Rightarrow> string \<Rightarrow> jsnum" where
  "date_parse legacy s =
     (case groups iso_layout s of
        Some [y, mo, d, h, mi, sec, milli] \<Rightarrow>
          (if 1 \<le> mo \<and> mo \<le> 12 \<and> 1 \<le> d \<and> d \<le> 31 \<and> h < 24 \<and> mi < 60 \<and> sec < 60
           then num_int ((day_from_year y + month_starts (leap_year y) ! nat (mo - 1) + d - 1) * MS_PER_DAY
                         + h * 3600000 + mi * 60000 + sec * 1000 + milli)
           else legacy s)
      | _ \<Rightarrow> legacy s)"

section \<open>The round trip\<close>

lemma groups_step:
  "0 \<le> n \<Longrightarrow> n < 10 ^ w \<Longrightarrow> groups ((w, c) # gs) (digits w n @ c # s) = map_option (\<lambda>vs. n # vs) (groups gs s)"
  by (simp add: digits_digit digits_value_digits nth_append)

definition four_digit_time :: "ms \<Rightarrow> bool" where
  "four_digit_time t \<longleftrightarrow> day_from_year 0 \<le> t div MS_PER_DAY \<and> t div MS_PER_DAY < day_from_year 10000"

lemma day_from_year_mono: "y \<le> z \<Longrightarrow> day_from_year y \<le> day_from_year z"
proof (induction z rule: int_ge_induct)
  case (step z)
  then show ?case using day_from_year_step [of z] by linarith
qed simp

lemma year_from_day_range:
  assumes "day_from_year 0 \<le> d" "d < day_from_year 10000"
  shows "0 \<le> year_from_day d \<and> year_from_day d < 10000"
proof -
  have a: "\<not> year_from_day d + 1 \<le> 0"
    using day_from_year_mono [of "year_from_day d + 1" 0] year_from_day_in [of d] assms by auto
  have b: "\<not> 10000 \<le> year_from_day d"
    using day_from_year_mono [of 10000 "year_from_day d"] year_from_day_in [of d] assms by auto
  from a b show ?thesis by simp
qed

lemma date_parse_toISOString:
  assumes "four_digit_time t"
  shows "date_parse legacy (toISOString t) = num_int t"
proof -
  define d r where "d = t div MS_PER_DAY" and "r = t mod MS_PER_DAY"
  define y where "y = year_from_day d"
  define k where "k = d - day_from_year y"
  define m where "m = month_of (leap_year y) k"
  define dd where "dd = k - month_starts (leap_year y) ! m"
  have y: "0 \<le> y" "y < 10000"
    using assms year_from_day_range unfolding four_digit_time_def d_def y_def by auto
  have k: "0 \<le> k" "k < (if leap_year y then 366 else 365)"
    using year_from_day_in [of d] day_from_year_Suc [of y] assms by (auto simp: four_digit_time_def d_def [symmetric] k_def y_def split: if_splits)
  have m: "m < 12" "0 \<le> dd" "dd < 31"
    using month_of_in [OF k] by (auto simp: m_def dd_def)
  have r: "0 \<le> r" "r < 86400000" by (simp_all add: r_def MS_PER_DAY_def)
  have "r div 3600000 < 24" "r div 60000 mod 60 < 60" "r div 1000 mod 60 < 60" "r mod 1000 < 1000"
    using r by simp_all
  note r_lt = this
  have iso: "toISOString t = digits 4 y @ CHR ''-'' # digits 2 (int m + 1) @ CHR ''-'' # digits 2 (dd + 1)
      @ CHR ''T'' # digits 2 (r div 3600000) @ CHR '':'' # digits 2 (r div 60000 mod 60) @ CHR '':''
      # digits 2 (r div 1000 mod 60) @ CHR ''.'' # digits 3 (r mod 1000) @ [CHR ''Z'']"
    by (simp add: toISOString_def Let_def d_def r_def y_def k_def m_def dd_def)
  have g: "groups iso_layout (toISOString t) =
      Some [y, int m + 1, dd + 1, r div 3600000, r div 60000 mod 60, r div 1000 mod 60, r mod 1000]"
    unfolding iso iso_layout_def
    using y m r r_lt by (simp add: groups_step pos_imp_zdiv_nonneg_iff del: groups.simps(2))
  have split: "r = r div 3600000 * 3600000 + r div 60000 mod 60 * 60000 + r div 1000 mod 60 * 1000 + r mod 1000"
  proof -
    define sec min where "sec = r div 1000" and "min = sec div 60"
    define h a b c where "h = min div 60" and "a = r mod 1000" and "b = sec mod 60" and "c = min mod 60"
    have d: "r div 60000 = min" "r div 3600000 = h"
      using zdiv_zmult2_eq [of 60 r 1000] zdiv_zmult2_eq [of 3600 r 1000] zdiv_zmult2_eq [of 60 sec 60]
      by (simp_all add: min_def sec_def h_def)
    have "r = 1000 * sec + a" "sec = 60 * min + b" "min = 60 * h + c"
      unfolding sec_def min_def h_def a_def b_def c_def by (rule mult_div_mod_eq [symmetric])+
    then have "r = h * 3600000 + c * 60000 + b * 1000 + a" by linarith
    then show ?thesis unfolding d a_def b_def c_def sec_def .
  qed
  have "day_from_year y + month_starts (leap_year y) ! m + dd = d" by (simp add: dd_def k_def)
  moreover have "d * MS_PER_DAY + r = t" by (simp add: d_def r_def)
  moreover have "day_from_year y + month_starts (leap_year y) ! m + (dd + 1) - 1
      = day_from_year y + month_starts (leap_year y) ! m + dd" by simp
  ultimately have t: "(day_from_year y + month_starts (leap_year y) ! m + (dd + 1) - 1) * MS_PER_DAY
      + r div 3600000 * 3600000 + r div 60000 mod 60 * 60000 + r div 1000 mod 60 * 1000 + r mod 1000 = t"
    using split by (simp only: add.assoc)
  have "1 \<le> int m + 1" "int m + 1 \<le> 12" "1 \<le> dd + 1" "dd + 1 \<le> 31" "nat (int m + 1 - 1) = m"
    using m by auto
  with g r_lt show ?thesis
    unfolding date_parse_def by (simp only: option.case list.case simp_thms if_True t)
qed

end
