(* ===== verification/TaskBlocks.thy ===== *)
theory TaskBlocks
  imports Json Uuid IsoTime
begin

text \<open>
  The two typed blocks of \<open>tasks.progress\<close>: \<open>src/src/db/resumable-progress.ts\<close> (the checkpoint of an
  iterating task) and \<open>src/src/db/plan-progress.ts\<close> (the plan of a task with child steps). What comes
  from the database or from a model is a \<open>jsval\<close>; a parsed block is a record. \<open>JSON.stringify\<close>
  cannot fail on such a value (no cycles, no functions), so the code's \<open>isJsonSerializable\<close> is true.
  The clock is the text \<open>now\<close>; how a number prints is \<open>ns\<close>.
\<close>

named_theorems block_defs \<open>the parsers and writers of the two blocks\<close>

section \<open>Sizes\<close>

definition RESUMABLE_INLINE_ACCUMULATOR_MAX_BYTES :: nat where
  "RESUMABLE_INLINE_ACCUMULATOR_MAX_BYTES = 4096"

definition RESUMABLE_BLOCK_MAX_BYTES :: nat where
  "RESUMABLE_BLOCK_MAX_BYTES = 8192"

definition PLAN_BLOCK_MAX_BYTES :: nat where
  "PLAN_BLOCK_MAX_BYTES = 8192"

text \<open>A code unit below 128 is one byte of UTF-8, one below 256 two.\<close>

definition utf8_bytes :: "string \<Rightarrow> nat" where
  "utf8_bytes s = sum_list (map (\<lambda>c. if (of_char c :: nat) < 128 then 1 else 2) s)"

definition serializedUtf8Bytes :: "(rat \<Rightarrow> string) \<Rightarrow> jsval \<Rightarrow> nat" where
  "serializedUtf8Bytes ns v = (case json_stringify ns v of Some s \<Rightarrow> utf8_bytes s | None \<Rightarrow> 0)"

section \<open>Scalars\<close>

text \<open>\<open>ResumableCursor\<close>: a text, an object or null.\<close>

datatype cursor = CNull | CStr string | CObj "(string \<times> jsval) list"

fun cursor_json :: "cursor \<Rightarrow> jsval" where
  "cursor_json CNull = JNull"
| "cursor_json (CStr s) = JStr s"
| "cursor_json (CObj fs) = JObj fs"

fun parseCursor :: "jsval \<Rightarrow> cursor option" where
  "parseCursor JNull = Some CNull"
| "parseCursor (JStr s) = Some (CStr s)"
| "parseCursor (JObj fs) = Some (CObj fs)"
| "parseCursor _ = None"

definition parseNonNegativeInt :: "jsval \<Rightarrow> int option" where
  "parseNonNegativeInt raw =
     (case raw of
        JNum n \<Rightarrow> if \<not> is_finite_num n \<or> num_lt n (Fin 0) \<or> \<not> is_integer_num n then None
                   else (case n of Fin q \<Rightarrow> Some \<lfloor>q\<rfloor> | _ \<Rightarrow> None)
      | _ \<Rightarrow> None)"

text \<open>A text that is not blank, trimmed: \<open>parseNext\<close> and \<open>parseStepId\<close>.\<close>

definition parseNext :: "jsval \<Rightarrow> string option" where
  "parseNext raw =
     (case raw of JStr s \<Rightarrow> if js_trim s \<noteq> [] then Some (js_trim s) else None | _ \<Rightarrow> None)"

definition nullish :: "jsval \<Rightarrow> bool" where
  "nullish v \<longleftrightarrow> v = JUndef \<or> v = JNull"

definition jint :: "int \<Rightarrow> jsval" where
  "jint i = JNum (num_int i)"

lemma nullish_simps [simp]: "\<not> nullish (jint i)" "nullish JUndef" "nullish JNull"
  by (simp_all add: nullish_def jint_def)

lemma parseCursor_json [simp]: "parseCursor (cursor_json c) = Some c"
  by (cases c) auto

lemma parseCursor_Some: "parseCursor raw = Some c \<longleftrightarrow> raw = cursor_json c"
  by (cases raw; cases c) auto

lemma parseNonNegativeInt_jint [simp]: "parseNonNegativeInt (jint i) = (if 0 \<le> i then Some i else None)"
  by (simp add: parseNonNegativeInt_def jint_def)

lemma parseNonNegativeInt_Some: "parseNonNegativeInt raw = Some i \<longleftrightarrow> raw = jint i \<and> 0 \<le> i"
proof
  assume a: "parseNonNegativeInt raw = Some i"
  then obtain q where q: "raw = JNum (Fin q)" "0 \<le> q" "of_int \<lfloor>q\<rfloor> = q" "i = \<lfloor>q\<rfloor>"
    by (auto simp: parseNonNegativeInt_def split: jsval.splits jsnum.splits if_splits)
  then have "raw = jint i" by (metis jint_def)
  with q show "raw = jint i \<and> 0 \<le> i" by simp
qed auto

lemma parseNext_Some: "parseNext raw = Some t \<Longrightarrow> t \<noteq> [] \<and> js_trim t = t"
  by (auto simp: parseNext_def split: jsval.splits if_splits)

lemma parseNext_JStr: "t \<noteq> [] \<Longrightarrow> js_trim t = t \<Longrightarrow> parseNext (JStr t) = Some t"
  by (simp add: parseNext_def)

section \<open>The resumable block\<close>

record resumable_block =
  r_cursor :: cursor
  r_done :: int
  r_total :: int
  r_accumulator :: jsval
  r_lastSliceUnits :: int
  r_next :: string
  r_checkpointedAt :: "string option"

datatype write_error =
    InlineAccumulatorOverflow nat
  | BlockOverflow nat
  | InvalidBlock

fun isDocumentPointer :: "jsval \<Rightarrow> bool" where
  "isDocumentPointer (JObj obj) =
     (jfield obj ''kind'' = JStr ''document''
      \<and> (case jfield obj ''path'' of JStr p \<Rightarrow> p \<noteq> [] | _ \<Rightarrow> False)
      \<and> (case jfield obj ''section'' of JUndef \<Rightarrow> True | JStr _ \<Rightarrow> True | _ \<Rightarrow> False))"
| "isDocumentPointer _ = False"

definition parseAccumulator :: "jsval \<Rightarrow> jsval option" where
  "parseAccumulator raw =
     (if plain_object raw \<and> jget raw ''kind'' = JStr ''document''
      then (if isDocumentPointer raw then Some raw else None)
      else if raw = JUndef then None else Some raw)"

definition opt_string :: "jsval \<Rightarrow> string option" where
  "opt_string v = (case v of JStr s \<Rightarrow> Some s | _ \<Rightarrow> None)"

definition stamp_of :: "(string \<times> jsval) list \<Rightarrow> string \<Rightarrow> string \<Rightarrow> string option" where
  "stamp_of obj camel snake =
     (case opt_string (jfield obj camel) of Some s \<Rightarrow> Some s | None \<Rightarrow> opt_string (jfield obj snake))"

fun parseResumableBlock :: "jsval \<Rightarrow> resumable_block option" where
  "parseResumableBlock (JObj raw) =
     (let units = (if nullish (jfield raw ''lastSliceUnits'') then jfield raw ''last_slice_units''
                   else jfield raw ''lastSliceUnits'')
      in case (parseCursor (jfield raw ''cursor''), parseNonNegativeInt (jfield raw ''done''),
               parseNonNegativeInt (jfield raw ''total''), parseNonNegativeInt units,
               parseNext (jfield raw ''next''), parseAccumulator (jfield raw ''accumulator'')) of
           (Some c, Some d, Some t, Some u, Some n, Some a) \<Rightarrow>
             Some \<lparr>r_cursor = c, r_done = d, r_total = t, r_accumulator = a, r_lastSliceUnits = u,
                   r_next = n, r_checkpointedAt = stamp_of raw ''checkpointedAt'' ''checkpointed_at''\<rparr>
         | _ \<Rightarrow> None)"
| "parseResumableBlock _ = None"

definition readResumableBlock :: "(string \<times> jsval) list \<Rightarrow> resumable_block option" where
  "readResumableBlock progress = parseResumableBlock (jfield progress ''resumable'')"

definition stamp_fields :: "string \<Rightarrow> string option \<Rightarrow> (string \<times> jsval) list" where
  "stamp_fields k s = (case s of None \<Rightarrow> [] | Some x \<Rightarrow> [(k, JStr x)])"

text \<open>The block as the object that is stored.\<close>

definition resumable_json :: "resumable_block \<Rightarrow> jsval" where
  "resumable_json b = JObj
     ([(''cursor'', cursor_json (r_cursor b)), (''done'', jint (r_done b)), (''total'', jint (r_total b)),
       (''accumulator'', r_accumulator b), (''lastSliceUnits'', jint (r_lastSliceUnits b)),
       (''next'', JStr (r_next b))] @ stamp_fields ''checkpointedAt'' (r_checkpointedAt b))"

definition validateAccumulatorForWrite :: "(rat \<Rightarrow> string) \<Rightarrow> jsval \<Rightarrow> write_error option" where
  "validateAccumulatorForWrite ns a =
     (if isDocumentPointer a then None
      else let bytes = serializedUtf8Bytes ns a
           in if RESUMABLE_INLINE_ACCUMULATOR_MAX_BYTES < bytes then Some (InlineAccumulatorOverflow bytes) else None)"

definition validateResumableForWrite :: "(rat \<Rightarrow> string) \<Rightarrow> resumable_block \<Rightarrow> write_error option" where
  "validateResumableForWrite ns b =
     (case validateAccumulatorForWrite ns (r_accumulator b) of
        Some e \<Rightarrow> Some e
      | None \<Rightarrow>
          (let bytes = serializedUtf8Bytes ns (resumable_json b)
           in if RESUMABLE_BLOCK_MAX_BYTES < bytes then Some (BlockOverflow bytes) else None))"

text \<open>The input of a checkpoint as the caller typed it; its numbers may be any number.\<close>

record resumable_input =
  ri_cursor :: cursor
  ri_done :: jsnum
  ri_total :: jsnum
  ri_accumulator :: jsval
  ri_lastSliceUnits :: jsnum
  ri_next :: string
  ri_checkpointedAt :: "string option"

definition resumable_input_json :: "resumable_input \<Rightarrow> jsval" where
  "resumable_input_json i = JObj
     [(''cursor'', cursor_json (ri_cursor i)), (''done'', JNum (ri_done i)), (''total'', JNum (ri_total i)),
      (''accumulator'', ri_accumulator i), (''lastSliceUnits'', JNum (ri_lastSliceUnits i)),
      (''next'', JStr (ri_next i)),
      (''checkpointedAt'', case ri_checkpointedAt i of None \<Rightarrow> JUndef | Some s \<Rightarrow> JStr s)]"

definition prepareResumableBlock ::
    "(rat \<Rightarrow> string) \<Rightarrow> string \<Rightarrow> resumable_input \<Rightarrow> write_error + resumable_block" where
  "prepareResumableBlock ns now i =
     (case parseResumableBlock (resumable_input_json i) of
        None \<Rightarrow> Inl InvalidBlock
      | Some parsed \<Rightarrow>
          (let b = parsed\<lparr>r_checkpointedAt :=
                     Some (case ri_checkpointedAt i of Some s \<Rightarrow> s | None \<Rightarrow> now)\<rparr>
           in case validateResumableForWrite ns b of Some e \<Rightarrow> Inl e | None \<Rightarrow> Inr b))"

definition mergeResumableIntoProgress ::
    "(string \<times> jsval) list \<Rightarrow> resumable_block \<Rightarrow> (string \<times> jsval) list" where
  "mergeResumableIntoProgress progress b = AList.update ''resumable'' (resumable_json b) progress"

definition writeResumableBlock ::
    "(rat \<Rightarrow> string) \<Rightarrow> string \<Rightarrow> (string \<times> jsval) list \<Rightarrow> resumable_input
       \<Rightarrow> write_error + resumable_block \<times> (string \<times> jsval) list" where
  "writeResumableBlock ns now progress i =
     (case prepareResumableBlock ns now i of
        Inl e \<Rightarrow> Inl e
      | Inr b \<Rightarrow>
          (let merged = mergeResumableIntoProgress progress b;
               bytes = serializedUtf8Bytes ns (jfield merged ''resumable'')
           in if RESUMABLE_BLOCK_MAX_BYTES < bytes then Inl (BlockOverflow bytes) else Inr (b, merged)))"

text \<open>What a parsed block satisfies.\<close>

definition resumable_ok :: "resumable_block \<Rightarrow> bool" where
  "resumable_ok b \<longleftrightarrow> 0 \<le> r_done b \<and> 0 \<le> r_total b \<and> 0 \<le> r_lastSliceUnits b
     \<and> r_next b \<noteq> [] \<and> js_trim (r_next b) = r_next b
     \<and> r_accumulator b \<noteq> JUndef
     \<and> (plain_object (r_accumulator b) \<and> jget (r_accumulator b) ''kind'' = JStr ''document''
        \<longrightarrow> isDocumentPointer (r_accumulator b))"

lemma parseAccumulator_Some:
  "parseAccumulator raw = Some a \<longleftrightarrow> raw = a \<and> a \<noteq> JUndef
     \<and> (plain_object a \<and> jget a ''kind'' = JStr ''document'' \<longrightarrow> isDocumentPointer a)"
  by (auto simp: parseAccumulator_def split: if_splits)

lemma parse_resumable_ok: "parseResumableBlock raw = Some b \<Longrightarrow> resumable_ok b"
  by (cases raw)
     (auto simp: resumable_ok_def Let_def parseNonNegativeInt_Some parseAccumulator_Some
        dest: parseNext_Some split: option.splits)

lemma parse_resumable_json: "resumable_ok b \<Longrightarrow> parseResumableBlock (resumable_json b) = Some b"
  by (cases "r_checkpointedAt b")
     (auto simp: resumable_json_def resumable_ok_def jfield_def Let_def
        parseNext_JStr parseAccumulator_def stamp_of_def stamp_fields_def opt_string_def)

section \<open>The plan block\<close>

record step_descriptor =
  st_id :: string
  st_taskId :: "string option"

record plan_block =
  p_steps :: "step_descriptor list"
  p_deliverableStepId :: "string option"
  p_done :: int
  p_total :: int
  p_next :: string
  p_plannedAt :: "string option"

text \<open>\<open>string | null | undefined\<close>: \<open>None\<close> is undefined, \<open>Some None\<close> null.\<close>

definition parseTaskId :: "jsval \<Rightarrow> string option option" where
  "parseTaskId raw =
     (case raw of
        JNull \<Rightarrow> Some None
      | JStr s \<Rightarrow> (let t = js_trim s in if t = [] then None else if uuid_shape t then Some (Some t) else None)
      | _ \<Rightarrow> None)"

definition two_spellings :: "(string \<times> jsval) list \<Rightarrow> string \<Rightarrow> string \<Rightarrow> jsval" where
  "two_spellings raw camel snake =
     (if jhas raw camel then jfield raw camel else if jhas raw snake then jfield raw snake else JUndef)"

definition readTaskIdField :: "(string \<times> jsval) list \<Rightarrow> jsval" where
  "readTaskIdField raw = two_spellings raw ''taskId'' ''task_id''"

fun parseStepDescriptor :: "jsval \<Rightarrow> step_descriptor option" where
  "parseStepDescriptor (JObj raw) =
     (case (parseNext (jfield raw ''id''), parseTaskId (readTaskIdField raw)) of
        (Some i, Some t) \<Rightarrow> Some \<lparr>st_id = i, st_taskId = t\<rparr>
      | _ \<Rightarrow> None)"
| "parseStepDescriptor _ = None"

text \<open>The loop of \<open>parseSteps\<close>, with the ids seen so far.\<close>

fun parse_step_items :: "string list \<Rightarrow> jsval list \<Rightarrow> step_descriptor list option" where
  "parse_step_items seen [] = Some []"
| "parse_step_items seen (item # items) =
     (case parseStepDescriptor item of
        None \<Rightarrow> None
      | Some step \<Rightarrow>
          if st_id step \<in> set seen then None
          else map_option (\<lambda>steps. step # steps) (parse_step_items (st_id step # seen) items))"

definition parseSteps :: "jsval \<Rightarrow> step_descriptor list option" where
  "parseSteps raw = (case raw of JArr items \<Rightarrow> if items = [] then None else parse_step_items [] items | _ \<Rightarrow> None)"

definition parseDeliverableStepId :: "jsval \<Rightarrow> string option option" where
  "parseDeliverableStepId raw = (if raw = JNull then Some None else map_option Some (parseNext raw))"

fun parsePlanBlock :: "jsval \<Rightarrow> plan_block option" where
  "parsePlanBlock (JObj raw) =
     (case (parseSteps (jfield raw ''steps''),
            parseDeliverableStepId (two_spellings raw ''deliverableStepId'' ''deliverable_step_id''),
            parseNonNegativeInt (jfield raw ''done''), parseNonNegativeInt (jfield raw ''total''),
            parseNext (jfield raw ''next'')) of
        (Some steps, Some deliverable, Some d, Some t, Some n) \<Rightarrow>
          if t < d \<or> t \<noteq> int (length steps) then None
          else if (case deliverable of None \<Rightarrow> False | Some x \<Rightarrow> x \<notin> st_id ` set steps) then None
          else Some \<lparr>p_steps = steps, p_deliverableStepId = deliverable, p_done = d, p_total = t, p_next = n,
                     p_plannedAt = stamp_of raw ''plannedAt'' ''planned_at''\<rparr>
      | _ \<Rightarrow> None)"
| "parsePlanBlock _ = None"

definition readPlanBlock :: "(string \<times> jsval) list \<Rightarrow> plan_block option" where
  "readPlanBlock progress = parsePlanBlock (jfield progress ''plan'')"

definition isPlannedStep :: "(string \<times> jsval) list \<Rightarrow> bool" where
  "isPlannedStep progress \<longleftrightarrow> readPlanBlock progress \<noteq> None"

definition null_or_string :: "string option \<Rightarrow> jsval" where
  "null_or_string s = (case s of None \<Rightarrow> JNull | Some x \<Rightarrow> JStr x)"

definition step_json :: "step_descriptor \<Rightarrow> jsval" where
  "step_json s = JObj [(''id'', JStr (st_id s)), (''taskId'', null_or_string (st_taskId s))]"

definition plan_json :: "plan_block \<Rightarrow> jsval" where
  "plan_json b = JObj
     ([(''steps'', JArr (map step_json (p_steps b))), (''deliverableStepId'', null_or_string (p_deliverableStepId b)),
       (''done'', jint (p_done b)), (''total'', jint (p_total b)), (''next'', JStr (p_next b))]
      @ stamp_fields ''plannedAt'' (p_plannedAt b))"

record plan_input =
  pi_steps :: "step_descriptor list"
  pi_deliverableStepId :: "string option"
  pi_done :: jsnum
  pi_total :: jsnum
  pi_next :: string

definition plan_input_json :: "plan_input \<Rightarrow> jsval" where
  "plan_input_json i = JObj
     [(''steps'', JArr (map step_json (pi_steps i))), (''deliverableStepId'', null_or_string (pi_deliverableStepId i)),
      (''done'', JNum (pi_done i)), (''total'', JNum (pi_total i)), (''next'', JStr (pi_next i))]"

definition validatePlanForWrite :: "(rat \<Rightarrow> string) \<Rightarrow> plan_block \<Rightarrow> write_error option" where
  "validatePlanForWrite ns b =
     (let bytes = serializedUtf8Bytes ns (plan_json b)
      in if PLAN_BLOCK_MAX_BYTES < bytes then Some (BlockOverflow bytes) else None)"

definition preparePlanBlock :: "(rat \<Rightarrow> string) \<Rightarrow> string \<Rightarrow> plan_input \<Rightarrow> write_error + plan_block" where
  "preparePlanBlock ns now i =
     (case parsePlanBlock (plan_input_json i) of
        None \<Rightarrow> Inl InvalidBlock
      | Some parsed \<Rightarrow>
          (let b = parsed\<lparr>p_plannedAt := Some now\<rparr>
           in case validatePlanForWrite ns b of Some e \<Rightarrow> Inl e | None \<Rightarrow> Inr b))"

definition mergePlanIntoProgress :: "(string \<times> jsval) list \<Rightarrow> plan_block \<Rightarrow> (string \<times> jsval) list" where
  "mergePlanIntoProgress progress b = AList.update ''plan'' (plan_json b) progress"

definition writePlanBlock ::
    "(rat \<Rightarrow> string) \<Rightarrow> string \<Rightarrow> (string \<times> jsval) list \<Rightarrow> plan_input
       \<Rightarrow> write_error + plan_block \<times> (string \<times> jsval) list" where
  "writePlanBlock ns now progress i =
     (case preparePlanBlock ns now i of
        Inl e \<Rightarrow> Inl e
      | Inr b \<Rightarrow>
          (let merged = mergePlanIntoProgress progress b;
               bytes = serializedUtf8Bytes ns (jfield merged ''plan'')
           in if PLAN_BLOCK_MAX_BYTES < bytes then Inl (BlockOverflow bytes) else Inr (b, merged)))"

section \<open>The rollup\<close>

definition RESOLVED_CHILD_STATUSES :: "string list" where
  "RESOLVED_CHILD_STATUSES = [''done'', ''cancelled'', ''failed'']"

text \<open>The statuses are a table by task id; the ids are UUIDs, so no inherited key is met.\<close>

definition step_resolved :: "(string \<times> string) list \<Rightarrow> step_descriptor \<Rightarrow> bool" where
  "step_resolved statuses step =
     (case st_taskId step of
        None \<Rightarrow> False
      | Some t \<Rightarrow> t \<noteq> [] \<and> (case map_of statuses t of None \<Rightarrow> False | Some s \<Rightarrow> s \<in> set RESOLVED_CHILD_STATUSES))"

definition computePlanRollup :: "step_descriptor list \<Rightarrow> (string \<times> string) list \<Rightarrow> int \<times> int" where
  "computePlanRollup steps statuses =
     (foldl (\<lambda>d step. if step_resolved statuses step then d + 1 else d) 0 steps, int (length steps))"

end
