(* ===== verification/TaskRows.thy ===== *)
theory TaskRows
  imports ContactTypes TaskBlocks
begin

text \<open>
  A row of the task table as the code sees it (\<open>TaskRow\<close> of \<open>src/src/db/queries/tasks.ts\<close>) and the
  lineage cap of \<open>src/src/contacts/principal.ts\<close>. A status is the text of the column.
\<close>

type_synonym jobj = "(string \<times> jsval) list"

record task_row =
  t_id :: string
  t_agentId :: string
  t_intentAnchor :: string
  t_status :: string
  t_progress :: jobj
  t_errorBudget :: jobj
  t_updatedAt :: string
  t_title :: string
  t_description :: "string option"
  t_owner :: string
  t_waitingOnContactId :: "string option"
  t_waitingOnText :: "string option"
  t_parentTaskId :: "string option"
  t_blockedByTaskId :: "string option"
  t_priority :: int
  t_dueAt :: "ms option"
  t_source :: string
  t_sourceAgentId :: "string option"
  t_createdBy :: string
  t_tags :: "string list"
  t_originator :: "task_originator option"

section \<open>Lineage\<close>

fun STANDING_RANK :: "system_role \<Rightarrow> nat" where
  "STANDING_RANK RPrincipal = 3"
| "STANDING_RANK RSystem = 2"
| "STANDING_RANK RAgent = 1"

definition originatorRank :: "task_originator option \<Rightarrow> nat" where
  "originatorRank x =
     (case x of None \<Rightarrow> 0
      | Some og \<Rightarrow> (case o_systemRole og of None \<Rightarrow> 0 | Some r \<Rightarrow> STANDING_RANK r))"

definition capOriginatorToParent ::
    "task_originator option \<Rightarrow> task_originator option \<Rightarrow> task_originator option" where
  "capOriginatorToParent child parent =
     (if originatorRank child \<le> originatorRank parent then child else parent)"

lemma cap_le_parent: "originatorRank (capOriginatorToParent c p) \<le> originatorRank p"
  by (simp add: capOriginatorToParent_def)

lemma cap_le_child: "originatorRank (capOriginatorToParent c p) \<le> originatorRank c"
  by (simp add: capOriginatorToParent_def)

end
