(* ===== verification/PlanGraph.thy ===== *)
theory PlanGraph
  imports TaskRows
begin

text \<open>
  \<open>src/src/agents/plan-execution.ts\<close>: the steps an agent submits to the plan skill, their dependency
  graph, the projection to plan descriptors, and what a finished plan hands on. The table from step
  ids to task ids is an association list: a step id \<open>__proto__\<close> is outside the model.
\<close>

section \<open>Steps\<close>

record plan_step =
  si_id :: string
  si_title :: string
  si_description :: "string option"
  si_target_agent_id :: string
  si_blocked_by_step_id :: "string option" \<comment> \<open>absent and null are read alike\<close>
  si_waiting_on_contact_id :: "string option"
  si_waiting_on_text :: "string option"
  si_materialize :: bool \<comment> \<open>false only when given as false\<close>
  si_resumable :: bool

text \<open>A text that is present and not blank, trimmed.\<close>

definition nonblank :: "jsval \<Rightarrow> string option" where
  "nonblank v = (case v of JStr s \<Rightarrow> if js_trim s = [] then None else Some (js_trim s) | _ \<Rightarrow> None)"

fun parsePlanStepInput :: "jsval \<Rightarrow> plan_step option" where
  "parsePlanStepInput (JObj obj) =
     (case (nonblank (jfield obj ''id''), nonblank (jfield obj ''title''), nonblank (jfield obj ''target_agent_id'')) of
        (Some i, Some t, Some a) \<Rightarrow>
          Some \<lparr>si_id = i, si_title = t, si_description = opt_string (jfield obj ''description''),
                si_target_agent_id = a, si_blocked_by_step_id = nonblank (jfield obj ''blocked_by_step_id''),
                si_waiting_on_contact_id = nonblank (jfield obj ''waiting_on_contact_id''),
                si_waiting_on_text = nonblank (jfield obj ''waiting_on_text''),
                si_materialize = (jfield obj ''materialize'' \<noteq> JBool False),
                si_resumable = (jfield obj ''resumable'' = JBool True)\<rparr>
      | _ \<Rightarrow> None)"
| "parsePlanStepInput _ = None"

section \<open>The dependency graph\<close>

datatype graph_error = UnknownBlocker string | LazyBlocker string | DependencyCycle string

text \<open>\<open>new Map(steps.map(s => [s.id, s]))\<close>: the last step of an id counts.\<close>

definition step_by_id :: "plan_step list \<Rightarrow> (string \<times> plan_step) list" where
  "step_by_id steps = fold (\<lambda>s. AList.update (si_id s) s) steps []"

definition truthy_id :: "string option \<Rightarrow> string option" where
  "truthy_id x = (case x of Some s \<Rightarrow> if s = [] then None else Some s | None \<Rightarrow> None)"

text \<open>The first loop: blockers are known and materialized.\<close>

fun check_blockers :: "(string \<times> plan_step) list \<Rightarrow> plan_step list \<Rightarrow> graph_error option" where
  "check_blockers m [] = None"
| "check_blockers m (step # steps) =
     (case truthy_id (si_blocked_by_step_id step) of
        None \<Rightarrow> check_blockers m steps
      | Some b \<Rightarrow>
          (case map_of m b of
             None \<Rightarrow> Some (UnknownBlocker b)
           | Some blocker \<Rightarrow> if \<not> si_materialize blocker then Some (LazyBlocker b) else check_blockers m steps))"

definition next_blocker :: "(string \<times> plan_step) list \<Rightarrow> string \<Rightarrow> string option" where
  "next_blocker m c = (case map_of m c of None \<Rightarrow> None | Some s \<Rightarrow> truthy_id (si_blocked_by_step_id s))"

lemma next_blocker_unknown: "c \<notin> fst ` set m \<Longrightarrow> next_blocker m c = None"
  by (simp add: next_blocker_def map_of_eq_None_iff [THEN iffD2] split: option.splits)

text \<open>The inner \<open>while\<close> of the second loop: true when a step is met again.\<close>

function walk_blockers :: "(string \<times> plan_step) list \<Rightarrow> string list \<Rightarrow> string option \<Rightarrow> bool" where
  "walk_blockers m visiting None = False"
| "walk_blockers m visiting (Some c) =
     (if c \<in> set visiting then True else walk_blockers m (c # visiting) (next_blocker m c))"
  by pat_completeness auto

termination
proof (relation "measure (\<lambda>(m, vis, cur). 2 * card (fst ` set m - set vis) + (if cur = None then 0 else 1))")
  fix m :: "(string \<times> plan_step) list" and visiting :: "string list" and c :: string
  assume new: "c \<notin> set visiting"
  have "2 * card (fst ` set m - set (c # visiting)) + (if next_blocker m c = None then 0 else 1)
      < 2 * card (fst ` set m - set visiting) + 1"
  proof (cases "c \<in> fst ` set m")
    case True
    have "card (fst ` set m - set (c # visiting)) < card (fst ` set m - set visiting)"
      using True new by (intro psubset_card_mono) auto
    then show ?thesis by simp
  next
    case False
    then have "fst ` set m - set (c # visiting) = fst ` set m - set visiting" by auto
    then show ?thesis by (simp add: next_blocker_unknown [OF False])
  qed
  then show "((m, c # visiting, next_blocker m c), m, visiting, Some c)
      \<in> measure (\<lambda>(m, vis, cur). 2 * card (fst ` set m - set vis) + (if cur = None then 0 else 1))"
    by simp
qed simp

fun check_cycles :: "(string \<times> plan_step) list \<Rightarrow> plan_step list \<Rightarrow> graph_error option" where
  "check_cycles m [] = None"
| "check_cycles m (step # steps) =
     (if walk_blockers m [] (truthy_id (Some (si_id step))) then Some (DependencyCycle (si_id step))
      else check_cycles m steps)"

definition validatePlanStepsGraph :: "plan_step list \<Rightarrow> graph_error option" where
  "validatePlanStepsGraph steps =
     (let m = step_by_id steps
      in case check_blockers m steps of Some e \<Rightarrow> Some e | None \<Rightarrow> check_cycles m steps)"

fun parse_step_inputs :: "string list \<Rightarrow> jsval list \<Rightarrow> plan_step list option" where
  "parse_step_inputs seen [] = Some []"
| "parse_step_inputs seen (item # items) =
     (case parsePlanStepInput item of
        None \<Rightarrow> None
      | Some step \<Rightarrow>
          if si_id step \<in> set seen then None
          else map_option (\<lambda>steps. step # steps) (parse_step_inputs (si_id step # seen) items))"

definition parsePlanStepsInput :: "jsval \<Rightarrow> plan_step list option" where
  "parsePlanStepsInput raw =
     (case raw of
        JArr items \<Rightarrow>
          if items = [] then None
          else (case parse_step_inputs [] items of
                  None \<Rightarrow> None
                | Some steps \<Rightarrow> if validatePlanStepsGraph steps \<noteq> None then None else Some steps)
      | _ \<Rightarrow> None)"

section \<open>From steps to descriptors\<close>

type_synonym step_task_ids = "(string \<times> string option) list"

definition resolveBlockedByTaskId :: "string option \<Rightarrow> step_task_ids \<Rightarrow> string option" where
  "resolveBlockedByTaskId blockedBy ids =
     (case truthy_id blockedBy of None \<Rightarrow> None | Some b \<Rightarrow> Option.bind (map_of ids b) (\<lambda>t. t))"

definition findRemovedChildTaskIds :: "plan_block option \<Rightarrow> string list \<Rightarrow> string list" where
  "findRemovedChildTaskIds existing newStepIds =
     (case existing of
        None \<Rightarrow> []
      | Some p \<Rightarrow> List.map_filter
          (\<lambda>s. if st_id s \<in> set newStepIds then None else truthy_id (st_taskId s)) (p_steps p))"

definition existingTaskIdForStep :: "plan_block option \<Rightarrow> string \<Rightarrow> string option" where
  "existingTaskIdForStep existing stepId =
     (case existing of
        None \<Rightarrow> None
      | Some p \<Rightarrow> (case find (\<lambda>s. st_id s = stepId) (p_steps p) of None \<Rightarrow> None | Some s \<Rightarrow> st_taskId s))"

definition buildPlanStepDescriptors :: "plan_step list \<Rightarrow> step_task_ids \<Rightarrow> step_descriptor list" where
  "buildPlanStepDescriptors steps ids =
     map (\<lambda>s. \<lparr>st_id = si_id s,
               st_taskId = (if \<not> si_materialize s then None else Option.bind (map_of ids (si_id s)) (\<lambda>t. t))\<rparr>) steps"

text \<open>\<open>undefined\<close> (outer \<open>None\<close>) also stands for a deliverable that is no step.\<close>

definition validateDeliverableStepId :: "string option option \<Rightarrow> plan_step list \<Rightarrow> string option option" where
  "validateDeliverableStepId d steps =
     (case d of
        None \<Rightarrow> None
      | Some None \<Rightarrow> Some None
      | Some (Some x) \<Rightarrow>
          (let t = js_trim x
           in if t = [] then None
              else if t \<in> si_id ` set steps then Some (Some t) else None))"

definition planStepDriftsFromChild :: "plan_step \<Rightarrow> task_row \<Rightarrow> bool" where
  "planStepDriftsFromChild step child \<longleftrightarrow>
     t_title child \<noteq> si_title step
     \<or> t_description child \<noteq> si_description step
     \<or> t_agentId child \<noteq> si_target_agent_id step
     \<or> t_waitingOnContactId child \<noteq> si_waiting_on_contact_id step
     \<or> t_waitingOnText child \<noteq> si_waiting_on_text step
     \<or> (jfield (t_errorBudget child) ''resumable'' = JBool True) \<noteq> si_resumable step"

definition PLACEHOLDER_TASK_ID_PREFIX :: string where
  "PLACEHOLDER_TASK_ID_PREFIX = ''00000000-0000-4000-8000-''"

definition projectPlanStepTaskIds :: "plan_step list \<Rightarrow> plan_block option \<Rightarrow> step_task_ids" where
  "projectPlanStepTaskIds steps existing =
     foldl (\<lambda>ids (i, s).
              if \<not> si_materialize s then AList.update (si_id s) None ids
              else AList.update (si_id s)
                     (Some (case existingTaskIdForStep existing (si_id s) of
                              Some t \<Rightarrow> t
                            | None \<Rightarrow> PLACEHOLDER_TASK_ID_PREFIX @ digits 12 (int i))) ids)
       [] (enumerate 0 steps)"

definition preflightPlanBlockWrite ::
    "(rat \<Rightarrow> string) \<Rightarrow> string \<Rightarrow> plan_step list \<Rightarrow> plan_block option \<Rightarrow> string option \<Rightarrow> string
       \<Rightarrow> write_error + plan_block" where
  "preflightPlanBlockWrite ns now steps existing deliverable nxt =
     (let ds = buildPlanStepDescriptors steps (projectPlanStepTaskIds steps existing)
      in preparePlanBlock ns now \<lparr>pi_steps = ds, pi_deliverableStepId = deliverable, pi_done = Fin 0,
                                  pi_total = num_int (int (length ds)), pi_next = nxt\<rparr>)"

record materialization_kinds =
  mk_iterateLeaves :: nat
  mk_heterogeneousRows :: nat
  mk_lazySteps :: nat

definition countMaterializationKinds :: "plan_step list \<Rightarrow> materialization_kinds" where
  "countMaterializationKinds steps =
     foldl (\<lambda>k s. if \<not> si_materialize s then k\<lparr>mk_lazySteps := mk_lazySteps k + 1\<rparr>
                  else if si_resumable s then k\<lparr>mk_iterateLeaves := mk_iterateLeaves k + 1\<rparr>
                  else k\<lparr>mk_heterogeneousRows := mk_heterogeneousRows k + 1\<rparr>)
       \<lparr>mk_iterateLeaves = 0, mk_heterogeneousRows = 0, mk_lazySteps = 0\<rparr> steps"

section \<open>What a finished plan hands on\<close>

text \<open>
  The newest note that is not blank. An entry whose \<open>note\<close> is truthy and not a text has no \<open>trim\<close>
  and would throw; notes are written as texts, and such an entry is skipped here.
\<close>

definition newest_note :: "jobj \<Rightarrow> string option" where
  "newest_note progress =
     (case jfield progress ''notes'' of
        JArr notes \<Rightarrow>
          (case List.map_filter (\<lambda>e. nonblank (jget e ''note'')) (rev notes) of [] \<Rightarrow> None | n # _ \<Rightarrow> Some n)
      | _ \<Rightarrow> None)"

definition nonblank_description :: "task_row \<Rightarrow> string option" where
  "nonblank_description t =
     (case t_description t of
        None \<Rightarrow> None
      | Some d \<Rightarrow> if js_trim d = [] then None else Some (js_trim d))"

definition extractTaskWrittenOutput :: "task_row \<Rightarrow> string option" where
  "extractTaskWrittenOutput t =
     (case newest_note (t_progress t) of Some n \<Rightarrow> Some n | None \<Rightarrow> nonblank_description t)"

definition extractTaskOutputNote :: "task_row \<Rightarrow> string" where
  "extractTaskOutputNote t =
     (case newest_note (t_progress t) of
        Some n \<Rightarrow> n
      | None \<Rightarrow> (case nonblank_description t of Some d \<Rightarrow> d | None \<Rightarrow> t_title t))"

definition step_child :: "(string \<times> task_row) list \<Rightarrow> step_descriptor \<Rightarrow> task_row option" where
  "step_child children s = Option.bind (truthy_id (st_taskId s)) (map_of children)"

definition deliverable_child :: "plan_block \<Rightarrow> (string \<times> task_row) list \<Rightarrow> string \<Rightarrow> task_row option" where
  "deliverable_child plan children d =
     Option.bind (find (\<lambda>s. st_id s = d) (p_steps plan)) (step_child children)"

definition blank_line :: string where
  "blank_line = [CHR 0x0A, CHR 0x0A]"

definition output_lines :: "(task_row \<Rightarrow> bool) \<Rightarrow> plan_block \<Rightarrow> (string \<times> task_row) list \<Rightarrow> string list" where
  "output_lines keep plan children =
     List.map_filter
       (\<lambda>s. case step_child children s of
              None \<Rightarrow> None
            | Some c \<Rightarrow> if keep c then Some (t_title c @ '': '' @ extractTaskOutputNote c) else None)
       (p_steps plan)"

definition resolvePlanCompletionNote :: "plan_block \<Rightarrow> (string \<times> task_row) list \<Rightarrow> string" where
  "resolvePlanCompletionNote plan children =
     (let roll = js_join blank_line (output_lines (\<lambda>_. True) plan children)
      in case truthy_id (p_deliverableStepId plan) of
           None \<Rightarrow> roll
         | Some d \<Rightarrow>
             (case deliverable_child plan children d of Some c \<Rightarrow> extractTaskOutputNote c | None \<Rightarrow> roll))"

definition resolvePromotionText :: "plan_block \<Rightarrow> (string \<times> task_row) list \<Rightarrow> string option" where
  "resolvePromotionText plan children =
     (case truthy_id (p_deliverableStepId plan) of
        Some d \<Rightarrow>
          (case deliverable_child plan children d of None \<Rightarrow> None | Some c \<Rightarrow> extractTaskWrittenOutput c)
      | None \<Rightarrow>
          (let lines = output_lines
                 (\<lambda>c. jfield (t_errorBudget c) ''resumable'' \<noteq> JBool True \<and> js_trim (extractTaskOutputNote c) \<noteq> [])
                 plan children
           in if lines = [] then None else Some (js_join blank_line lines)))"

definition isPlanReadyForAutoComplete :: "plan_block \<Rightarrow> (string \<times> string) list \<Rightarrow> bool" where
  "isPlanReadyForAutoComplete plan statuses =
     (if p_done plan \<noteq> p_total plan \<or> p_total plan = 0 then False
      else case truthy_id (p_deliverableStepId plan) of
             None \<Rightarrow> True
           | Some d \<Rightarrow>
               (case Option.bind (find (\<lambda>s. st_id s = d) (p_steps plan)) (\<lambda>s. truthy_id (st_taskId s)) of
                  None \<Rightarrow> False
                | Some t \<Rightarrow> map_of statuses t = Some ''done''))"

end
