(* ===== verification/TaskBlocksProofs.thy ===== *)
theory TaskBlocksProofs
  imports TaskBlocks
begin

text \<open>
  The two blocks of \<open>tasks.progress\<close> are what their types say: a parser only lets well-formed blocks
  through, and what a writer stores is read back unchanged, also after the trip through the JSON
  column of the database, while the rest of the progress object stays as it was.
\<close>

section \<open>Plan blocks\<close>

definition step_ok :: "step_descriptor \<Rightarrow> bool" where
  "step_ok s \<longleftrightarrow> st_id s \<noteq> [] \<and> js_trim (st_id s) = st_id s
     \<and> (case st_taskId s of None \<Rightarrow> True | Some t \<Rightarrow> uuid_shape t \<and> js_trim t = t)"

definition plan_ok :: "plan_block \<Rightarrow> bool" where
  "plan_ok b \<longleftrightarrow> p_steps b \<noteq> [] \<and> distinct (map st_id (p_steps b)) \<and> list_all step_ok (p_steps b)
     \<and> 0 \<le> p_done b \<and> p_done b \<le> p_total b \<and> p_total b = int (length (p_steps b))
     \<and> p_next b \<noteq> [] \<and> js_trim (p_next b) = p_next b
     \<and> (case p_deliverableStepId b of None \<Rightarrow> True | Some x \<Rightarrow> x \<in> st_id ` set (p_steps b))"

lemma parseTaskId_Some:
  "parseTaskId raw = Some (Some t) \<Longrightarrow> uuid_shape t \<and> js_trim t = t"
  by (auto simp: parseTaskId_def Let_def split: jsval.splits if_splits)

lemma parse_step_ok: "parseStepDescriptor raw = Some s \<Longrightarrow> step_ok s"
  by (cases raw) (auto simp: step_ok_def dest: parseNext_Some parseTaskId_Some split: option.splits)

lemma parse_step_items_ok:
  "parse_step_items seen items = Some steps \<Longrightarrow>
     list_all step_ok steps \<and> distinct (map st_id steps) \<and> st_id ` set steps \<inter> set seen = {}
     \<and> length steps = length items"
proof (induction seen items arbitrary: steps rule: parse_step_items.induct)
  case (2 seen item items)
  then obtain s rest where s: "parseStepDescriptor item = Some s" "st_id s \<notin> set seen"
    "parse_step_items (st_id s # seen) items = Some rest" "steps = s # rest"
    by (auto split: option.splits if_splits)
  with "2.IH" [OF s(1,2,3)] show ?case by (auto simp: parse_step_ok)
qed auto

lemma parseSteps_ok:
  assumes "parseSteps raw = Some steps"
  shows "steps \<noteq> [] \<and> list_all step_ok steps \<and> distinct (map st_id steps)"
proof -
  obtain items where "raw = JArr items" "items \<noteq> []" "parse_step_items [] items = Some steps"
    using assms by (auto simp: parseSteps_def split: jsval.splits if_splits)
  with parse_step_items_ok [of "[]" items steps] show ?thesis by auto
qed

lemma parse_plan_ok: "parsePlanBlock raw = Some b \<Longrightarrow> plan_ok b"
  by (cases raw)
     (auto simp: plan_ok_def parseNonNegativeInt_Some dest: parseNext_Some parseSteps_ok
        split: option.splits if_splits)

lemma trim_uuid_nonempty: "uuid_shape t \<Longrightarrow> js_trim t = t \<Longrightarrow> js_trim t \<noteq> []"
  using uuid_shape_nonempty by auto

lemma parse_step_json: "step_ok s \<Longrightarrow> parseStepDescriptor (step_json s) = Some s"
  by (cases "st_taskId s")
     (auto simp: step_ok_def step_json_def null_or_string_def readTaskIdField_def two_spellings_def
        jhas_def jfield_def parseNext_JStr parseTaskId_def Let_def uuid_shape_nonempty)

lemma parse_step_items_json:
  "list_all step_ok steps \<Longrightarrow> distinct (map st_id steps) \<Longrightarrow> st_id ` set steps \<inter> set seen = {} \<Longrightarrow>
     parse_step_items seen (map step_json steps) = Some steps"
  by (induction steps arbitrary: seen) (auto simp: parse_step_json)

lemma parse_plan_json:
  assumes "plan_ok b"
  shows "parsePlanBlock (plan_json b) = Some b"
proof -
  have steps: "parseSteps (JArr (map step_json (p_steps b))) = Some (p_steps b)"
    using assms by (simp add: parseSteps_def plan_ok_def parse_step_items_json)
  have del: "parseDeliverableStepId (null_or_string (p_deliverableStepId b)) = Some (p_deliverableStepId b)"
  proof (cases "p_deliverableStepId b")
    case (Some x)
    then obtain s where "s \<in> set (p_steps b)" "st_id s = x" using assms by (auto simp: plan_ok_def)
    then have "x \<noteq> []" "js_trim x = x" using assms by (auto simp: plan_ok_def list_all_iff step_ok_def)
    with Some show ?thesis by (simp add: parseDeliverableStepId_def null_or_string_def parseNext_JStr)
  qed (simp add: parseDeliverableStepId_def null_or_string_def)
  have d: "\<not> (case p_deliverableStepId b of None \<Rightarrow> False | Some x \<Rightarrow> x \<notin> st_id ` set (p_steps b))"
    using assms by (auto simp: plan_ok_def split: option.splits)
  show ?thesis
    using assms steps del d
    by (cases "p_plannedAt b")
       (auto simp: plan_json_def jfield_def jhas_def two_spellings_def plan_ok_def stamp_of_def
          stamp_fields_def opt_string_def parseNext_JStr)
qed

section \<open>Through the database\<close>

text \<open>The column holds the JSON text of the progress object.\<close>

definition stored :: "(string \<times> jsval) list \<Rightarrow> (string \<times> jsval) list" where
  "stored progress = roundtrip_members progress"

lemma jfield_stored:
  "jfield (stored progress) k = (case json_roundtrip (jfield progress k) of None \<Rightarrow> JUndef | Some v \<Rightarrow> v)"
  if "owf progress"
  using that unfolding stored_def
proof (induction progress)
  case (Cons p ps)
  obtain k' v where p: "p = (k', v)" by (cases p)
  have o: "owf ps" using Cons.prems by (simp add: owf_def)
  show ?case
  proof (cases "k = k'")
    case True
    then have "map_of ps k = None" using Cons.prems p by (simp add: owf_def map_of_eq_None_iff)
    moreover from this have "jfield (roundtrip_members ps) k = JUndef"
      using Cons.IH [OF o] by (simp add: jfield_def)
    ultimately show ?thesis using True p
      by (auto simp: jfield_def split: option.splits)
  next
    case False
    with p Cons.IH [OF o] show ?thesis by (auto simp: jfield_def split: option.splits)
  qed
qed (simp add: jfield_def)

lemma roundtrip_jint [simp]: "json_roundtrip (jint i) = Some (jint i)"
  by (simp add: jint_def)

lemma roundtrip_null_or_string [simp]: "json_roundtrip (null_or_string s) = Some (null_or_string s)"
  by (cases s) (simp_all add: null_or_string_def)

lemma roundtrip_stamp [simp]: "roundtrip_members (stamp_fields k s) = stamp_fields k s"
  by (cases s) (simp_all add: stamp_fields_def)

lemma roundtrip_members_append: "roundtrip_members (a @ b) = roundtrip_members a @ roundtrip_members b"
  by (induction a) (auto split: option.splits)

lemma roundtrip_step: "json_roundtrip (step_json s) = Some (step_json s)"
  by (simp add: step_json_def)

lemma roundtrip_steps: "roundtrip_items (map step_json ss) = map step_json ss"
  by (induction ss) (simp_all add: roundtrip_step)

lemma roundtrip_plan: "json_roundtrip (plan_json b) = Some (plan_json b)"
  by (simp add: plan_json_def roundtrip_steps)

lemma roundtrip_resumable:
  assumes "json_roundtrip (cursor_json (r_cursor b)) = Some (cursor_json (r_cursor b))"
    "json_roundtrip (r_accumulator b) = Some (r_accumulator b)"
  shows "json_roundtrip (resumable_json b) = Some (resumable_json b)"
  using assms by (simp add: resumable_json_def)

section \<open>Properties of the plan block\<close>

lemma prepare_plan_ok:
  assumes "preparePlanBlock ns now i = Inr b"
  shows "plan_ok b"
  using assms by (auto simp: preparePlanBlock_def Let_def plan_ok_def dest!: parse_plan_ok split: option.splits)

lemma write_plan_cases:
  assumes "writePlanBlock ns now progress i = Inr (b, p')"
  shows "plan_ok b \<and> p_plannedAt b = Some now \<and> serializedUtf8Bytes ns (plan_json b) \<le> PLAN_BLOCK_MAX_BYTES
    \<and> p' = AList.update ''plan'' (plan_json b) progress"
proof -
  have b: "preparePlanBlock ns now i = Inr b"
    and p': "p' = mergePlanIntoProgress progress b"
    using assms by (auto simp: writePlanBlock_def Let_def split: sum.splits if_splits)
  from b have "plan_ok b" "p_plannedAt b = Some now" "serializedUtf8Bytes ns (plan_json b) \<le> PLAN_BLOCK_MAX_BYTES"
    using prepare_plan_ok [OF b]
    by (auto simp: preparePlanBlock_def validatePlanForWrite_def Let_def split: option.splits if_splits)
  with p' show ?thesis by (simp add: mergePlanIntoProgress_def)
qed

text \<open>
  Only well-typed blocks are ever read: a plan that is parsed has at least one step, steps with
  distinct non-blank ids and task ids that are UUIDs or null, as many steps as its total, no more
  done than that, and a deliverable among its steps; a checkpoint that is parsed has counts that are
  non-negative integers, a non-blank next line and an accumulator that, when it claims to be a document
  pointer, is one. Whatever the column holds.
\<close>

theorem parsed_blocks_typed:
  "(case readPlanBlock progress of None \<Rightarrow> True | Some b \<Rightarrow> plan_ok b)
   \<and> (case readResumableBlock progress of None \<Rightarrow> True | Some r \<Rightarrow> resumable_ok r)"
  by (simp add: readPlanBlock_def readResumableBlock_def parse_plan_ok parse_resumable_ok split: option.splits)

text \<open>
  C35. A plan that was written is the plan that is read: from the progress object returned and, after
  that object went through its JSON column, from there; it fits the size limit, and every other block
  of the progress object is what it was.
\<close>

theorem plan_write_read:
  assumes "writePlanBlock ns now progress i = Inr (b, p')" "owf progress"
  shows "readPlanBlock p' = Some b \<and> readPlanBlock (stored p') = Some b
    \<and> serializedUtf8Bytes ns (jfield p' ''plan'') \<le> PLAN_BLOCK_MAX_BYTES
    \<and> (\<forall>k. k = ''plan'' \<or> jfield p' k = jfield progress k)"
proof -
  note w = write_plan_cases [OF assms(1)]
  then have "owf p'" using assms(2) by simp
  with w show ?thesis
    by (simp add: readPlanBlock_def jfield_stored roundtrip_plan parse_plan_json)
qed

definition demo_plan_input :: plan_input where
  "demo_plan_input = \<lparr>pi_steps = [\<lparr>st_id = ''draft'', st_taskId = Some ''0123abcd-0000-4000-8000-000000000001''\<rparr>,
                                 \<lparr>st_id = ''send'', st_taskId = None\<rparr>],
     pi_deliverableStepId = Some ''send'', pi_done = Fin 1, pi_total = Fin 2, pi_next = '' send it ''\<rparr>"

theorem plan_write_read_witness:
  "\<exists>b p'. writePlanBlock (\<lambda>_. ''1'') ''now'' [(''notes'', JArr [])] demo_plan_input = Inr (b, p')
     \<and> readPlanBlock (stored p') = Some b \<and> p_next b = ''send it''"
proof -
  define r where "r = writePlanBlock (\<lambda>_. ''1'') ''now'' [(''notes'', JArr [])] demo_plan_input"
  have e: "case r of Inl _ \<Rightarrow> False | Inr (b, p') \<Rightarrow> p_next b = ''send it''"
    unfolding r_def by code_simp
  then obtain b p' where r: "r = Inr (b, p')" by (auto split: sum.splits)
  have "readPlanBlock (stored p') = Some b"
    using plan_write_read [OF r [unfolded r_def]] by (simp add: owf_def)
  with r e show ?thesis unfolding r_def by auto
qed

section \<open>Properties of the resumable block\<close>

lemma prepare_resumable_ok:
  assumes "prepareResumableBlock ns now i = Inr b"
  shows "resumable_ok b \<and> validateResumableForWrite ns b = None
    \<and> r_cursor b = ri_cursor i \<and> r_accumulator b = ri_accumulator i"
proof -
  obtain q where q: "parseResumableBlock (resumable_input_json i) = Some q"
    and b: "b = q\<lparr>r_checkpointedAt := Some (case ri_checkpointedAt i of Some s \<Rightarrow> s | None \<Rightarrow> now)\<rparr>"
    and v: "validateResumableForWrite ns b = None"
    using assms by (auto simp: prepareResumableBlock_def Let_def split: option.splits)
  have "resumable_ok b" using parse_resumable_ok [OF q] by (simp add: b resumable_ok_def)
  moreover have "r_cursor q = ri_cursor i \<and> r_accumulator q = ri_accumulator i"
    using q by (auto simp: resumable_input_json_def jfield_def Let_def parseAccumulator_Some
        split: option.splits if_splits)
  ultimately show ?thesis using b v by simp
qed

lemma validate_resumable_bounds:
  "validateResumableForWrite ns b = None \<longleftrightarrow>
     (isDocumentPointer (r_accumulator b)
        \<or> serializedUtf8Bytes ns (r_accumulator b) \<le> RESUMABLE_INLINE_ACCUMULATOR_MAX_BYTES)
     \<and> serializedUtf8Bytes ns (resumable_json b) \<le> RESUMABLE_BLOCK_MAX_BYTES"
  by (auto simp: validateResumableForWrite_def validateAccumulatorForWrite_def Let_def split: option.splits if_splits)

text \<open>
  A checkpoint that was written is the checkpoint the next slice reads, from the object returned
  and (when its cursor and accumulator are values JSON can carry) from the column; the accumulator is
  a document pointer or fits the inline limit, the block fits its limit, and the plan, the notes and
  every other block are what they were.
\<close>

theorem checkpoint_write_read:
  assumes "writeResumableBlock ns now progress i = Inr (b, p')" "owf progress"
    "json_roundtrip (cursor_json (ri_cursor i)) = Some (cursor_json (ri_cursor i))"
    "json_roundtrip (ri_accumulator i) = Some (ri_accumulator i)"
  shows "readResumableBlock p' = Some b \<and> readResumableBlock (stored p') = Some b
    \<and> (isDocumentPointer (r_accumulator b)
        \<or> serializedUtf8Bytes ns (r_accumulator b) \<le> RESUMABLE_INLINE_ACCUMULATOR_MAX_BYTES)
    \<and> serializedUtf8Bytes ns (jfield p' ''resumable'') \<le> RESUMABLE_BLOCK_MAX_BYTES
    \<and> (\<forall>k. k = ''resumable'' \<or> jfield p' k = jfield progress k)"
proof -
  have b: "prepareResumableBlock ns now i = Inr b"
    and p': "p' = AList.update ''resumable'' (resumable_json b) progress"
    using assms(1) by (auto simp: writeResumableBlock_def mergeResumableIntoProgress_def Let_def
        split: sum.splits if_splits)
  note ok = prepare_resumable_ok [OF b]
  have "json_roundtrip (resumable_json b) = Some (resumable_json b)"
    using ok assms(3,4) by (simp add: roundtrip_resumable)
  moreover have "owf p'" using p' assms(2) by simp
  ultimately show ?thesis
    using ok p' by (auto simp: readResumableBlock_def jfield_stored parse_resumable_json validate_resumable_bounds)
qed

definition demo_checkpoint :: resumable_input where
  "demo_checkpoint = \<lparr>ri_cursor = CObj [(''page'', JNum (Fin 3))], ri_done = Fin 40, ri_total = Fin 100,
     ri_accumulator = JArr [JStr ''a''], ri_lastSliceUnits = Fin 20, ri_next = ''page 4'', ri_checkpointedAt = None\<rparr>"

theorem checkpoint_write_read_witness:
  "\<exists>b p'. writeResumableBlock (\<lambda>_. ''1'') ''now'' [(''notes'', JArr [])] demo_checkpoint = Inr (b, p')
     \<and> readResumableBlock (stored p') = Some b \<and> r_done b = 40"
proof -
  define r where "r = writeResumableBlock (\<lambda>_. ''1'') ''now'' [(''notes'', JArr [])] demo_checkpoint"
  have e: "case r of Inl _ \<Rightarrow> False | Inr (b, p') \<Rightarrow> r_done b = 40"
    unfolding r_def by code_simp
  then obtain b p' where r: "r = Inr (b, p')" by (auto split: sum.splits)
  have "readResumableBlock (stored p') = Some b"
    using checkpoint_write_read [OF r [unfolded r_def]] by (simp add: demo_checkpoint_def owf_def)
  with r e show ?thesis unfolding r_def by auto
qed

text \<open>
  What keeps a checkpoint from being stored, in the order the code finds it: input that is not a
  well-formed block; an inline accumulator over its limit; a block over its limit. The second size
  check, on the merged object, never fires, because it measures the block again.
\<close>

lemma write_resumable_errors:
  "writeResumableBlock ns now progress i =
     (case parseResumableBlock (resumable_input_json i) of
        None \<Rightarrow> Inl InvalidBlock
      | Some q \<Rightarrow>
          (let b = q\<lparr>r_checkpointedAt := Some (case ri_checkpointedAt i of Some s \<Rightarrow> s | None \<Rightarrow> now)\<rparr>
           in case validateResumableForWrite ns b of
                Some e \<Rightarrow> Inl e
              | None \<Rightarrow> Inr (b, mergeResumableIntoProgress progress b)))"
proof (cases "parseResumableBlock (resumable_input_json i)")
  case (Some q)
  let ?b = "q\<lparr>r_checkpointedAt := Some (case ri_checkpointedAt i of Some s \<Rightarrow> s | None \<Rightarrow> now)\<rparr>"
  have "validateResumableForWrite ns ?b = None \<Longrightarrow> \<not> RESUMABLE_BLOCK_MAX_BYTES < serializedUtf8Bytes ns (resumable_json ?b)"
    by (simp add: validate_resumable_bounds)
  with Some show ?thesis
    by (cases "validateResumableForWrite ns ?b")
       (simp_all add: writeResumableBlock_def prepareResumableBlock_def mergeResumableIntoProgress_def Let_def)
qed (simp add: writeResumableBlock_def prepareResumableBlock_def)

section \<open>The rollup\<close>

lemma rollup_count: "fst (computePlanRollup steps statuses) = int (length (filter (step_resolved statuses) steps))"
proof -
  have "foldl (\<lambda>d step. if step_resolved statuses step then d + 1 else d) n steps
      = n + int (length (filter (step_resolved statuses) steps))" for n
    by (induction steps arbitrary: n) auto
  then show ?thesis by (simp add: computePlanRollup_def)
qed

lemma rollup_bounds: "0 \<le> fst (computePlanRollup steps statuses)
    \<and> fst (computePlanRollup steps statuses) \<le> snd (computePlanRollup steps statuses)"
  by (simp add: rollup_count) (simp add: computePlanRollup_def)

end
