(* ===== verification/PlanGraphProofs.thy ===== *)
theory PlanGraphProofs
  imports PlanGraph TaskBlocksProofs
begin

text \<open>
  The graph check of the plan skill decides exactly what it should: known and materialized blockers
  and an acyclic dependency relation. An accepted plan can therefore always be worked on: as long as a
  materialized step is open, some open step has no open blocker.
\<close>

section \<open>The relation of a list of steps\<close>

text \<open>What the parser guarantees of a list of steps.\<close>

definition steps_ok :: "plan_step list \<Rightarrow> bool" where
  "steps_ok steps \<longleftrightarrow> steps \<noteq> [] \<and> distinct (map si_id steps)
     \<and> (\<forall>s\<in>set steps. si_id s \<noteq> [] \<and> si_blocked_by_step_id s \<noteq> Some [])"

definition blocked_by :: "plan_step list \<Rightarrow> (string \<times> string) set" where
  "blocked_by steps = {(si_id s, b) | s b. s \<in> set steps \<and> si_blocked_by_step_id s = Some b}"

lemma nonblank_Some: "nonblank v = Some s \<Longrightarrow> s \<noteq> [] \<and> js_trim s = s"
  by (auto simp: nonblank_def split: jsval.splits if_splits)

lemma parse_step_input_ok:
  "parsePlanStepInput raw = Some s \<Longrightarrow> si_id s \<noteq> [] \<and> si_blocked_by_step_id s \<noteq> Some []"
  by (cases raw) (auto dest: nonblank_Some split: option.splits)

lemma parse_step_inputs_ok:
  "parse_step_inputs seen items = Some steps \<Longrightarrow>
     distinct (map si_id steps) \<and> si_id ` set steps \<inter> set seen = {} \<and> length steps = length items
     \<and> (\<forall>s\<in>set steps. si_id s \<noteq> [] \<and> si_blocked_by_step_id s \<noteq> Some [])"
proof (induction seen items arbitrary: steps rule: parse_step_inputs.induct)
  case (2 seen item items)
  then obtain s rest where s: "parsePlanStepInput item = Some s" "si_id s \<notin> set seen"
    "parse_step_inputs (si_id s # seen) items = Some rest" "steps = s # rest"
    by (auto split: option.splits if_splits)
  with "2.IH" [OF s(1,2,3)] parse_step_input_ok [OF s(1)] show ?case by auto
qed auto

lemma parsed_steps_ok:
  assumes "parsePlanStepsInput raw = Some steps"
  shows "steps_ok steps \<and> validatePlanStepsGraph steps = None"
proof -
  obtain items where i: "raw = JArr items" "items \<noteq> []" "parse_step_inputs [] items = Some steps"
    "validatePlanStepsGraph steps = None"
    using assms by (auto simp: parsePlanStepsInput_def split: jsval.splits option.splits if_splits)
  with parse_step_inputs_ok [OF i(3)] show ?thesis by (auto simp: steps_ok_def)
qed

lemma step_by_id_lookup:
  assumes "distinct (map si_id steps)"
  shows "map_of (step_by_id steps) k = find (\<lambda>s. si_id s = k) steps"
proof -
  have "map_of (fold (\<lambda>s. AList.update (si_id s) s) steps m) k =
      (case find (\<lambda>s. si_id s = k) steps of Some s \<Rightarrow> Some s | None \<Rightarrow> map_of m k)" for m
    using assms
  proof (induction steps arbitrary: m)
    case (Cons s steps)
    show ?case
    proof (cases "si_id s = k")
      case True
      then have "\<forall>x\<in>set steps. si_id x \<noteq> k"
        using Cons.prems by (auto simp: image_iff)
      then have "find (\<lambda>s. si_id s = k) steps = None" by (auto simp: find_None_iff)
      with True Cons show ?thesis by simp
    qed (use Cons in \<open>simp split: option.splits\<close>)
  qed simp
  then show ?thesis by (simp add: step_by_id_def split: option.splits)
qed

lemma find_by_id:
  "distinct (map si_id steps) \<Longrightarrow> find (\<lambda>s. si_id s = k) steps = Some s \<longleftrightarrow> s \<in> set steps \<and> si_id s = k"
  by (induction steps) auto

lemma step_by_id_Some:
  "distinct (map si_id steps) \<Longrightarrow> map_of (step_by_id steps) k = Some s \<longleftrightarrow> s \<in> set steps \<and> si_id s = k"
  by (simp add: step_by_id_lookup find_by_id)

lemma step_by_id_None:
  "distinct (map si_id steps) \<Longrightarrow> map_of (step_by_id steps) k = None \<longleftrightarrow> k \<notin> si_id ` set steps"
  by (auto simp: step_by_id_lookup find_None_iff)

lemma truthy_ok: "x \<noteq> Some [] \<Longrightarrow> truthy_id x = x"
  by (auto simp: truthy_id_def split: option.splits)

lemma next_blocker_iff:
  assumes "steps_ok steps"
  shows "next_blocker (step_by_id steps) a = Some b \<longleftrightarrow> (a, b) \<in> blocked_by steps"
proof -
  have d: "distinct (map si_id steps)" using assms by (simp add: steps_ok_def)
  have t: "s \<in> set steps \<Longrightarrow> truthy_id (si_blocked_by_step_id s) = si_blocked_by_step_id s" for s
    using assms by (auto simp: steps_ok_def intro: truthy_ok)
  show ?thesis
  proof
    assume "next_blocker (step_by_id steps) a = Some b"
    then obtain s where "s \<in> set steps" "si_id s = a" "truthy_id (si_blocked_by_step_id s) = Some b"
      using step_by_id_Some [OF d, of a] by (auto simp: next_blocker_def split: option.splits)
    then show "(a, b) \<in> blocked_by steps" using t by (auto simp: blocked_by_def)
  next
    assume "(a, b) \<in> blocked_by steps"
    then obtain s where s: "s \<in> set steps" "si_id s = a" "si_blocked_by_step_id s = Some b"
      by (auto simp: blocked_by_def)
    then have "map_of (step_by_id steps) a = Some s" using step_by_id_Some [OF d, of a s] by simp
    then show "next_blocker (step_by_id steps) a = Some b" using s t [OF s(1)] by (simp add: next_blocker_def)
  qed
qed

section \<open>Walking finds cycles\<close>

lemma blocked_by_function: "steps_ok steps \<Longrightarrow> (a, b) \<in> blocked_by steps \<Longrightarrow> (a, c) \<in> blocked_by steps \<Longrightarrow> b = c"
  using next_blocker_iff [of steps a b] next_blocker_iff [of steps a c] by simp

lemma no_walk_no_return:
  assumes "steps_ok steps" "\<not> walk_blockers (step_by_id steps) visiting (Some c)"
  shows "\<forall>d. (c, d) \<in> (blocked_by steps)\<^sup>* \<longrightarrow> d \<notin> set visiting"
    and "(c, c) \<notin> (blocked_by steps)\<^sup>+"
proof -
  let ?m = "step_by_id steps" and ?R = "blocked_by steps"
  have "\<not> walk_blockers ?m visiting cur \<Longrightarrow> cur = Some c \<Longrightarrow>
      (\<forall>d. (c, d) \<in> ?R\<^sup>* \<longrightarrow> d \<notin> set visiting) \<and> (c, c) \<notin> ?R\<^sup>+" for visiting cur c
  proof (induction ?m visiting cur arbitrary: c rule: walk_blockers.induct)
    case (2 visiting x)
    have x: "x = c" "c \<notin> set visiting" using "2.prems" by (auto split: if_splits)
    show ?case
    proof (cases "next_blocker ?m c")
      case None
      then have "(c, d) \<notin> ?R" for d using next_blocker_iff [OF assms(1), of c d] by simp
      then have n: "(c, d) \<notin> ?R\<^sup>+" for d by (meson tranclD)
      then have "(c, d) \<in> ?R\<^sup>* \<Longrightarrow> d = c" for d by (metis rtranclD)
      with x n show ?thesis by auto
    next
      case (Some e)
      then have e: "(c, e) \<in> ?R" using next_blocker_iff [OF assms(1)] by simp
      have nw: "x \<notin> set visiting" "\<not> walk_blockers ?m (x # visiting) (next_blocker ?m x)"
        using "2.prems" x by simp_all
      from "2.hyps" [OF nw, of e] x Some
      have ih: "\<forall>d. (e, d) \<in> ?R\<^sup>* \<longrightarrow> d \<notin> set (c # visiting)" by auto
      have from_c: "(c, d) \<in> ?R\<^sup>+ \<Longrightarrow> (e, d) \<in> ?R\<^sup>*" for d
        using tranclD [of c d ?R] blocked_by_function [OF assms(1) e] by metis
      show ?thesis
      proof (intro conjI allI impI)
        show "d \<notin> set visiting" if "(c, d) \<in> ?R\<^sup>*" for d
          using that rtranclD [OF that] from_c ih x(2) by auto
        show "(c, c) \<notin> ?R\<^sup>+" using from_c ih by auto
      qed
    qed
  qed simp
  then show "\<forall>d. (c, d) \<in> ?R\<^sup>* \<longrightarrow> d \<notin> set visiting" "(c, c) \<notin> ?R\<^sup>+"
    using assms(2) by blast+
qed

lemma walk_finds_cycle:
  assumes "steps_ok steps"
  shows "walk_blockers (step_by_id steps) visiting cur \<Longrightarrow>
    (\<forall>c v. cur = Some c \<and> v \<in> set visiting \<longrightarrow> (v, c) \<in> (blocked_by steps)\<^sup>+) \<Longrightarrow>
    \<exists>x. (x, x) \<in> (blocked_by steps)\<^sup>+"
proof (induction "step_by_id steps" visiting cur rule: walk_blockers.induct)
  case (2 visiting c)
  show ?case
  proof (cases "c \<in> set visiting")
    case True
    with "2.prems"(2) show ?thesis by blast
  next
    case False
    have "(v, e) \<in> (blocked_by steps)\<^sup>+"
      if "next_blocker (step_by_id steps) c = Some e" "v \<in> set (c # visiting)" for e v
    proof -
      have "(c, e) \<in> blocked_by steps" using that(1) next_blocker_iff [OF assms] by simp
      with that(2) "2.prems"(2) show ?thesis by (auto intro: trancl_into_trancl)
    qed
    with "2.hyps" [OF False] "2.prems"(1) False show ?thesis by auto
  qed
qed simp

lemma check_cycles_acyclic:
  assumes "steps_ok steps"
  shows "check_cycles (step_by_id steps) steps = None \<longleftrightarrow> acyclic (blocked_by steps)"
proof -
  have ids: "s \<in> set steps \<Longrightarrow> truthy_id (Some (si_id s)) = Some (si_id s)" for s
    using assms by (auto simp: steps_ok_def intro: truthy_ok)
  have "check_cycles m ss = None \<longleftrightarrow> (\<forall>s\<in>set ss. \<not> walk_blockers m [] (truthy_id (Some (si_id s))))" for m ss
    by (induction ss) auto
  then have e: "check_cycles (step_by_id steps) steps = None \<longleftrightarrow>
      (\<forall>s\<in>set steps. \<not> walk_blockers (step_by_id steps) [] (Some (si_id s)))"
    using ids by auto
  show ?thesis
  proof
    assume "check_cycles (step_by_id steps) steps = None"
    then have "s \<in> set steps \<Longrightarrow> (si_id s, si_id s) \<notin> (blocked_by steps)\<^sup>+" for s
      using e no_walk_no_return(2) [OF assms] by blast
    moreover have "(x, x) \<in> (blocked_by steps)\<^sup>+ \<Longrightarrow> x \<in> si_id ` set steps" for x
      by (drule tranclD) (auto simp: blocked_by_def)
    ultimately show "acyclic (blocked_by steps)" unfolding acyclic_def by blast
  next
    assume "acyclic (blocked_by steps)"
    then show "check_cycles (step_by_id steps) steps = None"
      unfolding e acyclic_def using walk_finds_cycle [OF assms] by fastforce
  qed
qed

lemma check_blockers_None:
  assumes "distinct (map si_id steps)" "\<forall>s\<in>set ss. si_blocked_by_step_id s \<noteq> Some []"
  shows "check_blockers (step_by_id steps) ss = None \<longleftrightarrow>
    (\<forall>s\<in>set ss. \<forall>b. si_blocked_by_step_id s = Some b \<longrightarrow>
       (\<exists>t\<in>set steps. si_id t = b \<and> si_materialize t))"
  using assms(2)
proof (induction ss)
  case (Cons s ss)
  then have t: "truthy_id (si_blocked_by_step_id s) = si_blocked_by_step_id s" by (intro truthy_ok) simp
  show ?case
  proof (cases "si_blocked_by_step_id s")
    case None
    with Cons t show ?thesis by simp
  next
    case (Some b)
    show ?thesis
    proof (cases "map_of (step_by_id steps) b")
      case None
      then have "\<not> (\<exists>t\<in>set steps. si_id t = b)" using step_by_id_None [OF assms(1)] by auto
      with Some None t show ?thesis by auto
    next
      case S: (Some x)
      have "x \<in> set steps" "si_id x = b" using S step_by_id_Some [OF assms(1), of b x] by simp_all
      moreover have "t \<in> set steps \<Longrightarrow> si_id t = b \<Longrightarrow> t = x" for t
        using S step_by_id_Some [OF assms(1), of b t] by auto
      ultimately have "(\<exists>t\<in>set steps. si_id t = b \<and> si_materialize t) = si_materialize x" by blast
      moreover have "si_blocked_by_step_id s = Some c \<longleftrightarrow> c = b" for c using Some by auto
      ultimately show ?thesis using Cons.IH Cons.prems S t Some by simp
    qed
  qed
qed simp

section \<open>Properties\<close>

lemma graph_check_iff:
  assumes "steps_ok steps"
  shows "validatePlanStepsGraph steps = None \<longleftrightarrow>
    (\<forall>(a, b)\<in>blocked_by steps. \<exists>t\<in>set steps. si_id t = b \<and> si_materialize t) \<and> acyclic (blocked_by steps)"
proof -
  have d: "distinct (map si_id steps)" "\<forall>s\<in>set steps. si_blocked_by_step_id s \<noteq> Some []"
    using assms by (auto simp: steps_ok_def)
  have "(\<forall>s\<in>set steps. \<forall>b. si_blocked_by_step_id s = Some b \<longrightarrow> (\<exists>t\<in>set steps. si_id t = b \<and> si_materialize t))
     \<longleftrightarrow> (\<forall>(a, b)\<in>blocked_by steps. \<exists>t\<in>set steps. si_id t = b \<and> si_materialize t)"
    by (auto simp: blocked_by_def)
  then show ?thesis
    using check_blockers_None [OF d] check_cycles_acyclic [OF assms]
    by (auto simp: validatePlanStepsGraph_def Let_def split: option.splits)
qed

definition demo_step :: "string \<Rightarrow> string option \<Rightarrow> plan_step" where
  "demo_step i b = \<lparr>si_id = i, si_title = i, si_description = None, si_target_agent_id = ''writer'',
     si_blocked_by_step_id = b, si_waiting_on_contact_id = None, si_waiting_on_text = None,
     si_materialize = True, si_resumable = False\<rparr>"

text \<open>
  C29. The graph check of a submitted plan is exact. Steps with distinct non-empty ids pass if and only
  if every blocker is a materialized step of the plan and the blocked-by relation has no cycle, of any
  length; the walk that decides it always ends.
\<close>

theorem graph_check_exact:
  assumes "steps_ok steps"
  shows "validatePlanStepsGraph steps = None \<longleftrightarrow>
    (\<forall>(a, b)\<in>blocked_by steps. \<exists>t\<in>set steps. si_id t = b \<and> si_materialize t) \<and> acyclic (blocked_by steps)"
  using assms by (rule graph_check_iff)

theorem graph_check_exact_witness:
  "\<not> acyclic (blocked_by [demo_step ''a'' (Some ''b''), demo_step ''b'' (Some ''c''), demo_step ''c'' (Some ''a'')])
   \<and> acyclic (blocked_by [demo_step ''a'' (Some ''b''), demo_step ''b'' (Some ''c''), demo_step ''c'' None])"
proof -
  let ?p = "[demo_step ''a'' (Some ''b''), demo_step ''b'' (Some ''c''), demo_step ''c'' (Some ''a'')]"
  let ?q = "[demo_step ''a'' (Some ''b''), demo_step ''b'' (Some ''c''), demo_step ''c'' None]"
  have ok: "steps_ok ?p" "steps_ok ?q" by (simp_all add: steps_ok_def demo_step_def)
  have "validatePlanStepsGraph ?p = Some (DependencyCycle ''a'')" "validatePlanStepsGraph ?q = None"
    by code_simp+
  moreover have "\<forall>(a, b)\<in>blocked_by ?p. \<exists>t\<in>set ?p. si_id t = b \<and> si_materialize t"
    by (auto simp: blocked_by_def demo_step_def)
  ultimately show ?thesis
    using graph_check_exact [OF ok(1)] graph_check_exact [OF ok(2)] by auto
qed

text \<open>
  A plan the skill accepts never deadlocks on its own order: whichever steps are already resolved,
  if a step is left, some step is left whose blocker, if it has one, is resolved.
\<close>

theorem accepted_plan_progresses:
  assumes "parsePlanStepsInput raw = Some steps" "\<not> si_id ` set steps \<subseteq> resolved"
  shows "\<exists>s\<in>set steps. si_id s \<notin> resolved
    \<and> (case si_blocked_by_step_id s of None \<Rightarrow> True | Some b \<Rightarrow> b \<in> resolved)"
proof -
  have ok: "steps_ok steps" "validatePlanStepsGraph steps = None" using parsed_steps_ok [OF assms(1)] by auto
  then have ac: "acyclic (blocked_by steps)"
    and known: "\<forall>(a, b)\<in>blocked_by steps. b \<in> si_id ` set steps"
    using graph_check_iff [OF ok(1)] by fastforce+
  have "finite (blocked_by steps)"
    by (rule finite_subset [where B = "si_id ` set steps \<times> si_id ` set steps"])
       (use known in \<open>auto simp: blocked_by_def\<close>)
  then have "wf ((blocked_by steps)\<inverse>)" using ac by (rule finite_acyclic_wf_converse)
  moreover obtain x where "x \<in> si_id ` set steps - resolved" using assms(2) by blast
  note x = this
  ultimately obtain z where z: "z \<in> si_id ` set steps - resolved"
    "\<And>y. (y, z) \<in> (blocked_by steps)\<inverse> \<Longrightarrow> y \<notin> si_id ` set steps - resolved"
    using wfE_min [of _ x "si_id ` set steps - resolved"] x by metis
  then obtain s where s: "s \<in> set steps" "si_id s = z" "z \<notin> resolved" by auto
  have "b \<in> resolved" if "si_blocked_by_step_id s = Some b" for b
  proof -
    have "(z, b) \<in> blocked_by steps" using s that by (auto simp: blocked_by_def)
    with z(2) [of b] known show ?thesis by auto
  qed
  with s show ?thesis by (auto split: option.splits)
qed

definition demo_raw_steps :: jsval where
  "demo_raw_steps = JArr
     [JObj [(''id'', JStr ''a''), (''title'', JStr ''A''), (''target_agent_id'', JStr ''w''), (''blocked_by_step_id'', JStr ''b'')],
      JObj [(''id'', JStr ''b''), (''title'', JStr ''B''), (''target_agent_id'', JStr ''w'')]]"

theorem accepted_plan_progresses_witness:
  "\<exists>steps. parsePlanStepsInput demo_raw_steps = Some steps \<and>
     (\<exists>s\<in>set steps. si_id s \<notin> {''b''} \<and> (case si_blocked_by_step_id s of None \<Rightarrow> True | Some b \<Rightarrow> b \<in> {''b''}))"
proof -
  obtain steps where p: "parsePlanStepsInput demo_raw_steps = Some steps" "map si_id steps = [''a'', ''b'']"
  proof -
    have "(case parsePlanStepsInput demo_raw_steps of None \<Rightarrow> False | Some steps \<Rightarrow> map si_id steps = [''a'', ''b''])"
      by code_simp
    then show thesis using that by (auto split: option.splits)
  qed
  from p(2) have "si_id ` set steps = {''a'', ''b''}" by (metis list.set(1,2) list.set_map)
  then have "\<not> si_id ` set steps \<subseteq> {''b''}" by auto
  with p(1) show ?thesis using accepted_plan_progresses [OF p(1), of "{''b''}"] by blast
qed

end
