(* ===== verification/CircuitBreaker.thy ===== *)
theory CircuitBreaker
  imports TaskBlocksProofs
begin

text \<open>
  \<open>src/src/agents/resumable-circuit-breaker.ts\<close>: the counters kept under
  \<open>tasks.progress.resumableCircuit\<close>, forward progress, the four ceilings, and the outcome of a paused
  slice and of a wake of a planned parent. \<open>legacy\<close> is what \<open>Date.parse\<close> makes of a text that is
  not in ISO format; a ceiling of the configuration is a finite number.
\<close>

section \<open>State\<close>

record last_progress =
  lp_done :: jsnum
  lp_cursor :: cursor

record circuit_state =
  cs_stallCount :: int
  cs_iterationCount :: int
  cs_startedAt :: string
  cs_totalCostUsd :: rat
  cs_lastProgress :: last_progress

datatype breach_reason = StallLimit | MaxIterations | MaxWallclock | MaxCost

record ceilings =
  cl_maxStalls :: rat
  cl_maxIterations :: rat
  cl_maxWallclockHours :: rat
  cl_maxCostUsd :: rat
  cl_maxPlanDepth :: rat
  cl_maxReplansPerSubtree :: rat
  cl_blockedStepHours :: rat
  cl_throughputDivergenceRatio :: rat

text \<open>What a breaker reads of an \<open>execution_paused\<close> payload.\<close>

record paused_slice =
  ps_done :: jsnum
  ps_cursor :: cursor
  ps_slice_cost :: "jsnum option"

type_synonym slice_result = "breach_reason \<times> circuit_state + circuit_state" \<comment> \<open>left: a breach\<close>

section \<open>Reading and writing the state\<close>

fun parseLastProgress :: "jsval \<Rightarrow> last_progress option" where
  "parseLastProgress (JObj raw) =
     (case (jfield raw ''done'', parseCursor (jfield raw ''cursor'')) of
        (JNum n, Some c) \<Rightarrow>
          if \<not> is_finite_num n \<or> num_lt n (Fin 0) then None else Some \<lparr>lp_done = n, lp_cursor = c\<rparr>
      | _ \<Rightarrow> None)"
| "parseLastProgress _ = None"

definition parse_cost :: "jsval \<Rightarrow> rat option" where
  "parse_cost raw = (case raw of JNum (Fin q) \<Rightarrow> if q < 0 then None else Some q | _ \<Rightarrow> None)"

definition readCircuitState :: "(string \<Rightarrow> jsnum) \<Rightarrow> (string \<times> jsval) list \<Rightarrow> circuit_state option" where
  "readCircuitState legacy progress =
     (case jfield progress ''resumableCircuit'' of
        JObj raw \<Rightarrow>
          (case (parseNonNegativeInt (jfield raw ''stallCount''), parseNonNegativeInt (jfield raw ''iterationCount''),
                 jfield raw ''startedAt'', parse_cost (jfield raw ''totalCostUsd''),
                 parseLastProgress (jfield raw ''lastProgress'')) of
             (Some s, Some i, JStr t, Some c, Some l) \<Rightarrow>
               if t = [] \<or> \<not> is_finite_num (date_parse legacy t) then None
               else Some \<lparr>cs_stallCount = s, cs_iterationCount = i, cs_startedAt = t,
                          cs_totalCostUsd = c, cs_lastProgress = l\<rparr>
           | _ \<Rightarrow> None)
      | _ \<Rightarrow> None)"

definition last_progress_json :: "last_progress \<Rightarrow> jsval" where
  "last_progress_json l = JObj [(''done'', JNum (lp_done l)), (''cursor'', cursor_json (lp_cursor l))]"

definition circuit_json :: "circuit_state \<Rightarrow> jsval" where
  "circuit_json s = JObj
     [(''stallCount'', jint (cs_stallCount s)), (''iterationCount'', jint (cs_iterationCount s)),
      (''startedAt'', JStr (cs_startedAt s)), (''totalCostUsd'', JNum (Fin (cs_totalCostUsd s))),
      (''lastProgress'', last_progress_json (cs_lastProgress s))]"

definition mergeCircuitState ::
    "(string \<times> jsval) list \<Rightarrow> circuit_state \<Rightarrow> (string \<times> jsval) list" where
  "mergeCircuitState progress s = AList.update ''resumableCircuit'' (circuit_json s) progress"

section \<open>Forward progress\<close>

text \<open>\<open>isDeepStrictEqual\<close>: the keys of an object in any order, everything else in place.\<close>

fun deep_strict_equal :: "jsval \<Rightarrow> jsval \<Rightarrow> bool"
  and deep_items :: "jsval list \<Rightarrow> jsval list \<Rightarrow> bool"
  and deep_members :: "(string \<times> jsval) list \<Rightarrow> (string \<times> jsval) list \<Rightarrow> bool" where
  "deep_strict_equal JUndef b = (b = JUndef)"
| "deep_strict_equal JNull b = (b = JNull)"
| "deep_strict_equal (JBool x) b = (b = JBool x)"
| "deep_strict_equal (JNum n) b = (b = JNum n)"
| "deep_strict_equal (JStr s) b = (b = JStr s)"
| "deep_strict_equal (JArr xs) b = (case b of JArr ys \<Rightarrow> deep_items xs ys | _ \<Rightarrow> False)"
| "deep_strict_equal (JObj fs) b =
     (case b of JObj gs \<Rightarrow> length fs = length gs \<and> deep_members fs gs | _ \<Rightarrow> False)"
| "deep_items [] ys = (ys = [])"
| "deep_items (x # xs) ys = (case ys of [] \<Rightarrow> False | y # ys' \<Rightarrow> deep_strict_equal x y \<and> deep_items xs ys')"
| "deep_members [] gs = True"
| "deep_members ((k, v) # fs) gs =
     (case map_of gs k of None \<Rightarrow> False | Some w \<Rightarrow> deep_strict_equal v w \<and> deep_members fs gs)"

fun cursorsEqual :: "cursor \<Rightarrow> cursor \<Rightarrow> bool" where
  "cursorsEqual CNull b = (b = CNull)"
| "cursorsEqual (CStr s) b = (b = CStr s)"
| "cursorsEqual (CObj fs) b = (case b of CObj gs \<Rightarrow> deep_strict_equal (JObj fs) (JObj gs) | _ \<Rightarrow> False)"

definition hasForwardProgress :: "last_progress \<Rightarrow> last_progress \<Rightarrow> bool" where
  "hasForwardProgress previous next =
     (if num_lt (lp_done previous) (lp_done next) then True
      else if num_lt (lp_done next) (lp_done previous) then False
      else \<not> cursorsEqual (lp_cursor previous) (lp_cursor next))"

section \<open>Ceilings\<close>

definition pick_ceiling :: "(string \<times> jsval) list \<Rightarrow> string \<Rightarrow> rat \<Rightarrow> rat" where
  "pick_ceiling errorBudget key dflt =
     (case jfield errorBudget key of JNum (Fin q) \<Rightarrow> if 0 < q then q else dflt | _ \<Rightarrow> dflt)"

definition resolveResumableCeilings :: "ceilings \<Rightarrow> (string \<times> jsval) list \<Rightarrow> ceilings" where
  "resolveResumableCeilings config errorBudget =
     \<lparr>cl_maxStalls = pick_ceiling errorBudget ''max_stalls'' (cl_maxStalls config),
      cl_maxIterations = pick_ceiling errorBudget ''max_iterations'' (cl_maxIterations config),
      cl_maxWallclockHours = pick_ceiling errorBudget ''max_wallclock_hours'' (cl_maxWallclockHours config),
      cl_maxCostUsd = pick_ceiling errorBudget ''max_cost_usd'' (cl_maxCostUsd config),
      cl_maxPlanDepth = pick_ceiling errorBudget ''max_plan_depth'' (cl_maxPlanDepth config),
      cl_maxReplansPerSubtree = pick_ceiling errorBudget ''max_replans_per_subtree'' (cl_maxReplansPerSubtree config),
      cl_blockedStepHours = pick_ceiling errorBudget ''blocked_step_hours'' (cl_blockedStepHours config),
      cl_throughputDivergenceRatio =
        pick_ceiling errorBudget ''throughput_divergence_ratio'' (cl_throughputDivergenceRatio config)\<rparr>"

definition elapsed_hours :: "(string \<Rightarrow> jsnum) \<Rightarrow> string \<Rightarrow> ms \<Rightarrow> rat option" where
  "elapsed_hours legacy startedAt now =
     (case date_parse legacy startedAt of Fin q \<Rightarrow> Some ((of_int now - q) / 3600000) | _ \<Rightarrow> None)"

definition detectBreach :: "(string \<Rightarrow> jsnum) \<Rightarrow> circuit_state \<Rightarrow> ceilings \<Rightarrow> ms \<Rightarrow> breach_reason option" where
  "detectBreach legacy s cl now =
     (if cl_maxStalls cl \<le> of_int (cs_stallCount s) then Some StallLimit
      else if cl_maxIterations cl \<le> of_int (cs_iterationCount s) then Some MaxIterations
      else if (case elapsed_hours legacy (cs_startedAt s) now of
                 Some h \<Rightarrow> cl_maxWallclockHours cl \<le> h | None \<Rightarrow> False) then Some MaxWallclock
      else if cl_maxCostUsd cl \<le> cs_totalCostUsd s then Some MaxCost
      else None)"

section \<open>Outcomes\<close>

text \<open>A cost that is not a finite non-negative number counts as zero.\<close>

definition usable_cost :: "jsnum \<Rightarrow> rat" where
  "usable_cost n = (case n of Fin q \<Rightarrow> if 0 \<le> q then q else 0 | _ \<Rightarrow> 0)"

definition fresh_circuit :: "ms \<Rightarrow> last_progress \<Rightarrow> circuit_state" where
  "fresh_circuit now next =
     \<lparr>cs_stallCount = 0, cs_iterationCount = 0, cs_startedAt = toISOString now, cs_totalCostUsd = 0,
      cs_lastProgress = next\<rparr>"

definition advance_circuit :: "circuit_state \<Rightarrow> rat \<Rightarrow> last_progress \<Rightarrow> bool \<Rightarrow> circuit_state" where
  "advance_circuit base cost next madeProgress =
     base\<lparr>cs_iterationCount := cs_iterationCount base + 1,
          cs_totalCostUsd := cs_totalCostUsd base + max 0 cost,
          cs_lastProgress := next,
          cs_stallCount := (if madeProgress then 0 else cs_stallCount base + 1)\<rparr>"

definition judge_slice :: "(string \<Rightarrow> jsnum) \<Rightarrow> circuit_state \<Rightarrow> ceilings \<Rightarrow> ms \<Rightarrow> slice_result" where
  "judge_slice legacy s cl now =
     (case detectBreach legacy s cl now of Some r \<Rightarrow> Inl (r, s) | None \<Rightarrow> Inr s)"

definition processPausedSliceOutcome ::
    "(string \<Rightarrow> jsnum) \<Rightarrow> paused_slice \<Rightarrow> circuit_state option \<Rightarrow> ceilings \<Rightarrow> jsnum option \<Rightarrow> ms \<Rightarrow> slice_result" where
  "processPausedSliceOutcome legacy paused circuit cl sliceCost now =
     (let next = \<lparr>lp_done = ps_done paused, lp_cursor = ps_cursor paused\<rparr>;
          raw = (case sliceCost of Some c \<Rightarrow> c
                 | None \<Rightarrow> (case ps_slice_cost paused of Some c \<Rightarrow> c | None \<Rightarrow> Fin 0));
          base = (case circuit of Some c \<Rightarrow> c | None \<Rightarrow> fresh_circuit now next);
          madeProgress = (case circuit of Some c \<Rightarrow> hasForwardProgress (cs_lastProgress c) next | None \<Rightarrow> True)
      in judge_slice legacy (advance_circuit base (usable_cost raw) next madeProgress) cl now)"

section \<open>The frontier of a plan\<close>

record frontier_snapshot =
  fs_rollupDone :: int
  fs_terminalChildCount :: int

definition PLAN_FRONTIER_TERMINAL_CHILD_STATUSES :: "string list" where
  "PLAN_FRONTIER_TERMINAL_CHILD_STATUSES = [''done'', ''cancelled'', ''failed'']"

definition step_terminal :: "(string \<times> string) list \<Rightarrow> step_descriptor \<Rightarrow> bool" where
  "step_terminal statuses step =
     (case st_taskId step of
        None \<Rightarrow> False
      | Some t \<Rightarrow> t \<noteq> [] \<and> (case map_of statuses t of None \<Rightarrow> False
                            | Some s \<Rightarrow> s \<in> set PLAN_FRONTIER_TERMINAL_CHILD_STATUSES))"

definition snapshotPlanFrontier :: "step_descriptor list \<Rightarrow> (string \<times> string) list \<Rightarrow> frontier_snapshot" where
  "snapshotPlanFrontier steps statuses =
     \<lparr>fs_rollupDone = fst (computePlanRollup steps statuses),
      fs_terminalChildCount = foldl (\<lambda>n step. if step_terminal statuses step then n + 1 else n) 0 steps\<rparr>"

definition hasFrontierProgress :: "jsnum \<times> jsnum \<Rightarrow> jsnum \<times> jsnum \<Rightarrow> bool" where
  "hasFrontierProgress previous next =
     (if num_lt (fst previous) (fst next) then True else num_lt (snd previous) (snd next))"

text \<open>
  \<open>Number(v)\<close> of a cursor entry. The breaker itself only writes numbers there; what the language
  reads from a text, an array or an object is the parameter \<open>num_of\<close>.
\<close>

fun js_Number :: "(jsval \<Rightarrow> jsnum) \<Rightarrow> jsval \<Rightarrow> jsnum" where
  "js_Number num_of JUndef = NaN"
| "js_Number num_of JNull = Fin 0"
| "js_Number num_of (JBool b) = Fin (if b then 1 else 0)"
| "js_Number num_of (JNum n) = n"
| "js_Number num_of v = num_of v"

definition snapshotToLastProgress :: "frontier_snapshot \<Rightarrow> last_progress" where
  "snapshotToLastProgress s =
     \<lparr>lp_done = num_int (fs_rollupDone s), lp_cursor = CObj [(''terminalChildren'', jint (fs_terminalChildCount s))]\<rparr>"

definition previous_frontier :: "(jsval \<Rightarrow> jsnum) \<Rightarrow> last_progress \<Rightarrow> jsnum \<times> jsnum" where
  "previous_frontier num_of l =
     (lp_done l,
      case lp_cursor l of
        CObj obj \<Rightarrow> if jhas obj ''terminalChildren'' then js_Number num_of (jfield obj ''terminalChildren'') else Fin 0
      | _ \<Rightarrow> Fin 0)"

definition processPlanFrontierWakeOutcome ::
    "(string \<Rightarrow> jsnum) \<Rightarrow> (jsval \<Rightarrow> jsnum) \<Rightarrow> frontier_snapshot \<Rightarrow> circuit_state option \<Rightarrow> ceilings
       \<Rightarrow> jsnum option \<Rightarrow> ms \<Rightarrow> slice_result" where
  "processPlanFrontierWakeOutcome legacy num_of snapshot circuit cl sliceCost now =
     (let next = snapshotToLastProgress snapshot;
          raw = (case sliceCost of Some c \<Rightarrow> c | None \<Rightarrow> Fin 0);
          base = (case circuit of Some c \<Rightarrow> c | None \<Rightarrow> fresh_circuit now next);
          madeProgress =
            (case circuit of
               Some c \<Rightarrow> hasFrontierProgress (previous_frontier num_of (cs_lastProgress c))
                           (num_int (fs_rollupDone snapshot), num_int (fs_terminalChildCount snapshot))
             | None \<Rightarrow> True)
      in judge_slice legacy (advance_circuit base (usable_cost raw) next madeProgress) cl now)"

end
