(* ===== verification/CircuitBreakerProofs.thy ===== *)
theory CircuitBreakerProofs
  imports CircuitBreaker
begin

text \<open>
  What the breaker guarantees over many slices: the counters survive the trip through the progress
  column, so a task that keeps pausing is stopped within its iteration ceiling; and the one hole, a
  negative done count, which the payload parser accepts and the state reader does not.
\<close>

section \<open>One slice after the other\<close>

text \<open>
  A healthy pause as the handler runs it: resolve the ceilings, read the counters from the progress
  object, judge the slice, store the counters. A run stops at the first breach.
\<close>

type_synonym pause = "ms \<times> paused_slice \<times> jsnum option"

definition pause_step ::
    "(string \<Rightarrow> jsnum) \<Rightarrow> ceilings \<Rightarrow> (string \<times> jsval) list \<Rightarrow> (string \<times> jsval) list \<Rightarrow> pause
       \<Rightarrow> breach_reason \<times> circuit_state + (string \<times> jsval) list" where
  "pause_step legacy config errorBudget progress p =
     (case processPausedSliceOutcome legacy (fst (snd p)) (readCircuitState legacy progress)
             (resolveResumableCeilings config errorBudget) (snd (snd p)) (fst p) of
        Inl b \<Rightarrow> Inl b
      | Inr s \<Rightarrow> Inr (stored (mergeCircuitState progress s)))"

fun pause_run ::
    "(string \<Rightarrow> jsnum) \<Rightarrow> ceilings \<Rightarrow> (string \<times> jsval) list \<Rightarrow> (string \<times> jsval) list \<Rightarrow> pause list
       \<Rightarrow> breach_reason \<times> circuit_state + (string \<times> jsval) list" where
  "pause_run legacy config eb progress [] = Inr progress"
| "pause_run legacy config eb progress (p # ps) =
     (case pause_step legacy config eb progress p of
        Inl b \<Rightarrow> Inl b
      | Inr progress' \<Rightarrow> pause_run legacy config eb progress' ps)"

section \<open>The counters survive\<close>

definition circuit_ok :: "(string \<Rightarrow> jsnum) \<Rightarrow> circuit_state \<Rightarrow> bool" where
  "circuit_ok legacy s \<longleftrightarrow> 0 \<le> cs_stallCount s \<and> 0 \<le> cs_iterationCount s
     \<and> cs_startedAt s \<noteq> [] \<and> is_finite_num (date_parse legacy (cs_startedAt s))
     \<and> 0 \<le> cs_totalCostUsd s
     \<and> is_finite_num (lp_done (cs_lastProgress s)) \<and> num_le (Fin 0) (lp_done (cs_lastProgress s))"

definition cursor_stored :: "cursor \<Rightarrow> cursor" where
  "cursor_stored c = (case c of CObj fs \<Rightarrow> CObj (roundtrip_members fs) | _ \<Rightarrow> c)"

definition circuit_stored :: "circuit_state \<Rightarrow> circuit_state" where
  "circuit_stored s = s\<lparr>cs_lastProgress := \<lparr>lp_done = lp_done (cs_lastProgress s),
     lp_cursor = cursor_stored (lp_cursor (cs_lastProgress s))\<rparr>\<rparr>"

lemma not_num_lt_zero: "is_finite_num n \<Longrightarrow> num_lt n (Fin 0) = (\<not> num_le (Fin 0) n)"
  by (cases n) auto

lemma parseLastProgress_Some:
  "parseLastProgress raw = Some l \<Longrightarrow> is_finite_num (lp_done l) \<and> num_le (Fin 0) (lp_done l)"
  by (cases raw) (auto simp: not_num_lt_zero split: jsval.splits option.splits if_splits)

lemma read_circuit_ok: "readCircuitState legacy progress = Some s \<Longrightarrow> circuit_ok legacy s"
  by (auto simp: readCircuitState_def circuit_ok_def parse_cost_def parseNonNegativeInt_Some
      dest: parseLastProgress_Some split: jsval.splits option.splits jsnum.splits if_splits)

lemma roundtrip_cursor: "json_roundtrip (cursor_json c) = Some (cursor_json (cursor_stored c))"
  by (cases c) (simp_all add: cursor_stored_def)

lemma roundtrip_circuit:
  "is_finite_num (lp_done (cs_lastProgress s)) \<Longrightarrow>
     json_roundtrip (circuit_json s) = Some (circuit_json (circuit_stored s))"
  by (cases "lp_done (cs_lastProgress s)")
     (simp_all add: circuit_json_def last_progress_json_def roundtrip_cursor circuit_stored_def)

lemma circuit_stored_ok: "circuit_ok legacy (circuit_stored s) = circuit_ok legacy s"
  by (simp add: circuit_ok_def circuit_stored_def)

lemma read_circuit_json:
  assumes "circuit_ok legacy s" "jfield progress ''resumableCircuit'' = circuit_json s"
  shows "readCircuitState legacy progress = Some s"
proof -
  have l: "parseLastProgress (last_progress_json (cs_lastProgress s)) = Some (cs_lastProgress s)"
    using assms(1) by (simp add: last_progress_json_def jfield_def circuit_ok_def not_num_lt_zero)
  have c: "parse_cost (JNum (Fin (cs_totalCostUsd s))) = Some (cs_totalCostUsd s)"
    using assms(1) by (simp add: parse_cost_def circuit_ok_def)
  show ?thesis
    using assms l c by (simp add: readCircuitState_def circuit_json_def jfield_def circuit_ok_def)
qed

lemma read_stored_circuit:
  assumes "circuit_ok legacy s" "owf progress"
  shows "readCircuitState legacy (stored (mergeCircuitState progress s)) = Some (circuit_stored s)"
proof (rule read_circuit_json)
  show "circuit_ok legacy (circuit_stored s)" using assms(1) by (simp add: circuit_stored_ok)
  have "owf (mergeCircuitState progress s)" using assms(2) by (simp add: mergeCircuitState_def)
  then show "jfield (stored (mergeCircuitState progress s)) ''resumableCircuit'' = circuit_json (circuit_stored s)"
    using assms(1) by (simp add: jfield_stored mergeCircuitState_def roundtrip_circuit circuit_ok_def)
qed

lemma roundtrip_members_keys: "k \<in> fst ` set (roundtrip_members ps) \<Longrightarrow> k \<in> fst ` set ps"
proof (induction ps)
  case (Cons p ps)
  then show ?case by (cases p; cases "json_roundtrip (snd p)") auto
qed simp

lemma owf_stored: "owf progress \<Longrightarrow> owf (stored progress)"
  unfolding stored_def owf_def
  by (induction progress) (auto dest!: roundtrip_members_keys [OF imageI] split: option.splits)

section \<open>One healthy slice\<close>

definition pause_ok :: "pause \<Rightarrow> bool" where
  "pause_ok p \<longleftrightarrow> four_digit_time (fst p) \<and> is_finite_num (ps_done (fst (snd p)))
     \<and> num_le (Fin 0) (ps_done (fst (snd p)))"

lemma toISOString_nonempty: "toISOString t \<noteq> []"
  by (simp add: toISOString_def Let_def)

lemma usable_cost_nonneg: "0 \<le> usable_cost n"
  by (cases n) (auto simp: usable_cost_def)

lemma judge_slice_Inr: "judge_slice legacy s cl now = Inr s' \<longleftrightarrow> s' = s \<and> detectBreach legacy s cl now = None"
  by (auto simp: judge_slice_def split: option.splits)

lemma paused_outcome_Inr:
  assumes "processPausedSliceOutcome legacy ps circuit cl cost now = Inr s"
    and "case circuit of None \<Rightarrow> True | Some c \<Rightarrow> circuit_ok legacy c"
    and "four_digit_time now" "is_finite_num (ps_done ps)" "num_le (Fin 0) (ps_done ps)"
  shows "circuit_ok legacy s
    \<and> cs_iterationCount s = (case circuit of None \<Rightarrow> 0 | Some c \<Rightarrow> cs_iterationCount c) + 1
    \<and> of_int (cs_iterationCount s) < cl_maxIterations cl"
proof -
  have "detectBreach legacy s cl now = None"
    using assms(1) by (auto simp: processPausedSliceOutcome_def Let_def judge_slice_Inr)
  then have m: "of_int (cs_iterationCount s) < cl_maxIterations cl"
    by (simp add: detectBreach_def not_le split: if_splits)
  show ?thesis
    using assms m
    by (cases circuit)
       (auto simp: processPausedSliceOutcome_def Let_def judge_slice_Inr advance_circuit_def fresh_circuit_def
          circuit_ok_def toISOString_nonempty date_parse_toISOString usable_cost_nonneg add_nonneg_nonneg)
qed

definition slices_counted :: "(string \<Rightarrow> jsnum) \<Rightarrow> (string \<times> jsval) list \<Rightarrow> int" where
  "slices_counted legacy progress =
     (case readCircuitState legacy progress of None \<Rightarrow> 0 | Some c \<Rightarrow> cs_iterationCount c)"

lemma slices_counted_nonneg: "0 \<le> slices_counted legacy progress"
  by (auto simp: slices_counted_def circuit_ok_def dest: read_circuit_ok split: option.splits)

lemma pause_step_counts:
  assumes "pause_step legacy config eb progress p = Inr progress'" "pause_ok p" "owf progress"
  shows "owf progress' \<and> slices_counted legacy progress' = slices_counted legacy progress + 1
    \<and> of_int (slices_counted legacy progress') < cl_maxIterations (resolveResumableCeilings config eb)"
proof -
  obtain s where o: "processPausedSliceOutcome legacy (fst (snd p)) (readCircuitState legacy progress)
      (resolveResumableCeilings config eb) (snd (snd p)) (fst p) = Inr s"
    and p': "progress' = stored (mergeCircuitState progress s)"
    using assms(1) by (auto simp: pause_step_def split: sum.splits)
  have c: "case readCircuitState legacy progress of None \<Rightarrow> True | Some c \<Rightarrow> circuit_ok legacy c"
    by (auto dest: read_circuit_ok split: option.splits)
  note s = paused_outcome_Inr [OF o c] and ok = assms(2) [unfolded pause_ok_def]
  then have "readCircuitState legacy progress' = Some (circuit_stored s)"
    unfolding p' using assms(3) by (intro read_stored_circuit) auto
  moreover have "owf progress'" unfolding p' by (intro owf_stored) (simp add: mergeCircuitState_def assms(3))
  ultimately show ?thesis
    using s ok by (simp add: slices_counted_def circuit_stored_def)
qed

lemma pause_run_counts:
  assumes "pause_run legacy config eb progress ps = Inr progress'" "\<forall>p\<in>set ps. pause_ok p" "owf progress"
  shows "slices_counted legacy progress' = slices_counted legacy progress + int (length ps)
    \<and> (ps \<noteq> [] \<longrightarrow> of_int (slices_counted legacy progress') < cl_maxIterations (resolveResumableCeilings config eb))"
  using assms
proof (induction ps arbitrary: progress)
  case (Cons p ps)
  obtain q where q: "pause_step legacy config eb progress p = Inr q" "pause_run legacy config eb q ps = Inr progress'"
    using Cons.prems(1) by (auto split: sum.splits)
  note st = pause_step_counts [OF q(1)] Cons.prems
  then have "owf q" "slices_counted legacy q = slices_counted legacy progress + 1"
    "of_int (slices_counted legacy q) < cl_maxIterations (resolveResumableCeilings config eb)" by auto
  moreover note Cons.IH [OF q(2)]
  ultimately show ?case using Cons.prems(2) q(2) by (cases ps) auto
qed simp

section \<open>Properties\<close>


definition demo_ceilings :: ceilings where
  "demo_ceilings = \<lparr>cl_maxStalls = 3, cl_maxIterations = 4, cl_maxWallclockHours = 24, cl_maxCostUsd = 10,
     cl_maxPlanDepth = 3, cl_maxReplansPerSubtree = 5, cl_blockedStepHours = 48, cl_throughputDivergenceRatio = 1/2\<rparr>"

definition demo_pause :: "int \<Rightarrow> pause" where
  "demo_pause n = (1700000000000, \<lparr>ps_done = num_int n, ps_cursor = CStr ''p'', ps_slice_cost = None\<rparr>, Some (Fin (1/2)))"


text \<open>
  A negative done count switches the breaker off. The payload parser takes any number; the state
  that records it is refused by the next read, so every slice counts as the first one. Whatever the
  number of slices, none of them breaches, provided one slice alone would not.
\<close>

theorem negative_done_never_stops:
  assumes "owf progress" "readCircuitState legacy progress = None"
    and "\<forall>p\<in>set pauses. \<exists>q. ps_done (fst (snd p)) = Fin q \<and> q < 0"
    and "\<forall>p\<in>set pauses. four_digit_time (fst p) \<and> snd (snd p) = Some (Fin 0)"
    and "0 < cl_maxStalls (resolveResumableCeilings config eb)" "1 < cl_maxIterations (resolveResumableCeilings config eb)"
    and "0 < cl_maxWallclockHours (resolveResumableCeilings config eb)" "0 < cl_maxCostUsd (resolveResumableCeilings config eb)"
  shows "\<exists>progress'. pause_run legacy config eb progress pauses = Inr progress'"
  using assms(1-4)
proof (induction pauses arbitrary: progress)
  case (Cons p ps)
  obtain q where q: "ps_done (fst (snd p)) = Fin q" "q < 0" using Cons.prems(3) by auto
  let ?s = "advance_circuit (fresh_circuit (fst p) \<lparr>lp_done = Fin q, lp_cursor = ps_cursor (fst (snd p))\<rparr>) 0
              \<lparr>lp_done = Fin q, lp_cursor = ps_cursor (fst (snd p))\<rparr> True"
  have "elapsed_hours legacy (toISOString (fst p)) (fst p) = Some 0"
    using Cons.prems(4) by (simp add: elapsed_hours_def date_parse_toISOString)
  then have "detectBreach legacy ?s (resolveResumableCeilings config eb) (fst p) = None"
    using assms(5-8) by (simp add: detectBreach_def advance_circuit_def fresh_circuit_def)
  then have st: "pause_step legacy config eb progress p = Inr (stored (mergeCircuitState progress ?s))"
    using Cons.prems(2,4) q
    by (simp add: pause_step_def processPausedSliceOutcome_def Let_def judge_slice_def usable_cost_def)
  let ?p' = "stored (mergeCircuitState progress ?s)"
  have o: "owf (mergeCircuitState progress ?s)" using Cons.prems(1) by (simp add: mergeCircuitState_def)
  have "jfield ?p' ''resumableCircuit'' = circuit_json (circuit_stored ?s)"
    unfolding jfield_stored [OF o]
    by (simp add: mergeCircuitState_def roundtrip_circuit advance_circuit_def)
  then have "readCircuitState legacy ?p' = None"
    using q by (simp add: readCircuitState_def circuit_json_def last_progress_json_def jfield_def
        circuit_stored_def advance_circuit_def split: option.splits)
  with Cons.IH [of ?p'] o Cons.prems st owf_stored [OF o] show ?case by simp
qed simp

theorem negative_done_never_stops_witness:
  "\<exists>progress'. pause_run (\<lambda>_. NaN) demo_ceilings [] [(''notes'', JArr [])]
      (replicate 1000 (1700000000000, \<lparr>ps_done = num_int (- 1), ps_cursor = CNull, ps_slice_cost = None\<rparr>, Some (Fin 0)))
      = Inr progress'"
proof (rule negative_done_never_stops)
  have f: "four_digit_time 1700000000000" by code_simp
  then show "\<forall>p\<in>set (replicate 1000 (1700000000000, \<lparr>ps_done = num_int (- 1), ps_cursor = CNull, ps_slice_cost = None\<rparr>,
      Some (Fin 0))). four_digit_time (fst p) \<and> snd (snd p) = Some (Fin 0)" by (simp add: set_replicate_conv_if)
qed (simp_all add: owf_def readCircuitState_def jfield_def set_replicate_conv_if resolveResumableCeilings_def
      pick_ceiling_def demo_ceilings_def)

section \<open>The frontier\<close>

text \<open>Rollup and terminal count read the same three statuses, so the snapshot carries one number twice.\<close>

lemma snapshot_counts_agree:
  "fs_terminalChildCount (snapshotPlanFrontier steps statuses) = fs_rollupDone (snapshotPlanFrontier steps statuses)"
proof -
  have "step_terminal statuses = step_resolved statuses"
    unfolding fun_eq_iff step_terminal_def step_resolved_def
      PLAN_FRONTIER_TERMINAL_CHILD_STATUSES_def RESOLVED_CHILD_STATUSES_def by (rule allI) (rule refl)
  then show ?thesis by (simp add: snapshotPlanFrontier_def computePlanRollup_def)
qed

end
