(* ===== verification/TaskRepo.thy ===== *)
theory TaskRepo
  imports TaskRows PlanGraph CircuitBreaker
begin

text \<open>
  The task store: \<open>src/src/db/task-repo.ts\<close> and \<open>enqueueTaskWake\<close> of
  \<open>src/src/scheduler/scheduler-service.ts\<close>, with every SQL statement as an update of two tables, the
  tasks by id and the wake jobs in the order of their creation. One call runs alone: the branches that
  answer a concurrent writer (a row that turned terminal between two statements) are not reached.
  The constraints of the schema are part of it: foreign keys of parent and blocker, and the partial
  unique index of migration 067, one pending or running job per task. A call returns the store next to
  its result, because some effects stay when it throws. Published events are a list. The
  time zone of a job stands with its cron expression, the only thing that reads it. The link to the
  contact a task waits on is not checked here.
\<close>

section \<open>Tables\<close>

datatype job_status = JPending | JRunning | JCompleted | JFailed | JSuspended | JPaused | JCancelled

record wake_job =
  j_id :: nat
  j_taskId :: "string option"
  j_payload :: jobj
  j_status :: job_status
  j_agentId :: string
  j_sourceAgentId :: string
  j_cron :: "(string \<times> string) option" \<comment> \<open>expression and time zone\<close>
  j_runAt :: "ms option"
  j_nextRunAt :: "ms option"
  j_lastRunAt :: "ms option"
  j_runStartedAt :: "ms option"
  j_expected :: "int option" \<comment> \<open>\<open>expected_duration_seconds\<close>\<close>
  j_createdBy :: string
  j_originator :: "task_originator option"
  j_failures :: nat
  j_lastError :: "string option"
  j_lastOutcome :: "string option"
  j_lastSummary :: "string option"
  j_lastContext :: "jsval option"
  j_deferredAt :: "ms option"

text \<open>\<open>task_payload->>'type' = 'task-wake'\<close>, and \<open>jsonb_typeof(task_payload->'delegationRetry') = 'object'\<close>.\<close>

definition j_taskWake :: "wake_job \<Rightarrow> bool" where
  "j_taskWake j \<longleftrightarrow> jfield (j_payload j) ''type'' = JStr ''task-wake''"

definition j_retry :: "wake_job \<Rightarrow> bool" where
  "j_retry j \<longleftrightarrow> plain_object (jfield (j_payload j) ''delegationRetry'')"

text \<open>The check \<open>cron_xor_run_at\<close>.\<close>

definition schedule_ok :: "wake_job \<Rightarrow> bool" where
  "schedule_ok j \<longleftrightarrow> (j_cron j = None) = (j_runAt j \<noteq> None)"

datatype task_event =
    TaskCreated string
  | TaskUpdated string string "string option" "string option" \<comment> \<open>task, previous and new status, note\<close>
  | TaskCompleted string "string option"
  | ScheduleCreated nat

record task_store =
  s_tasks :: "(string \<times> task_row) list"
  s_jobs :: "wake_job list"
  s_nextJob :: nat
  s_events :: "task_event list"

datatype repo_error =
    UniqueViolation
  | ForeignKeyViolation
  | DuplicateKey
  | TaskTerminalState string \<comment> \<open>\<open>TaskTerminalStateError\<close>\<close>
  | AlreadyTerminal string
  | ReachedTerminal string
  | NotDone string
  | CheckViolation
  | EndlessRecursion \<comment> \<open>a recursive query on cyclic parents\<close>

type_synonym 'a repo_result = "task_store \<times> (repo_error + 'a)"

definition TERMINAL_STATUSES :: "string list" where
  "TERMINAL_STATUSES = [''done'', ''cancelled'']"

definition RECONCILABLE_CHILD_STATUSES :: "string list" where
  "RECONCILABLE_CHILD_STATUSES = [''open'', ''in_progress'', ''waiting'', ''blocked'']"

text \<open>The checks of the columns status, owner and source.\<close>

definition row_ok :: "task_row \<Rightarrow> bool" where
  "row_ok t \<longleftrightarrow>
     t_status t \<in> {''active'', ''pending'', ''paused'', ''completed'', ''failed'', ''open'', ''in_progress'', ''blocked'',
                   ''waiting'', ''done'', ''cancelled''}
     \<and> t_owner t \<in> {''curia'', ''ceo'', ''external''} \<and> t_source t \<in> {''ceo'', ''agent'', ''scheduler'', ''coordinator''}"

definition getTask :: "task_store \<Rightarrow> string \<Rightarrow> task_row option" where
  "getTask s i = map_of (s_tasks s) i"

definition update_row :: "string \<Rightarrow> (task_row \<Rightarrow> task_row) \<Rightarrow> task_store \<Rightarrow> task_store" where
  "update_row i f s = s\<lparr>s_tasks := map (\<lambda>(k, t). if k = i then (k, f t) else (k, t)) (s_tasks s)\<rparr>"

definition publish_event :: "task_event \<Rightarrow> task_store \<Rightarrow> task_store" where
  "publish_event e s = s\<lparr>s_events := s_events s @ [e]\<rparr>"

text \<open>\<open>progress || '{"notes": ...}'\<close>: one more entry at the end of the notes.\<close>

definition note_entry :: "ms \<Rightarrow> string \<Rightarrow> jsval" where
  "note_entry now n = JObj [(''at'', JStr (toISOString now)), (''note'', JStr n)]"

definition append_note :: "jsval \<Rightarrow> jobj \<Rightarrow> jobj" where
  "append_note entry progress =
     AList.update ''notes''
       (JArr ((case jfield progress ''notes'' of JUndef \<Rightarrow> [] | JArr xs \<Rightarrow> xs | v \<Rightarrow> [v]) @ [entry])) progress"

definition buildInitialTaskProgress :: "ms \<Rightarrow> string option \<Rightarrow> jsval option \<Rightarrow> jobj" where
  "buildInitialTaskProgress now note escalation =
     (''notes'', JArr (case note of Some n \<Rightarrow> if n = [] then [] else [note_entry now n] | None \<Rightarrow> []))
     # (case escalation of None \<Rightarrow> [] | Some e \<Rightarrow> [(''escalation'', e)])"

section \<open>Jobs\<close>

definition active_job :: "wake_job \<Rightarrow> bool" where
  "active_job j \<longleftrightarrow> j_status j = JPending \<or> j_status j = JRunning"

definition taskHasPendingWake :: "task_store \<Rightarrow> string \<Rightarrow> bool" where
  "taskHasPendingWake s i = list_ex (\<lambda>j. j_taskId j = Some i \<and> active_job j) (s_jobs s)"

definition terminal_job :: "wake_job \<Rightarrow> bool" where
  "terminal_job j \<longleftrightarrow> j_status j \<in> {JCompleted, JFailed, JSuspended, JCancelled}"

text \<open>\<open>ORDER BY created_at DESC LIMIT 1\<close>.\<close>

definition newest_job :: "(wake_job \<Rightarrow> bool) \<Rightarrow> task_store \<Rightarrow> wake_job option" where
  "newest_job P s = find P (rev (s_jobs s))"

definition update_jobs :: "(wake_job \<Rightarrow> bool) \<Rightarrow> (wake_job \<Rightarrow> wake_job) \<Rightarrow> task_store \<Rightarrow> task_store" where
  "update_jobs P f s = s\<lparr>s_jobs := map (\<lambda>j. if P j then f j else j) (s_jobs s)\<rparr>"

text \<open>
  The partial unique index: turning an inactive row active, or inserting an active one. An update that
  gives a row of a cron schedule a time of its own breaks the check.
\<close>

definition checked :: "(wake_job \<Rightarrow> bool) \<Rightarrow> (wake_job \<Rightarrow> wake_job) \<Rightarrow> task_store \<Rightarrow> bool" where
  "checked P f s = list_all (\<lambda>j. P j \<longrightarrow> schedule_ok (f j)) (s_jobs s)"

definition arm_job :: "nat \<Rightarrow> (wake_job \<Rightarrow> wake_job) \<Rightarrow> string \<Rightarrow> task_store \<Rightarrow> repo_error + task_store" where
  "arm_job jid f i s =
     (if \<not> checked (\<lambda>j. j_id j = jid) f s then Inl CheckViolation
      else if taskHasPendingWake s i then Inl UniqueViolation
      else Inr (update_jobs (\<lambda>j. j_id j = jid) f s))"

text \<open>A new one-shot row with the defaults of the table.\<close>

definition one_shot :: "string \<Rightarrow> jobj \<Rightarrow> string \<Rightarrow> ms \<Rightarrow> string \<Rightarrow> task_originator option \<Rightarrow> nat \<Rightarrow> wake_job" where
  "one_shot i payload agentId wake createdBy og n =
     \<lparr>j_id = n, j_taskId = Some i, j_payload = payload, j_status = JPending, j_agentId = agentId,
      j_sourceAgentId = [], j_cron = None, j_runAt = Some wake, j_nextRunAt = Some wake, j_lastRunAt = None,
      j_runStartedAt = None, j_expected = None, j_createdBy = createdBy, j_originator = og, j_failures = 0,
      j_lastError = None, j_lastOutcome = None, j_lastSummary = None, j_lastContext = None, j_deferredAt = None\<rparr>"

lemma one_shot_simps [simp]:
  "j_id (one_shot i p a w c og n) = n" "j_taskId (one_shot i p a w c og n) = Some i"
  "j_status (one_shot i p a w c og n) = JPending" "j_payload (one_shot i p a w c og n) = p"
  "j_cron (one_shot i p a w c og n) = None" "j_runAt (one_shot i p a w c og n) = Some w"
  by (simp_all add: one_shot_def)

definition default_wake :: jobj where
  "default_wake = [(''type'', JStr ''task-wake'')]"

definition insert_job :: "(nat \<Rightarrow> wake_job) \<Rightarrow> string \<Rightarrow> task_store \<Rightarrow> repo_error + task_store \<times> nat" where
  "insert_job mk i s =
     (if getTask s i = None then Inl ForeignKeyViolation
      else if taskHasPendingWake s i then Inl UniqueViolation
      else Inr (s\<lparr>s_jobs := s_jobs s @ [mk (s_nextJob s)], s_nextJob := s_nextJob s + 1\<rparr>, s_nextJob s))"

definition cancellable_job :: "wake_job \<Rightarrow> bool" where
  "cancellable_job j \<longleftrightarrow> j_status j \<in> {JPending, JRunning, JSuspended, JPaused}"

text \<open>The two cancellations: one leaves a running wake to finish, the other does not.\<close>

definition cancel_wakes :: "string \<Rightarrow> task_store \<Rightarrow> task_store" where
  "cancel_wakes i = update_jobs (\<lambda>j. j_taskId j = Some i \<and> cancellable_job j)
     (\<lambda>j. j\<lparr>j_status := (if j_status j = JRunning then JRunning else JCancelled), j_deferredAt := None\<rparr>)"

definition kill_wakes :: "string list \<Rightarrow> task_store \<Rightarrow> task_store" where
  "kill_wakes is = update_jobs (\<lambda>j. (case j_taskId j of None \<Rightarrow> False | Some i \<Rightarrow> i \<in> set is) \<and> cancellable_job j)
     (\<lambda>j. j\<lparr>j_status := JCancelled, j_deferredAt := None\<rparr>)"

definition cancelWakeUpJobs :: "string \<Rightarrow> task_store \<Rightarrow> task_store" where
  "cancelWakeUpJobs i s = cancel_wakes i s"

definition keeps_failures :: "wake_job \<Rightarrow> bool" where
  "keeps_failures j \<longleftrightarrow> j_status j = JFailed \<or> j_status j = JSuspended"

definition enqueueTaskWake ::
    "string \<Rightarrow> string \<Rightarrow> ms \<Rightarrow> string \<Rightarrow> task_originator option \<Rightarrow> bool \<Rightarrow> ms \<Rightarrow> task_store \<Rightarrow> nat repo_result" where
  "enqueueTaskWake taskId agentId runAt createdBy originator derived now s =
     (let touch = update_row taskId (\<lambda>t. t\<lparr>t_updatedAt := toISOString now\<rparr>);
          payload = [(''type'', JStr ''task-wake''), (''task_id'', JStr taskId),
                     (''standing'', JObj [(''derived'', JBool derived)])]
      in case newest_job (\<lambda>j. j_taskId j = Some taskId \<and> j_taskWake j \<and> terminal_job j) s of
           Some old \<Rightarrow>
             (case arm_job (j_id old)
                     (\<lambda>j. j\<lparr>j_status := JPending, j_runAt := Some runAt, j_nextRunAt := Some runAt,
                            j_runStartedAt := None, j_payload := payload,
                            j_failures := (if keeps_failures j then j_failures j else 0),
                            j_lastError := (if keeps_failures j then j_lastError j else None),
                            j_lastOutcome := (if keeps_failures j \<or> j_status j = JCompleted then j_lastOutcome j else None),
                            j_agentId := agentId, j_createdBy := createdBy, j_originator := originator\<rparr>) taskId s of
                Inl e \<Rightarrow> (s, Inl e)
              | Inr s' \<Rightarrow> (touch s', Inr (j_id old)))
         | None \<Rightarrow>
             (case insert_job (one_shot taskId payload agentId runAt createdBy originator) taskId s of
                Inl e \<Rightarrow> (s, Inl e)
              | Inr (s', n) \<Rightarrow> (touch s', Inr n)))"

section \<open>Descendants\<close>

definition children_of :: "task_store \<Rightarrow> string list \<Rightarrow> string list" where
  "children_of s is =
     map fst (filter (\<lambda>(k, t). case t_parentTaskId t of None \<Rightarrow> False | Some p \<Rightarrow> p \<in> set is) (s_tasks s))"

text \<open>
  The recursive query, level by level; it ends when a level is empty. There cannot be more non-empty
  levels than tasks unless parents form a cycle, and then the query does not end: \<open>None\<close>.
\<close>

fun descendant_levels :: "nat \<Rightarrow> task_store \<Rightarrow> string list \<Rightarrow> string list option" where
  "descendant_levels 0 s level = (if level = [] then Some [] else None)"
| "descendant_levels (Suc n) s level =
     (if level = [] then Some []
      else map_option (\<lambda>rest. level @ rest) (descendant_levels n s (children_of s level)))"

definition descendants :: "task_store \<Rightarrow> string \<Rightarrow> string list option" where
  "descendants s i = descendant_levels (length (s_tasks s)) s (children_of s [i])"

definition to_reconcile :: "string list \<Rightarrow> task_store \<Rightarrow> (string \<times> string) list" where
  "to_reconcile ds s =
     map (\<lambda>(k, t). (k, t_status t))
       (filter (\<lambda>(k, t). k \<in> set ds \<and> t_status t \<in> set RECONCILABLE_CHILD_STATUSES) (s_tasks s))"

definition cancel_row :: "ms \<Rightarrow> string \<Rightarrow> string list \<Rightarrow> string \<times> task_row \<Rightarrow> string \<times> task_row" where
  "cancel_row now reason ids = (\<lambda>(k, t).
     if k \<in> set ids
     then (k, t\<lparr>t_status := ''cancelled'', t_progress := append_note (note_entry now reason) (t_progress t),
                t_updatedAt := toISOString now\<rparr>)
     else (k, t))"

definition runReconcileChildrenQuery ::
    "ms \<Rightarrow> string \<Rightarrow> string \<Rightarrow> task_store \<Rightarrow> repo_error + task_store \<times> (string \<times> string) list" where
  "runReconcileChildrenQuery now taskId reason s =
     (case descendants s taskId of
        None \<Rightarrow> Inl EndlessRecursion
      | Some ds \<Rightarrow>
          (let rows = to_reconcile ds s; ids = map fst rows
           in Inr (kill_wakes ids (s\<lparr>s_tasks := map (cancel_row now reason ids) (s_tasks s)\<rparr>), rows)))"

definition publishReconcileChildEvents :: "(string \<times> string) list \<Rightarrow> string \<Rightarrow> task_store \<Rightarrow> task_store" where
  "publishReconcileChildEvents rows reason s =
     foldl (\<lambda>s (i, prev). publish_event (TaskUpdated i prev (Some ''cancelled'') (Some reason)) s) s rows"

definition reconcileChildren :: "ms \<Rightarrow> string \<Rightarrow> string \<Rightarrow> task_store \<Rightarrow> string list repo_result" where
  "reconcileChildren now taskId reason s =
     (case runReconcileChildrenQuery now taskId reason s of
        Inl e \<Rightarrow> (s, Inl e)
      | Inr (s', rows) \<Rightarrow> (publishReconcileChildEvents rows reason s', Inr (map fst rows)))"

section \<open>Creating and closing tasks\<close>

record create_params =
  c_agentId :: string
  c_title :: string
  c_description :: "string option"
  c_owner :: string
  c_parentTaskId :: "string option"
  c_parentTask :: "task_row option"
  c_blockedByTaskId :: "string option"
  c_priority :: int
  c_dueAt :: "ms option"
  c_tags :: "string list"
  c_waitingOnContactId :: "string option"
  c_waitingOnText :: "string option"
  c_intentAnchor :: "string option"
  c_source :: string
  c_sourceAgentId :: "string option"
  c_createdBy :: "string option"
  c_wakeAt :: "ms option"
  c_wakePayload :: "jobj option"
  c_originator :: "task_originator option"
  c_resumable :: bool
  c_progressNote :: "string option"
  c_escalation :: "jsval option"

definition resolved_originator :: "task_store \<Rightarrow> create_params \<Rightarrow> task_originator option" where
  "resolved_originator s p =
     (case truthy_id (c_parentTaskId p) of
        None \<Rightarrow> c_originator p
      | Some pid \<Rightarrow>
          (let parent = (case c_parentTask p of
                           Some t \<Rightarrow> if t_id t = pid then Some t else getTask s pid
                         | None \<Rightarrow> getTask s pid)
           in capOriginatorToParent (c_originator p) (Option.bind parent t_originator)))"

definition new_task_row :: "ms \<Rightarrow> string \<Rightarrow> task_originator option \<Rightarrow> create_params \<Rightarrow> task_row" where
  "new_task_row now i og p =
     \<lparr>t_id = i, t_agentId = c_agentId p,
      t_intentAnchor = (case c_intentAnchor p of Some a \<Rightarrow> a | None \<Rightarrow> c_title p),
      t_status = ''open'', t_progress = buildInitialTaskProgress now (c_progressNote p) (c_escalation p),
      t_errorBudget = (if c_resumable p then [(''resumable'', JBool True)] else []),
      t_updatedAt = toISOString now, t_title = c_title p, t_description = c_description p, t_owner = c_owner p,
      t_waitingOnContactId = c_waitingOnContactId p, t_waitingOnText = c_waitingOnText p,
      t_parentTaskId = c_parentTaskId p, t_blockedByTaskId = c_blockedByTaskId p, t_priority = c_priority p,
      t_dueAt = c_dueAt p, t_source = c_source p, t_sourceAgentId = c_sourceAgentId p,
      t_createdBy = (case c_createdBy p of Some b \<Rightarrow> b | None \<Rightarrow> c_agentId p), t_tags = c_tags p,
      t_originator = og\<rparr>"

definition fk_ok :: "task_store \<Rightarrow> string option \<Rightarrow> bool" where
  "fk_ok s x = (case x of None \<Rightarrow> True | Some i \<Rightarrow> getTask s i \<noteq> None)"

text \<open>The id is the one the database generates.\<close>

definition createTask :: "ms \<Rightarrow> string \<Rightarrow> create_params \<Rightarrow> task_store \<Rightarrow> task_row repo_result" where
  "createTask now newId p s =
     (if getTask s newId \<noteq> None then (s, Inl DuplicateKey)
      else if \<not> row_ok (new_task_row now newId (resolved_originator s p) p) then (s, Inl CheckViolation)
      else if \<not> fk_ok s (c_parentTaskId p) \<or> \<not> fk_ok s (c_blockedByTaskId p) then (s, Inl ForeignKeyViolation)
      else
        (let og = resolved_originator s p;
             row = new_task_row now newId og p;
             s1 = s\<lparr>s_tasks := s_tasks s @ [(newId, row)]\<rparr>;
             s2 = (case c_wakeAt p of
                     None \<Rightarrow> Inr s1
                   | Some wake \<Rightarrow>
                       map_sum id fst (insert_job
                         (one_shot newId (case c_wakePayload p of Some w \<Rightarrow> w | None \<Rightarrow> default_wake)
                            (c_agentId p) wake (t_createdBy row) og) newId s1))
         in case s2 of
              Inl e \<Rightarrow> (s, Inl e)
            | Inr s3 \<Rightarrow> (publish_event (TaskCreated newId) s3, Inr row)))"

text \<open>The guarded update all closing paths share: nothing happens to a done or cancelled row.\<close>

definition guarded_update ::
    "string list \<Rightarrow> string \<Rightarrow> (task_row \<Rightarrow> task_row) \<Rightarrow> task_store \<Rightarrow> task_store \<times> task_row option" where
  "guarded_update barred i f s =
     (case getTask s i of
        None \<Rightarrow> (s, None)
      | Some t \<Rightarrow> if t_status t \<in> set barred then (s, None) else (update_row i f s, Some (f t)))"

definition completeTask :: "ms \<Rightarrow> string \<Rightarrow> string option \<Rightarrow> task_store \<Rightarrow> task_row option repo_result" where
  "completeTask now i note s =
     (case getTask s i of
        None \<Rightarrow> (s, Inr None)
      | Some current \<Rightarrow>
          if t_status current \<in> set TERMINAL_STATUSES then (s, Inl (AlreadyTerminal (t_status current)))
          else
            (let f = (\<lambda>t. t\<lparr>t_status := ''done'',
                            t_progress := (case truthy_id note of
                                             None \<Rightarrow> t_progress t
                                           | Some n \<Rightarrow> append_note (note_entry now n) (t_progress t)),
                            t_updatedAt := toISOString now\<rparr>);
                 s1 = cancel_wakes i (update_row i f s);
                 reason = ''reconciled: parent '' @ i @ '' done''
             in case runReconcileChildrenQuery now i reason s1 of
                  Inl e \<Rightarrow> (s, Inl e)
                | Inr (s2, rows) \<Rightarrow>
                    (publishReconcileChildEvents rows reason (publish_event (TaskCompleted i note) s2),
                     Inr (Some (f current)))))"

definition reopenTask :: "ms \<Rightarrow> string \<Rightarrow> string option \<Rightarrow> task_store \<Rightarrow> task_row option repo_result" where
  "reopenTask now i note s =
     (case getTask s i of
        None \<Rightarrow> (s, Inr None)
      | Some current \<Rightarrow>
          if t_status current \<noteq> ''done'' then (s, Inl (NotDone (t_status current)))
          else
            (let n = (case note of Some x \<Rightarrow> x | None \<Rightarrow> ''Reopened (undo auto-complete from sent mail)'');
                 f = (\<lambda>t. t\<lparr>t_status := ''open'', t_progress := append_note (note_entry now n) (t_progress t),
                            t_updatedAt := toISOString now\<rparr>);
                 s1 = update_row i f s;
                 revived = (case newest_job (\<lambda>j. j_taskId j = Some i \<and> j_taskWake j \<and> j_status j = JCancelled) s1 of
                              None \<Rightarrow> Inr s1
                            | Some old \<Rightarrow>
                                arm_job (j_id old) (\<lambda>j. j\<lparr>j_status := JPending, j_runStartedAt := None, j_failures := 0, j_lastError := None,
                                                            j_lastOutcome := None\<rparr>) i s1)
             in case revived of
                  Inl e \<Rightarrow> (s, Inl e)
                | Inr s2 \<Rightarrow> (publish_event (TaskUpdated i ''done'' (Some ''open'') (Some n)) s2, Inr (Some (f current)))))"

section \<open>Updating\<close>

record update_params =
  u_status :: "string option"
  u_priority :: "int option"
  u_owner :: "string option"
  u_dueAt :: "ms option option" \<comment> \<open>outer \<open>None\<close>: not given\<close>
  u_tags :: "string list option"
  u_progressNote :: "string option"
  u_blockedByTaskId :: "string option option"
  u_wakeAt :: "ms option"

definition given :: "'a option \<Rightarrow> 'a \<Rightarrow> 'a" where
  "given x old = (case x of Some v \<Rightarrow> v | None \<Rightarrow> old)"

text \<open>The \<open>SET\<close> clauses.\<close>

definition apply_updates :: "ms \<Rightarrow> update_params \<Rightarrow> task_row \<Rightarrow> task_row" where
  "apply_updates now u t =
     t\<lparr>t_updatedAt := toISOString now, t_status := given (u_status u) (t_status t),
       t_priority := given (u_priority u) (t_priority t), t_owner := given (u_owner u) (t_owner t),
       t_dueAt := given (u_dueAt u) (t_dueAt t), t_tags := given (u_tags u) (t_tags t),
       t_progress := (case truthy_id (u_progressNote u) of
                        None \<Rightarrow> t_progress t
                      | Some n \<Rightarrow> append_note (note_entry now n) (t_progress t)),
       t_blockedByTaskId := given (u_blockedByTaskId u) (t_blockedByTaskId t)\<rparr>"

text \<open>
  The four arms of a reschedule, each used when the ones before it found nothing: move the pending
  wake; note the time on a running one; revive the newest terminal one; insert a new one.
\<close>

definition reschedule_wake ::
    "ms \<Rightarrow> string \<Rightarrow> string \<Rightarrow> string \<Rightarrow> task_originator option \<Rightarrow> task_store \<Rightarrow> repo_error + task_store" where
  "reschedule_wake wake i agentId createdBy og s =
     (let mine = (\<lambda>st j. j_taskId j = Some i \<and> j_taskWake j \<and> j_status j = st)
      in if list_ex (mine JPending) (s_jobs s) then
           (let f = (\<lambda>j. j\<lparr>j_runAt := Some wake, j_nextRunAt := Some wake, j_agentId := agentId,
                           j_createdBy := createdBy, j_payload := default_wake, j_originator := og,
                           j_deferredAt := None\<rparr>)
            in if checked (mine JPending) f s then Inr (update_jobs (mine JPending) f s) else Inl CheckViolation)
         else if list_ex (mine JRunning) (s_jobs s) then
           Inr (update_jobs (mine JRunning) (\<lambda>j. j\<lparr>j_deferredAt := Some wake\<rparr>) s)
         else case newest_job (\<lambda>j. j_taskId j = Some i \<and> j_taskWake j \<and> terminal_job j) s of
                Some old \<Rightarrow>
                  arm_job (j_id old)
                    (\<lambda>j. j\<lparr>j_status := JPending, j_runAt := Some wake, j_nextRunAt := Some wake,
                           j_runStartedAt := None, j_payload := default_wake,
                           j_failures := (if keeps_failures j then j_failures j else 0),
                           j_lastError := (if keeps_failures j then j_lastError j else None),
                           j_lastOutcome := (if keeps_failures j then j_lastOutcome j else None),
                           j_agentId := agentId, j_createdBy := createdBy,
                           j_originator := og, j_deferredAt := None\<rparr>) i s
              | None \<Rightarrow> map_sum id fst (insert_job (one_shot i default_wake agentId wake createdBy og) i s))"

definition closing_status :: "string option \<Rightarrow> bool" where
  "closing_status st \<longleftrightarrow> st = Some ''cancelled'' \<or> st = Some ''done''"

text \<open>
  One run of \<open>executeUpdate\<close>: the guarded row update and, in the same statement, the wakes. The
  cancellation of wakes runs even when the row update matched nothing.
\<close>

definition executeUpdate ::
    "ms \<Rightarrow> string \<Rightarrow> task_row \<Rightarrow> update_params \<Rightarrow> string option \<Rightarrow> task_store
       \<Rightarrow> repo_error + task_store \<times> task_row option" where
  "executeUpdate now i current u caller s =
     (let (s1, row) = guarded_update TERMINAL_STATUSES i (apply_updates now u) s
      in if (case row of Some t \<Rightarrow> \<not> row_ok t | None \<Rightarrow> False) then Inl CheckViolation
         else if row \<noteq> None \<and> \<not> fk_ok s (given (u_blockedByTaskId u) None) then Inl ForeignKeyViolation
         else if closing_status (u_status u) then Inr (cancel_wakes i s1, row)
            else case (u_wakeAt u, row) of
                   (Some wake, Some _) \<Rightarrow>
                     (case reschedule_wake wake i (given (t_sourceAgentId current) (t_agentId current))
                             (given caller (t_agentId current)) (t_originator current) s1 of
                        Inl e \<Rightarrow> Inl e
                      | Inr s2 \<Rightarrow> Inr (s2, row))
                 | _ \<Rightarrow> Inr (s1, row))"

text \<open>An update that matched nothing after the pre-check: the row is gone, or it is terminal.\<close>

definition resolveEmptyUpdateReturning :: "string \<Rightarrow> task_store \<Rightarrow> repo_error + task_row option" where
  "resolveEmptyUpdateReturning i s =
     (case getTask s i of None \<Rightarrow> Inr None | Some t \<Rightarrow> Inl (ReachedTerminal (t_status t)))"

definition updateTask ::
    "ms \<Rightarrow> string \<Rightarrow> update_params \<Rightarrow> string option \<Rightarrow> task_store \<Rightarrow> task_row option repo_result" where
  "updateTask now i u caller s =
     (case getTask s i of
        None \<Rightarrow> (s, Inr None)
      | Some current \<Rightarrow>
          (let changes = (case u_status u of None \<Rightarrow> False | Some st \<Rightarrow> st \<noteq> [] \<and> st \<noteq> t_status current);
               closing = closing_status (u_status u) \<and> u_status u \<noteq> Some (t_status current);
               reason = ''reconciled: parent '' @ i @ '' '' @ given (u_status u) []
           in if changes \<and> t_status current \<in> set TERMINAL_STATUSES then (s, Inl (TaskTerminalState (t_status current)))
              else case executeUpdate now i current u caller s of
                     Inl e \<Rightarrow> (s, Inl e)
                   | Inr (s1, None) \<Rightarrow>
                       (if closing then (s, resolveEmptyUpdateReturning i s)
                        else (s1, resolveEmptyUpdateReturning i s1))
                   | Inr (s1, Some row) \<Rightarrow>
                       (case (if closing then runReconcileChildrenQuery now i reason s1 else Inr (s1, [])) of
                          Inl e \<Rightarrow> (s, Inl e)
                        | Inr (s2, rows) \<Rightarrow>
                            (publishReconcileChildEvents rows reason
                               (publish_event (TaskUpdated i (t_status current)
                                  (if u_status u = Some (t_status current) then None else u_status u)
                                  (u_progressNote u)) s2),
                             Inr (Some row)))))"

section \<open>Blocks of the progress object\<close>

text \<open>The project root: parents up to a task without one; \<open>None\<close> on a missing task or a cycle.\<close>

function root_walk :: "task_store \<Rightarrow> string list \<Rightarrow> string \<Rightarrow> string option" where
  "root_walk s seen cur =
     (if cur \<in> set seen then None
      else case getTask s cur of
             None \<Rightarrow> None
           | Some t \<Rightarrow> (case truthy_id (t_parentTaskId t) of
                         None \<Rightarrow> Some (t_id t)
                       | Some p \<Rightarrow> root_walk s (cur # seen) p))"
  by pat_completeness auto

termination
proof (relation "measure (\<lambda>(s, seen, cur). card (fst ` set (s_tasks s) - set seen))")
  fix s :: task_store and seen :: "string list" and cur t p
  assume "cur \<notin> set seen" "getTask s cur = Some t"
  then have "cur \<in> fst ` set (s_tasks s) - set seen"
    by (auto simp: getTask_def dest!: map_of_SomeD intro: image_eqI [rotated])
  then have "card (fst ` set (s_tasks s) - set (cur # seen)) < card (fst ` set (s_tasks s) - set seen)"
    by (intro psubset_card_mono) auto
  then show "((s, cur # seen, p), s, seen, cur)
      \<in> measure (\<lambda>(s, seen, cur). card (fst ` set (s_tasks s) - set seen))" by simp
qed simp

definition resolveProjectRootTaskId :: "task_store \<Rightarrow> string \<Rightarrow> string option" where
  "resolveProjectRootTaskId s i = (if i = [] then None else root_walk s [] i)"

definition getResumableBlock :: "task_store \<Rightarrow> string \<Rightarrow> resumable_block option" where
  "getResumableBlock s i = Option.bind (getTask s i) (\<lambda>t. readResumableBlock (t_progress t))"

definition getPlanBlock :: "task_store \<Rightarrow> string \<Rightarrow> plan_block option" where
  "getPlanBlock s i = Option.bind (getTask s i) (\<lambda>t. readPlanBlock (t_progress t))"

text \<open>What both setters do with a prepared block: refuse a missing or terminal task, else store it.\<close>

definition store_block ::
    "ms \<Rightarrow> string \<Rightarrow> string \<Rightarrow> (write_error + 'b) \<Rightarrow> ('b \<Rightarrow> jsval) \<Rightarrow> task_store
       \<Rightarrow> task_store \<times> (write_error + task_row \<times> 'b)" where
  "store_block now i key prepared json s =
     (case getTask s i of
        None \<Rightarrow> (s, Inl InvalidBlock)
      | Some current \<Rightarrow>
          if t_status current \<in> set TERMINAL_STATUSES then (s, Inl InvalidBlock)
          else (case prepared of
                  Inl e \<Rightarrow> (s, Inl e)
                | Inr b \<Rightarrow>
                    (let f = (\<lambda>t. t\<lparr>t_progress := stored (AList.update key (json b) (t_progress t)),
                                    t_updatedAt := toISOString now\<rparr>)
                     in (publish_event (TaskUpdated i (t_status current) None None) (update_row i f s),
                         Inr (f current, b)))))"

text \<open>
  An inline accumulator over its limit is moved to a working document when the repo has a document
  store: \<open>spill\<close>, from the project root to the prepared block, absent without one.
\<close>

definition setResumableBlock ::
    "(rat \<Rightarrow> string) \<Rightarrow> (string \<Rightarrow> resumable_input \<Rightarrow> write_error + resumable_block) option \<Rightarrow> ms \<Rightarrow> string
       \<Rightarrow> resumable_input \<Rightarrow> task_store \<Rightarrow> task_store \<times> (write_error + task_row \<times> resumable_block)" where
  "setResumableBlock ns spill now i inp s =
     (let prepared =
        (case (prepareResumableBlock ns (toISOString now) inp, spill) of
           (Inl (InlineAccumulatorOverflow b), Some sp) \<Rightarrow>
             (case resolveProjectRootTaskId s i of None \<Rightarrow> Inl InvalidBlock | Some rid \<Rightarrow> sp rid inp)
         | (r, _) \<Rightarrow> r)
      in store_block now i ''resumable'' prepared resumable_json s)"

definition setPlanBlock ::
    "(rat \<Rightarrow> string) \<Rightarrow> ms \<Rightarrow> string \<Rightarrow> plan_input \<Rightarrow> task_store \<Rightarrow> task_store \<times> (write_error + task_row \<times> plan_block)" where
  "setPlanBlock ns now i inp s =
     store_block now i ''plan'' (preparePlanBlock ns (toISOString now) inp) plan_json s"

definition FINISHED_STATUSES :: "string list" where
  "FINISHED_STATUSES = [''done'', ''cancelled'', ''failed'']"

definition persistResumableCircuitState :: "ms \<Rightarrow> string \<Rightarrow> circuit_state \<Rightarrow> task_store \<Rightarrow> task_store" where
  "persistResumableCircuitState now i c s =
     fst (guarded_update FINISHED_STATUSES i
       (\<lambda>t. t\<lparr>t_progress := stored (mergeCircuitState (t_progress t) c), t_updatedAt := toISOString now\<rparr>) s)"

text \<open>\<open>[...new Set([...a, ...b])]\<close>.\<close>

definition merge_tags :: "string list \<Rightarrow> string list \<Rightarrow> string list" where
  "merge_tags a b = rev (remdups (rev (a @ b)))"

definition failResumableTask ::
    "ms \<Rightarrow> string \<Rightarrow> string \<Rightarrow> circuit_state \<Rightarrow> string list \<Rightarrow> task_store \<Rightarrow> task_row option repo_result" where
  "failResumableTask now i note c tags s =
     (case getTask s i of
        None \<Rightarrow> (s, Inr None)
      | Some current \<Rightarrow>
          if t_status current \<in> set FINISHED_STATUSES then (s, Inr (Some current))
          else
            (let f = (\<lambda>t. t\<lparr>t_status := ''failed'',
                            t_progress := append_note (note_entry now note) (stored (mergeCircuitState (t_progress t) c)),
                            t_tags := merge_tags (t_tags current) tags, t_updatedAt := toISOString now\<rparr>);
                 s1 = kill_wakes [i] (update_row i f s);
                 reason = ''reconciled: parent '' @ i @ '' failed''
             in case runReconcileChildrenQuery now i reason s1 of
                  Inl e \<Rightarrow> (s, Inl e)
                | Inr (s2, rows) \<Rightarrow>
                    (publishReconcileChildEvents rows reason
                       (publish_event (TaskUpdated i (t_status current) (Some ''failed'') (Some note)) s2),
                     Inr (Some (f current)))))"

end
