(* ===== verification/SchedulerJobs.thy ===== *)
theory SchedulerJobs
  imports TaskRepo
begin

text \<open>
  The job registry: \<open>src/src/scheduler/scheduler-service.ts\<close> but for \<open>enqueueTaskWake\<close>, which is in
  \<open>TaskRepo\<close>, and the listings; and the validation of a task's budget, \<open>src/src/tasks/task-error-budget.ts\<close>.
  The cron parser and the check of a time zone name are third-party code: an environment holds them,
  with the service's own zone. Every call works on the tables of \<open>TaskRepo\<close>.
\<close>

section \<open>The budget of a task\<close>

datatype budget_error =
    NotAnObject
  | PerInvocationKey string
  | UnknownKey string
  | NotBoolean string
  | NotPositiveInteger string
  | NotPositiveNumber string
  | NotRatio

definition ALLOWED_TASK_ERROR_BUDGET_KEYS :: "string list" where
  "ALLOWED_TASK_ERROR_BUDGET_KEYS =
     [''resumable'', ''kg_promotion'', ''max_stalls'', ''max_iterations'', ''max_wallclock_hours'', ''max_cost_usd'',
      ''max_plan_depth'', ''max_replans_per_subtree'', ''blocked_step_hours'', ''throughput_divergence_ratio'']"

definition FORBIDDEN_PER_INVOCATION_BUDGET_KEYS :: "string list" where
  "FORBIDDEN_PER_INVOCATION_BUDGET_KEYS = [''maxTurns'', ''maxConsecutiveErrors'', ''max_turns'', ''max_errors'']"

definition INTEGER_CEILING_KEYS :: "string list" where
  "INTEGER_CEILING_KEYS = [''max_stalls'', ''max_iterations'', ''max_plan_depth'', ''max_replans_per_subtree'']"

definition POSITIVE_NUMBER_CEILING_KEYS :: "string list" where
  "POSITIVE_NUMBER_CEILING_KEYS = [''max_wallclock_hours'', ''max_cost_usd'', ''blocked_step_hours'']"

fun positive_integer :: "jsval \<Rightarrow> bool" where
  "positive_integer (JNum n) = (is_integer_num n \<and> num_lt (Fin 0) n)"
| "positive_integer _ = False"

fun positive_number :: "jsval \<Rightarrow> bool" where
  "positive_number (JNum n) = (is_finite_num n \<and> num_lt (Fin 0) n)"
| "positive_number _ = False"

fun is_boolean :: "jsval \<Rightarrow> bool" where
  "is_boolean (JBool _) = True"
| "is_boolean _ = False"

text \<open>The first error of a list of checks in their order.\<close>

fun first_error :: "'e option list \<Rightarrow> 'e option" where
  "first_error [] = None"
| "first_error (Some e # es) = Some e"
| "first_error (None # es) = first_error es"

definition check_key :: "string \<Rightarrow> budget_error option" where
  "check_key k =
     (if k \<in> set FORBIDDEN_PER_INVOCATION_BUDGET_KEYS then Some (PerInvocationKey k)
      else if k \<notin> set ALLOWED_TASK_ERROR_BUDGET_KEYS then Some (UnknownKey k) else None)"

definition check_member :: "jobj \<Rightarrow> (jsval \<Rightarrow> bool) \<Rightarrow> (string \<Rightarrow> budget_error) \<Rightarrow> string \<Rightarrow> budget_error option" where
  "check_member budget ok err k = (if jhas budget k \<and> \<not> ok (jfield budget k) then Some (err k) else None)"

text \<open>Keys are looked at in the order of \<open>Object.keys\<close>, the order of the members.\<close>

fun validateTaskErrorBudget :: "jsval \<Rightarrow> budget_error option" where
  "validateTaskErrorBudget (JObj budget) =
     first_error (map (check_key \<circ> fst) budget
       @ map (check_member budget is_boolean NotBoolean) [''resumable'', ''kg_promotion'']
       @ map (check_member budget positive_integer NotPositiveInteger) INTEGER_CEILING_KEYS
       @ map (check_member budget positive_number NotPositiveNumber) POSITIVE_NUMBER_CEILING_KEYS
       @ [check_member budget (\<lambda>v. positive_number v \<and> (case v of JNum n \<Rightarrow> num_le n (Fin 1) | _ \<Rightarrow> False))
            (\<lambda>_. NotRatio) ''throughput_divergence_ratio''])"
| "validateTaskErrorBudget _ = Some NotAnObject"

section \<open>Environment and errors\<close>

record sched_env =
  e_next :: "string \<Rightarrow> string \<Rightarrow> ms \<Rightarrow> ms option" \<comment> \<open>next run after a time; \<open>None\<close>: the parser throws\<close>
  e_validZone :: "string \<Rightarrow> bool"
  e_timezone :: string
  e_cronError :: "string \<Rightarrow> string" \<comment> \<open>the message of the parser\<close>
  e_timedOut :: "int \<Rightarrow> string" \<comment> \<open>the sentence for a run that timed out after so many minutes\<close>

datatype job_error =
    BudgetRefused budget_error
  | BadZone
  | NoSchedule
  | BadCron
  | TooFrequent
  | BadDuration
  | JobNotFound \<comment> \<open>or in no status the call accepts\<close>
  | TwiceAssigned \<comment> \<open>SQL: one column set twice\<close>
  | Refused repo_error \<comment> \<open>by a constraint\<close>

type_synonym 'a job_result = "task_store \<times> (job_error + 'a)"

definition SUSPEND_THRESHOLD :: nat where
  "SUSPEND_THRESHOLD = 3"

definition nextRunFromCron :: "sched_env \<Rightarrow> string \<Rightarrow> string \<Rightarrow> ms \<Rightarrow> job_error + ms" where
  "nextRunFromCron env cron tz now = (case e_next env cron tz now of None \<Rightarrow> Inl BadCron | Some t \<Rightarrow> Inr t)"

definition MIN_INTERVAL_MS :: ms where
  "MIN_INTERVAL_MS = 5 * 60 * 1000"

definition validateCronFrequency :: "sched_env \<Rightarrow> string \<Rightarrow> string \<Rightarrow> ms \<Rightarrow> job_error + unit" where
  "validateCronFrequency env cron tz now =
     (case e_next env cron tz now of
        None \<Rightarrow> Inl BadCron
      | Some a \<Rightarrow>
          (case e_next env cron tz a of
             None \<Rightarrow> Inl BadCron
           | Some b \<Rightarrow> if b - a < MIN_INTERVAL_MS then Inl TooFrequent else Inr ()))"

section \<open>Statements\<close>

definition get_job :: "task_store \<Rightarrow> nat \<Rightarrow> wake_job option" where
  "get_job s n = find (\<lambda>j. j_id j = n) (s_jobs s)"

text \<open>Some other job of the same task is pending or running.\<close>

definition index_clash :: "task_store \<Rightarrow> wake_job \<Rightarrow> bool" where
  "index_clash s j \<longleftrightarrow> active_job j \<and> j_taskId j \<noteq> None
     \<and> list_ex (\<lambda>k. j_id k \<noteq> j_id j \<and> j_taskId k = j_taskId j \<and> active_job k) (s_jobs s)"

text \<open>
  The unique index of declarative jobs. Payloads are compared as \<open>jsonb\<close> values, whatever the order of
  their members.
\<close>

definition same_payload :: "jobj \<Rightarrow> jobj \<Rightarrow> bool" where
  "same_payload a b \<longleftrightarrow> sort_keys_own (JObj (stored a)) = sort_keys_own (JObj (stored b))"

definition declares :: "string \<Rightarrow> string \<Rightarrow> string \<Rightarrow> jobj \<Rightarrow> wake_job \<Rightarrow> bool" where
  "declares src agent cron payload j \<longleftrightarrow> j_createdBy j = ''system'' \<and> j_sourceAgentId j = src \<and> j_agentId j = agent
     \<and> map_option fst (j_cron j) = Some cron \<and> same_payload (j_payload j) payload"

definition declared_twice :: "task_store \<Rightarrow> wake_job \<Rightarrow> bool" where
  "declared_twice s j \<longleftrightarrow> j_createdBy j = ''system''
     \<and> (case j_cron j of
          None \<Rightarrow> False
        | Some (cron, _) \<Rightarrow>
            list_ex (\<lambda>k. j_id k \<noteq> j_id j \<and> declares (j_sourceAgentId j) (j_agentId j) cron (j_payload j) k) (s_jobs s))"

definition violation :: "task_store \<Rightarrow> wake_job \<Rightarrow> repo_error option" where
  "violation s j =
     (if \<not> schedule_ok j then Some CheckViolation
      else if index_clash s j \<or> declared_twice s j then Some UniqueViolation else None)"

text \<open>
  \<open>UPDATE scheduled_jobs SET \<dots> WHERE id = n AND \<dots> RETURNING \<dots>\<close>: the written row, if one matched, or the
  constraint it breaks.
\<close>

definition update_job ::
    "nat \<Rightarrow> (wake_job \<Rightarrow> bool) \<Rightarrow> (wake_job \<Rightarrow> wake_job) \<Rightarrow> task_store \<Rightarrow> repo_error + task_store \<times> wake_job option" where
  "update_job n guard f s =
     (case get_job s n of
        None \<Rightarrow> Inr (s, None)
      | Some j \<Rightarrow>
          if \<not> guard j then Inr (s, None)
          else (case violation s (f j) of
                  Some e \<Rightarrow> Inl e
                | None \<Rightarrow> Inr (update_jobs (\<lambda>k. j_id k = n) f s, Some (f j))))"

text \<open>The same statement where an exception is the call's own: nothing written, or the row.\<close>

definition written :: "task_store \<Rightarrow> (repo_error + task_store \<times> wake_job option) \<Rightarrow> (wake_job option \<Rightarrow> job_error + 'a) \<Rightarrow> 'a job_result" where
  "written s r k = (case r of Inl e \<Rightarrow> (s, Inl (Refused e)) | Inr (s', row) \<Rightarrow> (s', k row))"

text \<open>\<open>UPDATE tasks t \<dots> FROM scheduled_jobs sj WHERE sj.id = n AND t.id = sj.task_id AND \<dots>\<close>.\<close>

definition update_linked ::
    "nat \<Rightarrow> (wake_job \<Rightarrow> task_row \<Rightarrow> bool) \<Rightarrow> (task_row \<Rightarrow> task_row) \<Rightarrow> task_store \<Rightarrow> task_store" where
  "update_linked n guard f s =
     (case get_job s n of
        None \<Rightarrow> s
      | Some j \<Rightarrow>
          (case j_taskId j of
             None \<Rightarrow> s
           | Some i \<Rightarrow>
               (case getTask s i of
                  None \<Rightarrow> s
                | Some t \<Rightarrow> if guard j t then update_row i f s else s)))"

text \<open>A new row of its own, and a task that comes with a schedule, with the defaults of the tables.\<close>

definition insert_row :: "wake_job \<Rightarrow> task_store \<Rightarrow> repo_error + task_store" where
  "insert_row j s =
     (case violation s j of
        Some e \<Rightarrow> Inl e
      | None \<Rightarrow> Inr (s\<lparr>s_jobs := s_jobs s @ [j], s_nextJob := s_nextJob s + 1\<rparr>))"

definition anchored_task :: "ms \<Rightarrow> string \<Rightarrow> string \<Rightarrow> string \<Rightarrow> jobj \<Rightarrow> task_row" where
  "anchored_task now i agentId anchor budget =
     \<lparr>t_id = i, t_agentId = agentId, t_intentAnchor = anchor, t_status = ''active'', t_progress = [],
      t_errorBudget = budget, t_updatedAt = toISOString now, t_title = anchor, t_description = None,
      t_owner = ''curia'', t_waitingOnContactId = None, t_waitingOnText = None, t_parentTaskId = None,
      t_blockedByTaskId = None, t_priority = 50, t_dueAt = None, t_source = ''agent'',
      t_sourceAgentId = Some agentId, t_createdBy = ''system'', t_tags = [], t_originator = None\<rparr>"

text \<open>Insert the task and link the job to it, in one statement.\<close>

definition link_new_task :: "ms \<Rightarrow> string \<Rightarrow> nat \<Rightarrow> string \<Rightarrow> string \<Rightarrow> jobj \<Rightarrow> task_store \<Rightarrow> repo_error + task_store" where
  "link_new_task now newId n agentId anchor budget s =
     (if getTask s newId \<noteq> None then Inl DuplicateKey
      else map_sum id fst
             (update_job n (\<lambda>j. True) (\<lambda>j. j\<lparr>j_taskId := Some newId\<rparr>)
                (s\<lparr>s_tasks := s_tasks s @ [(newId, anchored_task now newId agentId anchor budget)]\<rparr>)))"

definition set_status :: "ms \<Rightarrow> string \<Rightarrow> task_row \<Rightarrow> task_row" where
  "set_status now st t = t\<lparr>t_status := st, t_updatedAt := toISOString now\<rparr>"

section \<open>Creating jobs\<close>

record job_params =
  jp_agentId :: string
  jp_cronExpr :: "string option"
  jp_runAt :: "ms option"
  jp_payload :: jobj
  jp_createdBy :: string
  jp_intentAnchor :: "string option"
  jp_errorBudget :: "jsval option"
  jp_timezone :: "string option"
  jp_expected :: "jsnum option"
  jp_originator :: "task_originator option"

definition valid_duration :: "jsnum \<Rightarrow> int option" where
  "valid_duration x = (case x of Fin q \<Rightarrow> if of_int \<lfloor>q\<rfloor> = q \<and> 0 < q then Some \<lfloor>q\<rfloor> else None | _ \<Rightarrow> None)"

text \<open>The checks before anything is written; the result is the zone, the first run and the duration.\<close>

definition check_params :: "sched_env \<Rightarrow> ms \<Rightarrow> job_params \<Rightarrow> job_error + string \<times> ms \<times> int option" where
  "check_params env now p =
     (let tz = (case jp_timezone p of Some z \<Rightarrow> z | None \<Rightarrow> e_timezone env); cron = truthy_id (jp_cronExpr p)
      in case Option.bind (jp_errorBudget p) validateTaskErrorBudget of
           Some e \<Rightarrow> Inl (BudgetRefused e)
         | None \<Rightarrow>
             if (case jp_timezone p of Some z \<Rightarrow> \<not> e_validZone env z | None \<Rightarrow> False) then Inl BadZone
             else if cron = None \<and> jp_runAt p = None then Inl NoSchedule
             else case (case cron of None \<Rightarrow> Inr () | Some c \<Rightarrow> validateCronFrequency env c tz now) of
                    Inl e \<Rightarrow> Inl e
                  | Inr _ \<Rightarrow>
                      if (case jp_expected p of Some x \<Rightarrow> valid_duration x = None | None \<Rightarrow> False) then Inl BadDuration
                      else case (case cron of Some c \<Rightarrow> nextRunFromCron env c tz now | None \<Rightarrow> Inr (the (jp_runAt p))) of
                             Inl e \<Rightarrow> Inl e
                           | Inr t \<Rightarrow> Inr (tz, t, Option.bind (jp_expected p) valid_duration))"

definition created_job :: "job_params \<Rightarrow> string \<Rightarrow> ms \<Rightarrow> int option \<Rightarrow> nat \<Rightarrow> wake_job" where
  "created_job p tz t dur n =
     \<lparr>j_id = n, j_taskId = None, j_payload = stored (jp_payload p), j_status = JPending, j_agentId = jp_agentId p,
      j_sourceAgentId = [], j_cron = map_option (\<lambda>c. (c, tz)) (jp_cronExpr p), j_runAt = jp_runAt p,
      j_nextRunAt = Some t, j_lastRunAt = None, j_runStartedAt = None, j_expected = dur,
      j_createdBy = jp_createdBy p, j_originator = jp_originator p, j_failures = 0, j_lastError = None,
      j_lastOutcome = None, j_lastSummary = None, j_lastContext = None, j_deferredAt = None\<rparr>"

definition createJob ::
    "sched_env \<Rightarrow> ms \<Rightarrow> string \<Rightarrow> job_params \<Rightarrow> task_store \<Rightarrow> (nat \<times> string option) job_result" where
  "createJob env now newId p s =
     (case check_params env now p of
        Inl e \<Rightarrow> (s, Inl e)
      | Inr (tz, t, dur) \<Rightarrow>
          (let n = s_nextJob s;
               budget = (case jp_errorBudget p of Some (JObj b) \<Rightarrow> stored b | _ \<Rightarrow> [])
           in case insert_row (created_job p tz t dur n) s of
                Inl e \<Rightarrow> (s, Inl (Refused e))
              | Inr s1 \<Rightarrow>
                  (case truthy_id (jp_intentAnchor p) of
                     None \<Rightarrow> (publish_event (ScheduleCreated n) s1, Inr (n, None))
                   | Some anchor \<Rightarrow>
                       (case link_new_task now newId n (jp_agentId p) anchor budget s1 of
                          Inl e \<Rightarrow> (s, Inl (Refused e))
                        | Inr s2 \<Rightarrow> (publish_event (ScheduleCreated n) s2, Inr (n, Some newId))))))"

section \<open>Declarative jobs\<close>

record declared_schedule =
  ds_cron :: string
  ds_task :: string
  ds_expected :: "jsnum option"
  ds_intentAnchor :: "string option"

definition makeSystemOriginator :: "ms \<Rightarrow> task_originator" where
  "makeSystemOriginator now =
     \<lparr>o_contactId = ''system'', o_systemRole = Some RSystem, o_channel = ''declarative'',
      o_initiatedAt = toISOString now, o_tier = None, o_authenticated = False\<rparr>"

definition declared_job ::
    "sched_env \<Rightarrow> ms \<Rightarrow> string \<Rightarrow> string \<Rightarrow> declared_schedule \<Rightarrow> ms \<Rightarrow> nat \<Rightarrow> wake_job" where
  "declared_job env now src agentId d t n =
     \<lparr>j_id = n, j_taskId = None, j_payload = [(''task'', JStr (ds_task d))], j_status = JPending,
      j_agentId = agentId, j_sourceAgentId = src, j_cron = Some (ds_cron d, e_timezone env), j_runAt = None,
      j_nextRunAt = Some t, j_lastRunAt = None, j_runStartedAt = None,
      j_expected = Option.bind (ds_expected d) valid_duration, j_createdBy = ''system'',
      j_originator = Some (makeSystemOriginator now), j_failures = 0, j_lastError = None, j_lastOutcome = None,
      j_lastSummary = None, j_lastContext = None, j_deferredAt = None\<rparr>"

text \<open>\<open>ON CONFLICT DO UPDATE\<close>: only a cancelled row is revived.\<close>

definition redeclare :: "wake_job \<Rightarrow> wake_job \<Rightarrow> wake_job" where
  "redeclare new old =
     (let revived = (j_status old = JCancelled)
      in old\<lparr>j_nextRunAt := j_nextRunAt new, j_cron := j_cron new, j_expected := j_expected new,
             j_originator := (case j_originator old of None \<Rightarrow> j_originator new | Some og \<Rightarrow> Some og),
             j_status := (if revived then JPending else j_status old),
             j_failures := (if revived then 0 else j_failures old),
             j_lastError := (if revived then None else j_lastError old)\<rparr>)"

definition upsertDeclarativeJob ::
    "sched_env \<Rightarrow> ms \<Rightarrow> string \<Rightarrow> string \<Rightarrow> string \<Rightarrow> declared_schedule \<Rightarrow> task_store \<Rightarrow> nat job_result" where
  "upsertDeclarativeJob env now newId src agentId d s =
     (case nextRunFromCron env (ds_cron d) (e_timezone env) now of
        Inl e \<Rightarrow> (s, Inl e)
      | Inr t \<Rightarrow>
          (let new = declared_job env now src agentId d t (s_nextJob s);
               prior = find (declares src agentId (ds_cron d) (j_payload new)) (s_jobs s);
               revived = (case prior of Some j \<Rightarrow> j_status j = JCancelled | None \<Rightarrow> False);
               n = (case prior of Some j \<Rightarrow> j_id j | None \<Rightarrow> j_id new);
               upserted = (case prior of
                             None \<Rightarrow> insert_row new s
                           | Some _ \<Rightarrow> map_sum id fst (update_job n (\<lambda>j. True) (redeclare new) s))
           in case upserted of
                Inl e \<Rightarrow> (s, Inl (Refused e))
              | Inr s1 \<Rightarrow>
                  (let s2 = (if revived
                             then update_linked n (\<lambda>j u. t_status u = ''cancelled'') (set_status now ''active'') s1
                             else s1)
                   in case truthy_id (ds_intentAnchor d) of
                        None \<Rightarrow> (s2, Inr n)
                      | Some anchor \<Rightarrow>
                          (if Option.bind (get_job s2 n) j_taskId \<noteq> None then (s2, Inr n)
                           else case link_new_task now newId n agentId anchor [] s2 of
                                  Inl e \<Rightarrow> (s, Inl (Refused e))
                                | Inr s3 \<Rightarrow> (s3, Inr n)))))"

text \<open>\<open>NOT IN\<close> does not hold either of a row whose missing expression leaves the comparison open.\<close>

definition maybe_declared :: "string \<times> string \<times> string \<times> jobj \<Rightarrow> wake_job \<Rightarrow> bool" where
  "maybe_declared = (\<lambda>(src, agent, cron, payload) j. j_sourceAgentId j = src \<and> j_agentId j = agent
     \<and> (case j_cron j of None \<Rightarrow> True | Some (c, _) \<Rightarrow> c = cron) \<and> same_payload (j_payload j) payload)"

definition cancelStaleDeclarativeJobs ::
    "(string \<times> string \<times> string \<times> jobj) list \<Rightarrow> task_store \<Rightarrow> task_store \<times> nat" where
  "cancelStaleDeclarativeJobs live s =
     (let stale = (\<lambda>j. j_createdBy j = ''system'' \<and> (j_status j = JPending \<or> j_status j = JFailed)
                      \<and> \<not> list_ex (\<lambda>d. maybe_declared d j) live)
      in (update_jobs stale (\<lambda>j. j\<lparr>j_status := JCancelled\<rparr>) s, length (filter stale (s_jobs s))))"

section \<open>Holding and changing jobs\<close>

definition cancelJob :: "ms \<Rightarrow> nat \<Rightarrow> task_store \<Rightarrow> unit job_result" where
  "cancelJob now n s =
     (case update_job n (\<lambda>j. True) (\<lambda>j. j\<lparr>j_status := JCancelled\<rparr>) s of
        Inl e \<Rightarrow> (s, Inl (Refused e))
      | Inr (s1, _) \<Rightarrow> (update_linked n (\<lambda>j t. True) (set_status now ''cancelled'') s1, Inr ()))"

definition not_ended :: "wake_job \<Rightarrow> bool" where
  "not_ended j \<longleftrightarrow> j_status j \<noteq> JCancelled \<and> j_status j \<noteq> JCompleted"

text \<open>The result is whether a job row changed.\<close>

definition setPaused :: "ms \<Rightarrow> nat \<Rightarrow> task_store \<Rightarrow> repo_error + task_store \<times> bool" where
  "setPaused now n s =
     map_sum id (\<lambda>(s1, row). (s1, row \<noteq> None))
       (update_job n not_ended (\<lambda>j. j\<lparr>j_status := JPaused\<rparr>)
          (update_linked n (\<lambda>j t. not_ended j) (set_status now ''paused'') s))"

definition pauseJobForDrift :: "ms \<Rightarrow> nat \<Rightarrow> task_store \<Rightarrow> unit job_result" where
  "pauseJobForDrift now n s = (case setPaused now n s of Inl e \<Rightarrow> (s, Inl (Refused e)) | Inr (s1, _) \<Rightarrow> (s1, Inr ()))"

definition pauseJob :: "ms \<Rightarrow> nat \<Rightarrow> task_store \<Rightarrow> unit job_result" where
  "pauseJob now n s =
     (case setPaused now n s of
        Inl e \<Rightarrow> (s, Inl (Refused e))
      | Inr (s1, changed) \<Rightarrow> (s1, if changed then Inr () else Inl JobNotFound))"

text \<open>\<open>if (job.cron_expr)\<close>: an empty expression is as good as none.\<close>

definition job_cron :: "wake_job \<Rightarrow> (string \<times> string) option" where
  "job_cron j = (case j_cron j of Some (c, tz) \<Rightarrow> if c = [] then None else Some (c, tz) | None \<Rightarrow> None)"

text \<open>\<open>COALESCE(deferred_wake_at, x)\<close> on a one-shot row; a recurring row keeps its own.\<close>

definition deferred_or :: "wake_job \<Rightarrow> ms option \<Rightarrow> ms option" where
  "deferred_or j x = (if j_cron j = None \<and> j_deferredAt j \<noteq> None then j_deferredAt j else x)"

definition use_deferral :: "wake_job \<Rightarrow> wake_job" where
  "use_deferral j = j\<lparr>j_deferredAt := (if j_cron j = None then None else j_deferredAt j)\<rparr>"

definition resume_job :: "ms \<Rightarrow> wake_job \<Rightarrow> wake_job" where
  "resume_job t j =
     (use_deferral j)\<lparr>j_status := JPending, j_failures := 0, j_lastError := None,
        j_runAt := deferred_or j (j_runAt j), j_nextRunAt := deferred_or j (Some t)\<rparr>"

definition unsuspendJob :: "sched_env \<Rightarrow> ms \<Rightarrow> nat \<Rightarrow> task_store \<Rightarrow> unit job_result" where
  "unsuspendJob env now n s =
     (case get_job s n of
        None \<Rightarrow> (s, Inl JobNotFound)
      | Some j \<Rightarrow>
          if j_status j \<noteq> JSuspended \<and> j_status j \<noteq> JPaused then (s, Inl JobNotFound)
          else case (case job_cron j of
                       Some (c, tz) \<Rightarrow> nextRunFromCron env c tz now
                     | None \<Rightarrow> Inr (case j_runAt j of Some t \<Rightarrow> t | None \<Rightarrow> 0)) of
                 Inl e \<Rightarrow> (s, Inl e)
               | Inr t \<Rightarrow>
                   (case update_job n (\<lambda>j. True) (resume_job t) s of
                      Inl e \<Rightarrow> (s, Inl (Refused e))
                    | Inr (s1, _) \<Rightarrow>
                        (update_linked n (\<lambda>j u. t_status u = ''paused'') (set_status now ''active'') s1, Inr ())))"

text \<open>
  Changing a job. The new expression is checked, and its first run computed, in the zone of the service;
  the row keeps the zone it has.
\<close>

record job_updates =
  ju_cronExpr :: "string option"
  ju_runAt :: "ms option"
  ju_payload :: "jobj option"

definition updated_job :: "job_updates \<Rightarrow> string \<Rightarrow> ms option \<Rightarrow> wake_job \<Rightarrow> wake_job" where
  "updated_job u tz next j =
     j\<lparr>j_cron := (case ju_cronExpr u of
                    None \<Rightarrow> j_cron j
                  | Some c \<Rightarrow> Some (c, case j_cron j of Some (_, z) \<Rightarrow> z | None \<Rightarrow> tz)),
       j_runAt := (case ju_runAt u of None \<Rightarrow> j_runAt j | Some t \<Rightarrow> Some t),
       j_nextRunAt := (case next of None \<Rightarrow> j_nextRunAt j | Some t \<Rightarrow> Some t),
       j_payload := (case ju_payload u of None \<Rightarrow> j_payload j | Some p \<Rightarrow> stored p)\<rparr>"

definition updateJob :: "sched_env \<Rightarrow> ms \<Rightarrow> nat \<Rightarrow> job_updates \<Rightarrow> task_store \<Rightarrow> unit job_result" where
  "updateJob env now n u s =
     (case (case ju_cronExpr u of
              None \<Rightarrow> Inr (ju_runAt u)
            | Some c \<Rightarrow>
                (case validateCronFrequency env c (e_timezone env) now of
                   Inl e \<Rightarrow> Inl e
                 | Inr _ \<Rightarrow> map_sum id Some (nextRunFromCron env c (e_timezone env) now))) of
        Inl e \<Rightarrow> (s, Inl e)
      | Inr next \<Rightarrow>
          if ju_cronExpr u = None \<and> ju_runAt u = None \<and> ju_payload u = None then (s, Inr ())
          else if ju_cronExpr u \<noteq> None \<and> ju_runAt u \<noteq> None then (s, Inl TwiceAssigned)
          else case update_job n (\<lambda>j. True) (updated_job u (e_timezone env) next) s of
                 Inl e \<Rightarrow> (s, Inl (Refused e))
               | Inr (s1, row) \<Rightarrow> (s1, if row = None then Inl JobNotFound else Inr ()))"

section \<open>Ending a run\<close>

text \<open>What the run is known to have failed at: the skills by name and error, and how many more.\<close>

record run_report =
  rr_summary :: "string option"
  rr_failedSkills :: "(string \<times> string) list"
  rr_omitted :: "rat option"

definition failed_skills_json :: "run_report \<Rightarrow> jobj option" where
  "failed_skills_json r =
     (if rr_failedSkills r = [] then None
      else Some ((''failedSkills'', JArr (map (\<lambda>(n, e). JObj [(''name'', JStr n), (''error'', JStr e)]) (rr_failedSkills r)))
                 # (case rr_omitted r of
                      Some k \<Rightarrow> if 0 < k then [(''failedSkillsOmitted'', JNum (Fin k))] else []
                    | None \<Rightarrow> [])))"

text \<open>\<open>contextSetClause\<close>.\<close>

definition context_after :: "run_report \<Rightarrow> jsval option \<Rightarrow> jsval option" where
  "context_after r ctx =
     (case (ctx, failed_skills_json r) of
        (Some (JObj m), add) \<Rightarrow>
          Some (JObj (foldl (\<lambda>o' (k, v). AList.update k v o')
                        (AList.delete ''failedSkillsOmitted'' (AList.delete ''failedSkills'' m)) (given add [])))
      | (_, Some add) \<Rightarrow> Some (JObj add)
      | (_, None) \<Rightarrow> ctx)"

definition not_held :: "wake_job \<Rightarrow> bool" where
  "not_held j \<longleftrightarrow> j_status j \<noteq> JPaused \<and> j_status j \<noteq> JCancelled"

definition succeeded_job :: "ms \<Rightarrow> ms option \<Rightarrow> run_report \<Rightarrow> wake_job \<Rightarrow> wake_job" where
  "succeeded_job now next r j =
     j\<lparr>j_lastRunAt := Some now, j_failures := 0, j_lastError := None, j_runStartedAt := None,
       j_lastOutcome := Some ''completed'',
       j_lastSummary := (case j_lastSummary j of None \<Rightarrow> rr_summary r | Some x \<Rightarrow> Some x),
       j_lastContext := context_after r (j_lastContext j),
       j_status := (if next \<noteq> None \<or> j_deferredAt j \<noteq> None then JPending else JCompleted),
       j_runAt := (if next = None \<and> j_deferredAt j \<noteq> None then j_deferredAt j else j_runAt j),
       j_nextRunAt := (if next \<noteq> None then next
                       else if j_deferredAt j \<noteq> None then j_deferredAt j else j_nextRunAt j),
       j_deferredAt := (if next \<noteq> None then j_deferredAt j else None)\<rparr>"

definition failed_job :: "ms \<Rightarrow> nat \<Rightarrow> string option \<Rightarrow> run_report \<Rightarrow> wake_job \<Rightarrow> wake_job" where
  "failed_job now failures error r j =
     (let arm = (j_cron j = None \<and> j_deferredAt j \<noteq> None \<and> failures < SUSPEND_THRESHOLD)
      in j\<lparr>j_lastRunAt := Some now, j_failures := failures, j_lastError := error, j_runStartedAt := None,
           j_status := (if arm then JPending else if SUSPEND_THRESHOLD \<le> failures then JSuspended else JFailed),
           j_runAt := (if arm then j_deferredAt j else j_runAt j),
           j_nextRunAt := (if arm then j_deferredAt j else j_nextRunAt j),
           j_deferredAt := (if arm then None else j_deferredAt j),
           j_lastOutcome := Some ''failed'', j_lastContext := context_after r (j_lastContext j)\<rparr>)"

text \<open>The result is whether the job was suspended.\<close>

definition completeJobRun ::
    "sched_env \<Rightarrow> ms \<Rightarrow> nat \<Rightarrow> bool \<Rightarrow> string option \<Rightarrow> run_report \<Rightarrow> task_store \<Rightarrow> bool job_result" where
  "completeJobRun env now n success error r s =
     (case get_job s n of
        None \<Rightarrow> (s, Inl JobNotFound)
      | Some j \<Rightarrow>
          (if success then
             (case (case job_cron j of
                      Some (c, tz) \<Rightarrow> map_sum id Some (nextRunFromCron env c tz now) | None \<Rightarrow> Inr None) of
                Inl e \<Rightarrow> (s, Inl e)
              | Inr next \<Rightarrow> written s (update_job n not_held (succeeded_job now next r) s) (\<lambda>_. Inr False))
           else
             written s (update_job n not_held (failed_job now (j_failures j + 1) error r) s)
               (\<lambda>row. Inr (case row of None \<Rightarrow> False | Some w \<Rightarrow> j_status w = JSuspended))))"

record recovery =
  rc_noOp :: bool
  rc_suspended :: bool
  rc_failures :: nat
  rc_rearmed :: bool

definition recovered_job :: "ms \<Rightarrow> nat \<Rightarrow> string \<Rightarrow> wake_job \<Rightarrow> wake_job" where
  "recovered_job next failures error j =
     (let status = (if SUSPEND_THRESHOLD \<le> failures then JSuspended else JPending);
          arm = (j_deferredAt j \<noteq> None \<and> status \<noteq> JSuspended \<and> j_cron j = None)
      in j\<lparr>j_status := (if arm then JPending else status), j_failures := failures, j_lastError := Some error,
           j_runStartedAt := None, j_runAt := (if arm then j_deferredAt j else j_runAt j),
           j_nextRunAt := (if arm then j_deferredAt j else Some next),
           j_deferredAt := (if arm then None else j_deferredAt j), j_lastOutcome := Some ''timed_out''\<rparr>)"

definition recoverStuckJob :: "sched_env \<Rightarrow> ms \<Rightarrow> nat \<Rightarrow> int \<Rightarrow> task_store \<Rightarrow> recovery job_result" where
  "recoverStuckJob env now n timeoutSeconds s =
     (case get_job s n of
        None \<Rightarrow> (s, Inl JobNotFound)
      | Some j \<Rightarrow>
          (case (case job_cron j of Some (c, tz) \<Rightarrow> nextRunFromCron env c tz now | None \<Rightarrow> Inr now) of
             Inl e \<Rightarrow> (s, Inl e)
           | Inr next \<Rightarrow>
               written s (update_job n (\<lambda>j. j_status j = JRunning)
                   (recovered_job next (j_failures j + 1) (e_timedOut env ((timeoutSeconds + 30) div 60))) s)
                 (\<lambda>row. Inr (case row of
                    None \<Rightarrow> \<lparr>rc_noOp = True, rc_suspended = False, rc_failures = 0, rc_rearmed = False\<rparr>
                  | Some w \<Rightarrow>
                      \<lparr>rc_noOp = False, rc_suspended = (j_status w = JSuspended), rc_failures = j_failures w,
                       rc_rearmed = (j_deferredAt j \<noteq> None \<and> j_status w = JPending)\<rparr>))))"

definition reportJobRun :: "nat \<Rightarrow> string \<Rightarrow> jobj option \<Rightarrow> task_store \<Rightarrow> unit job_result" where
  "reportJobRun n summary ctx s =
     written s (update_job n (\<lambda>j. True)
         (\<lambda>j. j\<lparr>j_lastSummary := Some summary,
                j_lastContext := (case ctx of None \<Rightarrow> j_lastContext j | Some c \<Rightarrow> Some (JObj (stored c)))\<rparr>) s)
       (\<lambda>row. if row = None then Inl JobNotFound else Inr ())"

section \<open>Statements of the scheduler\<close>

text \<open>
  What \<open>src/src/scheduler/scheduler.ts\<close> writes to the two tables. It works from a row it read before, so
  a claim repeats what it relied on.
\<close>

definition claimable :: "wake_job \<Rightarrow> bool" where
  "claimable j \<longleftrightarrow> j_status j = JPending \<or> j_status j = JFailed"

definition due_job :: "ms \<Rightarrow> wake_job \<Rightarrow> bool" where
  "due_job now j \<longleftrightarrow> claimable j \<and> (case j_nextRunAt j of None \<Rightarrow> False | Some t \<Rightarrow> t \<le> now)"

definition poll_rows :: "ms \<Rightarrow> nat \<Rightarrow> task_store \<Rightarrow> wake_job list" where
  "poll_rows now slots s = take slots (sort_key (\<lambda>j. the (j_nextRunAt j)) (filter (due_job now) (s_jobs s)))"

definition task_finished :: "task_store \<Rightarrow> wake_job \<Rightarrow> bool" where
  "task_finished s j =
     (case Option.bind (j_taskId j) (getTask s) of None \<Rightarrow> False | Some t \<Rightarrow> t_status t \<in> set TERMINAL_STATUSES)"

definition finished_wake :: "task_store \<Rightarrow> wake_job \<Rightarrow> bool" where
  "finished_wake s j \<longleftrightarrow> j_taskWake j \<and> \<not> j_retry j \<and> task_finished s j"

definition start_run :: "ms \<Rightarrow> wake_job \<Rightarrow> wake_job" where
  "start_run now j = j\<lparr>j_status := JRunning, j_runStartedAt := Some now, j_lastSummary := None\<rparr>"

definition claim_wake :: "ms \<Rightarrow> nat \<Rightarrow> task_store \<Rightarrow> repo_error + task_store \<times> wake_job option" where
  "claim_wake now n s = update_job n (\<lambda>j. claimable j \<and> \<not> finished_wake s j) (start_run now) s"

definition claim_cron :: "ms \<Rightarrow> ms \<Rightarrow> nat \<Rightarrow> string \<times> string \<Rightarrow> task_store \<Rightarrow> repo_error + task_store \<times> wake_job option" where
  "claim_cron now next n cron s =
     update_job n (\<lambda>j. due_job now j \<and> j_cron j = Some cron) (\<lambda>j. (start_run now j)\<lparr>j_nextRunAt := Some next\<rparr>) s"

definition give_up :: "string \<Rightarrow> wake_job \<Rightarrow> wake_job" where
  "give_up error j = j\<lparr>j_status := JFailed, j_lastError := Some error, j_nextRunAt := None\<rparr>"

text \<open>\<open>failUnownedAgent\<close>, and the same for an expression the parser refuses.\<close>

definition failUnownedAgent :: "wake_job \<Rightarrow> task_store \<Rightarrow> repo_error + task_store \<times> wake_job option" where
  "failUnownedAgent job s =
     update_job (j_id job) claimable
       (give_up (''Agent '' @ [CHR 0x27] @ j_agentId job @ [CHR 0x27] @ '' is not a registered agent'')) s"

definition fail_bad_cron :: "nat \<Rightarrow> string \<times> string \<Rightarrow> string \<Rightarrow> task_store \<Rightarrow> repo_error + task_store \<times> wake_job option" where
  "fail_bad_cron n cron error s = update_job n (\<lambda>j. claimable j \<and> j_cron j = Some cron) (give_up error) s"

definition retireFinishedTaskWake :: "nat \<Rightarrow> task_store \<Rightarrow> repo_error + task_store \<times> wake_job option" where
  "retireFinishedTaskWake n s =
     update_job n (\<lambda>j. claimable j \<and> finished_wake s j) (\<lambda>j. j\<lparr>j_status := JCancelled, j_deferredAt := None\<rparr>) s"

text \<open>Undo a claim: of this very run when its start is given.\<close>

definition revert_claim :: "nat \<Rightarrow> ms option \<Rightarrow> task_store \<Rightarrow> repo_error + task_store \<times> wake_job option" where
  "revert_claim n started s =
     update_job n (\<lambda>j. j_status j = JRunning \<and> (started \<noteq> None \<longrightarrow> j_runStartedAt j = started))
       (\<lambda>j. (use_deferral j)\<lparr>j_status := JPending, j_runAt := deferred_or j (j_runAt j),
               j_nextRunAt := deferred_or j (j_nextRunAt j)\<rparr>) s"

definition update_task_where :: "string \<Rightarrow> (task_row \<Rightarrow> bool) \<Rightarrow> (task_row \<Rightarrow> task_row) \<Rightarrow> task_store \<Rightarrow> task_store \<times> bool" where
  "update_task_where i guard f s =
     (case getTask s i of
        None \<Rightarrow> (s, False)
      | Some t \<Rightarrow> if guard t then (update_row i f s, True) else (s, False))"

definition closeDelegationRetryTask :: "ms \<Rightarrow> string \<Rightarrow> task_store \<Rightarrow> task_store" where
  "closeDelegationRetryTask now i s =
     fst (update_task_where i
       (\<lambda>t. t_status t \<in> set RECONCILABLE_CHILD_STATUSES \<and> ''delegation-retry'' \<in> set (t_tags t)) (set_status now ''done'') s)"

definition ACTIVE_STATUSES :: "string list" where
  "ACTIVE_STATUSES = [''open'', ''in_progress'']"

definition NEEDS_DISPOSITION_TAG :: string where
  "NEEDS_DISPOSITION_TAG = ''needs-disposition''"

definition touch_task :: "ms \<Rightarrow> string \<Rightarrow> task_store \<Rightarrow> task_store" where
  "touch_task now i s =
     fst (update_task_where i (\<lambda>t. t_status t \<in> set ACTIVE_STATUSES) (\<lambda>t. t\<lparr>t_updatedAt := toISOString now\<rparr>) s)"

definition tag_undisposed :: "ms \<Rightarrow> string \<Rightarrow> task_store \<Rightarrow> task_store \<times> bool" where
  "tag_undisposed now i s =
     update_task_where i (\<lambda>t. NEEDS_DISPOSITION_TAG \<notin> set (t_tags t) \<and> t_status t \<in> set ACTIVE_STATUSES)
       (\<lambda>t. t\<lparr>t_tags := t_tags t @ [NEEDS_DISPOSITION_TAG], t_updatedAt := toISOString now\<rparr>) s"

end
