(* ===== verification/TaskRepoInv.thy ===== *)
theory TaskRepoInv
  imports SchedulerJobs
begin

text \<open>
  The invariant of the task store: ids are unique, a parent is older than its children, a task's
  lineage ranks no higher than its parent's, and a task has at most one pending or running wake. Every
  operation keeps it, so it holds after any sequence of calls from an empty store; the recursive query
  over descendants then ends, with exactly the descendants.
\<close>

declare root_walk.simps [simp del]

section \<open>Tasks\<close>

text \<open>The columns no operation changes.\<close>

type_synonym skel = "string \<times> string \<times> string option \<times> nat"

definition skel_of :: "string \<times> task_row \<Rightarrow> skel" where
  "skel_of p = (fst p, t_id (snd p), t_parentTaskId (snd p), originatorRank (t_originator (snd p)))"

fun skel_ok :: "skel list \<Rightarrow> bool" where \<comment> \<open>newest first\<close>
  "skel_ok [] = True"
| "skel_ok ((k, i, p, r) # sk) \<longleftrightarrow> skel_ok sk \<and> i = k \<and> k \<noteq> [] \<and> k \<notin> fst ` set sk
     \<and> (case p of None \<Rightarrow> True | Some q \<Rightarrow> \<exists>i' p' r'. (q, i', p', r') \<in> set sk \<and> r \<le> r')"

definition skeleton :: "task_store \<Rightarrow> skel list" where
  "skeleton s = rev (map skel_of (s_tasks s))"

definition tasks_ok :: "task_store \<Rightarrow> bool" where
  "tasks_ok s \<longleftrightarrow> skel_ok (skeleton s)"

definition parent_rel :: "task_store \<Rightarrow> (string \<times> string) set" where
  "parent_rel s = {(k, p). \<exists>t. (k, t) \<in> set (s_tasks s) \<and> t_parentTaskId t = Some p}"

definition same_skel :: "(task_row \<Rightarrow> task_row) \<Rightarrow> bool" where
  "same_skel f \<longleftrightarrow> (\<forall>t. t_id (f t) = t_id t \<and> t_parentTaskId (f t) = t_parentTaskId t \<and> t_originator (f t) = t_originator t)"

lemma skeleton_update_row: "same_skel f \<Longrightarrow> skeleton (update_row i f s) = skeleton s"
  by (auto simp: skeleton_def update_row_def skel_of_def same_skel_def)

lemma skeleton_simps [simp]:
  "skeleton (publish_event e s) = skeleton s" "skeleton (update_jobs P g s) = skeleton s"
  "skeleton (cancel_wakes i s) = skeleton s" "skeleton (kill_wakes is s) = skeleton s"
  by (simp_all add: skeleton_def publish_event_def update_jobs_def cancel_wakes_def kill_wakes_def)

lemma skeleton_events [simp]: "skeleton (publishReconcileChildEvents rows r s) = skeleton s"
proof -
  have "skeleton (foldl (\<lambda>s (i, prev). publish_event (TaskUpdated i prev (Some ''cancelled'') (Some r)) s) s rows) = skeleton s"
    by (induction rows arbitrary: s) auto
  then show ?thesis by (simp add: publishReconcileChildEvents_def)
qed

lemma skel_keys: "fst ` set (skeleton s) = fst ` set (s_tasks s)"
  by (simp add: skeleton_def image_image skel_of_def)

lemma skel_ok_distinct: "skel_ok sk \<Longrightarrow> distinct (map fst sk)"
  by (induction sk rule: skel_ok.induct) auto

lemma tasks_ok_owf: "tasks_ok s \<Longrightarrow> owf (s_tasks s)"
proof -
  assume "tasks_ok s"
  then have "distinct (map fst (skeleton s))" unfolding tasks_ok_def by (rule skel_ok_distinct)
  moreover have "map fst (skeleton s) = rev (map fst (s_tasks s))"
    by (simp add: skeleton_def rev_map skel_of_def comp_def)
  ultimately show ?thesis by (simp add: owf_def)
qed

lemma skel_ok_id: "skel_ok sk \<Longrightarrow> (k, i, p, r) \<in> set sk \<Longrightarrow> i = k \<and> k \<noteq> []"
  by (induction sk rule: skel_ok.induct) auto

lemma skel_ok_parent:
  "skel_ok sk \<Longrightarrow> (k, i, Some q, r) \<in> set sk \<Longrightarrow> \<exists>i' p' r'. (q, i', p', r') \<in> set sk \<and> r \<le> r'"
proof (induction sk rule: skel_ok.induct)
  case (2 k' i' p' r' sk)
  then show ?case by (cases p') (auto; blast)+
qed simp

section \<open>Jobs\<close>

definition jobs_ok :: "task_store \<Rightarrow> bool" where
  "jobs_ok s \<longleftrightarrow> distinct (map j_id (s_jobs s)) \<and> (\<forall>j\<in>set (s_jobs s). j_id j < s_nextJob s)
     \<and> (\<forall>j\<in>set (s_jobs s). \<forall>k\<in>set (s_jobs s).
          active_job j \<and> active_job k \<and> j_taskId j \<noteq> None \<and> j_taskId j = j_taskId k \<longrightarrow> j = k)"

lemma jobs_okI:
  assumes "distinct (map j_id (s_jobs s))" "\<And>j. j \<in> set (s_jobs s) \<Longrightarrow> j_id j < s_nextJob s"
    "\<And>j k. j \<in> set (s_jobs s) \<Longrightarrow> k \<in> set (s_jobs s) \<Longrightarrow> active_job j \<Longrightarrow> active_job k \<Longrightarrow>
       j_taskId j \<noteq> None \<Longrightarrow> j_taskId j = j_taskId k \<Longrightarrow> j = k"
  shows "jobs_ok s"
  using assms unfolding jobs_ok_def by blast

lemma jobs_ok_unique:
  assumes "jobs_ok s" "j \<in> set (s_jobs s)" "k \<in> set (s_jobs s)"
  shows "active_job j \<Longrightarrow> active_job k \<Longrightarrow> j_taskId j \<noteq> None \<Longrightarrow> j_taskId j = j_taskId k \<Longrightarrow> j = k"
    and "j_id j = j_id k \<Longrightarrow> j = k"
  using assms unfolding jobs_ok_def by (blast, meson distinct_map inj_onD)

text \<open>An update that keeps ids and tasks: what has to be shown is that no second job turns active.\<close>

lemma jobs_ok_update:
  assumes "jobs_ok s" and h: "\<And>j. P j \<Longrightarrow> j_id (g j) = j_id j \<and> j_taskId (g j) = j_taskId j"
    and one: "\<And>j k. j \<in> set (s_jobs s) \<Longrightarrow> k \<in> set (s_jobs s) \<Longrightarrow>
      active_job (if P j then g j else j) \<Longrightarrow> active_job (if P k then g k else k) \<Longrightarrow>
      j_taskId j \<noteq> None \<Longrightarrow> j_taskId j = j_taskId k \<Longrightarrow> j = k"
  shows "jobs_ok (update_jobs P g s)"
proof -
  let ?h = "\<lambda>j. if P j then g j else j"
  have hid: "j_id (?h j) = j_id j" "j_taskId (?h j) = j_taskId j" for j using h by simp_all
  have jobs: "s_jobs (update_jobs P g s) = map ?h (s_jobs s)" "s_nextJob (update_jobs P g s) = s_nextJob s"
    by (simp_all add: update_jobs_def)
  show ?thesis
  proof (rule jobs_okI)
    have "map j_id (map ?h (s_jobs s)) = map j_id (s_jobs s)" unfolding map_map comp_def hid by (rule refl)
    then show "distinct (map j_id (s_jobs (update_jobs P g s)))"
      using assms(1) unfolding jobs by (simp only: jobs_ok_def)
  next
    fix j assume "j \<in> set (s_jobs (update_jobs P g s))"
    then obtain j0 where "j0 \<in> set (s_jobs s)" "j = ?h j0" unfolding jobs by auto
    then show "j_id j < s_nextJob (update_jobs P g s)" using assms(1) hid(1) [of j0] unfolding jobs jobs_ok_def by simp
  next
    fix j k assume "j \<in> set (s_jobs (update_jobs P g s))" "k \<in> set (s_jobs (update_jobs P g s))"
    then obtain j0 k0 where jk: "j0 \<in> set (s_jobs s)" "j = ?h j0" "k0 \<in> set (s_jobs s)" "k = ?h k0"
      unfolding jobs by auto
    assume "active_job j" "active_job k" "j_taskId j \<noteq> None" "j_taskId j = j_taskId k"
    then have "j0 = k0" using one [OF jk(1,3)] jk(2,4) hid(2) [of j0] hid(2) [of k0] by simp
    then show "j = k" using jk by simp
  qed
qed

text \<open>An update that wakes nothing up.\<close>

definition calming :: "(wake_job \<Rightarrow> bool) \<Rightarrow> (wake_job \<Rightarrow> wake_job) \<Rightarrow> bool" where
  "calming P g \<longleftrightarrow> (\<forall>j. P j \<longrightarrow> j_id (g j) = j_id j \<and> j_taskId (g j) = j_taskId j \<and> (active_job (g j) \<longrightarrow> active_job j))"

lemma jobs_ok_calm:
  assumes "jobs_ok s" "calming P g"
  shows "jobs_ok (update_jobs P g s)"
proof (rule jobs_ok_update [OF assms(1)])
  show "P j \<Longrightarrow> j_id (g j) = j_id j \<and> j_taskId (g j) = j_taskId j" for j using assms(2) by (simp add: calming_def)
  fix j k
  assume jk: "j \<in> set (s_jobs s)" "k \<in> set (s_jobs s)"
    and act: "active_job (if P j then g j else j)" "active_job (if P k then g k else k)"
    and tid: "j_taskId j \<noteq> None" "j_taskId j = j_taskId k"
  have "active_job j" "active_job k" using act assms(2) by (auto simp: calming_def split: if_splits)
  with jobs_ok_unique(1) [OF assms(1) jk] tid show "j = k" by simp
qed

lemma jobs_ok_cong: "s_jobs s' = s_jobs s \<Longrightarrow> s_nextJob s' = s_nextJob s \<Longrightarrow> jobs_ok s' = jobs_ok s"
  by (simp add: jobs_ok_def)

lemma jobs_frame [simp]:
  "s_jobs (update_row i f s) = s_jobs s" "s_nextJob (update_row i f s) = s_nextJob s"
  "s_jobs (publish_event e s) = s_jobs s" "s_nextJob (publish_event e s) = s_nextJob s"
  by (simp_all add: update_row_def publish_event_def)

lemma events_frame:
  "s_jobs (publishReconcileChildEvents rows r s) = s_jobs s
   \<and> s_nextJob (publishReconcileChildEvents rows r s) = s_nextJob s
   \<and> s_tasks (publishReconcileChildEvents rows r s) = s_tasks s"
proof -
  have "s_jobs s' = s_jobs s \<and> s_nextJob s' = s_nextJob s \<and> s_tasks s' = s_tasks s"
    if "s' = foldl (\<lambda>s (i, prev). publish_event (TaskUpdated i prev (Some ''cancelled'') (Some r)) s) s rows" for s'
    using that by (induction rows arbitrary: s) (auto simp: publish_event_def)
  then show ?thesis by (simp add: publishReconcileChildEvents_def)
qed

lemmas events_frames [simp] = events_frame [THEN conjunct1] events_frame [THEN conjunct2, THEN conjunct1]
  events_frame [THEN conjunct2, THEN conjunct2]

lemma pending_wake_iff:
  "taskHasPendingWake s i \<longleftrightarrow> (\<exists>j\<in>set (s_jobs s). j_taskId j = Some i \<and> active_job j)"
  by (simp add: taskHasPendingWake_def list_ex_iff)

lemma jobs_ok_arm:
  assumes "jobs_ok s" "arm_job jid f i s = Inr s'" "j0 \<in> set (s_jobs s)" "j_id j0 = jid" "j_taskId j0 = Some i"
    "\<And>j. j_id (f j) = j_id j \<and> j_taskId (f j) = j_taskId j"
  shows "jobs_ok s' \<and> s_tasks s' = s_tasks s"
proof -
  have none: "\<not> taskHasPendingWake s i" and s': "s' = update_jobs (\<lambda>j. j_id j = jid) f s"
    using assms(2) by (auto simp: arm_job_def split: if_splits)
  have tgt: "x \<in> set (s_jobs s) \<Longrightarrow> j_id x = jid \<Longrightarrow> j_taskId x = Some i" for x
    using jobs_ok_unique(2) [OF assms(1) _ assms(3), of x] assms(4,5) by simp
  have quiet: "x \<in> set (s_jobs s) \<Longrightarrow> j_taskId x = Some i \<Longrightarrow> \<not> active_job x" for x
    using none unfolding pending_wake_iff by blast
  have "jobs_ok s'" unfolding s'
  proof (rule jobs_ok_update [OF assms(1)])
    show "j_id (f j) = j_id j \<and> j_taskId (f j) = j_taskId j" for j by (rule assms(6))
    fix j k
    assume jk: "j \<in> set (s_jobs s)" "k \<in> set (s_jobs s)"
      and act: "active_job (if j_id j = jid then f j else j)" "active_job (if j_id k = jid then f k else k)"
      and tid: "j_taskId j \<noteq> None" "j_taskId j = j_taskId k"
    show "j = k"
    proof (cases "j_taskId j = Some i")
      case True
      then have "\<not> active_job j" "\<not> active_job k" using quiet jk tid by simp_all
      then have "j_id j = jid" "j_id k = jid" using act by (auto split: if_splits)
      then show ?thesis using jobs_ok_unique(2) [OF assms(1) jk] by simp
    next
      case False
      then have "j_id j \<noteq> jid" "j_id k \<noteq> jid" using tgt jk tid by auto
      with act have "active_job j" "active_job k" by simp_all
      then show ?thesis using jobs_ok_unique(1) [OF assms(1) jk] tid by simp
    qed
  qed
  then show ?thesis by (simp add: s' update_jobs_def)
qed

lemma jobs_ok_insert:
  assumes "jobs_ok s" "insert_job mk i s = Inr (s', n)" "\<And>n. j_id (mk n) = n \<and> j_taskId (mk n) = Some i"
  shows "jobs_ok s' \<and> s_tasks s' = s_tasks s"
proof -
  have none: "\<not> taskHasPendingWake s i"
    and s': "s' = s\<lparr>s_jobs := s_jobs s @ [mk (s_nextJob s)], s_nextJob := s_nextJob s + 1\<rparr>"
    using assms(2) by (auto simp: insert_job_def split: if_splits)
  let ?m = "mk (s_nextJob s)"
  have m: "j_id ?m = s_nextJob s" "j_taskId ?m = Some i" using assms(3) by simp_all
  have lt: "j \<in> set (s_jobs s) \<Longrightarrow> j_id j < s_nextJob s" for j using assms(1) by (simp add: jobs_ok_def)
  have quiet: "x \<in> set (s_jobs s) \<Longrightarrow> j_taskId x = Some i \<Longrightarrow> \<not> active_job x" for x
    using none unfolding pending_wake_iff by blast
  have "jobs_ok s'"
  proof (rule jobs_okI)
    have "s_nextJob s \<notin> j_id ` set (s_jobs s)" using lt less_irrefl by fastforce
    then show "distinct (map j_id (s_jobs s'))" using assms(1) m(1) by (simp add: s' jobs_ok_def)
    show "j \<in> set (s_jobs s') \<Longrightarrow> j_id j < s_nextJob s'" for j using lt m(1) by (auto simp: s' less_Suc_eq)
    fix j k
    assume jk: "j \<in> set (s_jobs s')" "k \<in> set (s_jobs s')" and act: "active_job j" "active_job k"
      and tid: "j_taskId j \<noteq> None" "j_taskId j = j_taskId k"
    have c: "j \<in> set (s_jobs s) \<or> j = ?m" "k \<in> set (s_jobs s) \<or> k = ?m" using jk by (auto simp: s')
    show "j = k"
    proof (cases "j_taskId j = Some i")
      case True
      then have "j = ?m" "k = ?m" using c quiet act tid by auto
      then show ?thesis by simp
    next
      case False
      then have "j \<in> set (s_jobs s)" "k \<in> set (s_jobs s)" using c tid m(2) by auto
      with jobs_ok_unique(1) [OF assms(1)] act tid show ?thesis by simp
    qed
  qed
  then show ?thesis by (simp add: s')
qed

lemma newest_job_Some:
  assumes "newest_job P s = Some j"
  shows "j \<in> set (s_jobs s) \<and> P j"
proof -
  have "find P xs = Some j \<Longrightarrow> j \<in> set xs \<and> P j" for xs
    by (induction xs) (auto split: if_splits)
  from this [OF assms [unfolded newest_job_def]] show ?thesis by simp
qed

lemma get_job_Some:
  assumes "get_job s n = Some j"
  shows "j \<in> set (s_jobs s) \<and> j_id j = n"
proof -
  have "find P xs = Some j \<Longrightarrow> j \<in> set xs \<and> P j" for P and xs :: "wake_job list"
    by (induction xs) (auto split: if_splits)
  from this [OF assms [unfolded get_job_def]] show ?thesis .
qed

text \<open>One row rewritten by its id: the index says whether its new task already has an active job.\<close>

lemma jobs_ok_rewrite:
  assumes ok: "jobs_ok s" and j: "get_job s n = Some j" and f: "j_id (f j) = n" and clash: "\<not> index_clash s (f j)"
  shows "jobs_ok (update_jobs (\<lambda>k. j_id k = n) f s)"
proof -
  let ?h = "\<lambda>k. if j_id k = n then f k else k"
  have jin: "j \<in> set (s_jobs s)" "j_id j = n" using get_job_Some [OF j] by simp_all
  have only: "k \<in> set (s_jobs s) \<Longrightarrow> j_id k = n \<Longrightarrow> k = j" for k
    using jobs_ok_unique(2) [OF ok _ jin(1)] jin(2) by simp
  have hid: "k \<in> set (s_jobs s) \<Longrightarrow> j_id (?h k) = j_id k" for k using only f by auto
  have jobs: "s_jobs (update_jobs (\<lambda>k. j_id k = n) f s) = map ?h (s_jobs s)"
    "s_nextJob (update_jobs (\<lambda>k. j_id k = n) f s) = s_nextJob s"
    by (simp_all add: update_jobs_def)
  have new: "k \<in> set (map ?h (s_jobs s)) \<Longrightarrow> k = f j \<or> k \<in> set (s_jobs s) \<and> j_id k \<noteq> n" for k
    using only by auto
  have sep: "active_job k \<Longrightarrow> active_job (f j) \<Longrightarrow> j_taskId k \<noteq> None \<Longrightarrow> j_taskId k = j_taskId (f j) \<Longrightarrow> False"
    if "k \<in> set (s_jobs s)" "j_id k \<noteq> n" for k
    using clash that f by (auto simp: index_clash_def list_ex_iff)
  show ?thesis
  proof (rule jobs_okI)
    have "map j_id (map ?h (s_jobs s)) = map j_id (s_jobs s)" using hid by (auto simp: comp_def)
    then show "distinct (map j_id (s_jobs (update_jobs (\<lambda>k. j_id k = n) f s)))"
      using ok unfolding jobs by (simp only: jobs_ok_def)
  next
    fix k assume "k \<in> set (s_jobs (update_jobs (\<lambda>k. j_id k = n) f s))"
    then obtain k0 where "k0 \<in> set (s_jobs s)" "k = ?h k0" unfolding jobs by auto
    then show "j_id k < s_nextJob (update_jobs (\<lambda>k. j_id k = n) f s)"
      using ok hid [of k0] unfolding jobs jobs_ok_def by simp
  next
    fix a b assume ab: "a \<in> set (s_jobs (update_jobs (\<lambda>k. j_id k = n) f s))"
      "b \<in> set (s_jobs (update_jobs (\<lambda>k. j_id k = n) f s))"
      and act: "active_job a" "active_job b" and tid: "j_taskId a \<noteq> None" "j_taskId a = j_taskId b"
    from ab have c: "a = f j \<or> a \<in> set (s_jobs s) \<and> j_id a \<noteq> n" "b = f j \<or> b \<in> set (s_jobs s) \<and> j_id b \<noteq> n"
      unfolding jobs using new by blast+
    then show "a = b" using sep [of a] sep [of b] act tid jobs_ok_unique(1) [OF ok, of a b] by auto
  qed
qed

lemma jobs_ok_insert_row:
  assumes ok: "jobs_ok s" and r: "insert_row j s = Inr s'" and j: "j_id j = s_nextJob s"
  shows "jobs_ok s'"
proof -
  have clash: "\<not> index_clash s j" and s': "s' = s\<lparr>s_jobs := s_jobs s @ [j], s_nextJob := s_nextJob s + 1\<rparr>"
    using r by (auto simp: insert_row_def violation_def split: option.splits if_splits)
  have lt: "k \<in> set (s_jobs s) \<Longrightarrow> j_id k < s_nextJob s" for k using ok by (simp add: jobs_ok_def)
  have sep: "active_job k \<Longrightarrow> active_job j \<Longrightarrow> j_taskId k \<noteq> None \<Longrightarrow> j_taskId k = j_taskId j \<Longrightarrow> False"
    if "k \<in> set (s_jobs s)" for k
    using clash that lt [OF that] j by (auto simp: index_clash_def list_ex_iff)
  show ?thesis
  proof (rule jobs_okI)
    have "s_nextJob s \<notin> j_id ` set (s_jobs s)" using lt less_irrefl by fastforce
    then show "distinct (map j_id (s_jobs s'))" using ok j by (simp add: s' jobs_ok_def)
    show "k \<in> set (s_jobs s') \<Longrightarrow> j_id k < s_nextJob s'" for k using lt j by (auto simp: s' less_Suc_eq)
    fix a b assume "a \<in> set (s_jobs s')" "b \<in> set (s_jobs s')" "active_job a" "active_job b"
      "j_taskId a \<noteq> None" "j_taskId a = j_taskId b"
    then show "a = b" using sep [of a] sep [of b] jobs_ok_unique(1) [OF ok, of a b] by (auto simp: s')
  qed
qed

section \<open>Descendants\<close>

lemma tasks_ok_entry:
  assumes "tasks_ok s" "(k, t) \<in> set (s_tasks s)"
  shows "t_id t = k" "k \<noteq> []" "getTask s k = Some t"
proof -
  have "skel_of (k, t) \<in> set (skeleton s)" using assms(2) by (simp add: skeleton_def)
  then show "t_id t = k" "k \<noteq> []"
    using skel_ok_id [OF assms(1) [unfolded tasks_ok_def]] by (fastforce simp: skel_of_def)+
  show "getTask s k = Some t"
    using owf_map_of [OF tasks_ok_owf [OF assms(1)]] assms(2) by (simp add: getTask_def)
qed

lemma getTask_entry: "getTask s k = Some t \<Longrightarrow> (k, t) \<in> set (s_tasks s)"
  by (simp add: getTask_def map_of_SomeD)

lemma parent_rel_iff:
  "tasks_ok s \<Longrightarrow> (k, p) \<in> parent_rel s \<longleftrightarrow> (\<exists>t. getTask s k = Some t \<and> t_parentTaskId t = Some p)"
  by (auto simp: parent_rel_def dest: getTask_entry tasks_ok_entry(3))

text \<open>A parent is in the store, ranks at least as high, and stands before its child.\<close>

lemma parent_facts:
  assumes "tasks_ok s" "(k, p) \<in> parent_rel s"
  shows "\<exists>t q. getTask s k = Some t \<and> getTask s p = Some q
    \<and> originatorRank (t_originator t) \<le> originatorRank (t_originator q)"
proof -
  obtain t where t: "getTask s k = Some t" "t_parentTaskId t = Some p"
    using assms by (auto simp: parent_rel_iff)
  then have "(k, t_id t, Some p, originatorRank (t_originator t)) \<in> set (skeleton s)"
    by (auto simp: skeleton_def skel_of_def dest!: getTask_entry intro!: image_eqI [where x = "(k, t)"])
  from skel_ok_parent [OF assms(1) [unfolded tasks_ok_def] this]
  obtain i' p' r' where "(p, i', p', r') \<in> set (skeleton s)" "originatorRank (t_originator t) \<le> r'" by blast
  then obtain q where "(p, q) \<in> set (s_tasks s)" "originatorRank (t_originator t) \<le> originatorRank (t_originator q)"
    by (auto simp: skeleton_def skel_of_def)
  with t tasks_ok_entry(3) [OF assms(1)] show ?thesis by blast
qed

fun skel_pos :: "skel list \<Rightarrow> string \<Rightarrow> nat" where \<comment> \<open>1 for the oldest, 0 for none\<close>
  "skel_pos [] k = 0"
| "skel_pos (x # sk) k = (if fst x = k then Suc (length sk) else skel_pos sk k)"

lemma skel_pos_le: "skel_pos sk k \<le> length sk"
  by (induction sk) auto

lemma skel_pos_parent:
  "skel_ok sk \<Longrightarrow> (k, i, Some p, r) \<in> set sk \<Longrightarrow> skel_pos sk p < skel_pos sk k"
proof (induction sk rule: skel_ok.induct)
  case (2 k' i' p' r' sk)
  show ?case
  proof (cases "k' = k")
    case True
    then have "(k, i, Some p, r) = (k', i', p', r')" using "2.prems" by force
    then have "p \<in> fst ` set sk" using "2.prems"(1) by force
    then have "p \<noteq> k'" using "2.prems"(1) by auto
    with True skel_pos_le [of sk p] show ?thesis by simp
  next
    case False
    then have m: "(k, i, Some p, r) \<in> set sk" using "2.prems" by auto
    with "2.IH" "2.prems"(1) have lt: "skel_pos sk p < skel_pos sk k" by simp
    have "p \<in> fst ` set sk" using skel_ok_parent [OF _ m] "2.prems"(1) by force
    then have "p \<noteq> k'" using "2.prems"(1) by auto
    with lt False show ?thesis by simp
  qed
qed simp

lemma parent_pos: "tasks_ok s \<Longrightarrow> (k, p) \<in> parent_rel s \<Longrightarrow> skel_pos (skeleton s) p < skel_pos (skeleton s) k"
proof -
  assume ok: "tasks_ok s" and "(k, p) \<in> parent_rel s"
  then obtain t where "(k, t) \<in> set (s_tasks s)" "t_parentTaskId t = Some p" by (auto simp: parent_rel_def)
  then have "(k, t_id t, Some p, originatorRank (t_originator t)) \<in> set (skeleton s)"
    by (auto simp: skeleton_def skel_of_def intro!: image_eqI [where x = "(k, t)"])
  with ok show ?thesis unfolding tasks_ok_def by (rule skel_pos_parent)
qed

lemma children_of_iff: "k \<in> set (children_of s is) \<longleftrightarrow> (\<exists>p\<in>set is. (k, p) \<in> parent_rel s)"
  by (force simp: children_of_def parent_rel_def split: option.splits)

lemma descendant_levels_spec:
  assumes "tasks_ok s"
  shows "\<forall>k\<in>set level. length (s_tasks s) < skel_pos (skeleton s) k + n \<Longrightarrow>
    \<exists>ds. descendant_levels n s level = Some ds \<and> set ds = {k. \<exists>l\<in>set level. (k, l) \<in> (parent_rel s)\<^sup>*}"
proof (induction n arbitrary: level)
  case 0
  have "skel_pos (skeleton s) k \<le> length (s_tasks s)" for k
    using skel_pos_le [of "skeleton s" k] by (simp add: skeleton_def)
  with 0 have "level = []" by (metis Nat.add_0_right leD list.set_intros(1) neq_Nil_conv)
  then show ?case by simp
next
  case (Suc n)
  show ?case
  proof (cases "level = []")
    case False
    have "\<forall>k\<in>set (children_of s level). length (s_tasks s) < skel_pos (skeleton s) k + n"
      using Suc.prems parent_pos [OF assms] by (fastforce simp: children_of_iff)
    from Suc.IH [OF this] obtain ds where ds: "descendant_levels n s (children_of s level) = Some ds"
      "set ds = {k. \<exists>l\<in>set (children_of s level). (k, l) \<in> (parent_rel s)\<^sup>*}" by blast
    have "{k. \<exists>l\<in>set level. (k, l) \<in> (parent_rel s)\<^sup>*} = set level \<union> set ds"
      (is "?L = ?R")
    proof (intro set_eqI iffI)
      fix k assume "k \<in> ?L"
      then obtain l where l: "l \<in> set level" "(k, l) \<in> (parent_rel s)\<^sup>*" by blast
      from l(2) show "k \<in> ?R"
      proof (cases rule: rtranclE)
        case (step c)
        then have "c \<in> set (children_of s level)" using l(1) by (auto simp: children_of_iff)
        with step(1) show ?thesis unfolding ds(2) by blast
      qed (use l in simp)
    next
      fix k assume "k \<in> ?R"
      then show "k \<in> ?L"
      proof
        assume "k \<in> set ds"
        then obtain c p where "(k, c) \<in> (parent_rel s)\<^sup>*" "(c, p) \<in> parent_rel s" "p \<in> set level"
          unfolding ds(2) by (auto simp: children_of_iff)
        then have "(k, p) \<in> (parent_rel s)\<^sup>*" "p \<in> set level" by (auto intro: rtrancl_into_rtrancl)
        then show ?thesis by blast
      qed blast
    qed
    with ds(1) False show ?thesis by simp
  qed simp
qed

lemma descendants_spec:
  assumes "tasks_ok s"
  shows "\<exists>ds. descendants s i = Some ds \<and> set ds = {k. (k, i) \<in> (parent_rel s)\<^sup>+}"
proof -
  have "\<forall>k\<in>set (children_of s [i]). length (s_tasks s) < skel_pos (skeleton s) k + length (s_tasks s)"
    using parent_pos [OF assms] by (fastforce simp: children_of_iff)
  from descendant_levels_spec [OF assms this] obtain ds where
    ds: "descendants s i = Some ds" "set ds = {k. \<exists>l\<in>set (children_of s [i]). (k, l) \<in> (parent_rel s)\<^sup>*}"
    unfolding descendants_def by blast
  have "{k. \<exists>l\<in>set (children_of s [i]). (k, l) \<in> (parent_rel s)\<^sup>*} = {k. (k, i) \<in> (parent_rel s)\<^sup>+}"
    (is "?L = ?R")
  proof (intro set_eqI iffI)
    fix k assume "k \<in> ?L"
    then show "k \<in> ?R" by (auto simp: children_of_iff intro: rtrancl_into_trancl1)
  next
    fix k assume "k \<in> ?R"
    then obtain c where "(k, c) \<in> (parent_rel s)\<^sup>*" "(c, i) \<in> parent_rel s" by (auto dest: tranclD2)
    then have "c \<in> set (children_of s [i])" by (simp add: children_of_iff)
    with \<open>(k, c) \<in> (parent_rel s)\<^sup>*\<close> show "k \<in> ?L" by blast
  qed
  with ds show ?thesis by simp
qed

end
