(* ===== verification/TaskRepoProofs.thy ===== *)
theory TaskRepoProofs
  imports TaskRepoInv
begin

text \<open>
  Every operation of the task store keeps its invariant, and the properties that follow: wakes are
  unique per task, lineage never rises along a chain of parents, and a task that is closed leaves no
  open task below it.
\<close>

section \<open>Preservation\<close>

definition store_ok :: "task_store \<Rightarrow> bool" where
  "store_ok s \<longleftrightarrow> tasks_ok s \<and> jobs_ok s"

named_theorems keeps_ok \<open>operations that keep the store invariant\<close>

lemma tasks_ok_skel: "skeleton s' = skeleton s \<Longrightarrow> tasks_ok s' = tasks_ok s"
  by (simp add: tasks_ok_def)

lemma ok_update_row [keeps_ok]: "same_skel f \<Longrightarrow> store_ok s \<Longrightarrow> store_ok (update_row i f s)"
  unfolding store_ok_def
  using tasks_ok_skel [OF skeleton_update_row] jobs_ok_cong [of "update_row i f s" s] by simp

lemma ok_publish [keeps_ok]: "store_ok s \<Longrightarrow> store_ok (publish_event e s)"
  unfolding store_ok_def
  using tasks_ok_skel [of "publish_event e s" s] jobs_ok_cong [of "publish_event e s" s] by simp

lemma ok_events [keeps_ok]: "store_ok s \<Longrightarrow> store_ok (publishReconcileChildEvents rows r s)"
  unfolding store_ok_def
  using tasks_ok_skel [of "publishReconcileChildEvents rows r s" s]
    jobs_ok_cong [of "publishReconcileChildEvents rows r s" s] by simp

lemma ok_calm [keeps_ok]: "calming P g \<Longrightarrow> store_ok s \<Longrightarrow> store_ok (update_jobs P g s)"
  unfolding store_ok_def
  using tasks_ok_skel [of "update_jobs P g s" s] jobs_ok_calm by simp

lemma ok_cancel_wakes [keeps_ok]: "store_ok s \<Longrightarrow> store_ok (cancel_wakes i s)"
  unfolding cancel_wakes_def by (rule ok_calm) (auto simp: calming_def active_job_def)

lemma ok_kill_wakes [keeps_ok]: "store_ok s \<Longrightarrow> store_ok (kill_wakes is s)"
  unfolding kill_wakes_def by (rule ok_calm) (auto simp: calming_def active_job_def)

lemma same_skelI: "(\<And>t. t_id (f t) = t_id t \<and> t_parentTaskId (f t) = t_parentTaskId t \<and> t_originator (f t) = t_originator t)
    \<Longrightarrow> same_skel f"
  by (simp add: same_skel_def)

lemma ok_guarded [keeps_ok]: "same_skel f \<Longrightarrow> store_ok s \<Longrightarrow> store_ok (fst (guarded_update b i f s))"
  by (auto simp: guarded_update_def ok_update_row split: option.splits)

lemma ok_arm:
  assumes "store_ok s" "arm_job jid f i s = Inr s'" "j0 \<in> set (s_jobs s)" "j_id j0 = jid" "j_taskId j0 = Some i"
    "\<And>j. j_id (f j) = j_id j \<and> j_taskId (f j) = j_taskId j"
  shows "store_ok s'"
proof -
  have a: "jobs_ok s' \<and> s_tasks s' = s_tasks s"
    using assms(1) by (intro jobs_ok_arm [OF _ assms(2-6)]) (simp add: store_ok_def)
  then have "skeleton s' = skeleton s" by (simp add: skeleton_def)
  with a assms(1) show ?thesis by (simp add: store_ok_def tasks_ok_def)
qed

lemma ok_insert:
  assumes "store_ok s" "insert_job mk i s = Inr (s', n)" "\<And>n. j_id (mk n) = n \<and> j_taskId (mk n) = Some i"
  shows "store_ok s'"
proof -
  have a: "jobs_ok s' \<and> s_tasks s' = s_tasks s"
    using assms(1) by (intro jobs_ok_insert [OF _ assms(2,3)]) (simp add: store_ok_def)
  then have "skeleton s' = skeleton s" by (simp add: skeleton_def)
  with a assms(1) show ?thesis by (simp add: store_ok_def tasks_ok_def)
qed

lemma to_reconcile_iff:
  "k \<in> set (map fst (to_reconcile ds s)) \<longleftrightarrow>
     (\<exists>u. (k, u) \<in> set (s_tasks s) \<and> k \<in> set ds \<and> t_status u \<in> set RECONCILABLE_CHILD_STATUSES)"
  by (force simp: to_reconcile_def)

lemma reconcile_result:
  assumes "runReconcileChildrenQuery now i r s = Inr (s', rows)"
  obtains ds where "descendants s i = Some ds" "rows = to_reconcile ds s"
    "s' = kill_wakes (map fst rows) (s\<lparr>s_tasks := map (cancel_row now r (map fst rows)) (s_tasks s)\<rparr>)"
  using assms by (auto simp: runReconcileChildrenQuery_def Let_def split: option.splits)

lemma skeleton_tasks: "map skel_of (s_tasks s') = map skel_of (s_tasks s) \<Longrightarrow> skeleton s' = skeleton s"
  by (simp add: skeleton_def)

lemma ok_reconcile [keeps_ok]:
  assumes "store_ok s" "runReconcileChildrenQuery now i r s = Inr (s', rows)"
  shows "store_ok s'"
proof -
  have s': "s' = kill_wakes (map fst rows) (s\<lparr>s_tasks := map (cancel_row now r (map fst rows)) (s_tasks s)\<rparr>)"
    (is "_ = kill_wakes _ ?s1")
    using reconcile_result [OF assms(2)] by blast
  have "skeleton ?s1 = skeleton s" by (rule skeleton_tasks) (auto simp: skel_of_def cancel_row_def)
  moreover have "jobs_ok ?s1 = jobs_ok s" by (rule jobs_ok_cong) simp_all
  ultimately have "store_ok ?s1" using assms(1) by (simp add: store_ok_def tasks_ok_def)
  then show ?thesis unfolding s' by (rule ok_kill_wakes)
qed

lemma ok_arm_newest:
  assumes "store_ok s" "newest_job P s = Some j0" "arm_job (j_id j0) f i s = Inr s'"
    "\<And>j. P j \<Longrightarrow> j_taskId j = Some i" "\<And>j. j_id (f j) = j_id j \<and> j_taskId (f j) = j_taskId j"
  shows "store_ok s'"
  using newest_job_Some [OF assms(2)] assms(4) by (intro ok_arm [OF assms(1,3) _ refl _ assms(5)]) auto

lemma ok_touch: "store_ok s \<Longrightarrow> store_ok (update_row i (\<lambda>t. t\<lparr>t_updatedAt := x\<rparr>) s)"
  by (rule ok_update_row) (simp_all add: same_skel_def)

lemma ok_enqueue:
  assumes ok: "store_ok s"
  shows "store_ok (fst (enqueueTaskWake i a w c og d now s))"
proof (cases "newest_job (\<lambda>j. j_taskId j = Some i \<and> j_taskWake j \<and> terminal_job j) s")
  case None
  show ?thesis
    unfolding enqueueTaskWake_def Let_def None option.case
    using ok by (auto split: sum.splits intro!: ok_touch elim!: ok_insert [rotated])
next
  case (Some old)
  show ?thesis
    unfolding enqueueTaskWake_def Let_def Some option.case
    using ok by (auto split: sum.splits intro!: ok_touch elim!: ok_arm_newest [OF ok Some])
qed

lemma ok_reschedule:
  assumes ok: "store_ok s" and r: "reschedule_wake w i a c og s = Inr s'"
  shows "store_ok s'"
proof -
  let ?mine = "\<lambda>st j. j_taskId j = Some i \<and> j_taskWake j \<and> j_status j = st"
  consider (pending) "list_ex (?mine JPending) (s_jobs s)"
    | (running) "\<not> list_ex (?mine JPending) (s_jobs s)" "list_ex (?mine JRunning) (s_jobs s)"
    | (none) "\<not> list_ex (?mine JPending) (s_jobs s)" "\<not> list_ex (?mine JRunning) (s_jobs s)" by blast
  then show ?thesis
  proof cases
    case pending
    then show ?thesis
      using r ok by (auto simp: reschedule_wake_def Let_def calming_def active_job_def split: if_splits intro!: ok_calm)
  next
    case running
    then show ?thesis
      using r ok by (auto simp: reschedule_wake_def Let_def calming_def active_job_def intro!: ok_calm)
  next
    case none
    show ?thesis
    proof (cases "newest_job (\<lambda>j. j_taskId j = Some i \<and> j_taskWake j \<and> terminal_job j) s")
      case None
      with r none ok show ?thesis
        by (auto simp: reschedule_wake_def Let_def map_sum_def split: sum.splits elim!: ok_insert [rotated])
    next
      case (Some old)
      with r none show ?thesis
        by (auto simp: reschedule_wake_def Let_def elim!: ok_arm_newest [OF ok Some])
    qed
  qed
qed

lemma ok_finish:
  assumes "store_ok s1" "runReconcileChildrenQuery now i r s1 = Inr (s2, rows)"
  shows "store_ok (publishReconcileChildEvents rows r (publish_event e s2))"
  by (intro ok_events ok_publish ok_reconcile [OF assms])

lemma ok_complete: "store_ok s \<Longrightarrow> store_ok (fst (completeTask now i note s))"
  by (auto simp: completeTask_def Let_def same_skel_def split: option.splits sum.splits
      intro!: ok_cancel_wakes ok_update_row elim!: ok_finish [rotated])

lemma ok_fail: "store_ok s \<Longrightarrow> store_ok (fst (failResumableTask now i note c tags s))"
  by (auto simp: failResumableTask_def Let_def same_skel_def split: option.splits sum.splits
      intro!: ok_kill_wakes ok_update_row elim!: ok_finish [rotated])

lemma ok_reopen:
  assumes ok: "store_ok s"
  shows "store_ok (fst (reopenTask now i note s))"
proof -
  define s1 where "s1 = update_row i (\<lambda>t. t\<lparr>t_status := ''open'', t_progress := append_note
      (note_entry now (case note of Some x \<Rightarrow> x | None \<Rightarrow> ''Reopened (undo auto-complete from sent mail)'')) (t_progress t),
      t_updatedAt := toISOString now\<rparr>) s"
  have ok1: "store_ok s1" unfolding s1_def by (rule ok_update_row) (simp_all add: same_skel_def ok)
  show ?thesis
    unfolding reopenTask_def Let_def s1_def [symmetric]
    using ok ok1 by (auto split: option.splits sum.splits intro!: ok_publish elim!: ok_arm_newest [OF ok1])
qed

lemma apply_updates_skel: "same_skel (apply_updates now u)"
  by (simp add: same_skel_def apply_updates_def)

lemma ok_executeUpdate:
  assumes ok: "store_ok s" and e: "executeUpdate now i cur u caller s = Inr (s', row)"
  shows "store_ok s'"
proof -
  let ?g = "guarded_update TERMINAL_STATUSES i (apply_updates now u) s"
  have g: "store_ok (fst ?g)" by (rule ok_guarded [OF apply_updates_skel ok])
  show ?thesis
    using e g by (auto simp: executeUpdate_def Let_def split: if_splits prod.splits option.splits sum.splits
        intro!: ok_cancel_wakes elim!: ok_reschedule [rotated])
qed

lemma ok_update:
  assumes ok: "store_ok s"
  shows "store_ok (fst (updateTask now i u caller s))"
proof (cases "getTask s i")
  case (Some current)
  show ?thesis
  proof (cases "executeUpdate now i current u caller s")
    case (Inr r)
    obtain s1 row where r: "r = (s1, row)" by (cases r)
    have ok1: "store_ok s1" using ok_executeUpdate [OF ok Inr [unfolded r]] .
    show ?thesis
      unfolding updateTask_def Some option.case Inr r sum.case prod.case Let_def
      using ok ok1 by (auto split: option.splits sum.splits prod.splits if_splits
          intro!: ok_events ok_publish elim!: ok_finish [rotated])
  qed (simp add: updateTask_def Some Let_def ok)
qed (simp add: updateTask_def ok)

lemma ok_store_block: "store_ok s \<Longrightarrow> store_ok (fst (store_block now i key p json s))"
  by (auto simp: store_block_def Let_def same_skel_def split: option.splits sum.splits
      intro!: ok_publish ok_update_row)

lemma ok_persist: "store_ok s \<Longrightarrow> store_ok (persistResumableCircuitState now i c s)"
  unfolding persistResumableCircuitState_def by (rule ok_guarded) (simp_all add: same_skel_def)

text \<open>A caller that already loaded the parent hands on the stored row.\<close>

definition parent_loaded :: "task_store \<Rightarrow> create_params \<Rightarrow> bool" where
  "parent_loaded s p \<longleftrightarrow> (case c_parentTask p of None \<Rightarrow> True | Some t \<Rightarrow> getTask s (t_id t) = Some t)"

lemma ok_create:
  assumes ok: "store_ok s" and i: "newId \<noteq> []" and p: "parent_loaded s p"
  shows "store_ok (fst (createTask now newId p s))"
proof (cases "getTask s newId = None \<and> row_ok (new_task_row now newId (resolved_originator s p) p) \<and> fk_ok s (c_parentTaskId p) \<and> fk_ok s (c_blockedByTaskId p)")
  case True
  define row where "row = new_task_row now newId (resolved_originator s p) p"
  define s1 where "s1 = s\<lparr>s_tasks := s_tasks s @ [(newId, row)]\<rparr>"
  have tok: "tasks_ok s" using ok by (simp add: store_ok_def)
  have sk: "skeleton s1 = (newId, newId, c_parentTaskId p, originatorRank (resolved_originator s p)) # skeleton s"
    by (simp add: s1_def skeleton_def skel_of_def row_def new_task_row_def)
  have fresh: "newId \<notin> fst ` set (skeleton s)"
    using True by (simp add: skel_keys getTask_def map_of_eq_None_iff)
  have par: "\<exists>i' p' r'. (q, i', p', r') \<in> set (skeleton s) \<and> originatorRank (resolved_originator s p) \<le> r'"
    if q: "c_parentTaskId p = Some q" for q
  proof -
    obtain t where t: "getTask s q = Some t" using True q by (auto simp: fk_ok_def)
    then have e: "(q, t) \<in> set (s_tasks s)" by (rule getTask_entry)
    then have "q \<noteq> []" using tasks_ok_entry(2) [OF tok] by blast
    then have "resolved_originator s p = capOriginatorToParent (c_originator p) (t_originator t)"
      using q t p by (auto simp: resolved_originator_def truthy_id_def parent_loaded_def split: option.splits)
    then have "originatorRank (resolved_originator s p) \<le> originatorRank (t_originator t)" by (simp add: cap_le_parent)
    moreover have "skel_of (q, t) \<in> set (skeleton s)" using e by (simp add: skeleton_def)
    ultimately show ?thesis unfolding skel_of_def by force
  qed
  have "tasks_ok s1"
    unfolding tasks_ok_def sk using tok i fresh par by (auto simp: tasks_ok_def split: option.splits)
  moreover have "jobs_ok s1" using ok jobs_ok_cong [of s1 s] by (simp add: s1_def store_ok_def)
  ultimately have ok1: "store_ok s1" by (simp add: store_ok_def)
  show ?thesis
  proof (cases "c_wakeAt p")
    case None
    then show ?thesis
      using True ok1 by (simp add: createTask_def Let_def row_def [symmetric] s1_def [symmetric] ok_publish)
  next
    case (Some w)
    then show ?thesis
      using True ok ok1 unfolding createTask_def Let_def row_def [symmetric] s1_def [symmetric]
      by (auto simp: map_sum_def split: sum.splits intro!: ok_publish elim!: ok_insert [OF ok1])
  qed
next
  case False
  then show ?thesis using ok by (auto simp: createTask_def)
qed

section \<open>Preservation by the scheduler\<close>

lemma ok_update_job:
  assumes ok: "store_ok s" and u: "update_job n guard f s = Inr (s', row)" and f: "\<And>k. j_id (f k) = j_id k"
  shows "store_ok s'"
proof (cases "s' = s")
  case False
  then obtain j where j: "get_job s n = Some j" "s' = update_jobs (\<lambda>k. j_id k = n) f s" "violation s (f j) = None"
    using u by (auto simp: update_job_def split: option.splits if_splits)
  then have "\<not> index_clash s (f j)" by (auto simp: violation_def split: if_splits)
  then have "jobs_ok s'" using ok j f get_job_Some [OF j(1)] by (auto simp: store_ok_def intro: jobs_ok_rewrite)
  moreover have "skeleton s' = skeleton s" unfolding j(2) by simp
  ultimately show ?thesis using ok by (simp add: store_ok_def tasks_ok_def)
qed (use ok in simp)

lemma ok_written:
  assumes "store_ok s" "\<And>k. j_id (f k) = j_id k"
  shows "store_ok (fst (written s (update_job n guard f s) k))"
  using assms ok_update_job [OF assms(1), of n guard f] by (auto simp: written_def split: sum.splits)

lemma ok_update_linked [keeps_ok]: "same_skel f \<Longrightarrow> store_ok s \<Longrightarrow> store_ok (update_linked n g f s)"
  by (auto simp: update_linked_def ok_update_row split: option.splits)

lemma same_skel_set_status [simp]: "same_skel (set_status now st)"
  by (simp add: same_skel_def set_status_def)

lemma ok_insert_row:
  assumes ok: "store_ok s" and r: "insert_row j s = Inr s'" and j: "j_id j = s_nextJob s"
  shows "store_ok s'"
proof -
  have "skeleton s' = skeleton s" using r by (auto simp: insert_row_def skeleton_def split: option.splits)
  then show ?thesis using ok jobs_ok_insert_row [OF _ r j] by (simp add: store_ok_def tasks_ok_def)
qed

text \<open>A task without a parent and without a lineage, as a schedule brings one along.\<close>

lemma ok_new_root:
  assumes ok: "store_ok s" and i: "i \<noteq> []" "getTask s i = None"
    and row: "t_id row = i" "t_parentTaskId row = None"
  shows "store_ok (s\<lparr>s_tasks := s_tasks s @ [(i, row)]\<rparr>)" (is "store_ok ?s")
proof -
  have sk: "skeleton ?s = (i, i, None, originatorRank (t_originator row)) # skeleton s"
    by (simp add: skeleton_def skel_of_def row)
  have "i \<notin> fst ` set (skeleton s)" using i(2) by (simp add: skel_keys getTask_def map_of_eq_None_iff)
  then have "tasks_ok ?s" using ok i(1) by (simp add: store_ok_def tasks_ok_def sk)
  moreover have "jobs_ok ?s" using ok jobs_ok_cong [of ?s s] by (simp add: store_ok_def)
  ultimately show ?thesis by (simp add: store_ok_def)
qed

lemma ok_link:
  assumes "store_ok s" "newId \<noteq> []" "link_new_task now newId n a anchor b s = Inr s'"
  shows "store_ok s'"
  using assms ok_new_root [OF assms(1,2), of "anchored_task now newId a anchor b"]
  by (auto simp: link_new_task_def anchored_task_def map_sum_def split: if_splits sum.splits elim!: ok_update_job)

lemma ok_createJob:
  assumes ok: "store_ok s" and i: "newId \<noteq> []"
  shows "store_ok (fst (createJob env now newId p s))"
proof (cases "check_params env now p")
  case (Inr r)
  obtain tz t dur where r: "r = (tz, t, dur)" by (cases r)
  show ?thesis
  proof (cases "insert_row (created_job p tz t dur (s_nextJob s)) s")
    case Inr': (Inr s1)
    have "store_ok s1" by (rule ok_insert_row [OF ok Inr']) (simp add: created_job_def)
    then show ?thesis
      using ok i Inr Inr' r by (auto simp: createJob_def Let_def split: option.splits sum.splits
          intro!: ok_publish elim!: ok_link)
  qed (use ok Inr r in \<open>simp add: createJob_def Let_def\<close>)
qed (use ok in \<open>simp add: createJob_def\<close>)

lemma ok_upsert:
  assumes ok: "store_ok s" and i: "newId \<noteq> []"
  shows "store_ok (fst (upsertDeclarativeJob env now newId src a d s))"
proof (cases "nextRunFromCron env (ds_cron d) (e_timezone env) now")
  case (Inr t)
  define new where "new = declared_job env now src a d t (s_nextJob s)"
  define prior where "prior = find (declares src a (ds_cron d) (j_payload new)) (s_jobs s)"
  define n where "n = (case prior of Some j \<Rightarrow> j_id j | None \<Rightarrow> j_id new)"
  define ups where "ups = (case prior of None \<Rightarrow> insert_row new s
    | Some _ \<Rightarrow> map_sum id fst (update_job n (\<lambda>j. True) (redeclare new) s))"
  have ok1: "store_ok s1" if "ups = Inr s1" for s1
    using that ok ok_insert_row [OF ok, of new]
    by (auto simp: ups_def new_def declared_job_def redeclare_def Let_def map_sum_def split: option.splits sum.splits
        elim!: ok_update_job)
  show ?thesis
  proof (cases ups)
    case (Inr s1)
    note up = Inr
    define s2 where "s2 = (if case prior of Some j \<Rightarrow> j_status j = JCancelled | None \<Rightarrow> False
      then update_linked n (\<lambda>j u. t_status u = ''cancelled'') (set_status now ''active'') s1 else s1)"
    have ok2: "store_ok s2" unfolding s2_def using ok1 [OF up] by (auto intro: ok_update_linked)
    then have "store_ok s3" if "link_new_task now newId n a anchor [] s2 = Inr s3" for anchor s3
      using that by (rule ok_link [OF _ i])
    with ok ok2 show ?thesis
      unfolding upsertDeclarativeJob_def Inr Let_def \<open>nextRunFromCron env (ds_cron d) (e_timezone env) now = Inr t\<close>
        sum.case new_def [symmetric] prior_def [symmetric] n_def [symmetric] ups_def [symmetric] up s2_def [symmetric]
      by (auto split: option.splits sum.splits)
  next
    case (Inl e)
    with ok show ?thesis
      unfolding upsertDeclarativeJob_def Let_def \<open>nextRunFromCron env (ds_cron d) (e_timezone env) now = Inr t\<close>
        sum.case new_def [symmetric] prior_def [symmetric] n_def [symmetric] ups_def [symmetric] by simp
  qed
qed (use ok in \<open>simp add: upsertDeclarativeJob_def\<close>)

lemma ok_setPaused: "store_ok s \<Longrightarrow> setPaused now n s = Inr (s', b) \<Longrightarrow> store_ok s'"
  by (auto simp: setPaused_def map_sum_def split: sum.splits prod.splits
      elim!: ok_update_job [rotated] intro!: ok_update_linked)

lemma ok_cancelJob: "store_ok s \<Longrightarrow> store_ok (fst (cancelJob now n s))"
  by (auto simp: cancelJob_def split: sum.splits elim!: ok_update_job intro!: ok_update_linked)

lemma ok_pause: "store_ok s \<Longrightarrow> store_ok (fst (pauseJob now n s)) \<and> store_ok (fst (pauseJobForDrift now n s))"
  by (auto simp: pauseJob_def pauseJobForDrift_def split: sum.splits dest: ok_setPaused)

lemma ok_unsuspend: "store_ok s \<Longrightarrow> store_ok (fst (unsuspendJob env now n s))"
  by (auto simp: unsuspendJob_def resume_job_def use_deferral_def split: sum.splits option.splits
      elim!: ok_update_job intro!: ok_update_linked)

lemma ok_updateJob: "store_ok s \<Longrightarrow> store_ok (fst (updateJob env now n u s))"
  by (auto simp: updateJob_def updated_job_def split: sum.splits elim!: ok_update_job)

lemma ok_completeJobRun: "store_ok s \<Longrightarrow> store_ok (fst (completeJobRun env now n b e r s))"
  by (auto simp: completeJobRun_def succeeded_job_def failed_job_def Let_def split: option.splits sum.splits
      intro!: ok_written)

lemma ok_recover: "store_ok s \<Longrightarrow> store_ok (fst (recoverStuckJob env now n t s))"
  by (auto simp: recoverStuckJob_def recovered_job_def Let_def split: option.splits sum.splits intro!: ok_written)

lemma ok_report: "store_ok s \<Longrightarrow> store_ok (fst (reportJobRun n x c s))"
  by (auto simp: reportJobRun_def intro!: ok_written)

lemma ok_stale: "store_ok s \<Longrightarrow> store_ok (fst (cancelStaleDeclarativeJobs live s))"
  by (auto simp: cancelStaleDeclarativeJobs_def Let_def calming_def active_job_def intro!: ok_calm)

lemma ok_task_where: "store_ok s \<Longrightarrow> same_skel f \<Longrightarrow> store_ok (fst (update_task_where i g f s))"
  by (auto simp: update_task_where_def ok_update_row split: option.splits)

text \<open>The store after a statement, whatever it answered.\<close>

definition after_statement :: "task_store \<Rightarrow> (repo_error + task_store \<times> wake_job option) \<Rightarrow> task_store" where
  "after_statement s r = (case r of Inl _ \<Rightarrow> s | Inr (s', _) \<Rightarrow> s')"

lemma ok_after:
  assumes "store_ok s" "\<And>k. j_id (f k) = j_id k"
  shows "store_ok (after_statement s (update_job n guard f s))"
  using assms ok_update_job [OF assms(1), of n guard f] by (auto simp: after_statement_def split: sum.splits)

lemmas statement_defs = claim_wake_def claim_cron_def start_run_def failUnownedAgent_def fail_bad_cron_def give_up_def
  retireFinishedTaskWake_def revert_claim_def use_deferral_def

section \<open>Runs\<close>

text \<open>
  What a caller, or the scheduler, does to the store. An id the database generates is a UUID; a caller
  that passes the parent row passes the stored one (\<open>preload\<close>). Jobs are created,
  declared, changed, held, claimed and finished by the calls and statements of \<open>SchedulerJobs\<close>.
\<close>

datatype repo_request =
    RCreate ms string create_params bool
  | RUpdate ms string update_params "string option"
  | RComplete ms string "string option"
  | RReopen ms string "string option"
  | RFail ms string string circuit_state "string list"
  | RReconcile ms string string
  | RSetPlan ms string plan_input
  | RSetResumable ms string resumable_input
  | RPersist ms string circuit_state
  | REnqueue ms string string ms string "task_originator option" bool
  | RCancelWakes string
  | RCreateJob ms string job_params
  | RDeclare ms string string string declared_schedule
  | RCancelStale "(string \<times> string \<times> string \<times> jobj) list"
  | RCancelJob ms nat
  | RPauseJob ms nat
  | RDriftPause ms nat
  | RResumeJob ms nat
  | RUpdateJob ms nat job_updates
  | RCompleteRun ms nat bool "string option" run_report
  | RRecover ms nat int
  | RReport nat string "jobj option"
  | RClaimWake ms nat
  | RClaimCron ms ms nat "string \<times> string"
  | RFailUnowned wake_job
  | RFailCron nat "string \<times> string" string
  | RRetire nat
  | RRevert nat "ms option"
  | RCloseRetry ms string
  | RTouch ms string
  | RTag ms string

definition preload :: "task_store \<Rightarrow> create_params \<Rightarrow> bool \<Rightarrow> create_params" where
  "preload s p b = p\<lparr>c_parentTask := (if b then Option.bind (c_parentTaskId p) (getTask s) else None)\<rparr>"

fun repo_step :: "sched_env \<Rightarrow> (rat \<Rightarrow> string) \<Rightarrow> task_store \<Rightarrow> repo_request \<Rightarrow> task_store" where
  "repo_step env ns s (RCreate now i p b) = (if uuid_shape i then fst (createTask now i (preload s p b) s) else s)"
| "repo_step env ns s (RUpdate now i u c) = fst (updateTask now i u c s)"
| "repo_step env ns s (RComplete now i n) = fst (completeTask now i n s)"
| "repo_step env ns s (RReopen now i n) = fst (reopenTask now i n s)"
| "repo_step env ns s (RFail now i n c tags) = fst (failResumableTask now i n c tags s)"
| "repo_step env ns s (RReconcile now i r) = fst (reconcileChildren now i r s)"
| "repo_step env ns s (RSetPlan now i b) = fst (setPlanBlock ns now i b s)"
| "repo_step env ns s (RSetResumable now i b) = fst (setResumableBlock ns None now i b s)"
| "repo_step env ns s (RPersist now i c) = persistResumableCircuitState now i c s"
| "repo_step env ns s (REnqueue now i a w c og d) = fst (enqueueTaskWake i a w c og d now s)"
| "repo_step env ns s (RCancelWakes i) = cancelWakeUpJobs i s"
| "repo_step env ns s (RCreateJob now i p) = (if uuid_shape i then fst (createJob env now i p s) else s)"
| "repo_step env ns s (RDeclare now i src a d) = (if uuid_shape i then fst (upsertDeclarativeJob env now i src a d s) else s)"
| "repo_step env ns s (RCancelStale live) = fst (cancelStaleDeclarativeJobs live s)"
| "repo_step env ns s (RCancelJob now n) = fst (cancelJob now n s)"
| "repo_step env ns s (RPauseJob now n) = fst (pauseJob now n s)"
| "repo_step env ns s (RDriftPause now n) = fst (pauseJobForDrift now n s)"
| "repo_step env ns s (RResumeJob now n) = fst (unsuspendJob env now n s)"
| "repo_step env ns s (RUpdateJob now n u) = fst (updateJob env now n u s)"
| "repo_step env ns s (RCompleteRun now n ok e r) = fst (completeJobRun env now n ok e r s)"
| "repo_step env ns s (RRecover now n t) = fst (recoverStuckJob env now n t s)"
| "repo_step env ns s (RReport n x ctx) = fst (reportJobRun n x ctx s)"
| "repo_step env ns s (RClaimWake now n) = after_statement s (claim_wake now n s)"
| "repo_step env ns s (RClaimCron now t n cron) = after_statement s (claim_cron now t n cron s)"
| "repo_step env ns s (RFailUnowned j) = after_statement s (failUnownedAgent j s)"
| "repo_step env ns s (RFailCron n cron e) = after_statement s (fail_bad_cron n cron e s)"
| "repo_step env ns s (RRetire n) = after_statement s (retireFinishedTaskWake n s)"
| "repo_step env ns s (RRevert n started) = after_statement s (revert_claim n started s)"
| "repo_step env ns s (RCloseRetry now i) = closeDelegationRetryTask now i s"
| "repo_step env ns s (RTouch now i) = touch_task now i s"
| "repo_step env ns s (RTag now i) = fst (tag_undisposed now i s)"

definition empty_store :: task_store where
  "empty_store = \<lparr>s_tasks = [], s_jobs = [], s_nextJob = 0, s_events = []\<rparr>"

lemma ok_reconcileChildren: "store_ok s \<Longrightarrow> store_ok (fst (reconcileChildren now i r s))"
  by (auto simp: reconcileChildren_def split: sum.splits intro!: ok_events elim!: ok_reconcile [rotated])

lemma preload_loaded: "tasks_ok s \<Longrightarrow> parent_loaded s (preload s p b)"
  by (auto simp: parent_loaded_def preload_def bind_eq_Some_conv dest: getTask_entry tasks_ok_entry(1) split: option.splits)

lemma ok_step:
  assumes ok: "store_ok s"
  shows "store_ok (repo_step env ns s r)"
proof (cases r)
  case (RCreate now i p b)
  have "parent_loaded s (preload s p b)" using ok by (simp add: store_ok_def preload_loaded)
  then have "uuid_shape i \<Longrightarrow> store_ok (fst (createTask now i (preload s p b) s))"
    using ok_create [OF ok uuid_shape_nonempty] by blast
  then show ?thesis using RCreate ok by simp
qed (use ok in \<open>auto simp: ok_update ok_complete ok_reopen ok_fail ok_reconcileChildren setPlanBlock_def
      setResumableBlock_def Let_def ok_store_block ok_persist ok_enqueue cancelWakeUpJobs_def ok_cancel_wakes
      ok_createJob ok_upsert uuid_shape_nonempty ok_stale ok_cancelJob ok_pause ok_unsuspend ok_updateJob
      ok_completeJobRun ok_recover ok_report statement_defs closeDelegationRetryTask_def touch_task_def
      tag_undisposed_def same_skel_def set_status_def intro!: ok_after ok_task_where\<close>)

lemma ok_empty: "store_ok empty_store"
  by (simp add: store_ok_def tasks_ok_def skeleton_def empty_store_def jobs_ok_def)

interpretation repo: machine "repo_step env ns" store_ok "\<lambda>s. s = empty_store" for env ns
  by unfold_locales (simp_all add: ok_empty ok_step)

section \<open>Closing a task\<close>

lemma parent_rel_skel: "parent_rel s = {(k, p). \<exists>i r. (k, i, Some p, r) \<in> set (skeleton s)}"
  by (force simp: parent_rel_def skeleton_def skel_of_def)

lemma parent_rel_cong: "skeleton s' = skeleton s \<Longrightarrow> parent_rel s' = parent_rel s"
  by (simp add: parent_rel_skel)

lemma getTask_map_rows:
  "(\<And>k t. fst (f (k, t)) = k) \<Longrightarrow> map_of (map f ts) k = map_option (\<lambda>t. snd (f (k, t))) (map_of ts k)"
proof (induction ts)
  case (Cons x ts)
  obtain a t where "x = (a, t)" by (cases x)
  moreover obtain u where "f (a, t) = (a, u)" using Cons.prems by (metis prod.collapse)
  ultimately show ?case using Cons by auto
qed simp

lemma getTask_kill [simp]: "getTask (kill_wakes is s) = getTask s" "getTask (cancel_wakes i s) = getTask s"
  "getTask (publish_event e s) = getTask s" "getTask (publishReconcileChildEvents rows r s) = getTask s"
  by (simp_all add: getTask_def fun_eq_iff kill_wakes_def cancel_wakes_def update_jobs_def publish_event_def)

lemma getTask_update_row: "getTask (update_row i f s) k = (if k = i then map_option f (getTask s k) else getTask s k)"
  by (cases "map_of (s_tasks s) k"; cases "k = i") (simp_all add: getTask_def update_row_def getTask_map_rows)

lemma kill_wakes_pending: "k \<in> set is \<Longrightarrow> \<not> taskHasPendingWake (kill_wakes is s) k"
  by (auto simp: pending_wake_iff kill_wakes_def update_jobs_def active_job_def cancellable_job_def)

lemma kill_wakes_quiet: "\<not> taskHasPendingWake s k \<Longrightarrow> \<not> taskHasPendingWake (kill_wakes is s) k"
  by (force simp: pending_wake_iff kill_wakes_def update_jobs_def active_job_def split: if_splits)

lemma pending_frames [simp]:
  "taskHasPendingWake (publish_event e s) k = taskHasPendingWake s k"
  "taskHasPendingWake (publishReconcileChildEvents rows r s) k = taskHasPendingWake s k"
  "taskHasPendingWake (update_row i f s) k = taskHasPendingWake s k"
  by (simp_all add: taskHasPendingWake_def)

text \<open>No task below \<open>i\<close> is open.\<close>

definition closed_below :: "task_store \<Rightarrow> string \<Rightarrow> bool" where
  "closed_below s i \<longleftrightarrow> (\<forall>k t. (k, i) \<in> (parent_rel s)\<^sup>+ \<and> getTask s k = Some t
     \<longrightarrow> t_status t \<notin> set RECONCILABLE_CHILD_STATUSES)"

lemma reconcile_closes:
  assumes ok: "store_ok s" and r: "runReconcileChildrenQuery now i r s = Inr (s', rows)"
  shows "closed_below s' i \<and> parent_rel s' = parent_rel s
    \<and> (\<forall>k t. (k, i) \<in> (parent_rel s)\<^sup>+ \<and> getTask s k = Some t \<and> t_status t \<in> set RECONCILABLE_CHILD_STATUSES
          \<longrightarrow> \<not> taskHasPendingWake s' k)
    \<and> (\<forall>k. \<not> taskHasPendingWake s k \<longrightarrow> \<not> taskHasPendingWake s' k)
    \<and> (\<forall>k. (k, i) \<notin> (parent_rel s)\<^sup>+ \<longrightarrow> getTask s' k = getTask s k)"
proof -
  have tok: "tasks_ok s" using ok by (simp add: store_ok_def)
  obtain ds where ds: "descendants s i = Some ds" "rows = to_reconcile ds s"
    and s': "s' = kill_wakes (map fst rows) (s\<lparr>s_tasks := map (cancel_row now r (map fst rows)) (s_tasks s)\<rparr>)"
    (is "_ = kill_wakes _ ?s1")
    using reconcile_result [OF r] by blast
  have set_ds: "set ds = {k. (k, i) \<in> (parent_rel s)\<^sup>+}" using descendants_spec [OF tok, of i] ds(1) by auto
  have "skeleton ?s1 = skeleton s" by (rule skeleton_tasks) (auto simp: skel_of_def cancel_row_def)
  then have "skeleton s' = skeleton s" unfolding s' by simp
  then have par: "parent_rel s' = parent_rel s" by (rule parent_rel_cong)
  have get: "getTask s' k = map_option (\<lambda>t. snd (cancel_row now r (map fst rows) (k, t))) (getTask s k)" for k
    unfolding s' getTask_kill by (simp add: getTask_def getTask_map_rows cancel_row_def)
  have hit: "k \<in> set (map fst rows) \<longleftrightarrow>
      (\<exists>t. getTask s k = Some t \<and> (k, i) \<in> (parent_rel s)\<^sup>+ \<and> t_status t \<in> set RECONCILABLE_CHILD_STATUSES)" for k
    unfolding ds(2) to_reconcile_iff set_ds mem_Collect_eq
    using tasks_ok_entry(3) [OF tok] getTask_entry by metis
  have "closed_below s' i"
    unfolding closed_below_def par
  proof (intro allI impI)
    fix k t assume kt: "(k, i) \<in> (parent_rel s)\<^sup>+ \<and> getTask s' k = Some t"
    then obtain u where u: "getTask s k = Some u" "t = snd (cancel_row now r (map fst rows) (k, u))"
      by (auto simp: get)
    show "t_status t \<notin> set RECONCILABLE_CHILD_STATUSES"
    proof (cases "k \<in> set (map fst rows)")
      case True
      then show ?thesis unfolding u(2) cancel_row_def RECONCILABLE_CHILD_STATUSES_def by simp
    next
      case False
      then have "t = u" unfolding u(2) cancel_row_def by simp
      with False hit [of k] kt u(1) show ?thesis by blast
    qed
  qed
  moreover have "(k, i) \<notin> (parent_rel s)\<^sup>+ \<Longrightarrow> getTask s' k = getTask s k" for k
    using hit [of k] by (cases "getTask s k") (auto simp: get cancel_row_def)
  moreover have "\<not> taskHasPendingWake s k \<Longrightarrow> \<not> taskHasPendingWake s' k" for k
  proof -
    assume "\<not> taskHasPendingWake s k"
    then have "\<not> taskHasPendingWake ?s1 k" by (simp add: taskHasPendingWake_def)
    then show ?thesis unfolding s' by (rule kill_wakes_quiet)
  qed
  moreover have "\<not> taskHasPendingWake s' k"
    if "(k, i) \<in> (parent_rel s)\<^sup>+ \<and> getTask s k = Some t \<and> t_status t \<in> set RECONCILABLE_CHILD_STATUSES" for k t
    unfolding s' by (rule kill_wakes_pending) (use that hit [of k] in blast)
  ultimately show ?thesis using par by blast
qed

lemma not_own_descendant: "store_ok s \<Longrightarrow> (i, i) \<notin> (parent_rel s)\<^sup>+"
proof -
  assume "store_ok s"
  then have tok: "tasks_ok s" by (simp add: store_ok_def)
  have "skel_pos (skeleton s) p < skel_pos (skeleton s) k" if "(k, p) \<in> (parent_rel s)\<^sup>+" for k p
    using that
  proof (induction rule: trancl_induct)
    case (base y)
    then show ?case by (rule parent_pos [OF tok])
  next
    case (step y z)
    then show ?case using parent_pos [OF tok step.hyps(2)] by simp
  qed
  then show ?thesis by blast
qed

text \<open>What the three closing paths have in common, from the row update to the end.\<close>

lemma closing_result:
  assumes ok: "store_ok s1" and r: "runReconcileChildrenQuery now i r s1 = Inr (s2, rows)"
    and s': "s' = publishReconcileChildEvents rows q (publish_event e s2)"
    and frame: "\<And>k. k \<noteq> i \<Longrightarrow> getTask s1 k = getTask s k" "parent_rel s1 = parent_rel s"
    and i: "getTask s1 i = Some row"
  shows "getTask s' i = Some row \<and> closed_below s' i
    \<and> (\<forall>k t. (k, i) \<in> (parent_rel s)\<^sup>+ \<and> getTask s k = Some t \<and> t_status t \<in> set RECONCILABLE_CHILD_STATUSES
          \<longrightarrow> \<not> taskHasPendingWake s' k)
    \<and> (\<not> taskHasPendingWake s1 i \<longrightarrow> \<not> taskHasPendingWake s' i)"
proof -
  note c = reconcile_closes [OF ok r]
  have sk: "skeleton s' = skeleton s2" unfolding s' by simp
  have g: "getTask s' = getTask s2" unfolding s' by simp
  have "closed_below s' i" using c parent_rel_cong [OF sk] unfolding closed_below_def g by simp
  moreover have "getTask s' i = Some row" using c not_own_descendant [OF ok, of i] i unfolding g by auto
  moreover have "\<not> taskHasPendingWake s' k"
    if "(k, i) \<in> (parent_rel s)\<^sup>+" "getTask s k = Some t" "t_status t \<in> set RECONCILABLE_CHILD_STATUSES" for k t
  proof -
    have "k \<noteq> i" using that(1) not_own_descendant [OF ok] frame(2) by metis
    then have "getTask s1 k = Some t" using frame(1) that(2) by simp
    then have "\<not> taskHasPendingWake s2 k" using c that(1,3) unfolding frame(2) by blast
    then show ?thesis unfolding s' by simp
  qed
  moreover have "\<not> taskHasPendingWake s1 i \<Longrightarrow> \<not> taskHasPendingWake s' i" using c unfolding s' by simp
  ultimately show ?thesis by blast
qed

end
