(* ===== verification/TaskClosing.thy ===== *)
theory TaskClosing
  imports TaskRepoProofs
begin

text \<open>
  What a caller can rely on after any history of calls to the task store: lineage never rises along a
  chain of parents, a task has one live wake at most, and closing a task closes all that is below it;
  and the one closing status whose update does not reach the children.
\<close>

section \<open>Lineage and wakes\<close>

definition lineage_rank :: "task_store \<Rightarrow> string \<Rightarrow> nat" where
  "lineage_rank s k = originatorRank (Option.bind (getTask s k) t_originator)"

lemma lineage_along_parents:
  assumes "tasks_ok s" "(k, a) \<in> (parent_rel s)\<^sup>+"
  shows "lineage_rank s k \<le> lineage_rank s a"
  using assms(2)
proof (induction rule: trancl_induct)
  case (base y)
  then show ?case using parent_facts [OF assms(1) base] by (auto simp: lineage_rank_def)
next
  case (step y z)
  then have "lineage_rank s y \<le> lineage_rank s z"
    using parent_facts [OF assms(1) step.hyps(2)] by (auto simp: lineage_rank_def)
  with step.IH show ?case by simp
qed

text \<open>
  C5. Start from empty tables and let the program make any sequence of calls: create tasks with any
  claimed originator, with or without a preloaded parent, update, complete, reopen and fail them,
  write their plan and checkpoint blocks, enqueue and cancel wakes, create, declare, change, pause,
  resume, claim, finish and recover jobs. Then no task
  ever has two wakes that are pending or running, and no task carries a standing above that of any of
  its ancestors: work delegated from an unprivileged task cannot gain a privileged lineage.
\<close>

theorem lineage_and_wakes:
  assumes "s = run_steps (repo_step env ns) empty_store rs"
  shows "(\<forall>j\<in>set (s_jobs s). \<forall>k\<in>set (s_jobs s).
            active_job j \<and> active_job k \<and> j_taskId j \<noteq> None \<and> j_taskId j = j_taskId k \<longrightarrow> j = k)
    \<and> (\<forall>k a. (k, a) \<in> (parent_rel s)\<^sup>+ \<longrightarrow> lineage_rank s k \<le> lineage_rank s a)"
proof -
  have ok: "store_ok s" unfolding assms by (rule repo.inv_run [OF refl])
  have j: "\<forall>j\<in>set (s_jobs s). \<forall>k\<in>set (s_jobs s).
      active_job j \<and> active_job k \<and> j_taskId j \<noteq> None \<and> j_taskId j = j_taskId k \<longrightarrow> j = k"
    using ok jobs_ok_unique(1) [of s] unfolding store_ok_def by blast
  have l: "\<forall>k a. (k, a) \<in> (parent_rel s)\<^sup>+ \<longrightarrow> lineage_rank s k \<le> lineage_rank s a"
    using ok lineage_along_parents unfolding store_ok_def by blast
  show ?thesis using j l by (rule conjI)
qed

section \<open>Closing a task\<close>

text \<open>The call succeeded with a row of the given status, and nothing below it is open or awake.\<close>

definition closed_result :: "string \<Rightarrow> string \<Rightarrow> task_store \<Rightarrow> task_row option repo_result \<Rightarrow> bool" where
  "closed_result st i s res \<longleftrightarrow>
     (\<exists>row. snd res = Inr (Some row) \<and> t_status row = st \<and> getTask (fst res) i = Some row)
     \<and> closed_below (fst res) i
     \<and> (\<forall>k t. (k, i) \<in> (parent_rel s)\<^sup>+ \<and> getTask s k = Some t \<and> t_status t \<in> set RECONCILABLE_CHILD_STATUSES
          \<longrightarrow> \<not> taskHasPendingWake (fst res) k)"

lemma parent_rel_update_row: "same_skel f \<Longrightarrow> parent_rel (update_row i f s) = parent_rel s"
  by (rule parent_rel_cong) (rule skeleton_update_row)

lemma reconcile_succeeds:
  assumes "store_ok s"
  obtains s' rows where "runReconcileChildrenQuery now i r s = Inr (s', rows)"
  using descendants_spec [of s i] assms unfolding store_ok_def runReconcileChildrenQuery_def by (auto simp: Let_def)

text \<open>The shape of all three paths: a row update, the task's own wakes, the descendants, the events.\<close>

lemma closing_path:
  assumes ok: "store_ok s" and t: "getTask s i = Some t" and f: "same_skel f" "t_status (f t) = st"
    and c: "c = cancel_wakes i \<or> c = kill_wakes [i]"
    and res: "\<And>s2 rows. runReconcileChildrenQuery now i q (c (update_row i f s)) = Inr (s2, rows)
      \<Longrightarrow> res = (publishReconcileChildEvents rows q (publish_event e s2), Inr (Some (f t)))"
  shows "closed_result st i s res"
proof -
  let ?s1 = "c (update_row i f s)"
  have ok1: "store_ok ?s1" using c ok_cancel_wakes ok_kill_wakes ok_update_row [OF f(1) ok] by auto
  obtain s2 rows where r: "runReconcileChildrenQuery now i q ?s1 = Inr (s2, rows)"
    by (rule reconcile_succeeds [OF ok1])
  have get: "getTask ?s1 k = (if k = i then Some (f t) else getTask s k)" for k
    using c t by (auto simp: getTask_update_row)
  have par: "parent_rel ?s1 = parent_rel s"
    using c skeleton_update_row [OF f(1)] by (auto intro!: parent_rel_cong)
  have "getTask ?s1 i = Some (f t)" "\<And>k. k \<noteq> i \<Longrightarrow> getTask ?s1 k = getTask s k" by (simp_all add: get)
  note result = closing_result [OF ok1 r refl this(2) par this(1), where e = e]
  show ?thesis
    unfolding closed_result_def res [OF r] fst_conv snd_conv using result f(2) by blast
qed

lemma complete_closes:
  assumes ok: "store_ok s" and t: "getTask s i = Some t" "t_status t \<notin> set TERMINAL_STATUSES"
  shows "closed_result ''done'' i s (completeTask now i note s)"
proof -
  let ?f = "\<lambda>t. t\<lparr>t_status := ''done'',
      t_progress := (case truthy_id note of None \<Rightarrow> t_progress t | Some n \<Rightarrow> append_note (note_entry now n) (t_progress t)),
      t_updatedAt := toISOString now\<rparr>"
  have "same_skel ?f" by (simp add: same_skel_def)
  then show ?thesis
    by (rule closing_path [OF ok t(1), where c = "cancel_wakes i" and now = now
          and q = "''reconciled: parent '' @ i @ '' done''" and e = "TaskCompleted i note"])
      (simp_all add: completeTask_def t)
qed

lemma fail_closes:
  assumes ok: "store_ok s" and t: "getTask s i = Some t" "t_status t \<notin> set FINISHED_STATUSES"
  shows "closed_result ''failed'' i s (failResumableTask now i note c tags s)"
proof -
  let ?f = "\<lambda>u. u\<lparr>t_status := ''failed'',
      t_progress := append_note (note_entry now note) (stored (mergeCircuitState (t_progress u) c)),
      t_tags := merge_tags (t_tags t) tags, t_updatedAt := toISOString now\<rparr>"
  have "same_skel ?f" by (simp add: same_skel_def)
  then show ?thesis
    by (rule closing_path [OF ok t(1), where c = "kill_wakes [i]" and now = now
          and q = "''reconciled: parent '' @ i @ '' failed''"
          and e = "TaskUpdated i (t_status t) (Some ''failed'') (Some note)"])
      (simp_all add: failResumableTask_def t)
qed

lemma update_closes:
  assumes ok: "store_ok s" and t: "getTask s i = Some t" "t_status t \<notin> set TERMINAL_STATUSES"
    and u: "u_status u = Some st" "st \<in> set TERMINAL_STATUSES" "fk_ok s (given (u_blockedByTaskId u) None)"
      "row_ok (apply_updates now u t)"
  shows "closed_result st i s (updateTask now i u caller s)"
proof -
  let ?f = "apply_updates now u"
  have ne: "st \<noteq> t_status t" using t(2) u(2) by auto
  have cl: "closing_status (Some st)" using u(2) by (auto simp: closing_status_def TERMINAL_STATUSES_def)
  have "executeUpdate now i t u caller s = Inr (cancel_wakes i (update_row i ?f s), Some (?f t))"
    by (simp add: executeUpdate_def u cl guarded_update_def t)
  then show ?thesis
    by (intro closing_path [OF ok t(1) apply_updates_skel [of now u], where c = "cancel_wakes i" and now = now
          and q = "''reconciled: parent '' @ i @ '' '' @ st"
          and e = "TaskUpdated i (t_status t) (Some st) (u_progressNote u)"])
      (simp_all add: updateTask_def t u(1) cl ne given_def apply_updates_def)
qed

text \<open>
  C4. After any history of calls, take a task that is not closed yet. Completing it, failing it through
  the circuit breaker (unless it failed before) and updating its status to done or cancelled (with a
  blocking task that exists and an owner the schema knows, when they are given) all succeed: the returned row is the stored one and has
  the new status; no task below it, however deep, is open, in progress, waiting or blocked any more;
  and none of those that were has a wake that is pending or running.
\<close>

theorem closing_closes_subtree:
  assumes "s = run_steps (repo_step env ns) empty_store rs"
    and "getTask s i = Some t" "t_status t \<notin> set TERMINAL_STATUSES"
  shows "closed_result ''done'' i s (completeTask now i note s)
    \<and> (t_status t \<noteq> ''failed'' \<longrightarrow> closed_result ''failed'' i s (failResumableTask now i msg c tags s))
    \<and> (u_status u = Some st \<and> st \<in> set TERMINAL_STATUSES \<and> fk_ok s (given (u_blockedByTaskId u) None)
         \<and> row_ok (apply_updates now u t) \<longrightarrow> closed_result st i s (updateTask now i u caller s))"
proof -
  have ok: "store_ok s" unfolding assms(1) by (rule repo.inv_run [OF refl])
  have "t_status t \<noteq> ''failed'' \<Longrightarrow> t_status t \<notin> set FINISHED_STATUSES"
    using assms(3) by (auto simp: FINISHED_STATUSES_def TERMINAL_STATUSES_def)
  then show ?thesis
    using complete_closes [OF ok assms(2,3)] fail_closes [OF ok assms(2)] update_closes [OF ok assms(2,3)] by blast
qed

text \<open>
  The tool and the HTTP route accept \<open>failed\<close> as a status. Such an update of an unfinished task
  (one the checks of the schema accept) succeeds and stores the status, and that is all: whatever the store, every other task and every job,
  the task's own wakes included, stay as they were, so the children of a task failed this way go on.
\<close>

theorem failed_by_update_keeps_children:
  assumes "u_status u = Some ''failed''" "u_wakeAt u = None" "u_blockedByTaskId u = None"
    and "getTask s i = Some t" "t_status t \<notin> set TERMINAL_STATUSES" "row_ok (apply_updates now u t)"
  shows "\<exists>row. snd (updateTask now i u caller s) = Inr (Some row) \<and> t_status row = ''failed''
    \<and> s_jobs (fst (updateTask now i u caller s)) = s_jobs s
    \<and> (\<forall>k. getTask (fst (updateTask now i u caller s)) k = (if k = i then Some row else getTask s k))"
proof -
  have f: "\<not> closing_status (u_status u)" by (simp add: assms(1) closing_status_def)
  show ?thesis
    by (auto simp: updateTask_def f assms(2-5) assms(6) executeUpdate_def guarded_update_def publishReconcileChildEvents_def
        getTask_update_row Let_def fk_ok_def given_def)
      (simp_all add: apply_updates_def given_def assms(1))
qed

text \<open>
  A history: a task of the agent, a child that claims the principal's standing and is capped, a wake
  for each, and a second wake for the child, which is refused.
\<close>

definition demo_id :: "char \<Rightarrow> string" where
  "demo_id c = ''0000000'' @ [c] @ ''-0000-4000-8000-000000000000''"

definition demo_create :: "string \<Rightarrow> string option \<Rightarrow> system_role \<Rightarrow> create_params" where
  "demo_create title parent r =
     \<lparr>c_agentId = ''coordinator'', c_title = title, c_description = None, c_owner = ''curia'', c_parentTaskId = parent,
      c_parentTask = None, c_blockedByTaskId = None, c_priority = 50, c_dueAt = None, c_tags = [],
      c_waitingOnContactId = None, c_waitingOnText = None, c_intentAnchor = None, c_source = ''agent'',
      c_sourceAgentId = None, c_createdBy = None, c_wakeAt = Some 1700000000000, c_wakePayload = None,
      c_originator = Some \<lparr>o_contactId = ''contact'', o_systemRole = Some r, o_channel = ''email'',
        o_initiatedAt = ''2023-11-14T22:13:20.000Z'', o_tier = None, o_authenticated = True\<rparr>,
      c_resumable = True, c_progressNote = None, c_escalation = None\<rparr>"

definition demo_history :: "repo_request list" where
  "demo_history =
     [RCreate 1700000000000 (demo_id CHR ''1'') (demo_create ''parent'' None RAgent) False,
      RCreate 1700000000000 (demo_id CHR ''2'') (demo_create ''child'' (Some (demo_id CHR ''1'')) RPrincipal) True,
      REnqueue 1700000000000 (demo_id CHR ''2'') ''coordinator'' 1700000000000 ''curia'' None True]"

text \<open>Cron jobs run every half hour.\<close>

definition demo_env :: sched_env where
  "demo_env = \<lparr>e_next = (\<lambda>c z t. Some (t + 1800000)), e_validZone = (\<lambda>z. z = ''UTC''), e_timezone = ''UTC'',
     e_cronError = (\<lambda>c. ''invalid''), e_timedOut = (\<lambda>m. ''timed out'')\<rparr>"

definition demo_store :: task_store where
  "demo_store = run_steps (repo_step demo_env (\<lambda>_. [])) empty_store demo_history"

definition failed_update :: update_params where
  "failed_update = \<lparr>u_status = Some ''failed'', u_priority = None, u_owner = None, u_dueAt = None, u_tags = None,
     u_progressNote = None, u_blockedByTaskId = None, u_wakeAt = None\<rparr>"

lemma demo_history_facts:
  "map (\<lambda>j. (j_taskId j, j_status j)) (s_jobs demo_store)
     = [(Some (demo_id CHR ''1''), JPending), (Some (demo_id CHR ''2''), JPending)]"
  "map_option t_status (getTask demo_store (demo_id CHR ''1'')) = Some ''open''"
  "map_option t_parentTaskId (getTask demo_store (demo_id CHR ''2'')) = Some (Some (demo_id CHR ''1''))"
  "map_option t_status (getTask demo_store (demo_id CHR ''2'')) = Some ''open''"
  by code_simp+


lemma demo_history_tasks:
  obtains p c where "getTask demo_store (demo_id CHR ''1'') = Some p" "t_status p = ''open''"
    "getTask demo_store (demo_id CHR ''2'') = Some c" "t_status c = ''open''"
    "(demo_id CHR ''2'', demo_id CHR ''1'') \<in> (parent_rel demo_store)\<^sup>+"
proof -
  obtain p c where pc: "getTask demo_store (demo_id CHR ''1'') = Some p" "t_status p = ''open''"
    "getTask demo_store (demo_id CHR ''2'') = Some c" "t_status c = ''open''" "t_parentTaskId c = Some (demo_id CHR ''1'')"
    using demo_history_facts by auto
  then have "(demo_id CHR ''2'', demo_id CHR ''1'') \<in> parent_rel demo_store"
    unfolding parent_rel_def using getTask_entry by blast
  with pc that show thesis by blast
qed

theorem lineage_and_wakes_witness:
  "lineage_rank demo_store (demo_id CHR ''2'') \<le> lineage_rank demo_store (demo_id CHR ''1'')"
  using lineage_and_wakes [OF demo_store_def] demo_history_tasks by metis

theorem closing_closes_subtree_witness:
  "closed_result ''done'' (demo_id CHR ''1'') demo_store (completeTask 1700000000000 (demo_id CHR ''1'') None demo_store)
   \<and> (\<exists>k t. (k, demo_id CHR ''1'') \<in> (parent_rel demo_store)\<^sup>+ \<and> getTask demo_store k = Some t
        \<and> t_status t \<in> set RECONCILABLE_CHILD_STATUSES \<and> taskHasPendingWake demo_store k)"
proof -
  obtain p c where pc: "getTask demo_store (demo_id CHR ''1'') = Some p" "t_status p = ''open''"
    "getTask demo_store (demo_id CHR ''2'') = Some c" "t_status c = ''open''"
    "(demo_id CHR ''2'', demo_id CHR ''1'') \<in> (parent_rel demo_store)\<^sup>+"
    by (rule demo_history_tasks)
  have "t_status p \<notin> set TERMINAL_STATUSES" unfolding pc(2) by code_simp
  note closed = closing_closes_subtree [OF demo_store_def pc(1) this, THEN conjunct1]
  have "t_status c \<in> set RECONCILABLE_CHILD_STATUSES" unfolding pc(4) by code_simp
  moreover have "taskHasPendingWake demo_store (demo_id CHR ''2'')" by code_simp
  ultimately show ?thesis using closed pc by blast
qed

theorem failed_by_update_keeps_children_witness:
  "s_jobs (fst (updateTask 1700000000000 (demo_id CHR ''1'') failed_update None demo_store)) = s_jobs demo_store"
proof -
  obtain p where p: "getTask demo_store (demo_id CHR ''1'') = Some p" "t_status p = ''open''"
    by (rule demo_history_tasks)
  have "t_status p \<notin> set TERMINAL_STATUSES" unfolding p(2) by code_simp
  moreover have "map_option (\<lambda>t. row_ok (apply_updates 1700000000000 failed_update t))
      (getTask demo_store (demo_id CHR ''1'')) = Some True" by code_simp
  ultimately have "t_status p \<notin> set TERMINAL_STATUSES" "row_ok (apply_updates 1700000000000 failed_update p)"
    using p(1) by simp_all
  from failed_by_update_keeps_children [OF _ _ _ p(1) this]
  show ?thesis by (auto simp: failed_update_def)
qed

end
