(* ===== verification/Scheduler.thy ===== *)
theory Scheduler
  imports TaskRepoProofs Standing
begin

text \<open>
  The scheduler: \<open>src/src/scheduler/scheduler.ts\<close> and \<open>wake-disposition.ts\<close>. Its state is the two tables,
  the maps from a published task event to its job, the runs whose publication has not settled, and the
  count of slots in use. A step is one poll, one claim, the settling or the time-out of one
  publication, an error or a response of an agent, a watchdog pass, or a call anybody else makes on the
  tables; a sequence of steps is an interleaving of all of them. What an agent answers, the verdict of
  the drift detector and whether the bus takes an event are inputs of a step. The text of a job's content is not
  modelled, nor are failing database calls and the scrubbing of sign-in codes.
\<close>

section \<open>Dispositions\<close>

text \<open>\<open>isParkedStatus\<close>, \<open>progressNotesSnapshot\<close>, \<open>isUndisposedWake\<close>.\<close>

definition PARKED_STATUSES :: "string list" where
  "PARKED_STATUSES = [''waiting'', ''blocked'']"

definition isParkedStatus :: "string \<Rightarrow> bool" where
  "isParkedStatus st \<longleftrightarrow> st \<in> set PARKED_STATUSES"

definition progressNotesSnapshot :: "(rat \<Rightarrow> string) \<Rightarrow> jobj option \<Rightarrow> string" where
  "progressNotesSnapshot ns progress =
     (case progress of
        None \<Rightarrow> ''[]''
      | Some p \<Rightarrow> (case jfield p ''notes'' of JArr xs \<Rightarrow> the (json_stringify ns (JArr xs)) | _ \<Rightarrow> ''[]''))"

record disposition_view =
  dv_status :: string
  dv_progress :: jobj
  dv_notesAtStart :: string
  dv_deferredWake :: bool
  dv_otherActiveWake :: bool
  dv_waitsOnDependency :: bool

definition isUndisposedWake :: "(rat \<Rightarrow> string) \<Rightarrow> disposition_view \<Rightarrow> bool" where
  "isUndisposedWake ns v =
     (if dv_deferredWake v \<or> dv_otherActiveWake v then False
      else if isParkedStatus (dv_status v) then \<not> dv_waitsOnDependency v
      else if dv_status v \<notin> set ACTIVE_STATUSES then False
      else progressNotesSnapshot ns (Some (dv_progress v)) = dv_notesAtStart v)"

definition flat_title :: "nat \<Rightarrow> string \<Rightarrow> string" where
  "flat_title n title =
     take n (js_trim (map (\<lambda>c. if (of_char c :: nat) = 13 \<or> (of_char c :: nat) = 10 then CHR '' '' else c) title))"

text \<open>An empty title reads as a missing one.\<close>

definition taskLabel :: "string \<Rightarrow> string \<Rightarrow> string" where
  "taskLabel taskId title =
     (if title = [] then taskId
      else let flat = flat_title 200 title
           in if flat = [] then taskId else [CHR 0x22] @ flat @ [CHR 0x22] @ '' ('' @ taskId @ '')'')"

definition dispositionTurnPrompt :: "string \<Rightarrow> string \<Rightarrow> string \<Rightarrow> string" where
  "dispositionTurnPrompt taskId title status =
     (let act = ''Do not repeat the task'' @ [CHR 0x27] @ ''s actions.''
      in if isParkedStatus status then
           js_join '' ''
             [''Task '' @ taskLabel taskId title @ '' is parked as '' @ status
                @ '', but nothing will wake it: it has no wake_at and does not wait on a contact or another task.'',
              ''Call task-update with wake_at for when it should next run or be checked. ''
                @ ''If the work is finished, task-complete it, or set status cancelled if it should stop.'', act]
         else
           js_join '' ''
             [''Task '' @ taskLabel taskId title @ '' is still open after this run.'',
              ''Based on what you just did, choose one: task-complete (with a note), task-update status to cancelled, ''
                @ ''or park it with status waiting or blocked, a progress note, and wake_at.'', act])"

definition dispositionReviewNotice :: "string \<Rightarrow> string \<Rightarrow> string" where
  "dispositionReviewNotice taskId title =
     js_join [CHR 0x0A]
       [''A woken task finished without a disposition and needs review.'',
        ''Task: '' @ taskId,
        ''Title: '' @ (if title = [] then taskId else flat_title 200 title),
        [],
        ''This is a review notice only. Do not re-run the task, re-send its messages, or mark it done.'',
        ''Tell the principal it is waiting for them to close, cancel, or reschedule it.'']"

section \<open>State\<close>

datatype conversation = RunConversation nat nat | Conversation string | JobNotices nat | DispositionOf string

datatype task_content = JobContent nat | Text string | SuspensionNotice nat | DriftNotice nat

record agent_task =
  at_event :: nat
  at_agentId :: string
  at_conversation :: conversation
  at_content :: task_content
  at_metadata :: "jobj option"
  at_taskTools :: bool \<comment> \<open>only the tools of a disposition turn\<close>
  at_synthetic :: bool

datatype sched_event =
    ScheduleFired nat nat \<comment> \<open>event, job\<close>
  | AgentTask agent_task
  | ScheduleDriftPaused nat
  | ScheduleSuspended nat string nat
  | ScheduleRecovered nat nat bool bool \<comment> \<open>job, failures, suspended, rearmed\<close>

record run_meta =
  m_conversation :: conversation
  m_disposition :: bool
  m_notesAtStart :: string
  m_taskWake :: bool
  m_continuationSlice :: bool
  m_taskId :: "string option"
  m_agentId :: string
  m_report :: run_report

record flight =
  fl_job :: nat
  fl_closes :: "string option option" \<comment> \<open>a delegation retry, and the task it closes\<close>
  fl_started :: ms
  fl_held :: bool

record scheduler =
  k_store :: task_store
  k_pendingJobs :: "(nat \<times> nat) list"
  k_runMeta :: "(nat \<times> run_meta) list"
  k_failureMessages :: "(nat \<times> string) list"
  k_inFlight :: int
  k_runs :: "(nat \<times> flight) list"
  k_bursts :: "(nat \<times> nat) list"
  k_nextEvent :: nat
  k_published :: "sched_event list"

datatype confidence = LowConfidence | MediumConfidence | HighConfidence

record verdict =
  v_drifted :: bool
  v_confidence :: confidence

record drift_config =
  d_everyNBursts :: nat
  d_minConfidence :: confidence

record sched_config =
  f_env :: sched_env
  f_ns :: "rat \<Rightarrow> string"
  f_maxInFlight :: int
  f_owns :: "string \<Rightarrow> bool"
  f_drift :: "drift_config option"
  f_defaultExpected :: int

fun CONFIDENCE_ORDER :: "confidence \<Rightarrow> nat" where
  "CONFIDENCE_ORDER LowConfidence = 0"
| "CONFIDENCE_ORDER MediumConfidence = 1"
| "CONFIDENCE_ORDER HighConfidence = 2"

definition shouldPause :: "drift_config \<Rightarrow> verdict \<Rightarrow> bool" where
  "shouldPause d v \<longleftrightarrow> v_drifted v \<and> CONFIDENCE_ORDER (d_minConfidence d) \<le> CONFIDENCE_ORDER (v_confidence v)"

definition emit :: "sched_event \<Rightarrow> scheduler \<Rightarrow> scheduler" where
  "emit e k = k\<lparr>k_published := k_published k @ [e]\<rparr>"

definition fresh_scheduler :: "task_store \<Rightarrow> scheduler" where
  "fresh_scheduler s =
     \<lparr>k_store = s, k_pendingJobs = [], k_runMeta = [], k_failureMessages = [], k_inFlight = 0, k_runs = [],
      k_bursts = [], k_nextEvent = 0, k_published = []\<rparr>"

definition forget_event :: "nat \<Rightarrow> scheduler \<Rightarrow> scheduler" where
  "forget_event e k =
     k\<lparr>k_pendingJobs := AList.delete e (k_pendingJobs k), k_runMeta := AList.delete e (k_runMeta k),
       k_failureMessages := AList.delete e (k_failureMessages k)\<rparr>"

text \<open>The first entry of a job, as the loops with \<open>break\<close> find it.\<close>

definition event_of_job :: "nat \<Rightarrow> scheduler \<Rightarrow> nat option" where
  "event_of_job n k = map_option fst (find (\<lambda>(e, j). j = n) (k_pendingJobs k))"

definition computeRecoveryTimeout :: "rat \<Rightarrow> rat" where
  "computeRecoveryTimeout expected = min (expected * (15 / 2)) (expected + 3600)"

section \<open>Claiming and firing\<close>

text \<open>A row as a poll read it, with the task it is linked to. It may be stale.\<close>

record job_row =
  jr_job :: wake_job
  jr_task :: "task_row option"

definition read_row :: "task_store \<Rightarrow> wake_job \<Rightarrow> job_row" where
  "read_row s j = \<lparr>jr_job = j, jr_task = Option.bind (j_taskId j) (getTask s)\<rparr>"

definition agentTaskId :: "job_row \<Rightarrow> string option" where
  "agentTaskId r = map_option t_id (jr_task r)"

record retry_wake =
  dw_conversationId :: string
  dw_channelId :: string
  dw_senderId :: string
  dw_targetAgent :: string
  dw_brief :: string
  dw_attempt :: int

fun nonempty_text :: "jsval \<Rightarrow> string option" where
  "nonempty_text (JStr s) = (if s = [] then None else Some s)"
| "nonempty_text _ = None"

definition readDelegationRetryWake :: "jobj \<Rightarrow> retry_wake option" where
  "readDelegationRetryWake payload =
     (case jfield payload ''delegationRetry'' of
        JObj r \<Rightarrow>
          (case (nonempty_text (jfield r ''conversationId''), nonempty_text (jfield r ''channelId''),
                 nonempty_text (jfield r ''senderId''), nonempty_text (jfield r ''targetAgent''),
                 nonempty_text (jfield r ''brief''), jfield r ''attempt'') of
             (Some conv, Some chan, Some snd_, Some agent, Some brief, JNum (Fin q)) \<Rightarrow>
               if of_int \<lfloor>q\<rfloor> = q \<and> 1 \<le> q
               then Some \<lparr>dw_conversationId = conv, dw_channelId = chan, dw_senderId = snd_, dw_targetAgent = agent,
                          dw_brief = brief, dw_attempt = \<lfloor>q\<rfloor>\<rparr>
               else None
           | _ \<Rightarrow> None)
      | _ \<Rightarrow> None)"

text \<open>The claim: the store after it, and the claimed row, nothing, or the constraint it broke.\<close>

definition claim_job :: "sched_config \<Rightarrow> ms \<Rightarrow> job_row \<Rightarrow> task_store \<Rightarrow> task_store \<times> (repo_error + wake_job option)" where
  "claim_job cfg now r s =
     (let job = jr_job r; n = j_id job
      in if \<not> f_owns cfg (j_agentId job) then (after_statement s (failUnownedAgent job s), Inr None)
         else case job_cron job of
                Some (c, tz) \<Rightarrow>
                  (case e_next (f_env cfg) c tz now of
                     None \<Rightarrow> (after_statement s (fail_bad_cron n (c, tz) (e_cronError (f_env cfg) c) s), Inr None)
                   | Some t \<Rightarrow>
                       (case claim_cron now t n (c, tz) s of
                          Inl e \<Rightarrow> (s, Inl e)
                        | Inr (s', row) \<Rightarrow> (s', Inr row)))
              | None \<Rightarrow>
                  (case claim_wake now n s of
                     Inl e \<Rightarrow> (s, Inl e)
                   | Inr (s', Some row) \<Rightarrow> (s', Inr (Some row))
                   | Inr (s', None) \<Rightarrow>
                       if agentTaskId r \<noteq> None \<and> j_taskWake job \<and> readDelegationRetryWake (j_payload job) = None
                       then (after_statement s' (retireFinishedTaskWake n s'), Inr None)
                       else (s', Inr None)))"

fun role_text :: "system_role option \<Rightarrow> jsval" where
  "role_text None = JNull"
| "role_text (Some RPrincipal) = JStr ''principal''"
| "role_text (Some RSystem) = JStr ''system''"
| "role_text (Some RAgent) = JStr ''agent''"

fun tier_text :: "contact_tier option \<Rightarrow> jsval" where
  "tier_text None = JNull"
| "tier_text (Some TBlocked) = JStr ''blocked''"
| "tier_text (Some TUnknown) = JStr ''unknown''"
| "tier_text (Some TKnown) = JStr ''known''"
| "tier_text (Some TTrusted) = JStr ''trusted''"
| "tier_text (Some TPrincipal) = JStr ''principal''"

definition originator_json :: "task_originator \<Rightarrow> jsval" where
  "originator_json og =
     JObj [(''contactId'', JStr (o_contactId og)), (''systemRole'', role_text (o_systemRole og)),
           (''channel'', JStr (o_channel og)), (''initiatedAt'', JStr (o_initiatedAt og)), (''tier'', tier_text (o_tier og)),
           (''authenticated'', JBool (o_authenticated og))]"

text \<open>
  The metadata of a fired task: the stored lineage; the wake marker of a payload with a standing
  envelope, which only \<open>enqueueTaskWake\<close> writes; the bound task; the retry envelope.
\<close>

definition task_standing :: "jobj \<Rightarrow> jsval" where
  "task_standing payload = (if jfield payload ''type'' = JStr ''task-wake'' then jfield payload ''standing'' else JUndef)"

definition bound_task :: "task_row \<Rightarrow> jsval" where
  "bound_task t =
     JObj [(''taskId'', JStr (t_id t)), (''errorBudget'', JObj (t_errorBudget t)),
           (''tags'', JArr (map JStr (t_tags t))), (''progress'', JObj (t_progress t))]"

definition fired_metadata :: "job_row \<Rightarrow> jobj option" where
  "fired_metadata r =
     (let job = jr_job r;
          standing = task_standing (j_payload job);
          entries = (case j_originator job of None \<Rightarrow> [] | Some og \<Rightarrow> [(''originator'', originator_json og)])
            @ (if truthy standing then [(''wakeContext'', makeWakeContext (jget standing ''derived'' = JBool True))] else [])
            @ (case jr_task r of None \<Rightarrow> [] | Some t \<Rightarrow> [(''boundTask'', bound_task t)]);
          base = (if j_originator job = None \<and> \<not> truthy standing \<and> jr_task r = None then None else Some entries)
      in case readDelegationRetryWake (j_payload job) of
           None \<Rightarrow> base
         | Some w \<Rightarrow>
             Some (given base [] @ [(''delegationRetry'',
               JObj [(''attempt'', JNum (num_int (dw_attempt w))), (''targetAgent'', JStr (dw_targetAgent w))])]))"

definition RESUMABLE_CONTINUATION_CREATED_BY :: string where
  "RESUMABLE_CONTINUATION_CREATED_BY = ''resumable-continuation''"

definition empty_report :: run_report where
  "empty_report = \<lparr>rr_summary = None, rr_failedSkills = [], rr_omitted = None\<rparr>"

text \<open>After a claim: the events, the bookkeeping of the run, and the publication in flight.\<close>

definition dispatch_job :: "sched_config \<Rightarrow> ms \<Rightarrow> job_row \<Rightarrow> scheduler \<Rightarrow> scheduler" where
  "dispatch_job cfg now r k =
     (let job = jr_job r; e = k_nextEvent k; retry = readDelegationRetryWake (j_payload job);
          conv = (case retry of None \<Rightarrow> RunConversation (j_id job) e | Some w \<Rightarrow> Conversation (dw_conversationId w));
          meta = \<lparr>m_conversation = conv, m_disposition = False,
                  m_notesAtStart = progressNotesSnapshot (f_ns cfg) (map_option t_progress (jr_task r)),
                  m_taskWake = (j_taskWake job \<and> retry = None \<and> agentTaskId r \<noteq> None),
                  m_continuationSlice = (j_createdBy job = RESUMABLE_CONTINUATION_CREATED_BY),
                  m_taskId = agentTaskId r, m_agentId = j_agentId job, m_report = empty_report\<rparr>;
          task = \<lparr>at_event = e, at_agentId = j_agentId job, at_conversation = conv, at_content = JobContent (j_id job),
                  at_metadata = fired_metadata r, at_taskTools = False, at_synthetic = (retry \<noteq> None)\<rparr>;
          run = \<lparr>fl_job = j_id job, fl_closes = (if retry = None then None else Some (agentTaskId r)),
                 fl_started = now, fl_held = True\<rparr>
      in k\<lparr>k_pendingJobs := AList.update e (j_id job) (k_pendingJobs k),
           k_runMeta := AList.update e meta (k_runMeta k), k_runs := AList.update e run (k_runs k),
           k_nextEvent := e + 1,
           k_published := k_published k @ [ScheduleFired e (j_id job), AgentTask task]\<rparr>)"

text \<open>\<open>revertFailedFire\<close>: with the event and start of the run, or of a claim that got no event.\<close>

definition revertFailedFire :: "nat \<Rightarrow> (nat \<times> ms) option \<Rightarrow> scheduler \<Rightarrow> scheduler" where
  "revertFailedFire n generation k =
     (case generation of
        Some (e, started) \<Rightarrow>
          (let k1 = (if map_of (k_pendingJobs k) e = Some n then forget_event e k else k)
           in k1\<lparr>k_store := after_statement (k_store k1) (revert_claim n (Some started) (k_store k1))\<rparr>)
      | None \<Rightarrow>
          (let k1 = (case event_of_job n k of None \<Rightarrow> k | Some e \<Rightarrow> forget_event e k)
           in k1\<lparr>k_store := after_statement (k_store k1) (revert_claim n None (k_store k1))\<rparr>))"

datatype fire_outcome = Dispatched | Skipped | Saturated

text \<open>\<open>fireJob\<close>, and what the poll does when it throws.\<close>

definition fireJob :: "sched_config \<Rightarrow> ms \<Rightarrow> job_row \<Rightarrow> scheduler \<Rightarrow> scheduler \<times> fire_outcome" where
  "fireJob cfg now r k =
     (if f_maxInFlight cfg \<le> k_inFlight k then (k, Saturated)
      else case claim_job cfg now r (k_store k) of
             (s, Inr (Some row)) \<Rightarrow> (dispatch_job cfg now r (k\<lparr>k_store := s, k_inFlight := k_inFlight k + 1\<rparr>), Dispatched)
           | (s, Inr None) \<Rightarrow> (k\<lparr>k_store := s\<rparr>, Skipped)
           | (s, Inl e) \<Rightarrow> (revertFailedFire (j_id (jr_job r)) None (k\<lparr>k_store := s\<rparr>), Skipped))"

fun fire_rows :: "sched_config \<Rightarrow> ms \<Rightarrow> job_row list \<Rightarrow> scheduler \<Rightarrow> scheduler" where
  "fire_rows cfg now [] k = k"
| "fire_rows cfg now (r # rs) k =
     (case fireJob cfg now r k of (k1, Saturated) \<Rightarrow> k1 | (k1, _) \<Rightarrow> fire_rows cfg now rs k1)"

definition pollDueJobs :: "sched_config \<Rightarrow> ms \<Rightarrow> scheduler \<Rightarrow> scheduler" where
  "pollDueJobs cfg now k =
     (let slots = f_maxInFlight cfg - k_inFlight k
      in if slots \<le> 0 then k
         else fire_rows cfg now (map (read_row (k_store k)) (poll_rows now (nat slots) (k_store k))) k)"

text \<open>The publication settles, or its slot times out first; the slot is given back once.\<close>

definition release_slot :: "nat \<Rightarrow> scheduler \<Rightarrow> scheduler" where
  "release_slot e k =
     (case map_of (k_runs k) e of
        None \<Rightarrow> k
      | Some fl \<Rightarrow>
          if fl_held fl
          then k\<lparr>k_inFlight := k_inFlight k - 1, k_runs := AList.update e (fl\<lparr>fl_held := False\<rparr>) (k_runs k)\<rparr>
          else k)"

definition settle_publish :: "ms \<Rightarrow> nat \<Rightarrow> bool \<Rightarrow> scheduler \<Rightarrow> scheduler" where
  "settle_publish now e ok k =
     (case map_of (k_runs k) e of
        None \<Rightarrow> k
      | Some fl \<Rightarrow>
          (let k1 = (if ok then
                       (case fl_closes fl of
                          Some (Some i) \<Rightarrow> k\<lparr>k_store := closeDelegationRetryTask now i (k_store k)\<rparr>
                        | _ \<Rightarrow> k)
                     else revertFailedFire (fl_job fl) (Some (e, fl_started fl)) k);
               k2 = release_slot e k1
           in k2\<lparr>k_runs := AList.delete e (k_runs k2)\<rparr>))"

section \<open>The end of a run\<close>

text \<open>What the scheduler reads of the task of a job: \<open>loadDispositionState\<close>; \<open>None\<close> without a linked task.\<close>

definition waits_on_dependency :: "task_row \<Rightarrow> bool" where
  "waits_on_dependency t \<longleftrightarrow> t_waitingOnContactId t \<noteq> None \<or> t_blockedByTaskId t \<noteq> None \<or> t_owner t = ''ceo''"

definition loadDispositionState :: "task_store \<Rightarrow> nat \<Rightarrow> (wake_job \<times> task_row \<times> bool) option" where
  "loadDispositionState s n =
     (case get_job s n of
        None \<Rightarrow> None
      | Some j \<Rightarrow>
          (case Option.bind (j_taskId j) (getTask s) of
             None \<Rightarrow> None
           | Some t \<Rightarrow>
               Some (j, t, list_ex (\<lambda>w. j_taskId w = Some (t_id t) \<and> j_id w \<noteq> n \<and> active_job w \<and> j_taskWake w) (s_jobs s))))"

definition undisposed :: "(rat \<Rightarrow> string) \<Rightarrow> string \<Rightarrow> wake_job \<times> task_row \<times> bool \<Rightarrow> bool" where
  "undisposed ns notes = (\<lambda>(j, t, other).
     isUndisposedWake ns \<lparr>dv_status = t_status t, dv_progress = t_progress t, dv_notesAtStart = notes,
       dv_deferredWake = (j_deferredAt j \<noteq> None), dv_otherActiveWake = other,
       dv_waitsOnDependency = waits_on_dependency t\<rparr>)"

text \<open>
  What the environment decides while a completion is handled: the time, the detector's verdict, whether
  the bus takes the events, and the id of a task that is created.
\<close>

record completion_input =
  ci_now :: ms
  ci_verdict :: "verdict option"
  ci_busOk :: bool
  ci_newTaskId :: string

definition review_task :: "string \<Rightarrow> string \<Rightarrow> create_params" where
  "review_task taskId title =
     \<lparr>c_agentId = ''coordinator'',
      c_title = ''Review: task needs a disposition ('' @ (if title = [] then taskId else flat_title 120 title) @ '')'',
      c_description = Some (dispositionReviewNotice taskId title), c_owner = ''ceo'', c_parentTaskId = None,
      c_parentTask = None, c_blockedByTaskId = None, c_priority = 50, c_dueAt = None,
      c_tags = [''needs-attention'', NEEDS_DISPOSITION_TAG], c_waitingOnContactId = None, c_waitingOnText = None,
      c_intentAnchor = None, c_source = ''scheduler'', c_sourceAgentId = None, c_createdBy = Some ''scheduler'',
      c_wakeAt = None, c_wakePayload = None, c_originator = None, c_resumable = False,
      c_progressNote = Some (''Woken task stayed open after a disposition turn. Close, cancel, or reschedule it. Task ''
        @ taskId @ ''.''),
      c_escalation = None\<rparr>"

definition notice_task :: "nat \<Rightarrow> conversation \<Rightarrow> task_content \<Rightarrow> agent_task" where
  "notice_task e conv text =
     \<lparr>at_event = e, at_agentId = ''coordinator'', at_conversation = conv, at_content = text, at_metadata = None,
      at_taskTools = False, at_synthetic = True\<rparr>"

text \<open>Publish one more task event, if the bus takes it.\<close>

definition publish_notice :: "bool \<Rightarrow> conversation \<Rightarrow> task_content \<Rightarrow> scheduler \<Rightarrow> scheduler" where
  "publish_notice ok conv text k =
     (if ok then (emit (AgentTask (notice_task (k_nextEvent k) conv text)) k)\<lparr>k_nextEvent := k_nextEvent k + 1\<rparr> else k)"

definition flagNeedsDisposition :: "completion_input \<Rightarrow> string \<Rightarrow> string \<Rightarrow> scheduler \<Rightarrow> scheduler" where
  "flagNeedsDisposition ci taskId title k =
     (let (s1, flagged) = tag_undisposed (ci_now ci) taskId (k_store k)
      in if \<not> flagged then k
         else let k1 = publish_notice (ci_busOk ci) (DispositionOf taskId) (Text (dispositionReviewNotice taskId title))
                         (k\<lparr>k_store := s1\<rparr>)
              in k1\<lparr>k_store := fst (createTask (ci_now ci) (ci_newTaskId ci) (review_task taskId title) (k_store k1))\<rparr>)"

text \<open>The one follow-up turn of a wake; the result is whether the job must not be completed yet.\<close>

definition hold_turn :: "completion_input \<Rightarrow> nat \<Rightarrow> run_meta \<Rightarrow> string \<Rightarrow> run_report \<Rightarrow> task_row \<Rightarrow> string \<Rightarrow> scheduler \<Rightarrow> scheduler" where
  "hold_turn ci n meta taskId report t notes k =
     (let e = k_nextEvent k;
          task = \<lparr>at_event = e, at_agentId = m_agentId meta, at_conversation = m_conversation meta,
                  at_content = Text (dispositionTurnPrompt taskId (t_title t) (t_status t)), at_metadata = None,
                  at_taskTools = True, at_synthetic = True\<rparr>;
          follow = meta\<lparr>m_disposition := True, m_notesAtStart := notes, m_taskWake := True,
                       m_continuationSlice := False, m_report := report\<rparr>
      in (emit (AgentTask task) k)\<lparr>k_pendingJobs := AList.update e n (k_pendingJobs k),
             k_runMeta := AList.update e follow (k_runMeta k), k_nextEvent := e + 1\<rparr>)"

definition holdForDisposition ::
    "sched_config \<Rightarrow> completion_input \<Rightarrow> nat \<Rightarrow> run_meta \<Rightarrow> run_report \<Rightarrow> scheduler \<Rightarrow> scheduler \<times> bool" where
  "holdForDisposition cfg ci n meta report k =
     (case (m_taskId meta, loadDispositionState (k_store k) n) of
        (Some taskId, Some st) \<Rightarrow>
          if \<not> undisposed (f_ns cfg) (m_notesAtStart meta) st then (k, False)
          else
            (let t = fst (snd st);
                 k1 = k\<lparr>k_store := touch_task (ci_now ci) taskId (k_store k)\<rparr>
             in if ci_busOk ci
                then (hold_turn ci n meta taskId report t (progressNotesSnapshot (f_ns cfg) (Some (t_progress t))) k1, True)
                else (flagNeedsDisposition ci taskId (t_title t) k1, False))
      | _ \<Rightarrow> (k, False))"

definition settleDispositionTurn :: "sched_config \<Rightarrow> completion_input \<Rightarrow> nat \<Rightarrow> run_meta \<Rightarrow> scheduler \<Rightarrow> scheduler" where
  "settleDispositionTurn cfg ci n meta k =
     (case m_taskId meta of
        None \<Rightarrow> k
      | Some taskId \<Rightarrow>
          (case loadDispositionState (k_store k) n of
             None \<Rightarrow> flagNeedsDisposition ci taskId [] k
           | Some st \<Rightarrow>
               if \<not> undisposed (f_ns cfg) (m_notesAtStart meta) st then k
               else if isParkedStatus (t_status (fst (snd st))) then k
               else flagNeedsDisposition ci taskId (t_title (fst (snd st))) k))"

text \<open>The drift check of a persistent task; the result is whether the job was paused.\<close>

definition drift_check :: "sched_config \<Rightarrow> completion_input \<Rightarrow> nat \<Rightarrow> scheduler \<Rightarrow> scheduler \<times> bool" where
  "drift_check cfg ci n k =
     (case (f_drift cfg, get_job (k_store k) n) of
        (Some d, Some j) \<Rightarrow>
          (case Option.bind (j_taskId j) (getTask (k_store k)) of
             None \<Rightarrow> (k, False)
           | Some t \<Rightarrow>
               if t_intentAnchor t = [] \<or> j_taskWake j then (k, False)
               else
                 (let count = given (map_of (k_bursts k) n) 0 + 1;
                      k1 = k\<lparr>k_bursts := AList.update n count (k_bursts k)\<rparr>;
                      pause = (count mod d_everyNBursts d = 0
                               \<and> (case ci_verdict ci of Some v \<Rightarrow> shouldPause d v | None \<Rightarrow> False));
                      res = pauseJobForDrift (ci_now ci) n (k_store k1);
                      k2 = (if pause then k1\<lparr>k_store := fst res\<rparr> else k1);
                      done = (k2\<lparr>k_bursts := AList.delete n (k_bursts k2)\<rparr>)
                  in if pause \<and> snd res = Inr () \<and> ci_busOk ci
                     then (publish_notice True (JobNotices n) (DriftNotice n) (emit (ScheduleDriftPaused n) done), True)
                     else if job_cron j = None then (done, False) else (k2, False)))
      | _ \<Rightarrow> (k, False))"

text \<open>\<open>completeJobRun\<close> and, on a suspension, the event and the notice.\<close>

definition finish_run ::
    "sched_config \<Rightarrow> completion_input \<Rightarrow> nat \<Rightarrow> bool \<Rightarrow> string option \<Rightarrow> string option \<Rightarrow> run_report \<Rightarrow> scheduler \<Rightarrow> scheduler" where
  "finish_run cfg ci n success error reported r k =
     (case completeJobRun (f_env cfg) (ci_now ci) n success error r (k_store k) of
        (s1, Inr True) \<Rightarrow>
          (let k1 = k\<lparr>k_store := s1\<rparr>
           in case get_job s1 n of
                None \<Rightarrow> k1
              | Some j \<Rightarrow>
                  if ci_busOk ci
                  then publish_notice True (JobNotices n) (SuspensionNotice n)
                         (emit (ScheduleSuspended n (given reported ''Unknown error'') (j_failures j)) k1)
                  else k1)
      | (s1, _) \<Rightarrow> k\<lparr>k_store := s1\<rparr>)"

definition handleCompletion ::
    "sched_config \<Rightarrow> completion_input \<Rightarrow> nat \<Rightarrow> bool \<Rightarrow> string option \<Rightarrow> run_report \<Rightarrow> scheduler \<Rightarrow> scheduler" where
  "handleCompletion cfg ci e success error report k =
     (case map_of (k_pendingJobs k) e of
        None \<Rightarrow> k
      | Some n \<Rightarrow>
          (let meta = map_of (k_runMeta k) e;
               (k1, paused) = (if success then drift_check cfg ci n (forget_event e k) else (forget_event e k, False))
           in if paused then k1
              else case meta of
                     None \<Rightarrow> finish_run cfg ci n success error error report k1
                   | Some m \<Rightarrow>
                       if m_disposition m
                       then finish_run cfg ci n True None error (m_report m) (settleDispositionTurn cfg ci n m k1)
                       else if success \<and> m_taskWake m \<and> \<not> m_continuationSlice m then
                         (case holdForDisposition cfg ci n m report k1 of
                            (k2, True) \<Rightarrow> k2
                          | (k2, False) \<Rightarrow> finish_run cfg ci n True error error report k2)
                       else finish_run cfg ci n success error error report k1))"

text \<open>The two subscriptions.\<close>

definition on_agent_error :: "nat \<Rightarrow> string \<Rightarrow> scheduler \<Rightarrow> scheduler" where
  "on_agent_error e message k =
     (if map_of (k_pendingJobs k) e = None then k
      else k\<lparr>k_failureMessages := AList.update e message (k_failureMessages k)\<rparr>)"

definition text_or :: "string \<Rightarrow> string \<Rightarrow> string" where
  "text_or a b = (if a = [] then b else a)"

definition on_agent_response ::
    "sched_config \<Rightarrow> completion_input \<Rightarrow> nat \<Rightarrow> bool \<Rightarrow> string \<Rightarrow> (string \<times> string) list \<Rightarrow> rat option \<Rightarrow> scheduler \<Rightarrow> scheduler" where
  "on_agent_response cfg ci e isError content failed omitted k =
     (let stashed = map_of (k_failureMessages k) e;
          k1 = k\<lparr>k_failureMessages := AList.delete e (k_failureMessages k)\<rparr>;
          short = take 500 content
      in if isError
         then handleCompletion cfg ci e False (Some (given stashed (text_or short ''Agent error'')))
                \<lparr>rr_summary = None, rr_failedSkills = failed, rr_omitted = omitted\<rparr> k1
         else handleCompletion cfg ci e True None
                \<lparr>rr_summary = (if short = [] then None else Some short), rr_failedSkills = failed, rr_omitted = omitted\<rparr> k1)"

section \<open>The watchdog\<close>

text \<open>The time-out of a run in seconds, and as the SQL rounds it for the message.\<close>

definition run_timeout :: "sched_config \<Rightarrow> wake_job \<Rightarrow> rat" where
  "run_timeout cfg j = computeRecoveryTimeout (of_int (given (j_expected j) (f_defaultExpected cfg)))"

definition sql_integer :: "rat \<Rightarrow> int" where \<comment> \<open>a half goes to the even neighbour\<close>
  "sql_integer x = (if x - of_int \<lfloor>x\<rfloor> = 1 / 2 then (if even \<lfloor>x\<rfloor> then \<lfloor>x\<rfloor> else \<lfloor>x\<rfloor> + 1) else round x)"

definition stuck_job :: "sched_config \<Rightarrow> ms \<Rightarrow> wake_job \<Rightarrow> bool" where
  "stuck_job cfg now j \<longleftrightarrow> j_status j = JRunning
     \<and> (case j_runStartedAt j of None \<Rightarrow> True | Some t \<Rightarrow> of_int t < of_int now - 1000 * run_timeout cfg j)"

definition recover_one :: "sched_config \<Rightarrow> ms \<Rightarrow> bool \<Rightarrow> scheduler \<Rightarrow> wake_job \<Rightarrow> scheduler" where
  "recover_one cfg now busOk k row =
     (let n = j_id row; secs = sql_integer (run_timeout cfg row)
      in case recoverStuckJob (f_env cfg) now n secs (k_store k) of
           (s1, Inr r) \<Rightarrow>
             if rc_noOp r then k\<lparr>k_store := s1\<rparr>
             else
               (let k1 = k\<lparr>k_store := s1\<rparr>;
                    k2 = (case event_of_job n k1 of
                            None \<Rightarrow> k1
                          | Some e \<Rightarrow> (forget_event e k1)\<lparr>k_bursts := AList.delete n (k_bursts k1)\<rparr>);
                    k3 = (if busOk then emit (ScheduleRecovered n (rc_failures r) (rc_suspended r) (rc_rearmed r)) k2 else k2)
                in if busOk \<and> rc_suspended r
                   then emit (ScheduleSuspended n (e_timedOut (f_env cfg) ((secs + 30) div 60)) (rc_failures r)) k3
                   else k3)
         | (s1, Inl _) \<Rightarrow> k\<lparr>k_store := s1\<rparr>)"

definition recoverStuckJobs :: "sched_config \<Rightarrow> ms \<Rightarrow> bool \<Rightarrow> scheduler \<Rightarrow> scheduler" where
  "recoverStuckJobs cfg now busOk k =
     foldl (recover_one cfg now busOk) k (filter (stuck_job cfg now) (s_jobs (k_store k)))"

definition pruneStaleBurstCounts :: "scheduler \<Rightarrow> scheduler" where
  "pruneStaleBurstCounts k =
     k\<lparr>k_bursts := filter (\<lambda>(n, c). case get_job (k_store k) n of
                                     None \<Rightarrow> False | Some j \<Rightarrow> active_job j \<and> j_cron j \<noteq> None) (k_bursts k)\<rparr>"

section \<open>Start-up\<close>

text \<open>The constructor refuses a cap below one.\<close>

definition new_scheduler :: "sched_config \<Rightarrow> task_store \<Rightarrow> scheduler option" where
  "new_scheduler cfg s = (if f_maxInFlight cfg < 1 then None else Some (fresh_scheduler s))"

record agent_config =
  ac_name :: string
  ac_schedule :: "(string option \<times> declared_schedule) list" \<comment> \<open>target agent, if given\<close>

definition target_agent :: "agent_config \<Rightarrow> string option \<Rightarrow> string" where
  "target_agent c a = given a (ac_name c)"

text \<open>
  The declarations for known agents in the order of the files; each is upserted, a failure is skipped,
  and every one of them shields its row from the clean-up at the end.
\<close>

definition declarations :: "agent_config list \<Rightarrow> (string \<times> string \<times> declared_schedule) list" where
  "declarations cs =
     concat (map (\<lambda>c. concat (map (\<lambda>(a, d). if target_agent c a \<in> ac_name ` set cs
                                             then [(ac_name c, target_agent c a, d)] else []) (ac_schedule c))) cs)"

definition declared_tuple :: "string \<times> string \<times> declared_schedule \<Rightarrow> string \<times> string \<times> string \<times> jobj" where
  "declared_tuple = (\<lambda>(src, agent, d). (src, agent, ds_cron d, [(''task'', JStr (ds_task d))]))"

fun upsert_all ::
    "sched_env \<Rightarrow> ms \<Rightarrow> (string \<times> string \<times> string \<times> declared_schedule) list \<Rightarrow> task_store
       \<Rightarrow> task_store \<times> (string \<times> string \<times> declared_schedule) list" where
  "upsert_all env now [] s = (s, [])"
| "upsert_all env now ((i, src, agent, d) # ds) s =
     (case upsertDeclarativeJob env now i src agent d s of
        (s1, Inl e) \<Rightarrow> upsert_all env now ds s1
      | (s1, Inr n) \<Rightarrow> (case upsert_all env now ds s1 of (s2, done) \<Rightarrow> (s2, (src, agent, d) # done)))"

text \<open>The result is the declarations that were upserted, whose targets the cycle warning looks at.\<close>

definition loadDeclarativeJobs ::
    "sched_env \<Rightarrow> ms \<Rightarrow> string list \<Rightarrow> agent_config list \<Rightarrow> task_store
       \<Rightarrow> task_store \<times> (string \<times> string \<times> declared_schedule) list" where
  "loadDeclarativeJobs env now ids cs s =
     (let ds = declarations cs; (s1, upserted) = upsert_all env now (zip ids ds) s
      in (fst (cancelStaleDeclarativeJobs (map declared_tuple ds) s1), upserted))"

text \<open>The pairs of agents warned about, each once, the smaller name first.\<close>

fun cycle_warnings :: "(string \<times> string) list \<Rightarrow> (string \<times> string) list \<Rightarrow> (string \<times> string) list \<Rightarrow> (string \<times> string) list" where
  "cycle_warnings edges warned [] = []"
| "cycle_warnings edges warned ((a, b) # es) =
     (let pair = (if b < a then (b, a) else (a, b))
      in if a \<noteq> b \<and> (b, a) \<in> set edges \<and> pair \<notin> set warned
         then pair # cycle_warnings edges (pair # warned) es
         else cycle_warnings edges warned es)"

section \<open>Runs\<close>

datatype sched_request =
    KCall repo_request \<comment> \<open>anybody else\<close>
  | KPoll ms
  | KFire ms job_row \<comment> \<open>a row read by some poll, at any time\<close>
  | KSlotTimeout nat
  | KSettle ms nat bool
  | KError nat string
  | KResponse completion_input nat bool string "(string \<times> string) list" "rat option"
  | KWatchdog ms bool
  | KPrune

fun sched_step :: "sched_config \<Rightarrow> scheduler \<Rightarrow> sched_request \<Rightarrow> scheduler" where
  "sched_step cfg k (KCall r) = k\<lparr>k_store := repo_step (f_env cfg) (f_ns cfg) (k_store k) r\<rparr>"
| "sched_step cfg k (KPoll now) = pollDueJobs cfg now k"
| "sched_step cfg k (KFire now r) = fst (fireJob cfg now r k)"
| "sched_step cfg k (KSlotTimeout e) = release_slot e k"
| "sched_step cfg k (KSettle now e ok) = settle_publish now e ok k"
| "sched_step cfg k (KError e m) = on_agent_error e m k"
| "sched_step cfg k (KResponse ci e isError content failed omitted) =
     (if uuid_shape (ci_newTaskId ci) then on_agent_response cfg ci e isError content failed omitted k else k)"
| "sched_step cfg k (KWatchdog now ok) = recoverStuckJobs cfg now ok k"
| "sched_step cfg k KPrune = pruneStaleBurstCounts k"

end
