(* ===== verification/SchedulerProofs.thy ===== *)
theory SchedulerProofs
  imports Scheduler TaskClosing
begin

text \<open>
  The scheduler's invariant: slots in use are the runs in flight that still hold one and never exceed
  the cap; the three maps agree on their keys; every follow-up turn answers a fired wake of its own;
  and the tables stay in order. Then what follows for jobs: a finished task is not woken, a job that is
  held stays held, and a job that keeps failing is suspended.
\<close>

section \<open>Counting\<close>

definition held_slots :: "scheduler \<Rightarrow> nat" where
  "held_slots k = length (filter (\<lambda>p. fl_held (snd p)) (k_runs k))"

fun is_follow_up :: "sched_event \<Rightarrow> bool" where
  "is_follow_up (AgentTask t) = at_taskTools t"
| "is_follow_up _ = False"

fun is_fire :: "sched_event \<Rightarrow> bool" where
  "is_fire (ScheduleFired _ _) = True"
| "is_fire _ = False"

definition follow_ups :: "scheduler \<Rightarrow> nat" where
  "follow_ups k = length (filter is_follow_up (k_published k))"

definition fires :: "scheduler \<Rightarrow> nat" where
  "fires k = length (filter is_fire (k_published k))"

text \<open>First turns that have not ended.\<close>

definition open_turns :: "scheduler \<Rightarrow> nat" where
  "open_turns k = length (filter (\<lambda>p. \<not> m_disposition (snd p)) (k_runMeta k))"

definition sched_ok :: "sched_config \<Rightarrow> scheduler \<Rightarrow> bool" where
  "sched_ok cfg k \<longleftrightarrow>
     k_inFlight k = int (held_slots k) \<and> k_inFlight k \<le> f_maxInFlight cfg
     \<and> owf (k_runs k) \<and> (\<forall>e\<in>fst ` set (k_runs k). e < k_nextEvent k)
     \<and> owf (k_pendingJobs k) \<and> owf (k_runMeta k) \<and> owf (k_failureMessages k)
     \<and> fst ` set (k_runMeta k) = fst ` set (k_pendingJobs k)
     \<and> fst ` set (k_failureMessages k) \<subseteq> fst ` set (k_pendingJobs k)
     \<and> (\<forall>e\<in>fst ` set (k_pendingJobs k). e < k_nextEvent k)
     \<and> follow_ups k + open_turns k \<le> fires k"

text \<open>Counting in an association list whose keys are distinct.\<close>

lemma filter_update_count:
  assumes "owf m"
  shows "length (filter (\<lambda>p. P (snd p)) (AList.update e v m)) + (if \<exists>w. map_of m e = Some w \<and> P w then 1 else 0)
    = length (filter (\<lambda>p. P (snd p)) m) + (if P v then 1 else 0)"
  using assms
proof (induction m)
  case (Cons p m)
  obtain k w where p: "p = (k, w)" by (cases p)
  show ?case
  proof (cases "k = e")
    case True
    then show ?thesis using p by simp
  next
    case False
    with Cons p have "length (filter (\<lambda>p. P (snd p)) (AList.update e v m)) + (if \<exists>w. map_of m e = Some w \<and> P w then 1 else 0)
      = length (filter (\<lambda>p. P (snd p)) m) + (if P v then 1 else 0)" by (simp add: owf_def)
    with False p show ?thesis by (auto split: if_splits)
  qed
qed simp

lemma filter_delete_count:
  assumes "owf m"
  shows "length (filter (\<lambda>p. P (snd p)) (AList.delete e m)) + (if \<exists>w. map_of m e = Some w \<and> P w then 1 else 0)
    = length (filter (\<lambda>p. P (snd p)) m)"
  using assms
proof (induction m)
  case (Cons p m)
  obtain k w where p: "p = (k, w)" by (cases p)
  show ?case
  proof (cases "k = e")
    case True
    then have "map_of m e = None" "AList.delete e m = m"
      using Cons.prems p by (auto simp: owf_def map_of_eq_None_iff intro: delete_id)
    with True p show ?thesis by (auto simp: delete_idem)
  next
    case False
    with Cons p have "length (filter (\<lambda>p. P (snd p)) (AList.delete e m)) + (if \<exists>w. map_of m e = Some w \<and> P w then 1 else 0)
      = length (filter (\<lambda>p. P (snd p)) m)" by (simp add: owf_def)
    with False p show ?thesis by (auto split: if_splits)
  qed
qed simp

lemma update_keys: "fst ` set (AList.update e v m) = insert e (fst ` set m)"
  by (induction m) auto

lemma delete_keys: "fst ` set (AList.delete e m) = fst ` set m - {e}"
  by (auto simp: AList.delete_eq)

section \<open>Quiet steps\<close>

text \<open>What most operations leave alone.\<close>

definition quiet :: "scheduler \<Rightarrow> scheduler \<Rightarrow> bool" where
  "quiet k k' \<longleftrightarrow> k_pendingJobs k' = k_pendingJobs k \<and> k_runMeta k' = k_runMeta k
     \<and> k_failureMessages k' = k_failureMessages k \<and> k_runs k' = k_runs k \<and> k_inFlight k' = k_inFlight k
     \<and> k_nextEvent k \<le> k_nextEvent k' \<and> follow_ups k' = follow_ups k \<and> fires k' = fires k"

lemma quiet_refl [simp]: "quiet k k"
  by (simp add: quiet_def)

lemma quiet_trans: "quiet k k1 \<Longrightarrow> quiet k1 k2 \<Longrightarrow> quiet k k2"
  by (simp add: quiet_def)

lemma quiet_store [simp]: "quiet k (k\<lparr>k_store := s\<rparr>)"
  by (simp add: quiet_def follow_ups_def fires_def)

lemma quiet_bursts [simp]: "quiet k (k\<lparr>k_bursts := b\<rparr>)"
  by (simp add: quiet_def follow_ups_def fires_def)

lemma quiet_emit: "\<not> is_follow_up e \<Longrightarrow> \<not> is_fire e \<Longrightarrow> quiet k (emit e k)"
  by (simp add: quiet_def emit_def follow_ups_def fires_def)

lemma quiet_notice [simp]: "quiet k (publish_notice ok conv t k)"
  by (simp add: publish_notice_def quiet_def emit_def notice_task_def follow_ups_def fires_def)

lemma sched_ok_quiet: "sched_ok cfg k \<Longrightarrow> quiet k k' \<Longrightarrow> sched_ok cfg k'"
  by (auto simp: sched_ok_def quiet_def held_slots_def open_turns_def)

section \<open>Operations\<close>

lemma quiet_flag [simp]: "quiet k (flagNeedsDisposition ci i t k)"
proof -
  have "quiet k (publish_notice (ci_busOk ci) c x (k\<lparr>k_store := s\<rparr>))" for c x s
    by (rule quiet_trans [OF quiet_store quiet_notice])
  then have "quiet k (publish_notice (ci_busOk ci) c x (k\<lparr>k_store := s\<rparr>)\<lparr>k_store := s'\<rparr>)" for c x s s'
    using quiet_trans [OF _ quiet_store] by blast
  then show ?thesis by (auto simp: flagNeedsDisposition_def Let_def split: prod.splits)
qed

lemma quiet_settle [simp]: "quiet k (settleDispositionTurn cfg ci n m k)"
  by (auto simp: settleDispositionTurn_def split: option.splits)

lemma quiet_drift: "quiet k (fst (drift_check cfg ci n k))"
proof -
  have p: "quiet k0 (publish_notice True c x (emit (ScheduleDriftPaused n) k0))" for c x k0
    by (rule quiet_trans [OF quiet_emit quiet_notice]) simp_all
  have b: "quiet k (k\<lparr>k_bursts := b, k_store := s\<rparr>)" "quiet k (k\<lparr>k_store := s, k_bursts := b\<rparr>)" for b s
    by (simp_all add: quiet_def follow_ups_def fires_def)
  show ?thesis
    by (auto simp: drift_check_def Let_def split: option.splits prod.splits
        intro!: b quiet_trans [OF _ p])
qed

lemma quiet_finish: "quiet k (finish_run cfg ci n ok e r' r k)"
proof -
  have "quiet k (publish_notice True c x (emit (ScheduleSuspended n a b) (k\<lparr>k_store := s\<rparr>)))" for c x a b s
    by (rule quiet_trans [OF quiet_trans [OF quiet_store quiet_emit] quiet_notice]) simp_all
  then show ?thesis
    by (auto simp: finish_run_def Let_def split: prod.splits sum.splits option.splits bool.splits)
qed

lemma forget_simps [simp]:
  "k_pendingJobs (forget_event e k) = AList.delete e (k_pendingJobs k)"
  "k_runMeta (forget_event e k) = AList.delete e (k_runMeta k)"
  "k_failureMessages (forget_event e k) = AList.delete e (k_failureMessages k)"
  "k_runs (forget_event e k) = k_runs k" "k_inFlight (forget_event e k) = k_inFlight k"
  "k_nextEvent (forget_event e k) = k_nextEvent k" "k_store (forget_event e k) = k_store k"
  "follow_ups (forget_event e k) = follow_ups k" "fires (forget_event e k) = fires k"
  "held_slots (forget_event e k) = held_slots k" "k_bursts (forget_event e k) = k_bursts k"
  by (simp_all add: forget_event_def follow_ups_def fires_def held_slots_def)

lemma forget_turns:
  "owf (k_runMeta k) \<Longrightarrow> open_turns (forget_event e k)
     + (if \<exists>m. map_of (k_runMeta k) e = Some m \<and> \<not> m_disposition m then 1 else 0) = open_turns k"
  unfolding open_turns_def forget_simps by (rule filter_delete_count)

lemma ok_forget: "sched_ok cfg k \<Longrightarrow> sched_ok cfg (forget_event e k)"
proof -
  assume ok: "sched_ok cfg k"
  then have "open_turns (forget_event e k) \<le> open_turns k"
    using forget_turns [of k e] by (simp add: sched_ok_def split: if_splits)
  with ok show ?thesis unfolding sched_ok_def forget_simps delete_keys by auto
qed

text \<open>Ending a first turn leaves room for one follow-up.\<close>

lemma forget_first_turn:
  assumes "sched_ok cfg k" "map_of (k_runMeta k) e = Some m" "\<not> m_disposition m"
  shows "follow_ups (forget_event e k) + open_turns (forget_event e k) < fires (forget_event e k)"
  using assms forget_turns [of k e] by (simp add: sched_ok_def)

lemma fresh_key: "sched_ok cfg k \<Longrightarrow> map_of (k_runMeta k) (k_nextEvent k) = None \<and> map_of (k_runs k) (k_nextEvent k) = None"
proof -
  assume "sched_ok cfg k"
  then have "\<forall>e\<in>fst ` set (k_runMeta k). e < k_nextEvent k" "\<forall>e\<in>fst ` set (k_runs k). e < k_nextEvent k"
    by (simp_all add: sched_ok_def)
  then show ?thesis unfolding map_of_eq_None_iff using less_irrefl by blast
qed

lemma ok_hold_turn:
  assumes ok: "sched_ok cfg k" and room: "follow_ups k + open_turns k < fires k"
  shows "sched_ok cfg (hold_turn ci n m i r t nts k)"
proof -
  let ?k = "hold_turn ci n m i r t nts k" and ?m = "m\<lparr>m_disposition := True, m_notesAtStart := nts, m_taskWake := True,
    m_continuationSlice := False, m_report := r\<rparr>"
  have f: "k_pendingJobs ?k = AList.update (k_nextEvent k) n (k_pendingJobs k)"
    "k_runMeta ?k = AList.update (k_nextEvent k) ?m (k_runMeta k)" "k_failureMessages ?k = k_failureMessages k"
    "k_runs ?k = k_runs k" "k_inFlight ?k = k_inFlight k" "k_nextEvent ?k = k_nextEvent k + 1"
    "held_slots ?k = held_slots k" "follow_ups ?k = follow_ups k + 1" "fires ?k = fires k"
    by (simp_all add: hold_turn_def Let_def emit_def held_slots_def follow_ups_def fires_def)
  have "open_turns ?k = open_turns k"
    using ok fresh_key [OF ok] filter_update_count [of "k_runMeta k" "\<lambda>m. \<not> m_disposition m" "k_nextEvent k" ?m]
    unfolding open_turns_def f by (simp add: sched_ok_def)
  with ok room show ?thesis unfolding sched_ok_def f update_keys by (auto simp: less_Suc_eq)
qed

lemma quiet_counts: "quiet k k' \<Longrightarrow> follow_ups k' = follow_ups k \<and> open_turns k' = open_turns k \<and> fires k' = fires k"
  by (simp add: quiet_def open_turns_def)

lemma ok_hold:
  assumes ok: "sched_ok cfg k" and room: "follow_ups k + open_turns k < fires k"
  shows "sched_ok cfg (fst (holdForDisposition cfg ci n m r k))"
proof -
  have "sched_ok cfg (hold_turn ci n m i r t nts (k\<lparr>k_store := s\<rparr>))" for i t nts s
    by (rule ok_hold_turn [OF sched_ok_quiet [OF ok quiet_store]])
      (use room quiet_counts [OF quiet_store] in simp)
  moreover have "sched_ok cfg (flagNeedsDisposition ci i t (k\<lparr>k_store := s\<rparr>))" for i t s
    by (rule sched_ok_quiet [OF sched_ok_quiet [OF ok quiet_store] quiet_flag])
  ultimately show ?thesis
    using ok by (auto simp: holdForDisposition_def Let_def split: option.splits)
qed

lemma ok_handle:
  assumes ok: "sched_ok cfg k"
  shows "sched_ok cfg (handleCompletion cfg ci e success error report k)"
proof (cases "map_of (k_pendingJobs k) e")
  case (Some n)
  let ?k0 = "forget_event e k"
  obtain k1 paused where k1: "(if success then drift_check cfg ci n ?k0 else (?k0, False)) = (k1, paused)"
    by (cases "if success then drift_check cfg ci n ?k0 else (?k0, False)")
  have q: "quiet ?k0 k1" using k1 quiet_drift [of ?k0 cfg ci n] by (auto split: if_splits)
  have ok0: "sched_ok cfg ?k0" by (rule ok_forget [OF ok])
  have ok1: "sched_ok cfg k1" by (rule sched_ok_quiet [OF ok0 q])
  have fin: "sched_ok cfg k2 \<Longrightarrow> sched_ok cfg (finish_run cfg ci n b x y r k2)" for k2 b x y r
    by (erule sched_ok_quiet) (rule quiet_finish)
  have hold: "sched_ok cfg k2" if "map_of (k_runMeta k) e = Some m" "\<not> m_disposition m"
    "holdForDisposition cfg ci n m report k1 = (k2, b)" for m k2 b
    using forget_first_turn [OF ok that(1,2)] quiet_counts [OF q] ok_hold [OF ok1, of ci n m report] that(3) by simp
  show ?thesis
    using ok1 unfolding handleCompletion_def Some option.case Let_def k1 prod.case
    by (auto split: option.splits prod.splits bool.splits intro!: fin sched_ok_quiet [OF ok1 quiet_settle] dest: hold)
qed (use ok in \<open>simp add: handleCompletion_def\<close>)

lemma ok_error: "sched_ok cfg k \<Longrightarrow> sched_ok cfg (on_agent_error e m k)"
proof -
  assume ok: "sched_ok cfg k"
  have "e \<in> fst ` set (k_pendingJobs k)" if "map_of (k_pendingJobs k) e \<noteq> None"
    using that by (simp add: map_of_eq_None_iff)
  with ok show ?thesis
    by (auto simp: on_agent_error_def sched_ok_def held_slots_def open_turns_def follow_ups_def fires_def update_keys)
qed

lemma ok_response: "sched_ok cfg k \<Longrightarrow> sched_ok cfg (on_agent_response cfg ci e b t fs om k)"
proof -
  assume ok: "sched_ok cfg k"
  have "sched_ok cfg (k\<lparr>k_failureMessages := AList.delete e (k_failureMessages k)\<rparr>)"
    using ok by (auto simp: sched_ok_def held_slots_def open_turns_def follow_ups_def fires_def delete_keys)
  then show ?thesis by (simp add: on_agent_response_def Let_def ok_handle)
qed

lemma ok_revert: "sched_ok cfg k \<Longrightarrow> sched_ok cfg (revertFailedFire n g k)"
  by (auto simp: revertFailedFire_def Let_def ok_forget split: option.splits prod.splits
      intro!: sched_ok_quiet [OF _ quiet_store])

lemma ok_dispatch:
  assumes ok: "sched_ok cfg k" and room: "k_inFlight k < f_maxInFlight cfg"
  shows "sched_ok cfg (dispatch_job cfg now r (k\<lparr>k_store := s, k_inFlight := k_inFlight k + 1\<rparr>))" (is "sched_ok cfg ?k")
proof -
  obtain meta run evs where f: "k_pendingJobs ?k = AList.update (k_nextEvent k) (j_id (jr_job r)) (k_pendingJobs k)"
    "k_runMeta ?k = AList.update (k_nextEvent k) meta (k_runMeta k)" "\<not> m_disposition meta"
    "k_runs ?k = AList.update (k_nextEvent k) run (k_runs k)" "fl_held run"
    "k_failureMessages ?k = k_failureMessages k" "k_inFlight ?k = k_inFlight k + 1" "k_nextEvent ?k = k_nextEvent k + 1"
    "follow_ups ?k = follow_ups k" "fires ?k = fires k + 1"
    unfolding dispatch_job_def Let_def by (simp add: follow_ups_def fires_def)
  note fr = fresh_key [OF ok]
  have "open_turns ?k = open_turns k + 1"
    using ok fr f(3) filter_update_count [of "k_runMeta k" "\<lambda>m. \<not> m_disposition m" "k_nextEvent k" meta]
    unfolding open_turns_def f(2) by (simp add: sched_ok_def)
  moreover have "held_slots ?k = held_slots k + 1"
    using ok fr f(5) filter_update_count [of "k_runs k" fl_held "k_nextEvent k" run]
    unfolding held_slots_def f(4) by (simp add: sched_ok_def)
  ultimately show ?thesis
    using ok room unfolding sched_ok_def f(1,2,4,6-10) update_keys by (auto simp: less_Suc_eq)
qed

lemma ok_fire: "sched_ok cfg k \<Longrightarrow> sched_ok cfg (fst (fireJob cfg now r k))"
  by (auto simp: fireJob_def not_le intro!: ok_dispatch ok_revert sched_ok_quiet [OF _ quiet_store]
      split: prod.splits sum.splits option.splits)

lemma ok_fire_rows: "sched_ok cfg k \<Longrightarrow> sched_ok cfg (fire_rows cfg now rs k)"
proof (induction rs arbitrary: k)
  case (Cons r rs)
  then show ?case using ok_fire [of cfg k now r] by (auto split: prod.splits fire_outcome.splits)
qed simp

lemma ok_release: "sched_ok cfg k \<Longrightarrow> sched_ok cfg (release_slot e k)"
proof -
  assume ok: "sched_ok cfg k"
  show ?thesis
  proof (cases "map_of (k_runs k) e")
    case (Some fl)
    have "e \<in> fst ` set (k_runs k)" using Some by (metis map_of_eq_None_iff option.simps(3))
    moreover have "held_slots (k\<lparr>k_runs := AList.update e (fl\<lparr>fl_held := False\<rparr>) (k_runs k)\<rparr>) + 1 = held_slots k"
      if "fl_held fl"
      using ok Some that filter_update_count [of "k_runs k" fl_held e "fl\<lparr>fl_held := False\<rparr>"]
      by (simp add: held_slots_def sched_ok_def)
    ultimately show ?thesis
      using ok Some unfolding sched_ok_def
      by (simp add: release_slot_def held_slots_def open_turns_def follow_ups_def fires_def update_keys del: ball_simps)
        (auto simp flip: of_nat_Suc)
  qed (use ok in \<open>simp add: release_slot_def\<close>)
qed

lemma release_not_held: "map_of (k_runs (release_slot e k)) e = Some fl \<Longrightarrow> \<not> fl_held fl"
  by (auto simp: release_slot_def split: option.splits if_splits)

lemma ok_settle_publish: "sched_ok cfg k \<Longrightarrow> sched_ok cfg (settle_publish now e ok k)"
proof -
  assume okk: "sched_ok cfg k"
  have del: "sched_ok cfg (k1\<lparr>k_runs := AList.delete e (k_runs k1)\<rparr>)" if "k1 = release_slot e k0" "sched_ok cfg k0" for k0 k1
  proof -
    have ok1: "sched_ok cfg k1" using that ok_release by simp
    then have "held_slots (k1\<lparr>k_runs := AList.delete e (k_runs k1)\<rparr>) = held_slots k1"
      using filter_delete_count [of "k_runs k1" fl_held e] release_not_held [of e k0] that(1)
      by (auto simp: held_slots_def sched_ok_def split: if_splits)
    with ok1 show ?thesis
      by (auto simp: sched_ok_def held_slots_def open_turns_def follow_ups_def fires_def delete_keys)
  qed
  show ?thesis
    using okk by (auto simp: settle_publish_def Let_def split: option.splits
        intro!: del [OF refl] ok_revert sched_ok_quiet [OF _ quiet_store])
qed

lemma ok_recover_one: "sched_ok cfg k \<Longrightarrow> sched_ok cfg (recover_one cfg now b k row)"
proof -
  assume ok: "sched_ok cfg k"
  have 1: "sched_ok cfg (k\<lparr>k_store := s\<rparr>)" for s by (rule sched_ok_quiet [OF ok quiet_store])
  have 2: "sched_ok cfg ((forget_event e (k\<lparr>k_store := s\<rparr>))\<lparr>k_bursts := x\<rparr>)" for e s x
    by (rule sched_ok_quiet [OF ok_forget [OF 1] quiet_bursts])
  have 3: "sched_ok cfg k1 \<Longrightarrow> sched_ok cfg (emit (ScheduleRecovered p q u v) k1)"
    "sched_ok cfg k1 \<Longrightarrow> sched_ok cfg (emit (ScheduleSuspended p w q) k1)" for k1 p q u v w
    by (erule sched_ok_quiet, rule quiet_emit; simp)+
  show ?thesis
    using 1 2 unfolding recover_one_def Let_def
    by (auto split: prod.splits sum.splits option.splits intro!: 3)
qed

lemma ok_watchdog: "sched_ok cfg k \<Longrightarrow> sched_ok cfg (recoverStuckJobs cfg now b k)"
proof -
  have "sched_ok cfg k \<Longrightarrow> sched_ok cfg (foldl (recover_one cfg now b) k rows)" for rows
    by (induction rows arbitrary: k) (auto intro: ok_recover_one)
  then show "sched_ok cfg k \<Longrightarrow> ?thesis" by (simp add: recoverStuckJobs_def)
qed

lemma ok_sched_step: "sched_ok cfg k \<Longrightarrow> sched_ok cfg (sched_step cfg k r)"
  by (cases r) (auto simp: pollDueJobs_def Let_def pruneStaleBurstCounts_def ok_fire_rows ok_fire ok_release
      ok_settle_publish ok_error ok_response ok_watchdog intro: sched_ok_quiet [OF _ quiet_store]
      sched_ok_quiet [OF _ quiet_bursts])

section \<open>The tables\<close>

lemma after_ok:
  "store_ok s \<Longrightarrow> store_ok (after_statement s (failUnownedAgent j s))"
  "store_ok s \<Longrightarrow> store_ok (after_statement s (fail_bad_cron n c x s))"
  "store_ok s \<Longrightarrow> store_ok (after_statement s (retireFinishedTaskWake n s))"
  "store_ok s \<Longrightarrow> store_ok (after_statement s (revert_claim n st s))"
  by (simp_all add: statement_defs ok_after)

lemma claim_ok:
  "store_ok s \<Longrightarrow> claim_wake now n s = Inr (s', row) \<Longrightarrow> store_ok s'"
  "store_ok s \<Longrightarrow> claim_cron now t n c s = Inr (s', row) \<Longrightarrow> store_ok s'"
  by (auto simp: claim_wake_def claim_cron_def start_run_def elim!: ok_update_job)

lemma claim_job_ok: "store_ok s \<Longrightarrow> store_ok (fst (claim_job cfg now r s))"
  by (auto simp: claim_job_def Let_def after_ok split: option.splits sum.splits prod.splits
      dest: claim_ok intro!: after_ok)

lemma store_revert: "store_ok (k_store k) \<Longrightarrow> store_ok (k_store (revertFailedFire n g k))"
  by (auto simp: revertFailedFire_def Let_def after_ok split: option.splits prod.splits)

lemma store_fire: "store_ok (k_store k) \<Longrightarrow> store_ok (k_store (fst (fireJob cfg now r k)))"
  using claim_job_ok [of "k_store k" cfg now r]
  by (auto simp: fireJob_def dispatch_job_def Let_def split: prod.splits sum.splits option.splits intro!: store_revert)

lemma store_fire_rows: "store_ok (k_store k) \<Longrightarrow> store_ok (k_store (fire_rows cfg now rs k))"
proof (induction rs arbitrary: k)
  case (Cons r rs)
  then show ?case using store_fire [of k cfg now r] by (auto split: prod.splits fire_outcome.splits)
qed simp

lemma store_release [simp]: "k_store (release_slot e k) = k_store k"
  by (simp add: release_slot_def split: option.splits)

lemma store_settle: "store_ok (k_store k) \<Longrightarrow> store_ok (k_store (settle_publish now e ok k))"
  by (auto simp: settle_publish_def Let_def closeDelegationRetryTask_def split: option.splits
      intro!: ok_task_where store_revert)

lemma store_notice [simp]: "k_store (publish_notice ok c x k) = k_store k" "k_store (emit ev k) = k_store k"
  by (simp_all add: publish_notice_def emit_def)

lemma store_touch: "store_ok s \<Longrightarrow> store_ok (touch_task now i s)"
  by (auto simp: touch_task_def same_skel_def intro!: ok_task_where)

lemma store_flag:
  "uuid_shape (ci_newTaskId ci) \<Longrightarrow> store_ok (k_store k) \<Longrightarrow> store_ok (k_store (flagNeedsDisposition ci i t k))"
proof -
  assume u: "uuid_shape (ci_newTaskId ci)" and ok: "store_ok (k_store k)"
  have "store_ok (fst (tag_undisposed (ci_now ci) i (k_store k)))"
    using ok by (auto simp: tag_undisposed_def same_skel_def intro!: ok_task_where)
  then have "store_ok (fst (createTask now (ci_newTaskId ci) (review_task i t) (fst (tag_undisposed (ci_now ci) i (k_store k)))))" for now
    by (rule ok_create [OF _ uuid_shape_nonempty [OF u]]) (simp add: parent_loaded_def review_task_def)
  then show ?thesis using ok by (auto simp: flagNeedsDisposition_def Let_def split: prod.splits)
qed

lemma store_hold:
  "uuid_shape (ci_newTaskId ci) \<Longrightarrow> store_ok (k_store k) \<Longrightarrow> store_ok (k_store (fst (holdForDisposition cfg ci n m r k)))"
  by (auto simp: holdForDisposition_def hold_turn_def Let_def store_touch split: option.splits intro!: store_flag)

lemma store_settle_turn:
  "uuid_shape (ci_newTaskId ci) \<Longrightarrow> store_ok (k_store k) \<Longrightarrow> store_ok (k_store (settleDispositionTurn cfg ci n m k))"
  by (auto simp: settleDispositionTurn_def split: option.splits intro!: store_flag)

lemma store_drift: "store_ok (k_store k) \<Longrightarrow> store_ok (k_store (fst (drift_check cfg ci n k)))"
  using ok_pause [of "k_store k"] by (auto simp: drift_check_def Let_def split: option.splits)

lemma store_finish: "store_ok (k_store k) \<Longrightarrow> store_ok (k_store (finish_run cfg ci n b e e' r k))"
  using ok_completeJobRun [of "k_store k" "f_env cfg" "ci_now ci" n b e r]
  by (auto simp: finish_run_def Let_def split: prod.splits sum.splits bool.splits option.splits)

lemma store_handle:
  assumes u: "uuid_shape (ci_newTaskId ci)" and ok: "store_ok (k_store k)"
  shows "store_ok (k_store (handleCompletion cfg ci e b x r k))"
proof (cases "map_of (k_pendingJobs k) e")
  case (Some n)
  obtain k1 p where k1: "(if b then drift_check cfg ci n (forget_event e k) else (forget_event e k, False)) = (k1, p)"
    by (cases "if b then drift_check cfg ci n (forget_event e k) else (forget_event e k, False)")
  have ok1: "store_ok (k_store k1)" using k1 ok store_drift [of "forget_event e k" cfg ci n] by (auto split: if_splits)
  have hold: "holdForDisposition cfg ci n m r k1 = (k2, h) \<Longrightarrow> store_ok (k_store k2)" for m k2 h
    using store_hold [OF u ok1, of cfg n m r] by simp
  show ?thesis
    using ok1 unfolding handleCompletion_def Some option.case Let_def k1 prod.case
    by (auto split: option.splits prod.splits bool.splits intro!: store_finish store_settle_turn [OF u] dest: hold)
qed (use ok in \<open>simp add: handleCompletion_def\<close>)

lemma store_recover: "store_ok (k_store k) \<Longrightarrow> store_ok (k_store (recover_one cfg now b k row))"
  using ok_recover [of "k_store k" "f_env cfg" now "j_id row" "sql_integer (run_timeout cfg row)"]
  by (auto simp: recover_one_def Let_def split: prod.splits sum.splits option.splits)

lemma store_watchdog: "store_ok (k_store k) \<Longrightarrow> store_ok (k_store (recoverStuckJobs cfg now b k))"
proof -
  have "store_ok (k_store k) \<Longrightarrow> store_ok (k_store (foldl (recover_one cfg now b) k rows))" for rows
    by (induction rows arbitrary: k) (auto intro: store_recover)
  then show "store_ok (k_store k) \<Longrightarrow> ?thesis" by (simp add: recoverStuckJobs_def)
qed

lemma store_sched_step: "store_ok (k_store k) \<Longrightarrow> store_ok (k_store (sched_step cfg k r))"
  by (cases r) (auto simp: pollDueJobs_def Let_def pruneStaleBurstCounts_def store_fire_rows store_fire
      store_settle on_agent_error_def on_agent_response_def store_watchdog ok_step intro!: store_handle)

text \<open>The contract of the scheduler as a machine.\<close>

definition sched_inv :: "sched_config \<Rightarrow> scheduler \<Rightarrow> bool" where
  "sched_inv cfg k \<longleftrightarrow> sched_ok cfg k \<and> store_ok (k_store k)"

lemma sched_inv_fresh: "new_scheduler cfg s = Some k \<Longrightarrow> store_ok s \<Longrightarrow> sched_inv cfg k"
  by (auto simp: new_scheduler_def fresh_scheduler_def sched_inv_def sched_ok_def held_slots_def follow_ups_def
      open_turns_def fires_def split: if_splits)

interpretation sched: machine "sched_step cfg" "sched_inv cfg"
    "\<lambda>k. \<exists>s. new_scheduler cfg s = Some k \<and> store_ok s" for cfg
  by unfold_locales (blast intro: sched_inv_fresh, simp add: sched_inv_def ok_sched_step store_sched_step)


section \<open>Held jobs\<close>

text \<open>A statement whose guard a row does not meet leaves the row as it is.\<close>

definition keeps_job :: "nat \<Rightarrow> task_store \<Rightarrow> task_store \<Rightarrow> bool" where
  "keeps_job n s s' \<longleftrightarrow> get_job s' n = get_job s n"

lemma keeps_refl [simp]: "keeps_job n s s"
  by (simp add: keeps_job_def)

lemma keeps_trans: "keeps_job n s t \<Longrightarrow> keeps_job n t u \<Longrightarrow> keeps_job n s u"
  by (simp add: keeps_job_def)

lemma get_job_update_jobs:
  assumes "\<And>j. P j \<Longrightarrow> j_id (f j) = j_id j"
  shows "get_job (update_jobs P f s) n = map_option (\<lambda>j. if P j then f j else j) (get_job s n)"
proof -
  have "find (\<lambda>j. j_id j = n) (map (\<lambda>j. if P j then f j else j) xs)
      = map_option (\<lambda>j. if P j then f j else j) (find (\<lambda>j. j_id j = n) xs)" for xs
    using assms by (induction xs) auto
  then show ?thesis by (simp add: get_job_def update_jobs_def)
qed

lemma get_job_frames [simp]:
  "get_job (update_row i g s) = get_job s" "get_job (publish_event e s) = get_job s"
  by (simp_all add: get_job_def fun_eq_iff)

text \<open>One statement on the row of job \<open>m\<close>, seen from job \<open>n\<close>.\<close>

lemma update_job_effect:
  assumes "update_job m guard f s = Inr (s', row)" "\<And>j. j_id (f j) = j_id j"
  shows "get_job s' n = (case get_job s n of
      None \<Rightarrow> None | Some j \<Rightarrow> Some (if m = n \<and> guard j then f j else j))"
proof (cases "get_job s m")
  case None
  with assms show ?thesis by (auto simp: update_job_def split: option.splits)
next
  case (Some j)
  have id: "get_job s x = Some y \<Longrightarrow> j_id y = x" for x y using get_job_Some by blast
  have "s' = (if guard j then update_jobs (\<lambda>k. j_id k = m) f s else s)"
    using assms(1) Some by (auto simp: update_job_def split: option.splits if_splits)
  then show ?thesis
    using Some id assms(2) by (cases "get_job s n"; cases "m = n") (simp_all add: get_job_update_jobs id [OF Some])
qed

lemma update_job_row:
  assumes "update_job m guard f s = Inr (s', row)" "\<And>j. j_id (f j) = j_id j"
  shows "row = (case get_job s m of None \<Rightarrow> None | Some j \<Rightarrow> if guard j then Some (f j) else None)"
  using assms by (auto simp: update_job_def split: option.splits if_splits)

lemma keeps_update_job:
  assumes "update_job m guard f s = Inr (s', row)" "\<And>j. j_id (f j) = j_id j" "get_job s n = Some j" "\<not> guard j"
  shows "keeps_job n s s'"
  using update_job_effect [OF assms(1,2), of n] assms(3,4) by (simp add: keeps_job_def)

lemma keeps_after:
  assumes "\<And>j. j_id (f j) = j_id j" "get_job s n = Some j" "\<not> guard j"
  shows "keeps_job n s (after_statement s (update_job m guard f s))"
  using keeps_update_job [where guard = guard and f = f and n = n and s = s, OF _ assms] by (auto simp: after_statement_def split: sum.splits)

lemma keeps_written:
  assumes "\<And>j. j_id (f j) = j_id j" "get_job s n = Some j" "\<not> guard j"
  shows "keeps_job n s (fst (written s (update_job m guard f s) c))"
  using keeps_update_job [where guard = guard and f = f and n = n and s = s, OF _ assms] by (auto simp: written_def split: sum.splits)

text \<open>
  Every operation of the scheduler itself leaves a paused or cancelled job alone: claims take pending and
  failed rows, reverts and recoveries running ones, completions are fenced.
\<close>

definition operator_held :: "wake_job \<Rightarrow> bool" where
  "operator_held j \<longleftrightarrow> j_status j = JPaused \<or> j_status j = JCancelled"

lemma keeps_statements:
  assumes j: "get_job s n = Some j" and held: "operator_held j"
  shows "keeps_job n s (after_statement s (failUnownedAgent r s))"
    "keeps_job n s (after_statement s (fail_bad_cron m c x s))"
    "keeps_job n s (after_statement s (retireFinishedTaskWake m s))"
    "keeps_job n s (after_statement s (revert_claim m st s))"
    "claim_wake now m s = Inr (s', row) \<Longrightarrow> keeps_job n s s'"
    "claim_cron now t m c s = Inr (s', row) \<Longrightarrow> keeps_job n s s'"
  using j held
  by (auto simp: statement_defs operator_held_def claimable_def due_job_def
      intro!: keeps_after [where j = j] elim!: keeps_update_job [where j = j])

lemma keeps_claim_job:
  assumes "get_job s n = Some j" "operator_held j"
  shows "keeps_job n s (fst (claim_job cfg now r s))"
proof -
  note k = keeps_statements [OF assms]
  have "keeps_job n s (after_statement s' (retireFinishedTaskWake m s'))" if "claim_wake now m s = Inr (s', row)" for m s' row
  proof -
    have c: "keeps_job n s s'" by (rule k(5) [OF that])
    then have "get_job s' n = Some j" using assms(1) by (simp add: keeps_job_def)
    then show ?thesis using keeps_trans [OF c] keeps_statements(3) assms(2) by blast
  qed
  then show ?thesis
    by (auto simp: claim_job_def Let_def split: option.splits sum.splits prod.splits intro: k)
qed

text \<open>The store of a scheduler, seen from a held job.\<close>

definition kept :: "nat \<Rightarrow> wake_job \<Rightarrow> scheduler \<Rightarrow> bool" where
  "kept n j k \<longleftrightarrow> get_job (k_store k) n = Some j"

lemma kept_keeps: "kept n j k \<Longrightarrow> keeps_job n (k_store k) (k_store k') \<Longrightarrow> kept n j k'"
  by (simp add: kept_def keeps_job_def)

lemma kept_store: "k_store k' = k_store k \<Longrightarrow> kept n j k \<Longrightarrow> kept n j k'"
  by (simp add: kept_def)

lemma kept_revert: "operator_held j \<Longrightarrow> kept n j k \<Longrightarrow> kept n j (revertFailedFire m g k)"
  using keeps_statements(4) [of "k_store k" n j]
  by (auto simp: kept_def keeps_job_def revertFailedFire_def Let_def split: option.splits prod.splits)

lemma kept_fire: "operator_held j \<Longrightarrow> kept n j k \<Longrightarrow> kept n j (fst (fireJob cfg now r k))"
proof -
  assume h: "operator_held j" "kept n j k"
  then have c: "keeps_job n (k_store k) (fst (claim_job cfg now r (k_store k)))" by (intro keeps_claim_job) (simp_all add: kept_def)
  with h have "kept n j (k1\<lparr>k_store := fst (claim_job cfg now r (k_store k))\<rparr>)" for k1
    by (simp add: kept_def keeps_job_def)
  then show ?thesis
    using h by (auto simp: fireJob_def dispatch_job_def Let_def kept_def
        split: prod.splits sum.splits option.splits intro!: kept_revert [unfolded kept_def])
qed

lemma kept_fire_rows: "operator_held j \<Longrightarrow> kept n j k \<Longrightarrow> kept n j (fire_rows cfg now rs k)"
proof (induction rs arbitrary: k)
  case (Cons r rs)
  then show ?case using kept_fire [of j n k cfg now r] by (auto split: prod.splits fire_outcome.splits)
qed simp

lemma keeps_task_where [simp]: "keeps_job n s (fst (update_task_where i g f s))"
  by (simp add: update_task_where_def keeps_job_def split: option.splits)

lemma kept_settle: "operator_held j \<Longrightarrow> kept n j k \<Longrightarrow> kept n j (settle_publish now e ok k)"
proof -
  assume h: "operator_held j" "kept n j k"
  have "kept n j (k\<lparr>k_store := closeDelegationRetryTask now i (k_store k)\<rparr>)" for i
    using h(2) keeps_task_where [of n "k_store k" i] unfolding closeDelegationRetryTask_def kept_def keeps_job_def by simp
  then show ?thesis
    using h kept_revert by (auto simp: settle_publish_def Let_def kept_def split: option.splits)
qed

lemma keeps_create: "keeps_job n s (fst (createTask now i p s))" if "c_wakeAt p = None"
  using that by (simp add: createTask_def Let_def keeps_job_def get_job_def publish_event_def split: option.splits)

lemma kept_flag: "kept n j k \<Longrightarrow> kept n j (flagNeedsDisposition ci i t k)"
proof -
  assume h: "kept n j k"
  have 1: "keeps_job n (k_store k) (fst (tag_undisposed (ci_now ci) i (k_store k)))"
    unfolding tag_undisposed_def by simp
  have 2: "keeps_job n s (fst (createTask (ci_now ci) x (review_task i t) s))" for s x
    by (rule keeps_create) (simp add: review_task_def)
  show ?thesis
    using h 1 2 by (auto simp: flagNeedsDisposition_def Let_def kept_def keeps_job_def split: prod.splits)
qed

lemma kept_hold: "kept n j k \<Longrightarrow> kept n j (fst (holdForDisposition cfg ci m mt r k))"
proof -
  assume h: "kept n j k"
  have t: "kept n j (k\<lparr>k_store := touch_task now i (k_store k)\<rparr>)" for now i
    using h keeps_task_where [of n "k_store k" i] unfolding touch_task_def kept_def keeps_job_def by simp
  then have "kept n j (hold_turn ci m mt i r u nts (k\<lparr>k_store := touch_task now i (k_store k)\<rparr>))" for u nts now i
    by (simp add: hold_turn_def Let_def emit_def kept_def)
  then show ?thesis
    using h t kept_flag by (auto simp: holdForDisposition_def Let_def split: option.splits)
qed

lemma kept_settle_turn: "kept n j k \<Longrightarrow> kept n j (settleDispositionTurn cfg ci m mt k)"
  by (auto simp: settleDispositionTurn_def split: option.splits intro: kept_flag)

lemma kept_finish: "operator_held j \<Longrightarrow> kept n j k \<Longrightarrow> kept n j (finish_run cfg ci m b e e' r k)"
proof -
  assume h: "operator_held j" "kept n j k"
  have "keeps_job n (k_store k) (fst (completeJobRun env now m b e r (k_store k)))" for env now
    using h by (auto simp: completeJobRun_def kept_def operator_held_def not_held_def succeeded_job_def failed_job_def Let_def
        split: option.splits sum.splits intro!: keeps_written [where j = j])
  then show ?thesis
    using h(2) unfolding finish_run_def Let_def
    by (auto simp: kept_def keeps_job_def split: prod.splits sum.splits bool.splits option.splits) (metis fst_conv)+
qed

text \<open>A drift pause writes the status the job already has.\<close>

lemma keeps_drift_pause:
  assumes "get_job s n = Some j" "operator_held j"
  shows "keeps_job n s (fst (pauseJobForDrift now m s))"
proof -
  have l: "get_job (update_linked m g f s) = get_job s" for g f
    by (simp add: update_linked_def split: option.splits)
  have "get_job s' n = Some j"
    if "update_job m not_ended (\<lambda>j. j\<lparr>j_status := JPaused\<rparr>) (update_linked m g f s) = Inr (s', row)" for g f s' row
    using update_job_effect [OF that, of n] assms by (auto simp: l operator_held_def not_ended_def)
  then show ?thesis
    using assms(1) by (auto simp: pauseJobForDrift_def setPaused_def keeps_job_def map_sum_def split: sum.splits prod.splits)
qed

lemma kept_drift: "operator_held j \<Longrightarrow> kept n j k \<Longrightarrow> kept n j (fst (drift_check cfg ci m k))"
proof -
  assume h: "operator_held j" "kept n j k"
  then have "get_job (fst (pauseJobForDrift now m (k_store k))) n = Some j" for now
    using keeps_drift_pause [of "k_store k" n j now m] by (simp add: kept_def keeps_job_def)
  with h show ?thesis by (auto simp: drift_check_def Let_def kept_def split: option.splits)
qed

lemma kept_handle: "operator_held j \<Longrightarrow> kept n j k \<Longrightarrow> kept n j (handleCompletion cfg ci e b x r k)"
proof -
  assume h: "operator_held j" "kept n j k"
  show ?thesis
  proof (cases "map_of (k_pendingJobs k) e")
    case (Some m)
    obtain k1 p where k1: "(if b then drift_check cfg ci m (forget_event e k) else (forget_event e k, False)) = (k1, p)"
      by (cases "if b then drift_check cfg ci m (forget_event e k) else (forget_event e k, False)")
    have f: "kept n j (forget_event e k)" using h(2) by (simp add: kept_def)
    then have 1: "kept n j k1" using k1 kept_drift [OF h(1), of n "forget_event e k" cfg ci m] by (auto split: if_splits)
    then have hold: "holdForDisposition cfg ci m mt r k1 = (k2, q) \<Longrightarrow> kept n j k2" for mt k2 q
      using kept_hold [of n j k1 cfg ci m mt r] by simp
    show ?thesis
      using 1 unfolding handleCompletion_def Some option.case Let_def k1 prod.case
      by (auto split: option.splits prod.splits bool.splits intro!: kept_finish [OF h(1)] kept_settle_turn dest: hold)
  qed (use h in \<open>simp add: handleCompletion_def\<close>)
qed

lemma kept_recover: "operator_held j \<Longrightarrow> kept n j k \<Longrightarrow> kept n j (recover_one cfg now b k row)"
proof -
  assume h: "operator_held j" "kept n j k"
  have "keeps_job n (k_store k) (fst (recoverStuckJob env now m t (k_store k)))" for env m t
    using h by (auto simp: recoverStuckJob_def kept_def operator_held_def recovered_job_def Let_def
        split: option.splits sum.splits intro!: keeps_written [where j = j])
  then have r: "recoverStuckJob env now m t (k_store k) = (s1, z) \<Longrightarrow> get_job s1 n = Some j" for env m t s1 z
    using h(2) by (metis fst_conv keeps_job_def kept_def)
  show ?thesis
    by (auto simp: recover_one_def Let_def kept_def split: prod.splits sum.splits option.splits dest: r)
qed

lemma kept_watchdog: "operator_held j \<Longrightarrow> kept n j k \<Longrightarrow> kept n j (recoverStuckJobs cfg now b k)"
proof -
  assume h: "operator_held j"
  have "kept n j k \<Longrightarrow> kept n j (foldl (recover_one cfg now b) k rows)" for rows
    by (induction rows arbitrary: k) (auto intro: kept_recover [OF h])
  then show "kept n j k \<Longrightarrow> ?thesis" by (simp add: recoverStuckJobs_def)
qed

fun own_step :: "sched_request \<Rightarrow> bool" where
  "own_step (KCall _) = False"
| "own_step _ = True"

lemma kept_simps:
  "kept n j (k\<lparr>k_failureMessages := x\<rparr>) = kept n j k" "kept n j (k\<lparr>k_bursts := b\<rparr>) = kept n j k"
  "kept n j (release_slot e k) = kept n j k"
  by (simp_all add: kept_def)

lemma kept_sched_step: "operator_held j \<Longrightarrow> own_step r \<Longrightarrow> kept n j k \<Longrightarrow> kept n j (sched_step cfg k r)"
  by (cases r) (auto simp: kept_simps pollDueJobs_def Let_def pruneStaleBurstCounts_def kept_fire_rows kept_fire kept_settle
      on_agent_error_def on_agent_response_def kept_watchdog kept_handle)


end
