(* ===== verification/SchedulerProps.thy ===== *)
theory SchedulerProps
  imports SchedulerProofs
begin

text \<open>
  What the scheduler does with one job: a finished task is not woken, a backlog wake runs under the
  ladder, a job that keeps failing is suspended, declarations and rows agree after start-up; and a run
  that was paused and resumed, whose old answer ends the new run.
\<close>

section \<open>A finished task is not woken\<close>

lemma claim_wake_refused:
  assumes "get_job s n = Some j" "finished_wake s j"
  shows "claim_wake now n s = Inr (s, None)"
  using assms by (simp add: claim_wake_def update_job_def)

lemma retire_effect:
  assumes "get_job s n = Some j" "finished_wake s j" "claimable j" "j_cron j = None" "schedule_ok j"
  shows "get_job (after_statement s (retireFinishedTaskWake n s)) n = Some (j\<lparr>j_status := JCancelled, j_deferredAt := None\<rparr>)"
proof -
  have "violation s (j\<lparr>j_status := JCancelled, j_deferredAt := None\<rparr>) = None"
    using assms(4,5) by (simp add: violation_def schedule_ok_def index_clash_def active_job_def declared_twice_def)
  then show ?thesis
    using assms get_job_Some [OF assms(1)]
    by (simp add: retireFinishedTaskWake_def update_job_def after_statement_def get_job_update_jobs)
qed


section \<open>Wakes and the ladder\<close>

lemma get_job_unique:
  assumes "jobs_ok s" "j \<in> set (s_jobs s)"
  shows "get_job s (j_id j) = Some j"
proof (cases "get_job s (j_id j)")
  case None
  then show ?thesis using assms(2) by (auto simp: get_job_def find_None_iff)
next
  case (Some k)
  with get_job_Some [OF Some] assms(2) show ?thesis using jobs_ok_unique(2) [OF assms(1), of j k] by simp
qed

definition wake_payload :: "string \<Rightarrow> bool \<Rightarrow> jobj" where
  "wake_payload i derived =
     [(''type'', JStr ''task-wake''), (''task_id'', JStr i), (''standing'', JObj [(''derived'', JBool derived)])]"

lemma find_fresh:
  assumes "\<forall>y\<in>set xs. \<not> P y" "P x"
  shows "find P (xs @ [x]) = Some x"
  using assms by (induction xs) auto

lemma enqueued_row:
  assumes ok: "store_ok s" and e: "enqueueTaskWake i a w c og derived now s = (s', Inr n)"
  obtains j where "get_job s' n = Some j" "j_payload j = wake_payload i derived" "j_originator j = og"
    "j_status j = JPending" "j_taskId j = Some i"
proof (cases "newest_job (\<lambda>j. j_taskId j = Some i \<and> j_taskWake j \<and> terminal_job j) s")
  case None
  then have g: "s' = update_row i (\<lambda>t. t\<lparr>t_updatedAt := toISOString now\<rparr>)
      (s\<lparr>s_jobs := s_jobs s @ [one_shot i (wake_payload i derived) a w c og n], s_nextJob := s_nextJob s + 1\<rparr>)" "n = s_nextJob s"
    using e by (auto simp: enqueueTaskWake_def insert_job_def wake_payload_def Let_def split: if_splits sum.splits)
  have "\<forall>j\<in>set (s_jobs s). j_id j \<noteq> n" using ok g(2) by (fastforce simp: store_ok_def jobs_ok_def)
  then have "get_job s' n = Some (one_shot i (wake_payload i derived) a w c og n)"
    unfolding g(1) get_job_frames by (simp add: get_job_def find_fresh one_shot_def)
  then show thesis by (rule that) (simp_all add: one_shot_def)
next
  case (Some old)
  have old: "old \<in> set (s_jobs s)" "j_taskId old = Some i" using newest_job_Some [OF Some] by auto
  define f where "f = (\<lambda>j. j\<lparr>j_status := JPending, j_runAt := Some w, j_nextRunAt := Some w, j_runStartedAt := None,
      j_payload := wake_payload i derived, j_failures := (if keeps_failures j then j_failures j else 0),
      j_lastError := (if keeps_failures j then j_lastError j else None),
      j_lastOutcome := (if keeps_failures j \<or> j_status j = JCompleted then j_lastOutcome j else None),
      j_agentId := a, j_createdBy := c, j_originator := og\<rparr>)"
  have f: "s' = update_row i (\<lambda>t. t\<lparr>t_updatedAt := toISOString now\<rparr>) (update_jobs (\<lambda>j. j_id j = j_id old) f s)" "n = j_id old"
    using e unfolding enqueueTaskWake_def Let_def Some arm_job_def wake_payload_def [symmetric] f_def [symmetric]
    by (auto split: if_splits)
  have fs: "j_id (f j) = j_id j" "j_payload (f old) = wake_payload i derived" "j_originator (f old) = og"
    "j_status (f old) = JPending" "j_taskId (f old) = j_taskId old" for j
    by (simp_all add: f_def)
  have "get_job s (j_id old) = Some old" using ok old(1) get_job_unique by (auto simp: store_ok_def)
  then have "get_job s' n = Some (f old)" unfolding f get_job_frames by (simp add: get_job_update_jobs fs)
  then show thesis by (rule that) (simp_all add: fs old(2))
qed

lemma fired_wake_metadata:
  assumes "j_payload j = wake_payload i derived"
  obtains md where "fired_metadata \<lparr>jr_job = j, jr_task = t\<rparr> = Some md" "jfield md ''wakeContext'' = makeWakeContext derived"
    "jfield md ''originator'' = (case j_originator j of None \<Rightarrow> JUndef | Some og \<Rightarrow> originator_json og)"
  using assms that
  by (cases t; cases "j_originator j")
    (auto simp: fired_metadata_def Let_def task_standing_def wake_payload_def readDelegationRetryWake_def jfield_def)

text \<open>
  C23. From the backlog to the gate. Whatever wake \<open>enqueueTaskWake\<close> queues, new or revived, the task event the scheduler
  builds from its row carries the wake marker, so the standing an execution gate reads is privileged
  only when the task's stored lineage is and the live score clears the threshold of a wake of that
  kind, derived or not. A wake at a time the agent chose (the default payload) has no marker, and
  its metadata reaches the gate as it is.
\<close>

theorem backlog_wake_runs_under_the_ladder:
  assumes "store_ok s" "enqueueTaskWake i a w c og derived now s = (s', Inr n)"
  shows "(\<exists>j. get_job s' n = Some j \<and>
      (privileged (standing_role (computeEffectiveTaskMetadata (fired_metadata (read_row s' j)) score ladder))
        \<longrightarrow> (\<exists>g. og = Some g \<and> privileged (role_text (o_systemRole g)))
          \<and> (\<exists>q. score = Some q \<and> num_le (if derived then bl_derivedChild ladder else bl_sameTask ladder) q)))
    \<and> (\<forall>r. j_payload (jr_job r) = default_wake
          \<longrightarrow> computeEffectiveTaskMetadata (fired_metadata r) score ladder = fired_metadata r)"
proof -
  obtain j where j: "get_job s' n = Some j" "j_payload j = wake_payload i derived" "j_originator j = og"
    by (rule enqueued_row [OF assms])
  obtain md where md: "fired_metadata (read_row s' j) = Some md" "jfield md ''wakeContext'' = makeWakeContext derived"
    "jfield md ''originator'' = (case j_originator j of None \<Rightarrow> JUndef | Some og \<Rightarrow> originator_json og)"
    unfolding read_row_def by (rule fired_wake_metadata [OF j(2)])
  have w: "is_wake md" unfolding is_wake_def md(2) by (simp add: makeWakeContext_def)
  have d: "(jget (jfield md ''wakeContext'') ''derived'' \<noteq> JBool False) = derived"
    unfolding md(2) by (simp add: makeWakeContext_def jfield_def)
  have role: "jget (originator_json g) ''systemRole'' = role_text (o_systemRole g)" for g
    by (simp add: originator_json_def jfield_def)
  have "privileged (standing_role (computeEffectiveTaskMetadata (Some md) score ladder))
      \<longrightarrow> (\<exists>g. og = Some g \<and> privileged (role_text (o_systemRole g)))
        \<and> (\<exists>q. score = Some q \<and> num_le (if derived then bl_derivedChild ladder else bl_sameTask ladder) q)"
    using w md(3) j(3) role
    unfolding computeEffective_eq d
    by (cases og) (auto simp: standing_role_def privileged_def jfield_update split: if_splits)
  moreover have "computeEffectiveTaskMetadata (fired_metadata r) score ladder = fired_metadata r"
    if "j_payload (jr_job r) = default_wake" for r
  proof -
    have "jfield md ''wakeContext'' = JUndef" if "fired_metadata r = Some md" for md
      using that \<open>j_payload (jr_job r) = default_wake\<close>
      by (auto simp: fired_metadata_def Let_def task_standing_def default_wake_def readDelegationRetryWake_def jfield_def
          split: if_splits option.splits)
    then show ?thesis
      by (cases "fired_metadata r") (simp_all add: computeEffective_eq is_wake_def computeEffectiveTaskMetadata_def)
  qed
  ultimately show ?thesis using j(1) md(1) by auto
qed

section \<open>A job that keeps failing\<close>

lemma given_simps [simp]: "given (Some x) y = x" "given None y = y"
  by (simp_all add: given_def)

text \<open>One run that fails: fired from a fresh read, an error event, an error response, the settled publication.\<close>

record failing_run =
  fr_now :: ms
  fr_input :: completion_input
  fr_message :: string
  fr_content :: string
  fr_failed :: "(string \<times> string) list"
  fr_omitted :: "rat option"

definition fr_report :: "failing_run \<Rightarrow> run_report" where
  "fr_report f = \<lparr>rr_summary = None, rr_failedSkills = fr_failed f, rr_omitted = fr_omitted f\<rparr>"

text \<open>A one-shot job that can run: nothing finished it, nothing else of its task is active, no later time is set.\<close>

definition runnable :: "sched_config \<Rightarrow> nat \<Rightarrow> scheduler \<Rightarrow> wake_job \<Rightarrow> bool" where
  "runnable cfg n k j \<longleftrightarrow> get_job (k_store k) n = Some j \<and> claimable j \<and> j_cron j = None \<and> j_runAt j \<noteq> None
     \<and> j_deferredAt j = None \<and> \<not> finished_wake (k_store k) j \<and> f_owns cfg (j_agentId j)
     \<and> \<not> index_clash (k_store k) (j\<lparr>j_status := JRunning\<rparr>) \<and> k_inFlight k < f_maxInFlight cfg"

lemma one_shot_violation:
  assumes "j_cron j = None" "j_runAt j \<noteq> None" "\<not> index_clash s j"
  shows "violation s j = None"
  using assms by (simp add: violation_def schedule_ok_def declared_twice_def)

lemma index_clash_jobs:
  assumes "\<And>x. j_id (f x) = j_id x" "j_id i = n" "j_taskId i = j_taskId j" "j_id j = n" "active_job i \<longrightarrow> active_job j"
  shows "index_clash (update_jobs (\<lambda>x. j_id x = n) f s) i \<Longrightarrow> index_clash s j"
  using assms by (auto simp: index_clash_def update_jobs_def list_ex_iff split: if_splits)

lemma after_write:
  assumes "get_job s n = Some j" "guard j" "\<And>x. j_id (f x) = j_id x" "violation s (f j) = None"
  shows "update_job n guard f s = Inr (update_jobs (\<lambda>x. j_id x = n) f s, Some (f j))"
    "get_job (update_jobs (\<lambda>x. j_id x = n) f s) n = Some (f j)"
  using assms get_job_Some [OF assms(1)] by (simp_all add: update_job_def get_job_update_jobs)

text \<open>A claimed run and its store.\<close>

lemma runnable_fires:
  assumes "runnable cfg n k j" "s1 = update_jobs (\<lambda>x. j_id x = n) (start_run now) (k_store k)"
  shows "fireJob cfg now (read_row (k_store k) j) k
      = (dispatch_job cfg now (read_row (k_store k) j) (k\<lparr>k_store := s1, k_inFlight := k_inFlight k + 1\<rparr>), Dispatched)"
    "get_job s1 n = Some (start_run now j)"
proof -
  have j: "get_job (k_store k) n = Some j" "j_id j = n" using assms(1) get_job_Some by (auto simp: runnable_def)
  have "\<not> index_clash (k_store k) (start_run now j)"
    using assms(1) by (auto simp: runnable_def index_clash_def start_run_def active_job_def)
  then have v: "violation (k_store k) (start_run now j) = None"
    using assms(1) by (intro one_shot_violation) (auto simp: runnable_def start_run_def)
  have c: "claim_wake now n (k_store k) = Inr (s1, Some (start_run now j))"
    unfolding claim_wake_def assms(2)
    by (rule after_write(1)) (use assms(1) j v in \<open>auto simp: runnable_def start_run_def\<close>)
  show "get_job s1 n = Some (start_run now j)"
    using j by (simp add: assms(2) get_job_update_jobs start_run_def)
  show "fireJob cfg now (read_row (k_store k) j) k
      = (dispatch_job cfg now (read_row (k_store k) j) (k\<lparr>k_store := s1, k_inFlight := k_inFlight k + 1\<rparr>), Dispatched)"
    using assms(1) c by (simp add: fireJob_def claim_job_def Let_def read_row_def j(2) runnable_def job_cron_def)
qed


definition failed_once :: "failing_run \<Rightarrow> wake_job \<Rightarrow> wake_job" where
  "failed_once f j =
     failed_job (ci_now (fr_input f)) (j_failures j + 1) (Some (fr_message f)) (fr_report f) (start_run (fr_now f) j)"

lemma failed_once_simps:
  assumes "j_deferredAt j = None"
  shows "j_id (failed_once f j) = j_id j" "j_taskId (failed_once f j) = j_taskId j" "j_cron (failed_once f j) = j_cron j"
    "j_runAt (failed_once f j) = j_runAt j" "j_deferredAt (failed_once f j) = None" "j_agentId (failed_once f j) = j_agentId j"
    "j_payload (failed_once f j) = j_payload j" "j_failures (failed_once f j) = j_failures j + 1"
    "j_lastError (failed_once f j) = Some (fr_message f)"
    "j_status (failed_once f j) = (if SUSPEND_THRESHOLD \<le> j_failures j + 1 then JSuspended else JFailed)"
  using assms by (simp_all add: failed_once_def failed_job_def start_run_def Let_def)

lemma failing_complete:
  assumes "get_job s n = Some (start_run (fr_now f) j)" "j_cron j = None" "j_runAt j \<noteq> None" "j_deferredAt j = None"
  shows "completeJobRun env (ci_now (fr_input f)) n False (Some (fr_message f)) (fr_report f) s
      = (update_jobs (\<lambda>x. j_id x = n)
           (failed_job (ci_now (fr_input f)) (j_failures j + 1) (Some (fr_message f)) (fr_report f)) s,
         Inr (SUSPEND_THRESHOLD \<le> j_failures j + 1))"
    (is "_ = (update_jobs _ ?g s, _)")
proof -
  have g: "?g (start_run (fr_now f) j) = failed_once f j" by (simp add: failed_once_def)
  note m = failed_once_simps [OF assms(4), of f]
  have "violation s (failed_once f j) = None"
    by (rule one_shot_violation) (use assms(2,3) in \<open>auto simp: m index_clash_def active_job_def\<close>)
  with assms(1) show ?thesis
    by (simp add: completeJobRun_def Let_def written_def update_job_def not_held_def start_run_def [of _ j] flip: g)
      (simp add: failed_job_def Let_def assms(4))
qed


text \<open>What the run leaves: the row, the slot given back, and the events.\<close>

definition fired_run :: "sched_config \<Rightarrow> ms \<Rightarrow> wake_job \<Rightarrow> scheduler \<Rightarrow> scheduler" where
  "fired_run cfg now j k =
     dispatch_job cfg now (read_row (k_store k) j)
       (k\<lparr>k_store := update_jobs (\<lambda>x. j_id x = j_id j) (start_run now) (k_store k), k_inFlight := k_inFlight k + 1\<rparr>)"

lemma fired_run_facts:
  "k_store (fired_run cfg now j k) = update_jobs (\<lambda>x. j_id x = j_id j) (start_run now) (k_store k)"
  "map_of (k_pendingJobs (fired_run cfg now j k)) (k_nextEvent k) = Some (j_id j)"
  "\<exists>m. map_of (k_runMeta (fired_run cfg now j k)) (k_nextEvent k) = Some m \<and> \<not> m_disposition m"
  "\<exists>fl. map_of (k_runs (fired_run cfg now j k)) (k_nextEvent k) = Some fl \<and> fl_held fl
     \<and> (fl_closes fl \<noteq> None \<longrightarrow> j_retry j)"
  "k_inFlight (fired_run cfg now j k) = k_inFlight k + 1"
proof -
  have "readDelegationRetryWake (j_payload j) \<noteq> None \<Longrightarrow> j_retry j"
    by (auto simp: readDelegationRetryWake_def j_retry_def split: jsval.splits)
  then show "\<exists>fl. map_of (k_runs (fired_run cfg now j k)) (k_nextEvent k) = Some fl \<and> fl_held fl
     \<and> (fl_closes fl \<noteq> None \<longrightarrow> j_retry j)"
    by (auto simp: fired_run_def dispatch_job_def Let_def read_row_def update_conv')
qed (auto simp: fired_run_def dispatch_job_def Let_def read_row_def update_conv')

lemma finish_suspends:
  assumes "completeJobRun (f_env cfg) (ci_now ci) n ok er r (k_store k) = (s, Inr b)" "get_job s n = Some j"
  shows "k_store (finish_run cfg ci n ok er er' r k) = s" "k_runs (finish_run cfg ci n ok er er' r k) = k_runs k"
    "k_inFlight (finish_run cfg ci n ok er er' r k) = k_inFlight k"
    "k_published (finish_run cfg ci n ok er er' r k) = k_published k
       @ (if b \<and> ci_busOk ci then [ScheduleSuspended n (given er' ''Unknown error'') (j_failures j),
             AgentTask (notice_task (k_nextEvent k) (JobNotices n) (SuspensionNotice n))] else [])"
  using assms by (auto simp: finish_run_def Let_def publish_notice_def emit_def split: bool.splits)

definition failing_end :: "sched_config \<Rightarrow> nat \<Rightarrow> nat \<Rightarrow> failing_run \<Rightarrow> scheduler \<Rightarrow> scheduler" where
  "failing_end cfg n e f k =
     on_agent_response cfg (fr_input f) e True (fr_content f) (fr_failed f) (fr_omitted f) (on_agent_error e (fr_message f) k)"

lemma failing_end_eq:
  assumes "map_of (k_pendingJobs k) e = Some n" "map_of (k_runMeta k) e = Some m" "\<not> m_disposition m"
  shows "failing_end cfg n e f k = finish_run cfg (fr_input f) n False (Some (fr_message f)) (Some (fr_message f)) (fr_report f)
      (forget_event e (on_agent_error e (fr_message f) k\<lparr>k_failureMessages := AList.delete e (AList.update e (fr_message f) (k_failureMessages k))\<rparr>))"
  using assms by (simp add: failing_end_def on_agent_response_def on_agent_error_def handleCompletion_def Let_def
      fr_report_def update_conv')


definition failing_round :: "sched_config \<Rightarrow> nat \<Rightarrow> scheduler \<Rightarrow> failing_run \<Rightarrow> scheduler" where
  "failing_round cfg n k f =
     (case get_job (k_store k) n of
        None \<Rightarrow> k
      | Some j \<Rightarrow>
          settle_publish (fr_now f) (k_nextEvent k) True
            (failing_end cfg n (k_nextEvent k) f (fst (fireJob cfg (fr_now f) (read_row (k_store k) j) k))))"

lemma settled:
  assumes "map_of (k_runs k) e = Some fl" "fl_held fl"
  shows "k_inFlight (settle_publish now e True k) = k_inFlight k - 1"
    "k_published (settle_publish now e True k) = k_published k"
    "s_jobs (k_store (settle_publish now e True k)) = s_jobs (k_store k)"
    "fl_closes fl = None \<Longrightarrow> k_store (settle_publish now e True k) = k_store k"
  using assms by (auto simp: settle_publish_def Let_def release_slot_def closeDelegationRetryTask_def update_task_where_def
      split: option.splits)

lemma failing_round_effect:
  assumes "runnable cfg n k j"
  shows "get_job (k_store (failing_round cfg n k f)) n = Some (failed_once f j)"
    "k_inFlight (failing_round cfg n k f) = k_inFlight k"
    "\<exists>task. k_published (failing_round cfg n k f) = k_published k @ [ScheduleFired (k_nextEvent k) n, AgentTask task]
       @ (if SUSPEND_THRESHOLD \<le> j_failures j + 1 \<and> ci_busOk (fr_input f)
          then [ScheduleSuspended n (fr_message f) (j_failures j + 1),
                AgentTask (notice_task (k_nextEvent k + 1) (JobNotices n) (SuspensionNotice n))] else [])"
    "\<exists>g. (\<forall>x. j_id (g x) = j_id x \<and> j_taskId (g x) = j_taskId x)
       \<and> s_jobs (k_store (failing_round cfg n k f)) = s_jobs (update_jobs (\<lambda>x. j_id x = n) g (k_store k))"
    "\<not> j_retry j \<Longrightarrow> s_tasks (k_store (failing_round cfg n k f)) = s_tasks (k_store k)"
proof -
  have j: "get_job (k_store k) n = Some j" "j_id j = n" using assms get_job_Some by (auto simp: runnable_def)
  let ?e = "k_nextEvent k"
  define k1 where "k1 = fired_run cfg (fr_now f) j k"
  have fire: "fst (fireJob cfg (fr_now f) (read_row (k_store k) j) k) = k1"
    using runnable_fires(1) [OF assms refl] by (simp add: k1_def fired_run_def j(2))
  obtain m where m: "map_of (k_runMeta k1) ?e = Some m" "\<not> m_disposition m"
    using fired_run_facts(3) [of cfg "fr_now f" j k] unfolding k1_def by blast
  obtain fl where fl: "map_of (k_runs k1) ?e = Some fl" "fl_held fl" "fl_closes fl \<noteq> None \<longrightarrow> j_retry j"
    using fired_run_facts(4) [of cfg "fr_now f" j k] unfolding k1_def by blast
  have s1: "k_store k1 = update_jobs (\<lambda>x. j_id x = n) (start_run (fr_now f)) (k_store k)"
    "map_of (k_pendingJobs k1) ?e = Some n" "k_inFlight k1 = k_inFlight k + 1"
    unfolding k1_def fired_run_facts j(2) by simp_all
  have g1: "get_job (k_store k1) n = Some (start_run (fr_now f) j)"
    unfolding s1(1) by (rule runnable_fires(2) [OF assms refl])
  obtain task where pub: "k_published k1 = k_published k @ [ScheduleFired ?e n, AgentTask task]" and ev: "k_nextEvent k1 = ?e + 1"
    unfolding k1_def fired_run_def dispatch_job_def by (auto simp: Let_def read_row_def j(2))
  define k2 where "k2 = forget_event ?e (on_agent_error ?e (fr_message f) k1
      \<lparr>k_failureMessages := AList.delete ?e (AList.update ?e (fr_message f) (k_failureMessages k1))\<rparr>)"
  have k2: "k_store k2 = k_store k1" "k_runs k2 = k_runs k1" "k_inFlight k2 = k_inFlight k1" "k_published k2 = k_published k1"
    "k_nextEvent k2 = k_nextEvent k1"
    by (simp_all add: k2_def forget_event_def on_agent_error_def)
  have c: "completeJobRun (f_env cfg) (ci_now (fr_input f)) n False (Some (fr_message f)) (fr_report f) (k_store k2)
      = (update_jobs (\<lambda>x. j_id x = n)
           (failed_job (ci_now (fr_input f)) (j_failures j + 1) (Some (fr_message f)) (fr_report f)) (k_store k1),
         Inr (SUSPEND_THRESHOLD \<le> j_failures j + 1))"
    unfolding k2(1) by (rule failing_complete [OF g1]) (use assms in \<open>simp_all add: runnable_def\<close>)
  have d: "j_deferredAt j = None" using assms by (simp add: runnable_def)
  have g2: "get_job (update_jobs (\<lambda>x. j_id x = n)
      (failed_job (ci_now (fr_input f)) (j_failures j + 1) (Some (fr_message f)) (fr_report f)) (k_store k1)) n = Some (failed_once f j)"
    using g1 j(2) by (simp add: get_job_update_jobs failed_job_def Let_def failed_once_def start_run_def)
  define k3 where "k3 = failing_end cfg n ?e f k1"
  have k3: "k3 = finish_run cfg (fr_input f) n False (Some (fr_message f)) (Some (fr_message f)) (fr_report f) k2"
    unfolding k3_def k2_def by (rule failing_end_eq [OF s1(2) m])
  note fin = finish_suspends [OF c g2, of "Some (fr_message f)", folded k3]
  have fl3: "map_of (k_runs k3) ?e = Some fl" by (simp add: fin k2 fl)
  note set = settled [OF fl3 fl(2), of "fr_now f"]
  have r: "failing_round cfg n k f = settle_publish (fr_now f) ?e True k3"
    by (simp add: failing_round_def j(1) fire k3_def)
  have jobs: "s_jobs (k_store (failing_round cfg n k f)) = s_jobs (update_jobs (\<lambda>x. j_id x = n)
      (failed_job (ci_now (fr_input f)) (j_failures j + 1) (Some (fr_message f)) (fr_report f)) (k_store k1))"
    by (simp add: r set fin)
  show "get_job (k_store (failing_round cfg n k f)) n = Some (failed_once f j)"
    using g2 jobs by (simp add: get_job_def)
  show "k_inFlight (failing_round cfg n k f) = k_inFlight k" by (simp add: r set fin k2 s1)
  show "\<exists>task. k_published (failing_round cfg n k f) = k_published k @ [ScheduleFired ?e n, AgentTask task]
       @ (if SUSPEND_THRESHOLD \<le> j_failures j + 1 \<and> ci_busOk (fr_input f)
          then [ScheduleSuspended n (fr_message f) (j_failures j + 1),
                AgentTask (notice_task (?e + 1) (JobNotices n) (SuspensionNotice n))] else [])"
    by (simp add: r set fin k2 pub ev failed_once_simps [OF d])
  show "\<exists>g. (\<forall>x. j_id (g x) = j_id x \<and> j_taskId (g x) = j_taskId x)
       \<and> s_jobs (k_store (failing_round cfg n k f)) = s_jobs (update_jobs (\<lambda>x. j_id x = n) g (k_store k))"
    by (rule exI [of _ "\<lambda>x. failed_job (ci_now (fr_input f)) (j_failures j + 1) (Some (fr_message f)) (fr_report f)
          (start_run (fr_now f) x)"]) (simp add: jobs s1 update_jobs_def failed_job_def Let_def start_run_def)
  show "\<not> j_retry j \<Longrightarrow> s_tasks (k_store (failing_round cfg n k f)) = s_tasks (k_store k)"
    using fl(3) by (auto simp: r set(4) fin s1 update_jobs_def)
qed


lemma round_runnable:
  assumes r: "runnable cfg n k j" and f: "j_failures j + 1 < SUSPEND_THRESHOLD"
  shows "runnable cfg n (failing_round cfg n k f) (failed_once f j)"
proof -
  let ?k = "failing_round cfg n k f"
  note e = failing_round_effect [OF r, of f]
  have d: "j_deferredAt j = None" and j: "j_id j = n" using r get_job_Some by (auto simp: runnable_def)
  note m = failed_once_simps [OF d, of f]
  obtain g where g: "\<forall>x. j_id (g x) = j_id x \<and> j_taskId (g x) = j_taskId x"
    "s_jobs (k_store ?k) = s_jobs (update_jobs (\<lambda>x. j_id x = n) g (k_store k))"
    using e(4) by blast
  have clash: "index_clash (k_store ?k) i = index_clash (update_jobs (\<lambda>x. j_id x = n) g (k_store k)) i" for i
    by (simp add: index_clash_def g(2))
  have "\<not> index_clash (k_store ?k) (failed_once f j\<lparr>j_status := JRunning\<rparr>)"
    unfolding clash
  proof
    assume "index_clash (update_jobs (\<lambda>x. j_id x = n) g (k_store k)) (failed_once f j\<lparr>j_status := JRunning\<rparr>)"
    then have "index_clash (k_store k) (j\<lparr>j_status := JRunning\<rparr>)"
      by (rule index_clash_jobs [rotated 5]) (simp_all add: g(1) m j active_job_def)
    then show False using r by (simp add: runnable_def)
  qed
  moreover have "\<not> j_retry j \<Longrightarrow> getTask (k_store ?k) = getTask (k_store k)"
    using e(5) by (simp add: getTask_def fun_eq_iff)
  then have "\<not> finished_wake (k_store ?k) (failed_once f j)"
    using r by (auto simp: runnable_def finished_wake_def task_finished_def m j_taskWake_def j_retry_def)
  ultimately show ?thesis
    using r f e(1,2) by (simp add: runnable_def m claimable_def)
qed

lemma rounds_runnable:
  "runnable cfg n k j \<Longrightarrow> j_failures j + length fs < SUSPEND_THRESHOLD
    \<Longrightarrow> \<exists>i. runnable cfg n (foldl (failing_round cfg n) k fs) i \<and> j_failures i = j_failures j + length fs"
proof (induction fs arbitrary: k j)
  case (Cons f fs)
  have d: "j_deferredAt j = None" using Cons.prems(1) by (simp add: runnable_def)
  have "runnable cfg n (failing_round cfg n k f) (failed_once f j)" using Cons.prems by (intro round_runnable) simp_all
  from Cons.IH [OF this] Cons.prems(2) show ?case by (simp add: failed_once_simps [OF d])
qed auto

lemma not_claimed:
  assumes "get_job (k_store k) n = Some j" "\<not> claimable j" "j_id (jr_job r) = n"
  shows "snd (fireJob cfg now r k) \<noteq> Dispatched"
proof -
  have "claim_wake now n (k_store k) = Inr (k_store k, None)" "claim_cron now t n c (k_store k) = Inr (k_store k, None)" for t c
    using assms(1,2) by (simp_all add: claim_wake_def claim_cron_def update_job_def due_job_def)
  then show ?thesis by (auto simp: fireJob_def claim_job_def Let_def assms(3) split: option.splits)
qed


end
