(* ===== verification/JobProps.thy ===== *)
theory JobProps
  imports SchedulerProps
begin

text \<open>
  What the job registry promises: a wake time set during a run is kept whatever ends the run; after start-up
  the rows of the system and the declarations agree; and two places where it does not do what is
  said of it: an expression changed in another zone, and a run that ends another.
\<close>

section \<open>Deferred wakes\<close>

text \<open>The row is pending at the deferred time, and the deferral is used up.\<close>

definition armed_at :: "ms \<Rightarrow> wake_job option \<Rightarrow> bool" where
  "armed_at w row \<longleftrightarrow> (\<exists>j. row = Some j \<and> j_status j = JPending \<and> j_runAt j = Some w \<and> j_nextRunAt j = Some w
     \<and> j_deferredAt j = None)"

definition suspended_until_resumed :: "ms \<Rightarrow> wake_job option \<Rightarrow> bool" where
  "suspended_until_resumed w row \<longleftrightarrow> (\<exists>j. row = Some j \<and> j_status j = JSuspended \<and> j_deferredAt j = Some w)"

lemma running_violation:
  assumes "store_ok s" "get_job s n = Some j" "j_status j = JRunning" "j_id i = j_id j" "j_taskId i = j_taskId j"
    "j_cron i = None" "j_runAt i \<noteq> None"
  shows "violation s i = None"
proof (rule one_shot_violation)
  have j: "j \<in> set (s_jobs s)" "active_job j" using assms(2,3) get_job_Some by (auto simp: active_job_def)
  have "k = j" if "k \<in> set (s_jobs s)" "active_job k" "j_taskId k = j_taskId j" "j_taskId j \<noteq> None" for k
    using jobs_ok_unique(1) [of s k j] j assms(1) that by (simp add: store_ok_def)
  then show "\<not> index_clash s i" using assms(4,5) by (auto simp: index_clash_def list_ex_iff)
qed (use assms in simp_all)

lemma fst_written [simp]: "fst (written s r c) = after_statement s r"
  by (simp add: written_def after_statement_def split: sum.splits prod.splits)

lemma row_after:
  assumes "get_job s n = Some j" "guard j" "\<And>x. j_id (f x) = j_id x" "violation s (f j) = None"
  shows "get_job (after_statement s (update_job n guard f s)) n = Some (f j)"
  using after_write [where guard = guard and f = f, OF assms] by (simp add: after_statement_def)

text \<open>
  C22. An agent that moves its own wake while the wake runs never loses the new time. When a one-shot job is
  running and a later time was stored beside it, then the run's success, its failure, the watchdog's
  recovery and the revert of a publication that failed all leave the row pending at that time; only a
  third failure suspends it, with the time kept, and a job that is resumed, from a suspension or a pause,
  runs at that time.
\<close>

theorem deferred_wake_is_kept:
  assumes ok: "store_ok s" and j: "get_job s n = Some j" "j_status j = JRunning" "j_cron j = None" "j_runAt j \<noteq> None"
    "j_deferredAt j = Some w"
  shows "armed_at w (get_job (fst (completeJobRun env now n True e r s)) n)
    \<and> (if SUSPEND_THRESHOLD \<le> j_failures j + 1
       then suspended_until_resumed w (get_job (fst (completeJobRun env now n False e r s)) n)
            \<and> suspended_until_resumed w (get_job (fst (recoverStuckJob env now n t s)) n)
       else armed_at w (get_job (fst (completeJobRun env now n False e r s)) n)
            \<and> armed_at w (get_job (fst (recoverStuckJob env now n t s)) n))
    \<and> armed_at w (get_job (after_statement s (revert_claim n (j_runStartedAt j) s)) n)
    \<and> (\<forall>s1 s2 i. get_job s1 n = Some i \<and> j_cron i = None \<and> j_deferredAt i = Some w \<and> unsuspendJob env now n s1 = (s2, Inr ())
         \<longrightarrow> armed_at w (get_job s2 n))"
proof (intro conjI)
  note v = running_violation [OF ok j(1,2)]
  have c: "job_cron j = None" using j(3) by (simp add: job_cron_def)
  show "armed_at w (get_job (fst (completeJobRun env now n True e r s)) n)"
    using j v [of "succeeded_job now None r j"] row_after [OF j(1), of not_held "succeeded_job now None r"]
    by (simp add: completeJobRun_def c not_held_def succeeded_job_def armed_at_def)
  let ?f = "failed_job now (j_failures j + 1) e r"
  have "violation s (?f j) = None" by (rule v) (use j in \<open>simp_all add: failed_job_def Let_def\<close>)
  then have f: "get_job (fst (completeJobRun env now n False e r s)) n = Some (?f j)"
    using j row_after [OF j(1), of not_held ?f] by (simp add: completeJobRun_def not_held_def failed_job_def Let_def)
  let ?m = "e_timedOut env ((t + 30) div 60)"
  let ?g = "recovered_job now (j_failures j + 1) ?m"
  have "violation s (?g j) = None" by (rule v) (use j in \<open>simp_all add: recovered_job_def Let_def\<close>)
  then have g: "get_job (fst (recoverStuckJob env now n t s)) n = Some (?g j)"
    using j row_after [OF j(1), of "\<lambda>j. j_status j = JRunning" ?g]
    by (simp add: recoverStuckJob_def c recovered_job_def Let_def)
  show "if SUSPEND_THRESHOLD \<le> j_failures j + 1
       then suspended_until_resumed w (get_job (fst (completeJobRun env now n False e r s)) n)
            \<and> suspended_until_resumed w (get_job (fst (recoverStuckJob env now n t s)) n)
       else armed_at w (get_job (fst (completeJobRun env now n False e r s)) n)
            \<and> armed_at w (get_job (fst (recoverStuckJob env now n t s)) n)"
    unfolding f g using j(3,5)
    by (simp add: suspended_until_resumed_def armed_at_def failed_job_def recovered_job_def Let_def)
  let ?h = "\<lambda>j. (use_deferral j)\<lparr>j_status := JPending, j_runAt := deferred_or j (j_runAt j), j_nextRunAt := deferred_or j (j_nextRunAt j)\<rparr>"
  have "violation s (?h j) = None" by (rule v) (use j in \<open>simp_all add: use_deferral_def deferred_or_def\<close>)
  then show "armed_at w (get_job (after_statement s (revert_claim n (j_runStartedAt j) s)) n)"
    using j row_after [OF j(1), of _ ?h] by (simp add: revert_claim_def use_deferral_def deferred_or_def armed_at_def)
  have l: "get_job (update_linked m q h s) = get_job s" for m q h s
    by (simp add: update_linked_def split: option.splits)
  show "\<forall>s1 s2 i. get_job s1 n = Some i \<and> j_cron i = None \<and> j_deferredAt i = Some w \<and> unsuspendJob env now n s1 = (s2, Inr ())
         \<longrightarrow> armed_at w (get_job s2 n)"
  proof (intro allI impI)
    fix s1 s2 i
    assume i: "get_job s1 n = Some i \<and> j_cron i = None \<and> j_deferredAt i = Some w \<and> unsuspendJob env now n s1 = (s2, Inr ())"
    then obtain t s3 row where u: "update_job n (\<lambda>j. True) (resume_job t) s1 = Inr (s3, row)"
      "s2 = update_linked n (\<lambda>j u. t_status u = ''paused'') (set_status now ''active'') s3"
      by (auto simp: unsuspendJob_def split: if_splits sum.splits)
    have "get_job s2 n = Some (resume_job t i)"
      unfolding u(2) l update_job_effect [OF u(1), of n, simplified] using i update_job_effect [OF u(1), of n]
      by (simp add: resume_job_def use_deferral_def)
    then show "armed_at w (get_job s2 n)"
      using i by (simp add: armed_at_def resume_job_def use_deferral_def deferred_or_def)
  qed
qed


section \<open>Declarations\<close>

text \<open>A row seen after some statements: the same declaration, live if it was, and untouched if not the system's.\<close>

definition declared_as :: "wake_job \<Rightarrow> nat \<times> string \<times> string \<times> string \<times> string option \<times> jobj" where
  "declared_as j = (j_id j, j_createdBy j, j_sourceAgentId j, j_agentId j, map_option fst (j_cron j), j_payload j)"

definition same_declaration :: "wake_job \<Rightarrow> wake_job \<Rightarrow> bool" where
  "same_declaration i j \<longleftrightarrow> i = j \<or> j_createdBy i = ''system'' \<and> declared_as i = declared_as j
     \<and> (j_status i \<noteq> JCancelled \<longrightarrow> j_status j \<noteq> JCancelled)"

lemma declared_as_eq:
  assumes "declared_as i = declared_as j"
  shows "j_createdBy i = j_createdBy j" "declares src a c p i = declares src a c p j"
  using assms by (simp_all add: declared_as_def declares_def del: map_option_eq_Some)

definition rows_stand :: "task_store \<Rightarrow> task_store \<Rightarrow> bool" where
  "rows_stand s s' \<longleftrightarrow> (\<forall>i\<in>set (s_jobs s). \<exists>j\<in>set (s_jobs s'). same_declaration i j)"

lemma same_declaration_refl [simp]: "same_declaration j j"
  by (simp add: same_declaration_def)

lemma same_declaration_trans: "same_declaration i j \<Longrightarrow> same_declaration j k \<Longrightarrow> same_declaration i k"
  unfolding same_declaration_def using declared_as_eq(1) by metis

lemma rows_stand_same [simp]: "s_jobs s' = s_jobs s \<Longrightarrow> rows_stand s s'"
  unfolding rows_stand_def using same_declaration_refl by metis

lemma rows_stand_trans: "rows_stand s s1 \<Longrightarrow> rows_stand s1 s2 \<Longrightarrow> rows_stand s s2"
  unfolding rows_stand_def using same_declaration_trans by blast

lemma rows_stand_map:
  assumes "\<And>j. j \<in> set (s_jobs s) \<Longrightarrow> P j \<Longrightarrow> same_declaration j (f j)"
  shows "rows_stand s (update_jobs P f s)"
  unfolding rows_stand_def
proof
  fix i
  assume i: "i \<in> set (s_jobs s)"
  then have "(if P i then f i else i) \<in> set (s_jobs (update_jobs P f s))" by (force simp: update_jobs_def)
  moreover have "same_declaration i (if P i then f i else i)" using i assms by simp
  ultimately show "\<exists>j\<in>set (s_jobs (update_jobs P f s)). same_declaration i j" by blast
qed

lemma declares_same: "declares src a c p i \<Longrightarrow> same_declaration i j \<Longrightarrow> declares src a c p j"
  unfolding same_declaration_def using declared_as_eq(2) by blast

lemma update_job_jobs:
  assumes "update_job n guard f s = Inr (s', row)"
  shows "s' = s \<or> s' = update_jobs (\<lambda>j. j_id j = n) f s"
  using assms by (auto simp: update_job_def split: option.splits if_splits)

definition system_row :: "nat \<Rightarrow> task_store \<Rightarrow> bool" where
  "system_row n s \<longleftrightarrow> (\<forall>j\<in>set (s_jobs s). j_id j = n \<longrightarrow> j_createdBy j = ''system'')"

lemma jobs_update_linked [simp]: "s_jobs (update_linked n g f s) = s_jobs s"
  by (simp add: update_linked_def split: option.splits)

lemma link_stands:
  assumes "link_new_task now i n a anchor b s = Inr s'" "system_row n s"
  shows "rows_stand s s'"
proof -
  let ?s = "s\<lparr>s_tasks := s_tasks s @ [(i, anchored_task now i a anchor b)]\<rparr>"
  obtain row where "update_job n (\<lambda>j. True) (\<lambda>j. j\<lparr>j_taskId := Some i\<rparr>) ?s = Inr (s', row)"
    using assms(1) by (auto simp: link_new_task_def map_sum_def split: if_splits sum.splits)
  from update_job_jobs [OF this]
  have "s' = ?s \<or> s' = update_jobs (\<lambda>j. j_id j = n) (\<lambda>j. j\<lparr>j_taskId := Some i\<rparr>) ?s" .
  moreover have "rows_stand ?s (update_jobs (\<lambda>j. j_id j = n) (\<lambda>j. j\<lparr>j_taskId := Some i\<rparr>) ?s)"
    using assms(2) by (intro rows_stand_map) (auto simp: same_declaration_def system_row_def declared_as_def)
  ultimately have "rows_stand ?s s'" by auto
  then show ?thesis by (simp add: rows_stand_def)
qed

text \<open>The write itself, on a new row and on a row that declares the same.\<close>

abbreviation declared_payload :: "declared_schedule \<Rightarrow> jobj" where
  "declared_payload d \<equiv> [(''task'', JStr (ds_task d))]"

definition upsert_row :: "sched_env \<Rightarrow> ms \<Rightarrow> string \<Rightarrow> string \<Rightarrow> declared_schedule \<Rightarrow> ms \<Rightarrow> task_store \<Rightarrow> (repo_error + task_store) \<times> nat \<times> bool" where
  "upsert_row env now src agentId d t s =
     (let new = declared_job env now src agentId d t (s_nextJob s)
      in case find (declares src agentId (ds_cron d) (declared_payload d)) (s_jobs s) of
           None \<Rightarrow> (insert_row new s, j_id new, False)
         | Some j \<Rightarrow> (map_sum id fst (update_job (j_id j) (\<lambda>j. True) (redeclare new) s), j_id j, j_status j = JCancelled))"

lemma upsert_row_stands:
  assumes ok: "store_ok s" and u: "upsert_row env now src agentId d t s = (Inr s1, n, revived)"
  shows "rows_stand s s1" "system_row n s1"
    "\<exists>j\<in>set (s_jobs s1). j_id j = n \<and> declares src agentId (ds_cron d) (declared_payload d) j \<and> j_status j \<noteq> JCancelled"
proof -
  let ?new = "declared_job env now src agentId d t (s_nextJob s)"
  let ?D = "declares src agentId (ds_cron d) (declared_payload d)"
  have new: "?D ?new" "j_createdBy ?new = ''system''" "j_status ?new = JPending" "j_id ?new = s_nextJob s"
    by (simp_all add: declares_def declared_job_def same_payload_def)
  have "rows_stand s s1 \<and> system_row n s1 \<and> (\<exists>j\<in>set (s_jobs s1). j_id j = n \<and> ?D j \<and> j_status j \<noteq> JCancelled)"
  proof (cases "find ?D (s_jobs s)")
    case None
    then have s1: "s1 = s\<lparr>s_jobs := s_jobs s @ [?new], s_nextJob := s_nextJob s + 1\<rparr>" "n = s_nextJob s"
      using u by (auto simp: upsert_row_def insert_row_def new(4) Let_def split: option.splits)
    have "\<forall>j\<in>set (s_jobs s). j_id j < s_nextJob s" using ok by (simp add: store_ok_def jobs_ok_def)
    moreover have "rows_stand s s1" unfolding rows_stand_def s1 using same_declaration_refl by fastforce
    ultimately show ?thesis using new by (auto simp: s1 system_row_def)
  next
    case (Some p)
    have p: "p \<in> set (s_jobs s)" "?D p" using Some by (auto simp: find_Some_iff)
    have only: "j = p" if "j \<in> set (s_jobs s)" "j_id j = j_id p" for j
      using jobs_ok_unique(2) [of s j p] ok p(1) that by (simp add: store_ok_def)
    have w: "map_sum id fst (update_job (j_id p) (\<lambda>j. True) (redeclare ?new) s) = Inr s1" and n: "n = j_id p"
      using u unfolding upsert_row_def Let_def Some option.case prod.inject by blast+
    from w obtain row where r: "update_job (j_id p) (\<lambda>j. True) (redeclare ?new) s = Inr (s1, row)"
      by (cases "update_job (j_id p) (\<lambda>j. True) (redeclare ?new) s") auto
    have "get_job s (j_id p) = Some p" using get_job_unique ok p(1) by (simp add: store_ok_def)
    then have s1: "s1 = update_jobs (\<lambda>j. j_id j = n) (redeclare ?new) s"
      using r by (simp add: update_job_def n split: option.splits)
    have cron: "map_option fst (j_cron p) = map_option fst (j_cron ?new)"
      using p(2) by (simp add: declares_def declared_job_def)
    have re: "declared_as p = declared_as (redeclare ?new p)" "j_id (redeclare ?new p) = n" "j_status (redeclare ?new p) \<noteq> JCancelled"
      unfolding declared_as_def redeclare_def Let_def n using cron by simp_all
    have sys: "j_createdBy p = ''system''" using p(2) by (simp add: declares_def)
    have re: "same_declaration p (redeclare ?new p)" "j_id (redeclare ?new p) = n" "j_status (redeclare ?new p) \<noteq> JCancelled"
      using re sys by (simp_all add: same_declaration_def)
    have mem: "redeclare ?new p \<in> set (s_jobs s1)" using p(1) by (force simp: s1 update_jobs_def n)
    have "rows_stand s s1" unfolding s1 by (rule rows_stand_map) (use only re n in blast)
    moreover have "system_row n s1"
      using sys by (auto simp: s1 system_row_def update_jobs_def n redeclare_def Let_def dest: only)
    ultimately show ?thesis using declares_same [OF p(2) re(1)] re mem by blast
  qed
  then show "rows_stand s s1" "system_row n s1"
    "\<exists>j\<in>set (s_jobs s1). j_id j = n \<and> ?D j \<and> j_status j \<noteq> JCancelled" by blast+
qed

lemma upsert_stands:
  assumes ok: "store_ok s" and u: "upsertDeclarativeJob env now i src agentId d s = (s', res)"
  shows "rows_stand s s'"
    "res = Inr n \<Longrightarrow> \<exists>j\<in>set (s_jobs s'). declares src agentId (ds_cron d) (declared_payload d) j \<and> j_status j \<noteq> JCancelled"
proof -
  let ?D = "\<lambda>s. \<exists>j\<in>set (s_jobs s). declares src agentId (ds_cron d) (declared_payload d) j \<and> j_status j \<noteq> JCancelled"
  have keep: "?D s2" if "rows_stand s1 s2" "?D s1" for s1 s2
    using that declares_same unfolding rows_stand_def by (metis same_declaration_def)
  have "rows_stand s s' \<and> (res = Inr n \<longrightarrow> ?D s')"
  proof (cases "nextRunFromCron env (ds_cron d) (e_timezone env) now")
    case (Inl e)
    then show ?thesis using u by (auto simp: upsertDeclarativeJob_def)
  next
    case (Inr t)
    let ?up = "upsert_row env now src agentId d t s"
    obtain m revived where up: "?up = (fst ?up, m, revived)" by (metis prod.collapse)
    show ?thesis
    proof (cases "fst ?up")
      case (Inl e)
      then show ?thesis
        using u Inr by (auto simp: upsertDeclarativeJob_def upsert_row_def Let_def declared_job_def split: option.splits sum.splits)
    next
      case up1: (Inr s1)
      note st = upsert_row_stands [OF ok up [unfolded up1]]
      define s2 where "s2 = (if revived then update_linked m (\<lambda>j u. t_status u = ''cancelled'') (set_status now ''active'') s1 else s1)"
      have j2: "s_jobs s2 = s_jobs s1" by (simp add: s2_def)
      then have 2: "rows_stand s s2" "system_row m s2" "?D s2"
        using st by (auto simp: rows_stand_def system_row_def)
      have "(s', res) = (s2, Inr m) \<or> (s', res) = (s, res) \<and> (\<exists>e. res = Inl e)
          \<or> (\<exists>anchor. link_new_task now i m agentId anchor [] s2 = Inr s')"
        using u Inr up up1 by (auto simp: upsertDeclarativeJob_def upsert_row_def Let_def s2_def declared_job_def
            split: option.splits sum.splits if_splits)
      then show ?thesis
      proof (elim disjE exE)
        assume "(s', res) = (s2, Inr m)"
        then show ?thesis using 2 by simp
      next
        assume "(s', res) = (s, res) \<and> (\<exists>e. res = Inl e)"
        then show ?thesis by auto
      next
        fix anchor
        assume "link_new_task now i m agentId anchor [] s2 = Inr s'"
        from link_stands [OF this 2(2)] show ?thesis using 2(1,3) keep rows_stand_trans by blast
      qed
    qed
  qed
  then show "rows_stand s s'" "res = Inr n \<Longrightarrow> ?D s'" by blast+
qed


lemma upsert_all_stands:
  assumes "store_ok s" "\<forall>x\<in>set xs. uuid_shape (fst x)" "upsert_all env now xs s = (s', up)"
  shows "rows_stand s s' \<and> set up \<subseteq> snd ` set xs
    \<and> (\<forall>(src, agentId, d)\<in>set up. \<exists>j\<in>set (s_jobs s'). declares src agentId (ds_cron d) (declared_payload d) j \<and> j_status j \<noteq> JCancelled)"
  using assms
proof (induction xs arbitrary: s s' up)
  case (Cons x xs)
  obtain i src agentId d where x: "x = (i, src, agentId, d)" by (cases x)
  obtain s1 res where u: "upsertDeclarativeJob env now i src agentId d s = (s1, res)" by fastforce
  note st = upsert_stands [OF Cons.prems(1) u]
  have ok1: "store_ok s1" using ok_upsert [OF Cons.prems(1)] u uuid_shape_nonempty Cons.prems(2) x by (metis fst_conv list.set_intros(1))
  obtain s2 rest where rest: "upsert_all env now xs s1 = (s2, rest)" by fastforce
  have IH: "rows_stand s1 s2" "set rest \<subseteq> snd ` set xs"
    "\<forall>(src, agentId, d)\<in>set rest. \<exists>j\<in>set (s_jobs s2). declares src agentId (ds_cron d) (declared_payload d) j \<and> j_status j \<noteq> JCancelled"
    using Cons.IH [OF ok1 _ rest] Cons.prems(2) by auto
  have s': "s' = s2" "up = (case res of Inl _ \<Rightarrow> rest | Inr _ \<Rightarrow> (src, agentId, d) # rest)"
    using Cons.prems(3) by (auto simp: x u rest split: sum.splits)
  have "rows_stand s s'" using rows_stand_trans [OF st(1) IH(1)] s'(1) by simp
  moreover have "\<exists>j\<in>set (s_jobs s'). declares src agentId (ds_cron d) (declared_payload d) j \<and> j_status j \<noteq> JCancelled" if "res = Inr n" for n
    using st(2) [OF that] IH(1) declares_same unfolding rows_stand_def s'(1) by (metis same_declaration_def)
  ultimately show ?case using IH(2,3) by (auto simp: s' x split: sum.splits)
qed simp

text \<open>
  C24. Start-up makes the rows of the system agree with the declarations of the agent files, whatever was in
  the table: every declaration that was upserted has a row that is not cancelled; a row of the system
  that can still run is one that some current declaration may mean; and a job that was not
  declared, an agent's or the console's, is not touched at all.
\<close>

theorem declared_jobs_converge:
  assumes "store_ok s" "\<forall>i\<in>set ids. uuid_shape i" "loadDeclarativeJobs env now ids cs s = (s', up)"
  shows "(\<forall>(src, agentId, d)\<in>set up. (src, agentId, d) \<in> set (declarations cs)
        \<and> (\<exists>j\<in>set (s_jobs s'). declares src agentId (ds_cron d) [(''task'', JStr (ds_task d))] j \<and> j_status j \<noteq> JCancelled))
    \<and> (\<forall>j\<in>set (s_jobs s'). j_createdBy j = ''system'' \<and> claimable j \<longrightarrow> (\<exists>x\<in>set (declarations cs). maybe_declared (declared_tuple x) j))
    \<and> (\<forall>j\<in>set (s_jobs s). j_createdBy j \<noteq> ''system'' \<longrightarrow> j \<in> set (s_jobs s'))"
proof -
  let ?live = "map declared_tuple (declarations cs)"
  obtain s1 where s1: "upsert_all env now (zip ids (declarations cs)) s = (s1, up)" "s' = fst (cancelStaleDeclarativeJobs ?live s1)"
    using assms(3) by (auto simp: loadDeclarativeJobs_def Let_def split: prod.splits)
  have "\<forall>x\<in>set (zip ids (declarations cs)). uuid_shape (fst x)" using assms(2) by (auto dest: set_zip_leftD)
  note st = upsert_all_stands [OF assms(1) this s1(1)]
  have "snd ` set (zip ids (declarations cs)) \<subseteq> set (declarations cs)" by (auto dest: set_zip_rightD)
  then have up: "set up \<subseteq> set (declarations cs)" using st by blast
  let ?stale = "\<lambda>j. j_createdBy j = ''system'' \<and> (j_status j = JPending \<or> j_status j = JFailed) \<and> \<not> list_ex (\<lambda>d. maybe_declared d j) ?live"
  have s': "s_jobs s' = map (\<lambda>j. if ?stale j then j\<lparr>j_status := JCancelled\<rparr> else j) (s_jobs s1)"
    by (simp add: s1(2) cancelStaleDeclarativeJobs_def Let_def update_jobs_def)
  have stay: "j \<in> set (s_jobs s')" if "j \<in> set (s_jobs s1)" "\<not> ?stale j" for j
    unfolding s' set_map using that by (force simp: image_iff)
  have kept: "\<exists>j\<in>set (s_jobs s'). declares src agentId (ds_cron d) (declared_payload d) j \<and> j_status j \<noteq> JCancelled"
    if d: "(src, agentId, d) \<in> set up" for src agentId d
  proof -
    obtain j where j: "j \<in> set (s_jobs s1)" "declares src agentId (ds_cron d) (declared_payload d) j" "j_status j \<noteq> JCancelled"
      using bspec [OF st [THEN conjunct2, THEN conjunct2] d] by auto
    have "maybe_declared (declared_tuple (src, agentId, d)) j"
      using j(2) by (auto simp: maybe_declared_def declared_tuple_def declares_def split: option.splits)
    then have "\<not> ?stale j" using up d by (auto simp: list_ex_iff)
    with stay j show ?thesis by blast
  qed
  have "\<exists>x\<in>set (declarations cs). maybe_declared (declared_tuple x) j"
    if "j \<in> set (s_jobs s')" "j_createdBy j = ''system''" "claimable j" for j
    using that by (auto simp: s' claimable_def list_ex_iff split: if_splits)
  moreover have "j \<in> set (s_jobs s')" if j: "j \<in> set (s_jobs s)" "j_createdBy j \<noteq> ''system''" for j
  proof -
    have "rows_stand s s1" using st by blast
    then obtain i where "i \<in> set (s_jobs s1)" "same_declaration j i" using j(1) unfolding rows_stand_def by blast
    then show ?thesis using j(2) stay [of j] by (auto simp: same_declaration_def)
  qed
  ultimately show ?thesis using up kept by auto
qed


section \<open>Where the code does less than it says\<close>

text \<open>
  Changing the expression of a recurring job computes its next run in the zone of the service, though
  the row keeps its own zone and every later claim uses that: the first run after the change is the
  service's next match of the expression, not the job's.
\<close>

theorem updated_cron_uses_service_zone:
  assumes "get_job s n = Some j" "j_cron j = Some (old, z)"
    "updateJob env now n \<lparr>ju_cronExpr = Some c, ju_runAt = None, ju_payload = None\<rparr> s = (s', Inr ())"
  shows "\<exists>j'. get_job s' n = Some j' \<and> j_cron j' = Some (c, z) \<and> j_nextRunAt j' = e_next env c (e_timezone env) now"
proof -
  obtain t where t: "e_next env c (e_timezone env) now = Some t"
    using assms(3) by (auto simp: updateJob_def validateCronFrequency_def split: option.splits)
  let ?u = "\<lparr>ju_cronExpr = Some c, ju_runAt = None, ju_payload = None\<rparr>"
  obtain row where u: "update_job n (\<lambda>j. True) (updated_job ?u (e_timezone env) (Some t)) s = Inr (s', row)"
    using assms(3) t by (auto simp: updateJob_def nextRunFromCron_def split: sum.splits if_splits)
  have "get_job s' n = Some (updated_job ?u (e_timezone env) (Some t) j)"
    using update_job_effect [OF u, of n] assms(1) by (simp add: updated_job_def)
  then show ?thesis using assms(2) t by (simp add: updated_job_def)
qed

text \<open>
  A job paused while it runs and resumed before its agent has answered runs twice, and the old answer
  ends the new run: the entry of the first event is still there when the second is fired, its response
  completes the row, and the entry of the run that is really under way is left with no running row. There
  is then more than one entry for a job, which the comment in the watchdog excludes.
\<close>

theorem old_answer_ends_new_run:
  assumes "runnable cfg n k j" "map_of (k_pendingJobs k) e = Some n" "e \<noteq> k_nextEvent k"
    "map_of (k_runMeta k) e = Some m" "\<not> m_disposition m" "\<not> m_taskWake m" "f_drift cfg = None"
    "k1 = fst (fireJob cfg now (read_row (k_store k) j) k)"
    "k2 = on_agent_response cfg ci e False content failed omitted k1"
  shows "map_option j_status (get_job (k_store k1) n) = Some JRunning
    \<and> map_of (k_pendingJobs k1) e = Some n \<and> map_of (k_pendingJobs k1) (k_nextEvent k) = Some n
    \<and> map_option j_status (get_job (k_store k2) n) = Some JCompleted
    \<and> map_of (k_pendingJobs k2) (k_nextEvent k) = Some n"
proof -
  have j: "get_job (k_store k) n = Some j" "j_id j = n" "j_cron j = None" "j_runAt j \<noteq> None" "j_deferredAt j = None"
    using assms(1) get_job_Some by (auto simp: runnable_def)
  have k1: "k1 = fired_run cfg now j k"
    using runnable_fires(1) [OF assms(1) refl, of now] by (simp add: assms(8) fired_run_def j(2))
  have g: "get_job (k_store k1) n = Some (start_run now j)"
    using runnable_fires(2) [OF assms(1) refl, of now] unfolding k1 fired_run_facts j(2) .
  have p: "map_of (k_pendingJobs k1) e = Some n" "map_of (k_pendingJobs k1) (k_nextEvent k) = Some n"
    "map_of (k_runMeta k1) e = Some m"
    using assms(2-4) by (simp_all add: k1 fired_run_def dispatch_job_def Let_def read_row_def update_conv' j(2))
  define r where "r = \<lparr>rr_summary = (if take 500 content = [] then None else Some (take 500 content)),
      rr_failedSkills = failed, rr_omitted = omitted\<rparr>"
  define k3 where "k3 = forget_event e (k1\<lparr>k_failureMessages := AList.delete e (k_failureMessages k1)\<rparr>)"
  have k2: "k2 = finish_run cfg ci n True None None r k3"
    using p assms(5,6,7) by (simp add: assms(9) on_agent_response_def handleCompletion_def drift_check_def Let_def r_def k3_def)
  have g3: "get_job (k_store k3) n = Some (start_run now j)" using g by (simp add: k3_def)
  let ?done = "succeeded_job (ci_now ci) None r"
  have v: "violation (k_store k3) (?done (start_run now j)) = None"
    using j by (intro one_shot_violation) (auto simp: succeeded_job_def start_run_def index_clash_def active_job_def)
  have "completeJobRun (f_env cfg) (ci_now ci) n True None r (k_store k3)
      = (update_jobs (\<lambda>x. j_id x = n) ?done (k_store k3), Inr False)"
    using j(3) g3 v by (simp add: completeJobRun_def job_cron_def written_def update_job_def not_held_def start_run_def)
  then have "k2 = k3\<lparr>k_store := update_jobs (\<lambda>x. j_id x = n) ?done (k_store k3)\<rparr>"
    by (simp add: k2 finish_run_def)
  moreover have "map_of (k_pendingJobs k3) (k_nextEvent k) = Some n"
    using p(2) assms(3) by (simp add: k3_def forget_event_def delete_conv')
  ultimately show ?thesis
    using g g3 p j by (simp add: get_job_update_jobs start_run_def succeeded_job_def)
qed

end
