(* ===== verification/SchedulerDemos.thy ===== *)
theory SchedulerDemos
  imports JobProps
begin

text \<open>
  Concrete runs of the scheduler at which the properties of \<open>SchedulerProofs\<close>, \<open>SchedulerProps\<close> and \<open>JobProps\<close> apply.
\<close>

section \<open>Runs\<close>

definition demo_cfg :: sched_config where
  "demo_cfg = \<lparr>f_env = demo_env, f_ns = (\<lambda>_. []), f_maxInFlight = 2, f_owns = (\<lambda>a. a = ''coordinator''), f_drift = None,
     f_defaultExpected = 600\<rparr>"

definition demo_input :: completion_input where
  "demo_input = \<lparr>ci_now = 1700000002000, ci_verdict = None, ci_busOk = True, ci_newTaskId = demo_id CHR ''9''\<rparr>"

definition demo_run :: "sched_request list \<Rightarrow> scheduler" where
  "demo_run rs = run_steps (sched_step demo_cfg) (fresh_scheduler empty_store) rs"

text \<open>Two tasks with a wake each; one-shot and recurring jobs made by hand.\<close>

definition demo_calls :: "sched_request list" where
  "demo_calls = map KCall demo_history"

definition demo_params :: "string option \<Rightarrow> ms option \<Rightarrow> job_params" where
  "demo_params c t =
     \<lparr>jp_agentId = ''coordinator'', jp_cronExpr = c, jp_runAt = t, jp_payload = [(''task'', JStr ''digest'')], jp_createdBy = ''user'',
      jp_intentAnchor = None, jp_errorBudget = None, jp_timezone = None, jp_expected = None, jp_originator = None\<rparr>"

definition demo_at :: ms where
  "demo_at = 1700000001000"

lemma demo_run_ok: "store_ok (k_store (demo_run rs))"
proof -
  have "new_scheduler demo_cfg empty_store = Some (fresh_scheduler empty_store)" by (simp add: new_scheduler_def demo_cfg_def)
  then have "sched_inv demo_cfg (demo_run rs)" unfolding demo_run_def by (intro sched.inv_run) (use ok_empty in blast)
  then show ?thesis by (simp add: sched_inv_def)
qed



text \<open>A wake queued for a task that was completed.\<close>

definition demo_late :: scheduler where
  "demo_late = demo_run (demo_calls @ [KCall (RComplete demo_at (demo_id CHR ''2'') None),
     KCall (REnqueue demo_at (demo_id CHR ''2'') ''coordinator'' demo_at ''curia'' None True)])"


text \<open>A wake of the agent's own task: its lineage is not privileged, whatever the score.\<close>

definition demo_idle :: task_store where
  "demo_idle = k_store (demo_run (demo_calls @ [KCall (RCancelWakes (demo_id CHR ''2''))]))"

theorem backlog_wake_runs_under_the_ladder_witness:
  "\<exists>s n j. enqueueTaskWake (demo_id CHR ''2'') ''coordinator'' 0 ''heartbeat'' None False 0 demo_idle = (s, Inr n)
     \<and> get_job s n = Some j
     \<and> \<not> privileged (standing_role (computeEffectiveTaskMetadata (fired_metadata (read_row s j)) (Some (Fin 100)) DEFAULT_BYPASS_LADDER))"
proof -
  let ?r = "enqueueTaskWake (demo_id CHR ''2'') ''coordinator'' 0 ''heartbeat'' None False 0 demo_idle"
  have "map_sum (\<lambda>_. ()) (\<lambda>n. n) (snd ?r) = Inr 1" by code_simp
  then obtain s n where r: "?r = (s, Inr n)" by (cases ?r; cases "snd ?r") auto
  have "store_ok demo_idle" unfolding demo_idle_def by (rule demo_run_ok)
  from backlog_wake_runs_under_the_ladder [OF this r, of "Some (Fin 100)" DEFAULT_BYPASS_LADDER] r
  show ?thesis by auto
qed

text \<open>Three failures of a wake.\<close>

definition demo_failure :: failing_run where
  "demo_failure = \<lparr>fr_now = demo_at, fr_input = demo_input, fr_message = ''timeout'', fr_content = ''no result'', fr_failed = [],
     fr_omitted = None\<rparr>"

lemma demo_runnable:
  obtains j where "runnable demo_cfg 0 (demo_run demo_calls) j" "j_failures j = 0"
proof -
  have s: "map_option (\<lambda>j. runnable demo_cfg 0 (demo_run demo_calls) j \<and> j_failures j = 0) (get_job (k_store (demo_run demo_calls)) 0)
      = Some True" by code_simp
  then obtain j where j: "get_job (k_store (demo_run demo_calls)) 0 = Some j" by auto
  show thesis by (rule that [of j]) (use s [unfolded j] in simp_all)
qed


text \<open>A wake that moves itself to the next hour.\<close>

definition demo_moved :: task_store where
  "demo_moved = k_store (demo_run (demo_calls @ [KPoll demo_at,
     KCall (RUpdate demo_at (demo_id CHR ''1'') (failed_update\<lparr>u_status := None, u_wakeAt := Some 1700003600000\<rparr>) None)]))"

theorem deferred_wake_is_kept_witness:
  "armed_at 1700003600000 (get_job (fst (completeJobRun demo_env demo_at 0 False (Some ''lost'') empty_report demo_moved)) 0)"
proof -
  have s: "map_option (\<lambda>j. j_status j = JRunning \<and> j_cron j = None \<and> j_runAt j \<noteq> None \<and> j_deferredAt j = Some 1700003600000
      \<and> j_failures j = 0) (get_job demo_moved 0) = Some True" by code_simp
  then obtain j where j: "get_job demo_moved 0 = Some j" by auto
  note f = s [unfolded j, simplified]
  have "store_ok demo_moved" unfolding demo_moved_def by (rule demo_run_ok)
  from deferred_wake_is_kept [OF this j, of 1700003600000 demo_env demo_at "Some ''lost''" empty_report 0] f
  show ?thesis by (simp add: SUSPEND_THRESHOLD_def)
qed

text \<open>Start-up with one declaration, after another was dropped from the files.\<close>

definition demo_files :: "string \<Rightarrow> agent_config list" where
  "demo_files t = [\<lparr>ac_name = ''coordinator'', ac_schedule = [(None, \<lparr>ds_cron = ''0 8 * * *'', ds_task = t, ds_expected = None,
     ds_intentAnchor = Some ''stay on topic''\<rparr>)]\<rparr>]"

definition demo_dropped :: task_store where
  "demo_dropped = k_store (demo_run [KCall (RCreateJob demo_at (demo_id CHR ''3'') (demo_params None (Some demo_at))),
     KCall (RDeclare demo_at (demo_id CHR ''4'') ''coordinator'' ''coordinator''
       \<lparr>ds_cron = ''0 9 * * *'', ds_task = ''old'', ds_expected = None, ds_intentAnchor = None\<rparr>)])"

theorem declared_jobs_converge_witness:
  "\<exists>s. fst (loadDeclarativeJobs demo_env demo_at [demo_id CHR ''5''] (demo_files ''new'') demo_dropped) = s
     \<and> map (\<lambda>j. (j_createdBy j, j_status j)) (s_jobs s) = [(''user'', JPending), (''system'', JCancelled), (''system'', JPending)]
     \<and> (\<forall>j\<in>set (s_jobs demo_dropped). j_createdBy j \<noteq> ''system'' \<longrightarrow> j \<in> set (s_jobs s))"
proof -
  obtain s up where l: "loadDeclarativeJobs demo_env demo_at [demo_id CHR ''5''] (demo_files ''new'') demo_dropped = (s, up)" by fastforce
  have "map (\<lambda>j. (j_createdBy j, j_status j)) (s_jobs (fst (loadDeclarativeJobs demo_env demo_at [demo_id CHR ''5'']
      (demo_files ''new'') demo_dropped))) = [(''user'', JPending), (''system'', JCancelled), (''system'', JPending)]" by code_simp
  moreover have "store_ok demo_dropped" unfolding demo_dropped_def by (rule demo_run_ok)
  moreover have "\<forall>i\<in>set [demo_id CHR ''5'']. uuid_shape i" by code_simp
  ultimately show ?thesis using declared_jobs_converge [OF _ _ l] by (simp add: l)
qed

text \<open>A job in its own zone, and an environment whose next run depends on the zone.\<close>

definition demo_zoned :: sched_env where
  "demo_zoned = demo_env\<lparr>e_next := (\<lambda>c z t. Some (t + (if z = ''UTC'' then 3600000 else 7200000))),
     e_validZone := (\<lambda>z. True)\<rparr>"

definition demo_paris :: task_store where
  "demo_paris = fst (createJob demo_zoned 0 (demo_id CHR ''3'')
     ((demo_params (Some ''0 8 * * *'') None)\<lparr>jp_timezone := Some ''Europe/Paris''\<rparr>) empty_store)"

theorem updated_cron_uses_service_zone_witness:
  "map_option (\<lambda>j. (j_cron j, j_nextRunAt j))
     (get_job (fst (updateJob demo_zoned 0 0 \<lparr>ju_cronExpr = Some ''0 9 * * *'', ju_runAt = None, ju_payload = None\<rparr> demo_paris)) 0)
   = Some (Some (''0 9 * * *'', ''Europe/Paris''), Some 3600000)
   \<and> e_next demo_zoned ''0 9 * * *'' ''Europe/Paris'' 0 = Some 7200000"
proof -
  let ?u = "updateJob demo_zoned 0 0 \<lparr>ju_cronExpr = Some ''0 9 * * *'', ju_runAt = None, ju_payload = None\<rparr> demo_paris"
  have "map_option j_cron (get_job demo_paris 0) = Some (Some (''0 8 * * *'', ''Europe/Paris''))" by code_simp
  then obtain j where j: "get_job demo_paris 0 = Some j" "j_cron j = Some (''0 8 * * *'', ''Europe/Paris'')" by auto
  have "snd ?u = Inr ()" by code_simp
  then obtain s where u: "?u = (s, Inr ())" by (metis prod.collapse)
  from updated_cron_uses_service_zone [OF j u] u show ?thesis by (auto simp: demo_zoned_def demo_env_def)
qed

text \<open>A job made by hand is polled, paused and resumed; the answer to its first run is still to come.\<close>

definition demo_resumed :: scheduler where
  "demo_resumed = demo_run [KCall (RCreateJob demo_at (demo_id CHR ''3'') (demo_params None (Some demo_at))), KPoll demo_at,
     KCall (RPauseJob demo_at 0), KCall (RResumeJob demo_at 0)]"

theorem old_answer_ends_new_run_witness:
  "\<exists>j. get_job (k_store demo_resumed) 0 = Some j
     \<and> map_option j_status (get_job (k_store (on_agent_response demo_cfg demo_input 0 False ''done'' [] None
          (fst (fireJob demo_cfg demo_at (read_row (k_store demo_resumed) j) demo_resumed)))) 0) = Some JCompleted
     \<and> k_nextEvent demo_resumed = 1"
proof -
  have s: "map_option (runnable demo_cfg 0 demo_resumed) (get_job (k_store demo_resumed) 0) = Some True"
    "map_of (k_pendingJobs demo_resumed) 0 = Some 0" "k_nextEvent demo_resumed = 1"
    "map_option (\<lambda>m. \<not> m_disposition m \<and> \<not> m_taskWake m) (map_of (k_runMeta demo_resumed) 0) = Some True"
    by code_simp+
  then obtain j m where j: "get_job (k_store demo_resumed) 0 = Some j" "runnable demo_cfg 0 demo_resumed j"
    "map_of (k_runMeta demo_resumed) 0 = Some m" "\<not> m_disposition m" "\<not> m_taskWake m" by auto
  have "(0::nat) \<noteq> k_nextEvent demo_resumed" "f_drift demo_cfg = None" by (simp_all add: s(3) demo_cfg_def)
  from old_answer_ends_new_run [OF j(2) s(2) this(1) j(3-5) this(2) refl refl, of demo_at demo_input "''done''" "[]" None] j(1) s(3)
  show ?thesis by blast
qed

end
