(* ===== verification/JudgeBrief.thy ===== *)
theory JudgeBrief
  imports Json Autonomy ContactTypes Uuid
begin

text \<open>
  The brief of the escalation judge (\<open>src/autonomy/judge-brief.ts\<close>) and the extraction of a JSON object
  from a model reply (\<open>src/util/json-extract.ts\<close>): the questions, the evidence and the authority behind
  a send, the user prompt that is built from them, and the parser of the judge's answer.

  The model itself, \<open>JSON.parse\<close> (the parameter \<open>parse\<close>) and the system prompt are not modelled. No
  number occurs in a rendered brief, so the printer of numbers is an arbitrary constant here.
\<close>

section \<open>Types\<close>

datatype brief_question = QPurpose | QSpeaks | QStakes | QGrounding | QNecessity | QDisclosure

datatype send_stakes = Routine | Commitment | FinancialOrLegal

datatype item_field = FieldBody | FieldSubject | FieldQuote

record detected_item =
  di_id :: string
  di_label :: string
  di_text :: string
  di_field :: item_field

datatype disclosure_basis = Directed | Inferred | Unsupported

record disclosure_ruling =
  dr_id :: string
  dr_basis :: disclosure_basis
  dr_requested :: bool
  dr_reason :: string

record send_originator =
  sg_contactId :: string
  sg_systemRole :: "system_role option"
  sg_tier :: "contact_tier option"
  sg_channel :: string
  sg_authenticated :: bool

record authority_task =
  at_taskId :: string
  at_title :: string
  at_description :: "string option"
  at_originator :: "send_originator option"

record link_root =
  lr_taskId :: string
  lr_title :: string
  lr_originator :: "send_originator option"

record link_counterparty =
  cp_addresses :: "string list"
  cp_contactIds :: "string list"
  cp_domains :: "string list"

datatype link_strength = StrongLink | WeakLink

record linked_task =
  lt_taskId :: "string option"
  lt_title :: "string option"
  lt_originator :: "send_originator option"
  lt_root :: "link_root option"
  lt_linkKind :: string
  lt_strength :: link_strength
  lt_counterparty :: "link_counterparty option"

record send_authority =
  sa_originator :: "send_originator option"
  sa_liveTurn :: bool
  sa_boundTask :: "authority_task option"
  sa_rootTask :: "authority_task option"
  sa_linkedTask :: "linked_task option"

datatype origin_kind = OriginInbound | OriginTask

record sender_message =
  he_at :: string
  he_text :: string
  he_senderVerified :: "bool option"

record brief_evidence =
  be_taskContent :: "string option"
  be_originContent :: "string option"
  be_originKind :: "origin_kind option"
  be_originAt :: "string option"
  be_senderHistory :: "sender_message list" \<comment> \<open>absent and empty are read alike\<close>
  be_senderHistoryOlderLeftOut :: bool
  be_taskProgress :: "string option"
  be_toolResults :: "(string \<times> string) list"
  be_reportsToPrincipal :: "string list option"
  be_principalBlock :: "string option"
  be_authority :: "send_authority option"
  be_principalDecisions :: "string list" \<comment> \<open>absent and empty are read alike\<close>

record brief_input =
  bi_questions :: "brief_question list"
  bi_message :: string
  bi_recipients :: "string list"
  bi_principalRecipients :: "string list option"
  bi_detectedItems :: "detected_item list option"
  bi_band :: autonomy_band
  bi_evidence :: brief_evidence
  bi_conversationId :: string

datatype purpose = Serving | Steered

record brief_answers =
  ba_purpose :: "purpose option"
  ba_speaksAsPrincipal :: "bool option"
  ba_stakes :: "send_stakes option"
  ba_stakesReason :: "string option"
  ba_unsupportedClaims :: "string list option"
  ba_unnecessaryItems :: "string list option"
  ba_disclosures :: "disclosure_ruling list option"
  ba_reason :: string

datatype brief_failure = JudgeDisabled | JudgeUnreachable | JudgeMalformed

type_synonym brief_verdict = "brief_failure + brief_answers"

section \<open>Extracting a JSON object from a reply\<close>

text \<open>
  The fence is optional; between the fences the text is trimmed. The last three characters of the
  reply are the closing fence, so the pattern matches when what follows the opening one ends in it.
\<close>

definition ends_with :: "string \<Rightarrow> string \<Rightarrow> bool" where
  "ends_with p s \<longleftrightarrow> starts_with (rev p) (rev s)"

definition stripCodeFence :: "string \<Rightarrow> string" where
  "stripCodeFence raw =
     (let trimmed = js_trim raw;
          inner = drop 3 trimmed;
          body = (if starts_with ''json'' inner then drop 4 inner else inner)
      in if starts_with ''```'' trimmed \<and> ends_with ''```'' body
         then js_trim (take (length body - 3) body)
         else trimmed)"

record scan_state =
  sc_depth :: int
  sc_inString :: bool
  sc_escaped :: bool

datatype scan_result = Continue scan_state | Closed

definition scan_char :: "scan_state \<Rightarrow> char \<Rightarrow> scan_result" where
  "scan_char s ch =
     (if sc_inString s then
        (if sc_escaped s then Continue (s\<lparr>sc_escaped := False\<rparr>)
         else if ch = CHR 0x5C then Continue (s\<lparr>sc_escaped := True\<rparr>)
         else if ch = CHR 0x22 then Continue (s\<lparr>sc_inString := False\<rparr>)
         else Continue s)
      else if ch = CHR 0x22 then Continue (s\<lparr>sc_inString := True\<rparr>)
      else if ch = CHR ''{'' then Continue (s\<lparr>sc_depth := sc_depth s + 1\<rparr>)
      else if ch = CHR ''}'' then
        (if sc_depth s - 1 = 0 then Closed else Continue (s\<lparr>sc_depth := sc_depth s - 1\<rparr>))
      else Continue s)"

text \<open>The loop: the characters up to and with the brace that closes the first object.\<close>

fun scan_object :: "scan_state \<Rightarrow> string \<Rightarrow> string option" where
  "scan_object s [] = None"
| "scan_object s (ch # rest) =
     (case scan_char s ch of
        Closed \<Rightarrow> Some [ch]
      | Continue s' \<Rightarrow> map_option ((#) ch) (scan_object s' rest))"

definition extractFirstJsonObject :: "string \<Rightarrow> string option" where
  "extractFirstJsonObject text =
     (let from = dropWhile (\<lambda>c. c \<noteq> CHR ''{'') text
      in if from = [] then None
         else scan_object \<lparr>sc_depth = 0, sc_inString = False, sc_escaped = False\<rparr> from)"

section \<open>The parser of the answer\<close>

fun isStringArray :: "jsval \<Rightarrow> string list option" where
  "isStringArray (JArr xs) =
     (if list_all (\<lambda>x. case x of JStr _ \<Rightarrow> True | _ \<Rightarrow> False) xs
      then Some (map (\<lambda>x. case x of JStr s \<Rightarrow> s | _ \<Rightarrow> []) xs) else None)"
| "isStringArray _ = None"

definition read_basis :: "jsval \<Rightarrow> disclosure_basis option" where
  "read_basis v =
     (if v = JStr ''directed'' then Some Directed
      else if v = JStr ''inferred'' then Some Inferred
      else if v = JStr ''unsupported'' then Some Unsupported
      else None)"

definition read_stakes :: "jsval \<Rightarrow> send_stakes option" where
  "read_stakes v =
     (if v = JStr ''routine'' then Some Routine
      else if v = JStr ''commitment'' then Some Commitment
      else if v = JStr ''financial_or_legal'' then Some FinancialOrLegal
      else None)"

definition js_string_or :: "string \<Rightarrow> jsval \<Rightarrow> string" where
  "js_string_or d v = (case v of JStr s \<Rightarrow> s | _ \<Rightarrow> d)"

definition parse_ruling :: "string list \<Rightarrow> jsval \<Rightarrow> disclosure_ruling option" where
  "parse_ruling remaining entry =
     (case entry of
        JObj e \<Rightarrow>
          (case jfield e ''id'' of
             JStr i \<Rightarrow>
               if i \<notin> set remaining then None
               else (case read_basis (jfield e ''basis'') of
                       None \<Rightarrow> None
                     | Some b \<Rightarrow>
                         (case jfield e ''requested'' of
                            JBool r \<Rightarrow>
                              (case jfield e ''reason'' of
                                 JUndef \<Rightarrow> Some \<lparr>dr_id = i, dr_basis = b, dr_requested = r, dr_reason = []\<rparr>
                               | JStr why \<Rightarrow> Some \<lparr>dr_id = i, dr_basis = b, dr_requested = r, dr_reason = why\<rparr>
                               | _ \<Rightarrow> None)
                          | _ \<Rightarrow> None))
           | _ \<Rightarrow> None)
      | _ \<Rightarrow> None)"

text \<open>\<open>remaining\<close> is a set: \<open>remove1\<close> on a list without repetitions deletes its one occurrence.\<close>

fun parse_rulings :: "string list \<Rightarrow> jsval list \<Rightarrow> disclosure_ruling list option" where
  "parse_rulings remaining [] = Some []"
| "parse_rulings remaining (entry # rest) =
     (case parse_ruling remaining entry of
        None \<Rightarrow> None
      | Some r \<Rightarrow> map_option ((#) r) (parse_rulings (remove1 (dr_id r) remaining) rest))"

definition parseDisclosures :: "jsval \<Rightarrow> string list option \<Rightarrow> disclosure_ruling list option" where
  "parseDisclosures v ids =
     (case ids of
        None \<Rightarrow> None
      | Some is \<Rightarrow>
          if is = [] then None
          else (case v of
                  JArr xs \<Rightarrow> if length xs \<noteq> length is then None else parse_rulings (remdups is) xs
                | _ \<Rightarrow> None))"

fun parse_question :: "(string \<times> jsval) list \<Rightarrow> string list option \<Rightarrow> brief_question \<Rightarrow> brief_answers
    \<Rightarrow> brief_answers option" where
  "parse_question obj ids QPurpose out =
     (if jfield obj ''purpose'' = JStr ''serving'' then Some (out\<lparr>ba_purpose := Some Serving\<rparr>)
      else if jfield obj ''purpose'' = JStr ''steered'' then Some (out\<lparr>ba_purpose := Some Steered\<rparr>)
      else None)"
| "parse_question obj ids QSpeaks out =
     (case jfield obj ''speaksAsPrincipal'' of
        JBool b \<Rightarrow> Some (out\<lparr>ba_speaksAsPrincipal := Some b\<rparr>)
      | _ \<Rightarrow> None)"
| "parse_question obj ids QStakes out =
     (case read_stakes (jfield obj ''stakes'') of
        None \<Rightarrow> None
      | Some st \<Rightarrow> Some (out\<lparr>ba_stakes := Some st,
                            ba_stakesReason := Some (js_string_or [] (jfield obj ''stakesReason''))\<rparr>))"
| "parse_question obj ids QGrounding out =
     map_option (\<lambda>ss. out\<lparr>ba_unsupportedClaims := Some ss\<rparr>) (isStringArray (jfield obj ''unsupportedClaims''))"
| "parse_question obj ids QNecessity out =
     map_option (\<lambda>ss. out\<lparr>ba_unnecessaryItems := Some ss\<rparr>) (isStringArray (jfield obj ''unnecessaryItems''))"
| "parse_question obj ids QDisclosure out =
     map_option (\<lambda>ds. out\<lparr>ba_disclosures := Some ds\<rparr>) (parseDisclosures (jfield obj ''disclosures'') ids)"

fun parse_questions :: "(string \<times> jsval) list \<Rightarrow> string list option \<Rightarrow> brief_question list \<Rightarrow> brief_answers
    \<Rightarrow> brief_answers option" where
  "parse_questions obj ids [] out = Some out"
| "parse_questions obj ids (q # qs) out =
     Option.bind (parse_question obj ids q out) (parse_questions obj ids qs)"

definition no_answers :: "string \<Rightarrow> brief_answers" where
  "no_answers reason =
     \<lparr>ba_purpose = None, ba_speaksAsPrincipal = None, ba_stakes = None, ba_stakesReason = None,
      ba_unsupportedClaims = None, ba_unnecessaryItems = None, ba_disclosures = None, ba_reason = reason\<rparr>"

definition parseBriefVerdict ::
  "(string \<Rightarrow> jsval option) \<Rightarrow> string \<Rightarrow> brief_question list \<Rightarrow> string list option \<Rightarrow> brief_answers option" where
  "parseBriefVerdict parse raw questions detectedIds =
     (case extractFirstJsonObject (stripCodeFence raw) of
        None \<Rightarrow> None
      | Some extracted \<Rightarrow>
          (case parse extracted of
             Some (JObj obj) \<Rightarrow>
               parse_questions obj detectedIds questions (no_answers (js_string_or [] (jfield obj ''reason'')))
           | _ \<Rightarrow> None))"

section \<open>The user prompt\<close>

definition or_null :: "string option \<Rightarrow> jsval" where
  "or_null s = (case s of None \<Rightarrow> JNull | Some x \<Rightarrow> JStr x)"

fun role_name :: "system_role \<Rightarrow> string" where
  "role_name RPrincipal = ''principal''"
| "role_name RAgent = ''agent''"
| "role_name RSystem = ''system''"

fun tier_name :: "contact_tier \<Rightarrow> string" where
  "tier_name TBlocked = ''blocked''"
| "tier_name TUnknown = ''unknown''"
| "tier_name TKnown = ''known''"
| "tier_name TTrusted = ''trusted''"
| "tier_name TPrincipal = ''principal''"

fun band_name :: "autonomy_band \<Rightarrow> string" where
  "band_name Full = ''full''"
| "band_name SpotCheck = ''spot-check''"
| "band_name ApprovalRequired = ''approval-required''"
| "band_name DraftOnly = ''draft-only''"
| "band_name Restricted = ''restricted''"

fun question_name :: "brief_question \<Rightarrow> string" where
  "question_name QPurpose = ''purpose''"
| "question_name QSpeaks = ''speaks-as-principal''"
| "question_name QStakes = ''stakes''"
| "question_name QGrounding = ''grounding''"
| "question_name QNecessity = ''necessity''"
| "question_name QDisclosure = ''disclosure''"

definition renderOriginator :: "send_originator option \<Rightarrow> jsval" where
  "renderOriginator og =
     (case og of
        None \<Rightarrow> JNull
      | Some g \<Rightarrow> JObj [(''resolved'', JBool (isUuid (JStr (sg_contactId g)))),
                       (''systemRole'', or_null (map_option role_name (sg_systemRole g))),
                       (''tier'', or_null (map_option tier_name (sg_tier g))),
                       (''channel'', JStr (sg_channel g)),
                       (''authenticated'', JBool (sg_authenticated g))])"

definition renderLinkedTask :: "linked_task \<Rightarrow> jsval" where
  "renderLinkedTask l =
     JObj ([(''taskId'', or_null (lt_taskId l)), (''title'', or_null (lt_title l)),
            (''linkKind'', JStr (lt_linkKind l)),
            (''strength'', JStr (case lt_strength l of StrongLink \<Rightarrow> ''strong'' | WeakLink \<Rightarrow> ''weak'')),
            (''originator'', renderOriginator (lt_originator l))]
         @ (case lt_root l of
              None \<Rightarrow> []
            | Some r \<Rightarrow> [(''root'', JObj [(''taskId'', JStr (lr_taskId r)), (''title'', JStr (lr_title r)),
                                        (''originator'', renderOriginator (lr_originator r))])]))"

definition render_task :: "authority_task \<Rightarrow> jsval" where
  "render_task t = JObj [(''taskId'', JStr (at_taskId t)), (''title'', JStr (at_title t)),
      (''description'', or_null (at_description t)), (''originator'', renderOriginator (at_originator t))]"

definition opt_member :: "string \<Rightarrow> ('a \<Rightarrow> jsval) \<Rightarrow> 'a option \<Rightarrow> (string \<times> jsval) list" where
  "opt_member k f v = (case v of None \<Rightarrow> [] | Some x \<Rightarrow> [(k, f x)])"

definition renderAuthority :: "send_authority option \<Rightarrow> jsval" where
  "renderAuthority au =
     (case au of
        None \<Rightarrow> JNull
      | Some a \<Rightarrow> JObj ([(''originator'', renderOriginator (sa_originator a)), (''liveTurn'', JBool (sa_liveTurn a))]
          @ opt_member ''boundTask'' render_task (sa_boundTask a)
          @ opt_member ''rootTask'' render_task (sa_rootTask a)
          @ opt_member ''linkedTask'' renderLinkedTask (sa_linkedTask a)))"

text \<open>The two replacements of \<open>encode\<close>: an angle bracket becomes its JSON escape.\<close>

definition angle_escape :: "char \<Rightarrow> string" where
  "angle_escape c =
     (if c = CHR ''<'' then CHR 0x5C # ''u003c'' else if c = CHR ''>'' then CHR 0x5C # ''u003e'' else [c])"

definition encode_json :: "jsval \<Rightarrow> string" where
  "encode_json v =
     (case json_stringify (\<lambda>_. ''0'') v of None \<Rightarrow> ''undefined'' | Some s \<Rightarrow> concat (map angle_escape s))"

text \<open>The whole text between a sentinel tag and its closing tag.\<close>

definition tagged :: "string \<Rightarrow> jsval \<Rightarrow> string" where
  "tagged tag v = ''<'' @ tag @ ''>'' @ encode_json v @ ''</'' @ tag @ ''>''"

definition jstrs :: "string list \<Rightarrow> jsval" where
  "jstrs ss = JArr (map JStr ss)"

definition js_or :: "'a \<Rightarrow> 'a option \<Rightarrow> 'a" where
  "js_or d v = (case v of None \<Rightarrow> d | Some x \<Rightarrow> x)"

fun field_name :: "item_field \<Rightarrow> string" where
  "field_name FieldBody = ''body''"
| "field_name FieldSubject = ''subject''"
| "field_name FieldQuote = ''quote''"

definition render_item :: "detected_item \<Rightarrow> jsval" where
  "render_item d = JObj [(''id'', JStr (di_id d)), (''label'', JStr (di_label d)),
      (''text'', JStr (di_text d)), (''field'', JStr (field_name (di_field d)))]"

definition render_history :: "sender_message \<Rightarrow> jsval" where
  "render_history h = JObj ([(''at'', JStr (he_at h)), (''text'', JStr (he_text h))]
      @ opt_member ''senderVerified'' JBool (he_senderVerified h))"

definition render_tool :: "string \<times> string \<Rightarrow> jsval" where
  "render_tool r = JObj [(''toolName'', JStr (fst r)), (''result'', JStr (snd r))]"

text \<open>Evidence that would be \<open>undefined\<close> or empty leaves its line out.\<close>

definition origin_label :: "origin_kind \<Rightarrow> string" where
  "origin_label k =
     (case k of
        OriginInbound \<Rightarrow> ''The message that started this work, before the assistant delegated it (as its sender wrote it, with any follow-ups they sent meanwhile; the authority block says who that is; the task above is the assistant'' @ [CHR 0x27] @ ''s restatement)''
      | OriginTask \<Rightarrow> ''The task that started this work, before the assistant delegated it (as the assistant received it; the task above is the assistant'' @ [CHR 0x27] @ ''s restatement)'')"

definition origin_line :: "brief_evidence \<Rightarrow> string list" where
  "origin_line e =
     (case be_originContent e of
        None \<Rightarrow> []
      | Some content \<Rightarrow>
          [origin_label (js_or OriginTask (be_originKind e))
           @ (case be_originAt e of
                None \<Rightarrow> []
              | Some a \<Rightarrow> if a = [] then [] else '', at '' @ encode_json (JStr a))
           @ '': '' @ tagged ''origin_json'' (JStr content)])"

definition history_line :: "brief_evidence \<Rightarrow> string list" where
  "history_line e =
     (if be_senderHistory e = [] then []
      else [''Earlier messages from the same sender in this conversation, before the one above (newest first; '' @ [CHR 0x22] @ ''at'' @ [CHR 0x22] @ '' is when each arrived and '' @ [CHR 0x22] @ ''senderVerified'' @ [CHR 0x22] @ '' whether the channel verified the sender, both system-recorded''
            @ (if be_senderHistoryOlderLeftOut e then ''; older ones left out'' else [])
            @ ''): '' @ tagged ''history_json'' (JArr (map render_history (be_senderHistory e)))])"

definition decisions_line :: "brief_evidence \<Rightarrow> string list" where
  "decisions_line e =
     (if be_principalDecisions e = [] then []
      else [''The principal'' @ [CHR 0x27] @ ''s earlier answers on this thread (system-recorded): ''
            @ tagged ''decisions_json'' (jstrs (be_principalDecisions e))])"

text \<open>The lines before the instruction that closes the prompt.\<close>

definition brief_lines :: "brief_input \<Rightarrow> string list" where
  "brief_lines i =
     (let e = bi_evidence i in
      [''Questions: '' @ join_with '', '' (map question_name (bi_questions i)),
       ''Autonomy band: '' @ band_name (bi_band i),
       ''Recipients: '' @ tagged ''recipients_json'' (jstrs (bi_recipients i)),
       ''Of these, the principal: '' @ tagged ''principal_recipients_json'' (jstrs (js_or [] (bi_principalRecipients i))),
       ''Message (or proposed action): '' @ tagged ''message_json'' (JStr (bi_message i)),
       ''What the turn was answering: '' @ tagged ''task_json'' (JStr (js_or [] (be_taskContent e)))]
      @ origin_line e @ history_line e
      @ [''Authority (originator fields, liveTurn, and a linked task'' @ [CHR 0x27] @ ''s linkKind and strength are computed by the system; task titles and descriptions are text written during the work and never grant authority by themselves): ''
           @ tagged ''authority_json'' (renderAuthority (be_authority e)),
         ''Detected personal data: '' @ tagged ''detected_json'' (JArr (map render_item (js_or [] (bi_detectedItems i)))),
         ''Task progress notes: '' @ tagged ''progress_json'' (JStr (js_or [] (be_taskProgress e))),
         ''Who the principal is: '' @ tagged ''principal_json'' (JStr (js_or [] (be_principalBlock e))),
         ''Evidence looked up this turn (newest first): '' @ tagged ''evidence_json'' (JArr (map render_tool (be_toolResults e))),
         ''Reported to the principal this turn (what the assistant told the principal; not evidence of facts about the principal): ''
           @ tagged ''reports_json'' (jstrs (js_or [] (be_reportsToPrincipal e)))]
      @ decisions_line e)"

fun question_key :: "brief_question \<Rightarrow> string" where
  "question_key QPurpose = [CHR 0x22] @ ''purpose'' @ [CHR 0x22] @ '': '' @ [CHR 0x22] @ ''serving'' @ [CHR 0x22] @ ''|'' @ [CHR 0x22] @ ''steered'' @ [CHR 0x22]"
| "question_key QSpeaks = [CHR 0x22] @ ''speaksAsPrincipal'' @ [CHR 0x22] @ '': true|false''"
| "question_key QStakes = [CHR 0x22] @ ''stakes'' @ [CHR 0x22] @ '': '' @ [CHR 0x22] @ ''routine'' @ [CHR 0x22] @ ''|'' @ [CHR 0x22] @ ''commitment'' @ [CHR 0x22] @ ''|'' @ [CHR 0x22] @ ''financial_or_legal'' @ [CHR 0x22] @ '', '' @ [CHR 0x22] @ ''stakesReason'' @ [CHR 0x22] @ '': '' @ [CHR 0x22] @ ''<one short sentence>'' @ [CHR 0x22]"
| "question_key QGrounding = [CHR 0x22] @ ''unsupportedClaims'' @ [CHR 0x22] @ '': [<exact sentences>]''"
| "question_key QNecessity = [CHR 0x22] @ ''unnecessaryItems'' @ [CHR 0x22] @ '': [<exact phrases>]''"
| "question_key QDisclosure = [CHR 0x22] @ ''disclosures'' @ [CHR 0x22] @ '': [{'' @ [CHR 0x22] @ ''id'' @ [CHR 0x22] @ '','' @ [CHR 0x22] @ ''basis'' @ [CHR 0x22] @ '','' @ [CHR 0x22] @ ''requested'' @ [CHR 0x22] @ '','' @ [CHR 0x22] @ ''reason'' @ [CHR 0x22] @ ''}]''"

definition newline :: string where
  "newline = [CHR 0x0A]"

definition return_line :: "brief_question list \<Rightarrow> string" where
  "return_line qs = ''Return ONLY: {'' @ join_with '', '' (map question_key qs) @ '', '' @ [CHR 0x22] @ ''reason''
     @ [CHR 0x22] @ '': '' @ [CHR 0x22] @ ''<one short sentence>'' @ [CHR 0x22] @ ''}''"

definition buildBriefUserPrompt :: "brief_input \<Rightarrow> string" where
  "buildBriefUserPrompt i =
     join_with newline
       (brief_lines i
        @ [[], return_line (bi_questions i)])"

end
