(* ===== verification/JudgeBriefProps.thy ===== *)
theory JudgeBriefProps
  imports JudgeBrief "HOL-Library.Multiset"
begin

text \<open>
  What the judge's brief promises: untrusted text cannot leave its block of the prompt, an object
  printed inside a reply is the one the extraction finds, and an accepted answer answers every
  question that was asked, with exactly one ruling per detected item.
\<close>

section \<open>The characters of an encoded value\<close>

lemma set_join_with: "set (join_with sep ss) \<subseteq> set sep \<union> \<Union> (set ` set ss)"
  by (induction sep ss rule: join_with.induct) auto

lemma set_js_own_order: "set (js_own_order fs) \<subseteq> set fs"
  by (auto simp: js_own_order_def Let_def)

definition printable :: "char \<Rightarrow> bool" where
  "printable c \<longleftrightarrow> 32 \<le> (of_char c :: nat)"

lemma printable_escape: "list_all printable (json_escape c)"
proof -
  have "(of_char c :: nat) < 32 \<Longrightarrow> 32 \<le> (of_char (hex_digit ((of_char c :: nat) div 16)) :: nat)
      \<and> 32 \<le> (of_char (hex_digit ((of_char c :: nat) mod 16)) :: nat)"
    by (simp add: hex_digit_def)
  then show ?thesis
    by (auto simp: json_escape_def Let_def printable_def)
qed

lemma printable_quote: "list_all printable (json_quote s)"
proof -
  have "list_all printable (concat (map json_escape s))"
    by (induction s) (simp_all add: printable_escape)
  then show ?thesis by (simp add: json_quote_def printable_def)
qed

lemma printable_join: "list_all printable sep \<Longrightarrow> list_all (list_all printable) ss
    \<Longrightarrow> list_all printable (join_with sep ss)"
  by (induction sep ss rule: join_with.induct) simp_all

lemma printable_members:
  assumes "list_all (\<lambda>(k, s). list_all printable s) ms"
  shows "list_all (list_all printable) (map (\<lambda>(k, s). json_quote k @ '':'' @ s) (js_own_order ms))"
  using assms set_js_own_order [of ms] printable_quote
  by (fastforce simp: list_all_iff printable_def)

lemma printable_stringify:
  "json_stringify (\<lambda>_. ''0'') v = Some s \<Longrightarrow> list_all printable s"
  "list_all (list_all printable) (json_items (\<lambda>_. ''0'') vs)"
  "list_all (\<lambda>(k, s). list_all printable s) (json_members (\<lambda>_. ''0'') ms)"
proof (induction "\<lambda>_ :: rat. ''0''" v and "\<lambda>_ :: rat. ''0''" vs and "\<lambda>_ :: rat. ''0''" ms
    arbitrary: s rule: json_stringify_json_items_json_members.induct)
  case (7 fs)
  then have "list_all (list_all printable) (map (\<lambda>(k, s). json_quote k @ '':'' @ s) (js_own_order (json_members (\<lambda>_. ''0'') fs)))"
    by (intro printable_members) simp
  from printable_join [OF _ this, of "'',''"] 7 show ?case
    by (auto simp: printable_def)
next
  case (6 xs)
  then show ?case by (auto simp: printable_def printable_join)
qed (auto simp: printable_def printable_quote split: option.splits jsnum.splits if_splits)

definition block_char :: "char \<Rightarrow> bool" where
  "block_char c \<longleftrightarrow> printable c \<and> c \<noteq> CHR ''<'' \<and> c \<noteq> CHR ''>''"

lemma block_angle: "printable c \<Longrightarrow> list_all block_char (angle_escape c)"
  by (simp add: angle_escape_def block_char_def printable_def)

lemma block_encode: "list_all block_char (encode_json v)"
proof (cases "json_stringify (\<lambda>_. ''0'') v")
  case None
  then show ?thesis by (simp add: encode_json_def block_char_def printable_def)
next
  case (Some s)
  then have "list_all printable s" by (rule printable_stringify(1))
  then have "list_all block_char (concat (map angle_escape s))"
    by (induction s) (simp_all add: block_angle)
  with Some show ?thesis by (simp add: encode_json_def)
qed

section \<open>Tags and lines\<close>

fun tags_of :: "string \<Rightarrow> string list" where
  "tags_of [] = []"
| "tags_of (c # s) = (if c = CHR ''<'' then takeWhile (\<lambda>x. x \<noteq> CHR ''>'') s # tags_of s else tags_of s)"

lemma tags_skip: "CHR ''<'' \<notin> set a \<Longrightarrow> tags_of (a @ b) = tags_of b"
  by (induction a) auto

lemma tags_none: "CHR ''<'' \<notin> set a \<Longrightarrow> tags_of a = []"
  using tags_skip [of a "[]"] by simp

lemma tags_encode [simp]: "tags_of (encode_json v @ b) = tags_of b"
  using block_encode [of v] by (intro tags_skip) (auto simp: list_all_iff block_char_def)

lemma tags_tagged:
  assumes "CHR ''<'' \<notin> set tag" "CHR ''>'' \<notin> set tag"
  shows "tags_of (tagged tag v) = [tag, CHR ''/'' # tag]"
proof -
  have tw: "takeWhile (\<lambda>x. x \<noteq> CHR ''>'') (tag @ CHR ''>'' # r) = tag" for r
    using assms(2) by (induction tag) auto
  show ?thesis
    using assms by (simp add: tagged_def tags_skip tw)
qed

lemma newline_encode: "CHR 0x0A \<notin> set (encode_json v)"
proof
  assume "CHR 0x0A \<in> set (encode_json v)"
  then have "block_char (CHR 0x0A)" using block_encode [of v] by (simp add: list_all_iff)
  then show False by (simp add: block_char_def printable_def)
qed

lemma newline_tagged: "CHR 0x0A \<notin> set tag \<Longrightarrow> CHR 0x0A \<notin> set (tagged tag v)"
  by (simp add: tagged_def newline_encode)

lemma split_on_none: "c \<notin> set a \<Longrightarrow> split_on c a = [a]"
  by (induction a) auto

lemma split_on_join:
  assumes "\<forall>l \<in> set ls. c \<notin> set l" "ls \<noteq> []"
  shows "split_on c (join_with [c] ls) = ls"
  using assms
proof (induction "[c]" ls rule: join_with.induct)
  case (3 s t ss)
  have "split_on c (s @ c # r) = s # split_on c r" if "c \<notin> set s" for s r
    using that by (induction s) auto
  with 3 show ?case by simp
qed (auto simp: split_on_none)

section \<open>The prompt\<close>

text \<open>The blocks of a prompt, in order.\<close>

definition prompt_blocks :: "brief_evidence \<Rightarrow> string list" where
  "prompt_blocks e =
     [''recipients_json'', ''principal_recipients_json'', ''message_json'', ''task_json'']
     @ (if be_originContent e = None then [] else [''origin_json''])
     @ (if be_senderHistory e = [] then [] else [''history_json''])
     @ [''authority_json'', ''detected_json'', ''progress_json'', ''principal_json'', ''evidence_json'', ''reports_json'']
     @ (if be_principalDecisions e = [] then [] else [''decisions_json''])"

lemma clean_names: "CHR 0x0A \<notin> set (question_name q)" "CHR ''<'' \<notin> set (question_name q)"
    "CHR 0x0A \<notin> set (question_key q)" "CHR 0x0A \<notin> set (band_name b)" "CHR ''<'' \<notin> set (band_name b)"
    "CHR 0x0A \<notin> set (origin_label k)" "CHR ''<'' \<notin> set (origin_label k)"
  by (cases q, simp_all) (cases q, simp_all, cases q, simp_all, (cases b, simp_all)+,
      (cases k, simp_all add: origin_label_def)+)

lemma clean_join:
  "c \<notin> set sep \<Longrightarrow> (\<And>q. c \<notin> set (f q)) \<Longrightarrow> c \<notin> set (join_with sep (map f qs))"
  using set_join_with [of sep "map f qs"] by auto

lemma clean_origin:
  "c \<in> {CHR 0x0A, CHR ''<''} \<Longrightarrow> ls = origin_line e \<Longrightarrow> l \<in> set ls \<Longrightarrow> CHR 0x0A \<notin> set l"
  by (auto simp: origin_line_def clean_names newline_encode newline_tagged split: option.splits if_splits)

lemmas brief_line_defs = brief_lines_def Let_def history_line_def decisions_line_def

lemma brief_lines_clean: "\<forall>l \<in> set (brief_lines i). CHR 0x0A \<notin> set l"
proof -
  have o': "\<forall>l \<in> set (origin_line (bi_evidence i)). CHR 0x0A \<notin> set l"
    using clean_origin by blast
  have q: "CHR 0x0A \<notin> set (join_with '', '' (map question_name (bi_questions i)))"
    by (rule clean_join) (simp_all add: clean_names)
  show ?thesis
    using o' q by (auto simp: brief_line_defs newline_tagged clean_names)
qed

lemma return_line_clean: "CHR 0x0A \<notin> set (return_line qs)"
proof -
  have "CHR 0x0A \<notin> set (join_with '', '' (map question_key qs))"
    by (rule clean_join) (simp_all add: clean_names)
  then show ?thesis by (simp add: return_line_def)
qed

lemma tags_origin:
  "concat (map tags_of (origin_line e)) = (if be_originContent e = None then [] else [''origin_json'', ''/origin_json''])"
  by (simp add: origin_line_def tags_skip clean_names tags_tagged split: option.split)

text \<open>
  C17. Untrusted text cannot break out of the brief. Whatever the message, the evidence, the task titles
  and the sender's history contain, the lines of the prompt are the fixed sequence of its blocks
  and the tags in it are exactly the opening and closing tag of each block, in order, so nothing
  in a value closes its own block or opens another.
\<close>

theorem brief_cannot_be_forged:
  "split_on (CHR 0x0A) (buildBriefUserPrompt i) = brief_lines i @ [[], return_line (bi_questions i)]
   \<and> concat (map tags_of (brief_lines i))
     = concat (map (\<lambda>t. [t, CHR ''/'' # t]) (prompt_blocks (bi_evidence i)))"
proof
  show "split_on (CHR 0x0A) (buildBriefUserPrompt i) = brief_lines i @ [[], return_line (bi_questions i)]"
    unfolding buildBriefUserPrompt_def newline_def
    by (rule split_on_join) (use brief_lines_clean return_line_clean in auto)
  have q: "CHR ''<'' \<notin> set (join_with '', '' (map question_name (bi_questions i)))"
    by (rule clean_join) (simp_all add: clean_names)
  show "concat (map tags_of (brief_lines i))
      = concat (map (\<lambda>t. [t, CHR ''/'' # t]) (prompt_blocks (bi_evidence i)))"
    using q by (simp add: brief_line_defs prompt_blocks_def tags_origin tags_none tags_tagged clean_names)
qed

section \<open>Extraction\<close>

definition passes :: "scan_state \<Rightarrow> string \<Rightarrow> bool" where
  "passes st s \<longleftrightarrow> (\<forall>rest. scan_object st (s @ rest) = (case scan_object st rest of None \<Rightarrow> None | Some x \<Rightarrow> Some (s @ x)))"

abbreviation outside :: "int \<Rightarrow> scan_state" where
  "outside d \<equiv> \<lparr>sc_depth = d, sc_inString = False, sc_escaped = False\<rparr>"

abbreviation inside :: "int \<Rightarrow> scan_state" where
  "inside d \<equiv> \<lparr>sc_depth = d, sc_inString = True, sc_escaped = False\<rparr>"

lemma passes_Nil [simp, intro]: "passes st []"
  by (simp add: passes_def split: option.split)

lemma passes_append [intro]: "passes st a \<Longrightarrow> passes st b \<Longrightarrow> passes st (a @ b)"
  by (simp add: passes_def split: option.split)

lemma passes_concat: "\<forall>s \<in> set ss. passes st s \<Longrightarrow> passes st (concat ss)"
  by (induction ss) (simp_all add: passes_append)

lemma passes_join: "passes st sep \<Longrightarrow> \<forall>s \<in> set ss. passes st s \<Longrightarrow> passes st (join_with sep ss)"
  by (induction sep ss rule: join_with.induct) (simp_all add: passes_append)

definition plain_char :: "char \<Rightarrow> bool" where
  "plain_char c \<longleftrightarrow> c \<notin> {CHR 0x22, CHR ''{'', CHR ''}''}"

lemma passes_plain: "list_all plain_char s \<Longrightarrow> passes (outside d) s"
proof (induction s)
  case (Cons c s)
  then have "passes (outside d) s" by simp
  moreover have "scan_char (outside d) c = Continue (outside d)"
    using Cons.prems by (simp add: scan_char_def plain_char_def)
  ultimately show ?case by (simp add: passes_def split: option.split)
qed simp

lemma hex_digit_plain: "n < 16 \<Longrightarrow> hex_digit n \<noteq> CHR 0x22 \<and> hex_digit n \<noteq> CHR 0x5C"
proof
  assume n: "n < 16"
  have c: "(of_char (hex_digit n) :: nat) = (if n < 10 then 48 + n else 87 + n)"
    using n by (simp add: hex_digit_def)
  show "hex_digit n \<noteq> CHR 0x22" "hex_digit n \<noteq> CHR 0x5C"
    using n c by (auto split: if_splits)
qed

lemma passes_escape: "passes (inside d) (json_escape c)"
proof -
  have "(of_char c :: nat) < 32 \<Longrightarrow> hex_digit ((of_char c :: nat) div 16) \<notin> {CHR 0x22, CHR 0x5C}
      \<and> hex_digit ((of_char c :: nat) mod 16) \<notin> {CHR 0x22, CHR 0x5C}"
    using hex_digit_plain [of "(of_char c :: nat) div 16"] hex_digit_plain [of "(of_char c :: nat) mod 16"] by auto
  then show ?thesis
    by (auto simp: passes_def json_escape_def Let_def scan_char_def split: option.split)
qed

lemma passes_quote: "passes (outside d) (json_quote s)"
proof -
  have "passes (inside d) (concat (map json_escape s))"
    by (rule passes_concat) (simp add: passes_escape)
  then show ?thesis
    by (simp add: passes_def json_quote_def scan_char_def split: option.split)
qed

lemma passes_members:
  assumes "\<forall>(k, s) \<in> set ms. passes (outside d) s"
  shows "passes (outside d) (join_with '','' (map (\<lambda>(k, s). json_quote k @ '':'' @ s) (js_own_order ms)))"
proof (rule passes_join)
  show "passes (outside d) '',''" by (rule passes_plain) (simp add: plain_char_def)
  have "passes (outside d) '':''" by (rule passes_plain) (simp add: plain_char_def)
  moreover have "\<forall>(k, s) \<in> set (js_own_order ms). passes (outside d) s"
    using assms set_js_own_order [of ms] by blast
  ultimately show "\<forall>s \<in> set (map (\<lambda>(k, s). json_quote k @ '':'' @ s) (js_own_order ms)). passes (outside d) s"
    by (auto simp del: append.simps intro!: passes_append passes_quote)
qed

lemma passes_braces:
  assumes "1 \<le> d" "passes (outside (d + 1)) s"
  shows "passes (outside d) (''{'' @ s @ ''}'')"
  using assms by (simp add: passes_def scan_char_def split: option.split)

lemma passes_stringify:
  assumes "\<forall>q. list_all plain_char (ns q)"
  shows "json_stringify ns v = Some s \<Longrightarrow> 1 \<le> d \<Longrightarrow> passes (outside d) s"
    and "1 \<le> d \<Longrightarrow> \<forall>s \<in> set (json_items ns vs). passes (outside d) s"
    and "1 \<le> d \<Longrightarrow> \<forall>(k, s) \<in> set (json_members ns ms). passes (outside d) s"
  using assms
proof (induction ns v and ns vs and ns ms arbitrary: s d and d and d
    rule: json_stringify_json_items_json_members.induct)
  case (6 ns xs)
  have "passes (outside d) (''['' @ join_with '','' (json_items ns xs) @ '']'')"
    using 6 by (intro passes_append passes_join passes_plain) (auto simp: plain_char_def)
  with 6 show ?case by simp
next
  case (7 ns fs)
  have "passes (outside d) (''{'' @ join_with '','' (map (\<lambda>(k, s). json_quote k @ '':'' @ s)
      (js_own_order (json_members ns fs))) @ ''}'')"
    using 7 by (intro passes_braces passes_members) auto
  with 7 show ?case by simp
next
  case (5 ns x)
  then show ?case by (auto simp: passes_quote)
qed (auto simp: plain_char_def intro!: passes_plain split: option.splits jsnum.splits)

text \<open>
  C34. A reply that holds a printed JSON object is read as that object, whatever prose follows and
  whatever prose without a brace precedes it: braces and quotes inside the strings of the
  object do not end it early.
\<close>

theorem extraction_finds_object:
  assumes ns: "\<forall>q. list_all plain_char (ns q)"
    and printed: "json_stringify ns (JObj fs) = Some s"
    and pre: "CHR ''{'' \<notin> set pre"
  shows "extractFirstJsonObject (pre @ s @ post) = Some s"
proof -
  define body where
    "body = join_with '','' (map (\<lambda>(k, s). json_quote k @ '':'' @ s) (js_own_order (json_members ns fs)))"
  have s: "s = CHR ''{'' # body @ ''}''" using printed by (simp add: body_def)
  have "passes (outside 1) body"
    unfolding body_def by (rule passes_members) (rule passes_stringify(3) [OF ns], simp)
  then have scan: "scan_object (outside 0) (s @ post) = Some s"
    by (simp add: s passes_def scan_char_def)
  have "dropWhile (\<lambda>c. c \<noteq> CHR ''{'') (pre @ s @ post) = s @ post"
    using pre by (induction pre) (auto simp: s)
  with scan show ?thesis by (simp add: extractFirstJsonObject_def s)
qed

theorem extraction_finds_object_witness:
  "extractFirstJsonObject (''Sure: '' @ the (json_stringify (\<lambda>_. ''0'') (JObj [(''reason'', JStr ''a } or { b'')])) @ '' {}'')
   = json_stringify (\<lambda>_. ''0'') (JObj [(''reason'', JStr ''a } or { b'')])"
proof -
  obtain s where s: "json_stringify (\<lambda>_. ''0'') (JObj [(''reason'', JStr ''a } or { b'')]) = Some s" by simp
  have "extractFirstJsonObject (''Sure: '' @ s @ '' {}'') = Some s"
    by (rule extraction_finds_object [OF _ s]) (simp_all add: plain_char_def)
  with s show ?thesis by simp
qed

section \<open>What an accepted answer contains\<close>

lemma parse_ruling_id: "parse_ruling remaining x = Some r \<Longrightarrow> dr_id r \<in> set remaining"
  by (auto simp: parse_ruling_def split: jsval.splits option.splits if_splits)

lemma parse_rulings_ids:
  "distinct remaining \<Longrightarrow> parse_rulings remaining xs = Some rs
   \<Longrightarrow> distinct (map dr_id rs) \<and> set (map dr_id rs) \<subseteq> set remaining \<and> length rs = length xs"
proof (induction xs arbitrary: remaining rs)
  case (Cons x xs)
  then obtain r rs' where r: "parse_ruling remaining x = Some r" "rs = r # rs'"
      "parse_rulings (remove1 (dr_id r) remaining) xs = Some rs'"
    by (auto split: option.splits)
  have "distinct (remove1 (dr_id r) remaining)" using Cons.prems(1) by simp
  from Cons.IH [OF this r(3)] r parse_ruling_id [OF r(1)] Cons.prems(1) show ?case
    by auto
qed simp

lemma parseDisclosures_exact:
  assumes "parseDisclosures v ids = Some rs"
  shows "\<exists>is. ids = Some is \<and> is \<noteq> [] \<and> distinct is \<and> mset (map dr_id rs) = mset is"
proof -
  obtain "is" xs where i: "ids = Some is" "is \<noteq> []" "length xs = length is"
      "parse_rulings (remdups is) xs = Some rs"
    using assms by (auto simp: parseDisclosures_def split: option.splits jsval.splits if_splits)
  have r: "distinct (map dr_id rs)" "set (map dr_id rs) \<subseteq> set is" "length rs = length is"
    using parse_rulings_ids [OF _ i(4)] i(3) by simp_all
  have card: "card (set (map dr_id rs)) = length is"
    using r by (metis distinct_card length_map)
  then have "distinct is"
    using r(2) by (metis List.finite_set card_distinct card_length card_mono le_antisym)
  moreover have "set (map dr_id rs) = set is"
    using r(2) card by (metis List.finite_set card_length card_mono card_subset_eq le_antisym)
  ultimately show ?thesis
    using i r(1) by (metis set_eq_iff_mset_eq_distinct)
qed

text \<open>An answer holds what a question asks for, and the frame of the others.\<close>

fun answered :: "brief_question \<Rightarrow> brief_answers \<Rightarrow> bool" where
  "answered QPurpose a = (ba_purpose a \<noteq> None)"
| "answered QSpeaks a = (ba_speaksAsPrincipal a \<noteq> None)"
| "answered QStakes a = (ba_stakes a \<noteq> None)"
| "answered QGrounding a = (ba_unsupportedClaims a \<noteq> None)"
| "answered QNecessity a = (ba_unnecessaryItems a \<noteq> None)"
| "answered QDisclosure a = (ba_disclosures a \<noteq> None)"

lemma parse_question_answers:
  "parse_question obj ids q out = Some a \<Longrightarrow> answered q' a \<longleftrightarrow> q' = q \<or> answered q' out"
  by (cases q; cases q') (auto split: if_splits jsval.splits option.splits)

lemma parse_question_rulings:
  "parse_question obj ids q out = Some a \<Longrightarrow> ba_disclosures a = Some rs
   \<Longrightarrow> ba_disclosures out = Some rs \<or> parseDisclosures (jfield obj ''disclosures'') ids = Some rs"
  by (cases q) (auto split: if_splits jsval.splits option.splits)

lemma parse_questions_answers:
  "parse_questions obj ids qs out = Some a \<Longrightarrow> answered q a \<longleftrightarrow> q \<in> set qs \<or> answered q out"
proof (induction qs arbitrary: out)
  case (Cons x qs)
  then obtain y where "parse_question obj ids x out = Some y" "parse_questions obj ids qs y = Some a"
    by (auto simp: bind_eq_Some_conv)
  with Cons.IH [of y] parse_question_answers [of obj ids x out y q] show ?case by auto
qed simp

lemma parse_questions_rulings:
  "parse_questions obj ids qs out = Some a \<Longrightarrow> ba_disclosures a = Some rs
   \<Longrightarrow> ba_disclosures out = Some rs \<or> parseDisclosures (jfield obj ''disclosures'') ids = Some rs"
  by (induction qs arbitrary: out) (use parse_question_rulings in \<open>force simp: bind_eq_Some_conv\<close>)+

text \<open>
  C33. A verdict that parses answers exactly the questions asked, so a partial answer never reads as a
  pass and a volunteered one is dropped; and its disclosure rulings are exactly one for each
  detected item that was asked about.
\<close>

theorem parsed_verdict_is_complete:
  assumes "parseBriefVerdict parse raw questions ids = Some a"
  shows "(answered q a \<longleftrightarrow> q \<in> set questions)
     \<and> (\<forall>rs. ba_disclosures a = Some rs \<longrightarrow>
          (\<exists>is. ids = Some is \<and> is \<noteq> [] \<and> distinct is \<and> mset (map dr_id rs) = mset is))"
proof -
  obtain obj reason where p: "parse_questions obj ids questions (no_answers reason) = Some a"
    using assms by (auto simp: parseBriefVerdict_def split: option.splits jsval.splits)
  have "\<not> answered q (no_answers reason)" by (cases q) (simp_all add: no_answers_def)
  moreover have "ba_disclosures (no_answers reason) = None" by (simp add: no_answers_def)
  ultimately show ?thesis
    using parse_questions_answers [OF p] parse_questions_rulings [OF p] parseDisclosures_exact
    by (metis option.distinct(1))
qed

theorem parsed_verdict_is_complete_witness:
  "let parse = (\<lambda>_. Some (JObj [(''purpose'', JStr ''serving''), (''speaksAsPrincipal'', JBool True),
         (''disclosures'', JArr [JObj [(''id'', JStr ''P1''), (''basis'', JStr ''directed''), (''requested'', JBool False)]])]));
       a = the (parseBriefVerdict parse ''{}'' [QPurpose, QDisclosure] (Some [''P1'']))
   in \<not> answered QSpeaks a \<and> answered QDisclosure a"
proof -
  define parse :: "string \<Rightarrow> jsval option" where
    "parse = (\<lambda>_. Some (JObj [(''purpose'', JStr ''serving''), (''speaksAsPrincipal'', JBool True),
         (''disclosures'', JArr [JObj [(''id'', JStr ''P1''), (''basis'', JStr ''directed''), (''requested'', JBool False)]])]))"
  have "\<exists>a. parseBriefVerdict parse ''{}'' [QPurpose, QDisclosure] (Some [''P1'']) = Some a"
    by (simp add: parse_def parseBriefVerdict_def extractFirstJsonObject_def stripCodeFence_def starts_with_def
        ends_with_def js_trim_def js_space_def scan_char_def jfield_def parseDisclosures_def parse_ruling_def
        read_basis_def Let_def)
  then obtain a where a: "parseBriefVerdict parse ''{}'' [QPurpose, QDisclosure] (Some [''P1'']) = Some a" by blast
  from parsed_verdict_is_complete [OF a, of QSpeaks] parsed_verdict_is_complete [OF a, of QDisclosure] a
  show ?thesis by (simp add: parse_def Let_def)
qed

end
