(* ===== verification/Disclosure.thy ===== *)
theory Disclosure
  imports JudgeBrief
begin

text \<open>
  The principal's yes or no on a request for personal data (\<open>src/autonomy/disclosure-decisions.ts\<close>):
  the ask an approval carries, the question that is shown, the table of recorded answers and the
  latest answer per recipient and label. \<open>orgDomainsOf\<close> of \<open>src/dispatch/task-outreach-capability.ts\<close>
  is here too, with the registrable domain of a host and the list of hosters as parameters.

  The ellipsis is one character; it has no code below 256, so a control character stands for it.
\<close>

definition ellipsis :: string where
  "ellipsis = [CHR 0x85]"

definition apos :: string where
  "apos = [CHR 0x27]"

definition dquote :: string where
  "dquote = [CHR 0x22]"

section \<open>Identifiers and labels\<close>

text \<open>
  The last \<open><addr>\<close> at the end of the text, when there is one with something in it: backwards from the
  closing bracket up to the first bracket of either kind.
\<close>

definition no_bracket :: "char \<Rightarrow> bool" where
  "no_bracket x \<longleftrightarrow> x \<noteq> CHR ''<'' \<and> x \<noteq> CHR ''>''"

definition angle_core :: "string \<Rightarrow> string option" where
  "angle_core u =
     (case u of
        c # before \<Rightarrow>
          if c \<noteq> CHR ''>'' then None
          else (case dropWhile no_bracket before of
                  x # _ \<Rightarrow> if x = CHR ''<'' \<and> takeWhile no_bracket before \<noteq> []
                           then Some (rev (takeWhile no_bracket before)) else None
                | [] \<Rightarrow> None)
      | [] \<Rightarrow> None)"

definition angle_address :: "string \<Rightarrow> string option" where
  "angle_address s = angle_core (dropWhile js_space (rev s))"

definition normalizeCounterparty :: "string \<Rightarrow> string" where
  "normalizeCounterparty i = js_lower (js_trim (js_or i (angle_address i)))"

definition human_label :: "string \<Rightarrow> string" where
  "human_label l =
     (if l = ''phone_us'' then ''phone number''
      else if l = ''phone_uk_mobile'' then ''mobile number''
      else if l = ''email'' then ''email address''
      else if l = ''credit_card'' then ''card number''
      else if l = ''ssn'' then ''SSN''
      else if l = ''sin_ca'' then ''SIN''
      else ''personal detail'')"

text \<open>A JavaScript \<open>Set\<close> of a list: first occurrences, in order.\<close>

definition js_uniq :: "'a list \<Rightarrow> 'a list" where
  "js_uniq xs = rev (remdups (rev xs))"

definition describePiiLabels :: "string list \<Rightarrow> string" where
  "describePiiLabels labels = js_join '' and '' (js_uniq (map human_label labels))"

section \<open>The ask and its question\<close>

datatype disclosure_decision = SaidYes | SaidNo

datatype disclosure_decider = PrincipalReaction | PrincipalViaCoordinator

record disclosure_ask =
  da_conversationId :: string
  da_counterparties :: "string list"
  da_labels :: "string list"
  da_requester :: string
  da_outreachId :: "string option"
  da_taskTitle :: "string option"
  da_requesterName :: "string option"

definition MAX_NAMED_COUNTERPARTIES :: nat where
  "MAX_NAMED_COUNTERPARTIES = 5"

definition DISPLAY_NAME_MAX :: nat where
  "DISPLAY_NAME_MAX = 60"

text \<open>Runs of the class collapse to one space.\<close>

fun collapse :: "(char \<Rightarrow> bool) \<Rightarrow> string \<Rightarrow> string" where
  "collapse p [] = []"
| "collapse p (c # s) =
     (if p c then (case s of
                     [] \<Rightarrow> [CHR '' '']
                   | d # _ \<Rightarrow> if p d then collapse p s else CHR '' '' # collapse p s)
      else c # collapse p s)"

definition trim_end :: "string \<Rightarrow> string" where
  "trim_end s = rev (dropWhile js_space (rev s))"

definition cut_with_ellipsis :: "nat \<Rightarrow> string \<Rightarrow> string" where
  "cut_with_ellipsis n s = (if n < length s then trim_end (take (n - 1) s) @ ellipsis else s)"

definition displayName :: "string \<Rightarrow> string" where
  "displayName raw =
     cut_with_ellipsis DISPLAY_NAME_MAX
       (js_trim (collapse (\<lambda>c. js_space c \<or> c = CHR ''<'' \<or> c = CHR ''>'' \<or> c = CHR 0x22) raw))"

text \<open>How a count prints is the parameter \<open>num\<close>.\<close>

definition askPreamble :: "(nat \<Rightarrow> string) \<Rightarrow> disclosure_ask \<Rightarrow> string" where
  "askPreamble num ask =
     (let requester = normalizeCounterparty (da_requester ask);
          name = (case da_requesterName ask of
                    None \<Rightarrow> [] | Some n \<Rightarrow> if n = [] then [] else displayName n);
          who = (if name = [] then requester else name @ '' ('' @ requester @ '')'');
          others = filter (\<lambda>c. c \<noteq> requester) (js_uniq (map normalizeCounterparty (da_counterparties ask)));
          named = take MAX_NAMED_COUNTERPARTIES others;
          more = length others - length named;
          alsoTo = (if others = [] then []
                    else '' The message also goes to '' @ js_join '', '' named
                         @ (if 0 < more then '' and '' @ num more @ '' more'' else [])
                         @ '', and a yes covers them too.'');
          forTask = (case da_taskTitle ask of
                       None \<Rightarrow> []
                     | Some t \<Rightarrow> if t = [] then [] else '' for '' @ dquote @ t @ dquote)
      in who @ '' is asking for your '' @ describePiiLabels (da_labels ask) @ forTask @ ''.'' @ alsoTo
         @ '' Share it? Reply yes to send the message below as written, or no to keep it private.'')"

definition isNonEmptyString :: "jsval \<Rightarrow> string option" where
  "isNonEmptyString v = (case v of JStr s \<Rightarrow> if js_trim s \<noteq> [] then Some s else None | _ \<Rightarrow> None)"

definition nonEmptyStrings :: "jsval \<Rightarrow> string list option" where
  "nonEmptyStrings v =
     (case v of
        JArr xs \<Rightarrow> if xs \<noteq> [] \<and> list_all (\<lambda>x. isNonEmptyString x \<noteq> None) xs
                   then Some (map (\<lambda>x. the (isNonEmptyString x)) xs) else None
      | _ \<Rightarrow> None)"

definition readDisclosureAsk :: "jsval \<Rightarrow> disclosure_ask option" where
  "readDisclosureAsk raw =
     (case raw of
        JObj o' \<Rightarrow>
          (case (isNonEmptyString (jfield o' ''conversationId''), nonEmptyStrings (jfield o' ''counterparties''),
                 nonEmptyStrings (jfield o' ''labels''), isNonEmptyString (jfield o' ''requester'')) of
             (Some conv, Some cps, Some ls, Some req) \<Rightarrow>
               if jfield o' ''outreachId'' \<noteq> JUndef \<and> isNonEmptyString (jfield o' ''outreachId'') = None then None
               else Some \<lparr>da_conversationId = conv,
                          da_counterparties = js_uniq (map normalizeCounterparty cps),
                          da_labels = js_uniq ls,
                          da_requester = normalizeCounterparty req,
                          da_outreachId = isNonEmptyString (jfield o' ''outreachId''),
                          da_taskTitle = isNonEmptyString (jfield o' ''taskTitle''),
                          da_requesterName =
                            (case isNonEmptyString (jfield o' ''requesterName'') of
                               None \<Rightarrow> None
                             | Some n \<Rightarrow> if displayName n = [] then None else Some (displayName n))\<rparr>
           | _ \<Rightarrow> None)
      | _ \<Rightarrow> None)"

section \<open>The table of answers\<close>

record decision_row =
  dd_id :: nat
  dd_conversationId :: string
  dd_counterparty :: string
  dd_label :: string
  dd_decision :: disclosure_decision
  dd_decidedBy :: disclosure_decider
  dd_actionRef :: "string option"
  dd_createdAt :: ms

record decisions_db =
  ddb_rows :: "decision_row list"
  ddb_nextId :: nat

text \<open>One statement inserts all rows, at one time and with consecutive ids.\<close>

fun number_rows :: "nat \<Rightarrow> decision_row list \<Rightarrow> decision_row list" where
  "number_rows n [] = []"
| "number_rows n (r # rs) = r\<lparr>dd_id := n\<rparr> # number_rows (Suc n) rs"

definition record_decisions :: "ms \<Rightarrow> decision_row list \<Rightarrow> decisions_db \<Rightarrow> decisions_db" where
  "record_decisions now rows db =
     (if rows = [] then db
      else db\<lparr>ddb_rows := ddb_rows db
                @ number_rows (ddb_nextId db)
                    (map (\<lambda>r. r\<lparr>dd_counterparty := normalizeCounterparty (dd_counterparty r), dd_createdAt := now\<rparr>) rows),
              ddb_nextId := ddb_nextId db + length rows\<rparr>)"

text \<open>The order of the query: by time, then by id, the newest row of a group first.\<close>

definition newer_row :: "decision_row \<Rightarrow> decision_row \<Rightarrow> bool" where
  "newer_row a b \<longleftrightarrow> dd_createdAt b < dd_createdAt a \<or> (dd_createdAt b = dd_createdAt a \<and> dd_id b < dd_id a)"

fun newest_row :: "decision_row list \<Rightarrow> decision_row option" where
  "newest_row [] = None"
| "newest_row (r # rs) =
     (case newest_row rs of None \<Rightarrow> Some r | Some q \<Rightarrow> Some (if newer_row r q then r else q))"

record decision_answer =
  dn_counterparty :: string
  dn_label :: string
  dn_decision :: disclosure_decision

definition answer_of :: "decision_row \<Rightarrow> decision_answer" where
  "answer_of r = \<lparr>dn_counterparty = dd_counterparty r, dn_label = dd_label r, dn_decision = dd_decision r\<rparr>"

text \<open>One answer per group. The database orders the groups by its collation; here they come in table order.\<close>

definition latestFor :: "decisions_db \<Rightarrow> string \<Rightarrow> string list \<Rightarrow> decision_answer list" where
  "latestFor db conv counterparties =
     (let who = js_uniq (map normalizeCounterparty counterparties);
          found = filter (\<lambda>r. dd_conversationId r = conv \<and> dd_counterparty r \<in> set who) (ddb_rows db);
          keys = js_uniq (map (\<lambda>r. (dd_counterparty r, dd_label r)) found)
      in if who = [] then []
         else map (\<lambda>(c, l). answer_of (the (newest_row (filter (\<lambda>r. dd_counterparty r = c \<and> dd_label r = l) found)))) keys)"

section \<open>The recorder\<close>

record approval_row =
  ap_id :: nat
  ap_shortRef :: "string option"
  ap_disclosureAsk :: "disclosure_ask option"

datatype learn_call = LearnCounterparty (lc_outreachId: string) (lc_address: string)

record recorder_env =
  rv_now :: ms
  rv_recordFails :: bool
  rv_outreachWired :: bool

definition ask_rows :: "approval_row \<Rightarrow> disclosure_ask \<Rightarrow> disclosure_decision \<Rightarrow> disclosure_decider
    \<Rightarrow> decision_row list" where
  "ask_rows row ask decision decidedBy =
     concat (map (\<lambda>c. map (\<lambda>l. \<lparr>dd_id = 0, dd_conversationId = da_conversationId ask, dd_counterparty = c,
         dd_label = l, dd_decision = decision, dd_decidedBy = decidedBy,
         dd_actionRef = (case ap_shortRef row of None \<Rightarrow> None | Some r \<Rightarrow> if r = [] then None else Some r),
         dd_createdAt = 0\<rparr>) (da_labels ask)) (da_counterparties ask))"

text \<open>A statement that fails is logged and inserts nothing; the call that learns the requester is an output.\<close>

definition recordForApproval :: "recorder_env \<Rightarrow> approval_row \<Rightarrow> disclosure_decision \<Rightarrow> disclosure_decider
    \<Rightarrow> decisions_db \<Rightarrow> learn_call list \<times> decisions_db" where
  "recordForApproval env row decision decidedBy db =
     (case ap_disclosureAsk row of
        None \<Rightarrow> ([], db)
      | Some ask \<Rightarrow>
          (let db' = (if rv_recordFails env then db
                      else record_decisions (rv_now env) (ask_rows row ask decision decidedBy) db)
           in (case da_outreachId ask of
                 Some oid \<Rightarrow>
                   if decision = SaidYes \<and> oid \<noteq> [] \<and> rv_outreachWired env
                   then ([LearnCounterparty oid (da_requester ask)], db') else ([], db')
               | None \<Rightarrow> ([], db'))))"

section \<open>Organization domains\<close>

text \<open>Splitting at the last \<open>@\<close>.\<close>

definition host_of :: "string \<Rightarrow> string option" where
  "host_of address = (if CHR ''@'' \<in> set address
     then Some (rev (takeWhile (\<lambda>c. c \<noteq> CHR ''@'') (rev address))) else None)"

definition orgDomainsOf :: "(string \<Rightarrow> string option) \<Rightarrow> (string \<Rightarrow> bool) \<Rightarrow> string list \<Rightarrow> string list \<Rightarrow> string list" where
  "orgDomainsOf registrableDomain isNonOrgDomain addresses exclude =
     js_uniq (concat (map (\<lambda>address.
       (case host_of address of
          None \<Rightarrow> []
        | Some host \<Rightarrow>
            (case registrableDomain host of
               None \<Rightarrow> []
             | Some domain \<Rightarrow>
                 if domain \<noteq> [] \<and> \<not> isNonOrgDomain host \<and> domain \<notin> set exclude \<and> js_lower host \<notin> set exclude
                 then [domain] else []))) addresses))"

end
