(* ===== verification/BandReview.thy ===== *)
theory BandReview
  imports Disclosure RelayBudget
begin

text \<open>
  The review of a send under band gating (\<open>src/dispatch/band-send-review.ts\<close>): what the judge is
  asked, what its answers do, who has the authority to disclose an item, and the ledger that lets a
  draft bounce once.

  The evidence collector, the judge, the lookup of a contact's tier and the clock are fields of an
  environment. \<open>review\<close> reads the ledger, waits for the collector and the judge, and writes the
  ledger: \<open>review_rest\<close> is everything after the read, for any entry that was read, so statements
  about it hold under interleavings; \<open>review\<close> is one review that nothing interleaves with. The
  findings and reasons are the sentences of the code; log lines are left out.
\<close>

section \<open>Findings and decisions\<close>

datatype band_rule = RUngrounded | RUnneeded | RSteered | RSpeaks | RUnreviewed | RPii | RToken

fun BAND_RULES :: "band_rule \<Rightarrow> string" where
  "BAND_RULES RUngrounded = ''ungrounded-claim''"
| "BAND_RULES RUnneeded = ''unneeded-disclosure''"
| "BAND_RULES RSteered = ''steered''"
| "BAND_RULES RSpeaks = ''speaks-as-principal''"
| "BAND_RULES RUnreviewed = ''review-unavailable''"
| "BAND_RULES RPii = ''pii-not-authorized''"
| "BAND_RULES RToken = ''redaction-token''"

record band_finding =
  bf_rule :: band_rule
  bf_detail :: string

abbreviation finding :: "band_rule \<Rightarrow> string \<Rightarrow> band_finding" where
  "finding r d \<equiv> \<lparr>bf_rule = r, bf_detail = d\<rparr>"

record review_signals =
  rs_speaksAsPrincipal :: bool
  rs_bounced :: bool

record review_ask =
  ra_labels :: "string list"
  ra_requester :: string
  ra_counterparties :: "string list"
  ra_taskTitle :: "string option"
  ra_outreachId :: "string option"

text \<open>An absent \<open>heldBeside\<close> is the empty list.\<close>

datatype band_decision =
    DSend (ds_report: "string option") (ds_signals: "review_signals option") (ds_dropQuote: "string list option")
  | DBounce (db_findings: "band_finding list") (db_stranger: "(string list \<times> string) option")
      (db_heldBeside: "band_finding list")
  | DBlock (dk_reason: string) (dk_findings: "band_finding list") (dk_heldBeside: "band_finding list")
  | DHold (dh_reason: string) (dh_findings: "band_finding list") (dh_ask: "review_ask option")

definition hold_for :: "band_rule \<Rightarrow> string \<Rightarrow> band_decision" where
  "hold_for r reason = DHold reason [finding r reason] None"

text \<open>A review reads its input and keeps nothing of it.\<close>

record review_input =
  ri_content :: string
  ri_channel :: string
  ri_recipients :: "string list"
  ri_principalRecipients :: "string list option"
  ri_score :: jsnum
  ri_conversationId :: "string option"
  ri_taskEventId :: "string option"
  ri_principalDirected :: bool
  ri_reportedToPrincipal :: "string option"
  ri_detectedItems :: "detected_item list"
  ri_recipientTier :: "contact_tier option"
  ri_recipientTiers :: "(string \<times> contact_tier) list option"
  ri_subject :: "string option"
  ri_recipientContactIds :: "(string \<times> string) list"

record collected_evidence =
  ce_unavailable :: bool
  ce_originUnresolved :: bool
  ce_evidence :: brief_evidence
  ce_decisions :: "decision_answer list option"
  ce_linkedOutreachId :: "string option"

record review_env =
  rv_judgeEnabled :: bool \<comment> \<open>a judge is wired and enabled\<close>
  rv_collect :: "string list \<Rightarrow> string option \<Rightarrow> string list \<Rightarrow> collected_evidence"
  rv_judge :: "brief_input \<Rightarrow> brief_verdict"
  rv_contactTier :: "string \<Rightarrow> unit + contact_tier option" \<comment> \<open>\<open>Inl\<close>: the lookup throws\<close>
  rv_orgDomains :: "string list \<Rightarrow> string list" \<comment> \<open>\<open>orgDomainsOf\<close> with the principal's own domains left out\<close>
  rv_reportEvidence :: "string \<Rightarrow> string" \<comment> \<open>a report with secrets removed and cut to size\<close>
  rv_start :: ms \<comment> \<open>the clock when the ledger is read\<close>
  rv_end :: ms \<comment> \<open>the clock when the outcome is settled\<close>

record ledger_entry =
  le_taskEventIds :: "string list"
  le_at :: ms
  le_rules :: "band_rule list"

record band_state =
  bs_bounced :: "(string \<times> ledger_entry) list"
  bs_limiter :: fail_open

section \<open>Constants\<close>

definition BOUNCE_TTL_MS :: ms where
  "BOUNCE_TTL_MS = 30 * 60000"

definition MAX_REVIEWED_ITEMS :: nat where
  "MAX_REVIEWED_ITEMS = 10"

definition STAKES_REASON_MAX :: nat where
  "STAKES_REASON_MAX = 200"

definition TASK_TITLE_MAX :: nat where
  "TASK_TITLE_MAX = 80"

definition ALL_QUESTIONS :: "brief_question list" where
  "ALL_QUESTIONS = [QPurpose, QSpeaks, QStakes, QGrounding, QNecessity]"

fun STAKES_MIN_SCORE :: "send_stakes \<Rightarrow> rat option" where
  "STAKES_MIN_SCORE Routine = Some 80"
| "STAKES_MIN_SCORE Commitment = Some 90"
| "STAKES_MIN_SCORE FinancialOrLegal = None"

fun STAKES_LABEL :: "send_stakes \<Rightarrow> string" where
  "STAKES_LABEL Routine = ''routine''"
| "STAKES_LABEL Commitment = ''commitment''"
| "STAKES_LABEL FinancialOrLegal = ''financial or legal''"

definition STAKES_HOLD_LEAD :: "send_stakes \<Rightarrow> string" where
  "STAKES_HOLD_LEAD st =
     (case st of
        Routine \<Rightarrow> ''Held for the principal: this message speaks for or commits the principal, and the autonomy band asks first for that.''
      | Commitment \<Rightarrow> ''Held for the principal: this message commits the principal, and Curia sends a commitment without asking only at 90 or above.''
      | FinancialOrLegal \<Rightarrow> ''Held for the principal: this message commits the principal on money or legal terms, which always needs the principal'' @ apos @ ''s approval.'')"

definition TOO_MANY_DETAIL :: string where
  "TOO_MANY_DETAIL = ''This message contains more personal details than can be reviewed at once. Send fewer, or split the message.''"

definition TOKEN_DETAIL :: string where
  "TOKEN_DETAIL = ''This message contains a redaction placeholder. Rewrite it with the real content or without that part.''"

definition UNREVIEWED_BELOW_80_REASON :: string where
  "UNREVIEWED_BELOW_80_REASON = ''Held for the principal: the reviewer was unavailable, and this band asks first when it is.''"

definition ORIGIN_UNRESOLVED_REASON :: string where
  "ORIGIN_UNRESOLVED_REASON = ''Held for the principal: the message that started this delegated work could not be read, so the reviewer could not check who it serves.''"

definition STAKES_UNREVIEWED_REASON :: string where
  "STAKES_UNREVIEWED_REASON = ''Held for the principal: the reviewer was unavailable, so what this message commits the principal to is unrated and treated as financial or legal. Stakes: financial or legal (unrated).''"

definition BLOCK_REASON :: string where
  "BLOCK_REASON = ''Not sent: after one rewrite it still has the problems below. Rewrite it again without them, or tell the principal.''"

definition REWRITTEN_REASON :: string where
  "REWRITTEN_REASON = ''Held for the principal: after one rewrite it still has personal details nothing authorizes, or a redaction placeholder.''"

definition STEERED_REASON :: string where
  "STEERED_REASON = ''Held for the principal: the reviewer judged this send to be steered by someone outside the principal'' @ apos @ ''s business.''"

definition CLAIMS_REASON :: string where
  "CLAIMS_REASON = ''Held for the principal: it still states things about the principal that nothing looked up supports.''"

definition LIMITER_REASON :: string where
  "LIMITER_REASON = ''Held for the principal: the reviewer has been unavailable for several sends in a row.''"

section \<open>Text\<close>

text \<open>\<open>haystack.includes(needle)\<close>: the needle starts at some position.\<close>

fun js_includes :: "string \<Rightarrow> string \<Rightarrow> bool" where
  "js_includes [] needle = (needle = [])"
| "js_includes (c # s) needle = (starts_with needle (c # s) \<or> js_includes s needle)"

definition token_char :: "char \<Rightarrow> bool" where
  "token_char c = (let n = (of_char c :: nat) in (65 \<le> n \<and> n \<le> 90) \<or> (48 \<le> n \<and> n \<le> 57) \<or> n = 95)"

text \<open>A placeholder that starts at the first character.\<close>

definition token_at :: "string \<Rightarrow> bool" where
  "token_at s =
     (let rest = drop 11 s
      in starts_with ''[REDACTED: '' s \<and> takeWhile token_char rest \<noteq> []
         \<and> starts_with '']'' (dropWhile token_char rest))"

fun REDACTION_TOKEN :: "string \<Rightarrow> bool" where
  "REDACTION_TOKEN [] = False"
| "REDACTION_TOKEN (c # s) = (token_at (c # s) \<or> REDACTION_TOKEN s)"

definition containsFolded :: "string \<Rightarrow> string \<Rightarrow> bool" where
  "containsFolded haystack needle =
     (let n = js_lower (js_trim needle) in n \<noteq> [] \<and> js_includes (js_lower haystack) n)"

definition overlaps :: "string \<Rightarrow> string \<Rightarrow> bool" where
  "overlaps a b \<longleftrightarrow> containsFolded a b \<or> containsFolded b a"

definition quoted_text :: "string \<Rightarrow> string" where
  "quoted_text c = dquote @ c @ dquote"

section \<open>Recipients\<close>

definition bareId :: "string \<Rightarrow> string" where
  "bareId = normalizeCounterparty"

definition principal_ids :: "review_input \<Rightarrow> string list" where
  "principal_ids i = map bareId (js_or [] (ri_principalRecipients i))"

definition primaryRequester :: "review_input \<Rightarrow> string option" where
  "primaryRequester i = find (\<lambda>r. bareId r \<notin> set (principal_ids i)) (ri_recipients i)"

definition nonPrincipalRecipients :: "review_input \<Rightarrow> string list" where
  "nonPrincipalRecipients i =
     js_uniq (filter (\<lambda>r. r \<notin> set (principal_ids i)) (map bareId (ri_recipients i)))"

text \<open>A map built from pairs: a later pair of a key overwrites an earlier one.\<close>

definition js_map_get :: "('k \<times> 'v) list \<Rightarrow> 'k \<Rightarrow> 'v option" where
  "js_map_get kvs k = map_of (rev kvs) k"

definition principalSaid :: "string list \<Rightarrow> decision_answer list \<Rightarrow> string \<Rightarrow> disclosure_decision option" where
  "principalSaid recipients decisions label =
     (let latest = map (\<lambda>d. ((normalizeCounterparty (dn_counterparty d), dn_label d), dn_decision d)) decisions;
          answers = map (\<lambda>r. js_map_get latest (r, label)) recipients
      in if recipients = [] then None
         else if Some SaidNo \<in> set answers then Some SaidNo
         else if list_all (\<lambda>a. a = Some SaidYes) answers then Some SaidYes
         else None)"

definition describeDecisions :: "decision_answer list option \<Rightarrow> string list \<Rightarrow> string list" where
  "describeDecisions decisions recipients =
     map (\<lambda>label.
            (case principalSaid recipients (js_or [] decisions) label of
               Some a \<Rightarrow> ''The principal already said '' @ (case a of SaidYes \<Rightarrow> ''yes'' | SaidNo \<Rightarrow> ''no'')
                  @ '' to sharing '' @ describePiiLabels [label] @ '' with this recipient on this thread.''
             | None \<Rightarrow> ''The principal answered about sharing '' @ describePiiLabels [label]
                  @ '' for some of the recipients only, on this thread.''))
       (js_uniq (map dn_label (js_or [] decisions)))"

definition recipientTierOf :: "review_input \<Rightarrow> string \<Rightarrow> contact_tier option" where
  "recipientTierOf i r =
     (case ri_recipientTiers i of
        Some tiers \<Rightarrow> js_map_get (map (\<lambda>(k, v). (bareId k, v)) tiers) r
      | None \<Rightarrow> if Some r = map_option bareId (primaryRequester i) then ri_recipientTier i else None)"

section \<open>Authority\<close>

datatype authority = AuthPrincipal | AuthPrincipalTask | AuthNone

definition principal_role :: "send_originator option \<Rightarrow> bool" where
  "principal_role og \<longleftrightarrow> Option.bind og sg_systemRole = Some RPrincipal"

definition linkToPrincipalTask :: "send_authority option \<Rightarrow> bool" where
  "linkToPrincipalTask a \<longleftrightarrow>
     (case Option.bind a sa_linkedTask of
        None \<Rightarrow> False
      | Some l \<Rightarrow> principal_role (lt_originator l)
                  \<or> (case lt_root l of None \<Rightarrow> False | Some r \<Rightarrow> principal_role (lr_originator r)))"

definition strong_link :: "send_authority option \<Rightarrow> bool" where
  "strong_link a \<longleftrightarrow> map_option lt_strength (Option.bind a sa_linkedTask) = Some StrongLink"

definition linkCoverage :: "review_env \<Rightarrow> review_input \<Rightarrow> send_authority option \<Rightarrow> string \<Rightarrow> bool" where
  "linkCoverage env i a r =
     (case Option.bind (Option.bind a sa_linkedTask) lt_counterparty of
        None \<Rightarrow> False
      | Some cp \<Rightarrow>
          (let sender = map_option (\<lambda>g. bareId (sg_contactId g)) (Option.bind a sa_originator);
               senderContact = (case sender of None \<Rightarrow> None | Some s \<Rightarrow> if uuid_shape s then Some s else None);
               contact = js_map_get (map (\<lambda>(k, v). (bareId k, js_lower (js_trim v))) (ri_recipientContactIds i)) r
           in r \<in> set (cp_addresses cp)
              \<or> (case contact of
                   None \<Rightarrow> False
                 | Some c \<Rightarrow> Some c = senderContact \<or> c \<in> set (cp_contactIds cp))
              \<or> list_ex (\<lambda>d. d \<in> set (cp_domains cp)) (rv_orgDomains env [r])))"

definition trustedOriginator :: "review_env \<Rightarrow> send_originator option \<Rightarrow> disclosure_ruling list \<Rightarrow> bool" where
  "trustedOriginator env og rulings =
     (case og of
        None \<Rightarrow> False
      | Some g \<Rightarrow>
          if sg_tier g \<noteq> Some TTrusted \<or> \<not> sg_authenticated g \<or> \<not> list_ex (\<lambda>r. dr_basis r = Directed) rulings
          then False
          else rv_contactTier env (sg_contactId g) = Inr (Some TTrusted))"

definition authorityOf :: "review_env \<Rightarrow> send_authority option \<Rightarrow> disclosure_ruling list \<Rightarrow> bool
    \<Rightarrow> authority \<times> bool" where
  "authorityOf env a rulings linkCovers =
     (case a of
        None \<Rightarrow> (AuthNone, False)
      | Some sa \<Rightarrow>
          if principal_role (sa_originator sa) then (AuthPrincipal, False)
          else (let task = principal_role (Option.bind (sa_boundTask sa) at_originator)
                      \<or> principal_role (Option.bind (sa_rootTask sa) at_originator)
                      \<or> (linkCovers \<and> strong_link a \<and> linkToPrincipalTask a)
                in (if task then AuthPrincipalTask else AuthNone, trustedOriginator env (sa_originator sa) rulings)))"

definition askTaskTitle :: "send_authority option \<Rightarrow> authority \<Rightarrow> bool \<Rightarrow> string option" where
  "askTaskTitle a who linkCovers =
     (if who \<noteq> AuthPrincipalTask then None
      else
        (let link = Option.bind a sa_linkedTask;
             bound = Option.bind a sa_boundTask;
             viaLink = linkCovers \<and> strong_link a \<and> linkToPrincipalTask a;
             raw = (if viaLink
                    then (case Option.bind link lt_title of
                            Some t \<Rightarrow> Some t
                          | None \<Rightarrow> map_option lr_title (Option.bind link lt_root))
                    else if principal_role (Option.bind bound at_originator) then map_option at_title bound
                    else map_option at_title (Option.bind a sa_rootTask));
             title = map_option (\<lambda>t. js_trim (map (\<lambda>c. if c = CHR 0x22 then CHR 0x27 else c) (collapse js_space t))) raw
         in case title of
              None \<Rightarrow> None
            | Some t \<Rightarrow> if t = [] then None else Some (cut_with_ellipsis TASK_TITLE_MAX t)))"

section \<open>Combining outcomes\<close>

fun STRICTNESS :: "band_decision \<Rightarrow> nat" where
  "STRICTNESS (DSend _ _ _) = 0"
| "STRICTNESS (DBounce _ _ _) = 1"
| "STRICTNESS (DHold _ _ _) = 2"
| "STRICTNESS (DBlock _ _ _) = 3"

fun is_hold :: "band_decision \<Rightarrow> bool" where
  "is_hold (DHold _ _ _) = True"
| "is_hold _ = False"

fun is_send :: "band_decision \<Rightarrow> bool" where
  "is_send (DSend _ _ _) = True"
| "is_send _ = False"

fun is_bounce :: "band_decision \<Rightarrow> bool" where
  "is_bounce (DBounce _ _ _) = True"
| "is_bounce _ = False"

fun asks :: "band_decision \<Rightarrow> bool" where
  "asks (DHold _ _ a) = (a \<noteq> None)"
| "asks _ = False"

fun rewritesDetails :: "band_decision \<Rightarrow> bool" where
  "rewritesDetails (DBounce fs _ _) = list_ex (\<lambda>f. bf_rule f = RPii) fs"
| "rewritesDetails _ = False"

fun withHeldBeside :: "band_decision \<Rightarrow> band_decision \<Rightarrow> band_decision" where
  "withHeldBeside (DBounce fs sr hb) (DHold _ gs _) = DBounce fs sr (hb @ gs)"
| "withHeldBeside (DBlock r fs hb) (DHold _ gs _) = DBlock r fs (hb @ gs)"
| "withHeldBeside d _ = d"

fun steeredOnly :: "band_decision \<Rightarrow> bool" where
  "steeredOnly (DHold _ fs a) =
     (a = None \<and> list_ex (\<lambda>f. bf_rule f = RSteered) fs
      \<and> list_all (\<lambda>f. bf_rule f = RSteered \<or> bf_rule f = RSpeaks) fs)"
| "steeredOnly _ = False"

definition js_coalesce :: "'a option \<Rightarrow> 'a option \<Rightarrow> 'a option" where
  "js_coalesce a b = (case a of None \<Rightarrow> b | Some x \<Rightarrow> Some x)"

definition merge_signals :: "review_signals option \<Rightarrow> review_signals option \<Rightarrow> review_signals option" where
  "merge_signals a b =
     (case (a, b) of
        (None, None) \<Rightarrow> None
      | (Some s, None) \<Rightarrow> Some s
      | (None, Some s) \<Rightarrow> Some s
      | (Some s, Some t) \<Rightarrow> Some \<lparr>rs_speaksAsPrincipal = (rs_speaksAsPrincipal s \<or> rs_speaksAsPrincipal t),
                                rs_bounced = (rs_bounced s \<or> rs_bounced t)\<rparr>)"

text \<open>Outcomes of one kind merge.\<close>

fun merge_same :: "band_decision \<Rightarrow> band_decision \<Rightarrow> band_decision" where
  "merge_same (DSend r1 s1 q1) (DSend r2 s2 q2) =
     DSend (js_coalesce r1 r2) (merge_signals s1 s2)
       (if q1 = None \<and> q2 = None then None else Some (js_uniq (js_or [] q1 @ js_or [] q2)))"
| "merge_same (DBounce f1 s1 h1) (DBounce f2 s2 h2) = DBounce (f1 @ f2) (js_coalesce s1 s2) (h1 @ h2)"
| "merge_same (DBlock r1 f1 h1) (DBlock _ f2 h2) = DBlock r1 (f1 @ f2) (h1 @ h2)"
| "merge_same (DHold r1 f1 a1) (DHold r2 f2 a2) =
     (let plain = (if a1 \<noteq> None then f2 else f1)
      in if (a1 \<noteq> None \<or> a2 \<noteq> None) \<and> \<not> (a1 \<noteq> None \<and> a2 \<noteq> None) \<and> list_all (\<lambda>f. bf_rule f = RSpeaks) plain
         then DHold (if a1 \<noteq> None then r1 else r2) (f1 @ f2) (js_coalesce a1 a2)
         else DHold r1 (f1 @ f2) None)"
| "merge_same a _ = a"

fun is_block :: "band_decision \<Rightarrow> bool" where
  "is_block (DBlock _ _ _) = True"
| "is_block _ = False"

definition combine :: "band_decision \<Rightarrow> band_decision \<Rightarrow> band_decision" where
  "combine a b =
     (if is_bounce a \<and> asks b then a
      else if is_bounce b \<and> asks a then b
      else if rewritesDetails a \<and> steeredOnly b then withHeldBeside a b
      else if rewritesDetails b \<and> steeredOnly a then withHeldBeside b a
      else if is_block a \<and> is_hold b then withHeldBeside a b
      else if is_block b \<and> is_hold a then withHeldBeside b a
      else if STRICTNESS a \<noteq> STRICTNESS b then (if STRICTNESS b < STRICTNESS a then a else b)
      else merge_same a b)"

definition quote_labels :: "detected_item list \<Rightarrow> string list" where
  "quote_labels items = js_uniq (map di_label items)"

definition withoutQuote :: "band_decision \<Rightarrow> detected_item list \<Rightarrow> band_decision" where
  "withoutQuote d quoted =
     (case d of
        DSend r s _ \<Rightarrow> if quoted = [] then d else DSend r s (Some (quote_labels quoted))
      | _ \<Rightarrow> d)"

end
