(* ===== verification/BandReviewRun.thy ===== *)
theory BandReviewRun
  imports BandReview
begin

text \<open>
  The operations of the class \<open>BandSendReview\<close> (\<open>src/dispatch/band-send-review.ts\<close>): the rules other
  than disclosure, the disclosure policy item by item, what happens when the judge does not answer,
  the one-bounce ledger and the review itself.
\<close>

section \<open>The rules other than disclosure\<close>

definition stakesHold :: "brief_answers \<Rightarrow> jsnum \<Rightarrow> band_finding option" where
  "stakesHold v score =
     (let stakes = js_or FinancialOrLegal (ba_stakes v)
      in if (case STAKES_MIN_SCORE stakes of None \<Rightarrow> False | Some m \<Rightarrow> num_le (Fin m) score) then None
         else (let stated = js_or [] (ba_stakesReason v);
                   why = js_trim (collapse js_space (if js_trim stated \<noteq> [] then stated else ba_reason v));
                   shown = cut_with_ellipsis STAKES_REASON_MAX why
               in Some (finding RSpeaks
                    (STAKES_HOLD_LEAD stakes @ '' Stakes: '' @ STAKES_LABEL stakes @ ''.''
                     @ (if shown = [] then [] else '' Why: '' @ shown)))))"

text \<open>Quotes of the judge that are verbatim in the message and hold no detected value.\<close>

definition in_message :: "string \<Rightarrow> detected_item list \<Rightarrow> string list \<Rightarrow> string list" where
  "in_message content detected quotes =
     filter (\<lambda>q. q \<noteq> [] \<and> js_includes content q \<and> \<not> list_ex (\<lambda>d. containsFolded q (di_text d)) detected)
       (map js_trim quotes)"

definition claims_finding :: "string list \<Rightarrow> band_finding" where
  "claims_finding shown = finding RUngrounded
     (if shown \<noteq> []
      then ''These claims about the principal are not backed by anything you looked up this turn: ''
        @ js_join ''; '' (map quoted_text shown) @ ''. Verify them with your tools or remove them.''
      else ''Some statements about the principal are not backed by anything you looked up this turn. Verify them with your tools or remove them.'')"

definition unneeded_finding :: "string list \<Rightarrow> band_finding" where
  "unneeded_finding shown = finding RUnneeded
     (if shown \<noteq> []
      then ''This message shares details its purpose does not need: ''
        @ js_join ''; '' (map quoted_text shown) @ ''. Remove them unless the recipient needs them.''
      else ''This message shares details its purpose does not need. Remove them unless the recipient needs them.'')"

definition bounceFindings :: "string \<Rightarrow> string list \<Rightarrow> string list \<Rightarrow> detected_item list \<Rightarrow> band_finding list" where
  "bounceFindings content claims unneeded detected =
     (if claims \<noteq> [] then [claims_finding (in_message content detected claims)] else [])
     @ (if unneeded \<noteq> [] then [unneeded_finding (in_message content detected unneeded)] else [])"

definition otherRulesOutcome :: "review_input \<Rightarrow> brief_answers \<Rightarrow> detected_item list \<Rightarrow> bool \<Rightarrow> band_decision" where
  "otherRulesOutcome i v detected hasPrior =
     (let speaksHeld = (if ba_speaksAsPrincipal v = Some True then stakesHold v (ri_score i) else None);
          held = (case speaksHeld of None \<Rightarrow> [] | Some f \<Rightarrow> [f])
      in if ba_purpose v = Some Steered
         then DHold STEERED_REASON (finding RSteered STEERED_REASON # held) None
         else
           (let claims = js_or [] (ba_unsupportedClaims v);
                unneeded = filter (\<lambda>q. \<not> list_ex (\<lambda>d. overlaps q (di_text d)) detected)
                             (js_or [] (ba_unnecessaryItems v));
                clean = (claims = [] \<and> unneeded = []);
                findings = bounceFindings (ri_content i) claims unneeded detected
            in if held \<noteq> [] \<and> (\<not> isSpotCheckOrAbove (ri_score i) \<or> clean)
               then DHold (bf_detail (hd held)) held None
               else if clean
               then DSend None (Some \<lparr>rs_speaksAsPrincipal = (ba_speaksAsPrincipal v = Some True),
                                     rs_bounced = hasPrior\<rparr>) None
               else if \<not> hasPrior then DBounce findings None held
               else if \<not> isSpotCheckOrAbove (ri_score i) then hold_for RUngrounded CLAIMS_REASON
               else DBlock BLOCK_REASON findings held))"

section \<open>The disclosure policy\<close>

text \<open>Findings the drafter must rewrite away: one bounce, then a block from 80 on or a hold below.\<close>

definition rewriteOutcome :: "review_input \<Rightarrow> band_finding list \<Rightarrow> bool \<Rightarrow> band_decision" where
  "rewriteOutcome i findings hasPrior =
     (if \<not> hasPrior then DBounce findings None []
      else if isSpotCheckOrAbove (ri_score i) then DBlock BLOCK_REASON findings []
      else DHold REWRITTEN_REASON findings None)"

record pii_acc =
  pa_declined :: "string list"
  pa_saidYes :: "string list"
  pa_trustedDirected :: "string list"
  pa_taskDirected :: "string list"
  pa_inferred :: "string list"
  pa_askFirst :: "string list"
  pa_unsupported :: "string list"
  pa_strangerAsked :: "string list"
  pa_askLabels :: "string list"
  pa_heldOtherwise :: bool

definition no_pii :: pii_acc where
  "no_pii = \<lparr>pa_declined = [], pa_saidYes = [], pa_trustedDirected = [], pa_taskDirected = [], pa_inferred = [],
     pa_askFirst = [], pa_unsupported = [], pa_strangerAsked = [], pa_askLabels = [], pa_heldOtherwise = False\<rparr>"

text \<open>Adding to a \<open>Set\<close>, which keeps the order of insertion.\<close>

definition set_add :: "'a \<Rightarrow> 'a list \<Rightarrow> 'a list" where
  "set_add x xs = (if x \<in> set xs then xs else xs @ [x])"

record pii_context =
  pc_who :: authority
  pc_trusted :: bool
  pc_askable :: bool
  pc_spotCheck :: bool
  pc_said :: "string \<Rightarrow> disclosure_decision option"

definition heldForTask :: "pii_context \<Rightarrow> disclosure_ruling \<Rightarrow> string \<Rightarrow> pii_acc \<Rightarrow> pii_acc" where
  "heldForTask c r label acc =
     (if pc_who c = AuthPrincipalTask \<and> dr_requested r \<and> pc_askable c
      then acc\<lparr>pa_askLabels := set_add label (pa_askLabels acc)\<rparr>
      else acc\<lparr>pa_heldOtherwise := True\<rparr>)"

text \<open>The body of the loop over the items: one branch per line of the policy.\<close>

definition pii_item :: "pii_context \<Rightarrow> detected_item \<Rightarrow> disclosure_ruling \<Rightarrow> pii_acc \<Rightarrow> pii_acc" where
  "pii_item c item r acc =
     (let label = di_label item in
      if dr_basis r = Directed \<and> pc_who c = AuthPrincipal then acc
      else if pc_said c label = Some SaidNo then acc\<lparr>pa_declined := set_add label (pa_declined acc)\<rparr>
      else if pc_said c label = Some SaidYes then acc\<lparr>pa_saidYes := set_add label (pa_saidYes acc)\<rparr>
      else if dr_basis r = Directed \<and> pc_trusted c
      then acc\<lparr>pa_trustedDirected := set_add label (pa_trustedDirected acc), pa_heldOtherwise := True\<rparr>
      else if dr_basis r = Directed \<and> pc_who c = AuthPrincipalTask
      then (if pc_spotCheck c then acc
            else heldForTask c r label (acc\<lparr>pa_taskDirected := set_add label (pa_taskDirected acc)\<rparr>))
      else if dr_basis r = Inferred \<and> pc_who c \<noteq> AuthNone
      then (if pc_spotCheck c then acc
            else heldForTask c r label (acc\<lparr>pa_inferred := set_add label (pa_inferred acc)\<rparr>))
      else if dr_requested r \<and> pc_askable c
      then acc\<lparr>pa_askFirst := set_add label (pa_askFirst acc), pa_askLabels := set_add label (pa_askLabels acc)\<rparr>
      else acc\<lparr>pa_unsupported := set_add label (pa_unsupported acc),
               pa_strangerAsked := (if dr_requested r then set_add label (pa_strangerAsked acc)
                                    else pa_strangerAsked acc)\<rparr>)"

text \<open>\<open>rulesOnEach\<close> gave every asked item a ruling, so the lookup of an item's ruling finds one.\<close>

definition ruling_for :: "disclosure_ruling list \<Rightarrow> detected_item \<Rightarrow> disclosure_ruling" where
  "ruling_for rulings item = the (js_map_get (map (\<lambda>r. (dr_id r, r)) rulings) (di_id item))"

definition pii_loop :: "pii_context \<Rightarrow> disclosure_ruling list \<Rightarrow> detected_item list \<Rightarrow> pii_acc" where
  "pii_loop c rulings items = fold (\<lambda>item. pii_item c item (ruling_for rulings item)) items no_pii"

definition declined_finding :: "string \<Rightarrow> band_finding" where
  "declined_finding label = finding RPii
     (''The principal declined sharing the principal'' @ apos @ ''s '' @ describePiiLabels [label]
      @ '' with this recipient on this thread. Rewrite without it.'')"

definition unsupported_finding :: "string list \<Rightarrow> bool \<Rightarrow> band_finding" where
  "unsupported_finding labels askable = finding RPii
     (''This message shares personal details nothing authorizes for this recipient: '' @ js_join '', '' labels
      @ ''. Rewrite it without them'' @ (if askable then '', or ask the principal'' else []) @ ''.'')"

definition inferred_finding :: "string list \<Rightarrow> band_finding" where
  "inferred_finding labels = finding RPii
     (''Held for the principal: it shares personal details ('' @ js_join '', '' labels
      @ '') that the principal'' @ apos @ ''s request needs but did not name, and this band asks first.'')"

definition taskDirected_finding :: "string list \<Rightarrow> band_finding" where
  "taskDirected_finding labels = finding RPii
     (''Held for the principal: it shares personal details ('' @ js_join '', '' labels
      @ '') for a task the principal set, not at their request in this conversation, and this band asks first.'')"

definition askFirst_finding :: "string list \<Rightarrow> band_finding" where
  "askFirst_finding labels = finding RPii
     (''Held for the principal: the recipient asked for personal details ('' @ js_join '', '' labels
      @ '') that nothing authorizes sharing yet.'')"

definition trustedDirected_finding :: "string list \<Rightarrow> band_finding" where
  "trustedDirected_finding labels = finding RPii
     (''Held for the principal: a trusted contact asked for the principal'' @ apos @ ''s personal details (''
      @ js_join '', '' labels @ '') to be sent, and the principal approves sending them to anyone else.'')"

definition if_any :: "string list \<Rightarrow> (string list \<Rightarrow> band_finding) \<Rightarrow> band_finding list" where
  "if_any labels f = (if labels = [] then [] else [f labels])"

definition pii_rewrites :: "pii_acc \<Rightarrow> bool \<Rightarrow> band_finding list" where
  "pii_rewrites acc askable =
     map declined_finding (pa_declined acc)
     @ if_any (pa_unsupported acc) (\<lambda>ls. unsupported_finding ls askable)"

definition pii_holds :: "pii_acc \<Rightarrow> band_finding list" where
  "pii_holds acc =
     if_any (pa_inferred acc) inferred_finding @ if_any (pa_taskDirected acc) taskDirected_finding
     @ if_any (pa_askFirst acc) askFirst_finding @ if_any (pa_trustedDirected acc) trustedDirected_finding"

text \<open>What the judge's call gave beside its verdict.\<close>

record review_asked =
  rk_verdict :: brief_verdict
  rk_authority :: "send_authority option"
  rk_decisions :: "decision_answer list option"
  rk_linkedOutreachId :: "string option"
  rk_originUnresolved :: bool

definition is_askable :: "review_env \<Rightarrow> review_input \<Rightarrow> send_authority option \<Rightarrow> bool" where
  "is_askable env i a =
     (let others = nonPrincipalRecipients i
      in others \<noteq> [] \<and> list_all (\<lambda>r. let tier = recipientTierOf i r
            in tier = Some TKnown \<or> tier = Some TTrusted \<or> (linkToPrincipalTask a \<and> linkCoverage env i a r)) others)"

definition piiOutcome :: "review_env \<Rightarrow> review_input \<Rightarrow> detected_item list \<Rightarrow> disclosure_ruling list option
    \<Rightarrow> review_asked \<Rightarrow> bool \<Rightarrow> bool \<Rightarrow> band_decision" where
  "piiOutcome env i items rulings asked hasToken hasPrior =
     (let a = rk_authority asked;
          others = nonPrincipalRecipients i;
          linkCovers = list_all (linkCoverage env i a) others;
          askable = is_askable env i a;
          (who, acc, over) =
            (case rulings of
               None \<Rightarrow> (AuthNone, no_pii, items \<noteq> [])
             | Some rs \<Rightarrow>
                 if items = [] then (AuthNone, no_pii, False)
                 else (let (w, trusted) = authorityOf env a rs linkCovers
                       in (w, pii_loop \<lparr>pc_who = w, pc_trusted = trusted, pc_askable = askable,
                                pc_spotCheck = isSpotCheckOrAbove (ri_score i),
                                pc_said = principalSaid others (js_or [] (rk_decisions asked))\<rparr> rs items, False)));
          toRewrite = (if over then [finding RPii TOO_MANY_DETAIL] else pii_rewrites acc askable)
                      @ (if hasToken then [finding RToken TOKEN_DETAIL] else []);
          holds = pii_holds acc
      in if toRewrite \<noteq> []
         then (case rewriteOutcome i toRewrite hasPrior of
                 DBounce fs sr hb \<Rightarrow>
                   (case primaryRequester i of
                      Some req \<Rightarrow> if pa_strangerAsked acc \<noteq> [] then DBounce fs (Some (pa_strangerAsked acc, req)) hb
                                  else DBounce fs sr hb
                    | None \<Rightarrow> DBounce fs sr hb)
               | other \<Rightarrow> other)
         else if holds \<noteq> []
         then (case primaryRequester i of
                 Some req \<Rightarrow>
                   if pa_askLabels acc \<noteq> [] \<and> \<not> pa_heldOtherwise acc
                   then DHold (bf_detail (hd holds)) holds
                          (Some \<lparr>ra_labels = pa_askLabels acc, ra_requester = req, ra_counterparties = others,
                                 ra_taskTitle = askTaskTitle a who linkCovers,
                                 ra_outreachId = (if linkCovers \<and> strong_link a then rk_linkedOutreachId asked else None)\<rparr>)
                   else DHold (bf_detail (hd holds)) holds None
               | None \<Rightarrow> DHold (bf_detail (hd holds)) holds None)
         else DSend None None None)"

section \<open>Without an answer of the judge\<close>

text \<open>Called with an item or a placeholder present, so the list of outcomes is never empty.\<close>

definition unreviewedPiiOutcome :: "review_input \<Rightarrow> detected_item list \<Rightarrow> bool \<Rightarrow> bool \<Rightarrow> band_decision" where
  "unreviewedPiiOutcome i items hasToken hasPrior =
     (let labels = js_join '', '' (quote_labels items);
          decisions =
            (if items = [] then []
             else if hasPrior
             then [hold_for RPii (''Held for the principal: it shares personal details ('' @ labels
                     @ ''), and the reviewer was unavailable to check them.'')]
             else [DBounce [finding RPii
                     (if MAX_REVIEWED_ITEMS < length items then TOO_MANY_DETAIL
                      else ''The reviewer could not check the personal details in this message: '' @ labels
                        @ ''. Rewrite it without them.'')] None []])
            @ (if hasToken then [rewriteOutcome i [finding RToken TOKEN_DETAIL] hasPrior] else [])
      in foldl combine (hd decisions) (tl decisions))"

definition unreviewedHold :: "string \<Rightarrow> detected_item list \<Rightarrow> bool \<Rightarrow> band_decision" where
  "unreviewedHold reason items hasToken =
     DHold reason
       (finding RUnreviewed reason
        # (if items = [] then []
           else [finding RPii (''It contains personal details the reviewer could not check: ''
                   @ js_join '', '' (quote_labels items) @ ''.'')])
        @ (if hasToken then [finding RToken TOKEN_DETAIL] else [])) None"

definition recheckReason :: "band_rule list \<Rightarrow> string" where
  "recheckReason rules =
     (let flagged = (if RUngrounded \<in> set rules \<or> RUnneeded \<in> set rules then [''unverified statements''] else [])
                  @ (if RPii \<in> set rules then [''personal details''] else [])
                  @ (if RToken \<in> set rules then [''a redaction placeholder''] else [])
      in ''Held for the principal: it was flagged for ''
         @ (if flagged = [] then ''unverified statements'' else js_join '' and '' flagged)
         @ '', and the reviewer was unavailable to recheck it.'')"

text \<open>The outcome, the limiter, and whether the alert of a limiter that just tripped is sent.\<close>

definition onJudgeFailure :: "review_env \<Rightarrow> review_input \<Rightarrow> fail_open \<Rightarrow> band_decision \<times> bool \<times> fail_open" where
  "onJudgeFailure env i limiter =
     (if \<not> isSpotCheckOrAbove (ri_score i) then (hold_for RUnreviewed UNREVIEWED_BELOW_80_REASON, False, limiter)
      else (let (r, limiter') = fo_tryAcquire limiter (rv_end env)
            in (if \<not> ar_allowed r then hold_for RUnreviewed LIMITER_REASON
                else DSend (Some (''Sent a '' @ ri_channel i @ '' message to '' @ js_join '', '' (ri_recipients i)
                       @ '' without the usual review: the reviewer was unavailable.'')) None None,
                ar_justTripped r, limiter')))"

section \<open>Asking the judge\<close>

definition questionsFor :: "review_input \<Rightarrow> brief_question list" where
  "questionsFor i = (if ri_principalDirected i then [QGrounding] else ALL_QUESTIONS)"

definition truthy_text :: "string option \<Rightarrow> string option" where
  "truthy_text s = (case s of None \<Rightarrow> None | Some x \<Rightarrow> if x = [] then None else Some x)"

text \<open>The brief a review sends to the judge.\<close>

definition brief_of :: "review_env \<Rightarrow> review_input \<Rightarrow> brief_question list \<Rightarrow> string \<Rightarrow> detected_item list option
    \<Rightarrow> collected_evidence \<Rightarrow> brief_input" where
  "brief_of env i questions message detectedItems ce =
     (let ev = ce_evidence ce;
          reports = (case truthy_text (ri_reportedToPrincipal i) of
                       Some note \<Rightarrow> Some (rv_reportEvidence env note # js_or [] (be_reportsToPrincipal ev))
                     | None \<Rightarrow> be_reportsToPrincipal ev)
      in \<lparr>bi_questions = questions, bi_message = message, bi_recipients = ri_recipients i,
          bi_principalRecipients = ri_principalRecipients i, bi_detectedItems = detectedItems,
          bi_band = bandForScore (ri_score i),
          bi_evidence = ev\<lparr>be_reportsToPrincipal := reports,
             be_principalDecisions := describeDecisions (ce_decisions ce) (nonPrincipalRecipients i)\<rparr>,
          bi_conversationId = js_or ''system'' (ri_conversationId i)\<rparr>)"

definition ask :: "review_env \<Rightarrow> review_input \<Rightarrow> brief_question list \<Rightarrow> string list \<Rightarrow> string
    \<Rightarrow> detected_item list option \<Rightarrow> review_asked" where
  "ask env i questions taskIds message detectedItems =
     (if \<not> rv_judgeEnabled env
      then \<lparr>rk_verdict = Inl JudgeDisabled, rk_authority = None, rk_decisions = None,
            rk_linkedOutreachId = None, rk_originUnresolved = False\<rparr>
      else
        (let ce = rv_collect env taskIds (truthy_text (ri_conversationId i)) (nonPrincipalRecipients i)
         in if ce_unavailable ce
            then \<lparr>rk_verdict = Inl JudgeUnreachable, rk_authority = None, rk_decisions = None,
                  rk_linkedOutreachId = None, rk_originUnresolved = ce_originUnresolved ce\<rparr>
            else \<lparr>rk_verdict = rv_judge env (brief_of env i questions message detectedItems ce),
                  rk_authority = be_authority (ce_evidence ce), rk_decisions = ce_decisions ce,
                  rk_linkedOutreachId = truthy_text (ce_linkedOutreachId ce), rk_originUnresolved = False\<rparr>))"

definition rulesOnEach :: "disclosure_ruling list option \<Rightarrow> detected_item list \<Rightarrow> bool" where
  "rulesOnEach rulings items =
     (case rulings of
        None \<Rightarrow> False
      | Some rs \<Rightarrow>
          (let ids = remdups (map dr_id rs)
           in length rs = length items \<and> length ids = length items \<and> list_all (\<lambda>i. di_id i \<in> set ids) items))"

section \<open>The ledger\<close>

definition draftKey :: "review_input \<Rightarrow> string" where
  "draftKey i =
     js_or (js_or [] (ri_taskEventId i)) (ri_conversationId i) @ ''|'' @ ri_channel i @ ''|''
     @ js_join '','' (sort (map js_lower (ri_recipients i)))"

definition priorBounce :: "review_env \<Rightarrow> string \<Rightarrow> band_state \<Rightarrow> ledger_entry option \<times> band_state" where
  "priorBounce env key st =
     (case map_of (bs_bounced st) key of
        None \<Rightarrow> (None, st)
      | Some entry \<Rightarrow>
          if BOUNCE_TTL_MS < rv_start env - le_at entry
          then (None, st\<lparr>bs_bounced := AList.delete key (bs_bounced st)\<rparr>)
          else (Some entry, st))"

definition decision_rules :: "band_decision \<Rightarrow> band_rule list" where
  "decision_rules d =
     (case d of
        DSend _ _ _ \<Rightarrow> []
      | DBounce fs _ _ \<Rightarrow> map bf_rule fs
      | DBlock _ fs _ \<Rightarrow> map bf_rule fs
      | DHold _ fs _ \<Rightarrow> map bf_rule fs)"

definition settle :: "review_env \<Rightarrow> string \<Rightarrow> string list \<Rightarrow> band_decision \<Rightarrow> band_state \<Rightarrow> band_decision \<times> band_state" where
  "settle env key taskIds d st =
     (if is_bounce d \<or> is_block d
      then (d, st\<lparr>bs_bounced := AList.update key
                  \<lparr>le_taskEventIds = taskIds, le_at = rv_end env, le_rules = decision_rules d\<rparr> (bs_bounced st)\<rparr>)
      else (d, st\<lparr>bs_bounced := AList.delete key (bs_bounced st)\<rparr>))"

section \<open>The review\<close>

definition own_items :: "review_input \<Rightarrow> detected_item list" where
  "own_items i = filter (\<lambda>d. di_field d \<noteq> FieldQuote) (ri_detectedItems i)"

definition quoted_items :: "review_input \<Rightarrow> detected_item list" where
  "quoted_items i = filter (\<lambda>d. di_field d = FieldQuote) (ri_detectedItems i)"

definition asked_items :: "review_input \<Rightarrow> detected_item list option" where
  "asked_items i =
     (let items = ri_detectedItems i; own = own_items i
      in if 0 < length items \<and> length items \<le> MAX_REVIEWED_ITEMS then Some items
         else if 0 < length own \<and> length own \<le> MAX_REVIEWED_ITEMS then Some own
         else None)"

definition review_questions :: "review_input \<Rightarrow> brief_question list" where
  "review_questions i = questionsFor i @ (if asked_items i = None then [] else [QDisclosure])"

definition has_token :: "review_input \<Rightarrow> bool" where
  "has_token i \<longleftrightarrow> REDACTION_TOKEN (ri_content i) \<or> REDACTION_TOKEN (js_or [] (ri_subject i))"

definition review_message :: "review_input \<Rightarrow> string" where
  "review_message i =
     (case truthy_text (ri_subject i) of
        Some s \<Rightarrow> ''Subject: '' @ s @ newline @ newline @ ri_content i
      | None \<Rightarrow> ri_content i)"

text \<open>A verdict that leaves out an item that was asked about is a failure of the judge.\<close>

definition checked_verdict :: "review_input \<Rightarrow> review_asked \<Rightarrow> brief_verdict" where
  "checked_verdict i asked =
     (case rk_verdict asked of
        Inl f \<Rightarrow> Inl f
      | Inr v \<Rightarrow>
          (case asked_items i of
             Some its \<Rightarrow> if rulesOnEach (ba_disclosures v) its then Inr v else Inl JudgeMalformed
           | None \<Rightarrow> Inr v))"

definition judge_failed :: "review_env \<Rightarrow> review_input \<Rightarrow> string \<Rightarrow> ledger_entry option \<Rightarrow> string list
    \<Rightarrow> band_state \<Rightarrow> band_decision \<times> bool \<times> band_state" where
  "judge_failed env i key prior taskIds st =
     (let own = own_items i; stakesGated = QStakes \<in> set (review_questions i); hasToken = has_token i
      in if own = [] \<and> \<not> hasToken
         then (let st' = st\<lparr>bs_bounced := AList.delete key (bs_bounced st)\<rparr>
               in case prior of
                    Some p \<Rightarrow> (hold_for RUnreviewed (recheckReason (le_rules p)), False, st')
                  | None \<Rightarrow>
                      if stakesGated then (hold_for RUnreviewed STAKES_UNREVIEWED_REASON, False, st')
                      else (case onJudgeFailure env i (bs_limiter st') of
                              (d, tripped, limiter') \<Rightarrow>
                                (withoutQuote d (quoted_items i), tripped, st'\<lparr>bs_limiter := limiter'\<rparr>)))
         else
           (let other = (case prior of
                           Some p \<Rightarrow> Some (hold_for RUnreviewed (recheckReason (le_rules p)))
                         | None \<Rightarrow>
                             if \<not> isSpotCheckOrAbove (ri_score i)
                             then Some (unreviewedHold (if stakesGated then STAKES_UNREVIEWED_REASON
                                                        else UNREVIEWED_BELOW_80_REASON) own hasToken)
                             else None);
                pii = unreviewedPiiOutcome i own hasToken (prior \<noteq> None);
                (d, st') = settle env key taskIds (case other of Some o' \<Rightarrow> combine pii o' | None \<Rightarrow> pii) st
            in (d, False, st')))"

definition stakes_only :: "band_decision \<Rightarrow> bool" where
  "stakes_only d \<longleftrightarrow> (case d of DHold _ fs a \<Rightarrow> a = None \<and> list_all (\<lambda>f. bf_rule f = RSpeaks) fs | _ \<Rightarrow> False)"

definition claim_bounce_holding_stakes :: "band_decision \<Rightarrow> band_decision \<Rightarrow> bool" where
  "claim_bounce_holding_stakes other pii \<longleftrightarrow>
     (case other of DBounce _ _ hb \<Rightarrow> list_ex (\<lambda>f. bf_rule f = RSpeaks) hb | _ \<Rightarrow> False)
     \<and> is_hold pii \<and> \<not> asks pii"

definition base_outcome :: "review_input \<Rightarrow> band_decision \<Rightarrow> band_decision \<Rightarrow> band_decision" where
  "base_outcome i other pii =
     (if claim_bounce_holding_stakes other pii then withHeldBeside other pii
      else if isSpotCheckOrAbove (ri_score i) \<and> stakes_only other \<and> rewritesDetails pii
      then withHeldBeside pii other
      else combine other pii)"

definition judge_answered :: "review_env \<Rightarrow> review_input \<Rightarrow> review_asked \<Rightarrow> brief_answers \<Rightarrow> bool \<Rightarrow> band_decision" where
  "judge_answered env i asked v hasPrior =
     (let quoted = quoted_items i;
          rulings = (if asked_items i = None then None else Some (js_or [] (ba_disclosures v)));
          other = otherRulesOutcome i v (ri_detectedItems i) hasPrior;
          pii = piiOutcome env i (own_items i) rulings asked (has_token i) hasPrior;
          base = base_outcome i other pii
      in if quoted = [] \<or> \<not> is_send base then base
         else (let quoteRulings = (case asked_items i of
                                     Some its \<Rightarrow> if set quoted \<subseteq> set its then rulings else None
                                   | None \<Rightarrow> None);
                   quote = piiOutcome env i quoted quoteRulings asked False hasPrior
               in if is_send quote then combine base quote else withoutQuote base quoted))"

text \<open>Everything after the ledger was read: the outcome, whether the limiter's alert is sent, the state.\<close>

definition task_ids :: "review_input \<Rightarrow> ledger_entry option \<Rightarrow> string list" where
  "task_ids i prior =
     js_uniq ((case prior of None \<Rightarrow> [] | Some p \<Rightarrow> le_taskEventIds p)
              @ (case truthy_text (ri_taskEventId i) of None \<Rightarrow> [] | Some t \<Rightarrow> [t]))"

definition review_asked_of :: "review_env \<Rightarrow> review_input \<Rightarrow> ledger_entry option \<Rightarrow> review_asked" where
  "review_asked_of env i prior =
     ask env i (review_questions i) (task_ids i prior) (review_message i) (asked_items i)"

definition review_rest :: "review_env \<Rightarrow> review_input \<Rightarrow> string \<Rightarrow> ledger_entry option \<Rightarrow> band_state
    \<Rightarrow> band_decision \<times> bool \<times> band_state" where
  "review_rest env i key prior st =
     (let asked = review_asked_of env i prior
      in if rk_originUnresolved asked \<and> QPurpose \<in> set (review_questions i)
         then (unreviewedHold ORIGIN_UNRESOLVED_REASON (own_items i) (has_token i), False, st)
         else (case checked_verdict i asked of
                 Inl _ \<Rightarrow> judge_failed env i key prior (task_ids i prior) st
               | Inr v \<Rightarrow>
                   (let st1 = st\<lparr>bs_limiter := recordJudgeSuccess (bs_limiter st)\<rparr>;
                        (d, st2) = settle env key (task_ids i prior) (judge_answered env i asked v (prior \<noteq> None)) st1
                    in (d, False, st2))))"

definition review :: "review_env \<Rightarrow> review_input \<Rightarrow> band_state \<Rightarrow> band_decision \<times> bool \<times> band_state" where
  "review env i st =
     (case priorBounce env (draftKey i) st of (prior, st') \<Rightarrow> review_rest env i (draftKey i) prior st')"

end
