(* ===== verification/BandReviewProofs.thy ===== *)
theory BandReviewProofs
  imports BandReviewRun
begin

text \<open>
  What the band review promises: exactly which sends it lets through, that a draft bounces once, and
  that the principal's recorded answer binds later sends.
\<close>

section \<open>Combining is conjunction on sends\<close>

lemma is_send_simps [simp]:
  "is_send (withHeldBeside a b) = is_send a" "\<not> is_send (hold_for r reason)"
  "is_send (withoutQuote d q) = is_send d" "\<not> is_send (rewriteOutcome i fs p)"
  "\<not> is_send (unreviewedHold why its t)"
proof -
  show "is_send (withHeldBeside a b) = is_send a" by (cases a; cases b) simp_all
  show "is_send (withoutQuote d q) = is_send d" by (cases d) (simp_all add: withoutQuote_def)
qed (simp_all add: hold_for_def rewriteOutcome_def unreviewedHold_def)

lemma is_send_merge: "STRICTNESS a = STRICTNESS b \<Longrightarrow> is_send (merge_same a b) = is_send a"
  by (cases a; cases b) (simp_all add: Let_def)

lemma is_send_combine [simp]: "is_send (combine a b) \<longleftrightarrow> is_send a \<and> is_send b"
  by (cases a; cases b) (simp_all add: combine_def Let_def)

lemma is_bounce_simps [simp]:
  "is_bounce (withHeldBeside a b) = is_bounce a" "\<not> is_bounce (hold_for r reason)"
  "is_bounce (withoutQuote d q) = is_bounce d" "is_bounce (rewriteOutcome i fs p) = (\<not> p)"
  "\<not> is_bounce (unreviewedHold why its t)"
proof -
  show "is_bounce (withHeldBeside a b) = is_bounce a" by (cases a; cases b) simp_all
  show "is_bounce (withoutQuote d q) = is_bounce d" by (cases d) (simp_all add: withoutQuote_def)
qed (simp_all add: hold_for_def rewriteOutcome_def unreviewedHold_def)

lemma is_bounce_combine: "is_bounce (combine a b) \<Longrightarrow> is_bounce a \<or> is_bounce b"
  by (cases a; cases b) (auto simp: combine_def Let_def split: if_splits)

lemma withoutQuote_drop [simp]:
  "is_send d \<Longrightarrow> quoted \<noteq> [] \<Longrightarrow> ds_dropQuote (withoutQuote d quoted) = Some (quote_labels quoted)"
  by (cases d) (simp_all add: withoutQuote_def)

section \<open>Authorized items\<close>

text \<open>
  The policy on one item, as a condition: the principal directed it in their own turn; or the
  principal did not say no, and said yes, or nobody but the principal's work stands behind it and
  the score is at the spot-check line.
\<close>

definition item_authorized :: "pii_context \<Rightarrow> detected_item \<Rightarrow> disclosure_ruling \<Rightarrow> bool" where
  "item_authorized c item r \<longleftrightarrow>
     (dr_basis r = Directed \<and> pc_who c = AuthPrincipal)
     \<or> (pc_said c (di_label item) \<noteq> Some SaidNo
        \<and> (pc_said c (di_label item) = Some SaidYes
           \<or> (pc_spotCheck c
              \<and> ((dr_basis r = Directed \<and> \<not> pc_trusted c \<and> pc_who c = AuthPrincipalTask)
                 \<or> (dr_basis r = Inferred \<and> pc_who c \<noteq> AuthNone)))))"

definition acc_clean :: "pii_acc \<Rightarrow> bool" where
  "acc_clean acc \<longleftrightarrow> pa_declined acc = [] \<and> pa_trustedDirected acc = [] \<and> pa_taskDirected acc = []
     \<and> pa_inferred acc = [] \<and> pa_askFirst acc = [] \<and> pa_unsupported acc = []"

lemma set_add_not_empty [simp]: "set_add x xs \<noteq> []"
  by (auto simp: set_add_def)

lemma acc_clean_held [simp]: "acc_clean (heldForTask c r l acc) = acc_clean acc"
  by (simp add: acc_clean_def heldForTask_def)

lemma acc_clean_item: "acc_clean (pii_item c item r acc) \<longleftrightarrow> acc_clean acc \<and> item_authorized c item r"
  by (cases "dr_basis r"; cases "pc_who c")
     (auto simp: pii_item_def Let_def item_authorized_def acc_clean_def heldForTask_def)

lemma acc_clean_loop:
  "acc_clean (pii_loop c rs items) \<longleftrightarrow> (\<forall>item \<in> set items. item_authorized c item (ruling_for rs item))"
proof -
  have "acc_clean (fold (\<lambda>item. pii_item c item (ruling_for rs item)) items acc)
      \<longleftrightarrow> acc_clean acc \<and> (\<forall>item \<in> set items. item_authorized c item (ruling_for rs item))" for acc
    by (induction items arbitrary: acc) (auto simp: acc_clean_item)
  then show ?thesis by (simp add: pii_loop_def no_pii_def acc_clean_def)
qed

lemma acc_clean_findings:
  "acc_clean acc \<longleftrightarrow> pii_rewrites acc askable = [] \<and> pii_holds acc = []"
  by (auto simp: acc_clean_def pii_rewrites_def pii_holds_def if_any_def)

text \<open>The context in which the items of a review are judged.\<close>

definition review_context :: "review_env \<Rightarrow> review_input \<Rightarrow> review_asked \<Rightarrow> disclosure_ruling list \<Rightarrow> pii_context" where
  "review_context env i asked rs =
     (let a = rk_authority asked; others = nonPrincipalRecipients i;
          (w, trusted) = authorityOf env a rs (list_all (linkCoverage env i a) others)
      in \<lparr>pc_who = w, pc_trusted = trusted, pc_askable = is_askable env i a,
          pc_spotCheck = isSpotCheckOrAbove (ri_score i),
          pc_said = principalSaid others (js_or [] (rk_decisions asked))\<rparr>)"

definition all_authorized :: "review_env \<Rightarrow> review_input \<Rightarrow> review_asked \<Rightarrow> disclosure_ruling list option
    \<Rightarrow> detected_item list \<Rightarrow> bool" where
  "all_authorized env i asked rulings items \<longleftrightarrow>
     items = []
     \<or> (case rulings of
          None \<Rightarrow> False
        | Some rs \<Rightarrow> \<forall>item \<in> set items. item_authorized (review_context env i asked rs) item (ruling_for rs item))"

lemma pii_send_iff:
  "is_send (piiOutcome env i items rulings asked hasToken hasPrior)
   \<longleftrightarrow> \<not> hasToken \<and> all_authorized env i asked rulings items"
proof -
  have rewrite: "\<not> is_send (case rewriteOutcome i fs hasPrior of
        DBounce fs sr hb \<Rightarrow> (case q of Some req \<Rightarrow> if b then DBounce fs (Some (g req)) hb else DBounce fs sr hb
                             | None \<Rightarrow> DBounce fs sr hb) | other \<Rightarrow> other)"
    for fs b and g :: "string \<Rightarrow> string list \<times> string" and q
    by (auto simp: rewriteOutcome_def split: option.split)
  show ?thesis
  proof (cases rulings)
    case None
    then show ?thesis
      by (auto simp: piiOutcome_def Let_def all_authorized_def rewrite pii_rewrites_def pii_holds_def if_any_def
          no_pii_def)
  next
    case (Some rs)
    obtain w t where wt: "authorityOf env (rk_authority asked) rs
        (list_all (linkCoverage env i (rk_authority asked)) (nonPrincipalRecipients i)) = (w, t)"
      by (cases "authorityOf env (rk_authority asked) rs
        (list_all (linkCoverage env i (rk_authority asked)) (nonPrincipalRecipients i))")
    have ctx: "review_context env i asked rs = \<lparr>pc_who = w, pc_trusted = t,
        pc_askable = is_askable env i (rk_authority asked), pc_spotCheck = isSpotCheckOrAbove (ri_score i),
        pc_said = principalSaid (nonPrincipalRecipients i) (js_or [] (rk_decisions asked))\<rparr>"
      by (simp add: review_context_def Let_def wt)
    show ?thesis
    proof (cases "items = []")
      case True
      with Some show ?thesis
        by (auto simp: piiOutcome_def Let_def all_authorized_def rewrite pii_rewrites_def pii_holds_def if_any_def
            no_pii_def)
    next
      case False
      let ?acc = "pii_loop (review_context env i asked rs) rs items"
      have "acc_clean ?acc \<longleftrightarrow> all_authorized env i asked rulings items"
        using False Some by (simp add: all_authorized_def acc_clean_loop)
      then show ?thesis
        using False Some acc_clean_findings [of ?acc "is_askable env i (rk_authority asked)"]
        by (auto simp: piiOutcome_def Let_def wt ctx [symmetric] rewrite split: option.split)
    qed
  qed
qed

section \<open>The whole review\<close>

text \<open>The rules other than disclosure, as a condition on the judge's answers.\<close>

definition other_rules_pass :: "review_input \<Rightarrow> brief_answers \<Rightarrow> bool" where
  "other_rules_pass i v \<longleftrightarrow>
     ba_purpose v \<noteq> Some Steered
     \<and> (ba_speaksAsPrincipal v = Some True \<longrightarrow>
          (\<exists>m. STAKES_MIN_SCORE (js_or FinancialOrLegal (ba_stakes v)) = Some m \<and> num_le (Fin m) (ri_score i)))
     \<and> js_or [] (ba_unsupportedClaims v) = []
     \<and> (\<forall>q \<in> set (js_or [] (ba_unnecessaryItems v)).
          \<exists>d \<in> set (ri_detectedItems i). overlaps q (di_text d))"

lemma stakesHold_none:
  "stakesHold v score = None \<longleftrightarrow>
     (\<exists>m. STAKES_MIN_SCORE (js_or FinancialOrLegal (ba_stakes v)) = Some m \<and> num_le (Fin m) score)"
  by (auto simp: stakesHold_def Let_def split: option.splits)

lemma other_send_iff:
  "is_send (otherRulesOutcome i v (ri_detectedItems i) hasPrior) \<longleftrightarrow> other_rules_pass i v"
proof -
  have "filter (\<lambda>q. \<not> list_ex (\<lambda>d. overlaps q (di_text d)) (ri_detectedItems i)) (js_or [] (ba_unnecessaryItems v)) = []
      \<longleftrightarrow> (\<forall>q \<in> set (js_or [] (ba_unnecessaryItems v)). \<exists>d \<in> set (ri_detectedItems i). overlaps q (di_text d))"
    by (simp add: filter_empty_conv list_ex_iff)
  then show ?thesis
    by (cases "stakesHold v (ri_score i)")
       (auto simp: otherRulesOutcome_def other_rules_pass_def Let_def stakesHold_none [symmetric])
qed

lemma base_send_iff: "is_send (base_outcome i other pii) \<longleftrightarrow> is_send other \<and> is_send pii"
  by (cases other; cases pii)
     (auto simp: base_outcome_def claim_bounce_holding_stakes_def stakes_only_def)

definition rulings_of :: "review_input \<Rightarrow> brief_answers \<Rightarrow> disclosure_ruling list option" where
  "rulings_of i v = (if asked_items i = None then None else Some (js_or [] (ba_disclosures v)))"

lemma answered_send_iff:
  "is_send (judge_answered env i asked v hasPrior)
   \<longleftrightarrow> other_rules_pass i v \<and> \<not> has_token i \<and> all_authorized env i asked (rulings_of i v) (own_items i)"
  by (auto simp: judge_answered_def Let_def base_send_iff other_send_iff pii_send_iff rulings_of_def)

lemma questions_simps [simp]:
  "QPurpose \<in> set (review_questions i) \<longleftrightarrow> \<not> ri_principalDirected i"
  "QStakes \<in> set (review_questions i) \<longleftrightarrow> \<not> ri_principalDirected i"
  by (auto simp: review_questions_def questionsFor_def ALL_QUESTIONS_def)

lemma fst_settle [simp]: "fst (settle env key ts d st) = d"
  by (simp add: settle_def)

lemma unreviewed_not_send:
  "items \<noteq> [] \<or> hasToken \<Longrightarrow> \<not> is_send (unreviewedPiiOutcome i items hasToken hasPrior)"
  by (auto simp: unreviewedPiiOutcome_def Let_def)

lemma failure_send_iff:
  "is_send (fst (onJudgeFailure env i limiter))
   \<longleftrightarrow> isSpotCheckOrAbove (ri_score i) \<and> ar_allowed (fst (fo_tryAcquire limiter (rv_end env)))"
  by (simp add: onJudgeFailure_def split: prod.split)

lemma judge_failed_send_iff:
  "is_send (fst (judge_failed env i key prior ts st))
   \<longleftrightarrow> own_items i = [] \<and> \<not> has_token i \<and> prior = None \<and> ri_principalDirected i
      \<and> isSpotCheckOrAbove (ri_score i) \<and> ar_allowed (fst (fo_tryAcquire (bs_limiter st) (rv_end env)))"
proof (cases "own_items i = [] \<and> \<not> has_token i")
  case True
  then show ?thesis
    using failure_send_iff [of env i "bs_limiter st"]
    by (cases "onJudgeFailure env i (bs_limiter st)") (auto simp: judge_failed_def Let_def split: option.split)
next
  case False
  then have "\<not> is_send (unreviewedPiiOutcome i (own_items i) (has_token i) (prior \<noteq> None))"
    by (intro unreviewed_not_send) auto
  with False show ?thesis
    by (auto simp: judge_failed_def Let_def settle_def split: option.split)
qed

text \<open>
  C6. Exactly which sends pass the review. With the judge's answer: the purpose is not steered by an
  outsider, whatever speaks for the principal clears the score of its stakes (a financial or legal
  one never does), every claim is grounded and every disclosure needed, there is no redaction
  placeholder, and each detected item of the message is authorized. Without an answer: only a
  message the principal directed, with no personal data, at the spot-check line or above, that has not
  bounced, within the allowance of the limiter. A send whose origin cannot be read passes only
  when the principal directed it. This holds whatever other reviews do meanwhile.
\<close>

theorem review_sends_exactly:
  "is_send (fst (review_rest env i key prior st)) \<longleftrightarrow>
     (let asked = review_asked_of env i prior in
      \<not> (rk_originUnresolved asked \<and> \<not> ri_principalDirected i)
      \<and> (case checked_verdict i asked of
           Inr v \<Rightarrow> other_rules_pass i v \<and> \<not> has_token i
                    \<and> all_authorized env i asked (rulings_of i v) (own_items i)
         | Inl _ \<Rightarrow> own_items i = [] \<and> \<not> has_token i \<and> prior = None \<and> ri_principalDirected i
                    \<and> isSpotCheckOrAbove (ri_score i)
                    \<and> ar_allowed (fst (fo_tryAcquire (bs_limiter st) (rv_end env)))))"
  by (auto simp: review_rest_def Let_def judge_failed_send_iff answered_send_iff split_beta split: sum.split)

lemma asked_quoted:
  "quoted_items i \<noteq> [] \<Longrightarrow> asked_items i = Some its \<Longrightarrow> set (quoted_items i) \<subseteq> set its \<longleftrightarrow> its = ri_detectedItems i"
  by (auto simp: asked_items_def Let_def own_items_def quoted_items_def filter_empty_conv split: if_splits)

text \<open>
  The quoted message goes out only when its own items are authorized: a send with quoted items that
  passes either says to drop the quote, or was ruled on by the judge item by item, quote included.
\<close>

theorem quote_goes_only_if_authorized:
  assumes "is_send (fst (review_rest env i key prior st))" "quoted_items i \<noteq> []"
    and "ds_dropQuote (fst (review_rest env i key prior st)) = None"
  shows "\<exists>v. checked_verdict i (review_asked_of env i prior) = Inr v
     \<and> all_authorized env i (review_asked_of env i prior) (rulings_of i v) (quoted_items i)"
proof (cases "checked_verdict i (review_asked_of env i prior)")
  case (Inl f)
  have "\<not> (rk_originUnresolved (review_asked_of env i prior) \<and> QPurpose \<in> set (review_questions i))"
    using assms(1) by (auto simp: review_rest_def Let_def split: if_splits)
  with Inl have r: "fst (review_rest env i key prior st) = fst (judge_failed env i key prior (task_ids i prior) st)"
    by (auto simp add: review_rest_def Let_def)
  obtain d t l where f: "onJudgeFailure env i (bs_limiter st) = (d, t, l)" by (cases "onJudgeFailure env i (bs_limiter st)")
  have "fst (judge_failed env i key prior (task_ids i prior) st) = withoutQuote d (quoted_items i) \<and> is_send d"
    using assms(1) r f judge_failed_send_iff [of env i key prior "task_ids i prior" st]
      failure_send_iff [of env i "bs_limiter st"]
    by (simp add: judge_failed_def Let_def)
  with r assms(2,3) show ?thesis by simp
next
  case (Inr v)
  let ?asked = "review_asked_of env i prior"
  have "\<not> (rk_originUnresolved ?asked \<and> QPurpose \<in> set (review_questions i))"
    using assms(1) by (auto simp: review_rest_def Let_def split: if_splits)
  with Inr have r: "fst (review_rest env i key prior st) = judge_answered env i ?asked v (prior \<noteq> None)"
    by (auto simp add: review_rest_def Let_def split_beta)
  define base where "base = base_outcome i (otherRulesOutcome i v (ri_detectedItems i) (prior \<noteq> None))
      (piiOutcome env i (own_items i) (rulings_of i v) ?asked (has_token i) (prior \<noteq> None))"
  define qr where "qr = (case asked_items i of Some its \<Rightarrow> if set (quoted_items i) \<subseteq> set its then rulings_of i v else None
      | None \<Rightarrow> None)"
  have j: "judge_answered env i ?asked v (prior \<noteq> None) =
      (if \<not> is_send base then base
       else let quote = piiOutcome env i (quoted_items i) qr ?asked False (prior \<noteq> None)
            in if is_send quote then combine base quote else withoutQuote base (quoted_items i))"
    using assms(2) unfolding judge_answered_def Let_def base_def qr_def rulings_of_def [symmetric] by (simp only: simp_thms if_False)
  have "is_send base" using assms(1) r j by (auto split: if_splits)
  with assms(2,3) r j have "is_send (piiOutcome env i (quoted_items i) qr ?asked False (prior \<noteq> None))"
    by (auto simp: Let_def split: if_splits)
  then have "all_authorized env i ?asked qr (quoted_items i)" by (simp add: pii_send_iff)
  then have "all_authorized env i ?asked (rulings_of i v) (quoted_items i)"
    using assms(2) by (auto simp: qr_def all_authorized_def split: option.splits if_splits)
  with Inr show ?thesis by blast
qed

end
