(* ===== verification/DisclosureProps.thy ===== *)
theory DisclosureProps
  imports Disclosure
begin

text \<open>
  Facts about the recorded answers: normalizing an identifier twice changes nothing, and after an
  answer was recorded, the latest answer that is read back for its recipients and labels is that one.
\<close>

subsection \<open>Normalizing twice changes nothing\<close>

lemma lower_char_brackets:
  "lower_char c = CHR ''<'' \<longleftrightarrow> c = CHR ''<''" "lower_char c = CHR ''>'' \<longleftrightarrow> c = CHR ''>''"
  "js_space (lower_char c) = js_space c"
proof -
  have b: "(of_char c :: nat) < 256" by simp
  have l: "(of_char (lower_char c) :: nat) = (let n = of_char c in
      if (65 \<le> n \<and> n \<le> 90) \<or> (192 \<le> n \<and> n \<le> 222 \<and> n \<noteq> 215) then n + 32 else n)"
    using b by (simp add: lower_char_def Let_def)
  have eq: "d = e \<longleftrightarrow> (of_char d :: nat) = of_char e" for d e :: char by simp
  show "lower_char c = CHR ''<'' \<longleftrightarrow> c = CHR ''<''" "lower_char c = CHR ''>'' \<longleftrightarrow> c = CHR ''>''"
    unfolding eq l by (simp_all add: Let_def)
  show "js_space (lower_char c) = js_space c"
    unfolding js_space_def l by (auto simp: Let_def)
qed

lemma js_trim_subset: "set (js_trim s) \<subseteq> set s"
  by (auto simp: js_trim_def dest!: set_dropWhileD)

lemma js_trim_lower: "js_trim (js_lower s) = js_lower (js_trim s)"
  by (simp add: js_trim_def js_lower_def dropWhile_map rev_map comp_def lower_char_brackets)

lemma angle_core_some: "angle_core u = Some a \<Longrightarrow> CHR ''>'' \<in> set u \<and> CHR ''>'' \<notin> set a"
proof (cases u)
  case (Cons c b)
  assume "angle_core u = Some a"
  with Cons have "c = CHR ''>''" "a = rev (takeWhile no_bracket b)"
    by (auto simp: angle_core_def split: list.splits if_splits)
  moreover have "CHR ''>'' \<notin> set (takeWhile no_bracket b)"
    by (auto simp: no_bracket_def dest: set_takeWhileD)
  ultimately show ?thesis using Cons by simp
qed (simp add: angle_core_def)

lemma angle_some: "angle_address s = Some a \<Longrightarrow> CHR ''>'' \<in> set s \<and> CHR ''>'' \<notin> set a"
  using angle_core_some [of "dropWhile js_space (rev s)" a] set_dropWhileD [of "CHR ''>''" js_space "rev s"]
  by (auto simp: angle_address_def)

lemma no_bracket_lower [simp]: "no_bracket (lower_char c) = no_bracket c"
  by (simp add: no_bracket_def lower_char_brackets)

lemma angle_core_None:
  "angle_core (c # b) = None \<longleftrightarrow>
     (c = CHR ''>'' \<longrightarrow> takeWhile no_bracket b = [] \<or> dropWhile no_bracket b = []
        \<or> hd (dropWhile no_bracket b) \<noteq> CHR ''<'')"
  by (cases "dropWhile no_bracket b") (auto simp: angle_core_def simp del: dropWhile_eq_Nil_conv takeWhile_eq_Nil_iff)

lemma angle_core_prefix:
  assumes "angle_core (u @ w) = None"
  shows "angle_core u = None"
proof (cases u)
  case (Cons c b)
  show ?thesis
  proof (cases "dropWhile no_bracket b = []")
    case False
    then obtain x where "x \<in> set b" "\<not> no_bracket x" by (auto simp: dropWhile_eq_Nil_conv)
    then have "dropWhile no_bracket (b @ w) = dropWhile no_bracket b @ w"
        "takeWhile no_bracket (b @ w) = takeWhile no_bracket b"
      by (auto simp: dropWhile_append takeWhile_append)
    with assms Cons False show ?thesis
      by (simp add: angle_core_None del: dropWhile_eq_Nil_conv takeWhile_eq_Nil_iff)
  qed (simp add: Cons angle_core_None)
qed (simp add: angle_core_def)

lemma angle_core_lower:
  assumes "angle_core u = None"
  shows "angle_core (map lower_char u) = None"
proof (cases u)
  case (Cons c b)
  have m: "dropWhile no_bracket (map lower_char b) = map lower_char (dropWhile no_bracket b)"
      "takeWhile no_bracket (map lower_char b) = map lower_char (takeWhile no_bracket b)"
    by (simp_all add: dropWhile_map takeWhile_map comp_def)
  show ?thesis
  proof (cases "dropWhile no_bracket b = []")
    case False
    then have "hd (map lower_char (dropWhile no_bracket b)) = lower_char (hd (dropWhile no_bracket b))"
      by (rule hd_map)
    with assms Cons show ?thesis
      by (simp add: angle_core_None m lower_char_brackets del: dropWhile_eq_Nil_conv takeWhile_eq_Nil_iff)
  next
    case True
    with m(1) have "dropWhile no_bracket (map lower_char b) = []" by simp
    with Cons show ?thesis by (simp add: angle_core_None)
  qed
qed (simp add: angle_core_def)

lemma angle_core_trim: "angle_address s = None \<Longrightarrow> angle_address (js_lower (js_trim s)) = None"
proof -
  assume n: "angle_address s = None"
  let ?a = "dropWhile js_space s"
  have rs: "rev s = rev ?a @ rev (takeWhile js_space s)"
    by (metis rev_append takeWhile_dropWhile_id)
  have t: "rev (js_trim s) = dropWhile js_space (rev ?a)" by (simp add: js_trim_def)
  have "angle_core (dropWhile js_space (rev ?a)) = None"
  proof (cases "\<exists>x \<in> set (rev ?a). \<not> js_space x")
    case True
    then have "dropWhile js_space (rev s) = dropWhile js_space (rev ?a) @ rev (takeWhile js_space s)"
      unfolding rs by (auto simp: dropWhile_append)
    with n show ?thesis using angle_core_prefix by (metis angle_address_def)
  next
    case False
    then have e: "dropWhile js_space (rev ?a) = []" by (simp add: dropWhile_eq_Nil_conv)
    show ?thesis unfolding e by (simp add: angle_core_def)
  qed
  then have "angle_core (rev (js_trim s)) = None" by (simp add: t)
  moreover have "dropWhile js_space (rev (js_trim s)) = rev (js_trim s)"
    unfolding t by simp
  ultimately show ?thesis
    by (simp add: angle_address_def js_lower_def rev_map dropWhile_map comp_def lower_char_brackets angle_core_lower)
qed

lemma normalizeCounterparty_idem [simp]: "normalizeCounterparty (normalizeCounterparty s) = normalizeCounterparty s"
proof -
  have "angle_address (normalizeCounterparty s) = None"
  proof (cases "angle_address s")
    case None
    then show ?thesis by (simp add: normalizeCounterparty_def js_or_def angle_core_trim)
  next
    case (Some a)
    have "CHR ''>'' \<notin> set (js_trim a)"
      using angle_some [OF Some] js_trim_subset [of a] by blast
    then have "CHR ''>'' \<notin> set (js_lower (js_trim a))"
      using lower_char_brackets(2) by (metis (no_types, lifting) image_iff js_lower_def list.set_map)
    then have "angle_address (js_lower (js_trim a)) = None"
      using angle_some by (cases "angle_address (js_lower (js_trim a))") blast+
    with Some show ?thesis by (simp add: normalizeCounterparty_def js_or_def)
  qed
  then show ?thesis
    by (simp add: normalizeCounterparty_def [of "normalizeCounterparty s"] js_or_def)
       (simp add: normalizeCounterparty_def js_trim_lower)
qed

section \<open>Remembered answers\<close>

lemma js_uniq_set [simp]: "set (js_uniq xs) = set xs"
  by (simp add: js_uniq_def)

lemma js_uniq_Nil [simp]: "js_uniq xs = [] \<longleftrightarrow> xs = []"
  by (simp add: js_uniq_def)

lemma newest_row_in: "rs \<noteq> [] \<Longrightarrow> \<exists>r. newest_row rs = Some r \<and> r \<in> set rs"
proof (induction rs)
  case (Cons x rs)
  then show ?case by (cases "rs = []") auto
qed simp

lemma newest_row_max:
  assumes "newest_row rs = Some r" "q \<in> set rs"
  shows "\<not> newer_row q r"
  using assms
proof (induction rs arbitrary: r)
  case (Cons x rs)
  show ?case
  proof (cases "newest_row rs")
    case None
    with Cons.prems have "rs = []" using newest_row_in [of rs] by fastforce
    with Cons.prems show ?thesis by (auto simp: newer_row_def)
  next
    case (Some y)
    with Cons show ?thesis by (fastforce simp: newer_row_def split: if_splits)
  qed
qed simp

text \<open>A table as the database keeps it: no row is later than the present, and ids are below the next one.\<close>

definition decisions_ok :: "ms \<Rightarrow> decisions_db \<Rightarrow> bool" where
  "decisions_ok now db \<longleftrightarrow> (\<forall>r \<in> set (ddb_rows db). dd_createdAt r \<le> now \<and> dd_id r < ddb_nextId db)"

lemma number_rows_in:
  "r \<in> set (number_rows n rs) \<Longrightarrow> \<exists>q \<in> set rs. \<exists>k. r = q\<lparr>dd_id := n + k\<rparr> \<and> k < length rs"
proof (induction n rs rule: number_rows.induct)
  case (2 n q rs)
  show ?case
  proof (cases "r = q\<lparr>dd_id := n\<rparr>")
    case True
    then show ?thesis by (intro bexI [of _ q] exI [of _ 0]) simp_all
  next
    case False
    with 2 obtain p k where "p \<in> set rs" "r = p\<lparr>dd_id := Suc n + k\<rparr>" "k < length rs" by auto
    then show ?thesis by (intro bexI [of _ p] exI [of _ "Suc k"]) simp_all
  qed
qed simp

lemma number_rows_all: "q \<in> set rs \<Longrightarrow> \<exists>k. q\<lparr>dd_id := n + k\<rparr> \<in> set (number_rows n rs)"
proof (induction n rs rule: number_rows.induct)
  case (2 n p rs)
  show ?case
  proof (cases "q = p")
    case True
    then show ?thesis by (intro exI [of _ 0]) simp
  next
    case False
    with 2 obtain k where "q\<lparr>dd_id := Suc n + k\<rparr> \<in> set (number_rows (Suc n) rs)" by auto
    then show ?thesis by (intro exI [of _ "Suc k"]) simp
  qed
qed simp

text \<open>The rows of a recorded answer are newer than every earlier row.\<close>

lemma recorded_newest:
  assumes ok: "decisions_ok now db"
    and rec: "recordForApproval env row dec by db = (calls, db')" "ap_disclosureAsk row = Some dask"
      "\<not> rv_recordFails env" "rv_now env = now"
    and in_ask: "c \<in> set (da_counterparties dask)" "l \<in> set (da_labels dask)"
    and r: "newest_row (filter (\<lambda>r. dd_counterparty r = normalizeCounterparty c \<and> dd_label r = l)
              (filter (\<lambda>r. dd_conversationId r = da_conversationId dask \<and> dd_counterparty r \<in> S) (ddb_rows db'))) = Some r"
    and S: "normalizeCounterparty c \<in> S"
  shows "dd_decision r = dec"
proof -
  define added where "added = map (\<lambda>r. r\<lparr>dd_counterparty := normalizeCounterparty (dd_counterparty r), dd_createdAt := now\<rparr>)
      (ask_rows row dask dec by)"
  have "added \<noteq> []" using in_ask by (auto simp: added_def ask_rows_def)
  then have rows: "ddb_rows db' = ddb_rows db @ number_rows (ddb_nextId db) added"
    using rec by (auto simp: recordForApproval_def Let_def record_decisions_def added_def split: option.splits if_splits)
  have shape: "dd_decision q = dec \<and> dd_createdAt q = now \<and> ddb_nextId db \<le> dd_id q
      \<and> dd_conversationId q = da_conversationId dask"
    if "q \<in> set (number_rows (ddb_nextId db) added)" for q
    using number_rows_in [OF that] by (auto simp: added_def ask_rows_def)
  have "\<exists>q \<in> set added. dd_counterparty q = normalizeCounterparty c \<and> dd_label q = l"
    using in_ask by (fastforce simp: added_def ask_rows_def)
  then obtain q0 where q0: "q0 \<in> set added" "dd_counterparty q0 = normalizeCounterparty c" "dd_label q0 = l"
    by blast
  then obtain k where q: "q0\<lparr>dd_id := ddb_nextId db + k\<rparr> \<in> set (number_rows (ddb_nextId db) added)"
    using number_rows_all by blast
  let ?q = "q0\<lparr>dd_id := ddb_nextId db + k\<rparr>"
  have "\<not> newer_row ?q r"
    using q q0 shape [OF q] S rows by (intro newest_row_max [OF r]) simp
  moreover have rin: "r \<in> set (ddb_rows db')"
    using newest_row_in [of "filter (\<lambda>r. dd_counterparty r = normalizeCounterparty c \<and> dd_label r = l)
              (filter (\<lambda>r. dd_conversationId r = da_conversationId dask \<and> dd_counterparty r \<in> S) (ddb_rows db'))"] r
    by (metis (no_types, lifting) filter_is_subset newest_row.simps(1) option.distinct(1) option.inject subsetD)
  ultimately have "r \<notin> set (ddb_rows db)"
    using ok shape [OF q] by (auto simp: decisions_ok_def newer_row_def)
  with rin rows shape show ?thesis by auto
qed

lemma js_uniq_distinct [simp]: "distinct (js_uniq xs)"
  by (simp add: js_uniq_def)

definition thread_rows :: "decisions_db \<Rightarrow> string \<Rightarrow> string list \<Rightarrow> decision_row list" where
  "thread_rows db conv cps =
     filter (\<lambda>r. dd_conversationId r = conv \<and> dd_counterparty r \<in> set (map normalizeCounterparty cps)) (ddb_rows db)"

definition group_of :: "string \<times> string \<Rightarrow> decision_row list \<Rightarrow> decision_row list" where
  "group_of p rows = filter (\<lambda>r. dd_counterparty r = fst p \<and> dd_label r = snd p) rows"

text \<open>The answers read back, as pairs: each group once, with the decision of its newest row.\<close>

lemma latestFor_pairs:
  "map (\<lambda>d. ((dn_counterparty d, dn_label d), dn_decision d)) (latestFor db conv cps)
   = map (\<lambda>p. (p, dd_decision (the (newest_row (group_of p (thread_rows db conv cps))))))
       (js_uniq (map (\<lambda>r. (dd_counterparty r, dd_label r)) (thread_rows db conv cps)))"
  (is "_ = map ?pair ?keys")
proof -
  have l: "latestFor db conv cps
      = map (\<lambda>p. answer_of (the (newest_row (group_of p (thread_rows db conv cps))))) ?keys"
    by (auto simp: latestFor_def Let_def thread_rows_def group_of_def split_beta)
  have "(\<lambda>d. ((dn_counterparty d, dn_label d), dn_decision d))
        (answer_of (the (newest_row (group_of p (thread_rows db conv cps))))) = ?pair p" if "p \<in> set ?keys" for p
  proof -
    have "group_of p (thread_rows db conv cps) \<noteq> []"
      using that by (auto simp: group_of_def filter_empty_conv)
    then obtain r where "newest_row (group_of p (thread_rows db conv cps)) = Some r"
        "r \<in> set (group_of p (thread_rows db conv cps))"
      using newest_row_in by blast
    then show ?thesis by (auto simp: answer_of_def group_of_def prod_eq_iff)
  qed
  then show ?thesis unfolding l map_map comp_def by (intro map_cong [OF refl])
qed

lemma map_of_keyed: "map_of (map (\<lambda>p. (p, f p)) ks) k = (if k \<in> set ks then Some (f k) else None)"
  by (induction ks) auto

text \<open>What a later reader finds under a recipient and a label.\<close>

definition answer_for :: "decisions_db \<Rightarrow> string \<Rightarrow> string list \<Rightarrow> string \<Rightarrow> string \<Rightarrow> disclosure_decision option" where
  "answer_for db conv cps c l =
     map_option dd_decision (newest_row (group_of (c, l) (thread_rows db conv cps)))"

lemma answer_for_pairs:
  assumes norm: "\<forall>r \<in> set (ddb_rows db). normalizeCounterparty (dd_counterparty r) = dd_counterparty r"
  shows "map_of (rev (map (\<lambda>d. ((normalizeCounterparty (dn_counterparty d), dn_label d), dn_decision d))
           (latestFor db conv cps))) (c, l) = answer_for db conv cps c l"
proof -
  let ?rows = "thread_rows db conv cps"
  let ?keys = "js_uniq (map (\<lambda>r. (dd_counterparty r, dd_label r)) ?rows)"
  let ?norm = "\<lambda>((c, l), d). ((normalizeCounterparty c, l), d) :: (string \<times> string) \<times> disclosure_decision"
  let ?pairs = "map (\<lambda>p. (p, dd_decision (the (newest_row (group_of p ?rows))))) ?keys"
  have "map (\<lambda>d. ((normalizeCounterparty (dn_counterparty d), dn_label d), dn_decision d)) (latestFor db conv cps)
      = map ?norm (map (\<lambda>d. ((dn_counterparty d, dn_label d), dn_decision d)) (latestFor db conv cps))"
    by simp
  also have "\<dots> = map ?norm ?pairs" by (simp only: latestFor_pairs)
  also have "\<dots> = ?pairs"
    by (rule map_idI) (use norm in \<open>auto simp: thread_rows_def\<close>)
  finally have "map (\<lambda>d. ((normalizeCounterparty (dn_counterparty d), dn_label d), dn_decision d)) (latestFor db conv cps) = ?pairs" .
  then have "map_of (rev (map (\<lambda>d. ((normalizeCounterparty (dn_counterparty d), dn_label d), dn_decision d))
      (latestFor db conv cps))) (c, l)
      = (if (c, l) \<in> set ?keys then Some (dd_decision (the (newest_row (group_of (c, l) ?rows)))) else None)"
    by (simp add: rev_map map_of_keyed)
  also have "\<dots> = answer_for db conv cps c l"
  proof (cases "group_of (c, l) ?rows = []")
    case True
    then have "(c, l) \<notin> set ?keys" by (auto simp: group_of_def filter_empty_conv)
    with True show ?thesis by (simp add: answer_for_def)
  next
    case False
    then have "(c, l) \<in> set ?keys" by (force simp: group_of_def filter_empty_conv)
    with newest_row_in [OF False] show ?thesis by (auto simp: answer_for_def)
  qed
  finally show ?thesis .
qed

text \<open>After an answer was recorded, that answer is the one read back, for each recipient and label of the ask.\<close>

lemma recorded_answer_for:
  assumes ok: "decisions_ok now db"
    and rec: "recordForApproval env row dec by db = (calls, db')" "ap_disclosureAsk row = Some dask"
      "\<not> rv_recordFails env" "rv_now env = now"
    and in_ask: "c \<in> set (da_counterparties dask)" "l \<in> set (da_labels dask)"
    and asked: "normalizeCounterparty c \<in> set (map normalizeCounterparty cps)"
  shows "answer_for db' (da_conversationId dask) cps (normalizeCounterparty c) l = Some dec"
proof -
  let ?g = "group_of (normalizeCounterparty c, l) (thread_rows db' (da_conversationId dask) cps)"
  let ?added = "map (\<lambda>r. r\<lparr>dd_counterparty := normalizeCounterparty (dd_counterparty r), dd_createdAt := now\<rparr>)
      (ask_rows row dask dec by)"
  have rows: "ddb_rows db' = ddb_rows db @ number_rows (ddb_nextId db) ?added"
    using rec in_ask
    by (auto simp: recordForApproval_def Let_def record_decisions_def ask_rows_def split: option.splits if_splits)
  have "\<exists>q \<in> set ?added. dd_counterparty q = normalizeCounterparty c \<and> dd_label q = l
      \<and> dd_conversationId q = da_conversationId dask"
    using in_ask by (fastforce simp: ask_rows_def)
  then obtain q where q: "q \<in> set ?added" "dd_counterparty q = normalizeCounterparty c" "dd_label q = l"
      "dd_conversationId q = da_conversationId dask" by blast
  obtain k where "q\<lparr>dd_id := ddb_nextId db + k\<rparr> \<in> set (number_rows (ddb_nextId db) ?added)"
    using number_rows_all [OF q(1)] by blast
  with rows q(2-) have "\<exists>q \<in> set (ddb_rows db'). dd_counterparty q = normalizeCounterparty c \<and> dd_label q = l
      \<and> dd_conversationId q = da_conversationId dask"
    by (intro bexI [of _ "q\<lparr>dd_id := ddb_nextId db + k\<rparr>"]) simp_all
  then have "?g \<noteq> []"
    using asked by (auto simp: group_of_def thread_rows_def filter_empty_conv)
  then obtain r where r: "newest_row ?g = Some r" using newest_row_in by blast
  have "dd_decision r = dec"
    by (rule recorded_newest [OF ok rec in_ask, where S = "set (map normalizeCounterparty cps)"])
       (use r asked in \<open>simp_all add: group_of_def thread_rows_def\<close>)
  with r show ?thesis by (simp add: answer_for_def)
qed

lemma recorded_normalized:
  assumes "\<forall>r \<in> set (ddb_rows db). normalizeCounterparty (dd_counterparty r) = dd_counterparty r"
    and "recordForApproval env row dec by db = (calls, db')"
  shows "\<forall>r \<in> set (ddb_rows db'). normalizeCounterparty (dd_counterparty r) = dd_counterparty r"
proof -
  have n: "\<forall>r \<in> set (ddb_rows (record_decisions now rows db)). normalizeCounterparty (dd_counterparty r) = dd_counterparty r"
    for now rows
    using assms(1) by (auto simp: record_decisions_def dest!: number_rows_in)
  then show ?thesis
    using assms by (auto simp: recordForApproval_def Let_def split: option.splits if_splits)
qed

end
