(* ===== verification/BandReviewProps.thy ===== *)
theory BandReviewProps
  imports BandReviewProofs DisclosureProps
begin

text \<open>
  The band review over time: a draft bounces once, and what the principal answered to a request for
  personal data, as \<open>recordForApproval\<close> stores it and \<open>latestFor\<close> reads it back, decides later sends.
\<close>

section \<open>One bounce\<close>

lemma pii_bounce: "is_bounce (piiOutcome env i items rulings asked hasToken hasPrior) \<Longrightarrow> \<not> hasPrior"
proof (rule ccontr)
  assume b: "is_bounce (piiOutcome env i items rulings asked hasToken hasPrior)" and "\<not> \<not> hasPrior"
  then have "\<not> is_bounce (case rewriteOutcome i fs hasPrior of
        DBounce fs sr hb \<Rightarrow> (case q of Some req \<Rightarrow> if c then DBounce fs (Some (g req)) hb else DBounce fs sr hb
                             | None \<Rightarrow> DBounce fs sr hb) | other \<Rightarrow> other)"
    for fs c q and g :: "string \<Rightarrow> string list \<times> string"
    by (auto simp: rewriteOutcome_def)
  with b show False
    by (auto simp: piiOutcome_def Let_def split: option.splits if_splits prod.splits)
qed

lemma other_bounce: "is_bounce (otherRulesOutcome i v detected hasPrior) \<Longrightarrow> \<not> hasPrior"
  by (auto simp: otherRulesOutcome_def Let_def split: if_splits)

lemma answered_bounce: "is_bounce (judge_answered env i asked v hasPrior) \<Longrightarrow> \<not> hasPrior"
  by (auto simp: judge_answered_def Let_def base_outcome_def split: if_splits
      dest!: is_bounce_combine pii_bounce other_bounce)

lemma unreviewed_bounce:
  "items \<noteq> [] \<or> hasToken \<Longrightarrow> is_bounce (unreviewedPiiOutcome i items hasToken hasPrior) \<Longrightarrow> \<not> hasPrior"
  by (auto simp: unreviewedPiiOutcome_def Let_def dest!: is_bounce_combine split: if_splits)

lemma failure_bounce: "\<not> is_bounce (fst (onJudgeFailure env i limiter))"
  by (simp add: onJudgeFailure_def split: prod.split)

lemma failed_bounce: "is_bounce (fst (judge_failed env i key prior ts st)) \<Longrightarrow> prior = None"
proof (cases "own_items i = [] \<and> \<not> has_token i")
  case True
  then show "is_bounce (fst (judge_failed env i key prior ts st)) \<Longrightarrow> prior = None"
    by (auto simp: judge_failed_def Let_def split: option.splits)
next
  case False
  assume "is_bounce (fst (judge_failed env i key prior ts st))"
  with False have "is_bounce (unreviewedPiiOutcome i (own_items i) (has_token i) (prior \<noteq> None))"
    by (auto simp: judge_failed_def Let_def settle_def split: option.splits if_splits dest!: is_bounce_combine)
  then show "prior = None"
    using False unreviewed_bounce [of "own_items i" "has_token i" i "prior \<noteq> None"] by auto
qed

lemma rest_bounce: "is_bounce (fst (review_rest env i key prior st)) \<Longrightarrow> prior = None"
  by (auto simp: review_rest_def Let_def split_beta split: if_splits sum.splits
      dest!: failed_bounce answered_bounce)

text \<open>What a review does to the entries of the ledger.\<close>

abbreviation entry_of :: "string \<Rightarrow> band_state \<Rightarrow> ledger_entry option" where
  "entry_of key st \<equiv> map_of (bs_bounced st) key"

lemma settle_entry:
  "entry_of k (snd (settle env key ts d st)) =
     (if k = key
      then (if is_bounce d \<or> is_block d
            then Some \<lparr>le_taskEventIds = ts, le_at = rv_end env, le_rules = decision_rules d\<rparr> else None)
      else entry_of k st)"
  by (simp add: settle_def)

lemma failed_entry:
  "entry_of k (snd (snd (judge_failed env i key prior ts st))) =
     (let d = fst (judge_failed env i key prior ts st)
      in if k = key
         then (if is_bounce d \<or> is_block d
               then Some \<lparr>le_taskEventIds = ts, le_at = rv_end env, le_rules = decision_rules d\<rparr> else None)
         else entry_of k st)"
proof (cases "own_items i = [] \<and> \<not> has_token i")
  case True
  have nb: "\<not> is_block (fst (onJudgeFailure env i limiter))" for limiter
    by (simp add: onJudgeFailure_def hold_for_def split: prod.split)
  have "is_block (withoutQuote d q) = is_block d" for d q
    by (cases d) (simp_all add: withoutQuote_def)
  moreover obtain d t l where f: "onJudgeFailure env i (bs_limiter st) = (d, t, l)"
    by (cases "onJudgeFailure env i (bs_limiter st)")
  ultimately have "\<not> is_block (withoutQuote d q) \<and> \<not> is_bounce (withoutQuote d q)" for q
    using nb [of "bs_limiter st"] failure_bounce [of env i "bs_limiter st"] by simp
  then show ?thesis
    using True f by (auto simp: judge_failed_def Let_def hold_for_def split: option.splits)
next
  case False
  then show ?thesis
    by (auto simp: judge_failed_def Let_def settle_entry split_beta split: option.splits)
qed

lemma rest_entry:
  assumes "\<not> (rk_originUnresolved (review_asked_of env i prior) \<and> \<not> ri_principalDirected i)"
  shows "entry_of k (snd (snd (review_rest env i key prior st))) =
     (let d = fst (review_rest env i key prior st)
      in if k = key
         then (if is_bounce d \<or> is_block d
               then Some \<lparr>le_taskEventIds = task_ids i prior, le_at = rv_end env, le_rules = decision_rules d\<rparr> else None)
         else entry_of k st)"
  using assms
  by (cases "checked_verdict i (review_asked_of env i prior)")
     (auto simp: review_rest_def Let_def failed_entry settle_entry split_beta)

lemma rest_unresolved:
  assumes "rk_originUnresolved (review_asked_of env i prior) \<and> \<not> ri_principalDirected i"
  shows "snd (snd (review_rest env i key prior st)) = st"
    "\<not> is_bounce (fst (review_rest env i key prior st)) \<and> \<not> is_block (fst (review_rest env i key prior st))"
  using assms by (auto simp: review_rest_def Let_def unreviewedHold_def)

lemma prior_entry: "entry_of k (snd (priorBounce env key st)) =
    (if k = key then fst (priorBounce env key st) else entry_of k st)"
  by (auto simp: priorBounce_def split: option.split)

lemma rest_entry_other: "k \<noteq> key \<Longrightarrow> entry_of k (snd (snd (review_rest env i key prior st))) = entry_of k st"
  using rest_entry [where env = env and i = i and prior = prior and k = k and key = key and st = st]
    rest_unresolved [where env = env and i = i and prior = prior and key = key and st = st]
  by (cases "rk_originUnresolved (review_asked_of env i prior) \<and> \<not> ri_principalDirected i") (simp_all add: Let_def)

lemma review_entry_other:
  "k \<noteq> draftKey i \<Longrightarrow> entry_of k (snd (snd (review env i st))) = entry_of k st"
  by (simp add: review_def rest_entry_other prior_entry split_beta)

lemma review_entry_bounced:
  assumes "is_bounce (fst (review env i st)) \<or> is_block (fst (review env i st))"
  shows "\<exists>e. entry_of (draftKey i) (snd (snd (review env i st))) = Some e \<and> le_at e = rv_end env"
proof -
  obtain prior st' where p: "priorBounce env (draftKey i) st = (prior, st')" by fastforce
  let ?r = "review_rest env i (draftKey i) prior st'"
  have r: "review env i st = ?r" by (simp add: review_def p)
  have "\<not> (rk_originUnresolved (review_asked_of env i prior) \<and> \<not> ri_principalDirected i)"
    using rest_unresolved(2) [of env i prior "draftKey i" st'] assms r by auto
  from rest_entry [OF this, where k = "draftKey i" and key = "draftKey i" and st = st'] assms r show ?thesis
    by (auto simp: Let_def)
qed

definition run_reviews :: "(review_env \<times> review_input) list \<Rightarrow> band_state \<Rightarrow> band_state" where
  "run_reviews rs st = fold (\<lambda>(env, i) s. snd (snd (review env i s))) rs st"

lemma run_reviews_other:
  "\<forall>(env, i) \<in> set rs. draftKey i \<noteq> key \<Longrightarrow> entry_of key (run_reviews rs st) = entry_of key st"
proof (induction rs arbitrary: st)
  case (Cons r rs)
  obtain env i where r: "r = (env, i)" by (cases r)
  have "entry_of key (run_reviews rs (snd (snd (review env i st)))) = entry_of key (snd (snd (review env i st)))"
    using Cons by auto
  also have "\<dots> = entry_of key st"
    using Cons.prems r by (intro review_entry_other) auto
  finally show ?case by (simp add: run_reviews_def r)
qed (simp add: run_reviews_def)

text \<open>
  C8. A draft is sent back at most once. After a review bounced or blocked a draft, and whatever reviews
  of other drafts run in between, the next review of that draft within half an hour does not
  bounce it: it sends it, holds it for the principal or blocks it.
\<close>

theorem draft_bounces_once:
  assumes first: "is_bounce (fst (review env i st)) \<or> is_block (fst (review env i st))"
    and between: "\<forall>(e, j) \<in> set rs. draftKey j \<noteq> draftKey i"
    and same: "draftKey i' = draftKey i"
    and soon: "rv_start env' - rv_end env \<le> BOUNCE_TTL_MS"
  shows "\<not> is_bounce (fst (review env' i' (run_reviews rs (snd (snd (review env i st))))))"
proof -
  let ?st = "run_reviews rs (snd (snd (review env i st)))"
  obtain e where e: "entry_of (draftKey i') ?st = Some e" "le_at e = rv_end env"
    using review_entry_bounced [OF first] run_reviews_other [OF between] same by metis
  then have "priorBounce env' (draftKey i') ?st = (Some e, ?st)"
    using soon by (simp add: priorBounce_def)
  then show ?thesis
    using rest_bounce [of env' i' "draftKey i'" "Some e" ?st] by (auto simp: review_def)
qed

section \<open>A recorded answer decides later sends\<close>

lemma said_from_answers:
  assumes norm: "\<forall>r \<in> set (ddb_rows db). normalizeCounterparty (dd_counterparty r) = dd_counterparty r"
  shows "principalSaid others (latestFor db conv others) label =
     (let answers = map (\<lambda>r. answer_for db conv others r label) others
      in if others = [] then None
         else if Some SaidNo \<in> set answers then Some SaidNo
         else if list_all (\<lambda>a. a = Some SaidYes) answers then Some SaidYes
         else None)"
  by (simp add: principalSaid_def Let_def js_map_get_def answer_for_pairs [OF norm])

text \<open>A table that was only ever written by the recorder: answers are stored under normalized identifiers.\<close>

definition recorded_table :: "ms \<Rightarrow> decisions_db \<Rightarrow> bool" where
  "recorded_table now db \<longleftrightarrow> decisions_ok now db
     \<and> (\<forall>r \<in> set (ddb_rows db). normalizeCounterparty (dd_counterparty r) = dd_counterparty r)"

lemma recorded_table_ok: "recorded_table now db \<Longrightarrow> decisions_ok now db"
  unfolding recorded_table_def by (rule conjunct1)

lemma recorded_table_norm:
  "recorded_table now db \<Longrightarrow> \<forall>r \<in> set (ddb_rows db). normalizeCounterparty (dd_counterparty r) = dd_counterparty r"
  unfolding recorded_table_def by (rule conjunct2)

lemma authority_not_principal:
  "\<not> principal_role (Option.bind a sa_originator) \<Longrightarrow> fst (authorityOf env a rs cov) \<noteq> AuthPrincipal"
  by (cases a) (auto simp: authorityOf_def Let_def)

lemma review_send_answered:
  assumes "is_send (fst (review_rest env i key prior st))" "own_items i \<noteq> []"
  shows "\<exists>v. checked_verdict i (review_asked_of env i prior) = Inr v
     \<and> all_authorized env i (review_asked_of env i prior) (rulings_of i v) (own_items i)"
proof (cases "checked_verdict i (review_asked_of env i prior)")
  case (Inl f)
  with assms judge_failed_send_iff [of env i key prior "task_ids i prior" st] show ?thesis
    by (auto simp: review_rest_def Let_def split: if_splits)
next
  case (Inr v)
  with assms show ?thesis
    by (auto simp: review_rest_def Let_def split_beta answered_send_iff split: if_splits)
qed


text \<open>
  A yes authorizes its labels to its recipients. Once the principal agreed to an ask and the answer
  was stored, every detail with one of its labels is authorized in a send on that thread to nobody
  but the people of the ask and the principal, whatever the judge ruled on it.
\<close>

theorem approved_detail_is_authorized:
  assumes table: "recorded_table now db"
    and rec: "recordForApproval renv row SaidYes by db = (calls, db')" "ap_disclosureAsk row = Some dask"
      "\<not> rv_recordFails renv" "rv_now renv = now"
    and to: "nonPrincipalRecipients i \<noteq> []"
      "set (nonPrincipalRecipients i) \<subseteq> set (map normalizeCounterparty (da_counterparties dask))"
    and label: "di_label item \<in> set (da_labels dask)"
    and read: "rk_decisions asked = Some (latestFor db' (da_conversationId dask) (nonPrincipalRecipients i))"
  shows "item_authorized (review_context env i asked rs) item r"
proof -
  let ?others = "nonPrincipalRecipients i"
  have norm: "\<forall>r \<in> set (ddb_rows db'). normalizeCounterparty (dd_counterparty r) = dd_counterparty r"
    by (rule recorded_normalized [OF recorded_table_norm [OF table] rec(1)])
  have yes: "answer_for db' (da_conversationId dask) ?others q (di_label item) = Some SaidYes" if q: "q \<in> set ?others" for q
  proof -
    obtain c where c: "c \<in> set (da_counterparties dask)" "q = normalizeCounterparty c"
      using to(2) q by auto
    have "normalizeCounterparty c \<in> set (map normalizeCounterparty ?others)"
      using c(2) q normalizeCounterparty_idem [of c] by (auto intro!: image_eqI [of _ _ "normalizeCounterparty c"])
    with c(2) show ?thesis
      using recorded_answer_for [OF recorded_table_ok [OF table] rec c(1) label] by simp
  qed
  then have "principalSaid ?others (latestFor db' (da_conversationId dask) ?others) (di_label item) = Some SaidYes"
    using to(1) by (auto simp: said_from_answers [OF norm] Let_def list_all_iff)
  then have "pc_said (review_context env i asked rs) (di_label item) = Some SaidYes"
    by (simp add: review_context_def Let_def read js_or_def split_beta)
  then show ?thesis by (simp add: item_authorized_def)
qed

end
