(* ===== verification/BandDemos.thy ===== *)
theory BandDemos
  imports BandReviewProps
begin

text \<open>Concrete reviews at which the statements about the band review apply.\<close>

definition demo_evidence :: brief_evidence where
  "demo_evidence =
     \<lparr>be_taskContent = None, be_originContent = None, be_originKind = None, be_originAt = None,
      be_senderHistory = [], be_senderHistoryOlderLeftOut = False, be_taskProgress = None, be_toolResults = [],
      be_reportsToPrincipal = None, be_principalBlock = None, be_authority = None, be_principalDecisions = []\<rparr>"

definition demo_answers :: brief_answers where
  "demo_answers =
     \<lparr>ba_purpose = Some Serving, ba_speaksAsPrincipal = Some False, ba_stakes = Some Routine,
      ba_stakesReason = Some [], ba_unsupportedClaims = Some [''Bob agreed.''], ba_unnecessaryItems = Some [],
      ba_disclosures = None, ba_reason = []\<rparr>"

definition demo_review_env :: "decision_answer list option \<Rightarrow> brief_answers \<Rightarrow> ms \<Rightarrow> review_env" where
  "demo_review_env decisions answers now =
     \<lparr>rv_judgeEnabled = True,
      rv_collect = (\<lambda>_ _ _. \<lparr>ce_unavailable = False, ce_originUnresolved = False, ce_evidence = demo_evidence,
                              ce_decisions = decisions, ce_linkedOutreachId = None\<rparr>),
      rv_judge = (\<lambda>_. Inr answers), rv_contactTier = (\<lambda>_. Inr None), rv_orgDomains = (\<lambda>_. []),
      rv_reportEvidence = (\<lambda>s. s), rv_start = now, rv_end = now + 10\<rparr>"

definition demo_input :: "string \<Rightarrow> detected_item list \<Rightarrow> review_input" where
  "demo_input content items =
     \<lparr>ri_content = content, ri_channel = ''email'', ri_recipients = [''a@b.c''], ri_principalRecipients = None,
      ri_score = num_int 85, ri_conversationId = Some ''c1'', ri_taskEventId = None, ri_principalDirected = False,
      ri_reportedToPrincipal = None, ri_detectedItems = items, ri_recipientTier = None, ri_recipientTiers = None,
      ri_subject = None, ri_recipientContactIds = []\<rparr>"

definition demo_state :: band_state where
  "demo_state = \<lparr>bs_bounced = [], bs_limiter = new_fail_open None None\<rparr>"

lemma demo_bounces:
  "is_bounce (fst (review (demo_review_env None demo_answers 0) (demo_input ''Bob agreed.'' []) demo_state))"
  by code_simp

theorem draft_bounces_once_witness:
  "\<not> is_bounce (fst (review (demo_review_env None demo_answers 100) (demo_input ''Bob agreed. Really.'' [])
     (run_reviews [] (snd (snd (review (demo_review_env None demo_answers 0) (demo_input ''Bob agreed.'' []) demo_state))))))"
proof (rule draft_bounces_once)
  show "is_bounce (fst (review (demo_review_env None demo_answers 0) (demo_input ''Bob agreed.'' []) demo_state))
      \<or> is_block (fst (review (demo_review_env None demo_answers 0) (demo_input ''Bob agreed.'' []) demo_state))"
    using demo_bounces by blast
  show "draftKey (demo_input ''Bob agreed. Really.'' []) = draftKey (demo_input ''Bob agreed.'' [])"
    by (simp add: draftKey_def demo_input_def)
  show "rv_start (demo_review_env None demo_answers 100) - rv_end (demo_review_env None demo_answers 0) \<le> BOUNCE_TTL_MS"
    by (simp add: demo_review_env_def BOUNCE_TTL_MS_def)
qed simp

definition demo_item :: detected_item where
  "demo_item = \<lparr>di_id = ''P1'', di_label = ''ssn'', di_text = ''123'', di_field = FieldBody\<rparr>"

definition demo_directed :: brief_answers where
  "demo_directed = demo_answers\<lparr>ba_unsupportedClaims := Some [],
     ba_disclosures := Some [\<lparr>dr_id = ''P1'', dr_basis = Directed, dr_requested = True, dr_reason = []\<rparr>]\<rparr>"

definition demo_ask :: disclosure_ask where
  "demo_ask = \<lparr>da_conversationId = ''c1'', da_counterparties = [''a@b.c''], da_labels = [''ssn''],
     da_requester = ''a@b.c'', da_outreachId = None, da_taskTitle = None, da_requesterName = None\<rparr>"

definition demo_approval :: approval_row where
  "demo_approval = \<lparr>ap_id = 1, ap_shortRef = None, ap_disclosureAsk = Some demo_ask\<rparr>"

definition demo_recorder :: recorder_env where
  "demo_recorder = \<lparr>rv_now = 5, rv_recordFails = False, rv_outreachWired = False\<rparr>"

definition demo_answered :: "disclosure_decision \<Rightarrow> decisions_db" where
  "demo_answered d = snd (recordForApproval demo_recorder demo_approval d PrincipalReaction \<lparr>ddb_rows = [], ddb_nextId = 0\<rparr>)"

lemma demo_recorded:
  "recordForApproval demo_recorder demo_approval d PrincipalReaction \<lparr>ddb_rows = [], ddb_nextId = 0\<rparr>
    = (fst (recordForApproval demo_recorder demo_approval d PrincipalReaction \<lparr>ddb_rows = [], ddb_nextId = 0\<rparr>), demo_answered d)"
  by (simp add: demo_answered_def)

lemma demo_table: "recorded_table 5 \<lparr>ddb_rows = [], ddb_nextId = 0\<rparr>"
  by (simp add: recorded_table_def decisions_ok_def)

lemma demo_parties: "nonPrincipalRecipients (demo_input content items) = [''a@b.c'']"
  by (simp add: nonPrincipalRecipients_def demo_input_def principal_ids_def js_or_def js_uniq_def bareId_def
      normalizeCounterparty_def angle_address_def angle_core_def js_trim_def js_lower_def lower_char_def js_space_def
      Let_def)


theorem approved_detail_is_authorized_witness:
  "item_authorized (review_context (demo_review_env None demo_directed 0) (demo_input ''It is 123.'' [demo_item])
      \<lparr>rk_verdict = Inl JudgeDisabled, rk_authority = None,
       rk_decisions = Some (latestFor (demo_answered SaidYes) ''c1'' [''a@b.c'']),
       rk_linkedOutreachId = None, rk_originUnresolved = False\<rparr> []) demo_item
     \<lparr>dr_id = ''P1'', dr_basis = Unsupported, dr_requested = True, dr_reason = []\<rparr>"
proof -
  have norm: "normalizeCounterparty ''a@b.c'' = ''a@b.c''"
    by (simp add: normalizeCounterparty_def angle_address_def angle_core_def js_trim_def js_lower_def lower_char_def
        js_space_def js_or_def Let_def)
  show ?thesis
    by (rule approved_detail_is_authorized [OF demo_table demo_recorded, where dask = demo_ask])
       (simp_all add: demo_approval_def demo_recorder_def demo_ask_def norm demo_parties demo_item_def)
qed

end
