(* ===== verification/ExportControls.thy ===== *)
theory ExportControls
  imports KgTypes BandReviewRun
begin

text \<open>
  Bulk export controls (\<open>src/security/export-controls.ts\<close>): which records a message with attachments
  or a spreadsheet write carries, how sensitive each is, and whether they may leave. The table of nodes
  is a lookup that answers rows or fails; the input of a skill is a JSON object.
\<close>

section \<open>Configuration and items\<close>

record export_config =
  ec_confidentialThreshold :: nat
  ec_driveFolderIds :: "string list"
  ec_urls :: "string list"
  ec_filePaths :: "string list"

definition DEFAULT_EXPORT_CONTROLS :: export_config where
  "DEFAULT_EXPORT_CONTROLS =
     \<lparr>ec_confidentialThreshold = 10, ec_driveFolderIds = [], ec_urls = [], ec_filePaths = []\<rparr>"

text \<open>The setting of the configuration file; lists that are absent are empty.\<close>

definition resolveExportControls :: "jsval \<Rightarrow> string list option \<Rightarrow> string list option \<Rightarrow> string list option \<Rightarrow> export_config" where
  "resolveExportControls threshold folders urls paths =
     \<lparr>ec_confidentialThreshold =
        (case threshold of
           JNum (Fin q) \<Rightarrow> if 1 \<le> q then nat \<lfloor>q\<rfloor> else ec_confidentialThreshold DEFAULT_EXPORT_CONTROLS
         | _ \<Rightarrow> ec_confidentialThreshold DEFAULT_EXPORT_CONTROLS),
      ec_driveFolderIds = js_or [] folders, ec_urls = js_or [] urls, ec_filePaths = js_or [] paths\<rparr>"

record export_item =
  xi_nodeId :: "string option"
  xi_label :: string
  xi_sensitivity :: sensitivity

datatype export_destination =
    EmailTo string
  | SignalTo string
  | DriveFolder string
  | Spreadsheet string
  | UrlSink string
  | FilePath string

datatype export_reason = RestrictedBulk | ConfidentialThreshold | RestrictedSingle | UnknownDestination

datatype export_outcome =
    ExportAllow
  | ExportBlock (xo_message: string) (xo_items: "export_item list")
  | ExportApproval (xa_code: export_reason) (xa_message: string) (xa_items: "export_item list") (xa_destination: string)

definition MCP_EXPORT_TOOLS :: "string list" where
  "MCP_EXPORT_TOOLS = [''create_drive_file'', ''create_sheet'', ''append_table_rows'']"

definition GATEWAY_ATTACHMENT_TOOLS :: "string list" where
  "GATEWAY_ATTACHMENT_TOOLS = [''email-send'', ''email-reply'', ''email-draft-save'', ''send-draft'']"

section \<open>The gate\<close>

text \<open>A number in a message.\<close>

fun nat_text :: "nat \<Rightarrow> string" where
  "nat_text n = (if n < 10 then [char_of (48 + n)] else nat_text (n div 10) @ [char_of (48 + n mod 10)])"

definition isConfidentialOrAbove :: "sensitivity \<Rightarrow> bool" where
  "isConfidentialOrAbove s \<longleftrightarrow> SENSITIVITY_RANK SConfidential \<le> SENSITIVITY_RANK s"

definition isRestricted :: "sensitivity \<Rightarrow> bool" where
  "isRestricted s \<longleftrightarrow> s = SRestricted"

fun formatDestination :: "export_destination \<Rightarrow> string" where
  "formatDestination (EmailTo a) = a"
| "formatDestination (SignalTo a) = a"
| "formatDestination (DriveFolder f) = ''drive:folder:'' @ f"
| "formatDestination (Spreadsheet s) = ''sheets:'' @ s"
| "formatDestination (UrlSink u) = u"
| "formatDestination (FilePath p) = p"

fun isNonContactSink :: "export_destination \<Rightarrow> bool" where
  "isNonContactSink (EmailTo _) = False"
| "isNonContactSink (SignalTo _) = False"
| "isNonContactSink _ = True"

definition isUrlPrefixAllowed :: "string \<Rightarrow> string \<Rightarrow> bool" where
  "isUrlPrefixAllowed url entry =
     (if url = entry then True
      else if \<not> starts_with entry url then False
      else (let rest = drop (length entry) url
            in rest = [] \<or> starts_with ''/'' rest \<or> starts_with ''?'' rest \<or> starts_with ''#'' rest))"

definition isPathPrefixAllowed :: "string \<Rightarrow> string \<Rightarrow> bool" where
  "isPathPrefixAllowed path entry =
     (if path = entry then True
      else if \<not> starts_with entry path then False
      else (let rest = drop (length entry) path in ends_with ''/'' entry \<or> starts_with ''/'' rest))"

fun isDestinationAllowlisted :: "export_destination \<Rightarrow> export_config \<Rightarrow> bool" where
  "isDestinationAllowlisted (DriveFolder f) cfg = (f \<in> set (ec_driveFolderIds cfg))"
| "isDestinationAllowlisted (Spreadsheet s) cfg = (s \<in> set (ec_driveFolderIds cfg))"
| "isDestinationAllowlisted (UrlSink u) cfg = list_ex (isUrlPrefixAllowed u) (ec_urls cfg)"
| "isDestinationAllowlisted (FilePath p) cfg = list_ex (isPathPrefixAllowed p) (ec_filePaths cfg)"
| "isDestinationAllowlisted _ cfg = True"

definition restricted_count :: "export_item list \<Rightarrow> nat" where
  "restricted_count items = length (filter (\<lambda>i. isRestricted (xi_sensitivity i)) items)"

definition confidential_count :: "export_item list \<Rightarrow> nat" where
  "confidential_count items = length (filter (\<lambda>i. isConfidentialOrAbove (xi_sensitivity i)) items)"

definition evaluateExportGate :: "export_config \<Rightarrow> export_item list \<Rightarrow> export_destination \<Rightarrow> bool \<Rightarrow> export_outcome" where
  "evaluateExportGate cfg items dest humanApproved =
     (if items = [] then ExportAllow
      else (let restricted = restricted_count items;
                confidential = confidential_count items;
                threshold = ec_confidentialThreshold cfg
            in if 1 < restricted
               then ExportBlock (''Bulk export blocked: '' @ nat_text restricted
                      @ '' restricted items cannot be exported together. Share restricted data one item at a time with explicit per-item confirmation.'')
                      items
               else if \<not> humanApproved \<and> restricted = 1
               then ExportApproval RestrictedSingle
                      ''Export requires approval: this action includes 1 restricted item. Confirm you intend to share this specific item.''
                      items (formatDestination dest)
               else if \<not> humanApproved \<and> threshold < confidential
               then ExportApproval ConfidentialThreshold
                      (''Export requires approval: '' @ nat_text confidential
                       @ '' confidential-or-higher items exceed the threshold of '' @ nat_text threshold @ ''.'')
                      items (formatDestination dest)
               else if \<not> humanApproved \<and> isNonContactSink dest \<and> \<not> isDestinationAllowlisted dest cfg
                       \<and> (0 < confidential \<or> 0 < restricted)
               then ExportApproval UnknownDestination
                      (''Export requires approval: destination '' @ dquote @ formatDestination dest @ dquote
                       @ '' is not on the allowed destinations list.'')
                      items (formatDestination dest)
               else ExportAllow))"

section \<open>What a skill call exports\<close>

record raw_export_item =
  rw_node_id :: "string option"
  rw_nodeId :: "string option"
  rw_label :: "string option"
  rw_sensitivity :: "string option"

fun str_or_undef :: "jsval \<Rightarrow> string option" where
  "str_or_undef (JStr s) = Some s"
| "str_or_undef _ = None"

definition read_raw_item :: "jsval \<Rightarrow> raw_export_item" where
  "read_raw_item obj =
     \<lparr>rw_node_id = str_or_undef (jget obj ''node_id''), rw_nodeId = str_or_undef (jget obj ''nodeId''),
      rw_label = str_or_undef (jget obj ''label''), rw_sensitivity = str_or_undef (jget obj ''sensitivity'')\<rparr>"

definition is_object :: "jsval \<Rightarrow> bool" where
  "is_object v \<longleftrightarrow> typeof_object v \<and> v \<noteq> JNull"

fun parseRawExportItems :: "jsval \<Rightarrow> raw_export_item list" where
  "parseRawExportItems (JArr entries) = map read_raw_item (filter is_object entries)"
| "parseRawExportItems _ = []"

definition parseSensitivity :: "string option \<Rightarrow> sensitivity option" where
  "parseSensitivity v =
     (if v = Some ''public'' then Some SPublic
      else if v = Some ''internal'' then Some SInternal
      else if v = Some ''confidential'' then Some SConfidential
      else if v = Some ''restricted'' then Some SRestricted
      else None)"

definition resolveItemSensitivity :: "sensitivity option \<Rightarrow> sensitivity option \<Rightarrow> sensitivity" where
  "resolveItemSensitivity explicit fromDb =
     (let dbLevel = js_or SInternal fromDb
      in case explicit of None \<Rightarrow> dbLevel | Some e \<Rightarrow> maxSensitivity e dbLevel)"

fun countRows :: "jsval \<Rightarrow> nat" where
  "countRows (JArr vs) = length vs"
| "countRows _ = 0"

definition labelled :: "string \<Rightarrow> raw_export_item" where
  "labelled l = \<lparr>rw_node_id = None, rw_nodeId = None, rw_label = Some l, rw_sensitivity = None\<rparr>"

definition attachment_item :: "raw_export_item option \<Rightarrow> nat \<Rightarrow> jsval \<Rightarrow> raw_export_item" where
  "attachment_item fromExport i att =
     (let placeholder = ''attachment['' @ nat_text i @ '']''
      in if \<not> is_object att then js_or (labelled placeholder) fromExport
         else
           (let filename = js_or placeholder (str_or_undef (jget att ''filename''))
            in \<lparr>rw_node_id =
                  js_coalesce (Option.bind fromExport rw_node_id)
                    (js_coalesce (Option.bind fromExport rw_nodeId) (str_or_undef (jget att ''node_id''))),
                rw_nodeId = None,
                rw_label = Some (js_or filename (Option.bind fromExport rw_label)),
                rw_sensitivity =
                  js_coalesce (Option.bind fromExport rw_sensitivity) (str_or_undef (jget att ''sensitivity''))\<rparr>))"

definition extractAttachmentExportItems :: "(string \<times> jsval) list \<Rightarrow> raw_export_item list" where
  "extractAttachmentExportItems input =
     (let exportItems = parseRawExportItems (jfield input ''export_items'')
      in case jfield input ''attachments'' of
           JArr (a # as) \<Rightarrow>
             map (\<lambda>(i, att). attachment_item (if i < length exportItems then Some (exportItems ! i) else None) i att)
               (enumerate 0 (a # as))
         | _ \<Rightarrow> exportItems)"

definition extractMcpRowItems :: "(string \<times> jsval) list \<Rightarrow> string \<Rightarrow> raw_export_item list" where
  "extractMcpRowItems input rowLabel =
     (let explicit = parseRawExportItems (jfield input ''export_items'');
          values = countRows (jfield input ''values'');
          rowCount = (if values \<noteq> 0 then values else countRows (jfield input ''rows''))
      in if explicit \<noteq> [] then explicit
         else map (\<lambda>i. labelled (rowLabel @ '' '' @ nat_text (i + 1))) [0..<rowCount])"

definition extractExportItemsFromInput :: "string \<Rightarrow> (string \<times> jsval) list \<Rightarrow> raw_export_item list" where
  "extractExportItemsFromInput tool input =
     (if tool \<in> set GATEWAY_ATTACHMENT_TOOLS then extractAttachmentExportItems input
      else
        (let explicit = parseRawExportItems (jfield input ''export_items'')
         in if explicit \<noteq> [] then explicit
            else if tool = ''create_drive_file''
            then [labelled (js_or (js_or ''drive file'' (str_or_undef (jfield input ''filename'')))
                              (str_or_undef (jfield input ''file_name'')))]
            else if tool = ''create_sheet''
            then (let rowItems = extractMcpRowItems input ''row''
                  in if rowItems \<noteq> [] then rowItems
                     else [labelled (js_or ''new sheet'' (str_or_undef (jfield input ''title'')))])
            else if tool = ''append_table_rows'' then extractMcpRowItems input ''row''
            else []))"

text \<open>A string with something in it, trimmed.\<close>

definition trimmed_string :: "jsval \<Rightarrow> string option" where
  "trimmed_string v =
     (case str_or_undef v of None \<Rightarrow> None | Some s \<Rightarrow> if js_trim s = [] then None else Some (js_trim s))"

definition nullish_or :: "jsval \<Rightarrow> jsval \<Rightarrow> jsval" where
  "nullish_or a b = (if a = JUndef \<or> a = JNull then b else a)"

definition extractDestinationFromInput :: "string \<Rightarrow> (string \<times> jsval) list \<Rightarrow> export_destination option" where
  "extractDestinationFromInput tool input =
     (if tool \<in> set GATEWAY_ATTACHMENT_TOOLS then map_option EmailTo (trimmed_string (jfield input ''to''))
      else if tool = ''signal-send'' then map_option SignalTo (trimmed_string (jfield input ''recipient''))
      else if tool = ''create_drive_file''
      then Some (DriveFolder (js_or ''root''
             (trimmed_string (nullish_or (jfield input ''folder_id'') (jfield input ''folderId'')))))
      else if tool = ''create_sheet'' \<or> tool = ''append_table_rows''
      then (case trimmed_string (nullish_or (jfield input ''spreadsheet_id'') (jfield input ''spreadsheetId'')) of
              Some s \<Rightarrow> Some (Spreadsheet s)
            | None \<Rightarrow> if tool = ''create_sheet'' then Some (Spreadsheet ''(new)'') else None)
      else None)"

section \<open>The service\<close>

text \<open>A row is an id, a label and a sensitivity; \<open>None\<close> is a query that fails.\<close>

type_synonym node_lookup = "string list \<Rightarrow> (string \<times> string \<times> string) list option"

definition loadNodeSensitivities :: "node_lookup \<Rightarrow> string list \<Rightarrow> (string \<times> sensitivity \<times> string) list" where
  "loadNodeSensitivities nodes ids =
     (if ids = [] then []
      else (case nodes ids of
              Some rows \<Rightarrow>
                fold (\<lambda>(i, l, s). AList.update i (js_or SInternal (parseSensitivity (Some s)), l)) rows []
            | None \<Rightarrow>
                fold (\<lambda>i m. if map_of m i \<noteq> None then m
                            else AList.update i (SConfidential, ''node '' @ i) m) ids []))"

definition raw_node :: "raw_export_item \<Rightarrow> string option" where
  "raw_node r = js_coalesce (rw_node_id r) (rw_nodeId r)"

definition resolve_item :: "(string \<times> sensitivity \<times> string) list \<Rightarrow> nat \<Rightarrow> raw_export_item \<Rightarrow> export_item" where
  "resolve_item node_map index r =
     (let nodeId = raw_node r;
          fromDb = Option.bind (truthy_text nodeId) (map_of node_map);
          label = js_or (js_or (case truthy_text nodeId of Some i \<Rightarrow> ''node '' @ i
                                | None \<Rightarrow> ''item '' @ nat_text (index + 1))
                          (truthy_text (map_option snd fromDb)))
                    (truthy_text (map_option js_trim (rw_label r)))
      in \<lparr>xi_nodeId = nodeId, xi_label = label,
          xi_sensitivity = resolveItemSensitivity (parseSensitivity (rw_sensitivity r)) (map_option fst fromDb)\<rparr>)"

definition resolveItems :: "node_lookup \<Rightarrow> raw_export_item list \<Rightarrow> export_item list" where
  "resolveItems nodes raw =
     (let ids = List.map_filter (\<lambda>r. truthy_text (raw_node r)) raw;
          node_map = loadNodeSensitivities nodes ids
      in map (\<lambda>(i, r). resolve_item node_map i r) (enumerate 0 raw))"

definition evaluateSkillExport :: "node_lookup \<Rightarrow> export_config \<Rightarrow> string \<Rightarrow> (string \<times> jsval) list \<Rightarrow> bool
    \<Rightarrow> (export_outcome \<times> export_item list) option" where
  "evaluateSkillExport nodes cfg tool input humanApproved =
     (if tool \<notin> set MCP_EXPORT_TOOLS \<and> tool \<notin> set GATEWAY_ATTACHMENT_TOOLS then None
      else (let raw = extractExportItemsFromInput tool input
            in if raw = [] then None
               else (let items = resolveItems nodes raw;
                         dest = js_or (EmailTo ''(implicit reply)'') (extractDestinationFromInput tool input)
                     in Some (evaluateExportGate cfg items dest humanApproved, items))))"

record outbound_attachment =
  oa_fileUrl :: string
  oa_filename :: string
  oa_contentType :: string
  oa_nodeId :: "string option"
  oa_sensitivity :: "string option"

definition evaluateGatewayAttachments :: "node_lookup \<Rightarrow> export_config \<Rightarrow> outbound_attachment list
    \<Rightarrow> export_destination \<Rightarrow> raw_export_item list \<Rightarrow> bool \<Rightarrow> (export_outcome \<times> export_item list) option" where
  "evaluateGatewayAttachments nodes cfg attachments dest exportItems humanApproved =
     (let raw = (if exportItems \<noteq> [] then exportItems
                 else map (\<lambda>a. \<lparr>rw_node_id = oa_nodeId a, rw_nodeId = None, rw_label = Some (oa_filename a),
                                rw_sensitivity = oa_sensitivity a\<rparr>) attachments)
      in if raw = [] then None
         else (let items = resolveItems nodes raw
               in Some (evaluateExportGate cfg items dest humanApproved, items)))"

text \<open>A bullet is one character outside Latin-1; a hyphen stands for it.\<close>

fun sensitivity_name :: "sensitivity \<Rightarrow> string" where
  "sensitivity_name SPublic = ''public''"
| "sensitivity_name SInternal = ''internal''"
| "sensitivity_name SConfidential = ''confidential''"
| "sensitivity_name SRestricted = ''restricted''"

definition formatItemSummary :: "export_item list \<Rightarrow> string" where
  "formatItemSummary items =
     js_join newline (map (\<lambda>i. ''- '' @ xi_label i
        @ (case truthy_text (xi_nodeId i) of None \<Rightarrow> [] | Some n \<Rightarrow> '' ('' @ n @ '')'')
        @ '' ['' @ sensitivity_name (xi_sensitivity i) @ '']'') items)"

definition maxItemSensitivity :: "export_item list \<Rightarrow> sensitivity" where
  "maxItemSensitivity items =
     fold (\<lambda>i m. if SENSITIVITY_RANK m < SENSITIVITY_RANK (xi_sensitivity i) then xi_sensitivity i else m) items SPublic"

end
