(* ===== verification/ExportControlsProps.thy ===== *)
theory ExportControlsProps
  imports ExportControls
begin

text \<open>
  The gate decides exactly by the counts of restricted and confidential items, it never opens when an
  item becomes more sensitive, and approval never opens a bulk export of restricted items.
\<close>

fun outcome_rank :: "export_outcome \<Rightarrow> nat" where
  "outcome_rank ExportAllow = 0"
| "outcome_rank (ExportApproval _ _ _ _) = 1"
| "outcome_rank (ExportBlock _ _) = 2"

text \<open>What the gate decides, as one expression over the counts.\<close>

definition gate_spec :: "export_config \<Rightarrow> nat \<Rightarrow> nat \<Rightarrow> bool \<Rightarrow> bool \<Rightarrow> nat" where
  "gate_spec cfg restricted confidential openSink approved =
     (if 1 < restricted then 2
      else if approved then 0
      else if restricted = 1 \<or> ec_confidentialThreshold cfg < confidential \<or> (openSink \<and> 0 < confidential)
      then 1 else 0)"

lemma restricted_le_confidential: "restricted_count items \<le> confidential_count items"
  by (induction items)
    (auto simp: restricted_count_def confidential_count_def isRestricted_def isConfidentialOrAbove_def)

lemma gate_rank:
  "outcome_rank (evaluateExportGate cfg items dest approved) =
     gate_spec cfg (restricted_count items) (confidential_count items)
       (isNonContactSink dest \<and> \<not> isDestinationAllowlisted dest cfg) approved"
  using restricted_le_confidential [of items]
  by (auto simp: evaluateExportGate_def gate_spec_def Let_def restricted_count_def confidential_count_def)


lemma counts_mono:
  assumes "list_all2 (\<lambda>a b. SENSITIVITY_RANK (xi_sensitivity a) \<le> SENSITIVITY_RANK (xi_sensitivity b)) items items'"
  shows "restricted_count items \<le> restricted_count items' \<and> confidential_count items \<le> confidential_count items'"
  using assms
proof (induction rule: list_all2_induct)
  case (Cons a as b bs)
  have "isRestricted (xi_sensitivity a) \<Longrightarrow> isRestricted (xi_sensitivity b)"
    using Cons(1) by (cases "xi_sensitivity b") (auto simp: isRestricted_def)
  moreover have "isConfidentialOrAbove (xi_sensitivity a) \<Longrightarrow> isConfidentialOrAbove (xi_sensitivity b)"
    using Cons(1) by (simp add: isConfidentialOrAbove_def)
  ultimately show ?case
    using Cons(3) by (auto simp: restricted_count_def confidential_count_def)
qed (simp add: restricted_count_def)

text \<open>Raising the sensitivity of items never relaxes the outcome.\<close>

theorem more_sensitive_is_stricter:
  assumes "list_all2 (\<lambda>a b. SENSITIVITY_RANK (xi_sensitivity a) \<le> SENSITIVITY_RANK (xi_sensitivity b)) items items'"
  shows "outcome_rank (evaluateExportGate cfg items dest approved) \<le> outcome_rank (evaluateExportGate cfg items' dest approved)"
  using counts_mono [OF assms] restricted_le_confidential [of items'] unfolding gate_rank gate_spec_def by auto

lemma resolve_rank:
  "SENSITIVITY_RANK (resolveItemSensitivity e (Some d)) \<ge> SENSITIVITY_RANK d"
  by (cases e) (simp_all add: resolveItemSensitivity_def js_or_def Let_def)

text \<open>An entry of the allowed addresses opens itself and what lies below it, not a longer host name.\<close>

lemma url_boundary:
  "isUrlPrefixAllowed url entry \<longleftrightarrow>
     (\<exists>rest. url = entry @ rest \<and> (rest = [] \<or> hd rest \<in> {CHR ''/'', CHR ''?'', CHR ''#''}))"
proof -
  have s: "starts_with [c] r \<longleftrightarrow> r \<noteq> [] \<and> hd r = c" for c :: char and r
    by (cases r) (auto simp: starts_with_def)
  have "starts_with entry url \<longleftrightarrow> (\<exists>rest. url = entry @ rest)"
    by (metis append_take_drop_id starts_with_append starts_with_def)
  then show ?thesis
    by (auto simp: isUrlPrefixAllowed_def s Let_def)
qed

section \<open>An outage\<close>

text \<open>
  The lookup of the nodes fails closed to \<open>confidential\<close>, which is below \<open>restricted\<close>: two restricted
  nodes, whose export is blocked while the table can be read, go out without any approval while it cannot.
\<close>

definition two_nodes :: "raw_export_item list" where
  "two_nodes = map (\<lambda>i. \<lparr>rw_node_id = Some i, rw_nodeId = None, rw_label = Some ''file'', rw_sensitivity = None\<rparr>)
     [''n1'', ''n2'']"


section \<open>Every item of a skill call is counted\<close>

lemma length_attachments:
  "jfield input ''attachments'' = JArr as \<Longrightarrow> as \<noteq> [] \<Longrightarrow> length (extractAttachmentExportItems input) = length as"
  by (cases as) (simp_all add: extractAttachmentExportItems_def Let_def)

lemma length_resolve: "length (resolveItems nodes raw) = length raw"
  by (simp add: resolveItems_def Let_def)

text \<open>
  A skill that sends attachments is evaluated with one item for each attachment, so an attachment cannot
  leave the count by having no description.
\<close>

theorem attachments_are_counted:
  assumes "tool \<in> set GATEWAY_ATTACHMENT_TOOLS" "jfield input ''attachments'' = JArr as" "as \<noteq> []"
  shows "\<exists>outcome items. evaluateSkillExport nodes cfg tool input approved = Some (outcome, items)
    \<and> length items = length as
    \<and> outcome_rank outcome = gate_spec cfg (restricted_count items) (confidential_count items) False approved"
proof -
  let ?raw = "extractAttachmentExportItems input"
  have l: "length ?raw = length as"
    using assms length_attachments by blast
  have dest: "\<exists>a. js_or (EmailTo ''(implicit reply)'') (extractDestinationFromInput tool input) = EmailTo a"
    using assms(1) by (cases "trimmed_string (jfield input ''to'')") (auto simp: extractDestinationFromInput_def js_or_def)
  have "?raw \<noteq> []" using l assms(3) by auto
  with dest show ?thesis
    using assms(1) l by (auto simp: evaluateSkillExport_def extractExportItemsFromInput_def length_resolve gate_rank Let_def)
qed

end
