(* ===== verification/PiiRedactor.thy ===== *)
theory PiiRedactor
  imports Disclosure
begin

text \<open>
  Personal data in outbound text (\<open>src/pii/scrubber.ts\<close>, \<open>src/dispatch/pii-redactor.ts\<close>): detection
  over a list of patterns, the channel policy, and the replacement of what was found.

  A pattern is a name, a replacement, an optional check and the engine of its regular expression:
  \<open>pt_exec s i\<close> is the first match in \<open>s\<close> at or after position \<open>i\<close>, as start and end. The expressions
  themselves come from a package and from the operator, so the engine is a field. The loop that calls
  \<open>exec\<close> moves on to the end of the last match; a match of length zero does not move it, so the loop
  is a partial function and \<open>None\<close> means that it does not return.
\<close>

section \<open>Shielding identifiers\<close>

definition word_char :: "char \<Rightarrow> bool" where
  "word_char c = (let n = (of_char c :: nat) in
     (48 \<le> n \<and> n \<le> 57) \<or> (65 \<le> n \<and> n \<le> 90) \<or> (97 \<le> n \<and> n \<le> 122) \<or> n = 95)"

text \<open>\<open>UUID_RE\<close> at a position: the first argument says whether the character before is a word character.\<close>

definition uuid_here :: "bool \<Rightarrow> string \<Rightarrow> bool" where
  "uuid_here before s =
     (\<not> before \<and> uuid_shape (take 36 s) \<and> (case drop 36 s of [] \<Rightarrow> True | c # _ \<Rightarrow> \<not> word_char c))"

function shield_from :: "bool \<Rightarrow> string \<Rightarrow> string" where
  "shield_from before [] = []"
| "shield_from before (c # s) =
     (if uuid_here before (c # s) then replicate 36 (CHR 0x00) @ shield_from True (drop 35 s)
      else c # shield_from (word_char c) s)"
  by pat_completeness auto
termination by (relation "measure (\<lambda>(b, s). length s)") auto

definition shielded :: "string \<Rightarrow> string" where
  "shielded text = shield_from False text"

section \<open>Detection\<close>

record pii_pattern =
  pt_name :: string
  pt_replacement :: string
  pt_exec :: "string \<Rightarrow> nat \<Rightarrow> (nat \<times> nat) option"
  pt_validate :: "(string \<Rightarrow> bool) option"

record pii_match =
  pm_label :: string
  pm_start :: nat
  pm_end :: nat
  pm_matched :: string

text \<open>\<open>text.slice(start, end)\<close> for positions counted from the front.\<close>

definition js_slice :: "nat \<Rightarrow> nat \<Rightarrow> string \<Rightarrow> string" where
  "js_slice i j s = take (j - i) (drop i s)"

definition overlapsExisting :: "pii_match list \<Rightarrow> nat \<Rightarrow> nat \<Rightarrow> bool" where
  "overlapsExisting ms i j = list_ex (\<lambda>m. i < pm_end m \<and> pm_start m < j) ms"

text \<open>The body of the loop: what one match of the engine adds.\<close>

definition accept_match :: "pii_pattern \<Rightarrow> string \<Rightarrow> nat \<Rightarrow> nat \<Rightarrow> pii_match list \<Rightarrow> pii_match list" where
  "accept_match p text i j ms =
     (let hit = js_slice i j (shielded text)
      in if CHR 0x00 \<in> set hit then ms
         else if (case pt_validate p of None \<Rightarrow> False | Some ok \<Rightarrow> \<not> ok hit) then ms
         else if overlapsExisting ms i j then ms
         else ms @ [\<lparr>pm_label = pt_name p, pm_start = i, pm_end = j, pm_matched = js_slice i j text\<rparr>])"

partial_function (option) exec_loop ::
    "pii_pattern \<Rightarrow> string \<Rightarrow> nat \<Rightarrow> pii_match list \<Rightarrow> pii_match list option" where
  "exec_loop p text lastIndex ms =
     (case pt_exec p (shielded text) lastIndex of
        None \<Rightarrow> Some ms
      | Some (i, j) \<Rightarrow> exec_loop p text j (accept_match p text i j ms))"

fun detect_all :: "pii_pattern list \<Rightarrow> string \<Rightarrow> pii_match list \<Rightarrow> pii_match list option" where
  "detect_all [] text ms = Some ms"
| "detect_all (p # ps) text ms = Option.bind (exec_loop p text 0 ms) (detect_all ps text)"

text \<open>The patterns are the built-in ones followed by the operator's.\<close>

definition detectPii :: "pii_pattern list \<Rightarrow> string \<Rightarrow> pii_match list option" where
  "detectPii patterns text = map_option (sort_key pm_start) (detect_all patterns text [])"

text \<open>The checksum of a Canadian SIN.\<close>

definition digit_char :: "char \<Rightarrow> bool" where
  "digit_char c = (let n = (of_char c :: nat) in 48 \<le> n \<and> n \<le> 57)"

definition luhn_digit :: "nat \<Rightarrow> char \<Rightarrow> nat" where
  "luhn_digit i c =
     (let d = of_char c - 48
      in if i mod 2 = 1 then (if 9 < d * 2 then d * 2 - 9 else d * 2) else d)"

definition isValidSin :: "string \<Rightarrow> bool" where
  "isValidSin matched =
     (let digits = filter digit_char matched
      in length digits = 9 \<and> sum_list (map (\<lambda>(i, c). luhn_digit i c) (enumerate 0 digits)) mod 10 = 0)"

section \<open>Replacement\<close>

text \<open>\<open>toUpperCase\<close> on the labels, which are ASCII.\<close>

definition upper_char :: "char \<Rightarrow> char" where
  "upper_char c = (let n = (of_char c :: nat) in if 97 \<le> n \<and> n \<le> 122 then char_of (n - 32) else c)"

text \<open>Replacing from the last match to the first, so that the positions of the others stay valid.\<close>

definition replace_at :: "(pii_match \<Rightarrow> string) \<Rightarrow> pii_match \<Rightarrow> string \<Rightarrow> string" where
  "replace_at token m s = take (pm_start m) s @ token m @ drop (pm_end m) s"

definition replace_all :: "(pii_match \<Rightarrow> string) \<Rightarrow> pii_match list \<Rightarrow> string \<Rightarrow> string" where
  "replace_all token ms content = foldr (replace_at token) ms content"

definition scrub_token :: "pii_pattern list \<Rightarrow> pii_match \<Rightarrow> string" where
  "scrub_token patterns m =
     (case map_of (rev (map (\<lambda>p. (pt_name p, pt_replacement p)) patterns)) (pm_label m) of
        Some r \<Rightarrow> r
      | None \<Rightarrow> ''['' @ map upper_char (pm_label m) @ '']'')"

definition scrubPii :: "pii_pattern list \<Rightarrow> string \<Rightarrow> string option" where
  "scrubPii patterns text = map_option (\<lambda>ms. replace_all (scrub_token patterns) ms text) (detectPii patterns text)"

section \<open>The redactor\<close>

datatype default_action = BlockPii | AllowPii

record redaction_config =
  rg_enabled :: bool
  rg_default :: default_action
  rg_policies :: "(string \<times> string list) list" \<comment> \<open>per channel, the labels let through\<close>

record redact_context =
  rx_conversationId :: "string option"
  rx_recipientId :: "string option"
  rx_parentEventId :: "string option"
  rx_principalIsSole :: bool \<comment> \<open>exactly \<open>true\<close>\<close>

definition redacted_label :: "redaction_config \<Rightarrow> string \<Rightarrow> string \<Rightarrow> bool" where
  "redacted_label cfg channel label =
     (let policy = map_of (rg_policies cfg) channel;
          allowed = map js_lower (case policy of None \<Rightarrow> [] | Some a \<Rightarrow> a)
      in if js_lower label \<in> set allowed then False
         else \<not> (policy = None \<and> rg_default cfg = AllowPii))"

definition detect_outbound :: "redaction_config \<Rightarrow> (string \<Rightarrow> pii_match list) \<Rightarrow> string \<Rightarrow> string \<Rightarrow> redact_context
    \<Rightarrow> pii_match list" where
  "detect_outbound cfg find_pii content channel ctx =
     (if \<not> rg_enabled cfg then []
      else if rx_principalIsSole ctx then []
      else filter (\<lambda>m. redacted_label cfg channel (pm_label m)) (find_pii content))"

record redaction_entry =
  re_label :: string
  re_channel :: string
  re_replacedWith :: string

record redaction_result =
  rr_content :: string
  rr_redactions :: "redaction_entry list"

definition redaction_token :: "pii_match \<Rightarrow> string" where
  "redaction_token m = ''[REDACTED: '' @ map upper_char (pm_label m) @ '']''"

definition apply_redaction :: "string \<Rightarrow> pii_match list \<Rightarrow> string \<Rightarrow> redaction_result" where
  "apply_redaction content items channel =
     (if items = [] then \<lparr>rr_content = content, rr_redactions = []\<rparr>
      else (let ordered = sort_key pm_start items
            in \<lparr>rr_content = replace_all redaction_token ordered content,
                rr_redactions = map (\<lambda>m. \<lparr>re_label = js_lower (pm_label m), re_channel = channel,
                                          re_replacedWith = redaction_token m\<rparr>) ordered\<rparr>))"

text \<open>The audit event of a redaction that goes on the wire; none is published when nothing was replaced.\<close>

record redacted_event =
  rd_channel :: string
  rd_recipient :: string
  rd_conversation :: string
  rd_redactions :: "(string \<times> string) list"
  rd_parent :: "string option"

definition redacted_events :: "redact_context \<Rightarrow> string \<Rightarrow> redaction_result \<Rightarrow> redacted_event list" where
  "redacted_events ctx channel r =
     (if rr_redactions r = [] then []
      else [\<lparr>rd_channel = channel, rd_recipient = js_or [] (rx_recipientId ctx),
             rd_conversation = js_or [] (rx_conversationId ctx),
             rd_redactions = map (\<lambda>e. (re_label e, re_replacedWith e)) (rr_redactions r),
             rd_parent = rx_parentEventId ctx\<rparr>])"

definition redact :: "redaction_config \<Rightarrow> (string \<Rightarrow> pii_match list) \<Rightarrow> string \<Rightarrow> string \<Rightarrow> redact_context
    \<Rightarrow> redaction_result \<times> redacted_event list" where
  "redact cfg find_pii content channel ctx =
     (let r = apply_redaction content (detect_outbound cfg find_pii content channel ctx) channel
      in (r, redacted_events ctx channel r))"

end
