(* ===== verification/GatewayTypes.thy ===== *)
theory GatewayTypes
  imports PiiRedactor ExportControls RelayBudget
begin

text \<open>
  Data of the outbound gateway (\<open>src/skills/outbound-gateway.ts\<close> and the request types of the channels):
  requests, options, results, what a send leaves behind, the services it calls and its own state.

  Everything a send does to the outside is an event on a trace, in order: what is published on the bus,
  rows written to the action log, calls of a transport, changes of contacts. Publishing and writing may
  fail: \<open>ge_accepts\<close> says which events go through. Absent lists of a request are empty lists, absent
  options are the record with nothing set.
\<close>

section \<open>Requests\<close>

datatype recipient_source = OutboundRecipient | EmailParticipant

record email_request =
  em_accountId :: "string option"
  em_to :: string
  em_additionalTo :: "string list"
  em_subject :: "string option"
  em_body :: string
  em_cc :: "string list"
  em_replyToMessageId :: "string option"
  em_htmlQuote :: "string option"
  em_quoteParticipants :: "string list"
  em_attachments :: "outbound_attachment list"
  em_recipientSource :: "recipient_source option"
  em_recipientDisplayName :: "string option"
  em_toFromOwnMessage :: bool
  em_signature :: "string option"

record signal_request =
  sg_recipient :: "string option"
  sg_groupId :: "string option"
  sg_message :: string

record slack_request =
  sl_channelId :: string
  sl_threadTs :: "string option"
  sl_message :: string
  sl_userId :: "string option"

record sms_request =
  sm_recipient :: string
  sm_message :: string

text \<open>The recipient of a web request is always the alias \<open>principal\<close>.\<close>

datatype send_request =
    EmailReq email_request
  | SignalReq signal_request
  | SlackReq slack_request
  | SmsReq sms_request
  | WebReq string

fun request_channel :: "send_request \<Rightarrow> string" where
  "request_channel (EmailReq _) = ''email''"
| "request_channel (SignalReq _) = ''signal''"
| "request_channel (SlackReq _) = ''slack''"
| "request_channel (SmsReq _) = ''sms''"
| "request_channel (WebReq _) = ''web''"

fun request_body :: "send_request \<Rightarrow> string" where
  "request_body (EmailReq e) = em_body e"
| "request_body (SignalReq s) = sg_message s"
| "request_body (SlackReq s) = sl_message s"
| "request_body (SmsReq s) = sm_message s"
| "request_body (WebReq m) = m"

fun request_subject :: "send_request \<Rightarrow> string option" where
  "request_subject (EmailReq e) = em_subject e"
| "request_subject _ = None"

definition emailToAddresses :: "email_request \<Rightarrow> string list" where
  "emailToAddresses e = em_to e # em_additionalTo e"

section \<open>Options and results\<close>

record send_recipe =
  sx_toolName :: string
  sx_partialPayload :: "(string \<times> jsval) list"
  sx_description :: string
  sx_askDescription :: "string option"

record export_context =
  xc_toolName :: string
  xc_agentId :: "string option"
  xc_exportItems :: "raw_export_item list"

record gateway_options = send_options +
  go_skipNotificationOnBlock :: bool
  go_taskEventId :: "string option"
  go_conversationId :: "string option"
  go_parentEventId :: "string option"
  go_postTurn :: bool
  go_reportedToPrincipal :: "string option"
  go_reExecRecipe :: "send_recipe option"
  go_holdRecipe :: "send_recipe option"
  go_exportContext :: "export_context option"
  go_recipientSource :: "recipient_source option"
  go_recipientDisplayName :: "string option"

definition no_options :: gateway_options where
  "no_options =
     \<lparr>so_isSystemNotification = False, so_humanApproved = False, so_principalDirected = False, so_originator = None,
      go_skipNotificationOnBlock = False, go_taskEventId = None, go_conversationId = None, go_parentEventId = None,
      go_postTurn = False, go_reportedToPrincipal = None, go_reExecRecipe = None, go_holdRecipe = None,
      go_exportContext = None, go_recipientSource = None, go_recipientDisplayName = None\<rparr>"

datatype web_outcome = WebDelivered | WebVisible | WebFallback | WebUnavailable | WebUnconfigured

record send_result =
  os_success :: bool
  os_messageId :: "string option"
  os_threadId :: "string option"
  os_blockedReason :: "string option"
  os_webDelivery :: "web_outcome option"
  os_webDeliveryDetail :: "string option"
  os_blockedRules :: "string list"
  os_unmatchedRecipients :: "string list"
  os_redactions :: "(string \<times> item_field) list"
  os_sentContent :: "string option"
  os_sentSubject :: "string option"
  os_gated :: bool
  os_actionRef :: "string option"
  os_queued :: bool
  os_queueable :: bool
  os_deferredToDigest :: bool

definition succeeded :: send_result where
  "succeeded =
     \<lparr>os_success = True, os_messageId = None, os_threadId = None, os_blockedReason = None, os_webDelivery = None,
      os_webDeliveryDetail = None, os_blockedRules = [], os_unmatchedRecipients = [], os_redactions = [],
      os_sentContent = None, os_sentSubject = None, os_gated = False, os_actionRef = None, os_queued = False,
      os_queueable = False, os_deferredToDigest = False\<rparr>"

definition refused :: "string \<Rightarrow> send_result" where
  "refused reason = succeeded\<lparr>os_success := False, os_blockedReason := Some reason\<rparr>"

section \<open>Events\<close>

type_synonym gw_finding = "string \<times> string" \<comment> \<open>rule and detail\<close>

record blocked_event =
  bl_blockId :: string
  bl_conversationId :: string
  bl_channel :: string
  bl_content :: string
  bl_recipientId :: string
  bl_reason :: string
  bl_findings :: "gw_finding list"
  bl_parent :: string

datatype report_source = FromApproval | FromBlock | FromUnreviewed | FromRelay

record report_event =
  rp_summary :: string
  rp_source :: report_source
  rp_conversationId :: "string option"
  rp_actionShortRef :: "string option"
  rp_parent :: string

record deferred_event =
  df_originator :: string
  df_tier :: contact_tier
  df_channel :: string
  df_conversationId :: "string option"
  df_taskEventId :: "string option"
  df_noticeSent :: bool

record delivered_event =
  dl_channel :: string
  dl_recipientId :: string
  dl_recipientContactId :: "string option"
  dl_content :: string
  dl_conversationId :: "string option"
  dl_taskEventId :: "string option"
  dl_messageId :: "string option"
  dl_threadId :: "string option"
  dl_parent :: "string option"
  dl_disclosed :: "(string \<times> item_field) list"
  dl_exportAudit :: "(string \<times> export_item list \<times> string option \<times> string option) option"

record wake_ask =
  wk_details :: string
  wk_requester :: string
  wk_replyTo :: "(string \<times> string option) option"

record pending_row =
  pn_taskId :: string
  pn_conversationId :: "string option"
  pn_toolName :: string
  pn_shortRef :: string
  pn_description :: string
  pn_payload :: "(string \<times> jsval) list"
  pn_disclosureAsk :: "disclosure_ask option"
  pn_expiresAt :: ms

text \<open>What the principal is shown with an approval; its rendered payload is left out.\<close>

record display_entry =
  dy_shortRef :: string
  dy_preamble :: string
  dy_extraLines :: "string list"
  dy_number :: "string option"

record sample_row =
  sp_taskId :: string
  sp_conversationId :: "string option"
  sp_toolName :: string
  sp_summary :: string
  sp_firstContact :: bool
  sp_speaksAsPrincipal :: bool
  sp_review :: "string option"

datatype contact_op =
    CreateContact string recipient_source
  | LinkIdentity string string string recipient_source \<comment> \<open>contact, channel, identifier, source\<close>
  | VerifyIdentity string
  | ElevateTier string
  | MessageSent string

datatype gw_event =
    EvSendBlocked string jsnum jsnum "string option"
  | EvBlocked blocked_event
  | EvReport report_event
  | EvRelayDeferred deferred_event
  | EvDelivered delivered_event
  | EvWake string string string \<comment> \<open>reference, content, parent\<close>
  | EvRedacted redacted_event
  | EvApproval pending_row
  | EvDisplay display_entry
  | EvSample sample_row
  | EvContact contact_op
  | EvLimiterTripped
  | EvWire send_request \<comment> \<open>the transport of a channel is called\<close>

section \<open>Services\<close>

datatype gating = BandGating | TierGating

record autonomy_snapshot =
  as_score :: jsnum
  as_gating :: "gating option"

record autonomy_read =
  au_config :: "autonomy_snapshot option"
  au_failed :: bool

record resolved_contact =
  rc_contactId :: string
  rc_tier :: contact_tier
  rc_verified :: bool
  rc_displayName :: string

record contact_card =
  cd_displayName :: string
  cd_preferredName :: "string option"
  cd_createdAt :: ms

record contact_identity =
  ci_id :: string
  ci_channel :: string
  ci_identifier :: string
  ci_source :: string
  ci_active :: bool
  ci_verified :: bool

record principal_identity =
  pi_contactId :: string
  pi_channel :: string
  pi_identifier :: string
  pi_verified :: bool
  pi_active :: bool

datatype identity_mode = IdentityOff | IdentityShadow | IdentityEnforce

record entity_state =
  et_principalNames :: "string list"
  et_turn :: "string \<Rightarrow> (string \<times> string option) list option" \<comment> \<open>display and preferred names of a tracked turn\<close>

record filter_recipient =
  fr_email :: string
  fr_isPrincipal :: bool

record filter_input =
  fi_content :: string
  fi_recipientEmail :: string
  fi_channel :: string
  fi_recipientTier :: contact_tier
  fi_tierUnresolved :: bool
  fi_principalDirected :: bool
  fi_recipients :: "filter_recipient list"
  fi_principalIncluded :: bool
  fi_principalIsSole :: bool
  fi_gating :: gating

record redactor =
  rt_config :: redaction_config
  rt_find :: "string \<Rightarrow> unit + pii_match list" \<comment> \<open>\<open>Inl\<close>: detection throws\<close>

text \<open>What a transport raises: the message, an HTTP status, a code of the runtime.\<close>

record transport_error =
  te_message :: string
  te_status :: "int option"
  te_code :: "string option"

record wire_email =
  we_to :: "string list"
  we_cc :: "string list"
  we_subject :: string
  we_html :: string
  we_replyToMessageId :: "string option"
  we_attachments :: "string list" \<comment> \<open>contents\<close>

record nylas_client =
  ny_send :: "wire_email \<Rightarrow> transport_error + string \<times> string option"
  ny_getMessage :: "string \<Rightarrow> unit + string list" \<comment> \<open>addresses of from, to and cc\<close>

record signal_client =
  sc_connected :: bool
  sc_send :: "string \<Rightarrow> signal_request \<Rightarrow> transport_error + string"

record slack_client =
  kc_connected :: bool
  kc_post :: "slack_request \<Rightarrow> string \<Rightarrow> string + string" \<comment> \<open>the error code or the timestamp\<close>

datatype sms_error = OptedOut | SmsFailed transport_error

record gateway_env =
  ge_now :: ms
  ge_uuid :: "nat \<Rightarrow> string"
  ge_num :: "jsnum \<Rightarrow> string"
  ge_accepts :: "gw_event \<Rightarrow> bool"
  ge_autonomy :: "(unit + autonomy_snapshot option) option" \<comment> \<open>\<open>None\<close>: not wired; \<open>Inl\<close>: the read fails\<close>
  ge_gating :: gating
  ge_review :: "review_env option"
  ge_reviewThrows :: "review_input \<Rightarrow> bool"
  ge_principals :: "principal_identity list"
  ge_accounts :: "(string \<times> string) list" \<comment> \<open>mailboxes and their addresses\<close>
  ge_signalNumber :: "string option"
  ge_resolve :: "string \<Rightarrow> string \<Rightarrow> unit + resolved_contact option"
  ge_contact :: "string \<Rightarrow> unit + contact_card option"
  ge_identities :: "string \<Rightarrow> unit + contact_identity list"
  ge_duplicates :: "string \<Rightarrow> string option \<Rightarrow> string option \<Rightarrow> unit + bool" \<comment> \<open>another contact is likely the same\<close>
  ge_identityGate :: identity_mode
  ge_entities :: "entity_state option"
  ge_unresolvedIdentity :: "string \<Rightarrow> string option \<Rightarrow> string list \<Rightarrow> string option"
  ge_blankPhrases :: "string \<Rightarrow> string list \<Rightarrow> string"
  ge_nameTokens :: "string \<Rightarrow> string list"
  ge_persona :: "(string \<times> string) option" \<comment> \<open>name and title\<close>
  ge_signature :: "string option"
  ge_stripSignOff :: "string \<Rightarrow> string"
  ge_endsWithSignature :: "string \<Rightarrow> bool"
  ge_exports :: "(node_lookup \<times> export_config) option"
  ge_redactor :: "redactor option"
  ge_scrubPii :: "string \<Rightarrow> string"
  ge_filter :: "filter_input \<Rightarrow> unit + bool \<times> gw_finding list"
  ge_actionLog :: bool
  ge_approvalNumber :: "string \<Rightarrow> string option"
  ge_confidence :: bool
  ge_nylas :: "(string \<times> nylas_client) list"
  ge_html :: "string \<Rightarrow> string option \<Rightarrow> string" \<comment> \<open>body and signature\<close>
  ge_readFiles :: "outbound_attachment list \<Rightarrow> string + string list"
  ge_signal :: "signal_client option"
  ge_slack :: "slack_client option"
  ge_mrkdwn :: "string \<Rightarrow> string"
  ge_sms :: "(sms_request \<Rightarrow> sms_error + string) option"
  ge_web :: "(string \<Rightarrow> web_outcome \<times> string option) option"
  ge_readiness :: "(string \<times> bool) list"
  ge_queue :: "(nat \<times> ms) option" \<comment> \<open>rows per channel and life of a row\<close>
  ge_queueDown :: bool \<comment> \<open>the statements of an enqueue fail\<close>

section \<open>State\<close>

record queue_row =
  qr_id :: string
  qr_channel :: string
  qr_recipient :: string
  qr_payload :: send_request
  qr_enqueuedAt :: ms
  qr_expiresAt :: ms

record gateway =
  gw_relay :: "relay_budget option"
  gw_band :: band_state
  gw_queue :: "queue_row list"
  gw_retry :: "string list" \<comment> \<open>channels with a flush scheduled\<close>
  gw_trace :: "gw_event list"
  gw_ids :: nat

text \<open>An event that happens, and one that is published and may be lost.\<close>

definition happens :: "gw_event \<Rightarrow> gateway \<Rightarrow> gateway" where
  "happens e g = g\<lparr>gw_trace := gw_trace g @ [e]\<rparr>"

definition gw_publish :: "gateway_env \<Rightarrow> gw_event \<Rightarrow> gateway \<Rightarrow> gateway" where
  "gw_publish env e g = (if ge_accepts env e then happens e g else g)"

text \<open>A generated identifier.\<close>

definition fresh_id :: "gateway_env \<Rightarrow> gateway \<Rightarrow> string \<times> gateway" where
  "fresh_id env g = (ge_uuid env (gw_ids g), g\<lparr>gw_ids := gw_ids g + 1\<rparr>)"

end
