(* ===== verification/GatewayRecipients.thy ===== *)
theory GatewayRecipients
  imports GatewayTypes
begin

text \<open>
  Who a send reaches: the projection of a request on recipients (\<open>src/channels/*/principal-rules.ts\<close>),
  the principal's identities (\<open>src/contacts/principal-recipient.ts\<close>), the class of a mail address
  (\<open>classifyEmailSender\<close> of \<open>contact-service.ts\<close>) and the lookups the gateway makes about recipients.
\<close>

section \<open>Projection\<close>

type_synonym projected = "string \<times> bool" \<comment> \<open>identifier, and whether it can be the principal\<close>

definition non_empty :: "string option \<Rightarrow> bool" where
  "non_empty s \<longleftrightarrow> s \<noteq> None \<and> s \<noteq> Some []"

fun projectRecipients :: "send_request \<Rightarrow> projected list" where
  "projectRecipients (EmailReq e) =
     map (\<lambda>i. (i, True)) (filter (\<lambda>i. i \<noteq> []) (em_to e # em_additionalTo e @ em_cc e))"
| "projectRecipients (SignalReq s) =
     (if non_empty (sg_recipient s) then [(the (sg_recipient s), True)]
      else if non_empty (sg_groupId s) then [(the (sg_groupId s), False)]
      else [])"
| "projectRecipients (SlackReq s) =
     (if non_empty (sl_userId s) then [(the (sl_userId s), True)]
      else if sl_channelId s \<noteq> [] then [(sl_channelId s, False)]
      else [])"
| "projectRecipients (SmsReq s) = (if sm_recipient s \<noteq> [] then [(sm_recipient s, True)] else [])"
| "projectRecipients (WebReq m) = [(''principal'', True)]"

definition personRecipients :: "send_request \<Rightarrow> string list" where
  "personRecipients req = map fst (filter snd (projectRecipients req))"

text \<open>The identifier that the contact lookup and the logs use.\<close>

fun recipient_id :: "send_request \<Rightarrow> string" where
  "recipient_id (EmailReq e) = em_to e"
| "recipient_id (SlackReq s) = js_or (sl_channelId s) (sl_userId s)"
| "recipient_id (SmsReq s) = sm_recipient s"
| "recipient_id (WebReq m) = ''principal''"
| "recipient_id (SignalReq s) = js_or (js_or [] (sg_groupId s)) (sg_recipient s)"

section \<open>The principal\<close>

definition identifiersEqual :: "string \<Rightarrow> string \<Rightarrow> string \<Rightarrow> bool" where
  "identifiersEqual channel a b = (if channel = ''email'' then js_lower a = js_lower b else a = b)"

definition isPrincipalIdentity :: "string \<Rightarrow> string option \<Rightarrow> principal_identity list \<Rightarrow> bool" where
  "isPrincipalIdentity channel ident ids =
     (if channel = ''web'' then ident = Some ''principal''
      else if \<not> non_empty ident \<or> ids = [] then False
      else if channel \<notin> {''email'', ''signal'', ''slack'', ''sms''} then False
      else list_ex (\<lambda>i. pi_channel i = channel \<and> identifiersEqual channel (pi_identifier i) (the ident)) ids)"

definition computePrincipalIsSoleRecipient :: "filter_recipient list \<Rightarrow> bool" where
  "computePrincipalIsSoleRecipient rs \<longleftrightarrow> 0 < length rs \<and> list_all fr_isPrincipal rs"

record recipient_set =
  rs_recipients :: "filter_recipient list"
  rs_principalIncluded :: bool
  rs_principalIsSole :: bool

definition own_addresses :: "gateway_env \<Rightarrow> string list" where
  "own_addresses env =
     map (\<lambda>(_, a). js_lower a) (ge_accounts env)
     @ (case truthy_text (ge_signalNumber env) of None \<Rightarrow> [] | Some n \<Rightarrow> [js_lower n])"

fun finalize_loop :: "string list \<Rightarrow> string list \<Rightarrow> filter_recipient list \<Rightarrow> filter_recipient list" where
  "finalize_loop own seen [] = []"
| "finalize_loop own seen (r # rs) =
     (let key = js_lower (fr_email r)
      in if key \<in> set own then finalize_loop own seen rs
         else if key \<in> set seen then finalize_loop own seen rs
         else r # finalize_loop own (key # seen) rs)"

definition finalizeRecipientSet :: "gateway_env \<Rightarrow> filter_recipient list \<Rightarrow> recipient_set" where
  "finalizeRecipientSet env projected =
     (let rs = finalize_loop (own_addresses env) [] projected
      in \<lparr>rs_recipients = rs, rs_principalIncluded = list_ex fr_isPrincipal rs,
          rs_principalIsSole = computePrincipalIsSoleRecipient rs\<rparr>)"

definition buildFilterRecipients :: "gateway_env \<Rightarrow> send_request \<Rightarrow> recipient_set" where
  "buildFilterRecipients env req =
     finalizeRecipientSet env
       (map (\<lambda>(i, eligible). \<lparr>fr_email = i,
               fr_isPrincipal = (eligible \<and> isPrincipalIdentity (request_channel req) (Some i) (ge_principals env))\<rparr>)
         (projectRecipients req))"

definition isPrincipalRecipient :: "gateway_env \<Rightarrow> send_request \<Rightarrow> bool" where
  "isPrincipalRecipient env req = rs_principalIsSole (buildFilterRecipients env req)"

section \<open>Classes of addresses\<close>

datatype sender_class = PersonSender | OrganizationSender | AutomatedSender

definition separators :: "string list" where
  "separators = [''_'', ''.'', ''-'']"

definition AUTOMATED_LOCALS :: "string list" where
  "AUTOMATED_LOCALS =
     map (\<lambda>s. ''no'' @ s @ ''reply'') ([] # separators)
     @ [''donotreply'']
     @ concat (map (\<lambda>a. map (\<lambda>b. ''do'' @ a @ ''not'' @ b @ ''reply'') ([] # separators)) separators)
     @ map (\<lambda>s. ''mailer'' @ s @ ''daemon'') ([] # separators)
     @ [''notification'', ''notifications'', ''alert'', ''alerts'', ''newsletter'', ''newsletters'', ''update'',
        ''updates'', ''bounce'', ''bounced'', ''bounces'', ''unsubscribe'', ''postmaster'', ''automated'', ''auto'']"

definition NON_PERSON_LOCALS :: "string list" where
  "NON_PERSON_LOCALS =
     [''info'', ''support'', ''hello'', ''help'', ''admin'', ''contact'', ''billing'', ''feedback'', ''news'',
      ''team'', ''sales'', ''marketing'', ''legal'', ''security'', ''service'', ''services'', ''order'', ''orders'',
      ''invoice'', ''invoices'', ''account'', ''accounts'', ''system'']"

definition PERSONAL_EMAIL_DOMAINS :: "string list" where
  "PERSONAL_EMAIL_DOMAINS =
     [''gmail.com'', ''googlemail.com'', ''yahoo.com'', ''ymail.com'', ''hotmail.com'', ''hotmail.co.uk'',
      ''hotmail.ca'', ''outlook.com'', ''live.com'', ''live.ca'', ''live.co.uk'', ''icloud.com'', ''me.com'',
      ''mac.com'', ''aol.com'', ''msn.com'', ''protonmail.com'', ''proton.me'', ''pm.me'', ''gmx.com'', ''gmx.de'',
      ''gmx.net'', ''mail.com'', ''inbox.com'', ''hushmail.com'', ''yandex.com'', ''yandex.ru'', ''mail.ru'',
      ''zoho.com'', ''zohomail.com'', ''fastmail.com'', ''fastmail.fm'', ''hey.com'', ''tutanota.com'', ''tuta.io'',
      ''qq.com'', ''163.com'', ''126.com'', ''naver.com'', ''rediffmail.com'', ''comcast.net'', ''att.net'',
      ''verizon.net'', ''cox.net'', ''charter.net'', ''earthlink.net'', ''sbcglobal.net'', ''bellsouth.net'',
      ''rogers.com'', ''shaw.ca'', ''sympatico.ca'', ''bell.net'', ''videotron.ca'', ''telus.net'', ''cogeco.ca'',
      ''eastlink.ca'', ''sasktel.net'', ''btinternet.com'', ''sky.com'', ''virginmedia.com'', ''talktalk.net'',
      ''orange.fr'', ''free.fr'', ''laposte.net'', ''web.de'', ''t-online.de'', ''libero.it'', ''ziggo.nl'',
      ''bigpond.com'', ''optusnet.com.au'', ''xtra.co.nz'']"

text \<open>The split is at the first \<open>@\<close>; the last two rules of the code both answer a person.\<close>

definition classifyEmailSender :: "string \<Rightarrow> sender_class" where
  "classifyEmailSender email =
     (if CHR ''@'' \<notin> set email then PersonSender
      else (let localPart = takeWhile (\<lambda>c. c \<noteq> CHR ''@'') email;
                domain = js_lower (drop (length localPart + 1) email)
            in if js_lower localPart \<in> set AUTOMATED_LOCALS then AutomatedSender
               else if domain \<in> set PERSONAL_EMAIL_DOMAINS then PersonSender
               else if js_lower localPart \<in> set NON_PERSON_LOCALS then OrganizationSender
               else PersonSender))"

section \<open>Lookups\<close>

datatype unmatched_reason = NoContact | Unverified

fun unmatched_loop :: "gateway_env \<Rightarrow> string \<Rightarrow> string list \<Rightarrow> string list \<Rightarrow> (string \<times> unmatched_reason) list" where
  "unmatched_loop env channel seen [] = []"
| "unmatched_loop env channel seen (i # is) =
     (if i = [] \<or> js_lower i \<in> set seen then unmatched_loop env channel seen is
      else (case ge_resolve env channel i of
              Inl _ \<Rightarrow> []
            | Inr None \<Rightarrow> [(i, NoContact)]
            | Inr (Some c) \<Rightarrow> if rc_verified c then [] else [(i, Unverified)])
           @ unmatched_loop env channel (js_lower i # seen) is)"

definition findUnmatchedRecipients :: "gateway_env \<Rightarrow> send_request \<Rightarrow> (string \<times> unmatched_reason) list" where
  "findUnmatchedRecipients env req = unmatched_loop env (request_channel req) [] (personRecipients req)"

definition note_sentence :: "string list \<Rightarrow> string \<Rightarrow> string" where
  "note_sentence ids rest =
     (if ids = [] then []
      else js_join '', '' ids @ '' '' @ (if length ids = 1 then ''matches'' else ''match'') @ '' '' @ rest @ '' '')"

definition formatUnmatchedRecipientNote :: "(string \<times> unmatched_reason) list \<Rightarrow> string" where
  "formatUnmatchedRecipientNote us =
     ''Recipient check: ''
     @ note_sentence (map fst (filter (\<lambda>u. snd u = NoContact) us)) ''no known contact.''
     @ note_sentence (map fst (filter (\<lambda>u. snd u = Unverified) us))
         ''only an unverified contact address, one nobody has confirmed.''
     @ ''The block may be about who this is going to, not what it says. Check the recipient before you rewrite ''
     @ ''the message. To reach a known person, send by their contact ID, or '' @ dquote @ ''principal'' @ dquote
     @ '' for the principal, instead of typing an address.''"

definition withUnmatchedRecipientNote :: "gateway_env \<Rightarrow> send_request \<Rightarrow> send_result \<Rightarrow> send_result" where
  "withUnmatchedRecipientNote env req r =
     (let us = findUnmatchedRecipients env req
      in if us = [] then r
         else r\<lparr>os_blockedReason := Some (js_or ''Send blocked'' (os_blockedReason r) @ newline @ newline
                                         @ formatUnmatchedRecipientNote us),
                os_unmatchedRecipients := map fst us\<rparr>)"

datatype blocked_lookup =
    BlockedRecipient (bk_identifier: string) (bk_contactId: string)
  | LookupFailed (bk_identifier: string)

text \<open>The tiers and verified contact ids of the recipients that resolve are collected on the way.\<close>

record known_recipients =
  kr_tiers :: "(string \<times> contact_tier) list"
  kr_contactIds :: "(string \<times> string) list"

fun blocked_loop :: "gateway_env \<Rightarrow> string \<Rightarrow> bool \<Rightarrow> string list \<Rightarrow> string list \<Rightarrow> known_recipients
    \<Rightarrow> blocked_lookup option \<times> known_recipients" where
  "blocked_loop env channel failClosed seen [] kr = (None, kr)"
| "blocked_loop env channel failClosed seen (i # is) kr =
     (if i = [] \<or> js_lower i \<in> set seen then blocked_loop env channel failClosed seen is kr
      else (case ge_resolve env channel i of
              Inl _ \<Rightarrow>
                if failClosed then (Some (LookupFailed i), kr)
                else blocked_loop env channel failClosed (js_lower i # seen) is kr
            | Inr None \<Rightarrow> blocked_loop env channel failClosed (js_lower i # seen) is kr
            | Inr (Some c) \<Rightarrow>
                if rc_tier c = TBlocked then (Some (BlockedRecipient i (rc_contactId c)), kr)
                else blocked_loop env channel failClosed (js_lower i # seen) is
                  \<lparr>kr_tiers = AList.update (normalizeCounterparty i) (rc_tier c) (kr_tiers kr),
                   kr_contactIds = (if rc_verified c
                      then AList.update (normalizeCounterparty i) (rc_contactId c) (kr_contactIds kr)
                      else kr_contactIds kr)\<rparr>))"

definition findBlockedRecipient :: "gateway_env \<Rightarrow> string \<Rightarrow> string list \<Rightarrow> bool \<Rightarrow> known_recipients
    \<Rightarrow> blocked_lookup option \<times> known_recipients" where
  "findBlockedRecipient env channel ids failClosed kr = blocked_loop env channel failClosed [] ids kr"

section \<open>Quoted messages\<close>

text \<open>A blank account selects the first one; a name that is not configured selects none.\<close>

definition getNylasClient :: "gateway_env \<Rightarrow> string option \<Rightarrow> nylas_client option" where
  "getNylasClient env accountId =
     (case truthy_text accountId of
        Some a \<Rightarrow> map_of (ge_nylas env) a
      | None \<Rightarrow> (case ge_nylas env of [] \<Rightarrow> None | (_, c) # _ \<Rightarrow> Some c))"

definition quoteParticipants :: "string list \<Rightarrow> string list" where
  "quoteParticipants addresses = js_uniq (filter (\<lambda>e. e \<noteq> []) (map normalizeCounterparty addresses))"

definition quoteIsRecipients :: "email_request \<Rightarrow> filter_recipient list \<Rightarrow> bool" where
  "quoteIsRecipients e rs =
     (if em_quoteParticipants e = [] then False
      else (let participants = map normalizeCounterparty (em_quoteParticipants e);
                people = map normalizeCounterparty (personRecipients (EmailReq e))
            in list_all (\<lambda>r. normalizeCounterparty (fr_email r) \<in> set participants)
                 (filter (\<lambda>r. \<not> fr_isPrincipal r \<and> normalizeCounterparty (fr_email r) \<in> set people) rs)))"

definition quoteIsExempt :: "gateway_env \<Rightarrow> email_request \<Rightarrow> filter_recipient list \<Rightarrow> bool" where
  "quoteIsExempt env e rs =
     (if \<not> quoteIsRecipients e rs then False
      else (case truthy_text (em_replyToMessageId e) of
              None \<Rightarrow> False
            | Some mid \<Rightarrow>
                (case getNylasClient env (em_accountId e) of
                   None \<Rightarrow> False
                 | Some client \<Rightarrow>
                     (case ny_getMessage client mid of
                        Inl _ \<Rightarrow> False
                      | Inr addresses \<Rightarrow>
                          quoteIsRecipients (e\<lparr>em_quoteParticipants := quoteParticipants addresses\<rparr>) rs))))"

end
