(* ===== verification/GatewayGates.thy ===== *)
theory GatewayGates
  imports GatewayRecipients
begin

text \<open>
  The gates of \<open>send()\<close> before the text of the message is looked at: the score, no-reply addresses,
  blocked contacts, unresolved names, bulk exports; and what they record. A gate is a function of the
  gateway's state that gives a result, with which the send ends, or what the next gate needs.
\<close>

text \<open>Chaining: a result ends the send.\<close>

type_synonym 'a gate = "gateway \<Rightarrow> (send_result + 'a) \<times> gateway"

definition gate_then :: "'a gate \<Rightarrow> ('a \<Rightarrow> 'b gate) \<Rightarrow> 'b gate" where
  "gate_then p k g = (case p g of (Inl r, g') \<Rightarrow> (Inl r, g') | (Inr a, g') \<Rightarrow> k a g')"

text \<open>A dash has no code below 256; a control character stands for it.\<close>

definition dash :: string where
  "dash = [CHR 0x96]"

section \<open>Reports and approvals\<close>

definition report_parent :: "gateway_options \<Rightarrow> string" where
  "report_parent opts = js_or (js_or ''system'' (go_parentEventId opts)) (go_taskEventId opts)"

definition queueBlockReport :: "gateway_env \<Rightarrow> string \<Rightarrow> string option \<Rightarrow> string \<Rightarrow> gateway \<Rightarrow> gateway" where
  "queueBlockReport env summary conversationId parent g =
     gw_publish env (EvReport \<lparr>rp_summary = summary, rp_source = FromBlock, rp_conversationId = truthy_text conversationId,
       rp_actionShortRef = None, rp_parent = parent\<rparr>) g"

definition queueApprovalMention :: "gateway_env \<Rightarrow> string \<Rightarrow> string \<Rightarrow> string \<Rightarrow> string option \<Rightarrow> gateway \<Rightarrow> gateway" where
  "queueApprovalMention env shortRef description taskEventId conversationId g =
     gw_publish env (EvReport \<lparr>rp_summary = ''Waiting for your approval: '' @ description, rp_source = FromApproval,
       rp_conversationId = truthy_text conversationId, rp_actionShortRef = Some shortRef, rp_parent = taskEventId\<rparr>) g"

text \<open>The text for the agent that raised an approval; the gateway names no agent.\<close>

definition approvalAdvisory :: "string \<Rightarrow> string option \<Rightarrow> string" where
  "approvalAdvisory shortRef number =
     (case number of
        Some n \<Rightarrow> ''An approval request was created (approval '' @ n @ '', ref: '' @ shortRef @ '').''
      | None \<Rightarrow> ''An approval request was created (ref: '' @ shortRef @ '').'')
     @ '' Deliver it to the principal now with gw_deliver-approval, on the channel their standing preferences name for urgent items.''"

definition holdingReplyHow :: "(string \<times> string option) option \<Rightarrow> string" where
  "holdingReplyHow replyTo =
     (case replyTo of
        None \<Rightarrow> []
      | Some (messageId, account) \<Rightarrow>
          '' (email-reply with reply_to_message_id '' @ messageId
          @ (case truthy_text account of None \<Rightarrow> [] | Some a \<Rightarrow> '', account '' @ a) @ '')'')"

definition wake_content :: "string \<Rightarrow> string \<Rightarrow> wake_ask option \<Rightarrow> string" where
  "wake_content shortRef what wa =
     js_join '' ''
       (case wa of
          Some a \<Rightarrow>
            [what @ '' was held for the principal'' @ apos @ ''s approval (ref: '' @ shortRef @ '').'',
             ''It is a personal-data request: '' @ wk_requester a @ '' asked for the principal'' @ apos @ ''s ''
               @ wk_details a @ '', and the reply that shares it waits on the principal'' @ apos @ ''s yes.'',
             ''This is urgent. Deliver it now with gw_deliver-approval, on the channel the principal'' @ apos
               @ ''s standing preferences name for urgent items.'',
             ''Then you may send '' @ wk_requester a @ '' one short holding reply on the thread''
               @ holdingReplyHow (wk_replyTo a) @ ''. It must not include the requested details.'',
             ''Do not do anything else.'']
        | None \<Rightarrow>
            [what @ '' was held for the principal'' @ apos @ ''s approval (ref: '' @ shortRef @ '').'',
             ''Deliver it with gw_deliver-approval, on the channel the principal'' @ apos
               @ ''s standing preferences name for urgent items.'',
             ''Do not do anything else.''])"

definition wakeAskFor :: "send_request \<Rightarrow> review_ask \<Rightarrow> wake_ask" where
  "wakeAskFor req ra =
     \<lparr>wk_details = describePiiLabels (ra_labels ra), wk_requester = normalizeCounterparty (ra_requester ra),
      wk_replyTo =
        (case req of
           EmailReq e \<Rightarrow> map_option (\<lambda>mid. (mid, truthy_text (em_accountId e))) (truthy_text (em_replyToMessageId e))
         | _ \<Rightarrow> None)\<rparr>"

definition APPROVAL_LIFE_MS :: ms where
  "APPROVAL_LIFE_MS = 48 * 60 * 60 * 1000"

definition pending_approval :: "gateway_env \<Rightarrow> send_recipe \<Rightarrow> string \<Rightarrow> string option \<Rightarrow> string
    \<Rightarrow> disclosure_ask option \<Rightarrow> pending_row" where
  "pending_approval env recipe taskId conversationId shortRef da =
     \<lparr>pn_taskId = taskId, pn_conversationId = conversationId, pn_toolName = sx_toolName recipe, pn_shortRef = shortRef,
      pn_description = sx_description recipe, pn_payload = sx_partialPayload recipe, pn_disclosureAsk = da,
      pn_expiresAt = ge_now env + APPROVAL_LIFE_MS\<rparr>"

text \<open>The reference and the number of an approval that was raised; nothing when no row could be written.\<close>

type_synonym raised = "(string \<times> string option) option"

definition raiseSendApproval :: "gateway_env \<Rightarrow> send_request \<Rightarrow> send_recipe \<Rightarrow> string \<Rightarrow> gateway_options
    \<Rightarrow> string list \<Rightarrow> string option \<Rightarrow> disclosure_ask option \<Rightarrow> review_ask option \<Rightarrow> gateway \<Rightarrow> raised \<times> gateway" where
  "raiseSendApproval env req recipe taskEventId opts extraLines preamble disclosureAsk ra g0 =
     (if \<not> ge_actionLog env then (None, g0)
      else
        (let (shortRef, g1) = fresh_id env g0;
             row = pending_approval env recipe taskEventId (go_conversationId opts) shortRef disclosureAsk
         in if \<not> ge_accepts env (EvApproval row) then (None, g1)
            else
              (let number = ge_approvalNumber env shortRef;
                   g2 = happens (EvApproval row) g1;
                   g3 = happens (EvDisplay \<lparr>dy_shortRef = shortRef, dy_preamble = js_or (sx_description recipe) preamble,
                          dy_extraLines = extraLines, dy_number = number\<rparr>) g2;
                   g4 = queueApprovalMention env shortRef (sx_description recipe) taskEventId (go_conversationId opts) g3;
                   g5 = (if go_postTurn opts
                         then gw_publish env (EvWake shortRef
                                (wake_content shortRef (sx_description recipe) (map_option (wakeAskFor req) ra)) taskEventId) g4
                         else g4)
               in (Some (shortRef, number), g5))))"

section \<open>The score\<close>

definition readAutonomy :: "gateway_env \<Rightarrow> autonomy_read" where
  "readAutonomy env =
     (case ge_autonomy env of
        None \<Rightarrow> \<lparr>au_config = None, au_failed = False\<rparr>
      | Some (Inl _) \<Rightarrow> \<lparr>au_config = None, au_failed = True\<rparr>
      | Some (Inr c) \<Rightarrow> \<lparr>au_config = c, au_failed = False\<rparr>)"

definition currentGating :: "gateway_env \<Rightarrow> gating" where
  "currentGating env = js_or (ge_gating env) (Option.bind (au_config (readAutonomy env)) as_gating)"

definition bandScore :: "gateway_env \<Rightarrow> jsnum" where
  "bandScore env =
     (if ge_autonomy env = None then Fin 0
      else if au_failed (readAutonomy env) then Fin 0
      else (case au_config (readAutonomy env) of None \<Rightarrow> Fin 0 | Some c \<Rightarrow> as_score c))"

definition sendThreshold :: jsnum where
  "sendThreshold = (case minScoreForActionRisk RiskMedium of Inr m \<Rightarrow> m | Inl _ \<Rightarrow> Fin 0)"

definition autonomy_gate :: "gateway_env \<Rightarrow> send_request \<Rightarrow> gateway_options \<Rightarrow> unit gate" where
  "autonomy_gate env req opts g0 =
     (if ge_autonomy env = None then (Inr (), g0)
      else if so_humanApproved opts then (Inr (), g0)
      else if so_isSystemNotification opts then (Inr (), g0)
      else if isPrincipalRecipient env req then (Inr (), g0)
      else
        (case au_config (readAutonomy env) of
           None \<Rightarrow> (Inr (), g0)
         | Some cfg \<Rightarrow>
             if \<not> num_lt (as_score cfg) sendThreshold then (Inr (), g0)
             else
               (let score = ge_num env (as_score cfg);
                    threshold = ge_num env sendThreshold;
                    g1 = gw_publish env (EvSendBlocked (request_channel req) (as_score cfg) sendThreshold (go_parentEventId opts)) g0;
                    (raised, g2) =
                      (case (truthy_text (go_taskEventId opts), go_reExecRecipe opts) of
                         (Some task, Some recipe) \<Rightarrow>
                           raiseSendApproval env req recipe task opts
                             [''Autonomy score: '' @ score @ '' (threshold: '' @ threshold @ '')''] None None None g1
                       | _ \<Rightarrow> (None, g1))
                in (Inl (case raised of
                      Some (ref, number) \<Rightarrow>
                        (refused (''Autonomy score '' @ score @ '' is below send threshold '' @ threshold @ ''. ''
                           @ approvalAdvisory ref number))\<lparr>os_gated := True, os_actionRef := Some ref\<rparr>
                    | None \<Rightarrow>
                        (refused (''Autonomy score is '' @ score @ '' '' @ dash @ '' direct sends require a score of at least ''
                           @ threshold @ ''. Use createEmailDraft() for drafts, or ask the principal to raise the score with set-autonomy.''))
                          \<lparr>os_gated := True\<rparr>), g2))))"


section \<open>No-reply addresses and blocked contacts\<close>

definition blocked_record :: "send_request \<Rightarrow> gateway_options \<Rightarrow> string \<Rightarrow> string \<Rightarrow> string \<Rightarrow> gw_finding list \<Rightarrow> blocked_event" where
  "blocked_record req opts blockId content reason findings =
     \<lparr>bl_blockId = blockId, bl_conversationId = js_or [] (go_conversationId opts), bl_channel = request_channel req,
      bl_content = content, bl_recipientId = recipient_id req, bl_reason = reason, bl_findings = findings,
      bl_parent = js_or [] (go_parentEventId opts)\<rparr>"

text \<open>The block is published with an identifier of its own; a bus that fails changes nothing else.\<close>

definition publish_block :: "gateway_env \<Rightarrow> send_request \<Rightarrow> gateway_options \<Rightarrow> string \<Rightarrow> string \<Rightarrow> gw_finding list
    \<Rightarrow> gateway \<Rightarrow> gateway" where
  "publish_block env req opts content reason findings g0 =
     (let (i, g1) = fresh_id env g0
      in gw_publish env (EvBlocked (blocked_record req opts (''block_'' @ i) content reason findings)) g1)"

definition no_reply_gate :: "gateway_env \<Rightarrow> send_request \<Rightarrow> gateway_options \<Rightarrow> unit gate" where
  "no_reply_gate env req opts g =
     (case req of
        EmailReq _ \<Rightarrow>
          (let rs = rs_recipients (buildFilterRecipients env req)
           in if rs \<noteq> [] \<and> list_all (\<lambda>r. classifyEmailSender (fr_email r) = AutomatedSender) rs
              then (Inl (refused ''Recipient is a no-reply/automated address; message not deliverable''),
                    publish_block env req opts (ge_scrubPii env (request_body req)) ''no_reply_recipient''
                      [(''no-reply-recipient'', ''All recipients classify as automated/no-reply; message not deliverable'')] g)
              else (Inr (), g))
      | _ \<Rightarrow> (Inr (), g))"

text \<open>What the lookup of the primary recipient gives the later gates.\<close>

record primary_recipient =
  pr_tier :: contact_tier
  pr_unresolved :: bool
  pr_contactId :: "string option"
  pr_verified :: bool
  pr_name :: "string option"
  pr_known :: known_recipients

definition resolve_primary :: "gateway_env \<Rightarrow> send_request \<Rightarrow> primary_recipient" where
  "resolve_primary env req =
     (let none = \<lparr>pr_tier = TUnknown, pr_unresolved = False, pr_contactId = None, pr_verified = False, pr_name = None,
                  pr_known = \<lparr>kr_tiers = [], kr_contactIds = []\<rparr>\<rparr>
      in case ge_resolve env (request_channel req) (recipient_id req) of
           Inl _ \<Rightarrow> none\<lparr>pr_unresolved := True\<rparr>
         | Inr None \<Rightarrow> none
         | Inr (Some c) \<Rightarrow>
             (let key = normalizeCounterparty (recipient_id req)
              in \<lparr>pr_tier = rc_tier c, pr_unresolved = False, pr_contactId = Some (rc_contactId c),
                  pr_verified = rc_verified c, pr_name = Some (rc_displayName c),
                  pr_known = \<lparr>kr_tiers = [(key, rc_tier c)],
                              kr_contactIds = (if rc_verified c then [(key, rc_contactId c)] else [])\<rparr>\<rparr>))"

definition blocked_gate :: "gateway_env \<Rightarrow> send_request \<Rightarrow> primary_recipient gate" where
  "blocked_gate env req g =
     (let primary = resolve_primary env req;
          others = filter (\<lambda>i. js_lower i \<noteq> js_lower (recipient_id req)) (personRecipients req)
      in if pr_tier primary = TBlocked then (Inl (refused ''Recipient is blocked''), g)
         else (case findBlockedRecipient env (request_channel req) others False (pr_known primary) of
                 (Some (BlockedRecipient _ _), _) \<Rightarrow> (Inl (refused ''Recipient is blocked''), g)
               | (_, kr) \<Rightarrow> (Inr (primary\<lparr>pr_known := kr\<rparr>), g)))"

section \<open>Unresolved names\<close>

definition truthy_list :: "string option \<Rightarrow> string list" where
  "truthy_list s = (case truthy_text s of None \<Rightarrow> [] | Some x \<Rightarrow> [x])"

text \<open>The names of the recipients, up to a lookup that fails.\<close>

fun recipient_names :: "gateway_env \<Rightarrow> string \<Rightarrow> projected list \<Rightarrow> string list" where
  "recipient_names env channel [] = []"
| "recipient_names env channel ((i, _) # rs) =
     ge_nameTokens env i
     @ (case ge_resolve env channel i of
          Inl _ \<Rightarrow> []
        | Inr c \<Rightarrow> truthy_list (map_option rc_displayName c) @ recipient_names env channel rs)"

definition covered_names :: "gateway_env \<Rightarrow> send_request \<Rightarrow> entity_state \<Rightarrow> (string \<times> string option) list \<Rightarrow> string list" where
  "covered_names env req st cards =
     et_principalNames st
     @ concat (map (\<lambda>(n, p). n # truthy_list p) cards)
     @ (case ge_principals env of
          [] \<Rightarrow> []
        | p # _ \<Rightarrow>
            if pi_contactId p = [] then []
            else (case ge_contact env (pi_contactId p) of
                    Inr (Some c) \<Rightarrow> cd_displayName c # truthy_list (cd_preferredName c)
                  | _ \<Rightarrow> []))
     @ recipient_names env (request_channel req) (projectRecipients req)"

definition unresolvedIdentityReason :: "gateway_env \<Rightarrow> send_request \<Rightarrow> gateway_options \<Rightarrow> string option" where
  "unresolvedIdentityReason env req opts =
     (case ge_entities env of
        None \<Rightarrow> None
      | Some st \<Rightarrow>
          if so_humanApproved opts \<or> so_isSystemNotification opts then None
          else if isPrincipalRecipient env req then None
          else (case Option.bind (truthy_text (go_taskEventId opts)) (et_turn st) of
                  None \<Rightarrow> None
                | Some cards \<Rightarrow>
                    (let own = (case ge_persona env of None \<Rightarrow> [] | Some (n, t) \<Rightarrow> [n, t])
                     in ge_unresolvedIdentity env (ge_blankPhrases env (request_body req) own) (request_subject req)
                          (covered_names env req st cards))))"

definition identity_gate :: "gateway_env \<Rightarrow> send_request \<Rightarrow> gateway_options \<Rightarrow> unit gate" where
  "identity_gate env req opts g =
     (if ge_identityGate env = IdentityOff then (Inr (), g)
      else (case truthy_text (unresolvedIdentityReason env req opts) of
              None \<Rightarrow> (Inr (), g)
            | Some reason \<Rightarrow>
                if ge_identityGate env = IdentityShadow then (Inr (), g)
                else (Inl (withUnmatchedRecipientNote env req
                        ((refused reason)\<lparr>os_blockedRules := [''unresolved-identity'']\<rparr>)),
                      publish_block env req opts (ge_scrubPii env (request_body req)) ''unresolved_identity''
                        [(''unresolved-identity'', reason)] g)))"

section \<open>Bulk exports\<close>

definition export_block :: "gateway_env \<Rightarrow> send_request \<Rightarrow> gateway_options \<Rightarrow> string \<Rightarrow> export_item list \<Rightarrow> gateway
    \<Rightarrow> (send_result + 'a) \<times> gateway" where
  "export_block env req opts message items g0 =
     (let summary = formatItemSummary items;
          (raised, g3) =
            (case (ge_actionLog env, truthy_text (go_taskEventId opts), go_reExecRecipe opts) of
               (True, Some task, Some recipe) \<Rightarrow>
                 (let (shortRef, g1) = fresh_id env g0;
                      row = pending_approval env recipe task (go_conversationId opts) shortRef None
                  in if \<not> ge_accepts env (EvApproval row) then (None, g1)
                     else (let number = ge_approvalNumber env shortRef;
                               g2 = happens (EvApproval row) g1
                           in (Some (shortRef, number),
                               queueApprovalMention env shortRef (sx_description recipe) task (go_conversationId opts)
                                 (happens (EvDisplay \<lparr>dy_shortRef = shortRef, dy_preamble = message,
                                    dy_extraLines = [''Items:'' @ newline @ summary], dy_number = number\<rparr>) g2))))
             | _ \<Rightarrow> (None, g0))
      in (Inl ((refused (message @ newline @ newline @ summary
              @ (case raised of None \<Rightarrow> []
                 | Some (ref, number) \<Rightarrow> newline @ newline @ approvalAdvisory ref number)))
            \<lparr>os_gated := True, os_actionRef := map_option fst raised\<rparr>), g3))"

text \<open>The items go to the audit of the delivery when the export is allowed.\<close>

definition export_gate :: "gateway_env \<Rightarrow> send_request \<Rightarrow> gateway_options \<Rightarrow> export_item list gate" where
  "export_gate env req opts g =
     (case (ge_exports env, req) of
        (Some (nodes, cfg), EmailReq e) \<Rightarrow>
          (if em_attachments e = [] then (Inr [], g)
           else (case evaluateGatewayAttachments nodes cfg (em_attachments e) (EmailTo (em_to e))
                        (case go_exportContext opts of None \<Rightarrow> [] | Some x \<Rightarrow> xc_exportItems x) (so_humanApproved opts) of
                   None \<Rightarrow> (Inr [], g)
                 | Some (ExportBlock message _, items) \<Rightarrow>
                     (Inl (withUnmatchedRecipientNote env req (refused message)), g)
                 | Some (ExportApproval _ message _ _, items) \<Rightarrow> export_block env req opts message items g
                 | Some (ExportAllow, items) \<Rightarrow> (Inr items, g)))
      | _ \<Rightarrow> (Inr [], g))"

end
