(* ===== verification/GatewayContent.thy ===== *)
theory GatewayContent
  imports GatewayGates
begin

text \<open>
  The steps of \<open>send()\<close> that look at the text: detection or redaction of personal data, and the
  content filter. Their outcome keeps apart what goes on the wire and the redacted copy that the filter
  and the audit events see.
\<close>

section \<open>Redacted copies\<close>

definition gw_detect :: "redactor \<Rightarrow> string \<Rightarrow> string \<Rightarrow> redact_context \<Rightarrow> unit + pii_match list" where
  "gw_detect rt content channel ctx =
     (if rg_enabled (rt_config rt) \<and> \<not> rx_principalIsSole ctx
      then (case rt_find rt content of
              Inl _ \<Rightarrow> Inl ()
            | Inr ms \<Rightarrow> Inr (detect_outbound (rt_config rt) (\<lambda>_. ms) content channel ctx))
      else Inr [])"

definition redact_ctx :: "string \<Rightarrow> bool \<Rightarrow> redact_context" where
  "redact_ctx recipient sole =
     \<lparr>rx_conversationId = None, rx_recipientId = Some recipient, rx_parentEventId = None, rx_principalIsSole = sole\<rparr>"

definition redactedCopy :: "gateway_env \<Rightarrow> string \<Rightarrow> string \<Rightarrow> string \<Rightarrow> string" where
  "redactedCopy env content channel recipient =
     (case ge_redactor env of
        None \<Rightarrow> ge_scrubPii env content
      | Some rt \<Rightarrow>
          (case gw_detect rt content channel (redact_ctx recipient False) of
             Inl _ \<Rightarrow> ge_scrubPii env content
           | Inr ms \<Rightarrow> rr_content (apply_redaction content ms channel)))"

definition blockForRedactorError :: "gateway_env \<Rightarrow> send_request \<Rightarrow> gateway_options \<Rightarrow> gateway
    \<Rightarrow> (send_result + 'a) \<times> gateway" where
  "blockForRedactorError env req opts g =
     (Inl (withUnmatchedRecipientNote env req (refused ''pii_redactor_error'')),
      publish_block env req opts (ge_scrubPii env (request_body req)) ''pii_redactor_error''
        [(''pii_redactor_error'', ''PiiRedactor threw an unexpected error'')] g)"

section \<open>Which gating applies\<close>

definition band_review_runs :: "gateway_env \<Rightarrow> send_request \<Rightarrow> gateway_options \<Rightarrow> bool" where
  "band_review_runs env req opts \<longleftrightarrow>
     currentGating env = BandGating \<and> ge_review env \<noteq> None \<and> \<not> so_isSystemNotification opts
     \<and> \<not> so_humanApproved opts \<and> \<not> rs_principalIsSole (buildFilterRecipients env req)"

definition send_intact :: "gateway_env \<Rightarrow> gateway_options \<Rightarrow> bool" where
  "send_intact env opts \<longleftrightarrow> currentGating env = BandGating \<and> so_humanApproved opts"

section \<open>Personal data\<close>

record content_step =
  cs_redactedBody :: string
  cs_redactedSubject :: "string option"
  cs_sendBody :: string
  cs_sendSubject :: "string option"
  cs_items :: "detected_item list"
  cs_applied :: "(string \<times> item_field) list"
  cs_dropIntactQuote :: bool

definition as_written :: "send_request \<Rightarrow> content_step" where
  "as_written req =
     \<lparr>cs_redactedBody = request_body req, cs_redactedSubject = request_subject req, cs_sendBody = request_body req,
      cs_sendSubject = request_subject req, cs_items = [], cs_applied = [], cs_dropIntactQuote = False\<rparr>"

text \<open>An approved send: as written, with a redacted copy, and without a quote that holds details.\<close>

definition intact_content :: "gateway_env \<Rightarrow> redactor \<Rightarrow> send_request \<Rightarrow> content_step" where
  "intact_content env rt req =
     (let r = buildFilterRecipients env req; rid = recipient_id req
      in (as_written req)
          \<lparr>cs_redactedBody := redactedCopy env (request_body req) (request_channel req) rid,
           cs_redactedSubject :=
             (case truthy_text (request_subject req) of
                Some s \<Rightarrow> Some (redactedCopy env s ''email'' rid)
              | None \<Rightarrow> request_subject req),
           cs_dropIntactQuote :=
             (case req of
                EmailReq e \<Rightarrow>
                  (case truthy_text (em_htmlQuote e) of
                     None \<Rightarrow> False
                   | Some q \<Rightarrow>
                       \<not> quoteIsExempt env e (rs_recipients r)
                       \<and> (case gw_detect rt q ''email'' (redact_ctx rid (rs_principalIsSole r)) of
                            Inl _ \<Rightarrow> True
                          | Inr ms \<Rightarrow> 0 < length ms))
              | _ \<Rightarrow> False)\<rparr>)"

text \<open>Items are numbered in the order body, subject, quote.\<close>

definition number_items :: "nat \<Rightarrow> item_field \<Rightarrow> pii_match list \<Rightarrow> detected_item list" where
  "number_items n field ms =
     map (\<lambda>(i, m). \<lparr>di_id = ''P'' @ nat_text (n + i + 1), di_label = pm_label m, di_text = pm_matched m, di_field = field\<rparr>)
       (enumerate 0 ms)"

definition detectIn :: "redactor \<Rightarrow> send_request \<Rightarrow> redact_context \<Rightarrow> string option \<Rightarrow> unit + pii_match list" where
  "detectIn rt req ctx s =
     (case truthy_text s of None \<Rightarrow> Inr [] | Some t \<Rightarrow> gw_detect rt t (request_channel req) ctx)"

definition reviewed_quote :: "gateway_env \<Rightarrow> send_request \<Rightarrow> string option" where
  "reviewed_quote env req =
     (case req of
        EmailReq e \<Rightarrow>
          (case truthy_text (em_htmlQuote e) of
             None \<Rightarrow> None
           | Some q \<Rightarrow> if quoteIsExempt env e (rs_recipients (buildFilterRecipients env req)) then None else Some q)
      | _ \<Rightarrow> None)"

definition band_content :: "gateway_env \<Rightarrow> redactor \<Rightarrow> send_request \<Rightarrow> unit + content_step" where
  "band_content env rt req =
     (let ctx = redact_ctx (recipient_id req) (rs_principalIsSole (buildFilterRecipients env req))
      in case (detectIn rt req ctx (Some (request_body req)), detectIn rt req ctx (request_subject req),
               detectIn rt req ctx (reviewed_quote env req)) of
           (Inr body, Inr subject, Inr quote) \<Rightarrow>
             Inr ((as_written req)
               \<lparr>cs_redactedBody := rr_content (apply_redaction (request_body req) body (request_channel req)),
                cs_redactedSubject :=
                  (case truthy_text (request_subject req) of
                     Some s \<Rightarrow> Some (rr_content (apply_redaction s subject (request_channel req)))
                   | None \<Rightarrow> request_subject req),
                cs_items := number_items 0 FieldBody body
                            @ number_items (length body) FieldSubject subject
                            @ number_items (length body + length subject) FieldQuote quote\<rparr>)
         | _ \<Rightarrow> Inl ())"

text \<open>Redaction under tier gating. The redactor publishes what it changed, the body first.\<close>

definition gw_redact :: "gateway_env \<Rightarrow> redactor \<Rightarrow> string \<Rightarrow> string \<Rightarrow> redact_context \<Rightarrow> gateway
    \<Rightarrow> (unit + redaction_result) \<times> gateway" where
  "gw_redact env rt content channel ctx g =
     (case gw_detect rt content channel ctx of
        Inl _ \<Rightarrow> (Inl (), g)
      | Inr ms \<Rightarrow>
          (let r = apply_redaction content ms channel
           in (Inr r, fold (\<lambda>e. gw_publish env (EvRedacted e)) (redacted_events ctx channel r) g)))"

definition tier_content :: "gateway_env \<Rightarrow> redactor \<Rightarrow> send_request \<Rightarrow> gateway \<Rightarrow> (unit + content_step) \<times> gateway" where
  "tier_content env rt req g0 =
     (let ctx = redact_ctx (recipient_id req) (rs_principalIsSole (buildFilterRecipients env req));
          channel = request_channel req
      in case gw_redact env rt (request_body req) channel ctx g0 of
           (Inl _, g1) \<Rightarrow> (Inl (), g1)
         | (Inr body, g1) \<Rightarrow>
             (let entries = (\<lambda>f r. map (\<lambda>e. (re_label e, f)) (rr_redactions r))
              in case truthy_text (request_subject req) of
                   None \<Rightarrow>
                     (Inr ((as_written req)
                        \<lparr>cs_redactedBody := rr_content body, cs_sendBody := rr_content body,
                         cs_applied := entries FieldBody body\<rparr>), g1)
                 | Some s \<Rightarrow>
                     (case gw_redact env rt s channel ctx g1 of
                        (Inl _, g2) \<Rightarrow> (Inl (), g2)
                      | (Inr subject, g2) \<Rightarrow>
                          (Inr ((as_written req)
                             \<lparr>cs_redactedBody := rr_content body, cs_sendBody := rr_content body,
                              cs_redactedSubject := Some (rr_content subject), cs_sendSubject := Some (rr_content subject),
                              cs_applied := entries FieldBody body @ entries FieldSubject subject\<rparr>), g2))))"

definition pii_step :: "gateway_env \<Rightarrow> send_request \<Rightarrow> gateway_options \<Rightarrow> content_step gate" where
  "pii_step env req opts g =
     (case ge_redactor env of
        None \<Rightarrow> (Inr (as_written req), g)
      | Some rt \<Rightarrow>
          if send_intact env opts then (Inr (intact_content env rt req), g)
          else if band_review_runs env req opts
          then (case band_content env rt req of
                  Inl _ \<Rightarrow> blockForRedactorError env req opts g
                | Inr c \<Rightarrow> (Inr c, g))
          else (case tier_content env rt req g of
                  (Inl _, g') \<Rightarrow> blockForRedactorError env req opts g'
                | (Inr c, g') \<Rightarrow> (Inr c, g')))"

section \<open>The content filter\<close>

text \<open>Which rules show their detail to the agent and the principal: never one that matched a fragment.\<close>

definition shows_detail :: "string \<Rightarrow> bool" where
  "shows_detail rule \<longleftrightarrow>
     starts_with ''llm-judge-'' rule \<or> rule = ''disclosure-tier-gate'' \<or> rule = ''principal-note-markup''
     \<or> rule \<in> set (map BAND_RULES [RUngrounded, RUnneeded, RPii, RToken])"

definition buildBlockReasonSummary :: "gw_finding list \<Rightarrow> string" where
  "buildBlockReasonSummary findings =
     (if findings = [] then ''Content filter (no rule detail available)''
      else js_join newline (map (\<lambda>(rule, detail). if shows_detail rule \<and> detail \<noteq> [] then rule @ '': '' @ detail else rule)
             findings))"

fun reason_label :: "unmatched_reason \<Rightarrow> string" where
  "reason_label NoContact = ''matches no known contact''"
| "reason_label Unverified = ''unverified contact address''"

definition unmatchedRecipientNotificationLines :: "string \<Rightarrow> (string \<times> unmatched_reason) list \<Rightarrow> string list" where
  "unmatchedRecipientNotificationLines intended us =
     (let same = (\<lambda>u. js_lower (fst u) = js_lower intended);
          others = filter (\<lambda>u. \<not> same u) us
      in (''Intended recipient: '' @ intended
          @ (case find same us of None \<Rightarrow> [] | Some u \<Rightarrow> '' ('' @ reason_label (snd u) @ '')''))
         # (if others = [] then []
            else [''Other recipients to check: ''
                  @ js_join '', '' (map (\<lambda>u. fst u @ '' ('' @ reason_label (snd u) @ '')'') others)]))"

definition filter_block_report :: "send_request \<Rightarrow> gw_finding list \<Rightarrow> (string \<times> unmatched_reason) list \<Rightarrow> string \<Rightarrow> string \<Rightarrow> string" where
  "filter_block_report req findings us blockId eventId =
     js_join newline
       ([''Outbound '' @ request_channel req
           @ '' message blocked by the content filter. The agent was told why and may rewrite it and retry.'',
         ''Reason: '' @ buildBlockReasonSummary findings]
        @ unmatchedRecipientNotificationLines (recipient_id req) us
        @ [''Block '' @ blockId @ ''; audit event '' @ eventId @ ''.''])"

definition filter_input_of :: "gateway_env \<Rightarrow> send_request \<Rightarrow> gateway_options \<Rightarrow> primary_recipient \<Rightarrow> string \<Rightarrow> filter_input" where
  "filter_input_of env req opts primary content =
     (let r = buildFilterRecipients env req
      in \<lparr>fi_content = content, fi_recipientEmail = recipient_id req, fi_channel = request_channel req,
          fi_recipientTier = pr_tier primary, fi_tierUnresolved = pr_unresolved primary,
          fi_principalDirected = so_principalDirected opts, fi_recipients = rs_recipients r,
          fi_principalIncluded = rs_principalIncluded r, fi_principalIsSole = rs_principalIsSole r,
          fi_gating = currentGating env\<rparr>)"

definition filter_verdict :: "gateway_env \<Rightarrow> filter_input \<Rightarrow> bool \<times> gw_finding list" where
  "filter_verdict env i =
     (case ge_filter env i of
        Inl _ \<Rightarrow> (False, [(''filter-error'', ''Content filter threw an unexpected error'')])
      | Inr r \<Rightarrow> r)"

definition finding_text :: "gw_finding list \<Rightarrow> string" where
  "finding_text findings = js_join ''; '' (map (\<lambda>(r, d). r @ '': '' @ d) findings)"

definition filter_gate :: "gateway_env \<Rightarrow> send_request \<Rightarrow> gateway_options \<Rightarrow> primary_recipient \<Rightarrow> content_step \<Rightarrow> unit gate" where
  "filter_gate env req opts primary c g0 =
     (case filter_verdict env (filter_input_of env req opts primary (cs_redactedBody c)) of
        (True, _) \<Rightarrow> (Inr (), g0)
      | (False, findings) \<Rightarrow>
          (let (i, g1) = fresh_id env g0;
               blockId = ''block_'' @ i;
               (eventId, g2) = fresh_id env g1;
               us = findUnmatchedRecipients env req;
               g3 = gw_publish env (EvBlocked (blocked_record req opts blockId (cs_redactedBody c) (finding_text findings) findings)) g2;
               g4 = (if go_skipNotificationOnBlock opts then g3
                     else queueBlockReport env (filter_block_report req findings us blockId eventId)
                            (go_conversationId opts) eventId g3)
           in (Inl (withUnmatchedRecipientNote env req
                  ((refused (buildBlockReasonSummary findings))\<lparr>os_blockedRules := map fst findings\<rparr>)), g4)))"

end
