(* ===== verification/GatewayReview.thy ===== *)
theory GatewayReview
  imports GatewayContent
begin

text \<open>
  The band review inside \<open>send()\<close> (\<open>runBandReview\<close>): what the review is asked and what each of its
  decisions does: an event, a report to the principal, an approval, a result. A saved draft, which
  cannot be rewritten in place, passes \<open>editable = False\<close>.
\<close>

section \<open>Asking\<close>

record review_args =
  va_request :: send_request
  va_content :: string
  va_auditContent :: string
  va_recipients :: "string list"
  va_principalRecipients :: "string list"
  va_items :: "detected_item list"
  va_tier :: "contact_tier option"
  va_tiers :: "(string \<times> contact_tier) list option"
  va_contactIds :: "(string \<times> string) list"
  va_requester :: "(string \<times> string) option" \<comment> \<open>address and contact name\<close>
  va_subject :: "string option"
  va_editable :: bool

definition review_input_of :: "gateway_env \<Rightarrow> gateway_options \<Rightarrow> review_args \<Rightarrow> review_input" where
  "review_input_of env opts a =
     \<lparr>ri_content = va_content a, ri_channel = request_channel (va_request a), ri_recipients = va_recipients a,
      ri_principalRecipients = Some (va_principalRecipients a), ri_score = bandScore env,
      ri_conversationId = truthy_text (go_conversationId opts), ri_taskEventId = truthy_text (go_taskEventId opts),
      ri_principalDirected = so_principalDirected opts, ri_reportedToPrincipal = truthy_text (go_reportedToPrincipal opts),
      ri_detectedItems = va_items a, ri_recipientTier = va_tier a, ri_recipientTiers = va_tiers a,
      ri_subject = va_subject a, ri_recipientContactIds = va_contactIds a\<rparr>"

definition REVIEW_FAILED_REASON :: string where
  "REVIEW_FAILED_REASON = ''Held for the principal: the send review failed.''"

text \<open>A review that throws is a hold. Without a review wired nothing asks for one.\<close>

definition ask_review :: "gateway_env \<Rightarrow> gateway_options \<Rightarrow> review_args \<Rightarrow> gateway \<Rightarrow> band_decision \<times> gateway" where
  "ask_review env opts a g =
     (let i = review_input_of env opts a
      in case ge_review env of
           None \<Rightarrow> (hold_for RUnreviewed REVIEW_FAILED_REASON, g)
         | Some re \<Rightarrow>
             if ge_reviewThrows env i then (hold_for RUnreviewed REVIEW_FAILED_REASON, g)
             else (case review re i (gw_band g) of
                     (d, tripped, st) \<Rightarrow>
                       (let g' = g\<lparr>gw_band := st\<rparr> in (d, if tripped then gw_publish env EvLimiterTripped g' else g'))))"

section \<open>Adjusting a decision\<close>

definition rule_names :: "band_finding list \<Rightarrow> string list" where
  "rule_names fs = map (\<lambda>f. BAND_RULES (bf_rule f)) fs"

definition as_gw :: "band_finding list \<Rightarrow> gw_finding list" where
  "as_gw fs = map (\<lambda>f. (BAND_RULES (bf_rule f), bf_detail f)) fs"

definition held_prefix :: string where
  "held_prefix = ''Held for the principal: ''"

definition heldBesideNote :: "band_finding list \<Rightarrow> string" where
  "heldBesideNote fs =
     concat (map (\<lambda>f. '' '' @ (if starts_with held_prefix (bf_detail f)
                              then ''Also, '' @ drop (length held_prefix) (bf_detail f) else bf_detail f)) fs)"

text \<open>A block needs a drafter that waits for it.\<close>

definition block_to_hold :: "gateway_options \<Rightarrow> review_args \<Rightarrow> band_decision \<Rightarrow> band_decision" where
  "block_to_hold opts a d =
     (case d of
        DBlock reason fs beside \<Rightarrow>
          if go_postTurn opts \<or> \<not> va_editable a
          then DHold (''Held for the principal: after one rewrite it still has these problems (''
                 @ js_join '', '' (js_uniq (rule_names (fs @ beside))) @ '').'' @ heldBesideNote beside) (fs @ beside) None
          else d
      | _ \<Rightarrow> d)"

text \<open>A saved draft with personal data is sent as written or not at all.\<close>

definition bounce_to_hold :: "review_args \<Rightarrow> band_decision \<Rightarrow> band_decision" where
  "bounce_to_hold a d =
     (case d of
        DBounce fs _ beside \<Rightarrow>
          if \<not> va_editable a \<and> va_items a \<noteq> []
          then DHold (''Held for the principal: a saved draft can'' @ apos @ ''t be rewritten in place, and the review found these problems (''
                 @ js_join '', '' (js_uniq (rule_names (fs @ beside))) @ '').'' @ heldBesideNote beside) (fs @ beside) None
          else d
      | _ \<Rightarrow> d)"

section \<open>What a decision does\<close>

record review_outcome =
  vo_report :: "string option"
  vo_signals :: "review_signals option"
  vo_dropQuote :: "string list option"

definition stranger_note :: "string \<Rightarrow> string list \<Rightarrow> string" where
  "stranger_note requester labels = normalizeCounterparty requester @ '' asked for your '' @ describePiiLabels labels"

definition draft_stranger :: "gateway_env \<Rightarrow> gateway_options \<Rightarrow> band_finding list \<Rightarrow> string list \<times> string
    \<Rightarrow> band_finding list \<Rightarrow> gateway \<Rightarrow> (send_result + 'a) \<times> gateway" where
  "draft_stranger env opts fs stranger beside g =
     (case stranger of
        (labels, requester) \<Rightarrow>
          (let note = heldBesideNote beside
           in (Inl ((refused (''Not sent: this saved draft shares the principal'' @ apos @ ''s '' @ describePiiLabels labels
                   @ '' with someone who asked for it, and nothing authorizes that. Save a version without them, or tell the principal.''
                   @ note))\<lparr>os_blockedRules := js_uniq (rule_names (fs @ beside))\<rparr>),
               queueBlockReport env (stranger_note requester labels @ ''. Curia didn'' @ apos
                  @ ''t send the saved draft that shared it.'' @ note) (go_conversationId opts) (report_parent opts) g)))"

definition act_on_bounce :: "gateway_env \<Rightarrow> gateway_options \<Rightarrow> review_args \<Rightarrow> band_finding list
    \<Rightarrow> (string list \<times> string) option \<Rightarrow> gateway \<Rightarrow> (send_result + 'a) \<times> gateway" where
  "act_on_bounce env opts a fs stranger g0 =
     (let (i, g1) = fresh_id env g0;
          req = va_request a;
          event = \<lparr>bl_blockId = ''block_'' @ i, bl_conversationId = js_or [] (go_conversationId opts),
                   bl_channel = request_channel req, bl_content = va_auditContent a,
                   bl_recipientId = (case va_recipients a of [] \<Rightarrow> [] | r # _ \<Rightarrow> r),
                   bl_reason = finding_text (as_gw fs), bl_findings = as_gw fs,
                   bl_parent = js_or [] (go_parentEventId opts)\<rparr>;
          g2 = gw_publish env (EvBlocked event) g1;
          g3 = (case stranger of
                  None \<Rightarrow> g2
                | Some (labels, requester) \<Rightarrow>
                    queueBlockReport env (stranger_note requester labels @ ''. Curia didn'' @ apos @ ''t share it.'')
                      (go_conversationId opts) (report_parent opts) g2)
      in (Inl ((refused (buildBlockReasonSummary (as_gw fs)))\<lparr>os_blockedRules := rule_names fs\<rparr>), g3))"

definition act_on_block :: "gateway_env \<Rightarrow> gateway_options \<Rightarrow> review_args \<Rightarrow> string \<Rightarrow> band_finding list \<Rightarrow> gateway
    \<Rightarrow> (send_result + 'a) \<times> gateway" where
  "act_on_block env opts a reason fs g =
     (Inl ((refused (reason @ newline @ buildBlockReasonSummary (as_gw fs)))\<lparr>os_blockedRules := rule_names fs\<rparr>),
      queueBlockReport env (''Outbound '' @ request_channel (va_request a) @ '' message to '' @ js_join '', '' (va_recipients a)
         @ '' was not sent: after one rewrite it still had these problems ('' @ js_join '', '' (rule_names fs) @ '').'')
        (go_conversationId opts) (report_parent opts) g)"

definition requesterNameFor :: "review_ask \<Rightarrow> (string \<times> string) option \<Rightarrow> string option" where
  "requesterNameFor ra named =
     (case named of
        None \<Rightarrow> None
      | Some (i, n) \<Rightarrow>
          if normalizeCounterparty i \<noteq> normalizeCounterparty (ra_requester ra) then None
          else (let name = displayName n
                in if name \<noteq> [] \<and> js_lower name \<noteq> normalizeCounterparty (ra_requester ra) then Some name else None))"

definition disclosureAskFor :: "review_ask \<Rightarrow> string option \<Rightarrow> (string \<times> string) option \<Rightarrow> disclosure_ask option" where
  "disclosureAskFor ra conversationId named =
     (case truthy_text conversationId of
        None \<Rightarrow> None
      | Some conv \<Rightarrow>
          if ra_counterparties ra = [] then None
          else Some \<lparr>da_conversationId = conv, da_counterparties = ra_counterparties ra, da_labels = ra_labels ra,
                     da_requester = normalizeCounterparty (ra_requester ra),
                     da_outreachId = truthy_text (ra_outreachId ra), da_taskTitle = truthy_text (ra_taskTitle ra),
                     da_requesterName = requesterNameFor ra named\<rparr>)"

text \<open>The question as the principal is shown it, thread or no thread.\<close>

definition ask_question :: "review_ask \<Rightarrow> (string \<times> string) option \<Rightarrow> string" where
  "ask_question ra named =
     askPreamble nat_text
       \<lparr>da_conversationId = [], da_counterparties = ra_counterparties ra, da_labels = ra_labels ra,
        da_requester = ra_requester ra, da_outreachId = ra_outreachId ra, da_taskTitle = ra_taskTitle ra,
        da_requesterName = requesterNameFor ra named\<rparr>"

definition alsoHeld :: "band_finding list \<Rightarrow> string list" where
  "alsoHeld fs =
     (let other = filter (\<lambda>f. bf_rule f \<noteq> RPii) fs
      in if other = [] then [] else [''Also held by the send review: '' @ js_join '' '' (map bf_detail other)])"

definition unapproved_report :: "review_args \<Rightarrow> string \<Rightarrow> string \<Rightarrow> string" where
  "unapproved_report a reason why =
     ''Outbound '' @ request_channel (va_request a) @ '' message to '' @ js_join '', '' (va_recipients a)
     @ '' was held by the send review, and no approval request could be raised ('' @ why @ '').'' @ newline
     @ ''Reason: '' @ reason"

definition hold_recipe :: "gateway_options \<Rightarrow> review_ask option \<Rightarrow> send_recipe option" where
  "hold_recipe opts ra =
     map_option (\<lambda>base. case truthy_text (sx_askDescription base) of
                          Some d \<Rightarrow> if ra \<noteq> None then base\<lparr>sx_description := d\<rparr> else base
                        | None \<Rightarrow> base)
       (js_coalesce (go_holdRecipe opts) (go_reExecRecipe opts))"

definition ask_guidance :: "review_ask option \<Rightarrow> raised \<Rightarrow> string" where
  "ask_guidance ra rs =
     (case (ra, rs) of
        (Some r, Some (ref, number)) \<Rightarrow>
          '' This is waiting on the principal. Deliver approval '' @ js_or ref number
          @ '' to them now with gw_deliver-approval on their urgent channel, then send '' @ normalizeCounterparty (ra_requester r)
          @ '' a short holding reply that doesn'' @ apos @ ''t include the requested details.''
      | _ \<Rightarrow> [])"

definition act_on_hold :: "gateway_env \<Rightarrow> gateway_options \<Rightarrow> review_args \<Rightarrow> string \<Rightarrow> band_finding list
    \<Rightarrow> review_ask option \<Rightarrow> gateway \<Rightarrow> (send_result + 'a) \<times> gateway" where
  "act_on_hold env opts a reason fs ra g0 =
     (let report = (\<lambda>why g. queueBlockReport env (unapproved_report a reason why) (go_conversationId opts) (report_parent opts) g);
          recipe = hold_recipe opts ra
      in case (recipe, truthy_text (go_taskEventId opts)) of
           (Some rec, Some task) \<Rightarrow>
             (let (rs, g1) =
                    raiseSendApproval env (va_request a) rec task opts
                      (if ra \<noteq> None then alsoHeld fs else [''Held by the send review: '' @ reason])
                      (map_option (\<lambda>r. ask_question r (va_requester a)) ra)
                      (Option.bind ra (\<lambda>r. disclosureAskFor r (go_conversationId opts) (va_requester a))) ra g0
              in case rs of
                   None \<Rightarrow>
                     (Inl ((refused (reason @ '' No approval request could be recorded '' @ dash
                         @ '' ask the principal before sending it.''))\<lparr>os_gated := True\<rparr>),
                      report ''the approval row could not be written'' g1)
                 | Some (ref, number) \<Rightarrow>
                     (Inl ((refused (reason @ '' '' @ approvalAdvisory ref number @ ask_guidance ra rs))
                         \<lparr>os_gated := True, os_actionRef := Some ref\<rparr>), g1))
         | (r, _) \<Rightarrow>
             (Inl ((refused (reason @ '' Ask the principal before sending it.''))
                 \<lparr>os_blockedRules := [case fs of [] \<Rightarrow> BAND_RULES RUnreviewed | f # _ \<Rightarrow> BAND_RULES (bf_rule f)]\<rparr>),
              report (if r \<noteq> None then ''the send has no task to attach it to'' else ''this send has no way to replay it'') g0))"

definition act_on :: "gateway_env \<Rightarrow> gateway_options \<Rightarrow> review_args \<Rightarrow> band_decision \<Rightarrow> review_outcome gate" where
  "act_on env opts a d g =
     (case d of
        DSend r s q \<Rightarrow> (Inr \<lparr>vo_report = r, vo_signals = s, vo_dropQuote = q\<rparr>, g)
      | DBounce fs stranger _ \<Rightarrow> act_on_bounce env opts a fs stranger g
      | DBlock reason fs _ \<Rightarrow> act_on_block env opts a reason fs g
      | DHold reason fs ra \<Rightarrow> act_on_hold env opts a reason fs ra g)"

definition runBandReview :: "gateway_env \<Rightarrow> gateway_options \<Rightarrow> review_args \<Rightarrow> review_outcome gate" where
  "runBandReview env opts a g0 =
     (case ask_review env opts a g0 of
        (d0, g1) \<Rightarrow>
          (let d1 = block_to_hold opts a d0
           in case d1 of
                DBounce fs (Some stranger) beside \<Rightarrow>
                  if \<not> va_editable a then draft_stranger env opts fs stranger beside g1
                  else act_on env opts a (bounce_to_hold a d1) g1
              | _ \<Rightarrow> act_on env opts a (bounce_to_hold a d1) g1))"

end
