(* ===== verification/GatewayWire.thy ===== *)
theory GatewayWire
  imports GatewayContent
begin

text \<open>
  The transports behind \<open>send()\<close> (\<open>dispatchEmail\<close> to \<open>dispatchSms\<close>), the queue for a channel that is
  down (\<open>src/skills/outbound-queue-repo.ts\<close>) with its flush, and what follows a delivery: the contact
  of the recipient, the delivery event, the spot-check row.

  A call of a transport is an event whether or not it succeeds. A flush is one step, so the guard
  against two flushes at once never fires; the statements of the queue other than an enqueue do not fail.
\<close>

section \<open>Errors of a transport\<close>

fun somewhere :: "(string \<Rightarrow> bool) \<Rightarrow> string \<Rightarrow> bool" where
  "somewhere P [] = P []"
| "somewhere P (c # s) = (P (c # s) \<or> somewhere P s)"

text \<open>An expression of alternatives, tested against the message in lower case.\<close>

definition mentions :: "string list \<Rightarrow> string \<Rightarrow> bool" where
  "mentions words s = list_ex (\<lambda>w. js_includes (js_lower s) w) words"

text \<open>Two words with at most one character between them.\<close>

definition gap_at :: "string \<Rightarrow> string \<Rightarrow> string \<Rightarrow> bool" where
  "gap_at a b s =
     (starts_with a s
      \<and> (let r = drop (length a) s
         in starts_with b r \<or> (case r of [] \<Rightarrow> False | c # r' \<Rightarrow> c \<noteq> CHR 0x0A \<and> c \<noteq> CHR 0x0D \<and> starts_with b r')))"

definition http_5xx_at :: "string \<Rightarrow> bool" where
  "http_5xx_at s = (starts_with ''http 5'' s \<and> length (take 2 (drop 6 s)) = 2 \<and> list_all digit_char (take 2 (drop 6 s)))"

definition TRANSIENT_ERROR_CODES :: "string list" where
  "TRANSIENT_ERROR_CODES =
     [''ECONNREFUSED'', ''ECONNRESET'', ''ETIMEDOUT'', ''ENOTFOUND'', ''EPIPE'', ''EAI_AGAIN'', ''EHOSTUNREACH'', ''ENETUNREACH'']"

definition hasTransientErrorSignal :: "transport_error \<Rightarrow> bool" where
  "hasTransientErrorSignal e =
     ((case te_status e of None \<Rightarrow> False | Some s \<Rightarrow> s = 408 \<or> s = 429 \<or> 500 \<le> s)
      \<or> (case te_code e of None \<Rightarrow> False | Some c \<Rightarrow> c \<in> set TRANSIENT_ERROR_CODES))"

definition email_queueable :: "transport_error \<Rightarrow> bool" where
  "email_queueable e =
     (let m = te_message e; l = js_lower m;
          authPermanent = mentions [''401'', ''403'', ''unauthorized'', ''forbidden''] m
            \<or> somewhere (gap_at ''invalid'' ''grant'') l \<or> somewhere (gap_at ''invalid'' ''token'') l
      in \<not> authPermanent
         \<and> (hasTransientErrorSignal e
            \<or> mentions [''fetch failed'', ''econnrefused'', ''etimedout'', ''enotfound'', ''network'', ''temporarily'',
                        ''socket'', ''econnreset''] m
            \<or> somewhere http_5xx_at l))"

definition signal_queueable :: "transport_error \<Rightarrow> bool" where
  "signal_queueable e = (hasTransientErrorSignal e \<or> mentions [''not connected'', ''econnrefused'', ''epipe'', ''socket''] (te_message e))"

definition slack_queueable :: "string \<Rightarrow> bool" where
  "slack_queueable code =
     (mentions [''fetch failed'', ''econnrefused'', ''etimedout'', ''enotfound'', ''socket'', ''network'', ''temporarily'',
                ''too_many_requests'', ''service_unavailable'', ''internal_error'', ''request_timeout''] code
      \<or> somewhere (gap_at ''rate'' ''limited'') (js_lower code))"

definition sms_queueable :: "transport_error \<Rightarrow> bool" where
  "sms_queueable e =
     (hasTransientErrorSignal e
      \<or> mentions [''fetch failed'', ''econnrefused'', ''etimedout'', ''enotfound'', ''network'', ''non-json'', ''temporarily'']
          (te_message e)
      \<or> somewhere http_5xx_at (js_lower (te_message e)))"

section \<open>Transports\<close>

definition sent_as :: "string \<Rightarrow> send_result" where
  "sent_as messageId = succeeded\<lparr>os_messageId := Some messageId\<rparr>"

definition send_failed :: "string \<Rightarrow> bool \<Rightarrow> send_result" where
  "send_failed message queueable = (refused (''Send failed: '' @ message))\<lparr>os_queueable := queueable\<rparr>"

definition wire_email_of :: "gateway_env \<Rightarrow> email_request \<Rightarrow> string list \<Rightarrow> wire_email" where
  "wire_email_of env e files =
     \<lparr>we_to = emailToAddresses e, we_cc = em_cc e, we_subject = js_or [] (em_subject e),
      we_html = ge_html env (em_body e) (em_signature e) @ js_or [] (em_htmlQuote e),
      we_replyToMessageId = em_replyToMessageId e, we_attachments = files\<rparr>"

definition dispatchEmail :: "gateway_env \<Rightarrow> email_request \<Rightarrow> gateway \<Rightarrow> send_result \<times> gateway" where
  "dispatchEmail env e g =
     (case getNylasClient env (em_accountId e) of
        None \<Rightarrow>
          (refused (case truthy_text (em_accountId e) of
              Some a \<Rightarrow> ''unknown account '' @ apos @ a @ apos @ ''; available: [''
                @ js_join '', '' (map fst (ge_nylas env)) @ '']''
            | None \<Rightarrow> ''Email client not configured''), g)
      | Some client \<Rightarrow>
          (case (if em_attachments e = [] then Inr [] else ge_readFiles env (em_attachments e)) of
             Inl message \<Rightarrow> (refused (''Attachment error: '' @ message), g)
           | Inr files \<Rightarrow>
               (let g' = happens (EvWire (EmailReq e)) g
                in case ny_send client (wire_email_of env e files) of
                     Inr (mid, thread) \<Rightarrow> ((sent_as mid)\<lparr>os_threadId := truthy_text thread\<rparr>, g')
                   | Inl err \<Rightarrow> (send_failed (te_message err) (email_queueable err), g'))))"

definition dispatchSignal :: "gateway_env \<Rightarrow> signal_request \<Rightarrow> gateway \<Rightarrow> send_result \<times> gateway" where
  "dispatchSignal env s g =
     (case ge_signal env of
        None \<Rightarrow> (refused ''Signal client not configured'', g)
      | Some client \<Rightarrow>
          (case truthy_text (ge_signalNumber env) of
             None \<Rightarrow> (refused ''Signal phone number not configured'', g)
           | Some account \<Rightarrow>
               if \<not> non_empty (sg_recipient s) \<and> \<not> non_empty (sg_groupId s)
               then (refused ''Signal send requires either recipient or groupId'', g)
               else if non_empty (sg_recipient s) \<and> non_empty (sg_groupId s)
               then (refused ''Signal send must specify exactly one of recipient or groupId, not both'', g)
               else if \<not> sc_connected client
               then ((refused ''Signal RPC client not connected'')\<lparr>os_queueable := True\<rparr>, g)
               else (let g' = happens (EvWire (SignalReq s)) g
                     in case sc_send client account s of
                          Inr mid \<Rightarrow> (sent_as mid, g')
                        | Inl err \<Rightarrow> (send_failed (te_message err) (signal_queueable err), g'))))"

definition dispatchSlack :: "gateway_env \<Rightarrow> slack_request \<Rightarrow> gateway \<Rightarrow> send_result \<times> gateway" where
  "dispatchSlack env s g =
     (case ge_slack env of
        None \<Rightarrow> (refused ''Slack client not configured'', g)
      | Some client \<Rightarrow>
          if js_trim (sl_channelId s) = [] then (refused ''Slack send requires slackChannelId'', g)
          else if \<not> kc_connected client
          then ((refused ''Slack Socket Mode not connected'')\<lparr>os_queueable := True\<rparr>, g)
          else (let g' = happens (EvWire (SlackReq s)) g
                in case kc_post client s (ge_mrkdwn env (sl_message s)) of
                     Inr ts \<Rightarrow> (sent_as ts, g')
                   | Inl code \<Rightarrow> (send_failed code (slack_queueable code), g')))"

definition dispatchSms :: "gateway_env \<Rightarrow> sms_request \<Rightarrow> gateway \<Rightarrow> send_result \<times> gateway" where
  "dispatchSms env s g =
     (case ge_sms env of
        None \<Rightarrow> (refused ''SMS client not configured'', g)
      | Some transport \<Rightarrow>
          if js_trim (sm_recipient s) = [] then (refused ''SMS send requires recipient'', g)
          else (let g' = happens (EvWire (SmsReq s)) g
                in case transport s of
                     Inr mid \<Rightarrow> (sent_as mid, g')
                   | Inl OptedOut \<Rightarrow> (refused ''recipient opted out at carrier (STOP)'', g')
                   | Inl (SmsFailed err) \<Rightarrow> (send_failed (te_message err) (sms_queueable err), g')))"

definition deliver_web :: "gateway_env \<Rightarrow> string \<Rightarrow> gateway \<Rightarrow> send_result \<times> gateway" where
  "deliver_web env message g =
     (case ge_web env of
        None \<Rightarrow>
          (let detail = ''The phone app is not available on this Curia.''
           in ((refused detail)\<lparr>os_webDelivery := Some WebUnconfigured, os_webDeliveryDetail := Some detail\<rparr>, g))
      | Some push \<Rightarrow>
          (let g' = happens (EvWire (WebReq message)) g
           in case push message of
                (outcome, Some detail) \<Rightarrow>
                  ((refused detail)\<lparr>os_webDelivery := Some outcome, os_webDeliveryDetail := Some detail\<rparr>, g')
              | (outcome, None) \<Rightarrow> (succeeded\<lparr>os_webDelivery := Some outcome\<rparr>, g')))"

fun dispatch :: "gateway_env \<Rightarrow> send_request \<Rightarrow> gateway \<Rightarrow> send_result \<times> gateway" where
  "dispatch env (EmailReq e) g = dispatchEmail env e g"
| "dispatch env (SignalReq s) g = dispatchSignal env s g"
| "dispatch env (SlackReq s) g = dispatchSlack env s g"
| "dispatch env (SmsReq s) g = dispatchSms env s g"
| "dispatch env (WebReq m) g = deliver_web env m g"

section \<open>The queue\<close>

fun recipientLabel :: "send_request \<Rightarrow> string" where
  "recipientLabel (SignalReq s) =
     js_or (case truthy_text (sg_groupId s) of Some i \<Rightarrow> ''group:'' @ i | None \<Rightarrow> ''unknown'') (sg_recipient s)"
| "recipientLabel (EmailReq e) = em_to e"
| "recipientLabel (SlackReq s) = sl_channelId s"
| "recipientLabel (SmsReq s) = sm_recipient s"
| "recipientLabel (WebReq m) = ''principal''"

definition deleteExpired :: "string \<Rightarrow> ms \<Rightarrow> queue_row list \<Rightarrow> queue_row list" where
  "deleteExpired channel now rows = filter (\<lambda>r. \<not> (qr_channel r = channel \<and> qr_expiresAt r < now)) rows"

definition countPending :: "string \<Rightarrow> ms \<Rightarrow> queue_row list \<Rightarrow> nat" where
  "countPending channel now rows = length (filter (\<lambda>r. qr_channel r = channel \<and> now \<le> qr_expiresAt r) rows)"

datatype queue_error = QueueFull string | QueueFailed

text \<open>The transaction of an enqueue: on an error nothing of it is kept.\<close>

definition enqueue :: "nat \<times> ms \<Rightarrow> bool \<Rightarrow> ms \<Rightarrow> string \<Rightarrow> send_request \<Rightarrow> queue_row list \<Rightarrow> queue_error + queue_row list" where
  "enqueue cfg down now i req rows =
     (if down then Inl QueueFailed
      else (let channel = request_channel req;
                pruned = deleteExpired channel now rows
            in if fst cfg \<le> countPending channel now pruned
               then Inl (QueueFull (''Outbound queue for channel '' @ apos @ channel @ apos @ '' is full (max ''
                      @ nat_text (fst cfg) @ ''); message not queued''))
               else Inr (pruned @ [\<lparr>qr_id = i, qr_channel = channel, qr_recipient = recipientLabel req, qr_payload = req,
                                    qr_enqueuedAt = now, qr_expiresAt = now + snd cfg\<rparr>])))"

definition listPending :: "string \<Rightarrow> ms \<Rightarrow> queue_row list \<Rightarrow> queue_row list \<times> queue_row list" where
  "listPending channel now rows =
     (let kept = deleteExpired channel now rows
      in (sort_key qr_enqueuedAt (filter (\<lambda>r. qr_channel r = channel \<and> now \<le> qr_expiresAt r) kept), kept))"

definition deleteByIds :: "string list \<Rightarrow> queue_row list \<Rightarrow> queue_row list" where
  "deleteByIds ids rows = filter (\<lambda>r. qr_id r \<notin> set ids) rows"

definition isQueueableChannel :: "gateway_env \<Rightarrow> string \<Rightarrow> bool" where
  "isQueueableChannel env channel \<longleftrightarrow> ge_queue env \<noteq> None \<and> map_of (ge_readiness env) channel \<noteq> None"

definition isChannelOutboundReady :: "gateway_env \<Rightarrow> string \<Rightarrow> bool" where
  "isChannelOutboundReady env channel = (case map_of (ge_readiness env) channel of None \<Rightarrow> True | Some r \<Rightarrow> r)"

definition scheduleFlushRetry :: "string \<Rightarrow> gateway \<Rightarrow> gateway" where
  "scheduleFlushRetry channel g = (if channel \<in> set (gw_retry g) then g else g\<lparr>gw_retry := gw_retry g @ [channel]\<rparr>)"

definition enqueueInsteadOfDrop :: "gateway_env \<Rightarrow> send_request \<Rightarrow> gateway \<Rightarrow> send_result \<times> gateway" where
  "enqueueInsteadOfDrop env req g0 =
     (case ge_queue env of
        None \<Rightarrow> (refused ''Outbound queue not configured'', g0)
      | Some cfg \<Rightarrow>
          (let (i, g) = fresh_id env g0
           in case enqueue cfg (ge_queueDown env) (ge_now env) i req (gw_queue g) of
                Inr rows \<Rightarrow> ((sent_as i)\<lparr>os_queued := True\<rparr>, g\<lparr>gw_queue := rows\<rparr>)
              | Inl (QueueFull message) \<Rightarrow> (refused message, g)
              | Inl QueueFailed \<Rightarrow> (refused ''Failed to queue message while channel disconnected'', g)))"

definition dispatchOrEnqueue :: "gateway_env \<Rightarrow> send_request \<Rightarrow> gateway \<Rightarrow> send_result \<times> gateway" where
  "dispatchOrEnqueue env req g =
     (let channel = request_channel req
      in if isQueueableChannel env channel \<and> \<not> isChannelOutboundReady env channel
         then enqueueInsteadOfDrop env req g
         else (case dispatch env req g of
                 (r, g1) \<Rightarrow>
                   if \<not> os_success r \<and> os_queueable r \<and> isQueueableChannel env channel
                   then (case enqueueInsteadOfDrop env req g1 of
                           (q, g2) \<Rightarrow>
                             (q, if os_queued q \<and> isChannelOutboundReady env channel
                                 then scheduleFlushRetry channel g2 else g2))
                   else (r, g1)))"

section \<open>After a delivery\<close>

definition message_sent :: "gateway_env \<Rightarrow> string \<Rightarrow> gateway \<Rightarrow> gateway" where
  "message_sent env contactId g = (if ge_confidence env then gw_publish env (EvContact (MessageSent contactId)) g else g)"

definition clears_duplicates :: "gateway_env \<Rightarrow> string \<Rightarrow> string option \<Rightarrow> string option \<Rightarrow> bool" where
  "clears_duplicates env address name exclude = (ge_duplicates env address name exclude = Inr False)"

definition verifyExistingReplyRecipient :: "gateway_env \<Rightarrow> string \<Rightarrow> string \<Rightarrow> string \<Rightarrow> string option \<Rightarrow> gateway \<Rightarrow> gateway" where
  "verifyExistingReplyRecipient env contactId channel address name g =
     (if channel \<noteq> ''email'' then g
      else (case ge_identities env contactId of
              Inl _ \<Rightarrow> g
            | Inr rows \<Rightarrow>
                (case find (\<lambda>r. ci_channel r = channel \<and> js_lower (ci_identifier r) = js_lower address
                              \<and> ci_source r = ''outbound_recipient'' \<and> ci_active r \<and> \<not> ci_verified r) rows of
                   None \<Rightarrow> g
                 | Some row \<Rightarrow>
                     if \<not> clears_duplicates env address name (Some contactId) then g
                     else gw_publish env (EvContact (VerifyIdentity (ci_id row))) g)))"

text \<open>The contact that \<open>createContact\<close> makes has a generated id.\<close>

definition promoteOrCreateRecipientContact :: "gateway_env \<Rightarrow> string \<Rightarrow> string \<Rightarrow> recipient_source option
    \<Rightarrow> string option \<Rightarrow> gateway \<Rightarrow> gateway" where
  "promoteOrCreateRecipientContact env channel address source fromName g0 =
     (let name = truthy_text (map_option js_trim fromName);
          wanted = js_or OutboundRecipient source
      in case ge_resolve env channel address of
           Inl _ \<Rightarrow> g0
         | Inr None \<Rightarrow>
             (let src = (if wanted = EmailParticipant \<and> \<not> clears_duplicates env address name None
                         then OutboundRecipient else wanted);
                  create = EvContact (CreateContact address src)
              in if \<not> ge_accepts env create then g0
                 else (let (cid, g1) = fresh_id env (happens create g0);
                           link = EvContact (LinkIdentity cid channel address src)
                       in if \<not> ge_accepts env link then g1 else message_sent env cid (happens link g1)))
         | Inr (Some c) \<Rightarrow>
             if rc_tier c = TBlocked then g0
             else (let g1 = (if wanted = EmailParticipant
                             then verifyExistingReplyRecipient env (rc_contactId c) channel address name g0 else g0);
                       g2 = (if rc_tier c = TUnknown then gw_publish env (EvContact (ElevateTier (rc_contactId c))) g1 else g1)
                   in message_sent env (rc_contactId c) g2))"

definition FIRST_CONTACT_WINDOW_MS :: ms where
  "FIRST_CONTACT_WINDOW_MS = 24 * 60 * 60 * 1000"

definition isFirstContact :: "gateway_env \<Rightarrow> bool \<Rightarrow> string option \<Rightarrow> bool \<Rightarrow> bool" where
  "isFirstContact env person contactId lookupFailed =
     (if \<not> person \<or> lookupFailed then False
      else (case contactId of
              None \<Rightarrow> True
            | Some cid \<Rightarrow>
                (case ge_contact env cid of
                   Inl _ \<Rightarrow> False
                 | Inr None \<Rightarrow> True
                 | Inr (Some c) \<Rightarrow> ge_now env - cd_createdAt c < FIRST_CONTACT_WINDOW_MS)))"

definition truncatePreview :: "string \<Rightarrow> string" where
  "truncatePreview content =
     (let line = (case find (\<lambda>l. js_trim l \<noteq> []) (split_on (CHR 0x0A) content) of None \<Rightarrow> [] | Some l \<Rightarrow> js_trim l)
      in if 80 < length line then take 77 line @ ''...'' else line)"

definition SENT_VERB :: "string \<Rightarrow> string" where
  "SENT_VERB channel =
     (if channel = ''email'' then ''Emailed''
      else if channel = ''signal'' then ''Sent a Signal message to''
      else if channel = ''sms'' then ''Texted''
      else if channel = ''slack'' then ''Sent a Slack message to''
      else ''Sent a phone message to'')"

section \<open>Flushing\<close>

fun email_provenance :: "send_request \<Rightarrow> recipient_source option \<times> string option" where
  "email_provenance (EmailReq e) =
     (if em_recipientSource e \<noteq> Some EmailParticipant then (None, None)
      else (Some EmailParticipant, truthy_text (map_option js_trim (em_recipientDisplayName e))))"
| "email_provenance _ = (None, None)"

definition promote_flushed :: "gateway_env \<Rightarrow> send_request \<Rightarrow> gateway \<Rightarrow> gateway" where
  "promote_flushed env req g =
     (case req of
        SignalReq s \<Rightarrow>
          (case truthy_text (sg_recipient s) of
             None \<Rightarrow> g | Some r \<Rightarrow> promoteOrCreateRecipientContact env ''signal'' r None None g)
      | SmsReq s \<Rightarrow> promoteOrCreateRecipientContact env ''sms'' (sm_recipient s) None None g
      | EmailReq e \<Rightarrow>
          if em_toFromOwnMessage e then g
          else (case email_provenance req of
                  (src, name) \<Rightarrow> promoteOrCreateRecipientContact env ''email'' (em_to e) src name g)
      | _ \<Rightarrow> g)"

definition flushed_event :: "gateway_env \<Rightarrow> queue_row \<Rightarrow> send_result \<Rightarrow> delivered_event" where
  "flushed_event env row r =
     \<lparr>dl_channel = request_channel (qr_payload row), dl_recipientId = qr_recipient row, dl_recipientContactId = None,
      dl_content = redactedCopy env (request_body (qr_payload row)) (request_channel (qr_payload row)) (qr_recipient row),
      dl_conversationId = None, dl_taskEventId = None, dl_messageId = os_messageId r,
      dl_threadId = truthy_text (os_threadId r), dl_parent = None, dl_disclosed = [], dl_exportAudit = None\<rparr>"

text \<open>A web request is never queued; if one were, the flush would not know its channel.\<close>

definition dispatch_flushed :: "gateway_env \<Rightarrow> queue_row \<Rightarrow> gateway \<Rightarrow> send_result \<times> gateway" where
  "dispatch_flushed env row g =
     (case qr_payload row of
        WebReq _ \<Rightarrow> (refused (''Unknown channel in queue: '' @ qr_channel row), g)
      | req \<Rightarrow> dispatch env req g)"

fun flush_rows :: "gateway_env \<Rightarrow> string \<Rightarrow> queue_row list \<Rightarrow> gateway \<Rightarrow> nat \<times> gateway" where
  "flush_rows env channel [] g = (0, g)"
| "flush_rows env channel (row # rows) g0 =
     (case dispatch_flushed env row g0 of
        (r, g1) \<Rightarrow>
          if \<not> os_success r
          then (0, if os_queueable r then scheduleFlushRetry channel g1 else g1)
          else (let g2 = g1\<lparr>gw_queue := deleteByIds [qr_id row] (gw_queue g1)\<rparr>;
                    g3 = promote_flushed env (qr_payload row) g2;
                    g4 = gw_publish env (EvDelivered (flushed_event env row r)) g3;
                    (n, g5) = flush_rows env channel rows g4
                in (n + 1, g5)))"

definition flushChannel :: "gateway_env \<Rightarrow> string \<Rightarrow> gateway \<Rightarrow> (nat \<times> bool) \<times> gateway" where
  "flushChannel env channel g =
     (if ge_queue env = None then ((0, True), g)
      else if \<not> isChannelOutboundReady env channel then ((0, True), g)
      else (case listPending channel (ge_now env) (gw_queue g) of
              (pending, kept) \<Rightarrow>
                (case flush_rows env channel pending (g\<lparr>gw_queue := kept\<rparr>) of
                   (n, g') \<Rightarrow> ((n, False), g'))))"

text \<open>The timer of a scheduled flush fires.\<close>

definition fireRetry :: "gateway_env \<Rightarrow> string \<Rightarrow> gateway \<Rightarrow> (nat \<times> bool) \<times> gateway" where
  "fireRetry env channel g = flushChannel env channel (g\<lparr>gw_retry := removeAll channel (gw_retry g)\<rparr>)"

end
