(* ===== verification/GatewaySend.thy ===== *)
theory GatewaySend
  imports GatewayReview GatewayWire
begin

text \<open>
  \<open>send()\<close> as a whole: the relay budget, the band review, the delivery on a channel, and the order of
  all gates.

  \<open>send()\<close> calls itself for two notices to the principal. The inner call is the argument \<open>notify\<close> of
  \<open>send_with\<close>; \<open>send\<close> passes \<open>system_send\<close>, whose own inner call does nothing. That is the whole
  recursion: a system notification asks for no further notice (\<open>system_send_ignores_notify\<close>).
\<close>

type_synonym notifier = "send_request \<Rightarrow> gateway_options \<Rightarrow> gateway \<Rightarrow> send_result \<times> gateway"

definition system_options :: "string option \<Rightarrow> string option \<Rightarrow> gateway_options" where
  "system_options taskEventId conversationId =
     no_options\<lparr>so_isSystemNotification := True, go_skipNotificationOnBlock := True,
                go_taskEventId := truthy_text taskEventId, go_conversationId := truthy_text conversationId\<rparr>"

section \<open>The relay budget\<close>

definition originatorName :: "gateway_env \<Rightarrow> string \<Rightarrow> string option" where
  "originatorName env contactId =
     (if \<not> uuid_shape contactId then truthy_text (Some (js_trim contactId))
      else (case ge_contact env contactId of
              Inl _ \<Rightarrow> None
            | Inr c \<Rightarrow> truthy_text (map_option (\<lambda>c. js_trim (cd_displayName c)) c)))"

definition plain_email :: "string \<Rightarrow> string option \<Rightarrow> string \<Rightarrow> string option \<Rightarrow> email_request" where
  "plain_email address subject body accountId =
     \<lparr>em_accountId = accountId, em_to = address, em_additionalTo = [], em_subject = subject, em_body = body, em_cc = [],
      em_replyToMessageId = None, em_htmlQuote = None, em_quoteParticipants = [], em_attachments = [],
      em_recipientSource = None, em_recipientDisplayName = None, em_toFromOwnMessage = False, em_signature = None\<rparr>"

fun relayNoticeRequest :: "send_request \<Rightarrow> string \<Rightarrow> string \<Rightarrow> send_request" where
  "relayNoticeRequest (EmailReq e) content subject =
     EmailReq (plain_email (em_to e) (Some subject) content (truthy_text (em_accountId e)))"
| "relayNoticeRequest (SlackReq s) content subject =
     SlackReq \<lparr>sl_channelId = sl_channelId s, sl_threadTs = None, sl_message = content, sl_userId = truthy_text (sl_userId s)\<rparr>"
| "relayNoticeRequest (SmsReq s) content subject = SmsReq \<lparr>sm_recipient = sm_recipient s, sm_message = content\<rparr>"
| "relayNoticeRequest (WebReq m) content subject = WebReq content"
| "relayNoticeRequest (SignalReq s) content subject =
     SignalReq \<lparr>sg_recipient = truthy_text (sg_recipient s), sg_groupId = None, sg_message = content\<rparr>"

definition sendRelayNotice :: "notifier \<Rightarrow> send_request \<Rightarrow> string \<Rightarrow> gateway_options \<Rightarrow> gateway \<Rightarrow> bool \<times> gateway" where
  "sendRelayNotice notify req name opts g =
     (case notify (relayNoticeRequest req
              (name @ '' has more updates. I'' @ apos @ ''m holding them for your digest, or ask me for them anytime.'')
              (''Holding updates from '' @ name))
            (system_options (go_taskEventId opts) (go_conversationId opts)) g of
        (r, g') \<Rightarrow> (os_success r, g'))"

definition relay_summary :: "send_request \<Rightarrow> string option \<Rightarrow> string \<Rightarrow> string option \<Rightarrow> string" where
  "relay_summary req name body subject =
     js_join newline
       ([''Held for your digest (relay limit reached for '' @ js_or ''a contact'' name @ ''):'']
        @ (case req of EmailReq _ \<Rightarrow> map (\<lambda>s. ''Subject: '' @ s) (truthy_list subject) | _ \<Rightarrow> [])
        @ [body])"

definition relay_report :: "gateway_env \<Rightarrow> send_request \<Rightarrow> task_originator \<Rightarrow> content_step \<Rightarrow> gateway_options \<Rightarrow> report_event" where
  "relay_report env req orig c opts =
     \<lparr>rp_summary = relay_summary req (originatorName env (o_contactId orig)) (cs_redactedBody c) (cs_redactedSubject c),
      rp_source = FromRelay, rp_conversationId = truthy_text (go_conversationId opts), rp_actionShortRef = None,
      rp_parent = report_parent opts\<rparr>"

definition deferRelay :: "notifier \<Rightarrow> gateway_env \<Rightarrow> send_request \<Rightarrow> task_originator \<Rightarrow> content_step \<Rightarrow> gateway_options
    \<Rightarrow> gateway \<Rightarrow> send_result option \<times> gateway" where
  "deferRelay notify env req orig c opts g0 =
     (let report = EvReport (relay_report env req orig c opts);
          cid = o_contactId orig
      in if \<not> ge_accepts env report then (None, g0)
         else
           (let g1 = happens report g0;
                (noticeSent, g2) =
                  (if (case gw_relay g1 of None \<Rightarrow> False | Some rb \<Rightarrow> noticeDue rb cid (ge_now env))
                   then sendRelayNotice notify req (js_or ''A contact'' (originatorName env cid)) opts g1
                   else (False, g1));
                g3 = (if noticeSent then g2\<lparr>gw_relay := map_option (\<lambda>rb. markNotified rb cid (ge_now env)) (gw_relay g2)\<rparr>
                      else g2);
                g4 = gw_publish env (EvRelayDeferred \<lparr>df_originator = cid, df_tier = js_or TUnknown (o_tier orig),
                       df_channel = request_channel req, df_conversationId = truthy_text (go_conversationId opts),
                       df_taskEventId = truthy_text (go_taskEventId opts), df_noticeSent = noticeSent\<rparr>) g3
            in (Some (succeeded\<lparr>os_deferredToDigest := True\<rparr>), g4)))"

definition carries_attachments :: "send_request \<Rightarrow> bool" where
  "carries_attachments req = (case req of EmailReq e \<Rightarrow> em_attachments e \<noteq> [] | _ \<Rightarrow> False)"

definition relay_originator :: "gateway_env \<Rightarrow> send_request \<Rightarrow> gateway_options \<Rightarrow> gateway \<Rightarrow> task_originator option" where
  "relay_originator env req opts g =
     (if rs_principalIsSole (buildFilterRecipients env req) \<and> gw_relay g \<noteq> None \<and> \<not> carries_attachments req
      then budgetedOriginator (Some (send_options.truncate opts)) else None)"

text \<open>The gate answers the originator whose slot the send took.\<close>

definition relay_gate :: "notifier \<Rightarrow> gateway_env \<Rightarrow> send_request \<Rightarrow> gateway_options \<Rightarrow> content_step \<Rightarrow> string option gate" where
  "relay_gate notify env req opts c g =
     (case (relay_originator env req opts g, gw_relay g) of
        (Some orig, Some rb) \<Rightarrow>
          (case rb_tryAcquire rb (o_contactId orig) (ge_now env) of
             (Allowed, rb') \<Rightarrow> (Inr (Some (o_contactId orig)), g\<lparr>gw_relay := Some rb'\<rparr>)
           | (Over, rb') \<Rightarrow>
               (case deferRelay notify env req orig c opts (g\<lparr>gw_relay := Some rb'\<rparr>) of
                  (Some r, g') \<Rightarrow> (Inl r, g')
                | (None, g') \<Rightarrow> (Inr None, g')))
      | _ \<Rightarrow> (Inr None, g))"

section \<open>The band review\<close>

definition review_args_of :: "gateway_env \<Rightarrow> send_request \<Rightarrow> primary_recipient \<Rightarrow> content_step \<Rightarrow> review_args" where
  "review_args_of env req primary c =
     (let rs = rs_recipients (buildFilterRecipients env req);
          people = map js_lower (personRecipients req);
          reviewed = filter (\<lambda>i. js_lower i \<in> set people) (map fr_email rs)
      in \<lparr>va_request = req, va_content = cs_sendBody c, va_auditContent = cs_redactedBody c,
          va_recipients = (if reviewed \<noteq> [] \<or> people \<noteq> [] then reviewed else [recipient_id req]),
          va_principalRecipients = map fr_email (filter fr_isPrincipal rs),
          va_items = cs_items c, va_tier = Some (pr_tier primary), va_tiers = Some (kr_tiers (pr_known primary)),
          va_contactIds = kr_contactIds (pr_known primary),
          va_requester = map_option (\<lambda>n. (recipient_id req, n)) (truthy_text (pr_name primary)),
          va_subject = cs_sendSubject c, va_editable = True\<rparr>)"

definition no_review :: review_outcome where
  "no_review = \<lparr>vo_report = None, vo_signals = None, vo_dropQuote = None\<rparr>"

definition review_gate :: "gateway_env \<Rightarrow> send_request \<Rightarrow> gateway_options \<Rightarrow> primary_recipient \<Rightarrow> content_step
    \<Rightarrow> review_outcome gate" where
  "review_gate env req opts primary c g =
     (if band_review_runs env req opts then runBandReview env opts (review_args_of env req primary c) g
      else (Inr no_review, g))"

section \<open>All gates\<close>

text \<open>What a send that passed every gate carries on.\<close>

record cleared =
  cl_primary :: primary_recipient
  cl_exports :: "export_item list"
  cl_content :: content_step
  cl_slot :: "string option"
  cl_review :: review_outcome

definition pass_gates :: "notifier \<Rightarrow> gateway_env \<Rightarrow> send_request \<Rightarrow> gateway_options \<Rightarrow> cleared gate" where
  "pass_gates notify env req opts =
     gate_then (autonomy_gate env req opts) (\<lambda>_.
     gate_then (no_reply_gate env req opts) (\<lambda>_.
     gate_then (blocked_gate env req) (\<lambda>primary.
     gate_then (identity_gate env req opts) (\<lambda>_.
     gate_then (export_gate env req opts) (\<lambda>exports.
     gate_then (pii_step env req opts) (\<lambda>c.
     gate_then (filter_gate env req opts primary c) (\<lambda>_.
     gate_then (relay_gate notify env req opts c) (\<lambda>slot.
     gate_then (review_gate env req opts primary c) (\<lambda>v g.
       (Inr \<lparr>cl_primary = primary, cl_exports = exports, cl_content = c, cl_slot = slot, cl_review = v\<rparr>, g))))))))))"

section \<open>Delivery\<close>

definition isPrincipalMailbox :: "gateway_env \<Rightarrow> string option \<Rightarrow> bool" where
  "isPrincipalMailbox env accountId =
     (case js_coalesce (truthy_text accountId) (case ge_nylas env of [] \<Rightarrow> None | (n, _) # _ \<Rightarrow> Some n) of
        None \<Rightarrow> False
      | Some name \<Rightarrow>
          (case map_of (ge_accounts env) name of
             None \<Rightarrow> False
           | Some address \<Rightarrow> isPrincipalIdentity ''email'' (Some address) (ge_principals env)))"

definition signEmail :: "gateway_env \<Rightarrow> bool \<Rightarrow> email_request \<Rightarrow> email_request" where
  "signEmail env isSystem e0 =
     (let e = e0\<lparr>em_signature := None\<rparr>
      in if isSystem then e
         else if isPrincipalMailbox env (em_accountId e) then e
         else (case truthy_text (ge_signature env) of
                 None \<Rightarrow> e
               | Some sig \<Rightarrow>
                   if ge_persona env = None then e
                   else (let body = ge_stripSignOff env (em_body e)
                         in if ge_endsWithSignature env body then e\<lparr>em_body := body\<rparr>
                            else e\<lparr>em_body := body, em_signature := Some sig\<rparr>)))"

definition drop_quote :: "cleared \<Rightarrow> bool" where
  "drop_quote cl \<longleftrightarrow> vo_dropQuote (cl_review cl) \<noteq> None \<or> cs_dropIntactQuote (cl_content cl)"

definition email_to_send :: "gateway_env \<Rightarrow> email_request \<Rightarrow> gateway_options \<Rightarrow> cleared \<Rightarrow> email_request" where
  "email_to_send env e opts cl =
     (let c = cl_content cl;
          e1 = e\<lparr>em_body := cs_sendBody c, em_subject := cs_sendSubject c, em_recipientSource := None,
                 em_recipientDisplayName := None\<rparr>;
          e2 = (if drop_quote cl then e1\<lparr>em_htmlQuote := None, em_quoteParticipants := []\<rparr> else e1);
          e3 = signEmail env (so_isSystemNotification opts) e2
      in if go_recipientSource opts = Some EmailParticipant
         then e3\<lparr>em_recipientSource := Some EmailParticipant,
                 em_recipientDisplayName := truthy_text (map_option js_trim (go_recipientDisplayName opts))\<rparr>
         else e3)"

fun to_send :: "gateway_env \<Rightarrow> send_request \<Rightarrow> gateway_options \<Rightarrow> cleared \<Rightarrow> send_request" where
  "to_send env (EmailReq e) opts cl = EmailReq (email_to_send env e opts cl)"
| "to_send env (SignalReq s) opts cl = SignalReq (s\<lparr>sg_message := cs_sendBody (cl_content cl)\<rparr>)"
| "to_send env (SlackReq s) opts cl = SlackReq (s\<lparr>sl_message := cs_sendBody (cl_content cl)\<rparr>)"
| "to_send env (SmsReq s) opts cl = SmsReq (s\<lparr>sm_message := cs_sendBody (cl_content cl)\<rparr>)"
| "to_send env (WebReq m) opts cl = WebReq (cs_sendBody (cl_content cl))"

text \<open>The phone app is never queued.\<close>

definition put_on_wire :: "gateway_env \<Rightarrow> send_request \<Rightarrow> gateway \<Rightarrow> send_result \<times> gateway" where
  "put_on_wire env sent g = (case sent of WebReq m \<Rightarrow> deliver_web env m g | _ \<Rightarrow> dispatchOrEnqueue env sent g)"

definition raw_on_wire :: "gateway_env \<Rightarrow> send_request \<Rightarrow> gateway_options \<Rightarrow> cleared \<Rightarrow> bool" where
  "raw_on_wire env req opts cl \<longleftrightarrow> band_review_runs env req opts \<and> cs_items (cl_content cl) \<noteq> []"

definition disclosed_items :: "gateway_env \<Rightarrow> send_request \<Rightarrow> gateway_options \<Rightarrow> cleared \<Rightarrow> (string \<times> item_field) list" where
  "disclosed_items env req opts cl =
     (if raw_on_wire env req opts cl
      then map (\<lambda>i. (di_label i, di_field i))
             (filter (\<lambda>i. \<not> (vo_dropQuote (cl_review cl) \<noteq> None \<and> di_field i = FieldQuote)) (cs_items (cl_content cl)))
      else [])"

text \<open>Only a redacted copy goes into the delivery event when the wire may be raw.\<close>

definition delivered_content :: "gateway_env \<Rightarrow> send_request \<Rightarrow> gateway_options \<Rightarrow> cleared \<Rightarrow> send_request \<Rightarrow> string" where
  "delivered_content env req opts cl sent =
     (case req of
        EmailReq _ \<Rightarrow>
          if raw_on_wire env req opts cl \<or> send_intact env opts
          then redactedCopy env (request_body sent) ''email'' (recipient_id req)
          else request_body sent
      | _ \<Rightarrow> cs_redactedBody (cl_content cl))"

definition delivery_of :: "gateway_env \<Rightarrow> send_request \<Rightarrow> gateway_options \<Rightarrow> cleared \<Rightarrow> send_request \<Rightarrow> send_result
    \<Rightarrow> delivered_event" where
  "delivery_of env req opts cl sent r =
     \<lparr>dl_channel = request_channel req, dl_recipientId = recipient_id req,
      dl_recipientContactId = pr_contactId (cl_primary cl), dl_content = delivered_content env req opts cl sent,
      dl_conversationId = go_conversationId opts, dl_taskEventId = go_taskEventId opts, dl_messageId = os_messageId r,
      dl_threadId = (case req of EmailReq _ \<Rightarrow> truthy_text (os_threadId r) | _ \<Rightarrow> None), dl_parent = go_parentEventId opts,
      dl_disclosed = disclosed_items env req opts cl,
      dl_exportAudit =
        (case req of
           EmailReq e \<Rightarrow>
             if cl_exports cl = [] then None
             else Some (em_to e, cl_exports cl, map_option xc_toolName (go_exportContext opts),
                        Option.bind (go_exportContext opts) xc_agentId)
         | _ \<Rightarrow> None)\<rparr>"

definition promote_sent :: "gateway_env \<Rightarrow> send_request \<Rightarrow> send_request \<Rightarrow> gateway \<Rightarrow> gateway" where
  "promote_sent env req sent g =
     (case (req, sent) of
        (EmailReq _, EmailReq e) \<Rightarrow>
          if em_toFromOwnMessage e then g
          else promoteOrCreateRecipientContact env ''email'' (recipient_id req) (em_recipientSource e) (em_recipientDisplayName e) g
      | (SmsReq s, _) \<Rightarrow> promoteOrCreateRecipientContact env ''sms'' (sm_recipient s) None None g
      | (SignalReq s, _) \<Rightarrow>
          (case truthy_text (sg_recipient s) of
             None \<Rightarrow> g | Some r \<Rightarrow> promoteOrCreateRecipientContact env ''signal'' r None None g)
      | _ \<Rightarrow> g)"

definition is_sampled :: "gateway_env \<Rightarrow> send_request \<Rightarrow> gateway_options \<Rightarrow> bool" where
  "is_sampled env req opts \<longleftrightarrow>
     \<not> so_isSystemNotification opts \<and> \<not> so_humanApproved opts \<and> \<not> so_principalDirected opts
     \<and> \<not> rs_principalIsSole (buildFilterRecipients env req)"

definition sample_preview :: "gateway_env \<Rightarrow> send_request \<Rightarrow> gateway_options \<Rightarrow> cleared \<Rightarrow> send_request \<Rightarrow> string" where
  "sample_preview env req opts cl sent =
     (let c = cl_content cl
      in case req of
           EmailReq _ \<Rightarrow>
             if raw_on_wire env req opts cl \<or> send_intact env opts
             then js_or (cs_redactedBody c) (truthy_text (cs_redactedSubject c))
             else js_or (request_body sent) (truthy_text (request_subject sent))
         | _ \<Rightarrow> cs_redactedBody c)"

definition sample_of :: "gateway_env \<Rightarrow> send_request \<Rightarrow> gateway_options \<Rightarrow> cleared \<Rightarrow> send_request \<Rightarrow> sample_row" where
  "sample_of env req opts cl sent =
     (let rid = recipient_id req;
          people = personRecipients req;
          label = (let l = js_join '', '' people in if l = [] then rid else l);
          person = (rid \<noteq> [] \<and> list_ex (\<lambda>i. js_lower i = js_lower rid) people);
          v = cl_review cl
      in \<lparr>sp_taskId = js_or (js_or ''system'' (go_parentEventId opts)) (go_taskEventId opts),
          sp_conversationId = truthy_text (go_conversationId opts),
          sp_toolName = js_or (request_channel req @ ''-send'') (map_option xc_toolName (go_exportContext opts)),
          sp_summary = SENT_VERB (request_channel req) @ '' '' @ label @ '': '' @ dquote
            @ truncatePreview (sample_preview env req opts cl sent) @ dquote,
          sp_firstContact = isFirstContact env person (pr_contactId (cl_primary cl)) (pr_unresolved (cl_primary cl)),
          sp_speaksAsPrincipal = (case vo_signals v of None \<Rightarrow> False | Some s \<Rightarrow> rs_speaksAsPrincipal s),
          sp_review = (if vo_report v \<noteq> None then Some ''unreviewed''
                       else if (case vo_signals v of None \<Rightarrow> False | Some s \<Rightarrow> rs_bounced s) then Some ''bounced''
                       else None)\<rparr>)"

definition emailPrincipal :: "notifier \<Rightarrow> gateway_env \<Rightarrow> string \<Rightarrow> string \<Rightarrow> gateway \<Rightarrow> gateway" where
  "emailPrincipal notify env subject body g =
     (case find (\<lambda>i. pi_channel i = ''email'' \<and> pi_verified i \<and> pi_active i) (ge_principals env) of
        None \<Rightarrow> g
      | Some i \<Rightarrow>
          if pi_identifier i = [] then g
          else snd (notify (EmailReq (plain_email (pi_identifier i) (Some subject) body None)) (system_options None None) g))"

text \<open>The only report a review makes is that nothing checked the message.\<close>

definition publishBandReport :: "notifier \<Rightarrow> gateway_env \<Rightarrow> string \<Rightarrow> gateway_options \<Rightarrow> gateway \<Rightarrow> gateway" where
  "publishBandReport notify env summary opts g =
     (let e = EvReport \<lparr>rp_summary = summary, rp_source = FromUnreviewed,
                rp_conversationId = truthy_text (go_conversationId opts), rp_actionShortRef = None, rp_parent = report_parent opts\<rparr>
      in if ge_accepts env e then happens e g
         else emailPrincipal notify env ''Curia: a message went out without review'' summary g)"

definition withRedactions :: "send_request \<Rightarrow> cleared \<Rightarrow> send_request \<Rightarrow> send_result \<Rightarrow> send_result" where
  "withRedactions req cl sent r =
     (if \<not> os_success r \<or> cs_applied (cl_content cl) = [] then r
      else r\<lparr>os_redactions := cs_applied (cl_content cl), os_sentContent := Some (request_body sent),
             os_sentSubject := (case req of EmailReq _ \<Rightarrow> request_subject sent | _ \<Rightarrow> os_sentSubject r)\<rparr>)"

definition after_wire :: "notifier \<Rightarrow> gateway_env \<Rightarrow> send_request \<Rightarrow> gateway_options \<Rightarrow> cleared \<Rightarrow> send_request
    \<Rightarrow> send_result \<Rightarrow> gateway \<Rightarrow> gateway" where
  "after_wire notify env req opts cl sent r g0 =
     (let g1 = (if os_success r \<and> \<not> os_queued r
                then (let g = gw_publish env (EvDelivered (delivery_of env req opts cl sent r)) (promote_sent env req sent g0)
                      in if is_sampled env req opts \<and> ge_actionLog env
                         then gw_publish env (EvSample (sample_of env req opts cl sent)) g else g)
                else g0);
          g2 = (case vo_report (cl_review cl) of
                  Some summary \<Rightarrow> if os_success r then publishBandReport notify env summary opts g1 else g1
                | None \<Rightarrow> g1)
      in case truthy_text (cl_slot cl) of
           Some contactId \<Rightarrow>
             if os_success r then g2 else g2\<lparr>gw_relay := map_option (\<lambda>rb. rb_release rb contactId) (gw_relay g2)\<rparr>
         | None \<Rightarrow> g2)"

definition gw_deliver :: "notifier \<Rightarrow> gateway_env \<Rightarrow> send_request \<Rightarrow> gateway_options \<Rightarrow> cleared \<Rightarrow> gateway
    \<Rightarrow> send_result \<times> gateway" where
  "gw_deliver notify env req opts cl g =
     (let sent = to_send env req opts cl
      in case put_on_wire env sent g of
           (r, g1) \<Rightarrow> (withRedactions req cl sent r, after_wire notify env req opts cl sent r g1))"

section \<open>The send\<close>

definition send_with :: "notifier \<Rightarrow> gateway_env \<Rightarrow> send_request \<Rightarrow> gateway_options \<Rightarrow> gateway \<Rightarrow> send_result \<times> gateway" where
  "send_with notify env req opts g =
     (case pass_gates notify env req opts g of
        (Inl r, g') \<Rightarrow> (r, g')
      | (Inr cl, g') \<Rightarrow> gw_deliver notify env req opts cl g')"

definition no_notice :: notifier where
  "no_notice req opts g = (refused [], g)"

definition system_send :: "gateway_env \<Rightarrow> notifier" where
  "system_send env = send_with no_notice env"

definition send :: "gateway_env \<Rightarrow> send_request \<Rightarrow> gateway_options \<Rightarrow> gateway \<Rightarrow> send_result \<times> gateway" where
  "send env = send_with (system_send env) env"

end
