(* ===== verification/GatewayProofs.thy ===== *)
theory GatewayProofs
  imports GatewaySend BandReviewProofs
begin

text \<open>
  What the gates leave on the trace: no gate calls a transport or touches the queue, each gate says
  which condition held when it let a send through, and a notice to the principal asks for no notice.
\<close>

section \<open>Growing traces\<close>

text \<open>
  \<open>adds P g g'\<close>: from \<open>g\<close> to \<open>g'\<close> the trace only grew, by events with property \<open>P\<close>. The contract is the
  shape of every step of the gateway; it is closed under composition.
\<close>

definition adds :: "(gw_event \<Rightarrow> bool) \<Rightarrow> gateway \<Rightarrow> gateway \<Rightarrow> bool" where
  "adds P g g' \<longleftrightarrow> (\<exists>es. gw_trace g' = gw_trace g @ es \<and> list_all P es)"

lemma adds_refl [simp, intro]: "adds P g g"
  by (auto simp: adds_def intro: exI [of _ "[]"])

lemma adds_trans [trans]: "adds P g g' \<Longrightarrow> adds P g' g'' \<Longrightarrow> adds P g g''"
  by (fastforce simp: adds_def)

lemma adds_same_trace: "gw_trace g' = gw_trace g \<Longrightarrow> adds P g g'"
  by (auto simp: adds_def intro: exI [of _ "[]"])

lemma adds_happens: "P e \<Longrightarrow> adds P g (happens e g)"
  by (auto simp: adds_def happens_def)

lemma adds_publish: "P e \<Longrightarrow> adds P g (gw_publish env e g)"
  by (simp add: gw_publish_def adds_happens)

lemma adds_mono: "adds P g g' \<Longrightarrow> (\<And>e. P e \<Longrightarrow> Q e) \<Longrightarrow> adds Q g g'"
  by (auto simp: adds_def list_all_iff)

lemma addsE: "adds P g g' \<Longrightarrow> (\<And>es. gw_trace g' = gw_trace g @ es \<Longrightarrow> list_all P es \<Longrightarrow> thesis) \<Longrightarrow> thesis"
  by (auto simp: adds_def)

text \<open>A step that adds such events and leaves the queue alone.\<close>

definition silent :: "(gw_event \<Rightarrow> bool) \<Rightarrow> gateway \<Rightarrow> gateway \<Rightarrow> bool" where
  "silent P g g' \<longleftrightarrow> adds P g g' \<and> gw_queue g' = gw_queue g \<and> gw_retry g' = gw_retry g"

named_theorems silent_intros

lemma silent_refl [simp, intro, silent_intros]: "silent P g g"
  by (simp add: silent_def)

lemma silent_trans [trans]: "silent P g g' \<Longrightarrow> silent P g' g'' \<Longrightarrow> silent P g g''"
  by (auto simp: silent_def intro: adds_trans)

lemma silent_publish [silent_intros]: "P e \<Longrightarrow> silent P g g' \<Longrightarrow> silent P g (gw_publish env e g')"
  by (auto simp: silent_def gw_publish_def happens_def adds_def)

lemma silent_happens [silent_intros]: "P e \<Longrightarrow> silent P g g' \<Longrightarrow> silent P g (happens e g')"
  by (auto simp: silent_def happens_def adds_def)

lemma silent_fresh [silent_intros]: "silent P g g' \<Longrightarrow> silent P g (snd (fresh_id env g'))"
  by (simp add: silent_def fresh_id_def adds_def)

lemma silent_band [silent_intros]: "silent P g g' \<Longrightarrow> silent P g (g'\<lparr>gw_band := b\<rparr>)"
  by (simp add: silent_def adds_def)

lemma silent_relay [silent_intros]: "silent P g g' \<Longrightarrow> silent P g (g'\<lparr>gw_relay := b\<rparr>)"
  by (simp add: silent_def adds_def)

section \<open>Events of the gates\<close>

text \<open>No transport, no delivery, no spot-check row, no change of a contact.\<close>

fun is_notice :: "gw_event \<Rightarrow> bool" where
  "is_notice (EvWire _) = False"
| "is_notice (EvDelivered _) = False"
| "is_notice (EvSample _) = False"
| "is_notice (EvContact _) = False"
| "is_notice _ = True"

lemma silent_report [silent_intros]: "silent is_notice g g' \<Longrightarrow> silent is_notice g (queueBlockReport env s c p g')"
  by (auto simp: queueBlockReport_def intro: silent_intros)

lemma silent_mention [silent_intros]: "silent is_notice g g' \<Longrightarrow> silent is_notice g (queueApprovalMention env r d t c g')"
  by (auto simp: queueApprovalMention_def intro: silent_intros)

lemma silent_block [silent_intros]: "silent is_notice g g' \<Longrightarrow> silent is_notice g (publish_block env req opts c r fs g')"
  using silent_fresh [of is_notice g g' env]
  by (auto simp: publish_block_def split_beta intro!: silent_intros)

lemma silent_raise [silent_intros]:
  "silent is_notice g g' \<Longrightarrow> silent is_notice g (snd (raiseSendApproval env req recipe t opts ls p da ra g'))"
  using silent_fresh [of is_notice g g' env]
  by (auto simp: raiseSendApproval_def split_beta Let_def intro!: silent_intros)

lemma silent_autonomy: "silent is_notice g (snd (autonomy_gate env req opts g))"
  by (auto simp: autonomy_gate_def Let_def split_beta split: option.splits intro!: silent_intros)

lemma silent_no_reply: "silent is_notice g (snd (no_reply_gate env req opts g))"
  by (auto simp: no_reply_gate_def Let_def split: send_request.splits intro!: silent_intros)

lemma silent_blocked: "snd (blocked_gate env req g) = g"
  by (auto simp: blocked_gate_def Let_def split: option.splits blocked_lookup.splits prod.splits)

lemma silent_identity: "silent is_notice g (snd (identity_gate env req opts g))"
  by (auto simp: identity_gate_def split: option.splits intro!: silent_intros)

lemma silent_export_block: "silent is_notice g (snd (export_block env req opts m items g))"
  using silent_fresh [of is_notice g g env]
  by (auto simp: export_block_def Let_def split_beta split: option.splits bool.splits intro!: silent_intros)

lemma silent_export: "silent is_notice g (snd (export_gate env req opts g))"
  by (auto simp: export_gate_def silent_export_block split: option.splits send_request.splits export_outcome.splits prod.splits)

lemma silent_fold [silent_intros]:
  "(\<And>e. P (f e)) \<Longrightarrow> silent P g g' \<Longrightarrow> silent P g (fold (\<lambda>e. gw_publish env (f e)) es g')"
  by (induction es arbitrary: g') (auto intro!: silent_intros)

lemma silent_redact: "silent is_notice g g' \<Longrightarrow> silent is_notice g (snd (gw_redact env rt c ch ctx g'))"
  by (auto simp: gw_redact_def Let_def split: sum.splits intro!: silent_intros)

lemma silent_tier: "silent is_notice g (snd (tier_content env rt req g))"
proof -
  let ?ctx = "redact_ctx (recipient_id req) (rs_principalIsSole (buildFilterRecipients env req))"
  obtain r1 g1 where 1: "gw_redact env rt (request_body req) (request_channel req) ?ctx g = (r1, g1)" by force
  then have q1: "silent is_notice g g1" using silent_redact [of g g] by (metis silent_refl snd_conv)
  have "silent is_notice g (snd (gw_redact env rt s (request_channel req) ?ctx g1))" for s
    by (rule silent_redact [OF q1])
  then show ?thesis
    using 1 q1 by (auto simp: tier_content_def Let_def split: sum.splits option.splits prod.splits) (metis snd_conv)+
qed

lemma silent_pii: "silent is_notice g (snd (pii_step env req opts g))"
proof -
  have "silent is_notice g (snd (blockForRedactorError env req opts g'))" if "silent is_notice g g'" for g'
    using that by (auto simp: blockForRedactorError_def intro!: silent_intros)
  moreover have "silent is_notice g g'" if "tier_content env rt req g = (x, g')" for rt x g'
    using silent_tier [of g env rt req] that by simp
  ultimately show ?thesis
    by (auto simp: pii_step_def split: option.splits sum.splits prod.splits)
qed

lemma silent_filter: "silent is_notice g (snd (filter_gate env req opts primary c g))"
  using silent_fresh [of is_notice g "snd (fresh_id env g)" env] silent_fresh [of is_notice g g env]
  by (auto simp: filter_gate_def Let_def split_beta split: bool.splits intro!: silent_intros)

section \<open>What each gate checked\<close>

lemma gate_then_Inr:
  "gate_then p k g = (Inr b, g') \<longleftrightarrow> (\<exists>a g1. p g = (Inr a, g1) \<and> k a g1 = (Inr b, g'))"
  by (auto simp: gate_then_def split: prod.splits sum.splits)

lemma gate_then_Inl:
  "gate_then p k g = (Inl r, g') \<longleftrightarrow> p g = (Inl r, g') \<or> (\<exists>a g1. p g = (Inr a, g1) \<and> k a g1 = (Inl r, g'))"
  by (auto simp: gate_then_def split: prod.splits sum.splits)

definition score_clears :: "gateway_env \<Rightarrow> send_request \<Rightarrow> gateway_options \<Rightarrow> bool" where
  "score_clears env req opts \<longleftrightarrow>
     so_humanApproved opts \<or> so_isSystemNotification opts \<or> isPrincipalRecipient env req
     \<or> (case au_config (readAutonomy env) of None \<Rightarrow> True | Some cfg \<Rightarrow> \<not> num_lt (as_score cfg) (Fin 70))"

lemma threshold_value: "sendThreshold = Fin 70"
  by (simp add: sendThreshold_def)

lemma unwired_score: "ge_autonomy env = None \<Longrightarrow> au_config (readAutonomy env) = None"
  by (simp add: readAutonomy_def)

lemma autonomy_passes: "(\<exists>g'. autonomy_gate env req opts g = (Inr u, g')) \<longleftrightarrow> score_clears env req opts"
  by (auto simp: autonomy_gate_def score_clears_def threshold_value unwired_score Let_def split_beta
      split: option.splits)

definition deliverable :: "gateway_env \<Rightarrow> send_request \<Rightarrow> bool" where
  "deliverable env req \<longleftrightarrow>
     (case req of
        EmailReq _ \<Rightarrow>
          (let rs = rs_recipients (buildFilterRecipients env req)
           in rs = [] \<or> (\<exists>r \<in> set rs. classifyEmailSender (fr_email r) \<noteq> AutomatedSender))
      | _ \<Rightarrow> True)"

lemma no_reply_passes: "(\<exists>g'. no_reply_gate env req opts g = (Inr u, g')) \<longleftrightarrow> deliverable env req"
  by (auto simp: no_reply_gate_def deliverable_def Let_def list_all_iff split: send_request.splits)

definition looked_up_blocked :: "gateway_env \<Rightarrow> string \<Rightarrow> string \<Rightarrow> bool" where
  "looked_up_blocked env channel i \<longleftrightarrow> (\<exists>c. ge_resolve env channel i = Inr (Some c) \<and> rc_tier c = TBlocked)"

text \<open>Addresses that differ in case only are looked up once, so the recipient is named up to case.\<close>

definition nobody_blocked :: "gateway_env \<Rightarrow> send_request \<Rightarrow> bool" where
  "nobody_blocked env req \<longleftrightarrow>
     (\<forall>i \<in> set (recipient_id req # personRecipients req). i \<noteq> [] \<longrightarrow>
        (\<exists>j \<in> set (recipient_id req # personRecipients req).
           js_lower j = js_lower i \<and> \<not> looked_up_blocked env (request_channel req) j))"

lemma blocked_loop_none:
  assumes "blocked_loop env channel False seen is kr = (res, kr')" "\<forall>i k. res \<noteq> Some (BlockedRecipient i k)"
  shows "\<forall>i \<in> set is. i = [] \<or> js_lower i \<in> set seen
    \<or> (\<exists>j \<in> set is. js_lower j = js_lower i \<and> \<not> looked_up_blocked env channel j)"
  using assms
proof (induction "is" arbitrary: seen kr)
  case (Cons i "is")
  show ?case
  proof (cases "i = [] \<or> js_lower i \<in> set seen")
    case True
    then have "blocked_loop env channel False seen is kr = (res, kr')" using Cons.prems(1) by simp
    from Cons.IH [OF this Cons.prems(2)] True show ?thesis by auto
  next
    case False
    have b: "\<not> looked_up_blocked env channel i"
      using Cons.prems False by (auto simp: looked_up_blocked_def split: sum.splits option.splits if_splits)
    obtain kr2 where r: "blocked_loop env channel False (js_lower i # seen) is kr2 = (res, kr')"
      using Cons.prems False by (auto split: sum.splits option.splits if_splits)
    from Cons.IH [OF r Cons.prems(2)] b show ?thesis by auto
  qed
qed simp

lemma blocked_passes:
  assumes "blocked_gate env req g = (Inr primary, g')"
  shows "nobody_blocked env req \<and> g' = g"
proof -
  let ?ch = "request_channel req" and ?rid = "recipient_id req"
  let ?others = "filter (\<lambda>i. js_lower i \<noteq> js_lower ?rid) (personRecipients req)"
  let ?p = "resolve_primary env req"
  have p: "\<not> looked_up_blocked env ?ch ?rid"
    using assms by (auto simp: blocked_gate_def Let_def resolve_primary_def looked_up_blocked_def split: if_splits)
  obtain res kr where l: "findBlockedRecipient env ?ch ?others False (pr_known ?p) = (res, kr)" by force
  have "\<forall>i k. res \<noteq> Some (BlockedRecipient i k)" and g: "g' = g"
    using assms l by (auto simp: blocked_gate_def Let_def split: if_splits option.splits blocked_lookup.splits)
  from blocked_loop_none [OF l [unfolded findBlockedRecipient_def] this(1)]
  have "\<forall>i \<in> set ?others. i = [] \<or> (\<exists>j \<in> set ?others. js_lower j = js_lower i \<and> \<not> looked_up_blocked env ?ch j)"
    by simp
  then have others: "\<exists>j \<in> set ?others. js_lower j = js_lower i \<and> \<not> looked_up_blocked env ?ch j"
      if "i \<in> set (personRecipients req)" "i \<noteq> []" "js_lower i \<noteq> js_lower ?rid" for i
    using that by auto
  have "nobody_blocked env req"
    unfolding nobody_blocked_def
  proof (intro ballI impI)
    fix i assume i: "i \<in> set (?rid # personRecipients req)" "i \<noteq> []"
    show "\<exists>j \<in> set (?rid # personRecipients req). js_lower j = js_lower i \<and> \<not> looked_up_blocked env ?ch j"
    proof (cases "js_lower i = js_lower ?rid")
      case True
      with p show ?thesis by (intro bexI [of _ ?rid]) simp_all
    next
      case False
      with i others [of i] show ?thesis by auto
    qed
  qed
  with g show ?thesis by simp
qed

definition names_resolved :: "gateway_env \<Rightarrow> send_request \<Rightarrow> gateway_options \<Rightarrow> bool" where
  "names_resolved env req opts \<longleftrightarrow>
     ge_identityGate env \<noteq> IdentityEnforce \<or> truthy_text (unresolvedIdentityReason env req opts) = None"

lemma identity_passes: "(\<exists>g'. identity_gate env req opts g = (Inr u, g')) \<longleftrightarrow> names_resolved env req opts"
  by (cases "ge_identityGate env") (auto simp: identity_gate_def names_resolved_def split: option.splits)

definition export_clears :: "gateway_env \<Rightarrow> send_request \<Rightarrow> gateway_options \<Rightarrow> export_item list \<Rightarrow> bool" where
  "export_clears env req opts items \<longleftrightarrow>
     (case (ge_exports env, req) of
        (Some (nodes, cfg), EmailReq e) \<Rightarrow>
          em_attachments e \<noteq> [] \<longrightarrow>
            evaluateGatewayAttachments nodes cfg (em_attachments e) (EmailTo (em_to e))
              (case go_exportContext opts of None \<Rightarrow> [] | Some x \<Rightarrow> xc_exportItems x) (so_humanApproved opts)
            = Some (ExportAllow, items)
      | _ \<Rightarrow> True)"

lemma attachments_evaluated: "as \<noteq> [] \<Longrightarrow> evaluateGatewayAttachments nodes cfg as dest xs h \<noteq> None"
  by (auto simp: evaluateGatewayAttachments_def Let_def)

lemma export_passes: "export_gate env req opts g = (Inr items, g') \<Longrightarrow> export_clears env req opts items"
  by (auto simp: export_gate_def export_clears_def export_block_def Let_def split_beta attachments_evaluated
      split: option.splits send_request.splits export_outcome.splits prod.splits if_splits)

lemma filter_passes:
  "filter_gate env req opts primary c g = (Inr u, g') \<Longrightarrow>
    fst (filter_verdict env (filter_input_of env req opts primary (cs_redactedBody c))) \<and> g' = g"
  by (auto simp: filter_gate_def Let_def split_beta split: prod.splits bool.splits)

text \<open>The text that a send may carry, and the copy that the filter saw.\<close>

definition content_of :: "gateway_env \<Rightarrow> send_request \<Rightarrow> gateway_options \<Rightarrow> content_step \<Rightarrow> bool" where
  "content_of env req opts c \<longleftrightarrow>
     (case ge_redactor env of
        None \<Rightarrow> c = as_written req
      | Some rt \<Rightarrow>
          if send_intact env opts then c = intact_content env rt req
          else if band_review_runs env req opts then band_content env rt req = Inr c
          else (\<exists>g g'. tier_content env rt req g = (Inr c, g')))"

lemma pii_passes: "pii_step env req opts g = (Inr c, g') \<Longrightarrow> content_of env req opts c"
  by (auto simp: pii_step_def content_of_def blockForRedactorError_def split: option.splits sum.splits prod.splits if_splits)

section \<open>The review lets through what it decided to send\<close>

lemma adjusted_not_send: "is_send (bounce_to_hold a (block_to_hold opts a d)) \<longleftrightarrow> is_send d"
  by (cases d) (auto simp: block_to_hold_def bounce_to_hold_def)

lemma act_on_Inr: "act_on env opts a d g = (Inr v, g') \<Longrightarrow> is_send d"
  by (cases d)
    (auto simp: act_on_def act_on_bounce_def act_on_block_def act_on_hold_def Let_def split_beta split: option.splits)

lemma review_passes:
  assumes "runBandReview env opts a g = (Inr v, g')"
  shows "is_send (fst (ask_review env opts a g))"
proof -
  obtain d g1 where d: "ask_review env opts a g = (d, g1)" by force
  have "is_send (bounce_to_hold a (block_to_hold opts a d))"
    using assms d
    by (auto simp: runBandReview_def Let_def draft_stranger_def split_beta split: band_decision.splits option.splits
        if_splits dest: act_on_Inr)
  with d show ?thesis by (simp add: adjusted_not_send)
qed

lemma asked_send:
  assumes "is_send (fst (ask_review env opts a g))"
  obtains re where "ge_review env = Some re" "\<not> ge_reviewThrows env (review_input_of env opts a)"
    "is_send (fst (review re (review_input_of env opts a) (gw_band g)))"
  using assms by (auto simp: ask_review_def hold_for_def Let_def split: option.splits if_splits prod.splits)

text \<open>What the review said yes to: the message as it is going to be sent, with the items that were found.\<close>

definition review_clears :: "gateway_env \<Rightarrow> send_request \<Rightarrow> gateway_options \<Rightarrow> primary_recipient \<Rightarrow> content_step \<Rightarrow> bool" where
  "review_clears env req opts primary c \<longleftrightarrow>
     (band_review_runs env req opts \<longrightarrow>
        (\<exists>re st. ge_review env = Some re
           \<and> is_send (fst (review re (review_input_of env opts (review_args_of env req primary c)) st))))"

lemma review_gate_passes: "review_gate env req opts primary c g = (Inr v, g') \<Longrightarrow> review_clears env req opts primary c"
  unfolding review_clears_def review_gate_def
  by (auto split: if_splits dest!: review_passes elim!: asked_send)

section \<open>Everything a send passed\<close>

definition may_leave :: "gateway_env \<Rightarrow> send_request \<Rightarrow> gateway_options \<Rightarrow> cleared \<Rightarrow> bool" where
  "may_leave env req opts cl \<longleftrightarrow>
     score_clears env req opts \<and> deliverable env req \<and> nobody_blocked env req \<and> names_resolved env req opts
     \<and> export_clears env req opts (cl_exports cl)
     \<and> content_of env req opts (cl_content cl)
     \<and> fst (filter_verdict env (filter_input_of env req opts (cl_primary cl) (cs_redactedBody (cl_content cl))))
     \<and> review_clears env req opts (cl_primary cl) (cl_content cl)"

lemma gates_passed:
  assumes "pass_gates notify env req opts g = (Inr cl, g')"
  shows "may_leave env req opts cl"
  using assms unfolding pass_gates_def may_leave_def
  by (auto simp: gate_then_Inr dest!: autonomy_passes [THEN iffD1, OF exI] no_reply_passes [THEN iffD1, OF exI]
      identity_passes [THEN iffD1, OF exI] blocked_passes export_passes pii_passes filter_passes review_gate_passes)

end
