(* ===== verification/GatewaySteps.thy ===== *)
theory GatewaySteps
  imports GatewayProofs
begin

text \<open>
  What a whole send may do to the gateway, proved once: a locale for a relation between states that
  every step of a send keeps, with \<open>send\<close> and its notices inside it. Each property of sends instantiates
  the relation.
\<close>

section \<open>Steps that call no transport\<close>

fun not_wire :: "gw_event \<Rightarrow> bool" where
  "not_wire (EvWire _) = False"
| "not_wire _ = True"

lemma silent_mono: "silent P g g' \<Longrightarrow> (\<And>e. P e \<Longrightarrow> Q e) \<Longrightarrow> silent Q g g'"
  by (auto simp: silent_def intro: adds_mono)

lemma notice_not_wire: "is_notice e \<Longrightarrow> not_wire e"
  by (cases e) simp_all

lemma silent_message_sent: "silent not_wire g g' \<Longrightarrow> silent not_wire g (message_sent env c g')"
  by (auto simp: message_sent_def intro!: silent_intros)

lemma silent_verify: "silent not_wire g g' \<Longrightarrow> silent not_wire g (verifyExistingReplyRecipient env c ch a n g')"
  by (auto simp: verifyExistingReplyRecipient_def split: sum.splits option.splits intro!: silent_intros)

lemma silent_promote: "silent not_wire g (promoteOrCreateRecipientContact env ch a src n g)"
proof -
  have f: "silent not_wire g g2" if "fresh_id env g1 = (i, g2)" "silent not_wire g g1" for g1 g2 i
    using silent_fresh [OF that(2), of env] that(1) by simp
  show ?thesis
    by (auto simp: promoteOrCreateRecipientContact_def Let_def split_beta
        split: sum.splits option.splits intro!: silent_intros silent_message_sent silent_verify)
qed

lemma silent_promote_sent: "silent not_wire g (promote_sent env req sent g)"
  by (auto simp: promote_sent_def silent_promote split: send_request.splits option.splits)

lemma silent_promote_flushed: "silent not_wire g (promote_flushed env req g)"
  by (auto simp: promote_flushed_def silent_promote split: send_request.splits option.splits prod.splits)

lemma silent_review: "silent is_notice g (snd (review_gate env req opts primary c g))"
proof -
  have a: "silent is_notice g (snd (ask_review env opts a g))" for a
    by (auto simp: ask_review_def Let_def split: option.splits prod.splits intro!: silent_intros)
  have b: "silent is_notice g (snd (act_on_bounce env opts a fs st g'))" if "silent is_notice g g'" for a fs st g'
    using silent_fresh [OF that, of env]
    by (auto simp: act_on_bounce_def Let_def split_beta split: option.splits intro!: silent_intros)
  have h: "silent is_notice g (snd (act_on_hold env opts a reason fs ra g'))" if "silent is_notice g g'" for a reason fs ra g'
    using silent_raise [OF that]
    by (auto simp: act_on_hold_def Let_def split_beta split: option.splits intro!: silent_intros that)
  have act: "silent is_notice g (snd (act_on env opts a d g'))" if "silent is_notice g g'" for a d g'
    using that by (cases d) (auto simp: act_on_def act_on_block_def b h intro!: silent_intros)
  have "silent is_notice g (snd (runBandReview env opts a g))" for a
  proof -
    obtain d g1 where d: "ask_review env opts a g = (d, g1)" by force
    then have q: "silent is_notice g g1" using a [of a] by simp
    then show ?thesis
      using d by (auto simp: runBandReview_def Let_def draft_stranger_def split_beta act
          split: band_decision.splits option.splits intro!: silent_intros)
  qed
  then show ?thesis by (simp add: review_gate_def)
qed

text \<open>The requests that \<open>notify\<close> is called with.\<close>

definition is_principal_notice :: "gateway_env \<Rightarrow> send_request \<Rightarrow> send_request \<Rightarrow> bool" where
  "is_principal_notice env req n \<longleftrightarrow>
     (isPrincipalRecipient env req \<and> (\<exists>content subject. n = relayNoticeRequest req content subject))
     \<or> (\<exists>i \<in> set (ge_principals env). pi_channel i = ''email'' \<and> pi_verified i \<and> pi_active i
          \<and> (\<exists>subject body. n = EmailReq (plain_email (pi_identifier i) (Some subject) body None)))"

definition notifies :: "notifier \<Rightarrow> gateway_env \<Rightarrow> send_request \<Rightarrow> (gateway \<Rightarrow> gateway \<Rightarrow> bool) \<Rightarrow> bool" where
  "notifies notify env req R \<longleftrightarrow>
     (\<forall>n t c g. is_principal_notice env req n \<longrightarrow> R g (snd (notify n (system_options t c) g)))"

section \<open>The contract of a send\<close>

text \<open>
  \<open>R\<close> relates the states around each step, \<open>A\<close> says for which requests and options. The steps are the
  notices, the transport or the queue, the contact of the recipient and the two records of a delivery.
\<close>

locale send_steps =
  fixes env :: gateway_env and R :: "gateway \<Rightarrow> gateway \<Rightarrow> bool" and A :: "send_request \<Rightarrow> gateway_options \<Rightarrow> bool"
  assumes trans: "R g g' \<Longrightarrow> R g' g'' \<Longrightarrow> R g g''"
    and notice: "silent is_notice g g' \<Longrightarrow> R g g'"
    and put: "A req opts \<Longrightarrow> may_leave env req opts cl \<Longrightarrow> R g (snd (put_on_wire env (to_send env req opts cl) g))"
    and promote: "A req opts \<Longrightarrow> R g (promote_sent env req (to_send env req opts cl) g)"
    and delivered: "R g (gw_publish env (EvDelivered d) g)"
    and sampled: "R g (gw_publish env (EvSample p) g)"
begin

lemma same [simp]: "R g g"
  by (rule notice) simp

lemma relay_change: "R g g' \<Longrightarrow> R g (g'\<lparr>gw_relay := b\<rparr>)"
  by (rule trans, assumption, rule notice) (rule silent_relay, rule silent_refl)

lemma band_report:
  assumes "notifies notify env req R"
  shows "R g (publishBandReport notify env summary opts g)"
proof -
  have "R g (emailPrincipal notify env s b g)" for s b
  proof (cases "find (\<lambda>i. pi_channel i = ''email'' \<and> pi_verified i \<and> pi_active i) (ge_principals env)")
    case (Some i)
    then have "i \<in> set (ge_principals env)" "pi_channel i = ''email''" "pi_verified i" "pi_active i"
      by (auto simp: find_Some_iff)
    then have "is_principal_notice env req (EmailReq (plain_email (pi_identifier i) (Some s) b None))"
      unfolding is_principal_notice_def by blast
    with assms Some show ?thesis by (simp add: emailPrincipal_def notifies_def)
  qed (simp add: emailPrincipal_def)
  moreover have "R g (happens (EvReport x) g)" for x
    by (rule notice) (auto intro!: silent_intros)
  ultimately show ?thesis by (simp add: publishBandReport_def Let_def)
qed

lemma after_wire:
  assumes "notifies notify env req R" "A req opts"
  shows "R g (after_wire notify env req opts cl (to_send env req opts cl) r g)"
proof -
  let ?sent = "to_send env req opts cl"
  let ?g1 = "if os_success r \<and> \<not> os_queued r
             then (let g' = gw_publish env (EvDelivered (delivery_of env req opts cl ?sent r)) (promote_sent env req ?sent g)
                   in if is_sampled env req opts \<and> ge_actionLog env
                      then gw_publish env (EvSample (sample_of env req opts cl ?sent)) g' else g')
             else g"
  have 1: "R g ?g1"
    using trans [OF trans [OF promote [OF assms(2)] delivered] sampled] trans [OF promote [OF assms(2)] delivered]
    by (simp add: Let_def)
  have "R g (publishBandReport notify env s opts ?g1)" for s
    by (rule trans [OF 1 band_report [OF assms(1)]])
  with 1 show ?thesis
    by (auto simp: after_wire_def Let_def intro: relay_change split: option.splits)
qed

lemma relay_gate:
  assumes "notifies notify env req R"
  shows "R g (snd (relay_gate notify env req opts c g))"
proof -
  have d: "R g' (snd (deferRelay notify env req orig c opts g'))" if "isPrincipalRecipient env req" for orig g'
  proof -
    have n: "R g' (snd (notify (relayNoticeRequest req t s) (system_options a b) (happens (EvReport x) g')))" for t s a b x
    proof -
      have "R g' (happens (EvReport x) g')" by (rule notice) (auto intro!: silent_intros)
      moreover have "is_principal_notice env req (relayNoticeRequest req t s)"
        using that by (auto simp: is_principal_notice_def)
      ultimately show ?thesis using assms by (auto simp: notifies_def intro: trans)
    qed
    have p: "R g' (gw_publish env (EvRelayDeferred y) g2)" if "R g' g2" for y g2
      by (rule trans [OF that notice]) (auto intro!: silent_intros)
    have h: "R g' (happens (EvReport x) g')" for x
      by (rule notice) (auto intro!: silent_intros)
    show ?thesis
      by (auto simp: deferRelay_def sendRelayNotice_def Let_def split_beta h n intro!: p relay_change)
  qed
  have sole: "isPrincipalRecipient env req" if "relay_originator env req opts g = Some orig" for orig
    using that by (auto simp: relay_originator_def isPrincipalRecipient_def split: if_splits)
  have "R g (snd (deferRelay notify env req orig c opts (g\<lparr>gw_relay := b\<rparr>)))"
    if "relay_originator env req opts g = Some orig" for orig b
    by (rule trans [OF relay_change [OF same] d [OF sole [OF that]]])
  then show ?thesis
    by (auto simp: relay_gate_def intro: relay_change split: option.splits prod.splits relay_answer.splits) (metis snd_conv)+
qed

lemma chain:
  assumes "R g (snd (p g))" "\<And>a g1. p g = (Inr a, g1) \<Longrightarrow> R g1 (snd (k a g1))"
  shows "R g (snd (gate_then p k g))"
  using assms unfolding gate_then_def
  by (auto split: prod.splits sum.splits) (metis trans snd_conv)

lemma gates:
  assumes "notifies notify env req R"
  shows "R g (snd (pass_gates notify env req opts g))"
  unfolding pass_gates_def
  by (intro chain notice silent_autonomy silent_no_reply silent_identity silent_export silent_pii silent_filter
      silent_review relay_gate assms)
    (simp_all add: silent_blocked)

lemma sent_with:
  assumes "notifies notify env req R" "A req opts"
  shows "R g (snd (send_with notify env req opts g))"
proof -
  obtain x g1 where p: "pass_gates notify env req opts g = (x, g1)" by force
  have 1: "R g g1" using gates [OF assms(1), of g opts] p by simp
  show ?thesis
  proof (cases x)
    case (Inl r)
    with 1 p show ?thesis by (simp add: send_with_def)
  next
    case (Inr cl)
    let ?sent = "to_send env req opts cl"
    obtain r g2 where w: "put_on_wire env ?sent g1 = (r, g2)" by force
    have "may_leave env req opts cl" using gates_passed p Inr by blast
    from put [OF assms(2) this, of g1] have "R g1 g2" by (simp add: w)
    then have "R g (after_wire notify env req opts cl ?sent r g2)"
      by (rule trans [OF 1 trans [OF _ after_wire [OF assms]]])
    with Inr p w show ?thesis by (simp add: send_with_def gw_deliver_def Let_def)
  qed
qed

text \<open>A send with its notices: the notices carry the options of a system notification.\<close>

lemma sent:
  assumes "A req opts" "\<And>n t c. is_principal_notice env req n \<Longrightarrow> A n (system_options t c)"
  shows "R g (snd (send env req opts g))"
proof -
  have inner: "notifies no_notice env n R" for n
    by (simp add: notifies_def no_notice_def)
  have "notifies (system_send env) env req R"
    unfolding notifies_def system_send_def by (blast intro: sent_with [OF inner] assms(2))
  from sent_with [OF this assms(1)] show ?thesis by (simp add: send_def)
qed

end

end
