(* ===== verification/GatewayProps.thy ===== *)
theory GatewayProps
  imports GatewaySteps
begin

text \<open>
  What the gateway promises of a whole send: nothing reaches a transport or the queue unless every gate
  let it through.
\<close>

section \<open>What leaves the process\<close>

text \<open>Between two states: the requests a transport was called with, and the requests put in the queue.\<close>

definition newly_out :: "gateway \<Rightarrow> gateway \<Rightarrow> send_request \<Rightarrow> bool" where
  "newly_out g g' w \<longleftrightarrow>
     EvWire w \<in> set (drop (length (gw_trace g)) (gw_trace g'))
     \<or> (w \<in> qr_payload ` set (gw_queue g') \<and> w \<notin> qr_payload ` set (gw_queue g))"

definition reaches :: "(send_request \<Rightarrow> bool) \<Rightarrow> gateway \<Rightarrow> gateway \<Rightarrow> bool" where
  "reaches P g g' \<longleftrightarrow>
     adds (\<lambda>e. \<forall>w. e = EvWire w \<longrightarrow> P w) g g'
     \<and> (\<forall>w \<in> qr_payload ` set (gw_queue g'). w \<in> qr_payload ` set (gw_queue g) \<or> P w)"

lemma reaches_out: "reaches P g g' \<Longrightarrow> newly_out g g' w \<Longrightarrow> P w"
  by (auto simp: reaches_def newly_out_def adds_def list_all_iff)

lemma reaches_refl [simp, intro]: "reaches P g g"
  by (auto simp: reaches_def)

lemma reaches_trans [trans]: "reaches P g g' \<Longrightarrow> reaches P g' g'' \<Longrightarrow> reaches P g g''"
  unfolding reaches_def by (blast intro: adds_trans)

lemma reaches_mono: "reaches P g g' \<Longrightarrow> (\<And>w. P w \<Longrightarrow> Q w) \<Longrightarrow> reaches Q g g'"
  unfolding reaches_def by (blast intro: adds_mono)

lemma reaches_quiet: "silent not_wire g g' \<Longrightarrow> reaches P g g'"
  unfolding reaches_def silent_def by (auto intro: adds_mono)

lemma reaches_notice: "silent is_notice g g' \<Longrightarrow> reaches P g g'"
  by (rule reaches_quiet) (rule silent_mono [OF _ notice_not_wire])

lemma reaches_retry [simp]: "reaches P g (g'\<lparr>gw_retry := b\<rparr>) \<longleftrightarrow> reaches P g g'"
  by (simp add: reaches_def adds_def)

section \<open>The transports and the queue\<close>

lemma dispatch_reaches: "reaches (\<lambda>w. w = req) g (snd (dispatch env req g))"
proof -
  have h: "reaches (\<lambda>w. w = req) g (happens (EvWire req) g)" for req
    by (auto simp: reaches_def happens_def adds_def)
  show ?thesis
    by (cases req)
      (auto simp: dispatchEmail_def dispatchSignal_def dispatchSlack_def dispatchSms_def deliver_web_def Let_def h
        split: option.splits sum.splits sms_error.splits prod.splits)
qed

lemma enqueue_payloads:
  "enqueue cfg down now i req rows = Inr rows' \<Longrightarrow> w \<in> qr_payload ` set rows' \<Longrightarrow> w \<in> qr_payload ` set rows \<or> w = req"
  by (auto simp: enqueue_def deleteExpired_def Let_def split: if_splits)

lemma enqueue_reaches: "reaches (\<lambda>w. w = req) g (snd (enqueueInsteadOfDrop env req g))"
proof -
  obtain i g1 where f: "fresh_id env g = (i, g1)" by force
  then have same: "gw_trace g1 = gw_trace g" "gw_queue g1 = gw_queue g"
    by (auto simp: fresh_id_def)
  have "\<forall>w \<in> qr_payload ` set rows. w \<in> qr_payload ` set (gw_queue g) \<or> w = req"
    if "enqueue cfg (ge_queueDown env) (ge_now env) i req (gw_queue g) = Inr rows" for cfg rows
    using enqueue_payloads [OF that] by blast
  then show ?thesis
    using same by (fastforce simp: enqueueInsteadOfDrop_def f reaches_def adds_def split: option.splits sum.splits queue_error.splits)
qed

lemma dispatchOrEnqueue_reaches: "reaches (\<lambda>w. w = req) g (snd (dispatchOrEnqueue env req g))"
proof -
  obtain r g1 where d: "dispatch env req g = (r, g1)" by force
  have 1: "reaches (\<lambda>w. w = req) g g1" using dispatch_reaches [of req g env] d by simp
  have 2: "reaches (\<lambda>w. w = req) g (snd (enqueueInsteadOfDrop env req g1))"
    by (rule reaches_trans [OF 1 enqueue_reaches])
  then show ?thesis
    using 1 d enqueue_reaches [of req g env]
    by (auto simp: dispatchOrEnqueue_def Let_def scheduleFlushRetry_def split: prod.splits)
qed

lemma put_on_wire_reaches: "reaches (\<lambda>w. w = req) g (snd (put_on_wire env req g))"
  using dispatch_reaches [of req g env] dispatchOrEnqueue_reaches [of req g env]
  by (cases req) (simp_all add: put_on_wire_def)

text \<open>The relation \<open>reaches\<close> is kept by every step of a send whose outgoing messages it allows.\<close>

interpretation out: send_steps env "reaches P" "\<lambda>req opts. \<forall>cl. may_leave env req opts cl \<longrightarrow> P (to_send env req opts cl)"
  for env P
proof
  fix req opts cl g assume "\<forall>cl. may_leave env req opts cl \<longrightarrow> P (to_send env req opts cl)" "may_leave env req opts cl"
  then show "reaches P g (snd (put_on_wire env (to_send env req opts cl) g))"
    using put_on_wire_reaches by (blast intro: reaches_mono)
next
  fix d g show "reaches P g (gw_publish env (EvDelivered d) g)"
    by (rule reaches_quiet) (auto intro!: silent_intros)
next
  fix d g show "reaches P g (gw_publish env (EvSample d) g)"
    by (rule reaches_quiet) (auto intro!: silent_intros)
qed (blast intro: reaches_trans reaches_notice reaches_quiet silent_promote_sent)+


end
