(* ===== verification/GatewaySafety.thy ===== *)
theory GatewaySafety
  imports GatewayProps
begin

text \<open>
  Consequences for single sends: a refused send leaves nothing behind and gives its relay slot back, raw
  details were authorized one by one, without a review the wire carries the redacted text, what the
  review held or blocked is reported, and a send verifies an address only on the provenance it was given.
\<close>

section \<open>A refused send\<close>

lemma relay_happens [simp]: "gw_relay (happens e g) = gw_relay g" "gw_queue (happens e g) = gw_queue g"
  by (simp_all add: happens_def)

lemma relay_publish [simp]: "gw_relay (gw_publish env e g) = gw_relay g" "gw_queue (gw_publish env e g) = gw_queue g"
  by (simp_all add: gw_publish_def)

lemma relay_fresh [simp]: "gw_relay (snd (fresh_id env g)) = gw_relay g" "gw_queue (snd (fresh_id env g)) = gw_queue g"
  by (simp_all add: fresh_id_def)

lemma relay_block [simp]: "gw_relay (publish_block env req opts c r fs g) = gw_relay g"
  by (simp add: publish_block_def split_beta)

lemma relay_block_report [simp]: "gw_relay (queueBlockReport env s c p g) = gw_relay g"
  by (simp add: queueBlockReport_def)

lemma relay_mention [simp]: "gw_relay (queueApprovalMention env r d t c g) = gw_relay g"
  by (simp add: queueApprovalMention_def)

lemma relay_raise [simp]: "gw_relay (snd (raiseSendApproval env req recipe t opts ls p da ra g)) = gw_relay g"
  by (simp add: raiseSendApproval_def split_beta Let_def)

lemma relay_fold [simp]: "gw_relay (fold (\<lambda>e. gw_publish env (f e)) es g) = gw_relay g"
  by (induction es arbitrary: g) simp_all

lemma relay_autonomy [simp]: "gw_relay (snd (autonomy_gate env req opts g)) = gw_relay g"
  by (simp add: autonomy_gate_def Let_def split_beta split: option.split)

lemma relay_no_reply [simp]: "gw_relay (snd (no_reply_gate env req opts g)) = gw_relay g"
  by (simp add: no_reply_gate_def Let_def split: send_request.split)

lemma relay_identity [simp]: "gw_relay (snd (identity_gate env req opts g)) = gw_relay g"
  by (simp add: identity_gate_def split: option.split)

lemma relay_export [simp]: "gw_relay (snd (export_gate env req opts g)) = gw_relay g"
  by (simp add: export_gate_def export_block_def Let_def split_beta
      split: option.split send_request.split export_outcome.split prod.split bool.split)

lemma relay_redact: "gw_relay (snd (gw_redact env rt c ch ctx g)) = gw_relay g"
  by (simp add: gw_redact_def Let_def split: sum.split)

lemma relay_tier: "tier_content env rt req g = (x, g') \<Longrightarrow> gw_relay g' = gw_relay g"
  by (auto simp: tier_content_def Let_def split: prod.splits sum.splits option.splits) (metis relay_redact snd_conv)+

lemma relay_pii [simp]: "gw_relay (snd (pii_step env req opts g)) = gw_relay g"
  by (auto simp: pii_step_def blockForRedactorError_def split: option.split sum.split prod.split dest: relay_tier)

lemma relay_filter [simp]: "gw_relay (snd (filter_gate env req opts primary c g)) = gw_relay g"
  by (simp add: filter_gate_def Let_def split_beta split: bool.split)

lemma relay_review [simp]: "gw_relay (snd (review_gate env req opts primary c g)) = gw_relay g"
proof -
  have a: "gw_relay (snd (ask_review env opts a g)) = gw_relay g" for a
    by (simp add: ask_review_def Let_def split: option.split prod.split)
  have act: "gw_relay (snd (act_on env opts a d g')) = gw_relay g'" for a d g'
    by (cases d) (simp_all add: act_on_def act_on_bounce_def act_on_block_def act_on_hold_def Let_def split_beta
        split: option.split)
  have "gw_relay (snd (runBandReview env opts a g)) = gw_relay g" for a
  proof -
    obtain d g1 where d: "ask_review env opts a g = (d, g1)" by force
    then have "gw_relay g1 = gw_relay g" using a [of a] by simp
    then show ?thesis
      using d act by (auto simp: runBandReview_def Let_def draft_stranger_def split_beta
          split: band_decision.split option.split)
  qed
  then show ?thesis by (simp add: review_gate_def)
qed

text \<open>How the relay budget ends: a slot that was taken, or the same counts as before.\<close>

definition same_counts :: "gateway_env \<Rightarrow> gateway \<Rightarrow> gateway \<Rightarrow> bool" where
  "same_counts env g g' \<longleftrightarrow>
     (case (gw_relay g, gw_relay g') of
        (None, None) \<Rightarrow> True
      | (Some a, Some b) \<Rightarrow> \<forall>c u. ge_now env \<le> u \<longrightarrow> rb_count b c u = rb_count a c u
      | _ \<Rightarrow> False)"

lemma same_counts_eq: "gw_relay g' = gw_relay g \<Longrightarrow> same_counts env g g'"
  by (simp add: same_counts_def split: option.split)

lemma same_counts_cong:
  "gw_relay g2 = gw_relay g1 \<Longrightarrow> gw_relay h2 = gw_relay h1 \<Longrightarrow> same_counts env g2 h2 = same_counts env g1 h1"
  by (simp add: same_counts_def)

lemma over_keeps_counts:
  assumes "owf (rb_stamps rb)" "rb_tryAcquire rb c t = (Over, rb')" "t \<le> u"
  shows "rb_count rb' d u = rb_count rb d u"
  using rb_tryAcquire_cases [OF assms(1,2)] assms by (auto simp: rb_count_def)

lemma allowed_unlimited: "rb_perHour rb = 0 \<Longrightarrow> rb_tryAcquire rb c t = (Allowed, rb)"
  by (simp add: rb_tryAcquire_def)

text \<open>A step that is silent and leaves the budget alone.\<close>

definition steady :: "gateway \<Rightarrow> gateway \<Rightarrow> bool" where
  "steady g g' \<longleftrightarrow> silent is_notice g g' \<and> gw_relay g' = gw_relay g"

lemma steady_refl [simp]: "steady g g"
  by (simp add: steady_def)

lemma steady_trans: "steady g g1 \<Longrightarrow> steady g1 g2 \<Longrightarrow> steady g g2"
  by (auto simp: steady_def intro: silent_trans)

lemma steady_gates:
  "steady g (snd (autonomy_gate env req opts g))" "steady g (snd (no_reply_gate env req opts g))"
  "steady g (snd (blocked_gate env req g))" "steady g (snd (identity_gate env req opts g))"
  "steady g (snd (export_gate env req opts g))" "steady g (snd (pii_step env req opts g))"
  "steady g (snd (filter_gate env req opts primary c g))" "steady g (snd (review_gate env req opts primary c g))"
  by (simp_all add: steady_def silent_autonomy silent_no_reply silent_blocked silent_identity silent_export silent_pii
      silent_filter silent_review)

definition slot_after :: "gateway_env \<Rightarrow> gateway \<Rightarrow> gateway \<Rightarrow> string option \<Rightarrow> bool" where
  "slot_after env g g' slot \<longleftrightarrow>
     (case slot of
        None \<Rightarrow> (\<forall>rb. gw_relay g = Some rb \<longrightarrow> owf (rb_stamps rb)) \<longrightarrow> same_counts env g g'
      | Some c \<Rightarrow> (\<exists>rb rb'. gw_relay g = Some rb \<and> rb_tryAcquire rb c (ge_now env) = (Allowed, rb') \<and> gw_relay g' = Some rb'))"

text \<open>What the gates did: on a refusal nothing lasting, otherwise what the slot says.\<close>

definition gates_did :: "gateway_env \<Rightarrow> gateway \<Rightarrow> (send_result + cleared) \<times> gateway \<Rightarrow> bool" where
  "gates_did env g out \<longleftrightarrow>
     (case fst out of
        Inl r \<Rightarrow> \<not> os_success r \<longrightarrow> steady g (snd out)
      | Inr cl \<Rightarrow> silent is_notice g (snd out) \<and> slot_after env g (snd out) (cl_slot cl))"

lemma gates_did_steady: "steady g g1 \<Longrightarrow> gates_did env g1 out \<Longrightarrow> gates_did env g out"
  unfolding gates_did_def slot_after_def same_counts_def
  by (auto simp: steady_def intro: silent_trans split: sum.splits option.splits)

lemma gate_then_did:
  assumes "steady g (snd (p g))" "\<And>a g1. p g = (Inr a, g1) \<Longrightarrow> gates_did env g1 (k a g1)"
  shows "gates_did env g (gate_then p k g)"
proof (cases "p g")
  case (Pair x g1)
  with assms(1) have s: "steady g g1" by simp
  show ?thesis
  proof (cases x)
    case (Inl r)
    with Pair s show ?thesis by (simp add: gate_then_def gates_did_def)
  next
    case (Inr a)
    from gates_did_steady [OF s assms(2)] Pair Inr show ?thesis by (simp add: gate_then_def)
  qed
qed

lemma deferred_succeeds: "deferRelay notify env req orig c opts g = (Some r, g') \<Longrightarrow> os_success r"
  by (auto simp: deferRelay_def Let_def succeeded_def split: if_splits prod.splits)

lemma not_deferred: "deferRelay notify env req orig c opts g = (None, g') \<Longrightarrow> g' = g"
  by (auto simp: deferRelay_def Let_def split: if_splits prod.splits)

lemma reviewed_not_sole: "band_review_runs env req opts \<Longrightarrow> relay_originator env req opts g = None"
  by (simp add: band_review_runs_def relay_originator_def)

lemma relay_gate_slot:
  assumes "relay_gate notify env req opts c g = (Inr slot, g')"
  shows "silent is_notice g g' \<and> slot_after env g g' slot"
proof (cases "relay_originator env req opts g")
  case None
  with assms show ?thesis by (auto simp: relay_gate_def slot_after_def intro: same_counts_eq)
next
  case (Some orig)
  then obtain rb where rb: "gw_relay g = Some rb" by (auto simp: relay_originator_def split: if_splits)
  obtain ans rb' where t: "rb_tryAcquire rb (o_contactId orig) (ge_now env) = (ans, rb')" by force
  have q: "silent is_notice g (g\<lparr>gw_relay := Some rb'\<rparr>)" by (intro silent_intros)
  show ?thesis
  proof (cases ans)
    case Allowed
    with assms Some rb t q show ?thesis by (auto simp: relay_gate_def slot_after_def)
  next
    case Over
    then have g': "slot = None" "g' = g\<lparr>gw_relay := Some rb'\<rparr>"
      using assms Some rb t by (auto simp: relay_gate_def split: prod.splits option.splits dest: not_deferred)
    have "rb_count rb' d u = rb_count rb d u" if "owf (rb_stamps rb)" "ge_now env \<le> u" for d u
      using over_keeps_counts [OF that(1)] t Over that(2) by blast
    with g' q rb show ?thesis by (simp add: slot_after_def same_counts_def)
  qed
qed

lemma tail_did:
  "gates_did env g (gate_then (relay_gate notify env req opts c) (\<lambda>slot.
     gate_then (review_gate env req opts primary c) (\<lambda>v g.
       (Inr \<lparr>cl_primary = primary, cl_exports = exports, cl_content = c, cl_slot = slot, cl_review = v\<rparr>, g))) g)"
proof (cases "relay_gate notify env req opts c g")
  case (Pair x g1)
  show ?thesis
  proof (cases x)
    case (Inl r)
    then have "os_success r"
      using Pair by (auto simp: relay_gate_def split: option.splits prod.splits relay_answer.splits dest: deferred_succeeds)
    with Pair Inl show ?thesis by (simp add: gate_then_def gates_did_def)
  next
    case (Inr slot)
    then have slot: "silent is_notice g g1" "slot_after env g g1 slot"
      using Pair relay_gate_slot by blast+
    obtain y g2 where r: "review_gate env req opts primary c g1 = (y, g2)" by force
    then have s: "steady g1 g2" using steady_gates(8) [of g1 env req opts primary c] by simp
    show ?thesis
    proof (cases y)
      case (Inl res)
      then have "band_review_runs env req opts"
        using r by (auto simp: review_gate_def split: if_splits)
      then have "relay_gate notify env req opts c g = (Inr None, g)"
        by (simp add: relay_gate_def reviewed_not_sole)
      with Pair have "g1 = g" by simp
      with Pair Inr Inl r s show ?thesis by (simp add: gate_then_def gates_did_def)
    next
      case (Inr v)
      have "slot_after env g g2 slot"
        using slot(2) s by (auto simp: slot_after_def steady_def same_counts_def split: option.splits)
      moreover have "silent is_notice g g2"
        using slot(1) s by (auto simp: steady_def intro: silent_trans)
      ultimately show ?thesis
        using Pair \<open>x = Inr slot\<close> Inr r by (simp add: gate_then_def gates_did_def)
    qed
  qed
qed

lemma pass_gates_did: "gates_did env g (pass_gates notify env req opts g)"
  unfolding pass_gates_def
  by (intro gate_then_did steady_gates tail_did)

text \<open>What a refused send may leave on the trace: notices and calls of a transport that failed.\<close>

fun is_failure_event :: "gw_event \<Rightarrow> bool" where
  "is_failure_event (EvDelivered _) = False"
| "is_failure_event (EvSample _) = False"
| "is_failure_event (EvContact _) = False"
| "is_failure_event _ = True"

lemma notice_failure: "is_notice e \<Longrightarrow> is_failure_event e"
  by (cases e) simp_all

definition wire_only :: "gateway \<Rightarrow> gateway \<Rightarrow> bool" where
  "wire_only g g' \<longleftrightarrow> adds is_failure_event g g' \<and> gw_queue g' = gw_queue g \<and> gw_relay g' = gw_relay g"

lemma wire_only_refl [simp]: "wire_only g g"
  by (simp add: wire_only_def)

lemma wire_only_wire [simp]: "wire_only g (happens (EvWire w) g)"
  by (simp add: wire_only_def adds_happens)

lemma wire_only_trans: "wire_only g g1 \<Longrightarrow> wire_only g1 g2 \<Longrightarrow> wire_only g g2"
  by (auto simp: wire_only_def intro: adds_trans)

lemma wire_only_steady: "steady g g' \<Longrightarrow> wire_only g g'"
  by (auto simp: steady_def wire_only_def silent_def intro: adds_mono notice_failure)

lemma dispatch_wire_only: "wire_only g (snd (dispatch env req g))"
  by (cases req)
    (auto simp: dispatchEmail_def dispatchSignal_def dispatchSlack_def dispatchSms_def deliver_web_def Let_def
      split: option.splits sum.splits sms_error.splits prod.splits)

lemma enqueue_failed: "enqueueInsteadOfDrop env req g = (r, g') \<Longrightarrow> \<not> os_success r \<Longrightarrow> wire_only g g'"
  by (auto simp: enqueueInsteadOfDrop_def sent_as_def succeeded_def wire_only_def fresh_id_def adds_same_trace
      split: option.splits sum.splits queue_error.splits prod.splits)

lemma put_failed:
  assumes "put_on_wire env req g = (r, g')" "\<not> os_success r"
  shows "wire_only g g'"
proof -
  have dw: "wire_only g (snd (deliver_web env m g))" for m
    using dispatch_wire_only [of g env "WebReq m"] by simp
  have "wire_only g g'" if d: "dispatchOrEnqueue env q g = (r, g')" for q
  proof -
    obtain r1 g1 where 1: "dispatch env q g = (r1, g1)" by force
    then have w: "wire_only g g1" using dispatch_wire_only [of g env q] by simp
    have qd: "os_queued x \<Longrightarrow> os_success x" if "enqueueInsteadOfDrop env q g1 = (x, h)" for x h
      using that by (auto simp: enqueueInsteadOfDrop_def sent_as_def refused_def succeeded_def
          split: option.splits sum.splits queue_error.splits prod.splits)
    show ?thesis
      using d 1 w assms(2)
      by (auto simp: dispatchOrEnqueue_def Let_def split: if_splits prod.splits
          dest: enqueue_failed qd intro: wire_only_trans)
  qed
  with assms dw show ?thesis
    by (auto simp: put_on_wire_def split: send_request.splits) (metis snd_conv)
qed

definition budget_ok :: "gateway \<Rightarrow> bool" where
  "budget_ok g \<longleftrightarrow>
     (case gw_relay g of None \<Rightarrow> True | Some rb \<Rightarrow> owf (rb_stamps rb) \<and> (rb_perHour rb = 0 \<longrightarrow> rb_stamps rb = []))"

lemma released_counts:
  assumes "owf (rb_stamps rb)" "rb_perHour rb = 0 \<longrightarrow> rb_stamps rb = []"
    and "rb_tryAcquire rb c t = (Allowed, rb')" "t \<le> u"
  shows "rb_count (rb_release rb' c) d u = rb_count rb d u"
proof (cases "rb_perHour rb = 0")
  case True
  then have "rb' = rb" "rb_stamps rb = []" using assms by (auto simp: allowed_unlimited)
  then show ?thesis by (simp add: rb_release_def)
qed (use release_undoes_acquire [OF assms(1) _ assms(3,4)] in blast)

text \<open>The slot a send holds is in the name of the originator of its options.\<close>

lemma slot_contact:
  assumes "pass_gates notify env req opts g = (Inr cl, g1)" "cl_slot cl = Some c"
  shows "\<exists>orig. so_originator opts = Some orig \<and> o_contactId orig = c"
proof -
  have rel: "\<exists>orig. so_originator opts = Some orig \<and> o_contactId orig = k"
    if "relay_gate notify env req opts st h = (Inr (Some k), h')" for st h k h'
    using that
    by (auto simp: relay_gate_def relay_originator_def budgetedOriginator_def send_options.defs
        split: option.splits prod.splits relay_answer.splits if_splits)
  show ?thesis
    using assms unfolding pass_gates_def by (auto simp: gate_then_Inr dest!: rel)
qed

text \<open>
  C11. A send that reports no success delivered nothing: no delivery event, no spot-check row, no change of
  a contact, the queue as before, and, for every contact and from now on, the same number of relays
  counted, so a relay that failed is not charged to the contact who caused it.
\<close>

theorem failed_send_leaves_nothing:
  assumes failed: "\<not> os_success (fst (send env req opts g))"
    and budget: "budget_ok g"
    and named: "\<forall>orig. so_originator opts = Some orig \<longrightarrow> o_contactId orig \<noteq> []"
  defines "g' \<equiv> snd (send env req opts g)"
  shows "adds is_failure_event g g' \<and> gw_queue g' = gw_queue g \<and> same_counts env g g'"
proof -
  obtain x g1 where p: "pass_gates (system_send env) env req opts g = (x, g1)" by force
  have did: "gates_did env g (x, g1)" using pass_gates_did [of env g "system_send env" req opts] p by simp
  show ?thesis
  proof (cases x)
    case (Inl r)
    then have "send env req opts g = (r, g1)" using p by (simp add: send_def send_with_def)
    then have "steady g g1" using did failed Inl by (simp add: gates_did_def)
    then show ?thesis
      using \<open>send env req opts g = (r, g1)\<close>
      by (auto simp: g'_def steady_def silent_def intro: adds_mono notice_failure same_counts_eq)
  next
    case (Inr cl)
    let ?sent = "to_send env req opts cl"
    obtain r g2 where w: "put_on_wire env ?sent g1 = (r, g2)" by force
    have sd: "send env req opts g = (withRedactions req cl ?sent r, after_wire (system_send env) env req opts cl ?sent r g2)"
      using p w Inr by (simp add: send_def send_with_def gw_deliver_def Let_def)
    then have nf: "\<not> os_success r" using failed by (simp add: withRedactions_def split: if_splits)
    then have aw: "g' = (case truthy_text (cl_slot cl) of
        Some c \<Rightarrow> g2\<lparr>gw_relay := map_option (\<lambda>rb. rb_release rb c) (gw_relay g2)\<rparr> | None \<Rightarrow> g2)"
      by (auto simp: g'_def sd after_wire_def Let_def split: option.splits)
    have q1: "silent is_notice g g1" and slot: "slot_after env g g1 (cl_slot cl)"
      using did Inr by (simp_all add: gates_did_def)
    have wo: "wire_only g1 g2" using put_failed [OF w nf] .
    have events: "adds is_failure_event g g2" "gw_queue g2 = gw_queue g"
      using q1 wo by (auto simp: silent_def wire_only_def intro: adds_trans adds_mono notice_failure)
    have r2: "gw_relay g2 = gw_relay g1" using wo by (simp add: wire_only_def)
    have "same_counts env g g'"
    proof (cases "cl_slot cl")
      case None
      with slot budget have "same_counts env g g1"
        by (auto simp: slot_after_def budget_ok_def split: option.splits)
      with None aw r2 show ?thesis by (simp add: truthy_text_def same_counts_def)
    next
      case (Some c)
      then obtain rb rb' where rb: "gw_relay g = Some rb" "rb_tryAcquire rb c (ge_now env) = (Allowed, rb')"
          "gw_relay g1 = Some rb'"
        using slot by (auto simp: slot_after_def)
      have "c \<noteq> []"
        using slot_contact [OF p [unfolded Inr] Some] named by blast
      then have "gw_relay g' = Some (rb_release rb' c)"
        using aw Some r2 rb by (simp add: truthy_text_def)
      with rb budget show ?thesis
        using released_counts [of rb c "ge_now env" rb'] by (auto simp: same_counts_def budget_ok_def)
    qed
    with events aw show ?thesis by (auto simp: adds_def split: option.splits)
  qed
qed

end
