(* ===== verification/PiiRedactorProps.thy ===== *)
theory PiiRedactorProps
  imports PiiRedactor "HOL-Library.Multiset"
begin

text \<open>
  Detection returns disjoint spans in order, and redaction is the text between the spans with a token
  for each span: nothing of a span is left and nothing else is touched.
\<close>

section \<open>Shape of a detection\<close>

lemma length_groups: "hex_groups ns s \<Longrightarrow> length s + 1 = sum_list ns + length ns"
proof (induction ns s rule: hex_groups.induct)
  case (3 n m ns s)
  from "3.prems" obtain c rest where d: "drop n s = c # rest" and r: "hex_groups (m # ns) rest"
      and n: "length (take n s) = n"
    by (auto split: list.splits)
  have "length s = n + Suc (length rest)"
    using arg_cong [OF append_take_drop_id [of n s], of length] n d by simp
  moreover have "length rest + 1 = sum_list (m # ns) + length (m # ns)"
    using 3 d r by (auto split: list.splits)
  ultimately show ?case by simp
qed simp_all

lemma length_shield: "length (shield_from b s) = length s"
proof (induction b s rule: shield_from.induct)
  case (2 b c s)
  show ?case
  proof (cases "uuid_here b (c # s)")
    case True
    then have "length (take 36 (c # s)) + 1 = 37"
      using length_groups [of "[8, 4, 4, 4, 12]" "take 36 (c # s)"] by (simp add: uuid_here_def uuid_shape_def)
    then have "35 \<le> length s" by simp
    with True 2 show ?thesis by simp
  qed (use 2 in simp)
qed simp

lemma length_shielded [simp]: "length (shielded text) = length text"
  by (simp add: shielded_def length_shield)

text \<open>The documented behaviour of \<open>exec\<close> with the global flag, for an expression that matches no empty string.\<close>

definition moving_engine :: "pii_pattern \<Rightarrow> bool" where
  "moving_engine p \<longleftrightarrow>
     (\<forall>s k i j. pt_exec p s k = Some (i, j) \<longrightarrow> k \<le> i \<and> i < j \<and> j \<le> length s)"

definition apart :: "pii_match \<Rightarrow> pii_match \<Rightarrow> bool" where
  "apart m n \<longleftrightarrow> pm_end m \<le> pm_start n \<or> pm_end n \<le> pm_start m"

definition span_in :: "string \<Rightarrow> pii_match \<Rightarrow> bool" where
  "span_in text m \<longleftrightarrow> pm_start m < pm_end m \<and> pm_end m \<le> length text
     \<and> pm_matched m = js_slice (pm_start m) (pm_end m) text
     \<and> CHR 0x00 \<notin> set (js_slice (pm_start m) (pm_end m) (shielded text))"

definition spans_of :: "string \<Rightarrow> pii_match list \<Rightarrow> bool" where
  "spans_of text ms \<longleftrightarrow> (\<forall>m \<in> set ms. span_in text m) \<and> sorted_wrt apart ms"

text \<open>In order, each span ends before the next one starts.\<close>

definition ordered_spans :: "string \<Rightarrow> pii_match list \<Rightarrow> bool" where
  "ordered_spans text ms \<longleftrightarrow>
     (\<forall>m \<in> set ms. span_in text m) \<and> sorted_wrt (\<lambda>m n. pm_end m \<le> pm_start n) ms"

lemma accept_spans:
  assumes "spans_of text ms" "i < j" "j \<le> length text"
  shows "spans_of text (accept_match p text i j ms)"
  using assms
  by (auto simp: accept_match_def spans_of_def span_in_def Let_def overlapsExisting_def list_ex_iff apart_def
      sorted_wrt_append not_less split: if_splits option.splits)

lemma exec_loop_returns:
  assumes "moving_engine p" "spans_of text ms" "k \<le> length text"
  shows "\<exists>ms'. exec_loop p text k ms = Some ms' \<and> spans_of text ms'"
  using assms(2,3)
proof (induction "length text - k" arbitrary: k ms rule: less_induct)
  case less
  show ?case
  proof (cases "pt_exec p (shielded text) k")
    case None
    with less show ?thesis by (subst exec_loop.simps) simp
  next
    case (Some ij)
    obtain i j where ij: "ij = (i, j)" by force
    have m: "k \<le> i" "i < j" "j \<le> length text"
      using assms(1) Some ij unfolding moving_engine_def by (metis length_shielded)+
    then have "spans_of text (accept_match p text i j ms)"
      using less.prems(1) by (intro accept_spans)
    from less.hyps [OF _ this] m show ?thesis
      using less.prems Some ij by (subst exec_loop.simps) simp
  qed
qed

lemma detect_all_returns:
  "\<forall>p \<in> set ps. moving_engine p \<Longrightarrow> spans_of text ms \<Longrightarrow>
    \<exists>ms'. detect_all ps text ms = Some ms' \<and> spans_of text ms'"
  by (induction ps arbitrary: ms) (use exec_loop_returns [where k = 0] in fastforce)+

lemma spans_mset: "spans_of text ms \<Longrightarrow> mset ns = mset ms \<Longrightarrow> spans_of text ns"
proof -
  assume s: "spans_of text ms" and m: "mset ns = mset ms"
  have eq: "set ns = set ms" using m by (metis set_mset_mset)
  have dist: "distinct ms"
    using s unfolding spans_of_def
    by (induction ms) (fastforce simp: apart_def span_in_def)+
  then have "distinct ns" using m mset_eq_imp_distinct_iff by metis
  moreover have "apart a b" if "a \<in> set ns" "b \<in> set ns" "a \<noteq> b" for a b
    using s that eq unfolding spans_of_def
    by (induction ms arbitrary: ns) (auto simp: apart_def)
  ultimately have "sorted_wrt apart ns"
    by (auto simp: sorted_wrt_iff_nth_less nth_eq_iff_index_eq)
  with s eq show ?thesis by (simp add: spans_of_def)
qed

lemma ordered_from_apart:
  "sorted_wrt (\<lambda>m n. pm_start m \<le> pm_start n) ms \<Longrightarrow> sorted_wrt apart ms
    \<Longrightarrow> \<forall>m \<in> set ms. pm_start m < pm_end m \<Longrightarrow> sorted_wrt (\<lambda>m n. pm_end m \<le> pm_start n) ms"
  by (induction ms) (fastforce simp: apart_def)+

lemma ordered_from_sort:
  assumes "spans_of text ms"
  shows "ordered_spans text (sort_key pm_start ms)"
proof -
  let ?s = "sort_key pm_start ms"
  have sp: "spans_of text ?s" using assms by (rule spans_mset) simp
  have so: "sorted_wrt (\<lambda>m n. pm_start m \<le> pm_start n) ?s"
    using sorted_sort_key [of pm_start ms] by (simp add: sorted_map)
  have "sorted_wrt (\<lambda>m n. pm_end m \<le> pm_start n) ?s"
    using sp by (intro ordered_from_apart [OF so]) (auto simp: spans_of_def span_in_def)
  with sp show ?thesis by (simp add: ordered_spans_def spans_of_def)
qed


section \<open>Detection ends\<close>

lemma detection_returns_spans_aux:
  assumes "\<forall>p \<in> set patterns. moving_engine p"
  shows "\<exists>ms. detectPii patterns text = Some ms \<and> ordered_spans text ms"
proof -
  obtain ms where "detect_all patterns text [] = Some ms" "spans_of text ms"
    using detect_all_returns [OF assms, of "text" "[]"] by (auto simp: spans_of_def)
  then show ?thesis
    using ordered_from_sort by (auto simp: detectPii_def)
qed

text \<open>
  When no expression matches the empty string, detection returns, its matches are disjoint spans of
  the text in the order of their positions, each with the text it covers, and no match touches an
  identifier that was shielded.
\<close>

theorem detection_returns_spans:
  assumes "\<forall>p \<in> set patterns. moving_engine p"
  shows "\<exists>ms. detectPii patterns text = Some ms \<and> ordered_spans text ms"
  using detection_returns_spans_aux [OF assms] .

text \<open>A pattern that finds the first digit at or after a position.\<close>

definition first_digit :: "string \<Rightarrow> nat \<Rightarrow> (nat \<times> nat) option" where
  "first_digit s k = (if list_ex digit_char (drop k s)
     then (let i = k + length (takeWhile (\<lambda>c. \<not> digit_char c) (drop k s)) in Some (i, i + 1)) else None)"

definition demo_pattern :: pii_pattern where
  "demo_pattern = \<lparr>pt_name = ''digit'', pt_replacement = ''[D]'', pt_exec = first_digit, pt_validate = None\<rparr>"

lemma demo_moving: "moving_engine demo_pattern"
proof -
  have "length (takeWhile (\<lambda>c. \<not> digit_char c) t) < length t" if "list_ex digit_char t" for t
    using that by (induction t) auto
  then show ?thesis
    by (fastforce simp: moving_engine_def demo_pattern_def first_digit_def Let_def split: if_splits)
qed

theorem detection_returns_spans_witness:
  "\<exists>ms. detectPii [demo_pattern] ''a1b22'' = Some ms \<and> ordered_spans ''a1b22'' ms"
  using detection_returns_spans [of "[demo_pattern]"] demo_moving by simp

text \<open>
  An operator's expression that matches the empty string where the search starts makes detection run
  for ever, on every text, so every send and every scrubbed error message of the process hangs.
\<close>

lemma stuck_loop:
  assumes "pt_exec p (shielded text) i = Some (i, i)"
  shows "exec_loop p text i ms = None"
proof (cases "exec_loop p text i ms")
  case (Some y)
  have "pt_exec p (shielded text) i \<noteq> Some (i, i)"
    by (rule exec_loop.raw_induct [where P = "\<lambda>q t k _ _. pt_exec q (shielded t) k \<noteq> Some (k, k)", OF _ Some])
      (auto split: option.splits)
  with assms show ?thesis by simp
qed

theorem empty_match_never_returns:
  assumes "pt_exec p (shielded text) 0 = Some (i, i)" "pt_exec p (shielded text) i = Some (i, i)"
  shows "detectPii (before @ p # after) text = None"
proof -
  have "exec_loop p text 0 ms = None" for ms
    using assms stuck_loop by (subst exec_loop.simps) simp
  then have "detect_all (before @ p # after) text ms = None" for ms
    by (induction before arbitrary: ms) (auto split: bind_split)
  then show ?thesis by (simp add: detectPii_def)
qed

definition empty_pattern :: pii_pattern where
  "empty_pattern = demo_pattern\<lparr>pt_exec := (\<lambda>_ k. Some (k, k))\<rparr>"

theorem empty_match_never_returns_witness: "detectPii ([demo_pattern] @ empty_pattern # []) ''a1'' = None"
  by (rule empty_match_never_returns [where i = 0]) (simp_all add: empty_pattern_def)

section \<open>Redaction\<close>

text \<open>The text between the spans, with a token in the place of each span.\<close>

fun between_spans :: "(pii_match \<Rightarrow> string) \<Rightarrow> nat \<Rightarrow> string \<Rightarrow> pii_match list \<Rightarrow> string" where
  "between_spans token pos text [] = drop pos text"
| "between_spans token pos text (m # ms) =
     js_slice pos (pm_start m) text @ token m @ between_spans token (pm_end m) text ms"

lemma between_split:
  assumes "ordered_spans text ms" "k \<le> length text" "\<forall>m \<in> set ms. k \<le> pm_start m"
  shows "between_spans token 0 text ms = take k text @ between_spans token k text ms"
proof (cases ms)
  case (Cons m ms')
  then have "take (pm_start m) text = take k text @ js_slice k (pm_start m) text"
    using assms(3) by (simp add: js_slice_def flip: take_add)
  then show ?thesis by (simp add: Cons js_slice_def)
qed simp

lemma replace_all_spans:
  "ordered_spans text ms \<Longrightarrow> replace_all token ms text = between_spans token 0 text ms"
proof (induction ms)
  case (Cons m ms)
  have o: "ordered_spans text ms" and m: "span_in text m" "\<forall>n \<in> set ms. pm_end m \<le> pm_start n"
    using Cons.prems by (simp_all add: ordered_spans_def)
  have "between_spans token 0 text ms = take (pm_end m) text @ between_spans token (pm_end m) text ms"
    using o m by (intro between_split) (simp_all add: span_in_def)
  moreover have "replace_all token ms text = between_spans token 0 text ms"
    using Cons.IH [OF o] .
  ultimately show ?case
    using m(1) by (simp add: replace_all_def replace_at_def js_slice_def span_in_def min_absorb1)
qed (simp add: replace_all_def)

lemma ordered_filter: "ordered_spans text ms \<Longrightarrow> ordered_spans text (filter keep ms)"
  by (simp add: ordered_spans_def sorted_wrt_filter)

lemma sort_ordered:
  assumes "ordered_spans text ms" "mset items = mset ms"
  shows "sort_key pm_start items = ms"
proof (rule sort_key_inj_key_eq)
  show "mset items = mset ms" by fact
  have lt: "sorted_wrt (\<lambda>m n. pm_start m < pm_start n) ms"
    using assms(1) unfolding ordered_spans_def
    by (induction ms) (fastforce simp: span_in_def)+
  then have "sorted_wrt (<) (map pm_start ms)"
    by (simp add: sorted_wrt_map)
  then have d: "sorted (map pm_start ms)" "distinct (map pm_start ms)"
    by (simp_all add: strict_sorted_iff)
  show "sorted (map pm_start ms)" by (fact d)
  have "inj_on pm_start (set ms)"
    using d(2) by (simp add: distinct_map)
  moreover have "set items = set ms"
    using arg_cong [OF assms(2), of set_mset] by simp
  ultimately show "inj_on pm_start (set items)" by simp
qed

text \<open>
  C38. What goes out after redaction is the text with each redacted span replaced by its token and every
  other character kept, in whatever order the detected items are handed over; the scrubbed copy is the
  same with the scrubber's tokens.
\<close>

theorem redaction_is_exact:
  assumes "\<forall>p \<in> set patterns. moving_engine p"
    and "detectPii patterns text = Some ms" "mset items = mset (filter keep ms)"
  shows "rr_content (apply_redaction text items channel) = between_spans redaction_token 0 text (filter keep ms)
    \<and> map re_replacedWith (rr_redactions (apply_redaction text items channel)) = map redaction_token (filter keep ms)
    \<and> scrubPii patterns text = Some (between_spans (scrub_token patterns) 0 text ms)"
proof -
  have o: "ordered_spans text ms"
    using detection_returns_spans_aux [OF assms(1), of "text"] assms(2) by simp
  then have f: "ordered_spans text (filter keep ms)" by (rule ordered_filter)
  have "items = [] \<longleftrightarrow> filter keep ms = []"
    using assms(3) by (metis mset_zero_iff)
  then show ?thesis
    using sort_ordered [OF f assms(3)] replace_all_spans [OF f] replace_all_spans [OF o] assms(2)
    by (auto simp: apply_redaction_def Let_def scrubPii_def)
qed

theorem redaction_is_exact_witness:
  "rr_content (apply_redaction ''a1b'' [\<lparr>pm_label = ''digit'', pm_start = 1, pm_end = 2, pm_matched = ''1''\<rparr>] ''sms'')
    = ''a[REDACTED: DIGIT]b''"
proof -
  let ?m = "\<lparr>pm_label = ''digit'', pm_start = 1, pm_end = 2, pm_matched = ''1''\<rparr>"
  have s: "shielded ''a1b'' = ''a1b''" by code_simp
  have i: "accept_match demo_pattern ''a1b'' (Suc 0) 2 [] = [?m]"
    by (simp add: accept_match_def s js_slice_def demo_pattern_def overlapsExisting_def)
  have e: "pt_exec demo_pattern ''a1b'' 0 = Some (1, 2)" "pt_exec demo_pattern ''a1b'' 2 = None" by code_simp+
  have "exec_loop demo_pattern ''a1b'' 0 [] = Some [?m]"
    by (subst exec_loop.simps, simp add: s e i, subst exec_loop.simps, simp add: s e)
  then have "detectPii [demo_pattern] ''a1b'' = Some [?m]"
    by (simp add: detectPii_def)
  from redaction_is_exact [OF _ this, of "[?m]" "\<lambda>_. True" "''sms''"] demo_moving
  have out: "rr_content (apply_redaction ''a1b'' [?m] ''sms'') = between_spans redaction_token 0 ''a1b'' [?m]" by simp
  have t: "redaction_token ?m = ''[REDACTED: DIGIT]''" by code_simp
  show ?thesis using out t by (simp add: js_slice_def)
qed

text \<open>
  The redactor steps aside for the principal alone and when switched off, and then publishes nothing; it
  publishes one event exactly when it changed something, naming labels and tokens only.
\<close>

lemma redact_bypass:
  "rx_principalIsSole ctx \<or> \<not> rg_enabled cfg \<Longrightarrow>
    redact cfg find_pii content channel ctx = (\<lparr>rr_content = content, rr_redactions = []\<rparr>, [])"
  by (auto simp: redact_def detect_outbound_def apply_redaction_def redacted_events_def)

lemma redact_publishes:
  "length (snd (redact cfg find_pii content channel ctx))
    = (if detect_outbound cfg find_pii content channel ctx = [] then 0 else 1)"
  by (auto simp: redact_def apply_redaction_def redacted_events_def Let_def dest: arg_cong [of _ _ set])

end
