(* ===== verification/GatewayDisclosure.thy ===== *)
theory GatewayDisclosure
  imports GatewaySafety PiiRedactorProps
begin

text \<open>
  Personal data on the wire: under the band review each raw detail was authorized, otherwise the wire
  carries the text with the spans of the policy replaced; the audit sees redacted copies. What the
  review holds or blocks is reported. A notice to the principal asks for no notice.
\<close>

section \<open>Raw details\<close>

lemma review_answers:
  assumes "is_send (fst (review re i st))" "item \<in> set (own_items i)"
  shows "\<exists>prior v rs. checked_verdict i (review_asked_of re i prior) = Inr v
    \<and> rulings_of i v = Some rs \<and> other_rules_pass i v \<and> \<not> has_token i
    \<and> item_authorized (review_context re i (review_asked_of re i prior) rs) item (ruling_for rs item)"
proof -
  obtain prior st' where p: "priorBounce re (draftKey i) st = (prior, st')" by force
  let ?asked = "review_asked_of re i prior"
  have s: "is_send (fst (review_rest re i (draftKey i) prior st'))"
    using assms(1) p by (simp add: review_def)
  have items: "own_items i \<noteq> []" using assms(2) by auto
  then have u: "\<not> is_send (unreviewedHold ORIGIN_UNRESOLVED_REASON (own_items i) (has_token i))"
    by (simp add: unreviewedHold_def)
  obtain v where v: "checked_verdict i ?asked = Inr v"
    using s items u
    by (cases "checked_verdict i ?asked")
      (auto simp: review_rest_def Let_def judge_failed_send_iff split_beta split: if_splits)
  have "other_rules_pass i v \<and> \<not> has_token i \<and> all_authorized re i ?asked (rulings_of i v) (own_items i)"
    using s u v by (auto simp: review_rest_def Let_def answered_send_iff split_beta split: if_splits)
  then show ?thesis
    using v assms(2) items by (auto simp: all_authorized_def split: option.splits intro!: exI [of _ prior])
qed

text \<open>
  C9. When a message goes out raw under the band review, every detected item of its body and subject was
  put to the judge with the message as it is sent, the judge ruled on it, and the authority behind the
  send covers that ruling; the message has no redaction placeholder and passed the other rules.
\<close>

theorem raw_details_are_authorized:
  assumes "pass_gates notify env req opts g = (Inr cl, g')" "raw_on_wire env req opts cl"
    and "item \<in> set (cs_items (cl_content cl))" "di_field item \<noteq> FieldQuote"
  defines "i \<equiv> review_input_of env opts (review_args_of env req (cl_primary cl) (cl_content cl))"
  shows "ri_content i = cs_sendBody (cl_content cl) \<and> ri_subject i = cs_sendSubject (cl_content cl)
    \<and> (\<exists>re prior v rs. ge_review env = Some re \<and> checked_verdict i (review_asked_of re i prior) = Inr v
         \<and> rulings_of i v = Some rs \<and> other_rules_pass i v \<and> \<not> has_token i
         \<and> item_authorized (review_context re i (review_asked_of re i prior) rs) item (ruling_for rs item))"
proof -
  have "review_clears env req opts (cl_primary cl) (cl_content cl)"
    using gates_passed [OF assms(1)] by (simp add: may_leave_def)
  then obtain re st where re: "ge_review env = Some re" "is_send (fst (review re i st))"
    using assms(2) by (auto simp: review_clears_def raw_on_wire_def i_def)
  have "item \<in> set (own_items i)"
    using assms(3,4) by (simp add: own_items_def i_def review_input_of_def review_args_of_def Let_def)
  from review_answers [OF re(2) this] re(1) show ?thesis
    by (auto simp: i_def review_input_of_def review_args_of_def Let_def)
qed

section \<open>The redacted wire\<close>

lemma gw_redact_content:
  "gw_redact env rt c ch ctx g = (Inr r, g') \<Longrightarrow> \<exists>ms. gw_detect rt c ch ctx = Inr ms \<and> r = apply_redaction c ms ch"
  by (auto simp: gw_redact_def Let_def split: sum.splits)

text \<open>A detector that finds what the patterns find, for patterns that always return.\<close>

definition finds :: "redactor \<Rightarrow> pii_pattern list \<Rightarrow> bool" where
  "finds rt patterns \<longleftrightarrow>
     (\<forall>p \<in> set patterns. moving_engine p) \<and> (\<forall>t. \<exists>ms. detectPii patterns t = Some ms \<and> rt_find rt t = Inr ms)"

lemma redaction_between:
  assumes "finds rt patterns" "gw_detect rt t ch ctx = Inr ms" "rg_enabled (rt_config rt)" "\<not> rx_principalIsSole ctx"
  shows "\<exists>found. detectPii patterns t = Some found
    \<and> rr_content (apply_redaction t ms ch)
      = between_spans redaction_token 0 t (filter (\<lambda>m. redacted_label (rt_config rt) ch (pm_label m)) found)"
proof -
  obtain found where f: "detectPii patterns t = Some found" "rt_find rt t = Inr found"
    using assms(1) by (auto simp: finds_def)
  let ?keep = "\<lambda>m. redacted_label (rt_config rt) ch (pm_label m)"
  have ms: "ms = filter ?keep found"
    using assms(2-4) f by (simp add: gw_detect_def detect_outbound_def)
  have o: "ordered_spans t (filter ?keep found)"
    using detection_returns_spans_aux [of patterns t] assms(1) f(1) by (auto simp: finds_def intro: ordered_filter)
  have "rr_content (apply_redaction t ms ch) = between_spans redaction_token 0 t ms"
    using sort_ordered [OF o refl] replace_all_spans [OF o] ms by (simp add: apply_redaction_def Let_def)
  with f ms show ?thesis by simp
qed

lemma tier_content_detects:
  assumes "tier_content env rt req g = (Inr c, g')"
  shows "\<exists>ms. gw_detect rt (request_body req) (request_channel req)
        (redact_ctx (recipient_id req) (rs_principalIsSole (buildFilterRecipients env req))) = Inr ms
    \<and> cs_sendBody c = rr_content (apply_redaction (request_body req) ms (request_channel req))
    \<and> cs_redactedBody c = cs_sendBody c"
proof -
  let ?ctx = "redact_ctx (recipient_id req) (rs_principalIsSole (buildFilterRecipients env req))"
  obtain r1 g1 where 1: "gw_redact env rt (request_body req) (request_channel req) ?ctx g = (r1, g1)" by force
  show ?thesis
  proof (cases r1)
    case (Inl e)
    with 1 assms show ?thesis by (simp add: tier_content_def Let_def)
  next
    case (Inr r)
    then obtain ms where ms: "gw_detect rt (request_body req) (request_channel req) ?ctx = Inr ms"
        "r = apply_redaction (request_body req) ms (request_channel req)"
      using gw_redact_content 1 by blast
    have "cs_sendBody c = rr_content r \<and> cs_redactedBody c = cs_sendBody c"
      using assms 1 Inr by (auto simp: tier_content_def Let_def split: prod.splits sum.splits option.splits)
    with ms show ?thesis by blast
  qed
qed


section \<open>Held and blocked sends are reported\<close>

definition reports :: "gateway \<Rightarrow> gateway \<Rightarrow> bool" where
  "reports g g' \<longleftrightarrow> (\<exists>e. EvReport e \<in> set (drop (length (gw_trace g)) (gw_trace g')))"

lemma reports_report:
  assumes "\<forall>e. ge_accepts env (EvReport e)" "adds P g g1"
  shows "reports g (queueBlockReport env s c p g1)" "reports g (queueApprovalMention env r d t co g1)"
  using assms by (auto simp: reports_def queueBlockReport_def queueApprovalMention_def gw_publish_def happens_def adds_def)

lemma reports_more: "reports g g1 \<Longrightarrow> adds P g g1 \<Longrightarrow> adds Q g1 g2 \<Longrightarrow> reports g g2"
  by (auto simp: reports_def adds_def)

lemma reports_later: "adds P g g1 \<Longrightarrow> reports g1 g2 \<Longrightarrow> adds Q g1 g2 \<Longrightarrow> reports g g2"
  by (auto simp: reports_def adds_def)

lemma raised_reports:
  assumes "\<forall>e. ge_accepts env (EvReport e)" "raiseSendApproval env req recipe t opts ls p da ra g = (Some x, g')"
  shows "reports g g'"
proof -
  obtain i g1 where f: "fresh_id env g = (i, g1)" by force
  then have tr: "gw_trace g1 = gw_trace g" by (auto simp: fresh_id_def)
  let ?row = "pending_approval env recipe t (go_conversationId opts) i da"
  let ?g3 = "happens (EvDisplay \<lparr>dy_shortRef = i, dy_preamble = js_or (sx_description recipe) p, dy_extraLines = ls,
      dy_number = ge_approvalNumber env i\<rparr>) (happens (EvApproval ?row) g1)"
  let ?g4 = "queueApprovalMention env i (sx_description recipe) t (go_conversationId opts) ?g3"
  have a: "adds (\<lambda>_. True) g ?g3" using tr by (simp add: adds_def happens_def list_all_iff)
  have 4: "reports g ?g4" by (rule reports_report(2) [OF assms(1) a])
  have a4: "adds (\<lambda>_. True) g ?g4"
    using a by (auto simp: queueApprovalMention_def intro: adds_trans adds_publish)
  have "reports g (gw_publish env e ?g4)" for e
    by (rule reports_more [OF 4 a4 adds_publish]) simp
  with 4 show ?thesis
    using assms(2) f by (auto simp: raiseSendApproval_def Let_def split: if_splits)
qed

lemma hold_reports:
  assumes acc: "\<forall>e. ge_accepts env (EvReport e)"
  shows "reports g (snd (act_on_hold env opts a reason fs ra g))"
proof (cases "hold_recipe opts ra")
  case None
  then show ?thesis
    using reports_report(1) [OF acc adds_refl] by (simp add: act_on_hold_def Let_def)
next
  case (Some rec)
  show ?thesis
  proof (cases "truthy_text (go_taskEventId opts)")
    case None
    with Some show ?thesis
      using reports_report(1) [OF acc adds_refl] by (simp add: act_on_hold_def Let_def)
  next
    case (Some task)
    let ?r = "raiseSendApproval env (va_request a) rec task opts
                      (if ra \<noteq> None then alsoHeld fs else [''Held by the send review: '' @ reason])
                      (map_option (\<lambda>r. ask_question r (va_requester a)) ra)
                      (Option.bind ra (\<lambda>r. disclosureAskFor r (go_conversationId opts) (va_requester a))) ra g"
    have q: "silent is_notice g (snd ?r)" by (rule silent_raise) simp
    then have "reports g (queueBlockReport env s c p (snd ?r))" for s c p
      using reports_report(1) [OF acc] by (auto simp: silent_def)
    moreover have "fst ?r = Some x \<Longrightarrow> reports g (snd ?r)" for x
      using raised_reports [OF acc] by (metis prod.collapse)
    ultimately show ?thesis
      using Some \<open>hold_recipe opts ra = Some rec\<close>
      by (auto simp: act_on_hold_def Let_def split_beta split: option.splits)
  qed
qed

lemma grows_hold: "adds is_notice g (snd (act_on_hold env opts a reason fs ra g))"
proof -
  have "silent is_notice g (snd (act_on_hold env opts a reason fs ra g))"
    using silent_raise [OF silent_refl]
    by (auto simp: act_on_hold_def Let_def split_beta split: option.splits intro!: silent_intros)
  then show ?thesis unfolding silent_def by blast
qed


section \<open>No notice about a notice\<close>

lemma unreviewed_no_report:
  assumes "pass_gates notify env req opts g = (Inr cl, g')" "\<not> band_review_runs env req opts"
  shows "cl_review cl = no_review"
  using assms unfolding pass_gates_def by (auto simp: gate_then_Inr review_gate_def)

lemma system_relay: "so_isSystemNotification opts \<Longrightarrow> relay_gate notify env req opts c g = (Inr None, g)"
  by (simp add: relay_gate_def relay_originator_def budgetedOriginator_def send_options.defs split: option.split)

text \<open>
  The recursion of a send through its own notices ends after one level: a system notification never
  calls for a notice, so it is the same send whatever the inner call is.
\<close>

theorem system_send_ignores_notify:
  assumes "so_isSystemNotification opts"
  shows "send_with notify env req opts g = send_with notify' env req opts g"
proof -
  have "relay_gate notify env req opts = relay_gate notify' env req opts"
    by (intro ext) (simp add: system_relay [OF assms])
  then have gates: "pass_gates notify env req opts = pass_gates notify' env req opts"
    by (simp add: pass_gates_def)
  have "\<not> band_review_runs env req opts" using assms by (simp add: band_review_runs_def)
  then have "gw_deliver notify env req opts cl g1 = gw_deliver notify' env req opts cl g1"
    if "pass_gates notify' env req opts g = (Inr cl, g1)" for cl g1
    using unreviewed_no_report [OF that] by (simp add: gw_deliver_def after_wire_def Let_def no_review_def split_beta)
  then show ?thesis by (auto simp: send_with_def gates split: prod.split sum.split)
qed

end
