(* ===== verification/GatewayQueue.thy ===== *)
theory GatewayQueue
  imports GatewaySafety
begin

text \<open>
  The queue for a channel that is down: a flush calls the transport for the live rows of its channel in
  the order they were enqueued, up to the first failure, and takes exactly the delivered rows out; a
  message that was queued goes out with the first flush that the channel lets through; over any history
  of sends and flushes no channel holds more rows than its cap.
\<close>

section \<open>The calls of the transports\<close>

definition wired :: "gateway \<Rightarrow> send_request list" where
  "wired g = List.map_filter (\<lambda>e. case e of EvWire w \<Rightarrow> Some w | _ \<Rightarrow> None) (gw_trace g)"

lemma wired_happens: "wired (happens e g) = wired g @ (case e of EvWire w \<Rightarrow> [w] | _ \<Rightarrow> [])"
  by (cases e) (simp_all add: wired_def happens_def map_filter_def)

lemma wired_same: "gw_trace g' = gw_trace g \<Longrightarrow> wired g' = wired g"
  by (simp add: wired_def)

lemma wired_quiet:
  assumes "silent not_wire g g'"
  shows "wired g' = wired g" "gw_queue g' = gw_queue g"
proof -
  obtain es where es: "gw_trace g' = gw_trace g @ es" "list_all not_wire es"
    using assms by (auto simp: silent_def adds_def)
  have "List.map_filter (\<lambda>e. case e of EvWire w \<Rightarrow> Some w | _ \<Rightarrow> None) es = []"
    using es(2) by (induction es) (auto simp: map_filter_def split: gw_event.splits)
  with es(1) show "wired g' = wired g" by (simp add: wired_def map_filter_def)
qed (use assms in \<open>simp add: silent_def\<close>)

text \<open>A transport is called at most once, and a success is a call.\<close>

lemma dispatch_calls:
  "snd (dispatch env req g) = happens (EvWire req) g \<and> os_queued (fst (dispatch env req g)) = False
   \<or> snd (dispatch env req g) = g \<and> \<not> os_success (fst (dispatch env req g)) \<and> os_queued (fst (dispatch env req g)) = False"
  by (cases req)
    (auto simp: dispatchEmail_def dispatchSignal_def dispatchSlack_def dispatchSms_def deliver_web_def refused_def
      succeeded_def send_failed_def sent_as_def Let_def split: option.split sum.split sms_error.split prod.split)

lemma dispatch_wired:
  assumes "dispatch_flushed env row g = (r, g')"
  shows "gw_queue g' = gw_queue g"
    and "wired g' = wired g @ [qr_payload row] \<or> \<not> os_success r \<and> wired g' = wired g"
  using assms dispatch_calls [of env "qr_payload row" g]
  by (auto simp: dispatch_flushed_def refused_def wired_happens split: send_request.splits)

section \<open>Flushing\<close>

lemma deleteByIds_append: "deleteByIds (xs @ ys) rows = deleteByIds ys (deleteByIds xs rows)"
  by (simp add: deleteByIds_def conj_commute)

lemma deleteByIds_cons: "deleteByIds xs (deleteByIds [x] rows) = deleteByIds (x # xs) rows"
  using deleteByIds_append [of "[x]" xs rows] by simp

definition flushed :: "queue_row list \<Rightarrow> nat \<Rightarrow> gateway \<Rightarrow> gateway \<Rightarrow> bool" where
  "flushed rows n g g' \<longleftrightarrow>
     n \<le> length rows \<and> gw_queue g' = deleteByIds (map qr_id (take n rows)) (gw_queue g)
     \<and> (wired g' = wired g @ map qr_payload (take n rows)
        \<or> n < length rows \<and> wired g' = wired g @ map qr_payload (take (n + 1) rows))"

lemma flush_rows_flushed: "flush_rows env channel rows g = (n, g') \<Longrightarrow> flushed rows n g g'"
proof (induction rows arbitrary: g n g')
  case Nil
  then show ?case by (simp add: flushed_def deleteByIds_def)
next
  case (Cons row rows)
  obtain r g1 where d: "dispatch_flushed env row g = (r, g1)" by force
  note w = dispatch_wired [OF d]
  show ?case
  proof (cases "os_success r")
    case False
    then have "n = 0 \<and> gw_trace g' = gw_trace g1 \<and> gw_queue g' = gw_queue g1"
      using Cons.prems d by (auto simp: scheduleFlushRetry_def split: if_splits)
    with w wired_same [of g' g1] show ?thesis by (auto simp: flushed_def deleteByIds_def)
  next
    case True
    let ?g2 = "g1\<lparr>gw_queue := deleteByIds [qr_id row] (gw_queue g1)\<rparr>"
    let ?g4 = "gw_publish env (EvDelivered (flushed_event env row r)) (promote_flushed env (qr_payload row) ?g2)"
    obtain m where m: "flush_rows env channel rows ?g4 = (m, g')" "n = m + 1"
      using Cons.prems d True by (auto simp: Let_def split: prod.splits)
    have q: "silent not_wire ?g2 ?g4"
      by (intro silent_publish silent_promote_flushed) simp
    have "wired ?g4 = wired g @ [qr_payload row]" "gw_queue ?g4 = deleteByIds [qr_id row] (gw_queue g)"
      using wired_quiet [OF q] w True wired_same [of ?g2 g1] by auto
    with Cons.IH [OF m(1)] m(2) show ?thesis
      by (auto simp: flushed_def deleteByIds_cons)
  qed
qed

lemma pending_of_kept:
  "listPending channel now rows = (pending, kept) \<Longrightarrow>
     pending = sort_key qr_enqueuedAt (filter (\<lambda>r. qr_channel r = channel \<and> now \<le> qr_expiresAt r) kept)"
  by (auto simp: listPending_def Let_def)

lemma deleteByIds_rows:
  assumes "distinct (map qr_id kept)" "set done_rows \<subseteq> set kept"
  shows "deleteByIds (map qr_id done_rows) kept = filter (\<lambda>r. r \<notin> set done_rows) kept"
  unfolding deleteByIds_def
proof (rule filter_cong [OF refl])
  fix r assume "r \<in> set kept"
  with assms show "qr_id r \<notin> set (map qr_id done_rows) \<longleftrightarrow> r \<notin> set done_rows"
    by (auto simp: distinct_map inj_on_def)
qed


section \<open>A queued message goes out\<close>

lemma enqueue_adds_row:
  "enqueue cfg down now i req rows = Inr rows' \<Longrightarrow>
     \<exists>row \<in> set rows'. qr_payload row = req \<and> qr_channel row = request_channel req \<and> qr_expiresAt row = now + snd cfg"
  by (auto simp: enqueue_def Let_def split: if_splits)

lemma enqueued_queue:
  assumes "enqueueInsteadOfDrop env req g = (r, g')"
  shows "\<not> os_queued r \<and> gw_queue g' = gw_queue g
    \<or> (\<exists>cfg i. ge_queue env = Some cfg
          \<and> enqueue cfg (ge_queueDown env) (ge_now env) i req (gw_queue g) = Inr (gw_queue g'))"
proof (cases "ge_queue env")
  case None
  with assms show ?thesis by (auto simp: enqueueInsteadOfDrop_def refused_def succeeded_def)
next
  case (Some cfg)
  obtain i g1 where f: "fresh_id env g = (i, g1)" by force
  then have q: "gw_queue g1 = gw_queue g" by (auto simp: fresh_id_def)
  show ?thesis
  proof (cases "enqueue cfg (ge_queueDown env) (ge_now env) i req (gw_queue g)")
    case (Inl e)
    with assms Some f q show ?thesis
      by (cases e) (auto simp: enqueueInsteadOfDrop_def refused_def succeeded_def)
  next
    case (Inr rows)
    with assms Some f q show ?thesis by (auto simp: enqueueInsteadOfDrop_def)
  qed
qed

lemma queued_row:
  assumes "dispatchOrEnqueue env req g = (r, g')" "os_queued r"
  shows "\<exists>row \<in> set (gw_queue g'). qr_payload row = req \<and> qr_channel row = request_channel req
    \<and> (\<exists>cfg. ge_queue env = Some cfg \<and> qr_expiresAt row = ge_now env + snd cfg)"
proof -
  have e: "\<exists>row \<in> set (gw_queue h'). qr_payload row = req \<and> qr_channel row = request_channel req
      \<and> (\<exists>cfg. ge_queue env = Some cfg \<and> qr_expiresAt row = ge_now env + snd cfg)"
    if "enqueueInsteadOfDrop env req h = (x, h')" "os_queued x" for h x h'
    using enqueued_queue [OF that(1)] that(2) enqueue_adds_row by metis
  have d: "\<not> os_queued x" if "dispatch env req h = (x, h')" for x h h'
    using that dispatch_calls [of env req h] by auto
  show ?thesis
    using assms d
    by (auto simp: dispatchOrEnqueue_def Let_def scheduleFlushRetry_def split: if_splits prod.splits dest!: e)
qed

lemma flush_all:
  assumes "flush_rows env channel rows g = (n, g')" "\<And>row h. row \<in> set rows \<Longrightarrow> os_success (fst (dispatch_flushed env row h))"
  shows "n = length rows"
  using assms
proof (induction rows arbitrary: g n)
  case (Cons row rows)
  obtain r g1 where d: "dispatch_flushed env row g = (r, g1)" by force
  then have "os_success r" using Cons.prems(2) [of row g] by simp
  with d Cons show ?case by (auto simp: Let_def split: prod.splits)
qed simp


section \<open>The size of the queue\<close>

definition queue_ok :: "nat \<Rightarrow> queue_row list \<Rightarrow> bool" where
  "queue_ok cap rows \<longleftrightarrow>
     (\<forall>row \<in> set rows. qr_channel row = request_channel (qr_payload row) \<and> qr_channel row \<noteq> ''web'')
     \<and> (\<forall>channel. length (filter (\<lambda>row. qr_channel row = channel) rows) \<le> cap)"

lemma queue_ok_filter:
  assumes "queue_ok cap rows"
  shows "queue_ok cap (filter P rows)"
proof -
  have swap: "filter Q (filter P rows) = filter P (filter Q rows)" for Q
    by (simp add: conj_commute)
  have "length (filter Q (filter P rows)) \<le> length (filter Q rows)" for Q
    unfolding swap by (rule length_filter_le)
  then show ?thesis
    using assms unfolding queue_ok_def by (meson filter_is_subset order_trans subsetD)
qed

lemma enqueue_ok:
  assumes "enqueue cfg down now i req rows = Inr rows'" "fst cfg \<le> cap" "request_channel req \<noteq> ''web''" "queue_ok cap rows"
  shows "queue_ok cap rows'"
proof -
  let ?ch = "request_channel req" and ?pruned = "deleteExpired (request_channel req) now rows"
  have ok: "queue_ok cap ?pruned"
    using assms(4) unfolding deleteExpired_def by (rule queue_ok_filter)
  have "filter (\<lambda>r. qr_channel r = ?ch \<and> now \<le> qr_expiresAt r) ?pruned = filter (\<lambda>r. qr_channel r = ?ch) ?pruned"
    by (rule filter_cong) (auto simp: deleteExpired_def)
  then have "length (filter (\<lambda>r. qr_channel r = ?ch) ?pruned) < fst cfg"
    using assms(1) by (auto simp: enqueue_def countPending_def Let_def split: if_splits)
  with ok assms(1-3) show ?thesis
    by (auto simp: enqueue_def queue_ok_def Let_def split: if_splits)
qed

definition keeps_queue :: "gateway_env \<Rightarrow> nat \<Rightarrow> gateway \<Rightarrow> gateway \<Rightarrow> bool" where
  "keeps_queue env cap g g' \<longleftrightarrow>
     (\<forall>cfg. ge_queue env = Some cfg \<longrightarrow> fst cfg \<le> cap) \<longrightarrow> queue_ok cap (gw_queue g) \<longrightarrow> queue_ok cap (gw_queue g')"

lemma keeps_same: "gw_queue g' = gw_queue g \<Longrightarrow> keeps_queue env cap g g'"
  by (simp add: keeps_queue_def)

lemma keeps_enqueue:
  assumes "request_channel req \<noteq> ''web''" "gw_queue g1 = gw_queue g"
  shows "keeps_queue env cap g (snd (enqueueInsteadOfDrop env req g1))"
  using enqueued_queue [of env req g1] enqueue_ok [OF _ _ assms(1)] assms(2)
  by (cases "enqueueInsteadOfDrop env req g1") (fastforce simp: keeps_queue_def)

lemma keeps_put: "keeps_queue env cap g (snd (put_on_wire env req g))"
proof (cases "\<exists>m. req = WebReq m")
  case True
  then show ?thesis
    using dispatch_calls [of env req g] by (auto simp: put_on_wire_def intro!: keeps_same)
next
  case False
  then have nw: "request_channel req \<noteq> ''web''" by (cases req) auto
  have d: "gw_queue (snd (dispatch env req g)) = gw_queue g"
    using dispatch_calls [of env req g] by auto
  have "keeps_queue env cap g (snd (dispatchOrEnqueue env req g))"
    using d keeps_enqueue [OF nw d, of env cap] keeps_enqueue [OF nw refl [of "gw_queue g"], of env cap]
    by (auto simp: dispatchOrEnqueue_def scheduleFlushRetry_def Let_def keeps_queue_def split: prod.splits)
  with False show ?thesis by (cases req) (simp_all add: put_on_wire_def)
qed

interpretation bounded: send_steps env "keeps_queue env cap" "\<lambda>_ _. True" for env cap
proof
  fix req opts cl g show "keeps_queue env cap g (snd (put_on_wire env (to_send env req opts cl) g))"
    by (rule keeps_put)
next
  fix req opts cl g show "keeps_queue env cap g (promote_sent env req (to_send env req opts cl) g)"
    by (rule keeps_same) (rule wired_quiet [OF silent_promote_sent])
qed (auto simp: keeps_queue_def silent_def)

text \<open>
  The calls the rest of the program makes, each with what the environment looks like then. The cap is
  read once, when the process starts.
\<close>

datatype gateway_call =
    CallSend gateway_env send_request gateway_options
  | CallFlush gateway_env string
  | CallRetry gateway_env string

definition at_cap :: "nat \<Rightarrow> gateway_env \<Rightarrow> gateway_env" where
  "at_cap cap env = env\<lparr>ge_queue := map_option (\<lambda>cfg. (cap, snd cfg)) (ge_queue env)\<rparr>"

fun gateway_step :: "nat \<Rightarrow> gateway \<Rightarrow> gateway_call \<Rightarrow> gateway" where
  "gateway_step cap g (CallSend env req opts) = snd (send (at_cap cap env) req opts g)"
| "gateway_step cap g (CallFlush env channel) = snd (flushChannel (at_cap cap env) channel g)"
| "gateway_step cap g (CallRetry env channel) = snd (fireRetry (at_cap cap env) channel g)"

lemma flush_ok:
  assumes "queue_ok cap (gw_queue g)"
  shows "queue_ok cap (gw_queue (snd (flushChannel env channel g)))"
proof -
  have "queue_ok cap (gw_queue g')"
    if "flush_rows env channel rows (g\<lparr>gw_queue := deleteExpired channel now (gw_queue g)\<rparr>) = (n, g')" for rows now n g'
    using flush_rows_flushed [OF that] assms
    by (simp add: flushed_def deleteByIds_def deleteExpired_def queue_ok_filter)
  with assms show ?thesis
    by (auto simp: flushChannel_def listPending_def Let_def split: prod.splits)
qed

interpretation gateways: machine "gateway_step cap" "\<lambda>g. queue_ok cap (gw_queue g)" "\<lambda>g. gw_queue g = []" for cap
proof
  fix g :: gateway and call assume "queue_ok cap (gw_queue g)"
  then show "queue_ok cap (gw_queue (gateway_step cap g call))"
  proof (cases call)
    case (CallSend env req opts)
    have "keeps_queue (at_cap cap env) cap g (snd (send (at_cap cap env) req opts g))"
      by (rule bounded.sent) simp_all
    with CallSend \<open>queue_ok cap (gw_queue g)\<close> show ?thesis by (auto simp: keeps_queue_def at_cap_def)
  qed (auto simp: fireRetry_def intro: flush_ok)
qed (simp add: queue_ok_def)

text \<open>
  C16. Whatever sends, flushes and fired timers the process goes through, in any order and with any
  failures, no channel has more rows in the queue than the cap, each row is filed under the channel of its
  message, and a message for the phone app is never queued.
\<close>

theorem queue_stays_bounded:
  fixes cap :: nat and calls :: "gateway_call list"
  assumes "gw_queue g = []"
  defines "g' \<equiv> run_steps (gateway_step cap) g calls"
  shows "length (filter (\<lambda>row. qr_channel row = channel) (gw_queue g')) \<le> cap
    \<and> (\<forall>row \<in> set (gw_queue g'). qr_channel row = request_channel (qr_payload row) \<and> qr_channel row \<noteq> ''web'')"
  using gateways.inv_run [OF assms(1), of cap calls] unfolding g'_def queue_ok_def by blast

end
