(* ===== verification/GatewayContacts.thy ===== *)
theory GatewayContacts
  imports GatewayQueue
begin

text \<open>
  What a send does to contacts: an address is recorded as a participant of a reply, verified or raised
  only on grounds the lookups confirm.
\<close>

section \<open>Grounds\<close>

text \<open>
  \<open>V\<close> says which address and name the send vouches for. A new identity counts as a participant, and an
  existing one is verified, only for such an address and only when no other contact is likely the same.
\<close>

definition verifiable :: "gateway_env \<Rightarrow> string \<Rightarrow> string option \<Rightarrow> string \<Rightarrow> bool" where
  "verifiable env address name i \<longleftrightarrow>
     (\<exists>c rows row. ge_resolve env ''email'' address = Inr (Some c) \<and> rc_tier c \<noteq> TBlocked
        \<and> ge_identities env (rc_contactId c) = Inr rows \<and> row \<in> set rows \<and> ci_id row = i
        \<and> ci_channel row = ''email'' \<and> js_lower (ci_identifier row) = js_lower address
        \<and> ci_source row = ''outbound_recipient'' \<and> ci_active row \<and> \<not> ci_verified row
        \<and> clears_duplicates env address name (Some (rc_contactId c)))"

fun grounded :: "gateway_env \<Rightarrow> (string \<Rightarrow> string option \<Rightarrow> bool) \<Rightarrow> gw_event \<Rightarrow> bool" where
  "grounded env V (EvContact (LinkIdentity cid channel address EmailParticipant)) =
     (channel = ''email'' \<and> (\<exists>name. V address name \<and> clears_duplicates env address name None))"
| "grounded env V (EvContact (VerifyIdentity i)) = (\<exists>address name. V address name \<and> verifiable env address name i)"
| "grounded env V (EvContact (ElevateTier k)) =
     (\<exists>channel address c. ge_resolve env channel address = Inr (Some c) \<and> rc_contactId c = k \<and> rc_tier c = TUnknown)"
| "grounded env V _ = True"

lemma notice_grounded: "is_notice e \<Longrightarrow> grounded env V e"
  by (cases e) simp_all

lemma grounded_sent: "adds (grounded env V) g g' \<Longrightarrow> adds (grounded env V) g (message_sent env c g')"
  by (auto simp: message_sent_def gw_publish_def happens_def adds_def)

lemma grounded_publish:
  "grounded env V e \<Longrightarrow> adds (grounded env V) g g' \<Longrightarrow> adds (grounded env V) g (gw_publish env e g')"
  by (auto simp: gw_publish_def happens_def adds_def)

lemma grounded_happens:
  "grounded env V e \<Longrightarrow> adds (grounded env V) g g' \<Longrightarrow> adds (grounded env V) g (happens e g')"
  by (auto simp: happens_def adds_def)

lemma grounded_fresh: "fresh_id env g = (i, g') \<Longrightarrow> adds P h g \<Longrightarrow> adds P h g'"
  by (auto simp: fresh_id_def adds_def)

lemma verify_grounded:
  assumes "V address name" "ge_resolve env ''email'' address = Inr (Some c)" "rc_tier c \<noteq> TBlocked"
  shows "adds (grounded env V) g (verifyExistingReplyRecipient env (rc_contactId c) ''email'' address name g)"
proof (cases "ge_identities env (rc_contactId c)")
  case (Inr rows)
  let ?P = "\<lambda>r. ci_channel r = ''email'' \<and> js_lower (ci_identifier r) = js_lower address
      \<and> ci_source r = ''outbound_recipient'' \<and> ci_active r \<and> \<not> ci_verified r"
  show ?thesis
  proof (cases "find ?P rows")
    case (Some row)
    then have "row \<in> set rows" "?P row" by (auto simp: find_Some_iff)
    then have "clears_duplicates env address name (Some (rc_contactId c)) \<Longrightarrow> verifiable env address name (ci_id row)"
      unfolding verifiable_def using assms(2,3) Inr by blast
    then have v: "clears_duplicates env address name (Some (rc_contactId c)) \<Longrightarrow>
        grounded env V (EvContact (VerifyIdentity (ci_id row)))"
      using assms(1) unfolding grounded.simps by blast
    show ?thesis
      by (simp add: verifyExistingReplyRecipient_def Inr Some grounded_publish [OF v])
  qed (simp add: verifyExistingReplyRecipient_def Inr)
qed (simp add: verifyExistingReplyRecipient_def)

lemma promote_grounded:
  assumes "src = Some EmailParticipant \<Longrightarrow> channel = ''email'' \<and> V address (truthy_text (map_option js_trim name))"
  shows "adds (grounded env V) g (promoteOrCreateRecipientContact env channel address src name g)"
proof (cases "ge_resolve env channel address")
  case (Inr found)
  let ?name = "truthy_text (map_option js_trim name)"
  show ?thesis
  proof (cases found)
    case None
    let ?src = "if js_or OutboundRecipient src = EmailParticipant \<and> \<not> clears_duplicates env address ?name None
                then OutboundRecipient else js_or OutboundRecipient src"
    let ?create = "EvContact (CreateContact address ?src)"
    have link: "grounded env V (EvContact (LinkIdentity cid channel address ?src))" for cid
      using assms by (cases src; cases "?src") (auto simp: js_or_def split: if_splits)
    have create: "adds (grounded env V) g (happens ?create g)" by (rule grounded_happens) simp_all
    obtain cid g1 where f: "fresh_id env (happens ?create g) = (cid, g1)" by force
    have 1: "adds (grounded env V) g g1" by (rule grounded_fresh [OF f create])
    have "adds (grounded env V) g (happens (EvContact (LinkIdentity cid channel address ?src)) g1)"
      by (rule grounded_happens [OF link 1])
    from grounded_sent [OF this] 1 show ?thesis
      using Inr None f by (simp add: promoteOrCreateRecipientContact_def Let_def)
  next
    case (Some c)
    let ?g1 = "if js_or OutboundRecipient src = EmailParticipant
               then verifyExistingReplyRecipient env (rc_contactId c) channel address ?name g else g"
    have 1: "adds (grounded env V) g ?g1" if "rc_tier c \<noteq> TBlocked"
      using assms verify_grounded [OF _ _ that] Inr Some by (cases src) (auto simp: js_or_def)
    have "grounded env V (EvContact (ElevateTier (rc_contactId c)))" if "rc_tier c = TUnknown"
      using that Inr Some by auto
    then have "adds (grounded env V) g
        (if rc_tier c = TUnknown then gw_publish env (EvContact (ElevateTier (rc_contactId c))) ?g1 else ?g1)"
      if "rc_tier c \<noteq> TBlocked"
      using 1 [OF that] by (auto intro: grounded_publish)
    then show ?thesis
      using Inr Some by (auto simp: promoteOrCreateRecipientContact_def Let_def intro: grounded_sent)
  qed
qed (simp add: promoteOrCreateRecipientContact_def Let_def)

section \<open>Sends\<close>

lemma put_grounded: "adds (grounded env V) g (snd (put_on_wire env req g))"
proof -
  have "adds (grounded env V) g (happens (EvWire req) g)"
    by (rule grounded_happens) simp_all
  then have d: "adds (grounded env V) g (snd (dispatch env req g))"
    using dispatch_calls [of env req g] by auto
  have e: "gw_trace (snd (enqueueInsteadOfDrop env req h)) = gw_trace h" for h
    by (auto simp: enqueueInsteadOfDrop_def fresh_id_def split: option.splits sum.splits queue_error.splits prod.splits)
  have "adds (grounded env V) g (snd (dispatchOrEnqueue env req g))"
    using d e [of g] e [of "snd (dispatch env req g)"]
    by (auto simp: dispatchOrEnqueue_def scheduleFlushRetry_def Let_def adds_def split: prod.splits)
  with d show ?thesis by (cases req) (simp_all add: put_on_wire_def)
qed

definition vouches :: "send_request \<Rightarrow> gateway_options \<Rightarrow> string \<Rightarrow> string option \<Rightarrow> bool" where
  "vouches req opts address name \<longleftrightarrow>
     (\<exists>e. req = EmailReq e \<and> \<not> em_toFromOwnMessage e \<and> address = em_to e
        \<and> go_recipientSource opts = Some EmailParticipant
        \<and> name = truthy_text (map_option js_trim (go_recipientDisplayName opts)))"

lemma sent_source: "em_recipientSource (email_to_send env e opts cl) = Some EmailParticipant
    \<longleftrightarrow> go_recipientSource opts = Some EmailParticipant"
  by (simp add: email_to_send_def signEmail_def Let_def split: option.split)

lemma sent_own: "em_toFromOwnMessage (email_to_send env e opts cl) = em_toFromOwnMessage e"
  by (simp add: email_to_send_def signEmail_def Let_def split: option.split)

lemma sent_name: "go_recipientSource opts = Some EmailParticipant \<Longrightarrow>
    truthy_text (map_option js_trim (em_recipientDisplayName (email_to_send env e opts cl)))
      = truthy_text (map_option js_trim (go_recipientDisplayName opts))"
  by (cases "go_recipientDisplayName opts") (simp_all add: email_to_send_def truthy_text_def Let_def)

lemma promote_sent_grounded:
  assumes "\<And>a n. vouches req opts a n \<Longrightarrow> V a n"
  shows "adds (grounded env V) g (promote_sent env req (to_send env req opts cl) g)"
proof (cases req)
  case (EmailReq e)
  have "adds (grounded env V) g (promoteOrCreateRecipientContact env ''email'' (em_to e)
      (em_recipientSource (email_to_send env e opts cl)) (em_recipientDisplayName (email_to_send env e opts cl)) g)"
    if "\<not> em_toFromOwnMessage e"
    by (rule promote_grounded) (use that EmailReq in \<open>auto simp: sent_source sent_name vouches_def intro!: assms\<close>)
  with EmailReq show ?thesis by (simp add: promote_sent_def sent_own)
qed (auto simp: promote_sent_def intro: promote_grounded split: option.splits)

interpretation contacts: send_steps env "adds (grounded env V)" "\<lambda>req opts. \<forall>a n. vouches req opts a n \<longrightarrow> V a n"
  for env V
proof
  fix g g' assume "silent is_notice g g'"
  then show "adds (grounded env V) g g'"
    unfolding silent_def by (blast intro: adds_mono notice_grounded)
qed (auto intro: adds_trans put_grounded promote_sent_grounded grounded_publish)

text \<open>
  C15. A send records an address as a reply participant, or verifies an existing identity, only when its
  options claim that source, the mail is not addressed from Curia's own message, the address is the
  one the mail goes to, and the duplicate check was made with the claimed name and found nobody else;
  a verified identity was an active, unverified one of a contact who is not blocked. It raises only
  contacts whose tier was unknown.
\<close>

theorem contacts_change_on_grounds:
  assumes "e \<in> set (drop (length (gw_trace g)) (gw_trace (snd (send env req opts g))))"
  shows "grounded env (vouches req opts) e"
proof -
  have "\<not> vouches n (system_options t c) a nm" for n t c a nm
    by (simp add: vouches_def system_options_def no_options_def)
  then have "adds (grounded env (vouches req opts)) g (snd (send env req opts g))"
    by (intro contacts.sent) simp_all
  with assms show ?thesis by (auto simp: adds_def list_all_iff)
qed

end
