(* ===== verification/GatewayDemos.thy ===== *)
theory GatewayDemos
  imports GatewayDisclosure GatewayContacts BandDemos
begin

text \<open>Concrete sends at which the statements about the gateway apply.\<close>

declare exec_loop.simps [code]

definition demo_redactor :: redactor where
  "demo_redactor =
     \<lparr>rt_config = \<lparr>rg_enabled = True, rg_default = BlockPii, rg_policies = []\<rparr>,
      rt_find = (\<lambda>t. case detectPii [demo_pattern] t of None \<Rightarrow> Inl () | Some ms \<Rightarrow> Inr ms)\<rparr>"

definition demo_gateway_env :: gateway_env where
  "demo_gateway_env =
     \<lparr>ge_now = 1000, ge_uuid = (\<lambda>n. ''u'' @ nat_text n), ge_num = (\<lambda>_. ''n''), ge_accepts = (\<lambda>_. True),
      ge_autonomy = Some (Inr (Some \<lparr>as_score = num_int 85, as_gating = None\<rparr>)), ge_gating = TierGating,
      ge_review = None, ge_reviewThrows = (\<lambda>_. False), ge_principals = [], ge_accounts = [], ge_signalNumber = None,
      ge_resolve = (\<lambda>_ _. Inr None), ge_contact = (\<lambda>_. Inr None), ge_identities = (\<lambda>_. Inr []),
      ge_duplicates = (\<lambda>_ _ _. Inr False), ge_identityGate = IdentityOff, ge_entities = None,
      ge_unresolvedIdentity = (\<lambda>_ _ _. None), ge_blankPhrases = (\<lambda>s _. s), ge_nameTokens = (\<lambda>_. []),
      ge_persona = None, ge_signature = None, ge_stripSignOff = (\<lambda>s. s), ge_endsWithSignature = (\<lambda>_. False),
      ge_exports = None, ge_redactor = Some demo_redactor, ge_scrubPii = (\<lambda>s. s), ge_filter = (\<lambda>_. Inr (True, [])),
      ge_actionLog = True, ge_approvalNumber = (\<lambda>_. None), ge_confidence = False, ge_nylas = [],
      ge_html = (\<lambda>b _. b), ge_readFiles = (\<lambda>_. Inr []), ge_signal = None, ge_slack = None, ge_mrkdwn = (\<lambda>s. s),
      ge_sms = Some (\<lambda>_. Inr ''m1''), ge_web = None, ge_readiness = [], ge_queue = None, ge_queueDown = False\<rparr>"

definition demo_gateway :: gateway where
  "demo_gateway =
     \<lparr>gw_relay = None, gw_band = demo_state, gw_queue = [], gw_retry = [], gw_trace = [], gw_ids = 0\<rparr>"

definition demo_text :: "string \<Rightarrow> send_request" where
  "demo_text body = SmsReq \<lparr>sm_recipient = ''+1'', sm_message = body\<rparr>"

definition demo_clears :: "gateway_env \<Rightarrow> send_request \<Rightarrow> gateway_options \<Rightarrow> (cleared \<Rightarrow> bool) \<Rightarrow> bool" where
  "demo_clears env req opts P =
     (case fst (pass_gates (system_send env) env req opts demo_gateway) of Inl _ \<Rightarrow> False | Inr cl \<Rightarrow> P cl)"

lemma demo_clearsE:
  assumes "demo_clears env req opts P"
  obtains cl g' where "pass_gates (system_send env) env req opts demo_gateway = (Inr cl, g')" "P cl"
  using assms by (cases "pass_gates (system_send env) env req opts demo_gateway") (auto simp: demo_clears_def split: sum.splits)

lemma demo_finds: "finds demo_redactor [demo_pattern]"
  using demo_moving detection_returns_spans_aux [of "[demo_pattern]"]
  by (fastforce simp: finds_def demo_redactor_def)

lemma demo_clear: "demo_clears demo_gateway_env (demo_text ''a1b'') no_options (\<lambda>_. True)"
  by code_simp

lemma demo_out: "newly_out demo_gateway (snd (send demo_gateway_env (demo_text ''a1b'') no_options demo_gateway))
    (demo_text ''a[REDACTED: DIGIT]b'')"
proof -
  have "EvWire (demo_text ''a[REDACTED: DIGIT]b'')
      \<in> set (gw_trace (snd (send demo_gateway_env (demo_text ''a1b'') no_options demo_gateway)))"
    by code_simp
  then show ?thesis by (simp add: newly_out_def demo_gateway_def)
qed



text \<open>The same text under the band review, with the principal's yes for the detail and without.\<close>

definition demo_band_env :: "review_env \<Rightarrow> gateway_env" where
  "demo_band_env re = demo_gateway_env\<lparr>ge_gating := BandGating, ge_review := Some re\<rparr>"

definition demo_yes_env :: gateway_env where
  "demo_yes_env = demo_band_env (demo_review_env
     (Some [\<lparr>dn_counterparty = ''+1'', dn_label = ''digit'', dn_decision = SaidYes\<rparr>]) demo_directed 100)"

definition demo_options :: gateway_options where
  "demo_options = no_options\<lparr>go_conversationId := Some ''c1''\<rparr>"

lemma demo_raw:
  "demo_clears demo_yes_env (demo_text ''a1b'') demo_options
     (\<lambda>cl. raw_on_wire demo_yes_env (demo_text ''a1b'') demo_options cl \<and> cs_sendBody (cl_content cl) = ''a1b''
        \<and> \<lparr>di_id = ''P1'', di_label = ''digit'', di_text = ''1'', di_field = FieldBody\<rparr> \<in> set (cs_items (cl_content cl)))"
  by code_simp

theorem raw_details_are_authorized_witness:
  "\<exists>re i prior v rs. checked_verdict i (review_asked_of re i prior) = Inr v \<and> rulings_of i v = Some rs
    \<and> ri_content i = ''a1b''
    \<and> item_authorized (review_context re i (review_asked_of re i prior) rs)
        \<lparr>di_id = ''P1'', di_label = ''digit'', di_text = ''1'', di_field = FieldBody\<rparr>
        (ruling_for rs \<lparr>di_id = ''P1'', di_label = ''digit'', di_text = ''1'', di_field = FieldBody\<rparr>)"
proof -
  let ?item = "\<lparr>di_id = ''P1'', di_label = ''digit'', di_text = ''1'', di_field = FieldBody\<rparr>"
  obtain cl g' where p: "pass_gates (system_send demo_yes_env) demo_yes_env (demo_text ''a1b'') demo_options demo_gateway
      = (Inr cl, g')"
    and raw: "raw_on_wire demo_yes_env (demo_text ''a1b'') demo_options cl" and b: "cs_sendBody (cl_content cl) = ''a1b''"
    and i: "?item \<in> set (cs_items (cl_content cl))"
    using demo_raw by (rule demo_clearsE) blast
  from raw_details_are_authorized [OF p raw i] b show ?thesis by auto metis
qed

text \<open>A review that throws holds the send.\<close>

definition demo_held_env :: gateway_env where
  "demo_held_env = (demo_band_env (demo_review_env None demo_directed 100))\<lparr>ge_reviewThrows := (\<lambda>_. True)\<rparr>"

definition demo_args :: review_args where
  "demo_args =
     \<lparr>va_request = demo_text ''a1b'', va_content = ''a1b'', va_auditContent = ''a[D]b'', va_recipients = [''+1''],
      va_principalRecipients = [],
      va_items = [\<lparr>di_id = ''P1'', di_label = ''digit'', di_text = ''1'', di_field = FieldBody\<rparr>], va_tier = None,
      va_tiers = None, va_contactIds = [], va_requester = None, va_subject = None, va_editable = True\<rparr>"


theorem system_send_ignores_notify_witness:
  "send_with no_notice demo_gateway_env (demo_text ''a1b'') (system_options None None) demo_gateway
    = send_with (system_send demo_gateway_env) demo_gateway_env (demo_text ''a1b'') (system_options None None) demo_gateway"
  by (rule system_send_ignores_notify) (simp add: system_options_def)

text \<open>A relay to the principal over a transport that is not configured.\<close>

definition demo_relay_env :: gateway_env where
  "demo_relay_env = demo_gateway_env\<lparr>ge_sms := None,
     ge_principals := [\<lparr>pi_contactId = ''p'', pi_channel = ''sms'', pi_identifier = ''+1'', pi_verified = True,
       pi_active = True\<rparr>]\<rparr>"

definition demo_relay_options :: gateway_options where
  "demo_relay_options = no_options\<lparr>so_originator := Some \<lparr>o_contactId = ''bob'', o_systemRole = None, o_channel = ''sms'',
     o_initiatedAt = [], o_tier = Some TKnown, o_authenticated = True\<rparr>\<rparr>"

definition demo_relay_gateway :: gateway where
  "demo_relay_gateway = demo_gateway\<lparr>gw_relay :=
     Some \<lparr>rb_perHour = 2, rb_stamps = [], rb_notices = [], rb_lastSweepAt = 0\<rparr>\<rparr>"

theorem failed_send_leaves_nothing_witness:
  "same_counts demo_relay_env demo_relay_gateway
     (snd (send demo_relay_env (demo_text ''hi'') demo_relay_options demo_relay_gateway))"
proof -
  have f: "\<not> os_success (fst (send demo_relay_env (demo_text ''hi'') demo_relay_options demo_relay_gateway))"
    by code_simp
  have "budget_ok demo_relay_gateway"
    by (simp add: budget_ok_def demo_relay_gateway_def)
  from failed_send_leaves_nothing [OF f this] show ?thesis by (simp add: demo_relay_options_def no_options_def)
qed

text \<open>A text queued while the transport is down, and the flush when it is back.\<close>

definition demo_down_env :: gateway_env where
  "demo_down_env = demo_gateway_env\<lparr>ge_queue := Some (10, 5000), ge_readiness := [(''sms'', False)]\<rparr>"

definition demo_back_env :: gateway_env where
  "demo_back_env = demo_down_env\<lparr>ge_now := 3000, ge_readiness := [(''sms'', True)]\<rparr>"

definition demo_queued :: gateway where
  "demo_queued = snd (dispatchOrEnqueue demo_down_env (demo_text ''hi'') demo_gateway)"

lemma demo_queued_rows:
  "gw_queue demo_queued = [\<lparr>qr_id = ''u0'', qr_channel = ''sms'', qr_recipient = ''+1'', qr_payload = demo_text ''hi'',
     qr_enqueuedAt = 1000, qr_expiresAt = 6000\<rparr>]"
  by code_simp



theorem queue_stays_bounded_witness:
  "length (filter (\<lambda>row. qr_channel row = ''sms'')
     (gw_queue (run_steps (gateway_step 10) demo_gateway
        [CallSend demo_down_env (demo_text ''hi'') no_options, CallFlush demo_back_env ''sms'']))) \<le> 10"
  by (rule queue_stays_bounded [THEN conjunct1]) (simp add: demo_gateway_def)

text \<open>A reply to a new address, vouched for by the mail it answers.\<close>

definition demo_mail_env :: gateway_env where
  "demo_mail_env = demo_gateway_env\<lparr>ge_nylas :=
     [(''main'', \<lparr>ny_send = (\<lambda>_. Inr (''m1'', None)), ny_getMessage = (\<lambda>_. Inr [])\<rparr>)]\<rparr>"

definition demo_mail :: send_request where
  "demo_mail = EmailReq (plain_email ''a@b.c'' (Some ''hi'') ''hi'' None)"

definition demo_reply_options :: gateway_options where
  "demo_reply_options = no_options\<lparr>go_recipientSource := Some EmailParticipant, go_recipientDisplayName := Some ''Ann''\<rparr>"

theorem contacts_change_on_grounds_witness:
  "vouches demo_mail demo_reply_options ''a@b.c'' (Some ''Ann'')
     \<and> (\<exists>name. vouches demo_mail demo_reply_options ''a@b.c'' name \<and> clears_duplicates demo_mail_env ''a@b.c'' name None)"
proof -
  have "EvContact (LinkIdentity ''u0'' ''email'' ''a@b.c'' EmailParticipant)
      \<in> set (drop (length (gw_trace demo_gateway))
             (gw_trace (snd (send demo_mail_env demo_mail demo_reply_options demo_gateway))))"
    by code_simp
  from contacts_change_on_grounds [OF this] have "grounded demo_mail_env (vouches demo_mail demo_reply_options)
      (EvContact (LinkIdentity ''u0'' ''email'' ''a@b.c'' EmailParticipant))" .
  moreover have "vouches demo_mail demo_reply_options ''a@b.c'' (Some ''Ann'')"
    by (simp add: vouches_def demo_mail_def demo_reply_options_def no_options_def plain_email_def truthy_text_def
        js_trim_def js_space_def)
  ultimately show ?thesis by simp
qed

end
