(* ===== verification/Spec2Isabelle.thy ===== *)
theory Spec2Isabelle
  imports Escalation Autonomy RateLimiter RelayBudget Standing EventBus TurnLanesInv HashChain ContactMergeRun
    Authorization PlanGraphProofs CircuitBreakerProofs TaskClosing SchedulerDemos JudgeBriefProps BandDemos
    ExportControlsProps GatewayDemos
begin

text \<open>
  A verification development for Curia, an assistant that runs in one process: channels deliver
  messages to a dispatcher, the dispatcher turns them into events on an in-process bus, agents run
  as tasks on that bus, and what they send out passes policies on autonomy, standing and disclosure.
  The development models the parts that decide: who may do what, in which order turns run, what the
  audit log proves, and what a merge of two knowledge-graph nodes keeps.

  Parts and theories.

  \<^item> \<open>Prelude\<close>: JavaScript numbers and dynamic values, insertion-ordered maps as association lists,
    strings, and the contract \<open>machine\<close> of a component with an invariant (a step function, a predicate
    that holds of a fresh state and is kept by every step). Each component with state interprets it.
  \<^item> \<open>ContactTypes\<close> (\<open>src/contacts/types.ts\<close> and two rules of \<open>contact-service.ts\<close>): tiers, kinds, roles,
    and the locale \<open>tier_monotone\<close> of a policy that is a cut-off on the tier axis.
  \<^item> \<open>Escalation\<close> (\<open>src/autonomy/escalation-policy.ts\<close>): disclosure and action policy; the judge can
    only tighten.
  \<^item> \<open>Autonomy\<close> (\<open>autonomy-service.ts\<close>): the score, its bands and its history.
  \<^item> \<open>Admission\<close>, \<open>RateLimiter\<close> (\<open>src/dispatch/rate-limiter.ts\<close>), \<open>RelayBudget\<close> (\<open>relay-budget.ts\<close>,
    \<open>band-policy.ts\<close>): the locale of a limiter that answers yes or no at a time, and the bounds of
    each limiter on every interval.
  \<^item> \<open>Uuid\<close>, \<open>Standing\<close> (\<open>src/util/uuid.ts\<close>, \<open>effective-standing.ts\<close>, \<open>live-turn-grants.ts\<close>): which
    standing a task runs with after a wake, and when a live-turn grant is active.
  \<^item> \<open>EventBus\<close> (\<open>src/bus/bus.ts\<close>, \<open>permissions.ts\<close>): subscription, publication, staging; the handlers
    and hooks are parameters over an arbitrary world.
  \<^item> \<open>TurnLanes\<close>, \<open>TurnLanesInv\<close> (\<open>src/dispatch/turn-lanes.ts\<close>): one turn at a time per conversation, with
    follow-ups injected into the running turn. A promise is a number: open tickets and waiters live
    in the lanes, settled ones in a list of outcomes. A run is a list of operations, so every
    interleaving of callers and timers is one.
  \<^item> \<open>Json\<close>, \<open>HashChain\<close> (\<open>src/audit/hash-chain.ts\<close>, \<open>logger.ts\<close>, \<open>scripts/audit-verify.ts\<close>): canonical
    JSON, the entry hash, appending an entry, walking a log. SHA-256 and the printing of numbers are
    parameters.
  \<^item> \<open>KgTypes\<close>, \<open>KgPlanner\<close>, \<open>KgPlannerProofs\<close>, \<open>KgFactOps\<close>, \<open>KgFactOpsProofs\<close>, \<open>KgContacts\<close>, \<open>KgPlan\<close>
    (\<open>src/kg-merge/planner.ts\<close>): the plan of a node merge. The loops that follow the successor of a
    deleted fact are partial functions with \<open>None\<close> for not returning; they are proved to return
    because every fold adds an edge from a live fact to another live one.
  \<^item> \<open>KgResolve\<close> (\<open>resolve.ts\<close>, the folds of \<open>executor.ts\<close>), \<open>ContactFold\<close>, \<open>ContactFoldProofs\<close>
    (\<open>mergeContactRowsInTx\<close> and the in-memory backend of \<open>contact-service.ts\<close>), \<open>ContactMerge\<close>,
    \<open>ContactMergeRun\<close>: from the user's choices to the permissions the surviving contact ends with.

  \<^item> \<open>JsObject\<close>, \<open>Authorization\<close> (\<open>src/contacts/authorization.ts\<close>): which permissions a contact of a
    role has in a context; \<open>authorization_exact\<close> says it without the code's loops.
  \<^item> \<open>IsoTime\<close>, \<open>TaskBlocks\<close>, \<open>TaskBlocksProofs\<close> (\<open>src/db/resumable-progress.ts\<close>, \<open>plan-progress.ts\<close>): the
    resumable and plan blocks of a task's progress object, read defensively from JSON and written back;
    what is written is what is read.
  \<^item> \<open>PlanGraph\<close>, \<open>PlanGraphProofs\<close> (\<open>src/agents/plan-execution.ts\<close>): the validation of a plan's steps by walking blockers,
    exact against acyclicity, and the frontier of a plan.
  \<^item> \<open>CircuitBreaker\<close>, \<open>CircuitBreakerProofs\<close> (\<open>src/agents/resumable-circuit-breaker.ts\<close>): limits, stalls and
    runaway loops of a long task.
  \<^item> \<open>TaskRows\<close>, \<open>TaskRepo\<close>, \<open>TaskRepoInv\<close>, \<open>TaskRepoProofs\<close>, \<open>TaskClosing\<close> (\<open>src/db/task-repo.ts\<close>,
    \<open>src/contacts/principal.ts\<close>): the task store as two tables, rows and wake jobs, and a list of published
    events. Every SQL statement is an update of the tables and a call is one step; the invariant (a
    forest of tasks, at most one active wake per task, constraints of the schema) holds in every
    reachable store.
  \<^item> \<open>SchedulerJobs\<close> (\<open>src/scheduler/scheduler-service.ts\<close>, \<open>src/tasks/task-error-budget.ts\<close>): every call that writes
    the table of jobs, as guarded updates of one row against the constraints of the schema, and the
    statements the scheduler itself runs on the two tables. The cron parser, the check of a zone and the
    sentence of a time-out are an environment.
  \<^item> \<open>Scheduler\<close> (\<open>scheduler.ts\<close>, \<open>wake-disposition.ts\<close>, \<open>drift-detector.ts\<close>, \<open>src/agents/deferred-delegation.ts\<close>):
    polling, claiming, publishing, the end of a run with its one follow-up turn, the watchdog, start-up.
    A publication is in flight until a later step settles it, and rows read by a poll may be stale, so
    a list of steps is an interleaving. \<open>SchedulerProofs\<close>: slots, bookkeeping and tables stay in order, and
    what an operator holds stays held. \<open>SchedulerProps\<close>, \<open>JobProps\<close>: what happens to one job. \<open>SchedulerDemos\<close>:
    concrete runs.

  \<^item> \<open>JudgeBrief\<close>, \<open>JudgeBriefProps\<close> (\<open>src/dispatch/judge-brief.ts\<close>, \<open>json-extract.ts\<close>): the prompt of the
    judge of a send, with every value that comes from outside escaped between markers, the extraction
    of a JSON object from its reply and the strict reading of its answers. \<open>JSON.parse\<close> is a parameter.
  \<^item> \<open>Disclosure\<close>, \<open>DisclosureProps\<close> (\<open>src/dispatch/disclosure-decisions.ts\<close>): the questions put to the
    principal about personal data, the table of the answers, which answer is the latest.
  \<^item> \<open>BandReview\<close>, \<open>BandReviewRun\<close>, \<open>BandReviewProofs\<close>, \<open>BandReviewProps\<close>, \<open>BandDemos\<close>
    (\<open>src/dispatch/band-send-review.ts\<close>): the review of an outbound message under the autonomy bands,
    all of it. The collector of evidence, the judge, the lookup of a tier and the clock are an
    environment. \<open>review_rest\<close> holds for any ledger entry that was read, so for interleaved reviews;
    \<open>review\<close> is one review on its own. The lemmas say exactly when a message is sent, that a detail the
    principal declined is not, and that a draft bounces at most once while its entry lives. The one
    character of an ellipsis stands for the code's.

  \<^item> \<open>PiiRedactor\<close>, \<open>PiiRedactorProps\<close> (\<open>src/pii/scrubber.ts\<close>, \<open>src/dispatch/pii-redactor.ts\<close>): detection of
    personal data and its replacement. A regular expression is the function its \<open>exec\<close> computes; the
    loop over matches is a partial function, proved to return when no expression matches the empty
    string and not to return when one does.
  \<^item> \<open>ExportControls\<close>, \<open>ExportControlsProps\<close> (\<open>src/security/export-controls.ts\<close>): the gate on bulk exports, the
    items and the destination it reads from an input, the sensitivity it takes from the graph.
  \<^item> \<open>GatewayTypes\<close>, \<open>GatewayRecipients\<close>, \<open>GatewayGates\<close>, \<open>GatewayContent\<close>, \<open>GatewayReview\<close>, \<open>GatewayWire\<close>,
    \<open>GatewaySend\<close> (\<open>src/skills/outbound-gateway.ts\<close>, \<open>outbound-queue-repo.ts\<close>): the one way out. A send is a
    chain of gates, each a function of the gateway's state that ends the send or hands on; what it does
    to the outside is an event on a trace. Stores, clients and the bus are an environment that may fail
    at each event; a send sees one snapshot of the stores, and a flush is one step. It rests on the
    models of the relay budget, the band review, the redactor and the export gate.
    \<open>GatewayProofs\<close>: a gate is silent (no transport, no delivery, no queue), and what a gate that let a
    send through has checked. \<open>GatewaySteps\<close>: the locale \<open>send_steps\<close> of a relation that every step of a send
    keeps, instantiated for what leaves the process (\<open>GatewayProps\<close>: nothing leaves unchecked), for the size
    of the queue (\<open>GatewayQueue\<close>, with the flush) and for the changes of contacts (\<open>GatewayContacts\<close>). \<open>GatewaySafety\<close>: what a failed
    send leaves. \<open>GatewayDisclosure\<close>: raw details, the redacted wire, held sends. \<open>GatewayDemos\<close>: concrete
    sends.

  Fuel and bounds. The recursive query over a task's descendants takes fuel, the number of tasks;
  that is enough in every reachable store, because a parent is older than its child
  (\<open>descendants_spec\<close>), and running out means the query would not end. No other definition takes
  fuel. Times are integers in milliseconds, numbers rationals (rounding of doubles is not modelled),
  embeddings lists of reals; characters are code units below 256, so lower-casing is that of Latin-1.
  \<open>localeCompare\<close> is taken to agree with the order of code units, as it does on the ids and
  timestamps it is given. \<open>Date.parse\<close> on text that is not ISO 8601 is implementation-defined and a
  parameter, as are the printing and reading of numbers.

  Not modelled. Code whose work is done by something outside the repository: the agent runtime and
  everything that calls a model, the channels, the skills, the SQL of the
  other stores and of the Postgres contact backend, migrations, the consoles and the start-up code.
  Of the modelled files: sentences shown to a person (a blocker or warning is its code and its
  detail lines), log lines and metrics, constants of the wire format, a plan step whose id is
  \<open>__proto__\<close>, of the task store the listings, outreach rows and the active-skills block, and of the
  scheduler the text of a job's content (prior-run block, placeholders, recorded replies), the daily
  clean-up of outbound context, database calls that fail, and the scrubbing of sign-in codes from
  what is stored. Of the gateway: saved drafts and their review, reading and filing mail, linking an
  approval to an artifact, the rendered payload of an approval; the content filter, the tests for
  unresolved names, the markup and the signature are parameters. An export item of the gateway names
  its node as \<open>node_id\<close>; a dash stands as a control character, a bullet as a hyphen.
\<close>

end
